(* ===== verification/Prelude.thy ===== *)
theory Prelude
  imports Main "HOL-Library.AList" "HOL-Library.List_Lexorder"
begin

text \<open>
  Shared vocabulary of the development: the result type for code that throws, JavaScript sets and
  plain objects as lists, the string operations the engine uses, and the collation order behind
  \<open>localeCompare\<close>.

  A JavaScript string is a \<^typ>\<open>string\<close>; one \<^typ>\<open>char\<close> stands for one UTF-16 code unit below 256,
  so \<^const>\<open>length\<close> is the JavaScript length. JavaScript integers are \<^typ>\<open>int\<close>: every number of the
  engine is a bounded counter, far from the double precision limit.
\<close>

named_theorems res_simps \<open>equations of the result type\<close>
named_theorems status_simps \<open>facts about run statuses\<close>
named_theorems runtime_frame \<open>fields an operation of the runtime leaves alone\<close>

section \<open>Results\<close>

text \<open>
  Every \<open>throw\<close> of the engine is a value of \<open>wf_error\<close>. \<open>Error\<close> is a plain \<open>Error\<close> with its message,
  \<open>ZodError\<close> a failed schema parse (with the schema's name), \<open>RangeError\<close> a stack overflow or an
  invalid date, \<open>TypeError\<close> a read through \<open>undefined\<close>. The errors carrying validation issues are
  \<open>WorkflowValidationError\<close>, whose issues have a code, a message and the entity ids.
\<close>

datatype issue_code =
    DUPLICATE_ID | MISSING_NODE | SELF_EDGE | INVALID_EDGE_TARGET | INVALID_EDGE_SOURCE | CYCLE
  | UNREGISTERED_REVISION_EDGE | INVALID_REVISION_LOOP | DUPLICATE_LOOP_EDGE
  | MISSING_REQUIRED_CONTEXT | INVALID_REVIEWER | INVALID_REVIEW_TARGET | MISSING_CHECK_PRODUCER
  | MISSING_CHECK_INPUT | AMBIGUOUS_CHECK_PRODUCER | INVALID_GATE_SOURCE | RETRY_POLICY_MISMATCH
  | UNACHIEVABLE_STOP_CONDITION | INVALID_GROUP | RESOURCE_LIMIT | MISSING_NODE_CONFIGURATION
  | MISSING_EDGE_CONFIGURATION | NODE_UNAVAILABLE

record issue =
  issue_code :: issue_code
  issue_message :: string
  issue_entityIds :: "string list"

datatype wf_error =
    Error string
  | WorkflowValidationError "issue list"
  | ZodError string
  | RangeError string
  | TypeError string

type_synonym 'a res = "wf_error + 'a"

abbreviation throw :: "wf_error \<Rightarrow> 'a res" where "throw \<equiv> Inl"
abbreviation return :: "'a \<Rightarrow> 'a res" where "return \<equiv> Inr"

definition res_bind :: "'a res \<Rightarrow> ('a \<Rightarrow> 'b res) \<Rightarrow> 'b res" where
  "res_bind m f = (case m of Inl e \<Rightarrow> Inl e | Inr x \<Rightarrow> f x)"

lemma res_bind_simps [simp, res_simps]:
  "res_bind (Inl e) f = Inl e"
  "res_bind (Inr x) f = f x"
  by (simp_all add: res_bind_def)

lemma res_bind_eq_Inr [res_simps]:
  "res_bind m f = Inr y \<longleftrightarrow> (\<exists>x. m = Inr x \<and> f x = Inr y)"
  by (cases m) simp_all

lemma res_bind_eq_Inl [res_simps]:
  "res_bind m f = Inl e \<longleftrightarrow> m = Inl e \<or> (\<exists>x. m = Inr x \<and> f x = Inl e)"
  by (cases m) simp_all

lemma res_bind_InrE:
  assumes "res_bind m f = Inr y"
  obtains x where "m = Inr x" "f x = Inr y"
  using assms by (auto simp: res_bind_eq_Inr)

lemma res_bind_cong [fundef_cong]:
  "m = m' \<Longrightarrow> (\<And>x. m' = Inr x \<Longrightarrow> f x = g x) \<Longrightarrow> res_bind m f = res_bind m' g"
  by (cases m') simp_all

text \<open>Mapping a throwing function over an array, left to right, stopping at the first error.\<close>

fun map_res :: "('a \<Rightarrow> 'b res) \<Rightarrow> 'a list \<Rightarrow> 'b list res" where
  "map_res f [] = Inr []"
| "map_res f (x # xs) = res_bind (f x) (\<lambda>y. res_bind (map_res f xs) (\<lambda>ys. Inr (y # ys)))"

lemma map_res_cong [fundef_cong]:
  "xs = ys \<Longrightarrow> (\<And>x. x \<in> set ys \<Longrightarrow> f x = g x) \<Longrightarrow> map_res f xs = map_res g ys"
proof (induction ys arbitrary: xs)
  case Nil
  then show ?case by simp
next
  case (Cons y ys)
  then have "map_res f ys = map_res g ys" by simp
  with Cons.prems show ?case by simp
qed

lemma map_res_Inr_list_all2:
  "map_res f xs = Inr ys \<longleftrightarrow> list_all2 (\<lambda>x y. f x = Inr y) xs ys"
  by (induction xs arbitrary: ys) (auto simp: res_bind_eq_Inr list_all2_Cons1)

lemma map_res_Inr_length: "map_res f xs = Inr ys \<Longrightarrow> length ys = length xs"
  by (auto simp: map_res_Inr_list_all2 dest: list_all2_lengthD)

lemma map_res_Inr_in_set:
  assumes "map_res f xs = Inr ys" and "y \<in> set ys"
  shows "\<exists>x \<in> set xs. f x = Inr y"
  using assms
  by (induction xs arbitrary: ys) (auto simp: res_bind_eq_Inr)

lemma map_res_Inr_in_set':
  assumes "map_res f xs = Inr ys" and "x \<in> set xs"
  shows "\<exists>y \<in> set ys. f x = Inr y"
  using assms
  by (induction xs arbitrary: ys) (auto simp: res_bind_eq_Inr)

lemma map_res_total:
  "(\<And>x. x \<in> set xs \<Longrightarrow> \<exists>y. f x = Inr y) \<Longrightarrow> \<exists>ys. map_res f xs = Inr ys"
proof (induction xs)
  case Nil
  then show ?case by simp
next
  case (Cons x xs)
  then obtain y ys where "f x = Inr y" "map_res f xs = Inr ys"
    by (metis list.set_intros)
  then show ?case by simp
qed

lemma map_res_all_iff:
  "(\<exists>ys. map_res f xs = Inr ys \<and> (\<forall>y \<in> set ys. Q y)) \<longleftrightarrow> (\<forall>x \<in> set xs. \<exists>y. f x = Inr y \<and> Q y)"
proof (induction xs)
  case Nil
  then show ?case by simp
next
  case (Cons x xs)
  have "(\<exists>ys. map_res f (x # xs) = Inr ys \<and> (\<forall>y \<in> set ys. Q y)) \<longleftrightarrow>
      (\<exists>y. f x = Inr y \<and> Q y) \<and> (\<exists>ys. map_res f xs = Inr ys \<and> (\<forall>y \<in> set ys. Q y))"
    by (cases "f x"; cases "map_res f xs") simp_all
  with Cons show ?case by simp
qed

lemma map_res_pure [simp]: "map_res (\<lambda>x. Inr (f x)) xs = Inr (map f xs)"
  by (induction xs) simp_all

text \<open>Running throwing checks in order; the first error wins.\<close>

fun for_each :: "('a \<Rightarrow> unit res) \<Rightarrow> 'a list \<Rightarrow> unit res" where
  "for_each f [] = Inr ()"
| "for_each f (x # xs) = res_bind (f x) (\<lambda>_. for_each f xs)"

lemma for_each_Inr_iff: "for_each f xs = Inr u \<longleftrightarrow> (\<forall>x \<in> set xs. f x = Inr ())"
  by (induction xs) (auto simp: res_bind_eq_Inr)

definition throw_if :: "bool \<Rightarrow> wf_error \<Rightarrow> unit res" where
  "throw_if b e = (if b then Inl e else Inr ())"

lemma throw_if_Inr [simp, res_simps]: "throw_if b e = Inr u \<longleftrightarrow> \<not> b"
  by (simp add: throw_if_def)

lemma throw_if_simps [simp]:
  "throw_if True e = Inl e" "throw_if False e = Inr ()"
  by (simp_all add: throw_if_def)

definition is_ok :: "'a res \<Rightarrow> bool" where
  "is_ok m = (case m of Inl _ \<Rightarrow> False | Inr _ \<Rightarrow> True)"

lemma is_ok_simps [simp]: "is_ok (Inl e) = False" "is_ok (Inr x) = True"
  by (simp_all add: is_ok_def)

lemma is_ok_iff: "is_ok m \<longleftrightarrow> (\<exists>x. m = Inr x)"
  by (cases m) simp_all

end
