(* ===== verification/Js_Values.thy ===== *)
theory Js_Values
  imports Prelude
begin

text \<open>
  The JavaScript values the engine computes with: sets in insertion order, plain objects used as
  dictionaries, string operations, the collation behind \<open>localeCompare\<close> and \<open>uniqueSorted\<close>.
\<close>

section \<open>Sets\<close>

text \<open>A \<open>Set\<close> iterates in insertion order; adding a present element changes nothing.\<close>

definition set_add :: "'a \<Rightarrow> 'a list \<Rightarrow> 'a list" where
  "set_add x s = (if x \<in> set s then s else s @ [x])"

definition new_Set :: "'a list \<Rightarrow> 'a list" where
  "new_Set xs = fold set_add xs []"

lemma set_set_add [simp]: "set (set_add x s) = insert x (set s)"
  by (auto simp: set_add_def)

lemma distinct_set_add [simp]: "distinct (set_add x s) = distinct s"
  by (auto simp: set_add_def)

lemma set_fold_set_add: "set (fold set_add xs s) = set xs \<union> set s"
  by (induction xs arbitrary: s) auto

lemma distinct_fold_set_add: "distinct (fold set_add xs s) = distinct s"
  by (induction xs arbitrary: s) auto

lemma set_new_Set [simp]: "set (new_Set xs) = set xs"
  by (simp add: new_Set_def set_fold_set_add)

lemma distinct_new_Set [simp]: "distinct (new_Set xs)"
  by (simp add: new_Set_def distinct_fold_set_add)

lemma fold_set_add_distinct:
  "distinct (s @ xs) \<Longrightarrow> fold set_add xs s = s @ xs"
  by (induction xs arbitrary: s) (auto simp: set_add_def)

lemma length_new_Set_iff: "length (new_Set xs) = length xs \<longleftrightarrow> distinct xs"
proof
  assume "length (new_Set xs) = length xs"
  moreover have "length (new_Set xs) = card (set xs)"
    using distinct_card [of "new_Set xs"] by simp
  ultimately show "distinct xs" by (simp add: card_distinct)
next
  assume "distinct xs"
  then show "length (new_Set xs) = length xs"
    by (simp add: new_Set_def fold_set_add_distinct)
qed

section \<open>Plain objects as dictionaries\<close>

text \<open>
  A \<open>Record\<open><\<close>string, X\<open>>\<close>\<close> is an association list in insertion order. Reading is
  \<^const>\<open>map_of\<close>, spreading with one key (\<open>{ ...obj, [k]: v }\<close>) is \<open>obj_put\<close>. Keys that name a
  property of \<open>Object.prototype\<close> (\<open>constructor\<close> and the like) are outside the model.
\<close>

type_synonym 'a obj = "(string \<times> 'a) list"

definition obj_get :: "'a obj \<Rightarrow> string \<Rightarrow> 'a option" where
  "obj_get ob k = map_of ob k"

definition obj_put :: "string \<Rightarrow> 'a \<Rightarrow> 'a obj \<Rightarrow> 'a obj" where
  "obj_put k v ob = AList.update k v ob"

definition obj_keys :: "'a obj \<Rightarrow> string list" where
  "obj_keys ob = map fst ob"

definition obj_values :: "'a obj \<Rightarrow> 'a list" where
  "obj_values ob = map snd ob"

definition obj_from :: "(string \<times> 'a) list \<Rightarrow> 'a obj" where
  "obj_from kvs = fold (\<lambda>(k, v). obj_put k v) kvs []"

text \<open>A dictionary has each key once.\<close>

definition obj_ok :: "'a obj \<Rightarrow> bool" where
  "obj_ok ob = distinct (map fst ob)"

lemma obj_get_Nil [simp]: "obj_get [] k = None"
  by (simp add: obj_get_def)

lemma obj_get_Cons [simp]: "obj_get ((k', v) # ob) k = (if k' = k then Some v else obj_get ob k)"
  by (simp add: obj_get_def)

lemma obj_get_put [simp]: "obj_get (obj_put k v ob) k' = (if k = k' then Some v else obj_get ob k')"
  by (simp add: obj_get_def obj_put_def update_conv')

lemma obj_ok_Nil [simp]: "obj_ok []"
  by (simp add: obj_ok_def)

lemma obj_ok_put [simp]: "obj_ok (obj_put k v ob) = obj_ok ob"
proof
  show "obj_ok ob \<Longrightarrow> obj_ok (obj_put k v ob)"
    by (simp add: obj_ok_def obj_put_def distinct_update)
next
  show "obj_ok (obj_put k v ob) \<Longrightarrow> obj_ok ob"
    by (induction ob) (auto simp: obj_ok_def obj_put_def dom_update split: if_splits)
qed

lemma obj_keys_put: "set (obj_keys (obj_put k v ob)) = insert k (set (obj_keys ob))"
  by (simp add: obj_keys_def obj_put_def dom_update)

lemma obj_get_eq_Some_in: "obj_get ob k = Some v \<Longrightarrow> (k, v) \<in> set ob"
  by (simp add: obj_get_def map_of_SomeD)

lemma obj_get_eq_Some_iff: "obj_ok ob \<Longrightarrow> obj_get ob k = Some v \<longleftrightarrow> (k, v) \<in> set ob"
  by (simp add: obj_get_def obj_ok_def)

lemma obj_get_eq_None_iff: "obj_get ob k = None \<longleftrightarrow> k \<notin> set (obj_keys ob)"
  by (auto simp: obj_get_def obj_keys_def map_of_eq_None_iff)

lemma obj_get_value: "obj_get ob k = Some v \<Longrightarrow> v \<in> set (obj_values ob)"
  by (force simp: obj_values_def dest: obj_get_eq_Some_in)

lemma obj_put_present:
  assumes "obj_ok ob" and "obj_get ob k = Some w"
  shows "obj_put k v ob = map (\<lambda>(k', v'). (k', if k' = k then v else v')) ob"
  using assms
proof (induction ob)
  case Nil
  then show ?case by simp
next
  case (Cons p ob)
  obtain k' v' where p: "p = (k', v')" by (cases p)
  show ?case
  proof (cases "k' = k")
    case True
    with Cons.prems p have "k \<notin> fst ` set ob" by (auto simp: obj_ok_def)
    then have "map (\<lambda>(k', v'). (k', if k' = k then v else v')) ob = ob"
      by (intro map_idI) (auto simp: rev_image_eqI)
    with True p show ?thesis by (simp add: obj_put_def)
  next
    case False
    with Cons p show ?thesis by (simp add: obj_put_def obj_ok_def)
  qed
qed

text \<open>A list of assignments \<open>obj[k] = v\<close>, in order.\<close>

definition put_all :: "(string \<times> 'a) list \<Rightarrow> 'a obj \<Rightarrow> 'a obj" where
  "put_all changes ob = fold (\<lambda>(k, v). obj_put k v) changes ob"

lemma put_all_simps [simp]: "put_all [] ob = ob" "put_all ((k, v) # cs) ob = put_all cs (obj_put k v ob)"
  by (simp_all add: put_all_def)

lemma obj_keys_put_present: "k \<in> set (obj_keys ob) \<Longrightarrow> obj_keys (obj_put k v ob) = obj_keys ob"
  unfolding obj_keys_def obj_put_def by (induction ob) auto

lemma obj_keys_put_all: "fst ` set cs \<subseteq> set (obj_keys ob) \<Longrightarrow> obj_keys (put_all cs ob) = obj_keys ob"
  by (induction cs arbitrary: ob) (auto simp: obj_keys_put_present)

lemma obj_get_put_all_other: "k \<notin> fst ` set cs \<Longrightarrow> obj_get (put_all cs ob) k = obj_get ob k"
  by (induction cs arbitrary: ob) auto

lemma obj_get_put_all_in: "k \<in> fst ` set cs \<Longrightarrow> \<exists>v. (k, v) \<in> set cs \<and> obj_get (put_all cs ob) k = Some v"
proof (induction cs arbitrary: ob)
  case Nil
  then show ?case by simp
next
  case (Cons c cs)
  obtain k' v where c: "c = (k', v)" by (cases c)
  show ?case
  proof (cases "k \<in> fst ` set cs")
    case True
    from Cons.IH [OF this, of "obj_put k' v ob"] c show ?thesis by auto
  next
    case False
    then show ?thesis using Cons.prems c by (auto simp: obj_get_put_all_other)
  qed
qed

lemma obj_ok_fold_put: "obj_ok ob \<Longrightarrow> obj_ok (fold (\<lambda>(k, v). obj_put k v) kvs ob)"
  by (induction kvs arbitrary: ob) auto

lemma obj_ok_from [simp]: "obj_ok (obj_from kvs)"
  by (simp add: obj_from_def obj_ok_fold_put)

lemma obj_put_new: "k \<notin> fst ` set ob \<Longrightarrow> obj_put k v ob = ob @ [(k, v)]"
  unfolding obj_put_def by (induction ob) auto

lemma fold_obj_put_distinct:
  "distinct (map fst (ob @ kvs)) \<Longrightarrow> fold (\<lambda>(k, v). obj_put k v) kvs ob = ob @ kvs"
proof (induction kvs arbitrary: ob)
  case Nil
  then show ?case by simp
next
  case (Cons p kvs)
  obtain k v where p: "p = (k, v)" by (cases p)
  from Cons.prems p have "obj_put k v ob = ob @ [(k, v)]" by (intro obj_put_new) auto
  moreover from Cons.prems p have "distinct (map fst ((ob @ [(k, v)]) @ kvs))" by simp
  ultimately show ?case using Cons.IH [of "ob @ [(k, v)]"] p by simp
qed

lemma obj_from_distinct: "distinct (map fst kvs) \<Longrightarrow> obj_from kvs = kvs"
  by (simp add: obj_from_def fold_obj_put_distinct)

lemma obj_get_fold_map:
  "obj_get (fold (\<lambda>(k, v). obj_put k v) (map (\<lambda>i. (i, f i)) ks) ob) k
     = (if k \<in> set ks then Some (f k) else obj_get ob k)"
  by (induction ks arbitrary: ob) auto

lemma obj_get_from_map: "obj_get (obj_from (map (\<lambda>i. (i, f i)) ks)) k = (if k \<in> set ks then Some (f k) else None)"
  by (simp add: obj_from_def obj_get_fold_map)

section \<open>Strings\<close>

fun join :: "string \<Rightarrow> string list \<Rightarrow> string" where
  "join sep [] = []"
| "join sep [x] = x"
| "join sep (x # y # ys) = x @ sep @ join sep (y # ys)"

definition digit_char :: "nat \<Rightarrow> char" where
  "digit_char d = char_of (48 + d)"

fun show_nat :: "nat \<Rightarrow> string" where
  "show_nat n = (if n < 10 then [digit_char n] else show_nat (n div 10) @ [digit_char (n mod 10)])"

declare show_nat.simps [simp del]

definition show_int :: "int \<Rightarrow> string" where
  "show_int i = (if i < 0 then CHR ''-'' # show_nat (nat (- i)) else show_nat (nat i))"

definition is_space :: "char \<Rightarrow> bool" where
  "is_space c = (of_char c \<in> {9, 10, 11, 12, 13, 32, 160 :: nat})"

definition trim :: "string \<Rightarrow> string" where
  "trim s = rev (dropWhile is_space (rev (dropWhile is_space s)))"

lemma trim_eq_Nil_iff: "trim s = [] \<longleftrightarrow> (\<forall>c \<in> set s. is_space c)"
proof -
  have "trim s = [] \<longleftrightarrow> (\<forall>c \<in> set (dropWhile is_space s). is_space c)"
    by (simp add: trim_def dropWhile_eq_Nil_conv)
  also have "\<dots> \<longleftrightarrow> (\<forall>c \<in> set s. is_space c)"
    by (induction s) auto
  finally show ?thesis .
qed

section \<open>Collation\<close>

text \<open>
  Every sort of the engine uses \<open>left.localeCompare(right)\<close>. The model is the root collation of
  Unicode (the order the ICU tables give for English): a sort key made of the primary weights of
  all characters (punctuation, then digits, then letters with case folded), a separator, and the
  case weights that break ties (lower case first). The weights of the characters an identifier may
  hold are those of the root table; the characters outside printable ASCII follow in code order.
\<close>

definition collation_punctuation :: string where
  "collation_punctuation =
     '' _-,;:!?.'' @ [CHR 0x27, CHR 0x22] @ ''()[]{}@*/'' @ [CHR 0x5C] @ ''&#%'' @ [CHR 0x60]
     @ ''^+<=>|~$''"

fun index_in :: "'a list \<Rightarrow> 'a \<Rightarrow> nat" where
  "index_in [] y = 0"
| "index_in (x # xs) y = (if x = y then 0 else Suc (index_in xs y))"

lemma nth_index_in: "y \<in> set xs \<Longrightarrow> xs ! index_in xs y = y"
  by (induction xs) auto

lemma index_in_less: "y \<in> set xs \<Longrightarrow> index_in xs y < length xs"
  by (induction xs) auto

definition code_weight :: "nat \<Rightarrow> nat" where
  "code_weight n =
     (if 48 \<le> n \<and> n \<le> 57 then n + 52
      else if 65 \<le> n \<and> n \<le> 90 then n + 135
      else if 97 \<le> n \<and> n \<le> 122 then n + 103
      else 400 + n)"

definition upper_code :: "nat \<Rightarrow> nat" where
  "upper_code n = (if 65 \<le> n \<and> n \<le> 90 then 1 else 0)"

definition primary_weight :: "char \<Rightarrow> nat" where
  "primary_weight c =
     (if c \<in> set collation_punctuation then 1 + index_in collation_punctuation c
      else code_weight (of_char c))"

definition case_weight :: "char \<Rightarrow> nat" where
  "case_weight c = upper_code (of_char c)"

lemma code_weight_large: "100 \<le> code_weight n"
  by (simp add: code_weight_def)

lemma code_weight_inject:
  "code_weight n = code_weight m \<Longrightarrow> upper_code n = upper_code m \<Longrightarrow> n = m"
  unfolding code_weight_def upper_code_def by (simp split: if_splits)

definition collation_key :: "string \<Rightarrow> nat list" where
  "collation_key s = map primary_weight s @ 0 # map case_weight s"

lemma primary_weight_pos [simp]: "0 < primary_weight c"
  using code_weight_large [of "of_char c"] by (simp add: primary_weight_def)

lemma length_collation_punctuation: "length collation_punctuation = 33"
  by (simp add: collation_punctuation_def)

lemma primary_weight_punctuation:
  "primary_weight c \<le> 33 \<longleftrightarrow> c \<in> set collation_punctuation"
  using index_in_less [of c collation_punctuation] code_weight_large [of "of_char c"]
  by (auto simp: primary_weight_def length_collation_punctuation)

lemma weights_inject:
  assumes p: "primary_weight c = primary_weight d" and k: "case_weight c = case_weight d"
  shows "c = d"
proof (cases "c \<in> set collation_punctuation")
  case True
  then have both: "c \<in> set collation_punctuation" "d \<in> set collation_punctuation"
    using p by (simp_all flip: primary_weight_punctuation)
  with p have "index_in collation_punctuation c = index_in collation_punctuation d"
    by (simp add: primary_weight_def)
  with both show ?thesis by (metis nth_index_in)
next
  case False
  then have "c \<notin> set collation_punctuation" "d \<notin> set collation_punctuation"
    using p by (simp_all flip: primary_weight_punctuation)
  then have "code_weight (of_char c) = code_weight (of_char d)"
    using p by (simp add: primary_weight_def)
  then have "of_char c = (of_char d :: nat)"
    using k unfolding case_weight_def by (rule code_weight_inject)
  then show ?thesis by simp
qed

lemma collation_key_inject [simp]: "collation_key s = collation_key t \<longleftrightarrow> s = t"
proof
  assume eq: "collation_key s = collation_key t"
  have pre: "takeWhile (\<lambda>w. w \<noteq> 0) (collation_key u) = map primary_weight u" for u
    by (simp add: collation_key_def takeWhile_append2 takeWhile_tail)
  from eq have m: "map primary_weight s = map primary_weight t" by (metis pre)
  with eq have k: "map case_weight s = map case_weight t" by (simp add: collation_key_def)
  from m have "length s = length t" by (metis length_map)
  then show "s = t" using m k
    by (induction s t rule: list_induct2) (auto dest: weights_inject)
qed simp

text \<open>Strings under the collation form a linear order, so the library's sorting applies.\<close>

datatype collated = Collated (text_of: string)

instantiation collated :: linorder
begin

definition less_eq_collated :: "collated \<Rightarrow> collated \<Rightarrow> bool" where
  "less_eq_collated a b = (collation_key (text_of a) \<le> collation_key (text_of b))"

definition less_collated :: "collated \<Rightarrow> collated \<Rightarrow> bool" where
  "less_collated a b = (collation_key (text_of a) < collation_key (text_of b))"

instance
proof
  fix a b :: collated
  show "a \<le> b \<Longrightarrow> b \<le> a \<Longrightarrow> a = b"
    by (cases a; cases b) (auto simp: less_eq_collated_def dest: order_antisym)
  show "a < b \<longleftrightarrow> a \<le> b \<and> \<not> b \<le> a"
    unfolding less_eq_collated_def less_collated_def by (rule less_le_not_le)
  show "a \<le> a" unfolding less_eq_collated_def by (rule order_refl)
  show "a \<le> b \<or> b \<le> a" unfolding less_eq_collated_def by (rule linear)
  fix c
  show "a \<le> b \<Longrightarrow> b \<le> c \<Longrightarrow> a \<le> c" unfolding less_eq_collated_def by (rule order_trans)
qed

end

lemma Collated_less_iff [simp]:
  "Collated a \<le> Collated b \<longleftrightarrow> collation_key a \<le> collation_key b"
  "Collated a < Collated b \<longleftrightarrow> collation_key a < collation_key b"
  by (simp_all add: less_eq_collated_def less_collated_def)

section \<open>Sorting\<close>

text \<open>
  What the engine relies on in a sort: the comparison is a linear order that tells different
  values apart. Under that contract the sorted array of a set is canonical, so two arrays with the
  same elements give the same result however they were built.
\<close>

locale canonical_order =
  fixes key :: "'a \<Rightarrow> 'k::linorder"
  assumes key_inject: "key x = key y \<Longrightarrow> x = y"
begin

lemma inj_key: "inj_on key A"
  by (rule inj_onI) (rule key_inject)

lemma sort_unique:
  assumes "distinct xs" and "distinct ys" and "set xs = set ys"
  shows "sort_key key xs = sort_key key ys"
proof -
  have "map key (sort_key key xs) = map key (sort_key key ys)"
    using assms by (intro sorted_distinct_set_unique) (auto simp: distinct_map inj_key)
  then show ?thesis by (rule map_inj_on) (rule inj_key)
qed

lemma sort_new_Set_cong:
  "set xs = set ys \<Longrightarrow> sort_key key (new_Set xs) = sort_key key (new_Set ys)"
  by (rule sort_unique) simp_all

lemma sort_new_Set_id:
  assumes "sorted (map key xs)" and "distinct xs"
  shows "sort_key key (new_Set xs) = xs"
proof -
  have "sort_key key (new_Set xs) = sort_key key xs"
    using assms by (intro sort_unique) simp_all
  also have "\<dots> = xs" using assms by (simp add: sort_key_id_if_sorted)
  finally show ?thesis .
qed

end

interpretation ids: canonical_order Collated
  by unfold_locales simp

definition sort_ids :: "string list \<Rightarrow> string list" where
  "sort_ids xs = sort_key Collated xs"

definition uniqueSorted :: "string list \<Rightarrow> string list" where
  "uniqueSorted values = sort_ids (new_Set values)"

lemma set_sort_ids [simp]: "set (sort_ids xs) = set xs"
  by (simp add: sort_ids_def)

lemma distinct_sort_ids [simp]: "distinct (sort_ids xs) = distinct xs"
  by (simp add: sort_ids_def)

lemma length_sort_ids [simp]: "length (sort_ids xs) = length xs"
  by (simp add: sort_ids_def)

lemma sort_ids_Nil_iff [simp]: "sort_ids xs = [] \<longleftrightarrow> xs = []"
  unfolding length_0_conv [symmetric] by simp

lemma sorted_sort_ids: "sorted (map Collated (sort_ids xs))"
  by (simp add: sort_ids_def)

lemma set_uniqueSorted [simp]: "set (uniqueSorted xs) = set xs"
  by (simp add: uniqueSorted_def)

lemma distinct_uniqueSorted [simp]: "distinct (uniqueSorted xs)"
  by (simp add: uniqueSorted_def)

lemma uniqueSorted_Nil_iff [simp]: "uniqueSorted xs = [] \<longleftrightarrow> xs = []"
  unfolding set_empty [symmetric] by simp

lemma uniqueSorted_cong: "set xs = set ys \<Longrightarrow> uniqueSorted xs = uniqueSorted ys"
  unfolding uniqueSorted_def sort_ids_def by (rule ids.sort_new_Set_cong)

lemma uniqueSorted_eq_iff: "uniqueSorted xs = uniqueSorted ys \<longleftrightarrow> set xs = set ys"
  by (metis set_uniqueSorted uniqueSorted_cong)

lemma sort_ids_cong:
  "distinct xs \<Longrightarrow> distinct ys \<Longrightarrow> set xs = set ys \<Longrightarrow> sort_ids xs = sort_ids ys"
  unfolding sort_ids_def by (rule ids.sort_unique)

end
