(* ===== verification/Iso_Time.thy ===== *)
theory Iso_Time
  imports Js_Values
begin

text \<open>
  Timestamps. The engine keeps every instant as the ISO 8601 text the host supplied
  (\<open>z.string().datetime({ offset: true })\<close>), compares instants through \<open>Date.parse\<close> and writes one
  itself with \<open>toISOString\<close>. Both are executable here, on the proleptic Gregorian calendar, in
  milliseconds since 1970.
\<close>

type_synonym timestamp = string

definition digit_value :: "char \<Rightarrow> int option" where
  "digit_value c = (let n = of_char c :: nat in if 48 \<le> n \<and> n \<le> 57 then Some (int n - 48) else None)"

fun decimal_from :: "int \<Rightarrow> string \<Rightarrow> int option" where
  "decimal_from acc [] = Some acc"
| "decimal_from acc (c # cs) =
     (case digit_value c of None \<Rightarrow> None | Some d \<Rightarrow> decimal_from (10 * acc + d) cs)"

definition decimal :: "string \<Rightarrow> int option" where
  "decimal s = (if s = [] then None else decimal_from 0 s)"

definition is_digit :: "char \<Rightarrow> bool" where
  "is_digit c = (digit_value c \<noteq> None)"

definition leap_year :: "int \<Rightarrow> bool" where
  "leap_year y = (y mod 4 = 0 \<and> (y mod 100 \<noteq> 0 \<or> y mod 400 = 0))"

definition days_in_month :: "int \<Rightarrow> int \<Rightarrow> int" where
  "days_in_month y m =
     (if m = 2 then (if leap_year y then 29 else 28)
      else if m \<in> {4, 6, 9, 11} then 30 else 31)"

definition days_from_civil :: "int \<Rightarrow> int \<Rightarrow> int \<Rightarrow> int" where
  "days_from_civil y m d =
     (let y' = (if m \<le> 2 then y - 1 else y);
          era = y' div 400;
          yoe = y' - era * 400;
          doy = (153 * (if m > 2 then m - 3 else m + 9) + 2) div 5 + d - 1;
          doe = yoe * 365 + yoe div 4 - yoe div 100 + doy
      in era * 146097 + doe - 719468)"

definition parse_offset :: "string \<Rightarrow> int option" where
  "parse_offset s =
     (if s = ''Z'' then Some 0
      else case s of
        sign # h1 # h2 # rest \<Rightarrow>
          (let m = (case rest of c # m' \<Rightarrow> if c = CHR '':'' then m' else rest | [] \<Rightarrow> rest)
           in if (sign = CHR ''+'' \<or> sign = CHR ''-'') \<and> length m = 2
              then case (decimal [h1, h2], decimal m) of
                     (Some h, Some n) \<Rightarrow> Some ((if sign = CHR ''-'' then -1 else 1) * (60 * h + n))
                   | _ \<Rightarrow> None
              else None)
      | _ \<Rightarrow> None)"

text \<open>Seconds and the fraction (milliseconds, further digits dropped) in front of the offset.\<close>

definition parse_fraction :: "string \<Rightarrow> (int \<times> string) option" where
  "parse_fraction s =
     (case s of
        c # rest \<Rightarrow>
          (if c = CHR ''.'' then
             (let f = takeWhile is_digit rest in
              if f = [] then None
              else map_option (\<lambda>n. (n, dropWhile is_digit rest)) (decimal (take 3 (f @ ''00''))))
           else Some (0, s))
      | [] \<Rightarrow> Some (0, s))"

definition parse_seconds :: "string \<Rightarrow> (int \<times> string) option" where
  "parse_seconds s =
     (case s of
        c # s1 # s2 # rest \<Rightarrow>
          (if c = CHR '':'' then
             (case (decimal [s1, s2], parse_fraction rest) of
                (Some sec, Some (ms, rest')) \<Rightarrow>
                  if sec \<le> 59 then Some (1000 * sec + ms, rest') else None
              | _ \<Rightarrow> None)
           else Some (0, s))
      | _ \<Rightarrow> Some (0, s))"

definition parse_clock :: "string \<Rightarrow> int option" where
  "parse_clock s =
     (case s of
        h1 # h2 # c # n1 # n2 # rest \<Rightarrow>
          (case (decimal [h1, h2], decimal [n1, n2], parse_seconds rest) of
             (Some h, Some n, Some (ms, rest')) \<Rightarrow>
               if c = CHR '':'' \<and> h \<le> 23 \<and> n \<le> 59
               then map_option (\<lambda>off. 3600000 * h + 60000 * (n - off) + ms) (parse_offset rest')
               else None
           | _ \<Rightarrow> None)
      | _ \<Rightarrow> None)"

definition Date_parse :: "timestamp \<Rightarrow> int option" where
  "Date_parse s =
     (case s of
        y1 # y2 # y3 # y4 # p1 # m1 # m2 # p2 # d1 # d2 # t # rest \<Rightarrow>
          (case (decimal [y1, y2, y3, y4], decimal [m1, m2], decimal [d1, d2], parse_clock rest) of
             (Some y, Some m, Some d, Some ms) \<Rightarrow>
               if p1 = CHR ''-'' \<and> p2 = CHR ''-'' \<and> t = CHR ''T'' \<and> 1 \<le> m \<and> m \<le> 12
                  \<and> 1 \<le> d \<and> d \<le> days_in_month y m
               then Some (86400000 * days_from_civil y m d + ms)
               else None
           | _ \<Rightarrow> None)
      | _ \<Rightarrow> None)"

text \<open>\<open>TimestampSchema\<close> accepts exactly the texts of this format.\<close>

definition is_timestamp :: "string \<Rightarrow> bool" where
  "is_timestamp s = (Date_parse s \<noteq> None)"

text \<open>\<open>Date.parse(a) > Date.parse(b)\<close>; a comparison with \<open>NaN\<close> is false.\<close>

definition date_after :: "timestamp \<Rightarrow> timestamp \<Rightarrow> bool" where
  "date_after a b =
     (case (Date_parse a, Date_parse b) of (Some x, Some y) \<Rightarrow> x > y | _ \<Rightarrow> False)"

definition date_at_most :: "timestamp \<Rightarrow> timestamp \<Rightarrow> bool" where
  "date_at_most a b =
     (case (Date_parse a, Date_parse b) of (Some x, Some y) \<Rightarrow> x \<le> y | _ \<Rightarrow> False)"

definition pad :: "nat \<Rightarrow> int \<Rightarrow> string" where
  "pad w n = (let s = show_int n in replicate (w - length s) (CHR ''0'') @ s)"

definition civil_from_days :: "int \<Rightarrow> int \<times> int \<times> int" where
  "civil_from_days z0 =
     (let z = z0 + 719468;
          era = z div 146097;
          doe = z - era * 146097;
          yoe = (doe - doe div 1460 + doe div 36524 - doe div 146096) div 365;
          doy = doe - (365 * yoe + yoe div 4 - yoe div 100);
          mp = (5 * doy + 2) div 153;
          d = doy - (153 * mp + 2) div 5 + 1;
          m = (if mp < 10 then mp + 3 else mp - 9)
      in (yoe + era * 400 + (if m \<le> 2 then 1 else 0), m, d))"

text \<open>\<open>new Date(ms).toISOString()\<close>; outside the range of a date it throws a \<open>RangeError\<close>.\<close>

definition toISOString :: "int \<Rightarrow> string res" where
  "toISOString ms =
     (if \<bar>ms\<bar> > 8640000000000000 then throw (RangeError ''Invalid time value'')
      else let (y, m, d) = civil_from_days (ms div 86400000);
               t = ms mod 86400000;
               ys = (if 0 \<le> y \<and> y \<le> 9999 then pad 4 y
                     else (if y < 0 then ''-'' else ''+'') @ pad 6 \<bar>y\<bar>)
           in return (ys @ ''-'' @ pad 2 m @ ''-'' @ pad 2 d @ ''T''
                @ pad 2 (t div 3600000) @ '':'' @ pad 2 (t div 60000 mod 60) @ '':''
                @ pad 2 (t div 1000 mod 60) @ ''.'' @ pad 3 (t mod 1000) @ ''Z''))"

end
