(* ===== verification/Json.thy ===== *)
theory Json
  imports Iso_Time
begin

text \<open>
  JSON values, \<open>stableValue\<close> of \<open>workflow-runtime/evidence-state.ts\<close> and \<open>JSON.stringify\<close>: the
  text form every evidence fingerprint is made of. A JSON number of the model is an integer.
\<close>

datatype json =
    JNull
  | JBool bool
  | JNum int
  | JStr string
  | JArr "json list"
  | JObj "(string \<times> json) list"

text \<open>Objects are rebuilt with their entries in collation order, at every depth.\<close>

function stableValue :: "json \<Rightarrow> json" where
  "stableValue (JArr vs) = JArr (map stableValue vs)"
| "stableValue (JObj kvs) =
     JObj (obj_from (map (\<lambda>(k, v). (k, stableValue v)) (sort_key (\<lambda>(k, _). Collated k) kvs)))"
| "stableValue JNull = JNull"
| "stableValue (JBool b) = JBool b"
| "stableValue (JNum n) = JNum n"
| "stableValue (JStr s) = JStr s"
  by pat_completeness auto

lemma size_snd_in_list: "(k, v) \<in> set kvs \<Longrightarrow> size (v :: json) \<le> size_list (size_prod (\<lambda>_. 0) size) kvs"
  by (induction kvs) auto

termination stableValue
  by (relation "measure size")
     (auto dest!: size_snd_in_list simp: less_Suc_eq_le size_list_estimation')

section \<open>JSON.stringify\<close>

definition hex_digit :: "nat \<Rightarrow> char" where
  "hex_digit d = char_of (if d < 10 then 48 + d else 87 + d)"

definition escape_char :: "char \<Rightarrow> string" where
  "escape_char c =
     (let n = of_char c :: nat in
      if n = 34 then [CHR 0x5C, CHR 0x22]
      else if n = 92 then [CHR 0x5C, CHR 0x5C]
      else if n = 8 then [CHR 0x5C, CHR ''b'']
      else if n = 9 then [CHR 0x5C, CHR ''t'']
      else if n = 10 then [CHR 0x5C, CHR ''n'']
      else if n = 12 then [CHR 0x5C, CHR ''f'']
      else if n = 13 then [CHR 0x5C, CHR ''r'']
      else if n < 32 then [CHR 0x5C, CHR ''u'', CHR ''0'', CHR ''0'', hex_digit (n div 16), hex_digit (n mod 16)]
      else [c])"

definition quote :: "string \<Rightarrow> string" where
  "quote s = [CHR 0x22] @ concat (map escape_char s) @ [CHR 0x22]"

text \<open>
  The enumeration order of an object's keys: canonical array indices in numeric order, then the
  other keys in insertion order.
\<close>

definition array_index :: "string \<Rightarrow> nat option" where
  "array_index s =
     (case decimal s of
        None \<Rightarrow> None
      | Some n \<Rightarrow> if (s = ''0'' \<or> hd s \<noteq> CHR ''0'') \<and> n < 4294967295 then Some (nat n) else None)"

definition own_entries :: "(string \<times> 'a) list \<Rightarrow> (string \<times> 'a) list" where
  "own_entries kvs =
     sort_key (\<lambda>(k, _). the (array_index k)) (filter (\<lambda>(k, _). array_index k \<noteq> None) kvs)
     @ filter (\<lambda>(k, _). array_index k = None) kvs"

lemma set_own_entries [simp]: "set (own_entries kvs) = set kvs"
  by (auto simp: own_entries_def)

function stringify :: "json \<Rightarrow> string" where
  "stringify JNull = ''null''"
| "stringify (JBool b) = (if b then ''true'' else ''false'')"
| "stringify (JNum n) = show_int n"
| "stringify (JStr s) = quote s"
| "stringify (JArr vs) = ''['' @ join '','' (map stringify vs) @ '']''"
| "stringify (JObj kvs) =
     ''{'' @ join '','' (map (\<lambda>(k, v). quote k @ '':'' @ stringify v) (own_entries kvs)) @ ''}''"
  by pat_completeness auto

termination stringify
  by (relation "measure size")
     (auto dest!: size_snd_in_list simp: less_Suc_eq_le size_list_estimation')

definition json_opt :: "('a \<Rightarrow> json) \<Rightarrow> string \<Rightarrow> 'a option \<Rightarrow> (string \<times> json) list" where
  "json_opt f k x = (case x of None \<Rightarrow> [] | Some v \<Rightarrow> [(k, f v)])"

definition json_record :: "('a \<Rightarrow> json) \<Rightarrow> 'a obj \<Rightarrow> json" where
  "json_record f ob = JObj (map (\<lambda>(k, v). (k, f v)) ob)"

end
