(* ===== verification/Nodes.thy ===== *)
theory Nodes
  imports Complex_Main Json
begin

text \<open>
  Canvas nodes: the shared shapes and the eighteen node types of \<open>packages/core/src/model/domain.ts\<close>
  with the constraints their schemas put on a parsed value. Optional fields are \<^typ>\<open>'a option\<close>,
  enumerations are datatypes, a discriminated union is a datatype with the source's variants.
  Coordinates and amounts of money, which no operation of the engine reads, are \<^typ>\<open>rat\<close>.
\<close>

type_synonym entity_id = string

section \<open>Statuses\<close>

datatype run_status =
    Queued | Running | WaitingForApproval | Paused | Cancelling
  | Failed | Succeeded | Cancelled | Lost

datatype node_status = Draft | Ready | RunStatus run_status | Blocked

fun run_status_text :: "run_status \<Rightarrow> string" where
  "run_status_text Queued = ''queued''"
| "run_status_text Running = ''running''"
| "run_status_text WaitingForApproval = ''waiting-for-approval''"
| "run_status_text Paused = ''paused''"
| "run_status_text Cancelling = ''cancelling''"
| "run_status_text Failed = ''failed''"
| "run_status_text Succeeded = ''succeeded''"
| "run_status_text Cancelled = ''cancelled''"
| "run_status_text Lost = ''lost''"

instantiation run_status :: enum
begin

definition enum_run_status :: "run_status list" where
  "enum_run_status =
     [Queued, Running, WaitingForApproval, Paused, Cancelling, Failed, Succeeded, Cancelled, Lost]"

definition enum_all_run_status :: "(run_status \<Rightarrow> bool) \<Rightarrow> bool" where
  "enum_all_run_status P = list_all P enum_class.enum"

definition enum_ex_run_status :: "(run_status \<Rightarrow> bool) \<Rightarrow> bool" where
  "enum_ex_run_status P = list_ex P enum_class.enum"

instance
proof
  have all: "s \<in> set (enum_class.enum :: run_status list)" for s
    by (cases s) (simp_all add: enum_run_status_def)
  then show "(UNIV :: run_status set) = set enum_class.enum" by auto
  show "distinct (enum_class.enum :: run_status list)" by (simp add: enum_run_status_def)
  fix P :: "run_status \<Rightarrow> bool"
  show "enum_class.enum_all P = Ball UNIV P"
    using all by (auto simp: enum_all_run_status_def list_all_iff)
  show "enum_class.enum_ex P = Bex UNIV P"
    using all by (auto simp: enum_ex_run_status_def list_ex_iff)
qed

end

section \<open>Shared shapes\<close>

record point =
  pt_x :: rat
  pt_y :: rat

record size_shape =
  sz_width :: rat
  sz_height :: rat

datatype file_kind = KindFile | KindDirectory | KindImage | KindArtifact

record local_file_reference =
  lf_projectId :: entity_id
  lf_relativePath :: string
  lf_kind :: file_kind
  lf_missing :: bool
  lf_lastKnownHash :: "string option"

datatype comment_scope = ScopeLocal | ScopeShared

record comment =
  cm_id :: entity_id
  cm_authorId :: entity_id
  cm_scope :: "comment_scope option"
  cm_body :: string
  cm_createdAt :: timestamp
  cm_updatedAt :: "timestamp option"
  cm_resolvedAt :: "timestamp option"

record resource_requirements =
  cpuUnits :: int
  memoryMb :: int
  exclusiveKeys :: "string list"

record command_spec =
  cmd_executable :: string
  cmd_args :: "string list"
  cmd_cwdRelative :: "string option"
  cmd_environmentNames :: "string list"

record acceptance_criterion =
  ac_id :: entity_id
  ac_description :: string
  ac_satisfied :: bool
  ac_evidence :: "string option"

text \<open>
  A URL field holds its text with the parts the platform's \<open>new URL\<close> finds in it; a text that \<open>new URL\<close>
  rejects is no value of the field.
\<close>

record url =
  url_text :: string
  url_protocol :: string
  url_hostname :: string
  url_username :: string
  url_password :: string
  url_search :: string
  url_hash :: string
  url_pathname :: string

section \<open>Node data\<close>

record token_usage =
  tu_inputTokens :: "int option"
  tu_cachedInputTokens :: "int option"
  tu_outputTokens :: "int option"
  tu_totalTokens :: "int option"

record agent_data =
  ag_adapterId :: "entity_id option"
  ag_model :: "string option"
  ag_permissionProfileId :: "entity_id option"
  ag_worktreeId :: "entity_id option"
  ag_branch :: "string option"
  ag_contextAttachmentIds :: "entity_id list"
  ag_promptDraft :: string
  ag_activeSessionId :: "entity_id option"
  ag_streamedOutputArtifactId :: "entity_id option"
  ag_pauseSupported :: bool
  ag_interruptSupported :: bool
  ag_resumeSupported :: bool
  ag_tokenUsage :: "token_usage option"
  ag_cost :: "(rat \<times> string) option"

record product_brief_data =
  pb_markdown :: string
  pb_checklist :: "(entity_id \<times> string \<times> bool) list option"
  pb_attachmentIds :: "entity_id list"
  pb_acceptanceCriteria :: "acceptance_criterion list"
  pb_versions :: "(entity_id \<times> timestamp \<times> string \<times> entity_id) list option"
  pb_variables :: "string obj"

datatype task_priority = PriorityLow | PriorityNormal | PriorityHigh | PriorityUrgent

datatype task_status = TaskBacklog | TaskReady | TaskInProgress | TaskReview | TaskDone | TaskCancelled

record task_data =
  tk_description :: string
  tk_priority :: task_priority
  tk_assigneeId :: "entity_id option"
  tk_dependencyTaskIds :: "entity_id list"
  tk_acceptanceCriteria :: "acceptance_criterion list"
  tk_relatedFiles :: "local_file_reference list"
  tk_taskStatus :: task_status

record file_data =
  fl_file :: "local_file_reference option"
  fl_language :: "string option"
  fl_dirty :: bool
  fl_historyRefs :: "string list"
  fl_readOnly :: bool
  fl_recoverableWarning :: "string option"

datatype review_target = TargetPrimary | TargetAgentRun string

datatype view_mode = ViewSplit | ViewUnified
datatype hunk_decision = HunkPending | HunkAccepted | HunkRejected
datatype diff_approval = DiffPending | DiffApproved | DiffChangesRequested

record diff_review_data =
  df_reviewTarget :: "review_target option"
  df_baseRef :: "string option"
  df_headRef :: "string option"
  df_worktreeId :: "entity_id option"
  df_files :: "string list"
  df_viewMode :: view_mode
  df_showWhitespace :: bool
  df_ignoreWhitespace :: bool
  df_hunkDecisions :: "hunk_decision obj"
  df_lineCommentIds :: "entity_id list"
  df_revisionRequest :: "string option"
  df_approval :: diff_approval

datatype process_status =
  ProcIdle | ProcStarting | ProcRunning | ProcStopped | ProcFailed | ProcLost

record terminal_data =
  tm_cwdRelative :: "string option"
  tm_processStatus :: process_status
  tm_permissionProfileId :: "entity_id option"
  tm_command :: "command_spec option"
  tm_ptySessionId :: "entity_id option"
  tm_historyArtifactId :: "entity_id option"
  tm_lastExitCode :: "int option"

datatype preview_preset = PresetDesktop | PresetLaptop | PresetIphone | PresetPixel | PresetTablet
datatype orientation = Portrait | Landscape

record preview_comparison =
  pc_leftTarget :: "string option"
  pc_rightTarget :: "string option"
  pc_leftPreset :: preview_preset
  pc_rightPreset :: preview_preset

record preview_configuration =
  pv_target :: review_target
  pv_command :: "command_spec option"
  pv_packageScript :: "string option"
  pv_cwdRelative :: string
  pv_readinessPath :: string
  pv_urlPath :: string
  pv_preset :: "preview_preset option"
  pv_secondaryPreset :: "preview_preset option"
  pv_orientation :: orientation
  pv_sideBySide :: bool
  pv_browserAuthenticationEnabled :: bool
  pv_agentBrowserAccess :: bool
  pv_agentBrowserInteraction :: bool
  pv_comparison :: "preview_comparison option"

record web_preview_data =
  wp_configuration :: preview_configuration
  wp_serverId :: "entity_id option"
  wp_worktreeId :: "entity_id option"
  wp_url :: "url option"
  wp_detectedUrl :: bool
  wp_viewport :: size_shape
  wp_navigationHistory :: "url list"
  wp_consoleArtifactId :: "entity_id option"
  wp_errorArtifactId :: "entity_id option"
  wp_screenshotIds :: "entity_id list"

record mobile_viewport =
  mv_id :: entity_id
  mv_name :: string
  mv_width :: int
  mv_height :: int
  mv_orientation :: orientation
  mv_touch :: bool

record mobile_preview_data =
  mp_configuration :: preview_configuration
  mp_serverId :: "entity_id option"
  mp_worktreeId :: "entity_id option"
  mp_url :: "url option"
  mp_viewports :: "mobile_viewport list"
  mp_synchronizedNavigation :: bool
  mp_screenshotIds :: "entity_id list"

record test_summary =
  ts_passed :: int
  ts_failed :: int
  ts_skipped :: int

record test_data =
  te_command :: "command_spec option"
  te_runIds :: "entity_id list"
  te_summary :: "test_summary option"
  te_artifactIds :: "entity_id list"
  te_artifactPaths :: "string list option"

record retry_policy =
  maximumIterations :: int
  backoffMs :: int

datatype gate_state = GatePending | GatePassed | GateFailed | GateWaitingForHuman

record review_gate_data =
  rg_humanApprovalRequired :: bool
  rg_requiredCheckIds :: "entity_id list"
  rg_lintRequired :: bool
  rg_testsRequired :: bool
  rg_reviewerAgentId :: "entity_id option"
  rg_retryPolicy :: retry_policy
  rg_gateState :: gate_state

datatype merge_readiness = MergeUnknown | MergeReady | MergeConflicts | MergeChecksFailing

record git_pr_data =
  gp_deliveryTarget :: "string option"
  gp_worktreeId :: "entity_id option"
  gp_branch :: "string option"
  gp_remote :: "string option"
  gp_destinationBranch :: "string option"
  gp_baseBranch :: "string option"
  gp_pullRequestTitle :: "string option"
  gp_pullRequestBody :: "string option"
  gp_pullRequestDraft :: bool
  gp_commitIds :: "string list"
  gp_ahead :: int
  gp_behind :: int
  gp_mergeReadiness :: merge_readiness
  gp_pullRequestUrl :: "url option"
  gp_checkIds :: "entity_id list"

record diagram_data =
  dg_mermaidSource :: string
  dg_exportArtifactIds :: "entity_id list"
  dg_lastRenderError :: "string option"
  dg_agentEditable :: bool

record whiteboard_data =
  wb_excalidraw :: json
  wb_annotationIds :: "entity_id list"
  wb_exportArtifactIds :: "entity_id list"
  wb_contextSpecificationArtifactId :: "entity_id option"

record note_image_data =
  ni_markdown :: string
  ni_images :: "local_file_reference list"
  ni_altText :: "string obj"

datatype font_size = FontS | FontM | FontL

record text_data =
  tx_text :: string
  tx_fontSize :: font_size
  tx_rotationDeg :: rat

datatype frame_purpose = ProductSurface | WorkflowStage | FeatureArea | CustomPurpose
datatype frame_layout = Freeform | Horizontal | Vertical | Grid

record group_frame_data =
  gf_purpose :: frame_purpose
  gf_childNodeIds :: "entity_id list"
  gf_layout :: frame_layout
  gf_autoFit :: bool

datatype availability = Active | Quarantined | Unavailable

record extension_data =
  ex_extensionId :: entity_id
  ex_extensionVersion :: string
  ex_nodeTypeId :: entity_id
  ex_definition :: json
  ex_values :: "json obj"
  ex_availability :: availability

datatype node_data =
    is_AgentNode: AgentNode agent_data
  | ProductBriefNode product_brief_data
  | is_TaskNode: TaskNode task_data
  | FileNode file_data
  | VideoNode "local_file_reference option"
  | is_DiffReviewNode: DiffReviewNode diff_review_data
  | TerminalNode terminal_data
  | WebPreviewNode web_preview_data
  | MobilePreviewNode mobile_preview_data
  | is_TestNode: TestNode test_data
  | is_ReviewGateNode: ReviewGateNode review_gate_data
  | GitPullRequestNode git_pr_data
  | DiagramNode diagram_data
  | WhiteboardMockupNode whiteboard_data
  | NoteImageNode note_image_data
  | TextNode text_data
  | is_GroupFrameNode: GroupFrameNode group_frame_data
  | ExtensionNode extension_data

record canvas_node =
  node_id :: entity_id
  node_title :: string
  node_color :: string
  node_icon :: string
  node_position :: point
  node_size :: size_shape
  node_collapsed :: bool
  node_locked :: bool
  node_groupId :: "entity_id option"
  node_comments :: "comment list"
  node_status :: node_status
  node_runHistoryIds :: "entity_id list"
  node_inspector :: "json obj"
  node_resources :: resource_requirements
  node_createdAt :: timestamp
  node_updatedAt :: timestamp
  node_data :: node_data

fun node_type_text :: "node_data \<Rightarrow> string" where
  "node_type_text (AgentNode _) = ''agent''"
| "node_type_text (ProductBriefNode _) = ''product-brief''"
| "node_type_text (TaskNode _) = ''task''"
| "node_type_text (FileNode _) = ''file''"
| "node_type_text (VideoNode _) = ''video''"
| "node_type_text (DiffReviewNode _) = ''diff-review''"
| "node_type_text (TerminalNode _) = ''terminal''"
| "node_type_text (WebPreviewNode _) = ''web-preview''"
| "node_type_text (MobilePreviewNode _) = ''mobile-preview''"
| "node_type_text (TestNode _) = ''test''"
| "node_type_text (ReviewGateNode _) = ''review-gate''"
| "node_type_text (GitPullRequestNode _) = ''git-pr''"
| "node_type_text (DiagramNode _) = ''diagram''"
| "node_type_text (WhiteboardMockupNode _) = ''whiteboard-mockup''"
| "node_type_text (NoteImageNode _) = ''note-image''"
| "node_type_text (TextNode _) = ''text''"
| "node_type_text (GroupFrameNode _) = ''group-frame''"
| "node_type_text (ExtensionNode _) = ''extension''"

section \<open>Schemas of the shared shapes\<close>

definition len_between :: "nat \<Rightarrow> nat \<Rightarrow> 'a list \<Rightarrow> bool" where
  "len_between lo hi s = (lo \<le> length s \<and> length s \<le> hi)"

definition is_letter :: "char \<Rightarrow> bool" where
  "is_letter c = (let n = of_char c :: nat in 65 \<le> n \<and> n \<le> 90 \<or> 97 \<le> n \<and> n \<le> 122)"

definition EntityId_ok :: "string \<Rightarrow> bool" where
  "EntityId_ok s =
     (len_between 1 128 s \<and> (is_letter (hd s) \<or> is_digit (hd s))
      \<and> list_all (\<lambda>c. is_letter c \<or> is_digit c \<or> c \<in> set ''._:-'') s)"

fun split_by :: "(char \<Rightarrow> bool) \<Rightarrow> string \<Rightarrow> string list" where
  "split_by P [] = [[]]"
| "split_by P (c # cs) =
     (if P c then [] # split_by P cs
      else case split_by P cs of s # ss \<Rightarrow> (c # s) # ss | [] \<Rightarrow> [[c]])"

definition RelativePath_ok :: "string \<Rightarrow> bool" where
  "RelativePath_ok s =
     (len_between 1 4096 s \<and> CHR 0x00 \<notin> set s
      \<and> hd s \<noteq> CHR ''/''
      \<and> \<not> (3 \<le> length s \<and> is_letter (s ! 0) \<and> s ! 1 = CHR '':'' \<and> (s ! 2 = CHR ''/'' \<or> s ! 2 = CHR 0x5C))
      \<and> ''..'' \<notin> set (split_by (\<lambda>c. c = CHR ''/'' \<or> c = CHR 0x5C) s))"

definition opt_ok :: "('a \<Rightarrow> bool) \<Rightarrow> 'a option \<Rightarrow> bool" where
  "opt_ok P x = (case x of None \<Rightarrow> True | Some v \<Rightarrow> P v)"

definition ids_ok :: "string list \<Rightarrow> bool" where
  "ids_ok ids = list_all EntityId_ok ids"

definition is_hex :: "char \<Rightarrow> bool" where
  "is_hex c = (c \<in> set ''0123456789abcdefABCDEF'')"

definition Color_ok :: "string \<Rightarrow> bool" where
  "Color_ok s = ((length s = 7 \<or> length s = 9) \<and> hd s = CHR ''#'' \<and> list_all is_hex (tl s))"

definition uuid_ok :: "string \<Rightarrow> bool" where
  "uuid_ok s = (map length (split_by (\<lambda>c. c = CHR ''-'') s) = [8, 4, 4, 4, 12]
      \<and> list_all (\<lambda>c. is_hex c \<or> c = CHR ''-'') s)"

definition Size_ok :: "size_shape \<Rightarrow> bool" where
  "Size_ok s = (0 < sz_width s \<and> 0 < sz_height s)"

definition LocalFileReference_ok :: "local_file_reference \<Rightarrow> bool" where
  "LocalFileReference_ok f =
     (EntityId_ok (lf_projectId f) \<and> RelativePath_ok (lf_relativePath f)
      \<and> opt_ok (len_between 8 256) (lf_lastKnownHash f))"

definition Comment_ok :: "comment \<Rightarrow> bool" where
  "Comment_ok c =
     (EntityId_ok (cm_id c) \<and> EntityId_ok (cm_authorId c) \<and> len_between 1 100000 (cm_body c)
      \<and> is_timestamp (cm_createdAt c) \<and> opt_ok is_timestamp (cm_updatedAt c)
      \<and> opt_ok is_timestamp (cm_resolvedAt c))"

definition ResourceRequirements_ok :: "resource_requirements \<Rightarrow> bool" where
  "ResourceRequirements_ok r =
     (0 < cpuUnits r \<and> cpuUnits r \<le> 1024 \<and> 0 < memoryMb r \<and> memoryMb r \<le> 1048576
      \<and> list_all (len_between 1 128) (exclusiveKeys r) \<and> length (exclusiveKeys r) \<le> 64)"

definition environment_name_ok :: "string \<Rightarrow> bool" where
  "environment_name_ok s =
     (s \<noteq> [] \<and> (is_letter (hd s) \<or> hd s = CHR ''_'')
      \<and> list_all (\<lambda>c. is_letter c \<or> is_digit c \<or> c = CHR ''_'') s)"

definition CommandSpec_ok :: "command_spec \<Rightarrow> bool" where
  "CommandSpec_ok c =
     (len_between 1 4096 (cmd_executable c)
      \<and> list_all (\<lambda>a. length a \<le> 32768) (cmd_args c) \<and> length (cmd_args c) \<le> 512
      \<and> opt_ok RelativePath_ok (cmd_cwdRelative c)
      \<and> list_all environment_name_ok (cmd_environmentNames c) \<and> length (cmd_environmentNames c) \<le> 512)"

definition AcceptanceCriterion_ok :: "acceptance_criterion \<Rightarrow> bool" where
  "AcceptanceCriterion_ok a =
     (EntityId_ok (ac_id a) \<and> len_between 1 10000 (ac_description a) \<and> opt_ok (len_between 0 20000) (ac_evidence a))"

section \<open>Schemas of the node data\<close>

definition token_count_ok :: "int \<Rightarrow> bool" where
  "token_count_ok n = (0 \<le> n \<and> n \<le> 1000000000000)"

definition TokenUsage_ok :: "token_usage \<Rightarrow> bool" where
  "TokenUsage_ok u =
     (list_all (opt_ok token_count_ok)
        [tu_inputTokens u, tu_cachedInputTokens u, tu_outputTokens u, tu_totalTokens u]
      \<and> list_ex (\<lambda>x. x \<noteq> None) [tu_inputTokens u, tu_cachedInputTokens u, tu_outputTokens u, tu_totalTokens u])"

definition AgentData_ok :: "agent_data \<Rightarrow> bool" where
  "AgentData_ok d =
     (opt_ok EntityId_ok (ag_adapterId d) \<and> opt_ok (len_between 1 200) (ag_model d)
      \<and> opt_ok EntityId_ok (ag_permissionProfileId d) \<and> opt_ok EntityId_ok (ag_worktreeId d)
      \<and> opt_ok (len_between 1 1024) (ag_branch d) \<and> ids_ok (ag_contextAttachmentIds d)
      \<and> length (ag_promptDraft d) \<le> 1000000
      \<and> opt_ok EntityId_ok (ag_activeSessionId d) \<and> opt_ok EntityId_ok (ag_streamedOutputArtifactId d)
      \<and> opt_ok TokenUsage_ok (ag_tokenUsage d)
      \<and> opt_ok (\<lambda>(amount, currency). 0 \<le> amount \<and> length currency = 3) (ag_cost d))"

definition ProductBriefData_ok :: "product_brief_data \<Rightarrow> bool" where
  "ProductBriefData_ok d =
     (length (pb_markdown d) \<le> 2000000
      \<and> opt_ok (list_all (\<lambda>(i, label, _). EntityId_ok i \<and> len_between 1 10000 label)) (pb_checklist d)
      \<and> ids_ok (pb_attachmentIds d) \<and> list_all AcceptanceCriterion_ok (pb_acceptanceCriteria d)
      \<and> opt_ok (list_all (\<lambda>(i, createdAt, markdown, authorId).
          EntityId_ok i \<and> is_timestamp createdAt \<and> length markdown \<le> 2000000 \<and> EntityId_ok authorId)) (pb_versions d)
      \<and> list_all (\<lambda>v. length v \<le> 100000) (obj_values (pb_variables d)))"

definition TaskData_ok :: "task_data \<Rightarrow> bool" where
  "TaskData_ok d =
     (length (tk_description d) \<le> 1000000 \<and> opt_ok EntityId_ok (tk_assigneeId d)
      \<and> ids_ok (tk_dependencyTaskIds d) \<and> list_all AcceptanceCriterion_ok (tk_acceptanceCriteria d)
      \<and> list_all LocalFileReference_ok (tk_relatedFiles d))"

definition FileData_ok :: "file_data \<Rightarrow> bool" where
  "FileData_ok d =
     (opt_ok LocalFileReference_ok (fl_file d) \<and> opt_ok (len_between 0 100) (fl_language d)
      \<and> list_all (len_between 1 1024) (fl_historyRefs d) \<and> opt_ok (len_between 0 10000) (fl_recoverableWarning d))"

fun review_target_ok :: "review_target \<Rightarrow> bool" where
  "review_target_ok TargetPrimary = True"
| "review_target_ok (TargetAgentRun runId) = uuid_ok runId"

definition DiffReviewData_ok :: "diff_review_data \<Rightarrow> bool" where
  "DiffReviewData_ok d =
     (opt_ok review_target_ok (df_reviewTarget d)
      \<and> opt_ok (len_between 1 1024) (df_baseRef d) \<and> opt_ok (len_between 1 1024) (df_headRef d)
      \<and> opt_ok EntityId_ok (df_worktreeId d) \<and> list_all RelativePath_ok (df_files d)
      \<and> ids_ok (df_lineCommentIds d) \<and> opt_ok (len_between 0 200000) (df_revisionRequest d))"

definition TerminalData_ok :: "terminal_data \<Rightarrow> bool" where
  "TerminalData_ok d =
     (opt_ok RelativePath_ok (tm_cwdRelative d) \<and> opt_ok EntityId_ok (tm_permissionProfileId d)
      \<and> opt_ok CommandSpec_ok (tm_command d) \<and> opt_ok EntityId_ok (tm_ptySessionId d)
      \<and> opt_ok EntityId_ok (tm_historyArtifactId d) \<and> opt_ok (\<lambda>n. - 1 \<le> n \<and> n \<le> 255) (tm_lastExitCode d))"

definition PreviewUrlPath_ok :: "string \<Rightarrow> bool" where
  "PreviewUrlPath_ok s =
     (len_between 1 4096 s \<and> take 1 s = ''/'' \<and> take 2 s \<noteq> ''//'' \<and> CHR 0x00 \<notin> set s)"

definition PreviewComparison_ok :: "preview_comparison \<Rightarrow> bool" where
  "PreviewComparison_ok c =
     (opt_ok uuid_ok (pc_leftTarget c) \<and> opt_ok uuid_ok (pc_rightTarget c)
      \<and> \<not> (pc_leftTarget c \<noteq> None \<and> pc_leftTarget c = pc_rightTarget c))"

definition package_script_ok :: "string \<Rightarrow> bool" where
  "package_script_ok s =
     (len_between 1 128 s \<and> (is_letter (hd s) \<or> is_digit (hd s))
      \<and> list_all (\<lambda>c. is_letter c \<or> is_digit c \<or> c \<in> set '':._-'') s)"

definition PreviewConfiguration_ok :: "preview_configuration \<Rightarrow> bool" where
  "PreviewConfiguration_ok p =
     (review_target_ok (pv_target p) \<and> opt_ok CommandSpec_ok (pv_command p)
      \<and> opt_ok package_script_ok (pv_packageScript p) \<and> RelativePath_ok (pv_cwdRelative p)
      \<and> PreviewUrlPath_ok (pv_readinessPath p) \<and> PreviewUrlPath_ok (pv_urlPath p)
      \<and> opt_ok PreviewComparison_ok (pv_comparison p))"

definition WebPreviewData_ok :: "web_preview_data \<Rightarrow> bool" where
  "WebPreviewData_ok d =
     (PreviewConfiguration_ok (wp_configuration d) \<and> opt_ok EntityId_ok (wp_serverId d)
      \<and> opt_ok EntityId_ok (wp_worktreeId d) \<and> Size_ok (wp_viewport d)
      \<and> length (wp_navigationHistory d) \<le> 500 \<and> opt_ok EntityId_ok (wp_consoleArtifactId d)
      \<and> opt_ok EntityId_ok (wp_errorArtifactId d) \<and> ids_ok (wp_screenshotIds d))"

definition MobileViewport_ok :: "mobile_viewport \<Rightarrow> bool" where
  "MobileViewport_ok v =
     (EntityId_ok (mv_id v) \<and> len_between 1 200 (mv_name v)
      \<and> 0 < mv_width v \<and> mv_width v \<le> 8192 \<and> 0 < mv_height v \<and> mv_height v \<le> 8192)"

definition MobilePreviewData_ok :: "mobile_preview_data \<Rightarrow> bool" where
  "MobilePreviewData_ok d =
     (PreviewConfiguration_ok (mp_configuration d) \<and> opt_ok EntityId_ok (mp_serverId d)
      \<and> opt_ok EntityId_ok (mp_worktreeId d)
      \<and> list_all MobileViewport_ok (mp_viewports d) \<and> length (mp_viewports d) \<le> 12
      \<and> ids_ok (mp_screenshotIds d))"

definition TestArtifactPath_ok :: "string \<Rightarrow> bool" where
  "TestArtifactPath_ok s =
     (len_between 1 1024 s \<and> CHR 0x5C \<notin> set s \<and> hd s \<noteq> CHR ''/'' \<and> CHR 0x00 \<notin> set s
      \<and> list_all (\<lambda>part. part \<noteq> [] \<and> part \<noteq> ''.'' \<and> part \<noteq> ''..'') (split_by (\<lambda>c. c = CHR ''/'') s))"

definition TestData_ok :: "test_data \<Rightarrow> bool" where
  "TestData_ok d =
     (opt_ok CommandSpec_ok (te_command d) \<and> ids_ok (te_runIds d)
      \<and> opt_ok (\<lambda>s. 0 \<le> ts_passed s \<and> 0 \<le> ts_failed s \<and> 0 \<le> ts_skipped s) (te_summary d)
      \<and> ids_ok (te_artifactIds d)
      \<and> opt_ok (\<lambda>paths. list_all TestArtifactPath_ok paths \<and> length paths \<le> 32
          \<and> length (new_Set paths) = length paths) (te_artifactPaths d))"

definition ReviewGateData_ok :: "review_gate_data \<Rightarrow> bool" where
  "ReviewGateData_ok g =
     (list_all EntityId_ok (rg_requiredCheckIds g) \<and> opt_ok EntityId_ok (rg_reviewerAgentId g)
      \<and> 1 \<le> maximumIterations (rg_retryPolicy g) \<and> maximumIterations (rg_retryPolicy g) \<le> 100
      \<and> 0 \<le> backoffMs (rg_retryPolicy g) \<and> backoffMs (rg_retryPolicy g) \<le> 86400000)"

fun text_includes :: "string \<Rightarrow> string \<Rightarrow> bool" where
  "text_includes part [] = (part = [])"
| "text_includes part (c # cs) = (take (length part) (c # cs) = part \<or> text_includes part cs)"

definition starts_with :: "string \<Rightarrow> string \<Rightarrow> bool" where
  "starts_with part s = (take (length part) s = part)"

definition ends_with :: "string \<Rightarrow> string \<Rightarrow> bool" where
  "ends_with part s = starts_with (rev part) (rev s)"

definition isSafeGitBranchName :: "string \<Rightarrow> bool" where
  "isSafeGitBranchName s =
     (if trim s \<noteq> s \<or> s = ''@'' then False
      else if starts_with ''/'' s \<or> ends_with ''/'' s \<or> starts_with ''.'' s \<or> ends_with ''.'' s
         \<or> ends_with ''.lock'' s \<or> text_includes ''..'' s \<or> text_includes ''//'' s \<or> text_includes [CHR ''@'', CHR 0x7B] s
         \<or> list_ex (\<lambda>c. is_space c \<or> c = CHR 0x5C \<or> c \<in> set ''~^:?*[]'') s
      then False
      else \<not> list_ex (\<lambda>c. of_char c < (32 :: nat) \<or> of_char c = (127 :: nat)) s
         \<and> list_all (\<lambda>segment. segment \<noteq> [] \<and> \<not> starts_with ''.'' segment \<and> \<not> ends_with ''.'' segment
             \<and> \<not> ends_with ''.lock'' segment) (split_by (\<lambda>c. c = CHR ''/'') s))"

definition pull_number_ok :: "string \<Rightarrow> bool" where
  "pull_number_ok s = (s \<noteq> [] \<and> hd s \<noteq> CHR ''0'' \<and> list_all is_digit s)"

text \<open>\<open>/owner/repository/pull/number\<close>, with an optional slash at the end.\<close>

definition pull_request_path_ok :: "string \<Rightarrow> bool" where
  "pull_request_path_ok path =
     (case split_by (\<lambda>c. c = CHR ''/'') path of
        [before, owner, repository, pull, number] \<Rightarrow>
          before = [] \<and> owner \<noteq> [] \<and> repository \<noteq> [] \<and> pull = ''pull'' \<and> pull_number_ok number
      | [before, owner, repository, pull, number, after] \<Rightarrow>
          before = [] \<and> owner \<noteq> [] \<and> repository \<noteq> [] \<and> pull = ''pull'' \<and> pull_number_ok number \<and> after = []
      | _ \<Rightarrow> False)"

definition isCredentialFreePullRequestUrl :: "url \<Rightarrow> bool" where
  "isCredentialFreePullRequestUrl u =
     ((url_protocol u = ''https:'' \<or> url_protocol u = ''http:'') \<and> url_hostname u \<noteq> []
      \<and> url_username u = [] \<and> url_password u = [] \<and> url_search u = [] \<and> url_hash u = []
      \<and> pull_request_path_ok (url_pathname u))"

definition remote_name_ok :: "string \<Rightarrow> bool" where
  "remote_name_ok s =
     (len_between 1 128 s \<and> (is_letter (hd s) \<or> is_digit (hd s))
      \<and> list_all (\<lambda>c. is_letter c \<or> is_digit c \<or> c \<in> set ''._-'') s)"

definition branch_name_ok :: "string \<Rightarrow> bool" where
  "branch_name_ok s = (len_between 1 1024 s \<and> isSafeGitBranchName s)"

definition GitPrData_ok :: "git_pr_data \<Rightarrow> bool" where
  "GitPrData_ok d =
     (opt_ok uuid_ok (gp_deliveryTarget d) \<and> opt_ok EntityId_ok (gp_worktreeId d)
      \<and> opt_ok (len_between 1 1024) (gp_branch d) \<and> opt_ok remote_name_ok (gp_remote d)
      \<and> opt_ok branch_name_ok (gp_destinationBranch d) \<and> opt_ok branch_name_ok (gp_baseBranch d)
      \<and> opt_ok (\<lambda>s. length s \<le> 512 \<and> CHR 0x00 \<notin> set s) (gp_pullRequestTitle d)
      \<and> opt_ok (\<lambda>s. length s \<le> 32768 \<and> CHR 0x00 \<notin> set s) (gp_pullRequestBody d)
      \<and> list_all (\<lambda>s. len_between 7 64 s \<and> list_all is_hex s) (gp_commitIds d)
      \<and> 0 \<le> gp_ahead d \<and> 0 \<le> gp_behind d
      \<and> opt_ok (\<lambda>u. length (url_text u) \<le> 2048 \<and> isCredentialFreePullRequestUrl u) (gp_pullRequestUrl d)
      \<and> ids_ok (gp_checkIds d))"

definition DiagramData_ok :: "diagram_data \<Rightarrow> bool" where
  "DiagramData_ok d =
     (length (dg_mermaidSource d) \<le> 2000000 \<and> ids_ok (dg_exportArtifactIds d)
      \<and> opt_ok (len_between 0 20000) (dg_lastRenderError d))"

definition WhiteboardData_ok :: "whiteboard_data \<Rightarrow> bool" where
  "WhiteboardData_ok d =
     (ids_ok (wb_annotationIds d) \<and> ids_ok (wb_exportArtifactIds d)
      \<and> opt_ok EntityId_ok (wb_contextSpecificationArtifactId d))"

definition NoteImageData_ok :: "note_image_data \<Rightarrow> bool" where
  "NoteImageData_ok d =
     (length (ni_markdown d) \<le> 1000000 \<and> list_all LocalFileReference_ok (ni_images d)
      \<and> list_all (\<lambda>v. length v \<le> 10000) (obj_values (ni_altText d)))"

definition TextData_ok :: "text_data \<Rightarrow> bool" where
  "TextData_ok d = (length (tx_text d) \<le> 10000 \<and> - 180 \<le> tx_rotationDeg d \<and> tx_rotationDeg d \<le> 180)"

definition ExtensionData_ok :: "extension_data \<Rightarrow> bool" where
  "ExtensionData_ok d =
     (EntityId_ok (ex_extensionId d) \<and> len_between 1 128 (ex_extensionVersion d) \<and> EntityId_ok (ex_nodeTypeId d))"

section \<open>Schema of a node\<close>

fun NodeData_ok :: "node_data \<Rightarrow> bool" where
  "NodeData_ok (AgentNode d) = AgentData_ok d"
| "NodeData_ok (ProductBriefNode d) = ProductBriefData_ok d"
| "NodeData_ok (TaskNode d) = TaskData_ok d"
| "NodeData_ok (FileNode d) = FileData_ok d"
| "NodeData_ok (VideoNode file) = opt_ok LocalFileReference_ok file"
| "NodeData_ok (DiffReviewNode d) = DiffReviewData_ok d"
| "NodeData_ok (TerminalNode d) = TerminalData_ok d"
| "NodeData_ok (WebPreviewNode d) = WebPreviewData_ok d"
| "NodeData_ok (MobilePreviewNode d) = MobilePreviewData_ok d"
| "NodeData_ok (TestNode d) = TestData_ok d"
| "NodeData_ok (ReviewGateNode d) = ReviewGateData_ok d"
| "NodeData_ok (GitPullRequestNode d) = GitPrData_ok d"
| "NodeData_ok (DiagramNode d) = DiagramData_ok d"
| "NodeData_ok (WhiteboardMockupNode d) = WhiteboardData_ok d"
| "NodeData_ok (NoteImageNode d) = NoteImageData_ok d"
| "NodeData_ok (TextNode d) = TextData_ok d"
| "NodeData_ok (GroupFrameNode d) = ids_ok (gf_childNodeIds d)"
| "NodeData_ok (ExtensionNode d) = ExtensionData_ok d"

definition CanvasNode_ok :: "canvas_node \<Rightarrow> bool" where
  "CanvasNode_ok n =
     (EntityId_ok (node_id n) \<and> len_between 1 300 (node_title n) \<and> Color_ok (node_color n)
      \<and> len_between 1 100 (node_icon n) \<and> Size_ok (node_size n)
      \<and> opt_ok EntityId_ok (node_groupId n) \<and> list_all Comment_ok (node_comments n)
      \<and> ids_ok (node_runHistoryIds n) \<and> ResourceRequirements_ok (node_resources n)
      \<and> is_timestamp (node_createdAt n) \<and> is_timestamp (node_updatedAt n)
      \<and> NodeData_ok (node_data n))"

end
