(* ===== verification/Domain.thy ===== *)
theory Domain
  imports Nodes
begin

text \<open>
  The canvas of \<open>packages/core/src/model/domain.ts\<close>: edges, revision loops, groups, the view, limits
  and check results, with the constraints their schemas put on a parsed value. Literal fields
  (\<open>schemaVersion\<close>, \<open>attachmentMode\<close>, \<open>requiredStatus\<close>, the flags of the escape hatch) carry no
  information and are left out.
\<close>

section \<open>Edges\<close>

record context_config =
  ctx_required :: bool
  ctx_muted :: bool
  ctx_attachmentIds :: "entity_id list"

datatype trigger = OnSuccess | OnCompletion
datatype approval_mode = ApproveNone | ApproveHuman | ApproveReviewGate

record execute_config =
  exe_trigger :: trigger
  exe_approval :: approval_mode
  exe_approvalGateNodeId :: "entity_id option"

datatype output_kind = OutBranch | OutDiff | OutPreview | OutTestResult | OutArtifact

fun output_kind_text :: "output_kind \<Rightarrow> string" where
  "output_kind_text OutBranch = ''branch''"
| "output_kind_text OutDiff = ''diff''"
| "output_kind_text OutPreview = ''preview''"
| "output_kind_text OutTestResult = ''test-result''"
| "output_kind_text OutArtifact = ''artifact''"

record output_config =
  out_outputKind :: output_kind
  out_required :: bool

datatype reviewer = ReviewerHuman | ReviewerAgent | ReviewerGate

record review_config =
  rev_reviewer :: reviewer
  rev_requireApproval :: bool
  rev_structuredFindings :: bool

datatype edge_config =
    is_Context: Context context_config
  | is_Execute: Execute execute_config
  | is_Output: Output output_config
  | is_Review: Review review_config
  | is_Revision: Revision "entity_id option"
  | is_Dependency: Dependency

fun edge_type_text :: "edge_config \<Rightarrow> string" where
  "edge_type_text (Context _) = ''context''"
| "edge_type_text (Execute _) = ''execute''"
| "edge_type_text (Output _) = ''output''"
| "edge_type_text (Review _) = ''review''"
| "edge_type_text (Revision _) = ''revision''"
| "edge_type_text Dependency = ''dependency''"

record canvas_edge =
  edge_id :: entity_id
  edge_sourceNodeId :: entity_id
  edge_targetNodeId :: entity_id
  edge_sourceHandle :: "string option"
  edge_targetHandle :: "string option"
  edge_label :: "string option"
  edge_status :: "run_status option"
  edge_inspector :: "json obj"
  edge_createdAt :: timestamp
  edge_config :: edge_config

section \<open>Loops, groups, limits, the canvas\<close>

datatype stop_condition = ReviewApproved | TestsPassed | HumanAccepted

fun stop_condition_text :: "stop_condition \<Rightarrow> string" where
  "stop_condition_text ReviewApproved = ''review-approved''"
| "stop_condition_text TestsPassed = ''tests-passed''"
| "stop_condition_text HumanAccepted = ''human-accepted''"

record revision_loop =
  loop_id :: entity_id
  loop_implementationNodeId :: entity_id
  loop_reviewNodeId :: entity_id
  loop_reviewEdgeId :: entity_id
  loop_revisionEdgeId :: entity_id
  loop_maximumAttempts :: int
  loop_stopConditions :: "stop_condition list"
  loop_escapeInstructions :: string

record canvas_group =
  group_id :: entity_id
  group_title :: string
  group_nodeIds :: "entity_id list"
  group_position :: point
  group_size :: size_shape
  group_color :: string
  group_locked :: bool

record workflow_limits =
  maximumConcurrency :: int
  maximumCpuUnits :: int
  maximumMemoryMb :: int

record view_state =
  vs_x :: rat
  vs_y :: rat
  vs_zoom :: rat
  vs_selectedNodeIds :: "entity_id list"
  vs_selectedEdgeIds :: "entity_id list"
  vs_minimapVisible :: bool
  vs_snapToGrid :: bool
  vs_gridSize :: int

record canvas =
  canvas_id :: entity_id
  canvas_projectId :: entity_id
  canvas_name :: string
  canvas_nodes :: "canvas_node list"
  canvas_edges :: "canvas_edge list"
  canvas_groups :: "canvas_group list"
  canvas_viewState :: view_state
  canvas_revisionLoops :: "revision_loop list"
  canvas_workflowLimits :: workflow_limits
  canvas_createdAt :: timestamp
  canvas_updatedAt :: timestamp

section \<open>Check results\<close>

datatype check_kind = LintCheck | TypecheckCheck | TestCheck | BuildCheck | CustomCheck

datatype check_status =
  CheckQueued | CheckRunning | CheckPassed | CheckFailed | CheckCancelled | CheckLost

fun check_kind_text :: "check_kind \<Rightarrow> string" where
  "check_kind_text LintCheck = ''lint''"
| "check_kind_text TypecheckCheck = ''typecheck''"
| "check_kind_text TestCheck = ''test''"
| "check_kind_text BuildCheck = ''build''"
| "check_kind_text CustomCheck = ''custom''"

fun check_status_text :: "check_status \<Rightarrow> string" where
  "check_status_text CheckQueued = ''queued''"
| "check_status_text CheckRunning = ''running''"
| "check_status_text CheckPassed = ''passed''"
| "check_status_text CheckFailed = ''failed''"
| "check_status_text CheckCancelled = ''cancelled''"
| "check_status_text CheckLost = ''lost''"

record check_result =
  ck_id :: entity_id
  ck_runId :: entity_id
  ck_producerNodeId :: "entity_id option"
  ck_producerAttempt :: "int option"
  ck_reviewedNodeId :: "entity_id option"
  ck_reviewedNodeAttempt :: "int option"
  ck_reviewedOutputDigest :: "string option"
  ck_kind :: check_kind
  ck_command :: command_spec
  ck_status :: check_status
  ck_exitCode :: "int option"
  ck_startedAt :: "timestamp option"
  ck_endedAt :: "timestamp option"
  ck_rawOutputArtifactId :: "entity_id option"
  ck_summary :: "json option"

section \<open>Schema checks\<close>

definition ExecuteConfig_ok :: "execute_config \<Rightarrow> bool" where
  "ExecuteConfig_ok c =
     (opt_ok EntityId_ok (exe_approvalGateNodeId c)
      \<and> (exe_approval c = ApproveReviewGate) = (exe_approvalGateNodeId c \<noteq> None))"

fun EdgeConfig_ok :: "edge_config \<Rightarrow> bool" where
  "EdgeConfig_ok (Context c) = list_all EntityId_ok (ctx_attachmentIds c)"
| "EdgeConfig_ok (Execute c) = ExecuteConfig_ok c"
| "EdgeConfig_ok (Revision l) = opt_ok EntityId_ok l"
| "EdgeConfig_ok _ = True"

definition CanvasEdge_ok :: "canvas_edge \<Rightarrow> bool" where
  "CanvasEdge_ok e =
     (EntityId_ok (edge_id e) \<and> EntityId_ok (edge_sourceNodeId e) \<and> EntityId_ok (edge_targetNodeId e)
      \<and> opt_ok (len_between 1 100) (edge_sourceHandle e)
      \<and> opt_ok (len_between 1 100) (edge_targetHandle e)
      \<and> opt_ok (len_between 0 300) (edge_label e)
      \<and> is_timestamp (edge_createdAt e) \<and> EdgeConfig_ok (edge_config e))"

definition RevisionLoop_ok :: "revision_loop \<Rightarrow> bool" where
  "RevisionLoop_ok l =
     (EntityId_ok (loop_id l) \<and> EntityId_ok (loop_implementationNodeId l)
      \<and> EntityId_ok (loop_reviewNodeId l) \<and> EntityId_ok (loop_reviewEdgeId l)
      \<and> EntityId_ok (loop_revisionEdgeId l)
      \<and> 1 \<le> loop_maximumAttempts l \<and> loop_maximumAttempts l \<le> 100
      \<and> len_between 1 3 (loop_stopConditions l) \<and> len_between 10 10000 (loop_escapeInstructions l))"

definition WorkflowLimits_ok :: "workflow_limits \<Rightarrow> bool" where
  "WorkflowLimits_ok l =
     (1 \<le> maximumConcurrency l \<and> maximumConcurrency l \<le> 256
      \<and> 1 \<le> maximumCpuUnits l \<and> maximumCpuUnits l \<le> 4096
      \<and> 128 \<le> maximumMemoryMb l \<and> maximumMemoryMb l \<le> 4194304)"

definition CanvasGroup_ok :: "canvas_group \<Rightarrow> bool" where
  "CanvasGroup_ok g =
     (EntityId_ok (group_id g) \<and> len_between 1 300 (group_title g) \<and> ids_ok (group_nodeIds g)
      \<and> Size_ok (group_size g) \<and> Color_ok (group_color g))"

definition ViewState_ok :: "view_state \<Rightarrow> bool" where
  "ViewState_ok v =
     (0 < vs_zoom v \<and> vs_zoom v \<le> 16 \<and> ids_ok (vs_selectedNodeIds v) \<and> ids_ok (vs_selectedEdgeIds v)
      \<and> 0 < vs_gridSize v \<and> vs_gridSize v \<le> 1000)"

definition CanvasSchema_ok :: "canvas \<Rightarrow> bool" where
  "CanvasSchema_ok c =
     (EntityId_ok (canvas_id c) \<and> EntityId_ok (canvas_projectId c)
      \<and> len_between 1 300 (canvas_name c)
      \<and> list_all CanvasNode_ok (canvas_nodes c) \<and> list_all CanvasEdge_ok (canvas_edges c)
      \<and> list_all CanvasGroup_ok (canvas_groups c) \<and> ViewState_ok (canvas_viewState c)
      \<and> list_all RevisionLoop_ok (canvas_revisionLoops c)
      \<and> WorkflowLimits_ok (canvas_workflowLimits c)
      \<and> is_timestamp (canvas_createdAt c) \<and> is_timestamp (canvas_updatedAt c))"

definition CanvasSchema_parse :: "canvas \<Rightarrow> canvas res" where
  "CanvasSchema_parse c =
     (if CanvasSchema_ok c then return c else throw (ZodError ''CanvasSchema''))"

lemma CanvasSchema_parse_Inr [simp]:
  "CanvasSchema_parse c = Inr c' \<longleftrightarrow> CanvasSchema_ok c \<and> c' = c"
  by (auto simp: CanvasSchema_parse_def)

definition positive_opt :: "int option \<Rightarrow> bool" where
  "positive_opt x = opt_ok (\<lambda>n. 0 < n) x"

definition CheckResult_ok :: "check_result \<Rightarrow> bool" where
  "CheckResult_ok c =
     (EntityId_ok (ck_id c) \<and> EntityId_ok (ck_runId c) \<and> opt_ok EntityId_ok (ck_producerNodeId c)
      \<and> positive_opt (ck_producerAttempt c) \<and> opt_ok EntityId_ok (ck_reviewedNodeId c)
      \<and> positive_opt (ck_reviewedNodeAttempt c)
      \<and> opt_ok (len_between 8 256) (ck_reviewedOutputDigest c)
      \<and> CommandSpec_ok (ck_command c)
      \<and> opt_ok (\<lambda>n. -1 \<le> n \<and> n \<le> 255) (ck_exitCode c)
      \<and> opt_ok is_timestamp (ck_startedAt c) \<and> opt_ok is_timestamp (ck_endedAt c)
      \<and> opt_ok EntityId_ok (ck_rawOutputArtifactId c))"

definition CheckResultSchema_parse :: "check_result \<Rightarrow> check_result res" where
  "CheckResultSchema_parse c =
     (if CheckResult_ok c then return c else throw (ZodError ''CheckResultSchema''))"

lemma CheckResultSchema_parse_Inr [simp]:
  "CheckResultSchema_parse c = Inr c' \<longleftrightarrow> CheckResult_ok c \<and> c' = c"
  by (auto simp: CheckResultSchema_parse_def)

section \<open>JSON form of the values that enter a fingerprint\<close>

definition command_json :: "command_spec \<Rightarrow> json" where
  "command_json c =
     JObj ([(''executable'', JStr (cmd_executable c)), (''args'', JArr (map JStr (cmd_args c)))]
       @ json_opt JStr ''cwdRelative'' (cmd_cwdRelative c)
       @ [(''environmentNames'', JArr (map JStr (cmd_environmentNames c)))])"

definition check_json :: "check_result \<Rightarrow> json" where
  "check_json c =
     JObj ([(''id'', JStr (ck_id c)), (''runId'', JStr (ck_runId c))]
       @ json_opt JStr ''producerNodeId'' (ck_producerNodeId c)
       @ json_opt JNum ''producerAttempt'' (ck_producerAttempt c)
       @ json_opt JStr ''reviewedNodeId'' (ck_reviewedNodeId c)
       @ json_opt JNum ''reviewedNodeAttempt'' (ck_reviewedNodeAttempt c)
       @ json_opt JStr ''reviewedOutputDigest'' (ck_reviewedOutputDigest c)
       @ [(''kind'', JStr (check_kind_text (ck_kind c))), (''command'', command_json (ck_command c)),
          (''status'', JStr (check_status_text (ck_status c)))]
       @ json_opt JNum ''exitCode'' (ck_exitCode c)
       @ json_opt JStr ''startedAt'' (ck_startedAt c)
       @ json_opt JStr ''endedAt'' (ck_endedAt c)
       @ json_opt JStr ''rawOutputArtifactId'' (ck_rawOutputArtifactId c)
       @ json_opt id ''summary'' (ck_summary c))"

end
