(* ===== verification/Topology.thy ===== *)
theory Topology
  imports Domain "HOL-Library.Multiset"
begin

text \<open>
  The deterministic topological order of \<open>packages/core/src/workflow/model.ts\<close> (Kahn's algorithm
  with a collation-sorted ready list) and its correctness. The order is a topological sort of the
  selected subgraph and what it leaves over is empty exactly when the subgraph is acyclic.
\<close>

definition orderingEdges :: "canvas_edge list \<Rightarrow> canvas_edge list" where
  "orderingEdges edges = filter (\<lambda>e. \<not> is_Revision (edge_config e)) edges"

fun sortedInsert :: "string \<Rightarrow> string list \<Rightarrow> string list" where
  "sortedInsert v [] = [v]"
| "sortedInsert v (c # cs) = (if Collated c > Collated v then v # c # cs else c # sortedInsert v cs)"

lemma set_sortedInsert [simp]: "set (sortedInsert v cs) = insert v (set cs)"
  by (induction cs) auto

lemma distinct_sortedInsert [simp]: "distinct (sortedInsert v cs) \<longleftrightarrow> v \<notin> set cs \<and> distinct cs"
  by (induction cs) auto

lemma length_sortedInsert [simp]: "length (sortedInsert v cs) = Suc (length cs)"
  by (induction cs) auto

definition degree :: "int obj \<Rightarrow> string \<Rightarrow> int" where
  "degree indegree v = (case obj_get indegree v of None \<Rightarrow> 0 | Some d \<Rightarrow> d)"

definition count_edge ::
  "string set \<Rightarrow> canvas_edge \<Rightarrow> int obj \<times> string list obj \<Rightarrow> int obj \<times> string list obj" where
  "count_edge selected e st =
     (let (indegree, outgoing) = st in
      if edge_sourceNodeId e \<notin> selected \<or> edge_targetNodeId e \<notin> selected then st
      else (obj_put (edge_targetNodeId e) (degree indegree (edge_targetNodeId e) + 1) indegree,
            case obj_get outgoing (edge_sourceNodeId e) of
              None \<Rightarrow> outgoing
            | Some ts \<Rightarrow> obj_put (edge_sourceNodeId e) (ts @ [edge_targetNodeId e]) outgoing))"

definition build_graph :: "string list \<Rightarrow> canvas_edge list \<Rightarrow> int obj \<times> string list obj" where
  "build_graph nodeIds edges =
     fold (count_edge (set nodeIds)) edges
       (obj_from (map (\<lambda>i. (i, 0)) nodeIds), obj_from (map (\<lambda>i. (i, [])) nodeIds))"

text \<open>One target of the popped node: its degree drops, and at zero it joins the ready list.\<close>

definition relax_target :: "string \<Rightarrow> int obj \<times> string list \<Rightarrow> int obj \<times> string list" where
  "relax_target target st =
     (let (indegree, ready) = st;
          d = degree indegree target - 1
      in (obj_put target d indegree, if d = 0 then sortedInsert target ready else ready))"

definition positive_keys :: "int obj \<Rightarrow> string set" where
  "positive_keys indegree = {k. 0 < degree indegree k}"

lemma degree_put [simp]: "degree (obj_put k d ob) v = (if v = k then d else degree ob v)"
  by (simp add: degree_def)

lemma finite_positive_keys [simp]: "finite (positive_keys ob)"
proof (rule finite_subset)
  show "positive_keys ob \<subseteq> set (obj_keys ob)"
    by (auto simp: positive_keys_def degree_def obj_get_eq_None_iff split: option.splits)
qed simp

lemma relax_target_pair:
  "relax_target t (ind, ready) =
     (obj_put t (degree ind t - 1) ind, if degree ind t - 1 = 0 then sortedInsert t ready else ready)"
  by (simp add: relax_target_def Let_def)

lemma relax_target_measure:
  assumes "relax_target t (ind, ready) = (ind', ready')"
  shows "card (positive_keys ind') + length ready' = card (positive_keys ind) + length ready"
proof (cases "degree ind t = 1")
  case True
  then have "positive_keys ind' = positive_keys ind - {t}" "t \<in> positive_keys ind"
    using assms by (auto simp: relax_target_def Let_def positive_keys_def split: if_splits)
  moreover have "length ready' = Suc (length ready)"
    using assms True by (auto simp: relax_target_def Let_def)
  moreover have "0 < card (positive_keys ind)" using \<open>t \<in> positive_keys ind\<close> by (auto simp: card_gt_0_iff)
  ultimately show ?thesis by (simp add: card_Diff_singleton)
next
  case False
  then have "positive_keys ind' = positive_keys ind" "ready' = ready"
    using assms by (auto simp: relax_target_def Let_def positive_keys_def split: if_splits)
  then show ?thesis by simp
qed

lemma relax_fold_measure:
  "fold relax_target ts (ind, ready) = (ind', ready')
   \<Longrightarrow> card (positive_keys ind') + length ready' = card (positive_keys ind) + length ready"
proof (induction ts arbitrary: ind ready)
  case Nil
  then show ?case by simp
next
  case (Cons t ts)
  obtain ind1 ready1 where r: "relax_target t (ind, ready) = (ind1, ready1)" by fastforce
  with Cons.prems have "fold relax_target ts (ind1, ready1) = (ind', ready')" by simp
  from Cons.IH [OF this] relax_target_measure [OF r] show ?case by simp
qed

function topo_loop :: "string list obj \<Rightarrow> int obj \<Rightarrow> string list \<Rightarrow> string list \<Rightarrow> string list" where
  "topo_loop outgoing indegree [] order = order"
| "topo_loop outgoing indegree (current # ready) order =
     (let (indegree', ready') =
            fold relax_target (case obj_get outgoing current of None \<Rightarrow> [] | Some ts \<Rightarrow> ts) (indegree, ready)
      in topo_loop outgoing indegree' ready' (order @ [current]))"
  by pat_completeness auto

termination
proof (relation "measure (\<lambda>(outgoing, indegree, ready, order). card (positive_keys indegree) + length ready)",
    goal_cases)
  case 1
  show ?case by simp
next
  case (2 outgoing indegree current ready order x indegree' ready')
  then have "fold relax_target (case obj_get outgoing current of None \<Rightarrow> [] | Some ts \<Rightarrow> ts) (indegree, ready)
      = (indegree', ready')" by simp
  from relax_fold_measure [OF this] show ?case by simp
qed

definition deterministicTopologicalOrder ::
  "string list \<Rightarrow> canvas_edge list \<Rightarrow> string list \<times> string list" where
  "deterministicTopologicalOrder nodeIds edges =
     (let (indegree, outgoing0) = build_graph nodeIds edges;
          outgoing = map (\<lambda>(k, targets). (k, sort_ids targets)) outgoing0;
          ready = sort_ids (map fst (filter (\<lambda>(_, d). d = 0) indegree));
          order = topo_loop outgoing indegree ready []
      in (order, sort_ids (filter (\<lambda>i. i \<notin> set order) nodeIds)))"

section \<open>Correctness of Kahn's algorithm\<close>

type_synonym arcs = "(string \<times> string) list"

definition selected_arcs :: "string list \<Rightarrow> canvas_edge list \<Rightarrow> arcs" where
  "selected_arcs nodeIds edges =
     filter (\<lambda>(s, t). s \<in> set nodeIds \<and> t \<in> set nodeIds)
       (map (\<lambda>e. (edge_sourceNodeId e, edge_targetNodeId e)) edges)"

definition open_arcs :: "arcs \<Rightarrow> string set \<Rightarrow> string \<Rightarrow> int" where
  "open_arcs as seen v = int (length (filter (\<lambda>(s, t). t = v \<and> s \<notin> seen) as))"

definition targets_of :: "arcs \<Rightarrow> string \<Rightarrow> string list" where
  "targets_of as s = map snd (filter (\<lambda>(s', t). s' = s) as)"

text \<open>Every arc into a listed node comes from a node listed before it.\<close>

definition topological :: "arcs \<Rightarrow> string list \<Rightarrow> bool" where
  "topological as order = (\<forall>i < length order. \<forall>s. (s, order ! i) \<in> set as \<longrightarrow> s \<in> set (take i order))"

lemma topological_Nil [simp]: "topological as []"
  by (simp add: topological_def)

lemma topological_snoc:
  "topological as (order @ [v]) \<longleftrightarrow> topological as order \<and> (\<forall>s. (s, v) \<in> set as \<longrightarrow> s \<in> set order)"
  by (auto simp: topological_def nth_append less_Suc_eq)

lemma open_arcs_nonneg: "0 \<le> open_arcs as seen v"
  by (simp add: open_arcs_def)

lemma open_arcs_zero: "open_arcs as seen v = 0 \<longleftrightarrow> (\<forall>s. (s, v) \<in> set as \<longrightarrow> s \<in> seen)"
  by (auto simp: open_arcs_def filter_empty_conv)

lemma open_arcs_insert:
  "c \<notin> seen \<Longrightarrow>
   open_arcs as (insert c seen) v = open_arcs as seen v - int (count_list (targets_of as c) v)"
  by (induction as) (auto simp: open_arcs_def targets_of_def)

lemma count_targets_le: "c \<notin> seen \<Longrightarrow> int (count_list (targets_of as c) v) \<le> open_arcs as seen v"
  using open_arcs_insert [of c seen as v] open_arcs_nonneg [of as "insert c seen" v] by simp

text \<open>The inner loop over the targets of one node.\<close>

lemma relax_fold:
  assumes "fold relax_target ts (ind, ready) = (ind', ready')"
    and "\<And>v. v \<in> set ts \<Longrightarrow> int (count_list ts v) \<le> degree ind v"
    and "distinct ready" and "\<And>v. v \<in> set ready \<Longrightarrow> v \<notin> set ts"
  shows "degree ind' v = degree ind v - int (count_list ts v)"
    and "set ready' = set ready \<union> {v \<in> set ts. degree ind v = int (count_list ts v)}"
    and "distinct ready'"
proof -
  have "(\<forall>v. degree ind' v = degree ind v - int (count_list ts v))
      \<and> set ready' = set ready \<union> {v \<in> set ts. degree ind v = int (count_list ts v)} \<and> distinct ready'"
    using assms
  proof (induction ts arbitrary: ind ready)
    case Nil
    then show ?case by simp
  next
    case (Cons t ts)
    define ready1 where "ready1 = (if degree ind t - 1 = 0 then sortedInsert t ready else ready)"
    define ind1 where "ind1 = obj_put t (degree ind t - 1) ind"
    have step: "fold relax_target ts (ind1, ready1) = (ind', ready')"
      using Cons.prems(1) by (simp only: fold_Cons comp_def relax_target_pair ind1_def ready1_def)
    have bound: "int (count_list (t # ts) v) \<le> degree ind v" if "v \<in> set (t # ts)" for v
      using Cons.prems(2) that by blast
    have t_pos: "int (count_list ts t) \<le> degree ind t - 1" using bound [of t] by simp
    have fresh: "t \<notin> set ready" "\<And>v. v \<in> set ready \<Longrightarrow> v \<notin> set ts" using Cons.prems(4) by auto
    have t_zero: "t \<notin> set ts" if "degree ind t - 1 = 0"
      using t_pos that by (simp add: count_list_0_iff)
    have IH: "(\<forall>v. degree ind' v = degree ind1 v - int (count_list ts v))
        \<and> set ready' = set ready1 \<union> {v \<in> set ts. degree ind1 v = int (count_list ts v)} \<and> distinct ready'"
    proof (rule Cons.IH [OF step])
      show "int (count_list ts v) \<le> degree ind1 v" if "v \<in> set ts" for v
        using bound [of v] that t_pos by (auto simp: ind1_def split: if_splits)
      show "distinct ready1" using Cons.prems(3) fresh by (simp add: ready1_def)
      show "v \<notin> set ts" if "v \<in> set ready1" for v
        using that fresh t_zero by (auto simp: ready1_def split: if_splits)
    qed
    have "set ready' = set ready \<union> {v \<in> set (t # ts). degree ind v = int (count_list (t # ts) v)}"
    proof (cases "degree ind t - 1 = 0")
      case True
      then show ?thesis using IH t_zero t_pos by (auto simp: ready1_def ind1_def)
    next
      case False
      then show ?thesis using IH t_pos by (auto simp: ready1_def ind1_def count_list_0_iff)
    qed
    with IH show ?case by (auto simp: ind1_def)
  qed
  then show "degree ind' v = degree ind v - int (count_list ts v)"
    and "set ready' = set ready \<union> {v \<in> set ts. degree ind v = int (count_list ts v)}"
    and "distinct ready'" by auto
qed

text \<open>The counting pass: each selected node starts with the number of arcs into it.\<close>

lemma selected_arcs_snoc:
  "selected_arcs nodeIds (edges @ [e]) = selected_arcs nodeIds edges
     @ (if edge_sourceNodeId e \<in> set nodeIds \<and> edge_targetNodeId e \<in> set nodeIds
        then [(edge_sourceNodeId e, edge_targetNodeId e)] else [])"
  by (simp add: selected_arcs_def)

lemma targets_of_append [simp]: "targets_of (as @ bs) s = targets_of as s @ targets_of bs s"
  by (simp add: targets_of_def)

lemma open_arcs_append [simp]: "open_arcs (as @ bs) seen v = open_arcs as seen v + open_arcs bs seen v"
  by (simp add: open_arcs_def)

lemma build_graph_spec:
  assumes "build_graph nodeIds edges = (ind, out)"
  shows "obj_ok ind"
    and "degree ind v = open_arcs (selected_arcs nodeIds edges) {} v"
    and "set (obj_keys ind) = set nodeIds"
    and "obj_get out s = (if s \<in> set nodeIds then Some (targets_of (selected_arcs nodeIds edges) s) else None)"
proof -
  have "obj_ok ind \<and> (\<forall>v. degree ind v = open_arcs (selected_arcs nodeIds edges) {} v)
      \<and> set (obj_keys ind) = set nodeIds
      \<and> (\<forall>s. obj_get out s
            = (if s \<in> set nodeIds then Some (targets_of (selected_arcs nodeIds edges) s) else None))"
    using assms
  proof (induction edges arbitrary: ind out rule: rev_induct)
    case Nil
    then have ind: "ind = obj_from (map (\<lambda>i. (i, 0)) nodeIds)"
      and out: "out = obj_from (map (\<lambda>i. (i, [])) nodeIds)" by (auto simp: build_graph_def)
    have "k \<in> set (obj_keys ind) \<longleftrightarrow> k \<in> set nodeIds" for k
      using obj_get_eq_None_iff [of ind k] by (simp add: ind obj_get_from_map split: if_splits)
    then show ?case
      by (auto simp: ind out obj_get_from_map degree_def selected_arcs_def open_arcs_def targets_of_def)
  next
    case (snoc e es)
    obtain ind0 out0 where b: "build_graph nodeIds es = (ind0, out0)" by fastforce
    note IH = snoc.IH [OF b]
    have eq: "(ind, out) = count_edge (set nodeIds) e (ind0, out0)"
      using snoc.prems b by (simp add: build_graph_def)
    show ?case
    proof (cases "edge_sourceNodeId e \<in> set nodeIds \<and> edge_targetNodeId e \<in> set nodeIds")
      case False
      then have "ind = ind0 \<and> out = out0" using eq by (auto simp: count_edge_def)
      with IH False show ?thesis by (simp only: selected_arcs_snoc) auto
    next
      case True
      then have "ind = obj_put (edge_targetNodeId e) (degree ind0 (edge_targetNodeId e) + 1) ind0"
        and "out = obj_put (edge_sourceNodeId e)
            (targets_of (selected_arcs nodeIds es) (edge_sourceNodeId e) @ [edge_targetNodeId e]) out0"
        using eq IH by (auto simp: count_edge_def)
      with IH True show ?thesis
        by (auto simp: selected_arcs_snoc obj_keys_put open_arcs_def targets_of_def)
    qed
  qed
  then show "obj_ok ind"
    and "degree ind v = open_arcs (selected_arcs nodeIds edges) {} v"
    and "set (obj_keys ind) = set nodeIds"
    and "obj_get out s = (if s \<in> set nodeIds then Some (targets_of (selected_arcs nodeIds edges) s) else None)"
    by auto
qed

text \<open>
  The outer loop: what has been emitted is topological, and the ready list holds exactly the nodes
  whose predecessors have all been emitted.
\<close>

definition ready_set :: "string set \<Rightarrow> arcs \<Rightarrow> string set \<Rightarrow> string set" where
  "ready_set V as seen = {v \<in> V. v \<notin> seen \<and> open_arcs as seen v = 0}"

lemma count_list_sort_ids [simp]: "count_list (sort_ids xs) v = count_list xs v"
  by (simp add: sort_ids_def flip: count_mset)

lemma topo_loop_spec:
  assumes "\<And>s v. count_list (case obj_get outgoing s of None \<Rightarrow> [] | Some ts \<Rightarrow> ts) v = count_list (targets_of as s) v"
    and "\<And>v. degree ind v = open_arcs as (set order) v"
    and "set ready = ready_set V as (set order)"
    and "distinct (order @ ready)" and "topological as order" and "set order \<subseteq> V" and "snd ` set as \<subseteq> V"
  defines "result \<equiv> topo_loop outgoing ind ready order"
  shows "distinct result \<and> topological as result \<and> set result \<subseteq> V \<and> ready_set V as (set result) = {}"
  using assms(1-7) unfolding result_def
proof (induction outgoing ind ready order rule: topo_loop.induct)
  case (1 outgoing ind order)
  then show ?case by auto
next
  case (2 outgoing ind current ready order)
  define ts where "ts = (case obj_get outgoing current of None \<Rightarrow> [] | Some ts \<Rightarrow> ts)"
  obtain ind' ready' where f: "fold relax_target ts (ind, ready) = (ind', ready')" by fastforce
  have cnt: "count_list ts v = count_list (targets_of as current) v" for v
    using 2(2) by (simp add: ts_def)
  have cur: "current \<in> V" "current \<notin> set order" "open_arcs as (set order) current = 0"
    using 2(4) by (auto simp: ready_set_def)
  have dist: "distinct ready" "current \<notin> set ready" using 2(5) by auto
  have le: "int (count_list ts v) \<le> degree ind v" for v
    using count_targets_le [OF cur(2)] by (simp add: cnt 2(3))
  have fresh: "v \<notin> set ts" if "v \<in> set (current # ready)" for v
  proof -
    have "degree ind v = 0" using that 2(4) by (simp add: 2(3) ready_set_def set_eq_iff)
    with le [of v] show ?thesis by (simp add: count_list_0_iff)
  qed
  note spec = relax_fold [OF f le dist(1)]
  have deg': "degree ind' v = open_arcs as (set (order @ [current])) v" for v
    using spec(1) fresh cur(2) open_arcs_insert [of current "set order" as v] by (simp add: cnt 2(3))
  have in_V: "set ts \<subseteq> V"
  proof
    fix v assume "v \<in> set ts"
    then have "count_list (targets_of as current) v \<noteq> 0" by (simp add: count_list_0_iff flip: cnt)
    then have "(current, v) \<in> set as" by (auto simp: count_list_0_iff targets_of_def)
    with 2(8) show "v \<in> V" by force
  qed
  have zero: "open_arcs as (insert current (set order)) v = 0
      \<longleftrightarrow> open_arcs as (set order) v = int (count_list ts v)" for v
    using open_arcs_insert [OF cur(2), of as v] by (simp add: cnt)
  have no_ts: "v \<notin> set order" if "v \<in> set ts" for v
  proof
    assume "v \<in> set order"
    then obtain i where i: "i < length order" "order ! i = v" by (auto simp: in_set_conv_nth)
    have "(current, v) \<in> set as"
      using that cnt [of v] count_list_0_iff [of "targets_of as current" v]
        count_list_0_iff [of ts v] by (auto simp: targets_of_def)
    with 2(6) i have "current \<in> set (take i order)" by (auto simp: topological_def)
    with cur(2) show False by (auto dest: in_set_takeD)
  qed
  have ready_eq: "set ready' = ready_set V as (set (order @ [current]))"
  proof (rule set_eqI)
    fix v
    have "v \<in> set ready' \<longleftrightarrow> v \<in> set ready \<or> v \<in> set ts \<and> open_arcs as (set order) v = int (count_list ts v)"
      using spec(2) fresh by (auto simp: 2(3))
    also have "\<dots> \<longleftrightarrow> v \<in> V \<and> v \<notin> set order \<and> v \<noteq> current \<and> open_arcs as (set order) v = int (count_list ts v)"
    proof (cases "v \<in> set ts")
      case True
      then show ?thesis using fresh [of v] in_V no_ts by auto
    next
      case False
      then have "v \<in> set (current # ready) \<longleftrightarrow> v \<in> V \<and> v \<notin> set order \<and> open_arcs as (set order) v = 0"
        using 2(4) by (simp add: ready_set_def set_eq_iff)
      with False dist(2) show ?thesis by (auto simp: count_list_0_iff)
    qed
    also have "\<dots> \<longleftrightarrow> v \<in> ready_set V as (set (order @ [current]))"
      by (auto simp: ready_set_def zero)
    finally show "v \<in> set ready' \<longleftrightarrow> v \<in> ready_set V as (set (order @ [current]))" .
  qed
  have dist': "distinct ((order @ [current]) @ ready')"
    using spec(3) fresh ready_eq 2(5) by (auto simp: ready_set_def)
  have topo': "topological as (order @ [current])"
    using 2(6) cur(3) by (simp add: topological_snoc open_arcs_zero)
  have "distinct (topo_loop outgoing ind' ready' (order @ [current]))
      \<and> topological as (topo_loop outgoing ind' ready' (order @ [current]))
      \<and> set (topo_loop outgoing ind' ready' (order @ [current])) \<subseteq> V
      \<and> ready_set V as (set (topo_loop outgoing ind' ready' (order @ [current]))) = {}"
  proof (rule 2(1) [OF refl])
    show "(ind', ready') = fold relax_target
        (case obj_get outgoing current of None \<Rightarrow> [] | Some ts \<Rightarrow> ts) (ind, ready)"
      using f by (simp add: ts_def)
    show "set (order @ [current]) \<subseteq> V" using 2(7) cur(1) by simp
  qed (use 2(2,8) deg' ready_eq dist' topo' in blast)+
  then show ?case using f by (simp add: ts_def)
qed

lemma zero_keys:
  assumes "build_graph nodeIds edges = (ind, out)"
  shows "distinct (map fst (filter (\<lambda>(_, d). d = 0) ind))"
    and "set (map fst (filter (\<lambda>(_, d). d = 0) ind))
      = {v \<in> set nodeIds. open_arcs (selected_arcs nodeIds edges) {} v = 0}"
proof -
  note spec = build_graph_spec [OF assms]
  have "distinct (map fst ind)" using spec(1) by (simp add: obj_ok_def)
  then show "distinct (map fst (filter (\<lambda>(_, d). d = 0) ind))" by (simp add: distinct_map_filter)
  have "(v, 0) \<in> set ind \<longleftrightarrow> v \<in> set nodeIds \<and> open_arcs (selected_arcs nodeIds edges) {} v = 0" for v
    using spec(1,3) spec(2) [of v] obj_get_eq_Some_iff [of ind v 0] obj_get_eq_None_iff [of ind v]
    by (cases "obj_get ind v") (auto simp: degree_def)
  then show "set (map fst (filter (\<lambda>(_, d). d = 0) ind))
      = {v \<in> set nodeIds. open_arcs (selected_arcs nodeIds edges) {} v = 0}" by force
qed

lemma order_spec:
  assumes "deterministicTopologicalOrder nodeIds edges = (order, remaining)"
  shows "distinct order" and "topological (selected_arcs nodeIds edges) order"
    and "set order \<subseteq> set nodeIds"
    and "ready_set (set nodeIds) (selected_arcs nodeIds edges) (set order) = {}"
    and "set remaining = set nodeIds - set order"
    and "distinct nodeIds \<Longrightarrow> distinct remaining"
proof -
  define as where "as = selected_arcs nodeIds edges"
  obtain ind out where b: "build_graph nodeIds edges = (ind, out)" by fastforce
  define out' where "out' = map (\<lambda>(k, targets). (k, sort_ids targets)) out"
  define ready where "ready = sort_ids (map fst (filter (\<lambda>(_, d). d = 0) ind))"
  have order: "order = topo_loop out' ind ready []"
    and rem: "remaining = sort_ids (filter (\<lambda>i. i \<notin> set order) nodeIds)"
    using assms by (auto simp: deterministicTopologicalOrder_def b out'_def ready_def Let_def)
  have out: "obj_get out' s = (if s \<in> set nodeIds then Some (sort_ids (targets_of as s)) else None)" for s
    using build_graph_spec(4) [OF b] by (simp add: out'_def as_def obj_get_def map_of_map)
  have outside: "targets_of as s = []" if "s \<notin> set nodeIds" for s
    using that by (auto simp: as_def targets_of_def selected_arcs_def filter_empty_conv)
  have ready_eq: "set ready = ready_set (set nodeIds) as (set [])"
    using zero_keys(2) [OF b] by (simp add: ready_def ready_set_def as_def)
  have dist: "distinct ([] @ ready)" using zero_keys(1) [OF b] by (simp add: ready_def)
  have "distinct order \<and> topological as order \<and> set order \<subseteq> set nodeIds
      \<and> ready_set (set nodeIds) as (set order) = {}"
    unfolding order
  proof (rule topo_loop_spec)
    show "count_list (case obj_get out' s of None \<Rightarrow> [] | Some ts \<Rightarrow> ts) v = count_list (targets_of as s) v" for s v
      using outside by (simp add: out)
    show "degree ind v = open_arcs as (set []) v" for v
      using build_graph_spec(2) [OF b] by (simp add: as_def)
    show "snd ` set as \<subseteq> set nodeIds" by (auto simp: as_def selected_arcs_def)
  qed (use ready_eq dist in simp_all)
  then show "distinct order" and "topological (selected_arcs nodeIds edges) order"
    and "set order \<subseteq> set nodeIds"
    and "ready_set (set nodeIds) (selected_arcs nodeIds edges) (set order) = {}" by (simp_all add: as_def)
  show "set remaining = set nodeIds - set order" by (auto simp: rem)
  show "distinct nodeIds \<Longrightarrow> distinct remaining" by (simp add: rem)
qed

lemma topological_rank:
  assumes "topological as order" and "distinct order" and "(s, t) \<in> set as" and "t \<in> set order"
  shows "s \<in> set order \<and> index_in order s < index_in order t"
proof -
  have i: "index_in order t < length order" "order ! index_in order t = t"
    using assms(4) by (simp_all add: nth_index_in index_in_less)
  with assms(1,3) have "s \<in> set (take (index_in order t) order)" by (auto simp: topological_def)
  then obtain j where j: "j < index_in order t" "order ! j = s" "j < length order"
    by (auto simp: in_set_conv_nth)
  then have "s \<in> set order" by auto
  moreover have "index_in order s = j"
    using j assms(2) \<open>s \<in> set order\<close> nth_index_in index_in_less nth_eq_iff_index_eq by metis
  ultimately show ?thesis using j by simp
qed

lemma topological_acyclic:
  assumes "topological as order" and "distinct order" and "snd ` set as \<subseteq> set order"
  shows "acyclic (set as)"
proof -
  have "set as \<subseteq> measure (index_in order)"
    using assms topological_rank by fastforce
  then show ?thesis by (metis wf_acyclic wf_measure wf_subset)
qed

lemma acyclic_ready:
  assumes "acyclic (set as)" and "ready_set V as seen = {}" and "fst ` set as \<subseteq> V"
  shows "V \<subseteq> seen"
proof (rule ccontr)
  assume "\<not> V \<subseteq> seen"
  then obtain x where "x \<in> V - seen" by blast
  moreover have "wf (set as)" using assms(1) by (simp add: finite_acyclic_wf)
  ultimately obtain v where v: "v \<in> V - seen" "\<And>s. (s, v) \<in> set as \<Longrightarrow> s \<notin> V - seen"
    by (meson wfE_min)
  with assms(3) have "open_arcs as seen v = 0" by (force simp: open_arcs_zero)
  with v(1) assms(2) show False by (auto simp: ready_set_def)
qed

lemma order_remaining_acyclic:
  assumes "deterministicTopologicalOrder nodeIds edges = (order, remaining)"
  shows "remaining = [] \<longleftrightarrow> acyclic (set (selected_arcs nodeIds edges))"
proof -
  note spec = order_spec [OF assms]
  have arcs: "fst ` set (selected_arcs nodeIds edges) \<subseteq> set nodeIds"
    "snd ` set (selected_arcs nodeIds edges) \<subseteq> set nodeIds" by (auto simp: selected_arcs_def)
  have "remaining = [] \<longleftrightarrow> set nodeIds \<subseteq> set order"
    using spec(5) by (metis Diff_eq_empty_iff set_empty)
  also have "\<dots> \<longleftrightarrow> acyclic (set (selected_arcs nodeIds edges))"
    using topological_acyclic [OF spec(2,1)] acyclic_ready [OF _ spec(4) arcs(1)] arcs(2) by blast
  finally show ?thesis .
qed

text \<open>
  C21. For any node ids and edges, the topological routine lists each selected node at most once,
  every node after all of its predecessors in the selected subgraph; its second component holds
  exactly the nodes it could not list, and that is empty if and only if the selected subgraph has
  no cycle. The routine is total.
\<close>

theorem deterministicTopologicalOrder_correct:
  fixes nodeIds edges
  defines "order \<equiv> fst (deterministicTopologicalOrder nodeIds edges)"
    and "remaining \<equiv> snd (deterministicTopologicalOrder nodeIds edges)"
  shows "distinct order \<and> topological (selected_arcs nodeIds edges) order
     \<and> set order \<subseteq> set nodeIds \<and> set remaining = set nodeIds - set order
     \<and> (remaining = [] \<longleftrightarrow> acyclic (set (selected_arcs nodeIds edges)))"
proof -
  have "deterministicTopologicalOrder nodeIds edges = (order, remaining)"
    by (simp add: order_def remaining_def)
  from order_spec [OF this] order_remaining_acyclic [OF this] show ?thesis by blast
qed

text \<open>
  The result does not depend on the order of the arrays: only on the selected set and on the
  multiset of the arcs.
\<close>

lemma sort_ids_mset:
  assumes "mset xs = mset ys"
  shows "sort_ids xs = sort_ids ys"
proof -
  have "map Collated (sort_ids xs) = map Collated (sort_ids ys)"
  proof (rule trans [OF sym])
    show "sort (map Collated xs) = map Collated (sort_ids xs)"
      by (rule properties_for_sort) (simp_all add: sort_ids_def)
    show "sort (map Collated xs) = map Collated (sort_ids ys)"
      by (rule properties_for_sort) (simp_all add: sort_ids_def assms)
  qed
  then show ?thesis by (rule map_inj_on) (rule ids.inj_key)
qed

lemma relax_fold_cong:
  assumes "\<And>v. degree ind v = degree ind2 v"
  shows "snd (fold relax_target ts (ind, ready)) = snd (fold relax_target ts (ind2, ready))
    \<and> (\<forall>v. degree (fst (fold relax_target ts (ind, ready))) v
          = degree (fst (fold relax_target ts (ind2, ready))) v)"
  using assms
proof (induction ts arbitrary: ind ind2 ready)
  case Nil
  then show ?case by simp
next
  case (Cons t ts)
  have "\<And>v. degree (obj_put t (degree ind t - 1) ind) v = degree (obj_put t (degree ind2 t - 1) ind2) v"
    using Cons.prems by simp
  from Cons.IH [OF this] show ?case using Cons.prems by (simp add: relax_target_pair)
qed

lemma topo_loop_cong:
  assumes "\<And>s. obj_get out s = obj_get out2 s" and "\<And>v. degree ind v = degree ind2 v"
  shows "topo_loop out ind ready order = topo_loop out2 ind2 ready order"
  using assms
proof (induction out ind ready order arbitrary: ind2 rule: topo_loop.induct)
  case (1 out ind order)
  then show ?case by simp
next
  case (2 out ind current ready order)
  define ts where "ts = (case obj_get out current of None \<Rightarrow> [] | Some ts \<Rightarrow> ts)"
  obtain i1 r1 where f: "fold relax_target ts (ind, ready) = (i1, r1)" by fastforce
  obtain i2 r2 where f2: "fold relax_target ts (ind2, ready) = (i2, r2)" by fastforce
  from relax_fold_cong [OF 2(3), of ts ready] have r: "r1 = r2" "\<And>v. degree i1 v = degree i2 v"
    by (simp_all add: f f2)
  have "topo_loop out i1 r1 (order @ [current]) = topo_loop out2 i2 r1 (order @ [current])"
    by (rule 2(1) [OF refl]) (use f 2(2) r in \<open>simp_all add: ts_def\<close>)
  then show ?case using f f2 r(1) by (simp add: ts_def 2(2))
qed

lemma open_arcs_mset: "mset as = mset bs \<Longrightarrow> open_arcs as seen v = open_arcs bs seen v"
  unfolding open_arcs_def by (metis mset_filter size_mset)

lemma targets_of_mset: "mset as = mset bs \<Longrightarrow> mset (targets_of as s) = mset (targets_of bs s)"
  by (simp add: targets_of_def)

lemma selected_arcs_mset:
  "mset edges = mset edges' \<Longrightarrow> set ns = set ns'
   \<Longrightarrow> mset (selected_arcs ns edges) = mset (selected_arcs ns' edges')"
  by (simp add: selected_arcs_def)

text \<open>
  The topological routine is deterministic: any permutation of the node ids and of the edges
  gives the same order and the same remainder, so a plan does not depend on how a canvas lists
  its nodes and edges.
\<close>

theorem deterministicTopologicalOrder_permutation:
  assumes nodes: "mset nodeIds = mset nodeIds'" and edges: "mset edges = mset edges'"
  shows "deterministicTopologicalOrder nodeIds edges = deterministicTopologicalOrder nodeIds' edges'"
proof -
  obtain ind out where b: "build_graph nodeIds edges = (ind, out)" by fastforce
  obtain ind' out' where b': "build_graph nodeIds' edges' = (ind', out')" by fastforce
  have V: "set nodeIds = set nodeIds'" using nodes by (rule mset_eq_setD)
  note arcs = selected_arcs_mset [OF edges V]
  let ?sort = "map (\<lambda>(k, targets). (k, sort_ids targets))"
  have out_eq: "obj_get (?sort out) s = obj_get (?sort out') s" for s
    using build_graph_spec(4) [OF b, of s] build_graph_spec(4) [OF b', of s] V
      sort_ids_mset [OF targets_of_mset [OF arcs, of s]]
    by (simp add: obj_get_def map_of_map)
  have deg: "degree ind v = degree ind' v" for v
    using build_graph_spec(2) [OF b] build_graph_spec(2) [OF b'] open_arcs_mset [OF arcs] by simp
  have ready: "sort_ids (map fst (filter (\<lambda>(_, d). d = 0) ind))
      = sort_ids (map fst (filter (\<lambda>(_, d). d = 0) ind'))"
    by (rule sort_ids_cong [OF zero_keys(1) [OF b] zero_keys(1) [OF b']])
      (simp only: zero_keys(2) [OF b] zero_keys(2) [OF b'] V open_arcs_mset [OF arcs])
  have rest: "sort_ids (filter P nodeIds) = sort_ids (filter P nodeIds')" for P
    by (rule sort_ids_mset) (simp add: nodes)
  show ?thesis
    by (simp add: deterministicTopologicalOrder_def b b' Let_def ready topo_loop_cong [OF out_eq deg] rest)
qed

end
