(* ===== verification/Validation.thy ===== *)
theory Validation
  imports Topology
begin

text \<open>
  \<open>validateWorkflow\<close> and \<open>validateWorkflowExecutionConfiguration\<close> of
  \<open>packages/core/src/workflow/model.ts\<close>. The passes over nodes, edges, human review targets, gates,
  loops, groups and frames are one function each, in the order the code runs them; the issues they
  push are the lists they return. The second half states what a valid canvas is
  (\<open>wellformed_canvas\<close>) without reference to the passes, and proves that the validator accepts
  exactly those canvases.
\<close>

section \<open>Issues and lookups\<close>

definition issue_if :: "bool \<Rightarrow> issue_code \<Rightarrow> string \<Rightarrow> string list \<Rightarrow> issue list" where
  "issue_if b code message ids =
     (if b then [\<lparr>issue_code = code, issue_message = message, issue_entityIds = ids\<rparr>] else [])"

lemma issue_if_Nil [simp]: "issue_if b code message ids = [] \<longleftrightarrow> \<not> b"
  by (simp add: issue_if_def)

text \<open>A \<open>Map\<close> filled in a loop keeps the last entry of a key.\<close>

definition node_by_id :: "canvas_node list \<Rightarrow> string \<Rightarrow> canvas_node option" where
  "node_by_id nodes i = find (\<lambda>n. node_id n = i) (rev nodes)"

definition edge_by_id :: "canvas_edge list \<Rightarrow> string \<Rightarrow> canvas_edge option" where
  "edge_by_id edges i = find (\<lambda>e. edge_id e = i) (rev edges)"

definition has_type :: "(node_data \<Rightarrow> bool) \<Rightarrow> canvas_node option \<Rightarrow> bool" where
  "has_type P n = (case n of None \<Rightarrow> False | Some n \<Rightarrow> P (node_data n))"

section \<open>Node and edge passes\<close>

fun node_issues :: "string list \<Rightarrow> canvas_node list \<Rightarrow> issue list" where
  "node_issues allIds [] = []"
| "node_issues allIds (n # ns) =
     issue_if (node_id n \<in> set allIds) DUPLICATE_ID (''Duplicate node id: '' @ node_id n) [node_id n]
     @ node_issues (set_add (node_id n) allIds) ns"

definition endpoint_issues :: "canvas_node list \<Rightarrow> canvas_edge \<Rightarrow> issue list" where
  "endpoint_issues nodes e =
     issue_if (node_by_id nodes (edge_sourceNodeId e) = None) MISSING_NODE
       ''Edge source does not exist'' [edge_id e, edge_sourceNodeId e]
     @ issue_if (node_by_id nodes (edge_targetNodeId e) = None) MISSING_NODE
       ''Edge target does not exist'' [edge_id e, edge_targetNodeId e]
     @ issue_if (edge_sourceNodeId e = edge_targetNodeId e) SELF_EDGE
       ''Self edges are not executable'' [edge_id e]"

definition context_issues :: "canvas_node list \<Rightarrow> canvas_edge \<Rightarrow> issue list" where
  "context_issues nodes e =
     (case edge_config e of
        Context c \<Rightarrow>
          issue_if (\<not> has_type is_AgentNode (node_by_id nodes (edge_targetNodeId e))
                    \<and> \<not> has_type is_TaskNode (node_by_id nodes (edge_targetNodeId e)))
            INVALID_EDGE_TARGET ''Context edges must target an Agent or assigned Task node''
            [edge_id e, edge_targetNodeId e]
          @ issue_if (ctx_required c \<and> ctx_attachmentIds c = []) MISSING_REQUIRED_CONTEXT
            ''Required context edges must select at least one explicit attachment'' [edge_id e]
      | _ \<Rightarrow> [])"

definition review_issues :: "canvas_node list \<Rightarrow> canvas_edge \<Rightarrow> issue list" where
  "review_issues nodes e =
     (case edge_config e of
        Review c \<Rightarrow>
          (let target = node_by_id nodes (edge_targetNodeId e);
               ids = [edge_id e, edge_targetNodeId e]
           in issue_if (rev_reviewer c = ReviewerAgent \<and> \<not> has_type is_AgentNode target) INVALID_REVIEWER
                ''Agent review edges must target the configured reviewer agent'' ids
              @ issue_if (rev_reviewer c = ReviewerGate \<and> \<not> has_type is_ReviewGateNode target) INVALID_REVIEWER
                ''Gate review edges must target a review-gate node'' ids
              @ (if rev_reviewer c = ReviewerHuman
                 then issue_if (\<not> has_type is_DiffReviewNode target) INVALID_REVIEW_TARGET
                        ''Human review edges must target a dedicated diff-review node'' ids
                      @ issue_if (\<not> rev_requireApproval c) INVALID_REVIEW_TARGET
                        ''Human review edges must require an explicit decision'' ids
                 else []))
      | _ \<Rightarrow> [])"

definition dependency_issues :: "canvas_node list \<Rightarrow> canvas_edge \<Rightarrow> issue list" where
  "dependency_issues nodes e =
     (case edge_config e of
        Dependency \<Rightarrow>
          issue_if (\<not> has_type is_TaskNode (node_by_id nodes (edge_sourceNodeId e))) INVALID_EDGE_SOURCE
            ''Dependency edges must start at task nodes'' [edge_id e, edge_sourceNodeId e]
          @ issue_if (\<not> has_type is_TaskNode (node_by_id nodes (edge_targetNodeId e))) INVALID_EDGE_TARGET
            ''Dependency edges must target task nodes'' [edge_id e, edge_targetNodeId e]
      | _ \<Rightarrow> [])"

definition execute_issues :: "canvas_node list \<Rightarrow> canvas_edge \<Rightarrow> issue list" where
  "execute_issues nodes e =
     (case edge_config e of
        Execute c \<Rightarrow>
          issue_if (exe_approval c = ApproveReviewGate
                    \<and> \<not> has_type is_ReviewGateNode
                        (node_by_id nodes (case exe_approvalGateNodeId c of None \<Rightarrow> [] | Some g \<Rightarrow> g)))
            INVALID_EDGE_TARGET ''Execute approval references a missing or invalid review gate'' [edge_id e]
      | _ \<Rightarrow> [])"

fun edge_issues :: "canvas_node list \<Rightarrow> string list \<Rightarrow> canvas_edge list \<Rightarrow> issue list" where
  "edge_issues nodes allIds [] = []"
| "edge_issues nodes allIds (e # es) =
     issue_if (edge_id e \<in> set allIds) DUPLICATE_ID (''Duplicate edge id: '' @ edge_id e) [edge_id e]
     @ endpoint_issues nodes e @ context_issues nodes e @ review_issues nodes e
     @ dependency_issues nodes e @ execute_issues nodes e
     @ edge_issues nodes (set_add (edge_id e) allIds) es"

section \<open>Human review targets\<close>

definition is_human_review :: "canvas_edge \<Rightarrow> bool" where
  "is_human_review e = (case edge_config e of Review c \<Rightarrow> rev_reviewer c = ReviewerHuman | _ \<Rightarrow> False)"

definition human_target_issues :: "canvas_edge list \<Rightarrow> string \<Rightarrow> issue list" where
  "human_target_issues edges targetNodeId =
     (let incomingReviews = filter (\<lambda>e. is_Review (edge_config e) \<and> edge_targetNodeId e = targetNodeId) edges;
          humanReview = find is_human_review incomingReviews;
          conflictingInputs =
            filter (\<lambda>e. edge_targetNodeId e = targetNodeId
                        \<and> (case humanReview of None \<Rightarrow> True | Some h \<Rightarrow> edge_id e \<noteq> edge_id h)
                        \<and> \<not> (is_Output (edge_config e)
                             \<and> (case humanReview of None \<Rightarrow> False
                                | Some h \<Rightarrow> edge_sourceNodeId e = edge_sourceNodeId h))) edges
      in issue_if (length incomingReviews \<noteq> 1) INVALID_REVIEW_TARGET
           ''A dedicated human review node must own exactly one incoming review decision''
           (targetNodeId # map edge_id incomingReviews)
         @ issue_if (length incomingReviews = 1 \<and> conflictingInputs \<noteq> []) INVALID_REVIEW_TARGET
           ''A dedicated human review node cannot share unrelated incoming controls or evidence''
           (targetNodeId # map edge_id conflictingInputs))"

definition human_review_issues :: "canvas_edge list \<Rightarrow> issue list" where
  "human_review_issues edges =
     concat (map (human_target_issues edges) (new_Set (map edge_targetNodeId (filter is_human_review edges))))"

section \<open>Review gates\<close>

definition check_producers :: "canvas_node list \<Rightarrow> string \<Rightarrow> canvas_node list" where
  "check_producers nodes checkId =
     filter (\<lambda>n. case node_data n of TestNode t \<Rightarrow> checkId \<in> set (te_runIds t) | _ \<Rightarrow> False) nodes"

definition gate_reviewer_issues :: "canvas \<Rightarrow> string \<Rightarrow> review_gate_data \<Rightarrow> issue list" where
  "gate_reviewer_issues c gateId g =
     (case rg_reviewerAgentId g of
        None \<Rightarrow> []
      | Some reviewerId \<Rightarrow>
          issue_if (\<not> has_type is_AgentNode (node_by_id (canvas_nodes c) reviewerId)) INVALID_REVIEWER
            ''A review-gate reviewer must reference an existing agent node'' [gateId, reviewerId]
          @ issue_if (\<not> list_ex (\<lambda>e. is_Review (edge_config e) \<and> edge_targetNodeId e = gateId) (canvas_edges c))
            INVALID_REVIEWER ''A review-gate reviewer requires an explicit review edge for its assessment''
            [gateId, reviewerId])"

definition gate_check_issues :: "canvas_node list \<Rightarrow> string \<Rightarrow> review_gate_data \<Rightarrow> issue list" where
  "gate_check_issues nodes gateId g =
     issue_if ((rg_testsRequired g \<or> rg_lintRequired g) \<and> rg_requiredCheckIds g = []) MISSING_CHECK_PRODUCER
       ''Kind-level deterministic gates must name at least one required check producer'' [gateId]
     @ concat (map (\<lambda>checkId.
         let producers = check_producers nodes checkId in
         if producers = []
         then issue_if True MISSING_CHECK_PRODUCER
                ''Every required check must map to a planned test node'' [gateId, checkId]
         else issue_if (length producers > 1) AMBIGUOUS_CHECK_PRODUCER
                ''A required check id can belong to only one test node''
                (gateId # checkId # map node_id producers)) (rg_requiredCheckIds g))"

definition gate_source_ids :: "string \<Rightarrow> canvas_edge \<Rightarrow> string list" where
  "gate_source_ids gateId e =
     (case edge_config e of
        Review _ \<Rightarrow> if edge_targetNodeId e = gateId then [edge_sourceNodeId e] else []
      | Execute c \<Rightarrow> if exe_approval c = ApproveReviewGate \<and> exe_approvalGateNodeId c = Some gateId
                     then [edge_sourceNodeId e] else []
      | _ \<Rightarrow> [])"

definition reviewedSourceIds :: "canvas \<Rightarrow> string \<Rightarrow> string list" where
  "reviewedSourceIds c gateId =
     new_Set (concat (map (gate_source_ids gateId) (canvas_edges c))
              @ map loop_implementationNodeId
                  (filter (\<lambda>l. loop_reviewNodeId l = gateId) (canvas_revisionLoops c)))"

definition requiresReviewedSource :: "review_gate_data \<Rightarrow> bool" where
  "requiresReviewedSource g =
     (rg_requiredCheckIds g \<noteq> [] \<or> rg_testsRequired g \<or> rg_lintRequired g
      \<or> rg_reviewerAgentId g \<noteq> None \<or> rg_humanApprovalRequired g)"

definition feeds_producer :: "canvas_edge list \<Rightarrow> string \<Rightarrow> string \<Rightarrow> bool" where
  "feeds_producer edges sourceId producerId =
     list_ex (\<lambda>e. (case edge_config e of Output c \<Rightarrow> out_required c | _ \<Rightarrow> False)
                  \<and> edge_sourceNodeId e = sourceId \<and> edge_targetNodeId e = producerId) edges"

definition gate_source_issues :: "canvas \<Rightarrow> string \<Rightarrow> review_gate_data \<Rightarrow> issue list" where
  "gate_source_issues c gateId g =
     (let sources = reviewedSourceIds c gateId in
      issue_if (requiresReviewedSource g \<and> length sources \<noteq> 1) INVALID_GATE_SOURCE
        ''A nontrivial review gate must resolve to exactly one reviewed source node'' (gateId # sources)
      @ (case sources of
           [reviewedSourceId] \<Rightarrow>
             concat (map (\<lambda>checkId.
               case check_producers (canvas_nodes c) checkId of
                 [producer] \<Rightarrow>
                   issue_if (\<not> feeds_producer (canvas_edges c) reviewedSourceId (node_id producer))
                     MISSING_CHECK_INPUT
                     ''A required check producer must consume a required verified output from the reviewed source''
                     [gateId, checkId, reviewedSourceId, node_id producer]
               | _ \<Rightarrow> []) (rg_requiredCheckIds g))
         | _ \<Rightarrow> [])
      @ (case rg_reviewerAgentId g of
           None \<Rightarrow> []
         | Some reviewerId \<Rightarrow>
             issue_if (reviewerId \<in> set sources) INVALID_REVIEWER
               ''A review-gate reviewer must be different from the reviewed source node'' [gateId, reviewerId]))"

definition gate_issues :: "canvas \<Rightarrow> canvas_node \<Rightarrow> issue list" where
  "gate_issues c n =
     (case node_data n of
        ReviewGateNode g \<Rightarrow>
          gate_reviewer_issues c (node_id n) g @ gate_check_issues (canvas_nodes c) (node_id n) g
          @ gate_source_issues c (node_id n) g
      | _ \<Rightarrow> [])"

section \<open>Revision loops\<close>

definition owner_issues :: "string \<Rightarrow> string \<Rightarrow> string obj \<Rightarrow> string \<Rightarrow> issue list" where
  "owner_issues message loopId owners edgeId =
     (case obj_get owners edgeId of
        None \<Rightarrow> []
      | Some owner \<Rightarrow> issue_if True DUPLICATE_LOOP_EDGE message [loopId, owner, edgeId])"

definition valid_review_edge :: "revision_loop \<Rightarrow> canvas_edge option \<Rightarrow> bool" where
  "valid_review_edge l e =
     (case e of None \<Rightarrow> False
      | Some e \<Rightarrow> (case edge_config e of Review c \<Rightarrow> rev_requireApproval c | _ \<Rightarrow> False)
          \<and> edge_sourceNodeId e = loop_implementationNodeId l \<and> edge_targetNodeId e = loop_reviewNodeId l)"

definition valid_revision_edge :: "revision_loop \<Rightarrow> canvas_edge option \<Rightarrow> bool" where
  "valid_revision_edge l e =
     (case e of None \<Rightarrow> False
      | Some e \<Rightarrow> edge_config e = Revision (Some (loop_id l))
          \<and> edge_sourceNodeId e = loop_reviewNodeId l \<and> edge_targetNodeId e = loop_implementationNodeId l)"

definition loop_gate :: "canvas_node list \<Rightarrow> revision_loop \<Rightarrow> review_gate_data option" where
  "loop_gate nodes l =
     (case node_by_id nodes (loop_reviewNodeId l) of
        None \<Rightarrow> None
      | Some n \<Rightarrow> (case node_data n of ReviewGateNode g \<Rightarrow> Some g | _ \<Rightarrow> None))"

definition test_stop_achievable :: "canvas_node list \<Rightarrow> revision_loop \<Rightarrow> bool" where
  "test_stop_achievable nodes l =
     (case loop_gate nodes l of
        None \<Rightarrow> False
      | Some g \<Rightarrow> rg_requiredCheckIds g \<noteq> [] \<or> rg_testsRequired g \<or> rg_lintRequired g)"

definition loop_shape_issues :: "canvas \<Rightarrow> revision_loop \<Rightarrow> issue list" where
  "loop_shape_issues c l =
     issue_if (\<not> valid_review_edge l (edge_by_id (canvas_edges c) (loop_reviewEdgeId l))
               \<or> \<not> valid_revision_edge l (edge_by_id (canvas_edges c) (loop_revisionEdgeId l)))
       INVALID_REVISION_LOOP ''Bounded loop edges must form implementation -> review -> implementation''
       [loop_id l]
     @ (case loop_gate (canvas_nodes c) l of
          None \<Rightarrow> []
        | Some g \<Rightarrow>
            issue_if (maximumIterations (rg_retryPolicy g) \<noteq> loop_maximumAttempts l) RETRY_POLICY_MISMATCH
              ''Review-gate retry iterations must equal the bounded revision-loop attempt limit''
              [loop_id l, loop_reviewNodeId l])
     @ issue_if (TestsPassed \<in> set (loop_stopConditions l) \<and> \<not> test_stop_achievable (canvas_nodes c) l)
         UNACHIEVABLE_STOP_CONDITION ''The tests-passed stop condition requires a deterministic review gate''
         [loop_id l, loop_reviewNodeId l]
     @ issue_if (ReviewApproved \<notin> set (loop_stopConditions l)
                 \<and> \<not> (TestsPassed \<in> set (loop_stopConditions l) \<and> test_stop_achievable (canvas_nodes c) l))
         UNACHIEVABLE_STOP_CONDITION
         ''A revision loop requires an automatic success stop condition before human escape''
         (loop_id l # map stop_condition_text (loop_stopConditions l))"

fun loop_issues ::
  "canvas \<Rightarrow> string list \<Rightarrow> string obj \<Rightarrow> string obj \<Rightarrow> revision_loop list \<Rightarrow> issue list" where
  "loop_issues c allIds reviewOwners revisionOwners [] = []"
| "loop_issues c allIds reviewOwners revisionOwners (l # ls) =
     issue_if (loop_id l \<in> set allIds) DUPLICATE_ID (''Duplicate revision-loop id: '' @ loop_id l) [loop_id l]
     @ owner_issues ''A review edge can belong to only one bounded loop''
         (loop_id l) reviewOwners (loop_reviewEdgeId l)
     @ owner_issues ''A revision edge can belong to only one bounded loop''
         (loop_id l) revisionOwners (loop_revisionEdgeId l)
     @ loop_shape_issues c l
     @ loop_issues c (set_add (loop_id l) allIds) (obj_put (loop_reviewEdgeId l) (loop_id l) reviewOwners)
         (obj_put (loop_revisionEdgeId l) (loop_id l) revisionOwners) ls"

definition unregistered_issues :: "revision_loop list \<Rightarrow> canvas_edge \<Rightarrow> issue list" where
  "unregistered_issues loops e =
     (case edge_config e of
        Revision (Some _) \<Rightarrow>
          issue_if (edge_id e \<notin> set (map loop_revisionEdgeId loops)) UNREGISTERED_REVISION_EDGE
            ''Revision edges are valid only inside an explicit bounded loop'' [edge_id e]
      | _ \<Rightarrow> [])"

section \<open>Groups, resources and frames\<close>

fun group_issues :: "canvas_node list \<Rightarrow> string list \<Rightarrow> string list \<Rightarrow> canvas_group list \<Rightarrow> issue list" where
  "group_issues nodes seen allIds [] = []"
| "group_issues nodes seen allIds (g # gs) =
     issue_if (group_id g \<in> set seen
               \<or> group_id g \<in> set allIds \<and> \<not> has_type is_GroupFrameNode (node_by_id nodes (group_id g)))
       DUPLICATE_ID (''Duplicate group id: '' @ group_id g) [group_id g]
     @ concat (map (\<lambda>i. issue_if (node_by_id nodes i = None) INVALID_GROUP
         ''Group references a missing node'' [group_id g, i]) (group_nodeIds g))
     @ group_issues nodes (set_add (group_id g) seen) (set_add (group_id g) allIds) gs"

definition member_issues :: "canvas \<Rightarrow> canvas_node \<Rightarrow> issue list" where
  "member_issues c n =
     (case node_groupId n of
        None \<Rightarrow> []
      | Some g \<Rightarrow> issue_if (g \<notin> set (map group_id (canvas_groups c))) INVALID_GROUP
          ''Node references a missing group'' [node_id n, g])
     @ issue_if (cpuUnits (node_resources n) > maximumCpuUnits (canvas_workflowLimits c)
                 \<or> memoryMb (node_resources n) > maximumMemoryMb (canvas_workflowLimits c))
         RESOURCE_LIMIT ''Node requirements exceed workflow capacity'' [node_id n]"

text \<open>The parent of a frame, \<open>None\<close> above the outermost frame.\<close>

definition frame_parent :: "canvas_node list \<Rightarrow> string \<Rightarrow> string option" where
  "frame_parent nodes i =
     (case node_by_id nodes i of
        None \<Rightarrow> None
      | Some n \<Rightarrow> if is_GroupFrameNode (node_data n) then node_groupId n else None)"

lemma node_by_id_Some: "node_by_id nodes i = Some n \<Longrightarrow> n \<in> set nodes \<and> node_id n = i"
  by (auto simp: node_by_id_def find_Some_iff in_set_conv_nth rev_nth) (metis diff_less length_greater_0_conv
    list.size(3) not_less_zero zero_less_Suc)

lemma frame_parent_Some: "frame_parent nodes i = Some p \<Longrightarrow> i \<in> set (map node_id nodes)"
  by (auto simp: frame_parent_def dest: node_by_id_Some split: option.splits)

function frame_chain_issues :: "canvas_node list \<Rightarrow> string list \<Rightarrow> string option \<Rightarrow> issue list" where
  "frame_chain_issues nodes visited None = []"
| "frame_chain_issues nodes visited (Some parentId) =
     (if parentId \<in> set visited
      then issue_if True INVALID_GROUP ''Nested group-frame ownership must not contain a cycle''
             (visited @ [parentId])
      else frame_chain_issues nodes (visited @ [parentId]) (frame_parent nodes parentId))"
  by pat_completeness auto

termination
proof (relation "measure (\<lambda>(nodes, visited, parentId).
    card (set (map node_id nodes) - set visited) + (if parentId = None then 0 else 1))", goal_cases)
  case 1
  show ?case by simp
next
  case (2 nodes visited parentId)
  show ?case
  proof (cases "frame_parent nodes parentId")
    case None
    have "card (set (map node_id nodes) - set (visited @ [parentId])) \<le> card (set (map node_id nodes) - set visited)"
      by (rule card_mono) auto
    with None show ?thesis by simp
  next
    case (Some p)
    then have "parentId \<in> set (map node_id nodes)" by (rule frame_parent_Some)
    then have "set (map node_id nodes) - set (visited @ [parentId]) \<subset> set (map node_id nodes) - set visited"
      using 2 by auto
    then have "card (set (map node_id nodes) - set (visited @ [parentId])) < card (set (map node_id nodes) - set visited)"
      by (rule psubset_card_mono [rotated]) simp
    with Some show ?thesis by simp
  qed
qed

definition frame_issues :: "canvas_node list \<Rightarrow> canvas_node \<Rightarrow> issue list" where
  "frame_issues nodes n =
     (if is_GroupFrameNode (node_data n) then frame_chain_issues nodes [node_id n] (node_groupId n) else [])"

section \<open>The validator\<close>

record validation_result =
  vr_valid :: bool
  vr_issues :: "issue list"
  vr_topologicalOrder :: "string list"

definition all_issues :: "canvas \<Rightarrow> issue list" where
  "all_issues c =
     (let nodes = canvas_nodes c; edges = canvas_edges c;
          nodeIds = map node_id nodes;
          edgeIds = fold set_add (map edge_id edges) (new_Set nodeIds);
          loopIds = fold set_add (map loop_id (canvas_revisionLoops c)) edgeIds;
          remaining = snd (deterministicTopologicalOrder nodeIds (orderingEdges edges))
      in node_issues [] nodes
         @ edge_issues nodes (new_Set nodeIds) edges
         @ human_review_issues edges
         @ concat (map (gate_issues c) nodes)
         @ loop_issues c edgeIds [] [] (canvas_revisionLoops c)
         @ concat (map (unregistered_issues (canvas_revisionLoops c)) edges)
         @ group_issues nodes [] loopIds (canvas_groups c)
         @ concat (map (member_issues c) nodes)
         @ concat (map (frame_issues nodes) nodes)
         @ issue_if (remaining \<noteq> []) CYCLE ''Workflow contains an unbounded cycle'' remaining)"

definition validateWorkflow :: "canvas \<Rightarrow> validation_result res" where
  "validateWorkflow untrustedCanvas =
     res_bind (CanvasSchema_parse untrustedCanvas) (\<lambda>c.
       let issues = all_issues c in
       return \<lparr>vr_valid = (issues = []), vr_issues = issues,
               vr_topologicalOrder =
                 fst (deterministicTopologicalOrder (map node_id (canvas_nodes c)) (orderingEdges (canvas_edges c)))\<rparr>)"

section \<open>Execution configuration\<close>

definition need :: "bool \<Rightarrow> string \<Rightarrow> string list" where
  "need missing what = (if missing then [what] else [])"

fun missingNodeConfiguration :: "node_data \<Rightarrow> string list" where
  "missingNodeConfiguration (AgentNode d) =
     need (ag_adapterId d = None) ''agent adapter'' @ need (ag_permissionProfileId d = None) ''permission profile''"
| "missingNodeConfiguration (FileNode d) = need (fl_file d = None) ''project file''"
| "missingNodeConfiguration (DiffReviewNode d) =
     need (df_baseRef d = None) ''base ref'' @ need (df_headRef d = None) ''head ref''
     @ need (df_worktreeId d = None) ''worktree''"
| "missingNodeConfiguration (TerminalNode d) = need (tm_permissionProfileId d = None) ''permission profile''"
| "missingNodeConfiguration (WebPreviewNode d) = need (wp_worktreeId d = None) ''worktree''"
| "missingNodeConfiguration (MobilePreviewNode d) =
     need (mp_worktreeId d = None) ''worktree'' @ need (mp_viewports d = []) ''preview viewport''"
| "missingNodeConfiguration (TestNode d) = need (te_command d = None) ''check command''"
| "missingNodeConfiguration (GitPullRequestNode d) =
     need (gp_worktreeId d = None) ''worktree'' @ need (gp_branch d = None) ''branch''
     @ need (gp_baseBranch d = None) ''base branch''"
| "missingNodeConfiguration _ = []"

fun availability_text :: "availability \<Rightarrow> string" where
  "availability_text Active = ''active''"
| "availability_text Quarantined = ''quarantined''"
| "availability_text Unavailable = ''unavailable''"

definition is_selected :: "string list option \<Rightarrow> string \<Rightarrow> bool" where
  "is_selected selected i = (case selected of None \<Rightarrow> True | Some s \<Rightarrow> i \<in> set s)"

definition node_configuration_issues :: "canvas_node \<Rightarrow> issue list" where
  "node_configuration_issues n =
     (let missing = missingNodeConfiguration (node_data n) in
      issue_if (missing \<noteq> []) MISSING_NODE_CONFIGURATION
        (node_title n @ '' requires '' @ join '', '' missing @ '' before it can run'') [node_id n])
     @ (case node_data n of
          ExtensionNode d \<Rightarrow>
            issue_if (ex_availability d \<noteq> Active) NODE_UNAVAILABLE
              (node_title n @ '' cannot run while its extension is '' @ availability_text (ex_availability d))
              [node_id n]
        | _ \<Rightarrow> [])"

definition validateWorkflowExecutionConfiguration :: "canvas \<Rightarrow> string list option \<Rightarrow> issue list res" where
  "validateWorkflowExecutionConfiguration untrustedCanvas selected =
     res_bind (CanvasSchema_parse untrustedCanvas) (\<lambda>c. return
       (concat (map node_configuration_issues (filter (\<lambda>n. is_selected selected (node_id n)) (canvas_nodes c)))
        @ concat (map (\<lambda>e. issue_if (edge_config e = Revision None) MISSING_EDGE_CONFIGURATION
              ''Revision edge requires a bounded loop before it can run'' [edge_id e])
            (filter (\<lambda>e. is_selected selected (edge_sourceNodeId e) \<and> is_selected selected (edge_targetNodeId e))
              (canvas_edges c)))))"

section \<open>What a valid canvas is\<close>

text \<open>All identifiers of a canvas but its groups' are pairwise different.\<close>

definition canvas_ids :: "canvas \<Rightarrow> string list" where
  "canvas_ids c = map node_id (canvas_nodes c) @ map edge_id (canvas_edges c)
     @ map loop_id (canvas_revisionLoops c)"

definition a_node :: "canvas \<Rightarrow> (node_data \<Rightarrow> bool) \<Rightarrow> string \<Rightarrow> bool" where
  "a_node c P i = (\<exists>n \<in> set (canvas_nodes c). node_id n = i \<and> P (node_data n))"

fun wellformed_config :: "canvas \<Rightarrow> string \<Rightarrow> string \<Rightarrow> edge_config \<Rightarrow> bool" where
  "wellformed_config c s t (Context k) =
     (a_node c (\<lambda>d. is_AgentNode d \<or> is_TaskNode d) t \<and> (ctx_required k \<longrightarrow> ctx_attachmentIds k \<noteq> []))"
| "wellformed_config c s t (Review k) =
     (case rev_reviewer k of
        ReviewerAgent \<Rightarrow> a_node c is_AgentNode t
      | ReviewerGate \<Rightarrow> a_node c is_ReviewGateNode t
      | ReviewerHuman \<Rightarrow> a_node c is_DiffReviewNode t \<and> rev_requireApproval k)"
| "wellformed_config c s t Dependency = (a_node c is_TaskNode s \<and> a_node c is_TaskNode t)"
| "wellformed_config c s t (Execute k) =
     (exe_approval k = ApproveReviewGate \<longrightarrow>
        (case exe_approvalGateNodeId k of None \<Rightarrow> False | Some g \<Rightarrow> a_node c is_ReviewGateNode g))"
| "wellformed_config c s t _ = True"

definition wellformed_edge :: "canvas \<Rightarrow> canvas_edge \<Rightarrow> bool" where
  "wellformed_edge c e =
     (a_node c (\<lambda>_. True) (edge_sourceNodeId e) \<and> a_node c (\<lambda>_. True) (edge_targetNodeId e)
      \<and> edge_sourceNodeId e \<noteq> edge_targetNodeId e
      \<and> wellformed_config c (edge_sourceNodeId e) (edge_targetNodeId e) (edge_config e))"

text \<open>
  A node that a human review edge points to has that one review, and what else points to it are
  outputs of the same reviewed node.
\<close>

definition dedicated_target :: "canvas_edge list \<Rightarrow> canvas_edge \<Rightarrow> bool" where
  "dedicated_target edges r =
     (\<forall>e \<in> set edges. edge_targetNodeId e = edge_targetNodeId r \<longrightarrow>
        e = r \<or> is_Output (edge_config e) \<and> edge_sourceNodeId e = edge_sourceNodeId r)"

definition wellformed_gate :: "canvas \<Rightarrow> string \<Rightarrow> review_gate_data \<Rightarrow> bool" where
  "wellformed_gate c i g =
     ((requiresReviewedSource g \<longrightarrow> (\<exists>s. set (reviewedSourceIds c i) = {s}))
      \<and> ((rg_testsRequired g \<or> rg_lintRequired g) \<longrightarrow> rg_requiredCheckIds g \<noteq> [])
      \<and> (\<forall>k \<in> set (rg_requiredCheckIds g). \<exists>p s. check_producers (canvas_nodes c) k = [p]
           \<and> set (reviewedSourceIds c i) = {s} \<and> feeds_producer (canvas_edges c) s (node_id p))
      \<and> (\<forall>r. rg_reviewerAgentId g = Some r \<longrightarrow>
           a_node c is_AgentNode r \<and> r \<notin> set (reviewedSourceIds c i)
           \<and> (\<exists>e \<in> set (canvas_edges c). is_Review (edge_config e) \<and> edge_targetNodeId e = i)))"

definition wellformed_loop :: "canvas \<Rightarrow> revision_loop \<Rightarrow> bool" where
  "wellformed_loop c l =
     ((\<exists>e k. e \<in> set (canvas_edges c) \<and> edge_id e = loop_reviewEdgeId l
         \<and> edge_config e = Review k \<and> rev_requireApproval k
         \<and> edge_sourceNodeId e = loop_implementationNodeId l \<and> edge_targetNodeId e = loop_reviewNodeId l)
      \<and> (\<exists>e \<in> set (canvas_edges c). edge_id e = loop_revisionEdgeId l
         \<and> edge_config e = Revision (Some (loop_id l))
         \<and> edge_sourceNodeId e = loop_reviewNodeId l \<and> edge_targetNodeId e = loop_implementationNodeId l)
      \<and> (\<forall>n g. n \<in> set (canvas_nodes c) \<and> node_id n = loop_reviewNodeId l \<and> node_data n = ReviewGateNode g
           \<longrightarrow> maximumIterations (rg_retryPolicy g) = loop_maximumAttempts l)
      \<and> (ReviewApproved \<in> set (loop_stopConditions l) \<or> TestsPassed \<in> set (loop_stopConditions l))
      \<and> (TestsPassed \<in> set (loop_stopConditions l) \<longrightarrow>
           (\<exists>n g. n \<in> set (canvas_nodes c) \<and> node_id n = loop_reviewNodeId l \<and> node_data n = ReviewGateNode g
              \<and> (rg_requiredCheckIds g \<noteq> [] \<or> rg_testsRequired g \<or> rg_lintRequired g))))"

text \<open>Ownership between frames: a frame and the frame it belongs to.\<close>

definition frame_ownership :: "canvas_node list \<Rightarrow> (string \<times> string) set" where
  "frame_ownership nodes =
     {(i, p). \<exists>n \<in> set nodes. node_id n = i \<and> is_GroupFrameNode (node_data n) \<and> node_groupId n = Some p}"

definition wellformed_canvas :: "canvas \<Rightarrow> bool" where
  "wellformed_canvas c =
     (distinct (canvas_ids c)
      \<and> (\<forall>e \<in> set (canvas_edges c). wellformed_edge c e)
      \<and> (\<forall>r \<in> set (canvas_edges c). is_human_review r \<longrightarrow> dedicated_target (canvas_edges c) r)
      \<and> (\<forall>n g. n \<in> set (canvas_nodes c) \<and> node_data n = ReviewGateNode g \<longrightarrow> wellformed_gate c (node_id n) g)
      \<and> (\<forall>l \<in> set (canvas_revisionLoops c). wellformed_loop c l)
      \<and> distinct (map loop_reviewEdgeId (canvas_revisionLoops c))
      \<and> distinct (map loop_revisionEdgeId (canvas_revisionLoops c))
      \<and> (\<forall>e \<in> set (canvas_edges c). \<forall>k. edge_config e = Revision (Some k)
           \<longrightarrow> edge_id e \<in> set (map loop_revisionEdgeId (canvas_revisionLoops c)))
      \<and> distinct (map group_id (canvas_groups c))
      \<and> (\<forall>g \<in> set (canvas_groups c). (group_id g \<in> set (canvas_ids c) \<longrightarrow> a_node c is_GroupFrameNode (group_id g))
           \<and> (\<forall>i \<in> set (group_nodeIds g). a_node c (\<lambda>_. True) i))
      \<and> (\<forall>n \<in> set (canvas_nodes c).
           (\<forall>g. node_groupId n = Some g \<longrightarrow> g \<in> set (map group_id (canvas_groups c)))
           \<and> cpuUnits (node_resources n) \<le> maximumCpuUnits (canvas_workflowLimits c)
           \<and> memoryMb (node_resources n) \<le> maximumMemoryMb (canvas_workflowLimits c))
      \<and> acyclic (frame_ownership (canvas_nodes c))
      \<and> acyclic (set (selected_arcs (map node_id (canvas_nodes c)) (orderingEdges (canvas_edges c)))))"

section \<open>The passes find exactly the defects\<close>

lemma concat_map_Nil [simp]: "concat (map f xs) = [] \<longleftrightarrow> (\<forall>x \<in> set xs. f x = [])"
  by auto

text \<open>The identifiers of a pass are new with respect to those already seen.\<close>

definition fresh_ids :: "string list \<Rightarrow> string set \<Rightarrow> bool" where
  "fresh_ids xs A = (distinct xs \<and> set xs \<inter> A = {})"

lemma fresh_ids_simps [simp]:
  "fresh_ids [] A" "fresh_ids (x # xs) A \<longleftrightarrow> x \<notin> A \<and> fresh_ids xs (insert x A)"
  by (auto simp: fresh_ids_def)

lemma fresh_ids_empty: "fresh_ids xs {} \<longleftrightarrow> distinct xs"
  by (simp add: fresh_ids_def)

lemma node_issues_Nil: "node_issues allIds ns = [] \<longleftrightarrow> fresh_ids (map node_id ns) (set allIds)"
  by (induction ns arbitrary: allIds) simp_all

definition edge_clean :: "canvas_node list \<Rightarrow> canvas_edge \<Rightarrow> bool" where
  "edge_clean nodes e =
     (endpoint_issues nodes e = [] \<and> context_issues nodes e = [] \<and> review_issues nodes e = []
      \<and> dependency_issues nodes e = [] \<and> execute_issues nodes e = [])"

lemma edge_issues_Nil:
  "edge_issues nodes allIds es = [] \<longleftrightarrow>
     fresh_ids (map edge_id es) (set allIds) \<and> (\<forall>e \<in> set es. edge_clean nodes e)"
  by (induction es arbitrary: allIds) (auto simp: edge_clean_def)

lemma obj_get_None_keys: "obj_get ob k = None \<longleftrightarrow> k \<notin> fst ` set ob"
  by (simp add: obj_get_eq_None_iff obj_keys_def)

lemma owner_issues_Nil [simp]: "owner_issues m l owners k = [] \<longleftrightarrow> k \<notin> fst ` set owners"
  by (auto simp: owner_issues_def obj_get_None_keys [symmetric] split: option.splits)

lemma fst_set_put: "fst ` set (obj_put k v ob) = insert k (fst ` set ob)"
  using obj_keys_put [of k v ob] by (simp add: obj_keys_def)

lemma loop_issues_Nil:
  "loop_issues c allIds reviewOwners revisionOwners ls = [] \<longleftrightarrow>
     fresh_ids (map loop_id ls) (set allIds)
     \<and> fresh_ids (map loop_reviewEdgeId ls) (fst ` set reviewOwners)
     \<and> fresh_ids (map loop_revisionEdgeId ls) (fst ` set revisionOwners)
     \<and> (\<forall>l \<in> set ls. loop_shape_issues c l = [])"
  by (induction ls arbitrary: allIds reviewOwners revisionOwners) (auto simp: fst_set_put)

lemma group_issues_Nil:
  "group_issues nodes seen allIds gs = [] \<longleftrightarrow>
     fresh_ids (map group_id gs) (set seen)
     \<and> (\<forall>g \<in> set gs. (group_id g \<in> set allIds \<longrightarrow> has_type is_GroupFrameNode (node_by_id nodes (group_id g)))
          \<and> (\<forall>i \<in> set (group_nodeIds g). node_by_id nodes i \<noteq> None))"
proof (induction gs arbitrary: seen allIds)
  case Nil
  then show ?case by simp
next
  case (Cons g gs)
  have "x \<notin> insert (group_id g) (set seen)" if "fresh_ids (map group_id gs) (insert (group_id g) (set seen))"
    and "x \<in> set (map group_id gs)" for x
    using that unfolding fresh_ids_def by blast
  then show ?case by (auto simp: Cons.IH)
qed

text \<open>With distinct identifiers a lookup finds the one node or edge that has the identifier.\<close>

lemma find_rev_distinct:
  assumes "distinct (map f xs)"
  shows "find (\<lambda>x. f x = i) (rev xs) = Some y \<longleftrightarrow> y \<in> set xs \<and> f y = i"
proof
  assume "find (\<lambda>x. f x = i) (rev xs) = Some y"
  then show "y \<in> set xs \<and> f y = i"
    by (metis (mono_tags, lifting) find_Some_iff nth_mem set_rev)
next
  assume y: "y \<in> set xs \<and> f y = i"
  then obtain z where z: "find (\<lambda>x. f x = i) (rev xs) = Some z"
    by (metis (mono_tags, lifting) find_None_iff not_None_eq set_rev)
  then have "z \<in> set xs \<and> f z = i"
    by (metis (mono_tags, lifting) find_Some_iff nth_mem set_rev)
  with y assms have "z = y" by (auto simp: distinct_map dest: inj_onD)
  with z show "find (\<lambda>x. f x = i) (rev xs) = Some y" by simp
qed

lemma node_by_id_iff:
  "distinct (map node_id nodes) \<Longrightarrow> node_by_id nodes i = Some n \<longleftrightarrow> n \<in> set nodes \<and> node_id n = i"
  unfolding node_by_id_def by (rule find_rev_distinct)

lemma edge_by_id_iff:
  "distinct (map edge_id edges) \<Longrightarrow> edge_by_id edges i = Some e \<longleftrightarrow> e \<in> set edges \<and> edge_id e = i"
  unfolding edge_by_id_def by (rule find_rev_distinct)

lemma has_type_iff:
  assumes "distinct (map node_id (canvas_nodes c))"
  shows "has_type P (node_by_id (canvas_nodes c) i) \<longleftrightarrow> a_node c P i"
proof -
  have "has_type P (node_by_id (canvas_nodes c) i)
      \<longleftrightarrow> (\<exists>n. node_by_id (canvas_nodes c) i = Some n \<and> P (node_data n))"
    by (cases "node_by_id (canvas_nodes c) i") (auto simp: has_type_def)
  then show ?thesis by (auto simp: a_node_def node_by_id_iff [OF assms])
qed

lemma node_by_id_None: "node_by_id (canvas_nodes c) i = None \<longleftrightarrow> \<not> a_node c (\<lambda>_. True) i"
  by (auto simp: node_by_id_def find_None_iff a_node_def)

lemma edge_clean_iff:
  assumes ids: "distinct (map node_id (canvas_nodes c))" and ok: "CanvasEdge_ok e"
  shows "edge_clean (canvas_nodes c) e \<longleftrightarrow> wellformed_edge c e"
proof -
  have two: "a_node c (\<lambda>d. is_AgentNode d \<or> is_TaskNode d) i \<longleftrightarrow> a_node c is_AgentNode i \<or> a_node c is_TaskNode i" for i
    by (auto simp: a_node_def)
  note defs = edge_clean_def wellformed_edge_def endpoint_issues_def context_issues_def review_issues_def
    dependency_issues_def execute_issues_def has_type_iff [OF ids] node_by_id_None two Let_def
  show ?thesis
  proof (cases "edge_config e")
    case (Execute k)
    then have "exe_approval k = ApproveReviewGate \<longleftrightarrow> exe_approvalGateNodeId k \<noteq> None"
      using ok by (auto simp: CanvasEdge_ok_def ExecuteConfig_ok_def)
    with Execute show ?thesis by (auto simp: defs split: option.splits)
  qed (auto simp: defs split: reviewer.splits)
qed

text \<open>Human review targets.\<close>

lemma is_human_review_Review: "is_human_review e \<Longrightarrow> is_Review (edge_config e)"
  by (cases "edge_config e") (simp_all add: is_human_review_def)

lemma Review_not_Output: "is_Review k \<Longrightarrow> \<not> is_Output k"
  by (cases k) simp_all

lemma filter_singleton:
  assumes "distinct xs" and "r \<in> set xs" and "P r" and "\<And>x. x \<in> set xs \<Longrightarrow> P x \<Longrightarrow> x = r"
  shows "filter P xs = [r]"
proof -
  have set: "set (filter P xs) = {r}" unfolding set_filter using assms(2-4) by blast
  moreover have "card (set (filter P xs)) = length (filter P xs)" using assms(1) by (intro distinct_card) simp
  ultimately have "length (filter P xs) = 1" by (metis card_1_singleton_iff One_nat_def)
  then obtain y where "filter P xs = [y]" by (metis One_nat_def length_0_conv length_Suc_conv)
  with set show ?thesis by simp
qed

lemma human_target_clean:
  assumes ids: "distinct (map edge_id edges)" and r: "r \<in> set edges" "is_human_review r"
  shows "human_target_issues edges (edge_targetNodeId r) = [] \<longleftrightarrow> dedicated_target edges r"
proof
  define reviews where "reviews = filter (\<lambda>e. is_Review (edge_config e) \<and> edge_targetNodeId e = edge_targetNodeId r) edges"
  have in_reviews: "r \<in> set reviews" using r is_human_review_Review by (auto simp: reviews_def)
  have eq: "e = r" if "e \<in> set edges" "edge_id e = edge_id r" for e
    using that r(1) ids by (auto simp: distinct_map dest: inj_onD)
  {
    assume clean: "human_target_issues edges (edge_targetNodeId r) = []"
    then have one: "length reviews = 1" by (simp add: human_target_issues_def Let_def flip: reviews_def)
    then have "reviews = [r]" using in_reviews by (cases reviews) auto
    then have "\<forall>e \<in> set edges. \<not> (edge_targetNodeId e = edge_targetNodeId r \<and> edge_id e \<noteq> edge_id r
        \<and> \<not> (is_Output (edge_config e) \<and> edge_sourceNodeId e = edge_sourceNodeId r))"
      using clean r(2) one
      by (simp add: human_target_issues_def Let_def filter_empty_conv flip: reviews_def)
    then show "dedicated_target edges r" using eq by (auto simp: dedicated_target_def)
  }
  {
    assume ded: "dedicated_target edges r"
    have "reviews = [r]"
      unfolding reviews_def
      by (rule filter_singleton)
        (use ids r ded is_human_review_Review Review_not_Output in
          \<open>auto simp: dedicated_target_def distinct_map\<close>)
    then show "human_target_issues edges (edge_targetNodeId r) = []"
      using ded r(2)
      by (auto simp: human_target_issues_def Let_def filter_empty_conv dedicated_target_def simp flip: reviews_def)
  }
qed

lemma human_review_clean:
  "distinct (map edge_id edges) \<Longrightarrow>
   human_review_issues edges = [] \<longleftrightarrow> (\<forall>r \<in> set edges. is_human_review r \<longrightarrow> dedicated_target edges r)"
  by (auto simp: human_review_issues_def human_target_clean)

text \<open>Review gates.\<close>

lemma length_reviewedSourceIds_1: "length (reviewedSourceIds c i) = 1 \<longleftrightarrow> (\<exists>s. set (reviewedSourceIds c i) = {s})"
proof -
  have "distinct (reviewedSourceIds c i)" by (simp add: reviewedSourceIds_def)
  then show ?thesis by (metis One_nat_def card_1_singleton_iff distinct_card)
qed

lemma gate_reviewer_clean:
  assumes "distinct (map node_id (canvas_nodes c))"
  shows "gate_reviewer_issues c i g = [] \<longleftrightarrow>
    (\<forall>r. rg_reviewerAgentId g = Some r \<longrightarrow> a_node c is_AgentNode r
       \<and> (\<exists>e \<in> set (canvas_edges c). is_Review (edge_config e) \<and> edge_targetNodeId e = i))"
  by (cases "rg_reviewerAgentId g") (auto simp: gate_reviewer_issues_def has_type_iff [OF assms] list_ex_iff)

lemma gate_check_clean:
  "gate_check_issues nodes i g = [] \<longleftrightarrow>
     ((rg_testsRequired g \<or> rg_lintRequired g) \<longrightarrow> rg_requiredCheckIds g \<noteq> [])
     \<and> (\<forall>k \<in> set (rg_requiredCheckIds g). \<exists>p. check_producers nodes k = [p])"
proof -
  have "(let producers = check_producers nodes k in
         if producers = [] then issue_if True MISSING_CHECK_PRODUCER m [i, k]
         else issue_if (length producers > 1) AMBIGUOUS_CHECK_PRODUCER m' (i # k # map node_id producers)) = []
      \<longleftrightarrow> (\<exists>p. check_producers nodes k = [p])" for k m m'
    by (cases "check_producers nodes k" rule: remdups_adj.cases) (simp_all add: Let_def)
  then show ?thesis by (simp only: gate_check_issues_def append_is_Nil_conv issue_if_Nil concat_map_Nil) blast
qed

lemma gate_source_clean:
  assumes "reviewedSourceIds c i = [s]"
  shows "gate_source_issues c i g = [] \<longleftrightarrow>
    (\<forall>k \<in> set (rg_requiredCheckIds g). \<forall>p. check_producers (canvas_nodes c) k = [p]
       \<longrightarrow> feeds_producer (canvas_edges c) s (node_id p))
    \<and> (\<forall>r. rg_reviewerAgentId g = Some r \<longrightarrow> r \<noteq> s)"
proof -
  have "(case check_producers (canvas_nodes c) k of
           [producer] \<Rightarrow> issue_if (\<not> feeds_producer (canvas_edges c) s (node_id producer)) code m (f producer)
         | _ \<Rightarrow> []) = []
      \<longleftrightarrow> (\<forall>p. check_producers (canvas_nodes c) k = [p] \<longrightarrow> feeds_producer (canvas_edges c) s (node_id p))"
    for k m code f
    by (cases "check_producers (canvas_nodes c) k" rule: remdups_adj.cases) simp_all
  then show ?thesis
    by (cases "rg_reviewerAgentId g") (simp_all add: gate_source_issues_def assms)
qed

lemma gate_clean:
  assumes ids: "distinct (map node_id (canvas_nodes c))"
  shows "gate_reviewer_issues c i g @ gate_check_issues (canvas_nodes c) i g @ gate_source_issues c i g = []
    \<longleftrightarrow> wellformed_gate c i g"
proof (cases "\<exists>s. set (reviewedSourceIds c i) = {s}")
  case True
  then obtain s where s: "reviewedSourceIds c i = [s]"
    using length_reviewedSourceIds_1 [of c i] by (metis One_nat_def length_0_conv length_Suc_conv)
  have checks: "(\<forall>k \<in> K. \<exists>p. P k = [p]) \<and> (\<forall>k \<in> K. \<forall>p. P k = [p] \<longrightarrow> F p)
      \<longleftrightarrow> (\<forall>k \<in> K. \<exists>p. P k = [p] \<and> F p)" for K :: "string set" and P and F :: "canvas_node \<Rightarrow> bool"
    by fastforce
  have "wellformed_gate c i g \<longleftrightarrow>
      ((rg_testsRequired g \<or> rg_lintRequired g) \<longrightarrow> rg_requiredCheckIds g \<noteq> [])
      \<and> (\<forall>k \<in> set (rg_requiredCheckIds g). \<exists>p. check_producers (canvas_nodes c) k = [p]
           \<and> feeds_producer (canvas_edges c) s (node_id p))
      \<and> (\<forall>r. rg_reviewerAgentId g = Some r \<longrightarrow> a_node c is_AgentNode r \<and> r \<noteq> s
           \<and> (\<exists>e \<in> set (canvas_edges c). is_Review (edge_config e) \<and> edge_targetNodeId e = i))"
    by (simp add: wellformed_gate_def s)
  then show ?thesis
    using checks [of "set (rg_requiredCheckIds g)" "check_producers (canvas_nodes c)"
      "\<lambda>p. feeds_producer (canvas_edges c) s (node_id p)"]
    unfolding append_is_Nil_conv gate_reviewer_clean [OF ids] gate_check_clean gate_source_clean [OF s]
    by blast
next
  case False
  then have "length (reviewedSourceIds c i) \<noteq> 1" using length_reviewedSourceIds_1 by blast
  then show ?thesis using False
    by (cases "reviewedSourceIds c i" rule: remdups_adj.cases)
      (auto simp: gate_source_issues_def wellformed_gate_def requiresReviewedSource_def
        gate_reviewer_issues_def gate_check_issues_def Let_def split: option.splits)
qed

text \<open>Revision loops.\<close>

lemma loop_gate_iff:
  assumes "distinct (map node_id (canvas_nodes c))"
  shows "loop_gate (canvas_nodes c) l = Some g \<longleftrightarrow>
    (\<exists>n. n \<in> set (canvas_nodes c) \<and> node_id n = loop_reviewNodeId l \<and> node_data n = ReviewGateNode g)"
proof -
  have "loop_gate (canvas_nodes c) l = Some g \<longleftrightarrow>
      (\<exists>n. node_by_id (canvas_nodes c) (loop_reviewNodeId l) = Some n \<and> node_data n = ReviewGateNode g)"
    by (auto simp: loop_gate_def split: option.splits node_data.splits)
  then show ?thesis by (simp add: node_by_id_iff [OF assms] conj_assoc)
qed

lemma test_stop_iff:
  assumes "distinct (map node_id (canvas_nodes c))"
  shows "test_stop_achievable (canvas_nodes c) l \<longleftrightarrow>
    (\<exists>n g. n \<in> set (canvas_nodes c) \<and> node_id n = loop_reviewNodeId l \<and> node_data n = ReviewGateNode g
       \<and> (rg_requiredCheckIds g \<noteq> [] \<or> rg_testsRequired g \<or> rg_lintRequired g))"
proof -
  have "test_stop_achievable (canvas_nodes c) l \<longleftrightarrow>
      (\<exists>g. loop_gate (canvas_nodes c) l = Some g
         \<and> (rg_requiredCheckIds g \<noteq> [] \<or> rg_testsRequired g \<or> rg_lintRequired g))"
    by (simp add: test_stop_achievable_def split: option.splits)
  then show ?thesis by (auto simp: loop_gate_iff [OF assms])
qed

lemma loop_clean:
  assumes nodes: "distinct (map node_id (canvas_nodes c))" and edges: "distinct (map edge_id (canvas_edges c))"
  shows "loop_shape_issues c l = [] \<longleftrightarrow> wellformed_loop c l"
proof -
  have review: "valid_review_edge l (edge_by_id (canvas_edges c) i) \<longleftrightarrow>
      (\<exists>e k. e \<in> set (canvas_edges c) \<and> edge_id e = i \<and> edge_config e = Review k \<and> rev_requireApproval k
         \<and> edge_sourceNodeId e = loop_implementationNodeId l \<and> edge_targetNodeId e = loop_reviewNodeId l)" for i
  proof -
    have "valid_review_edge l (edge_by_id (canvas_edges c) i) \<longleftrightarrow>
        (\<exists>e k. edge_by_id (canvas_edges c) i = Some e \<and> edge_config e = Review k \<and> rev_requireApproval k
           \<and> edge_sourceNodeId e = loop_implementationNodeId l \<and> edge_targetNodeId e = loop_reviewNodeId l)"
      by (auto simp: valid_review_edge_def split: option.splits edge_config.splits)
    then show ?thesis by (simp add: edge_by_id_iff [OF edges] conj_assoc)
  qed
  have revision: "valid_revision_edge l (edge_by_id (canvas_edges c) i) \<longleftrightarrow>
      (\<exists>e \<in> set (canvas_edges c). edge_id e = i \<and> edge_config e = Revision (Some (loop_id l))
         \<and> edge_sourceNodeId e = loop_reviewNodeId l \<and> edge_targetNodeId e = loop_implementationNodeId l)" for i
  proof -
    have "valid_revision_edge l (edge_by_id (canvas_edges c) i) \<longleftrightarrow>
        (\<exists>e. edge_by_id (canvas_edges c) i = Some e \<and> edge_config e = Revision (Some (loop_id l))
           \<and> edge_sourceNodeId e = loop_reviewNodeId l \<and> edge_targetNodeId e = loop_implementationNodeId l)"
      by (auto simp: valid_revision_edge_def split: option.splits)
    then show ?thesis by (auto simp: edge_by_id_iff [OF edges])
  qed
  have gate: "(case loop_gate (canvas_nodes c) l of None \<Rightarrow> []
        | Some g \<Rightarrow> issue_if (maximumIterations (rg_retryPolicy g) \<noteq> loop_maximumAttempts l) code m ids) = []
      \<longleftrightarrow> (\<forall>n g. n \<in> set (canvas_nodes c) \<and> node_id n = loop_reviewNodeId l \<and> node_data n = ReviewGateNode g
           \<longrightarrow> maximumIterations (rg_retryPolicy g) = loop_maximumAttempts l)" for code m ids
  proof -
    have "?thesis \<longleftrightarrow> ((\<forall>g. loop_gate (canvas_nodes c) l = Some g
          \<longrightarrow> maximumIterations (rg_retryPolicy g) = loop_maximumAttempts l)
        \<longleftrightarrow> (\<forall>n g. n \<in> set (canvas_nodes c) \<and> node_id n = loop_reviewNodeId l \<and> node_data n = ReviewGateNode g
           \<longrightarrow> maximumIterations (rg_retryPolicy g) = loop_maximumAttempts l))"
      by (cases "loop_gate (canvas_nodes c) l") simp_all
    then show ?thesis by (auto simp: loop_gate_iff [OF nodes])
  qed
  show ?thesis
    unfolding loop_shape_issues_def append_is_Nil_conv gate issue_if_Nil review revision
      test_stop_iff [OF nodes] wellformed_loop_def
    by blast
qed

text \<open>Frames: the parent chain of a frame ends unless it meets a frame again.\<close>

lemma frame_parent_iff:
  assumes "distinct (map node_id nodes)"
  shows "frame_parent nodes i = Some p \<longleftrightarrow> (i, p) \<in> frame_ownership nodes"
proof -
  have "frame_parent nodes i = Some p \<longleftrightarrow>
      (\<exists>n. node_by_id nodes i = Some n \<and> is_GroupFrameNode (node_data n) \<and> node_groupId n = Some p)"
    by (cases "node_by_id nodes i") (auto simp: frame_parent_def)
  then show ?thesis by (auto simp: frame_ownership_def node_by_id_iff [OF assms])
qed

lemma frame_chain_ends:
  assumes "distinct (map node_id nodes)" and "acyclic (frame_ownership nodes)"
    and "\<And>v p. v \<in> set visited \<Longrightarrow> parent = Some p \<Longrightarrow> (v, p) \<in> (frame_ownership nodes)\<^sup>+"
  shows "frame_chain_issues nodes visited parent = []"
  using assms
proof (induction nodes visited parent rule: frame_chain_issues.induct)
  case (1 nodes visited)
  then show ?case by simp
next
  case (2 nodes visited parentId)
  have new: "parentId \<notin> set visited"
    using 2(3) 2(4) [of parentId parentId] by (auto simp: acyclic_def)
  have "frame_chain_issues nodes (visited @ [parentId]) (frame_parent nodes parentId) = []"
  proof (rule 2(1) [OF new 2(2,3)])
    fix v p
    assume v: "v \<in> set (visited @ [parentId])" and "frame_parent nodes parentId = Some p"
    then have "(parentId, p) \<in> frame_ownership nodes" by (simp add: frame_parent_iff [OF 2(2)])
    then show "(v, p) \<in> (frame_ownership nodes)\<^sup>+"
      using v 2(4) by (auto intro: trancl_into_trancl)
  qed
  with new show ?case by simp
qed

lemma frame_chain_on_cycle:
  assumes "distinct (map node_id nodes)" and "(p, p) \<in> (frame_ownership nodes)\<^sup>+"
  shows "frame_chain_issues nodes visited (Some p) \<noteq> []"
  using assms
proof (induction "card (set (map node_id nodes) - set visited)" arbitrary: visited p rule: less_induct)
  case less
  show ?case
  proof (cases "p \<in> set visited")
    case True
    then show ?thesis by simp
  next
    case False
    obtain q where q: "(p, q) \<in> frame_ownership nodes" "(q, p) \<in> (frame_ownership nodes)\<^sup>*"
      using less.prems(2) by (meson tranclD)
    then have loop: "(q, q) \<in> (frame_ownership nodes)\<^sup>+" by (meson rtrancl_into_trancl1)
    have "p \<in> set (map node_id nodes)" using q(1) by (auto simp: frame_ownership_def)
    then have "set (map node_id nodes) - set (visited @ [p]) \<subset> set (map node_id nodes) - set visited"
      using False by auto
    then have "card (set (map node_id nodes) - set (visited @ [p])) < card (set (map node_id nodes) - set visited)"
      by (rule psubset_card_mono [rotated]) simp
    from less.hyps [OF this less.prems(1) loop] False q(1) show ?thesis
      by (simp add: frame_parent_iff [OF less.prems(1), THEN iffD2])
  qed
qed

lemma frame_clean:
  assumes ids: "distinct (map node_id nodes)"
  shows "(\<forall>n \<in> set nodes. frame_issues nodes n = []) \<longleftrightarrow> acyclic (frame_ownership nodes)"
proof
  assume ac: "acyclic (frame_ownership nodes)"
  show "\<forall>n \<in> set nodes. frame_issues nodes n = []"
  proof
    fix n assume n: "n \<in> set nodes"
    show "frame_issues nodes n = []"
    proof (cases "is_GroupFrameNode (node_data n)")
      case True
      then have "(node_id n, p) \<in> frame_ownership nodes" if "node_groupId n = Some p" for p
        using n that by (auto simp: frame_ownership_def)
      then have "frame_chain_issues nodes [node_id n] (node_groupId n) = []"
        by (intro frame_chain_ends [OF ids ac]) auto
      with True show ?thesis by (simp add: frame_issues_def)
    qed (simp add: frame_issues_def)
  qed
next
  assume clean: "\<forall>n \<in> set nodes. frame_issues nodes n = []"
  show "acyclic (frame_ownership nodes)"
    unfolding acyclic_def
  proof (intro allI notI)
    fix x assume "(x, x) \<in> (frame_ownership nodes)\<^sup>+"
    then obtain y where y: "(x, y) \<in> frame_ownership nodes" "(y, x) \<in> (frame_ownership nodes)\<^sup>*"
      by (meson tranclD)
    then have loop: "(y, y) \<in> (frame_ownership nodes)\<^sup>+" by (meson rtrancl_into_trancl1)
    from y(1) obtain n where "n \<in> set nodes" "is_GroupFrameNode (node_data n)" "node_groupId n = Some y"
      by (auto simp: frame_ownership_def)
    with clean frame_chain_on_cycle [OF ids loop, of "[node_id n]"] show False by (auto simp: frame_issues_def)
  qed
qed

text \<open>Putting the passes together.\<close>

lemma fresh_ids_append:
  "fresh_ids (xs @ ys) A \<longleftrightarrow> fresh_ids xs A \<and> fresh_ids ys (A \<union> set xs)"
  by (auto simp: fresh_ids_def)

lemma unregistered_clean:
  "unregistered_issues loops e = [] \<longleftrightarrow>
    (\<forall>k. edge_config e = Revision (Some k) \<longrightarrow> edge_id e \<in> set (map loop_revisionEdgeId loops))"
  by (cases "edge_config e") (auto simp: unregistered_issues_def split: option.splits)

lemma member_clean:
  "member_issues c n = [] \<longleftrightarrow>
    (\<forall>g. node_groupId n = Some g \<longrightarrow> g \<in> set (map group_id (canvas_groups c)))
    \<and> cpuUnits (node_resources n) \<le> maximumCpuUnits (canvas_workflowLimits c)
    \<and> memoryMb (node_resources n) \<le> maximumMemoryMb (canvas_workflowLimits c)"
  by (cases "node_groupId n") (auto simp: member_issues_def)

lemma gate_issues_clean:
  assumes "distinct (map node_id (canvas_nodes c))"
  shows "(\<forall>n \<in> set (canvas_nodes c). gate_issues c n = []) \<longleftrightarrow>
    (\<forall>n g. n \<in> set (canvas_nodes c) \<and> node_data n = ReviewGateNode g \<longrightarrow> wellformed_gate c (node_id n) g)"
proof -
  have "gate_issues c n = [] \<longleftrightarrow> (\<forall>g. node_data n = ReviewGateNode g \<longrightarrow> wellformed_gate c (node_id n) g)" for n
    using gate_clean [OF assms, of "node_id n"] by (cases "node_data n") (simp_all add: gate_issues_def)
  then show ?thesis by blast
qed

lemma all_issues_Nil:
  assumes ok: "CanvasSchema_ok c"
  shows "all_issues c = [] \<longleftrightarrow> wellformed_canvas c"
proof -
  define nodes edges loops where "nodes = canvas_nodes c" and "edges = canvas_edges c"
    and "loops = canvas_revisionLoops c"
  define edgeIds where "edgeIds = fold set_add (map edge_id edges) (new_Set (map node_id nodes))"
  define loopIds where "loopIds = fold set_add (map loop_id loops) edgeIds"
  have set_ids: "set edgeIds = set (map edge_id edges) \<union> set (map node_id nodes)"
    "set loopIds = set (canvas_ids c)"
    by (auto simp: edgeIds_def loopIds_def set_fold_set_add canvas_ids_def nodes_def edges_def loops_def)
  have edges_ok: "CanvasEdge_ok e" if "e \<in> set edges" for e
    using ok that by (auto simp: CanvasSchema_ok_def edges_def list_all_iff)
  have cyc: "snd (deterministicTopologicalOrder (map node_id nodes) (orderingEdges edges)) = []
      \<longleftrightarrow> acyclic (set (selected_arcs (map node_id nodes) (orderingEdges edges)))"
  proof -
    obtain order remaining where r:
      "deterministicTopologicalOrder (map node_id nodes) (orderingEdges edges) = (order, remaining)" by fastforce
    show ?thesis using order_remaining_acyclic [OF r] by (simp add: r)
  qed
  have all: "all_issues c = [] \<longleftrightarrow> node_issues [] nodes = [] \<and> edge_issues nodes (new_Set (map node_id nodes)) edges = []
      \<and> human_review_issues edges = [] \<and> (\<forall>n \<in> set nodes. gate_issues c n = [])
      \<and> loop_issues c edgeIds [] [] loops = [] \<and> (\<forall>e \<in> set edges. unregistered_issues loops e = [])
      \<and> group_issues nodes [] loopIds (canvas_groups c) = [] \<and> (\<forall>n \<in> set nodes. member_issues c n = [])
      \<and> (\<forall>n \<in> set nodes. frame_issues nodes n = [])
      \<and> acyclic (set (selected_arcs (map node_id nodes) (orderingEdges edges)))"
    by (simp add: all_issues_def Let_def cyc edgeIds_def loopIds_def flip: nodes_def edges_def loops_def)
  have ids: "distinct (canvas_ids c) \<longleftrightarrow> fresh_ids (map node_id nodes) {}
      \<and> fresh_ids (map edge_id edges) (set (map node_id nodes)) \<and> fresh_ids (map loop_id loops) (set edgeIds)"
    by (auto simp: canvas_ids_def fresh_ids_def set_ids nodes_def edges_def loops_def)
  show ?thesis
  proof (cases "distinct (map node_id nodes) \<and> distinct (map edge_id edges)")
    case True
    then have dn: "distinct (map node_id (canvas_nodes c))" and de: "distinct (map edge_id (canvas_edges c))"
      by (simp_all add: nodes_def edges_def)
    have clean: "(\<forall>e \<in> set edges. edge_clean nodes e) \<longleftrightarrow> (\<forall>e \<in> set edges. wellformed_edge c e)"
      using edge_clean_iff [OF dn] edges_ok by (simp add: nodes_def)
    show ?thesis
      unfolding all node_issues_Nil edge_issues_Nil clean loop_issues_Nil group_issues_Nil
        frame_clean [OF dn, folded nodes_def] human_review_clean [OF de, folded edges_def]
        gate_issues_clean [OF dn, folded nodes_def] loop_clean [OF dn de]
        unregistered_clean member_clean has_type_iff [OF dn, folded nodes_def]
        node_by_id_None [of c, folded nodes_def] wellformed_canvas_def ids set_ids(2)
        nodes_def [symmetric] edges_def [symmetric] loops_def [symmetric]
        set_new_Set list.set(1) image_empty fresh_ids_empty not_not
      by (rule iffI; elim conjE; intro conjI; assumption)
  next
    case False
    then have "\<not> distinct (canvas_ids c)" by (auto simp: canvas_ids_def nodes_def edges_def)
    then have "\<not> wellformed_canvas c" by (simp add: wellformed_canvas_def)
    moreover have "all_issues c \<noteq> []"
      using False by (auto simp: all node_issues_Nil edge_issues_Nil fresh_ids_def)
    ultimately show ?thesis by blast
  qed
qed

text \<open>
  C17. The validator answers every schema-valid canvas, and calls it valid exactly when it is well
  formed: identifiers unique, edges between existing nodes of the right kinds, human review targets
  dedicated, gates with one reviewed source and one fed producer per check, revision loops of the
  shape implementation - review - implementation with an achievable stop condition, groups and
  frames consistent, node requirements within the limits, and no cycle. The topological order it
  returns for a valid canvas lists every node once, predecessors first.
\<close>

theorem validateWorkflow_correct:
  assumes "CanvasSchema_ok c"
  shows "\<exists>r. validateWorkflow c = Inr r
     \<and> (vr_valid r \<longleftrightarrow> vr_issues r = []) \<and> (vr_valid r \<longleftrightarrow> wellformed_canvas c)
     \<and> (vr_valid r \<longrightarrow> distinct (vr_topologicalOrder r)
          \<and> set (vr_topologicalOrder r) = set (map node_id (canvas_nodes c))
          \<and> topological (selected_arcs (map node_id (canvas_nodes c)) (orderingEdges (canvas_edges c)))
              (vr_topologicalOrder r))"
proof -
  obtain order remaining where r: "deterministicTopologicalOrder (map node_id (canvas_nodes c))
      (orderingEdges (canvas_edges c)) = (order, remaining)" by fastforce
  have "set order = set (map node_id (canvas_nodes c))" if "wellformed_canvas c"
    using that order_remaining_acyclic [OF r] order_spec(3,5) [OF r] by (auto simp: wellformed_canvas_def)
  moreover have "validateWorkflow c
      = Inr \<lparr>vr_valid = (all_issues c = []), vr_issues = all_issues c, vr_topologicalOrder = order\<rparr>"
    using assms by (simp add: validateWorkflow_def CanvasSchema_parse_def Let_def r)
  ultimately show ?thesis
    using order_spec(1,2) [OF r] all_issues_Nil [OF assms] by simp
qed

end
