(* ===== verification/Planning.thy ===== *)
theory Planning
  imports Validation
begin

text \<open>
  Planning: \<open>planWorkflow\<close> of \<open>packages/core/src/workflow/model.ts\<close> (selection of the nodes to run,
  dependency map, stages packed under the resource limits) and \<open>planWorkflowScope\<close> of
  \<open>packages/core/src/workflow-runtime/planning.ts\<close> (run scopes, groups, and the closure that pulls
  in every node an authoritative edge or a review gate needs).
\<close>

section \<open>Plans\<close>

record plan_stage =
  st_index :: int
  st_nodeIds :: "entity_id list"
  st_cpuUnits :: int
  st_memoryMb :: int

record workflow_plan =
  pl_id :: entity_id
  pl_canvasId :: entity_id
  pl_nodeIds :: "entity_id list"
  pl_stages :: "plan_stage list"
  pl_dependencies :: "entity_id list obj"
  pl_revisionLoopIds :: "entity_id list"

definition PlanStage_ok :: "plan_stage \<Rightarrow> bool" where
  "PlanStage_ok s =
     (0 \<le> st_index s \<and> list_all EntityId_ok (st_nodeIds s) \<and> 1 \<le> length (st_nodeIds s)
      \<and> 0 < st_cpuUnits s \<and> 0 < st_memoryMb s)"

definition WorkflowPlan_ok :: "('a) workflow_plan_scheme \<Rightarrow> bool" where
  "WorkflowPlan_ok p =
     (EntityId_ok (pl_id p) \<and> EntityId_ok (pl_canvasId p) \<and> list_all EntityId_ok (pl_nodeIds p)
      \<and> list_all PlanStage_ok (pl_stages p)
      \<and> list_all (list_all EntityId_ok) (obj_values (pl_dependencies p))
      \<and> list_all EntityId_ok (pl_revisionLoopIds p)
      \<and> map st_index (pl_stages p) = map int [0..<length (pl_stages p)])"

definition WorkflowPlanSchema_parse :: "workflow_plan \<Rightarrow> workflow_plan res" where
  "WorkflowPlanSchema_parse p =
     (if WorkflowPlan_ok p then return p else throw (ZodError ''WorkflowPlanSchema''))"

lemma WorkflowPlanSchema_parse_Inr [simp]:
  "WorkflowPlanSchema_parse p = Inr p' \<longleftrightarrow> WorkflowPlan_ok p \<and> p' = p"
  by (auto simp: WorkflowPlanSchema_parse_def)

record plan_options =
  po_planId :: string
  po_targetNodeIds :: "string list option"
  po_includeUpstream :: "bool option"

section \<open>Selecting the nodes\<close>

text \<open>
  The two selection loops repeat a pass that only adds members until a pass adds nothing. They end
  because the members come from a finite universe.
\<close>

lemma grow_measure:
  assumes "set s \<subseteq> set s'" and "set s' \<subseteq> set s \<union> U" and "finite U" and "\<not> set s' \<subseteq> set s"
  shows "card (U - set s') < card (U - set s)"
  using assms by (intro psubset_card_mono) auto

definition pull_source :: "canvas_edge \<Rightarrow> string list \<Rightarrow> string list" where
  "pull_source e selected =
     (if edge_targetNodeId e \<in> set selected \<and> edge_sourceNodeId e \<notin> set selected
      then set_add (edge_sourceNodeId e) selected else selected)"

lemma pull_fold:
  "set selected \<subseteq> set (fold pull_source es selected)"
  "set (fold pull_source es selected) \<subseteq> set selected \<union> edge_sourceNodeId ` set es"
proof (induction es arbitrary: selected)
  case Nil
  {
    case 1
    show ?case by simp
  next
    case 2
    show ?case by simp
  }
next
  case (Cons e es)
  {
    case 1
    show ?case using Cons(1) [of "pull_source e selected"] by (auto simp: pull_source_def split: if_splits)
  next
    case 2
    show ?case using Cons(2) [of "pull_source e selected"] by (auto simp: pull_source_def split: if_splits)
  }
qed

function upstream_closure :: "canvas_edge list \<Rightarrow> string list \<Rightarrow> string list" where
  "upstream_closure edges selected =
     (let selected' = fold pull_source edges selected in
      if set selected' \<subseteq> set selected then selected' else upstream_closure edges selected')"
  by pat_completeness auto

termination
proof (relation "measure (\<lambda>(edges, selected). card (edge_sourceNodeId ` set edges - set selected))", goal_cases)
  case 1
  show ?case by simp
next
  case (2 edges selected selected')
  then show ?case
    using pull_fold [where selected = selected and es = edges] by (auto intro!: grow_measure)
qed

declare upstream_closure.simps [simp del]

definition collectSelectedNodeIds :: "canvas \<Rightarrow> plan_options \<Rightarrow> string list" where
  "collectSelectedNodeIds c options =
     (case po_targetNodeIds options of
        None \<Rightarrow> new_Set (map node_id (canvas_nodes c))
      | Some targets \<Rightarrow>
          (if po_includeUpstream options = Some False then new_Set targets
           else upstream_closure (orderingEdges (canvas_edges c)) (new_Set targets)))"

section \<open>Packing the stages\<close>

type_synonym stage_state = "string list \<times> string list \<times> int \<times> int"

definition pack_node :: "canvas \<Rightarrow> string \<Rightarrow> stage_state \<Rightarrow> stage_state" where
  "pack_node c i st =
     (let (stageNodes, exclusive, cpu, memory) = st in
      case node_by_id (canvas_nodes c) i of
        None \<Rightarrow> st
      | Some n \<Rightarrow>
          let r = node_resources n;
              conflicts = list_ex (\<lambda>k. k \<in> set exclusive) (exclusiveKeys r);
              fits = int (length stageNodes) < maximumConcurrency (canvas_workflowLimits c)
                   \<and> cpu + cpuUnits r \<le> maximumCpuUnits (canvas_workflowLimits c)
                   \<and> memory + memoryMb r \<le> maximumMemoryMb (canvas_workflowLimits c)
                   \<and> \<not> conflicts
          in if fits
             then (stageNodes @ [i], fold set_add (exclusiveKeys r) exclusive, cpu + cpuUnits r, memory + memoryMb r)
             else st)"

definition pack_stage :: "canvas \<Rightarrow> string list \<Rightarrow> stage_state" where
  "pack_stage c ready = fold (pack_node c) ready ([], [], 0, 0)"

lemma pack_node_nodes:
  "set (fst (pack_node c i st)) \<subseteq> insert i (set (fst st))"
  by (auto simp: pack_node_def Let_def split: prod.splits option.splits if_splits)

lemma pack_fold_nodes: "set (fst (fold (pack_node c) ready st)) \<subseteq> set (fst st) \<union> set ready"
proof (induction ready arbitrary: st)
  case Nil
  then show ?case by simp
next
  case (Cons i ready)
  from Cons [of "pack_node c i st"] pack_node_nodes [of c i st] show ?case by auto
qed

definition dependencies_done :: "string list obj \<Rightarrow> string list \<Rightarrow> string \<Rightarrow> bool" where
  "dependencies_done dependencies completed i =
     (case obj_get dependencies i of None \<Rightarrow> False | Some ds \<Rightarrow> list_all (\<lambda>d. d \<in> set completed) ds)"

function plan_stages ::
  "canvas \<Rightarrow> string list obj \<Rightarrow> string list \<Rightarrow> string list \<Rightarrow> plan_stage list \<Rightarrow> plan_stage list res" where
  "plan_stages c dependencies remaining completed stages =
     (if remaining = [] then return stages
      else
        let ready = sort_ids (filter (dependencies_done dependencies completed) remaining) in
        if ready = []
        then throw (WorkflowValidationError
               [\<lparr>issue_code = CYCLE, issue_message = ''No nodes can be scheduled'', issue_entityIds = remaining\<rparr>])
        else
          let (stageNodes, exclusive, cpu, memory) = pack_stage c ready in
          if stageNodes = []
          then throw (WorkflowValidationError
                 [\<lparr>issue_code = RESOURCE_LIMIT, issue_message = ''Ready nodes cannot fit resource limits'',
                   issue_entityIds = ready\<rparr>])
          else plan_stages c dependencies (filter (\<lambda>i. i \<notin> set stageNodes) remaining)
                 (fold set_add stageNodes completed)
                 (stages @ [\<lparr>st_index = int (length stages), st_nodeIds = stageNodes,
                             st_cpuUnits = cpu, st_memoryMb = memory\<rparr>]))"
  by pat_completeness auto

termination
proof (relation "measure (\<lambda>(c, dependencies, remaining, completed, stages). length remaining)", goal_cases)
  case 1
  show ?case by simp
next
  case (2 c dependencies remaining completed stages ready _ stageNodes)
  then have nodes: "stageNodes = fst (pack_stage c ready)" and ne: "stageNodes \<noteq> []" by (metis fst_conv, blast)
  obtain i where i: "i \<in> set stageNodes" using ne by (cases stageNodes) auto
  then have "i \<in> set ready"
    using pack_fold_nodes [of c ready "([], [], 0, 0)"] by (auto simp: pack_stage_def nodes)
  then have "i \<in> set remaining" using 2(2) by simp
  with i have "length (filter (\<lambda>i. i \<notin> set stageNodes) remaining) < length remaining"
    by (intro length_filter_less) auto
  then show ?case by simp
qed

declare plan_stages.simps [simp del]

definition plan_dependencies :: "canvas_edge list \<Rightarrow> string list \<Rightarrow> string list obj" where
  "plan_dependencies selectedEdges selectedIds =
     obj_from (map (\<lambda>i. (i, sort_ids (map edge_sourceNodeId
       (filter (\<lambda>e. edge_targetNodeId e = i) selectedEdges)))) selectedIds)"

definition planWorkflow :: "canvas \<Rightarrow> plan_options \<Rightarrow> workflow_plan res" where
  "planWorkflow untrustedCanvas options =
     res_bind (CanvasSchema_parse untrustedCanvas) (\<lambda>c.
     res_bind (validateWorkflow c) (\<lambda>validation.
       let missing = (case po_targetNodeIds options of None \<Rightarrow> []
                      | Some targets \<Rightarrow> filter (\<lambda>i. node_by_id (canvas_nodes c) i = None) targets) in
       if missing \<noteq> []
       then throw (WorkflowValidationError
              [\<lparr>issue_code = MISSING_NODE, issue_message = ''Plan target does not exist'', issue_entityIds = missing\<rparr>])
       else if \<not> vr_valid validation then throw (WorkflowValidationError (vr_issues validation))
       else
         let selected = collectSelectedNodeIds c options;
             selectedIds = sort_ids selected
         in res_bind (validateWorkflowExecutionConfiguration c (Some selectedIds)) (\<lambda>configurationIssues.
            if configurationIssues \<noteq> [] then throw (WorkflowValidationError configurationIssues)
            else
              let selectedEdges =
                    filter (\<lambda>e. edge_sourceNodeId e \<in> set selected \<and> edge_targetNodeId e \<in> set selected)
                      (orderingEdges (canvas_edges c));
                  dependencies = plan_dependencies selectedEdges selectedIds
              in res_bind (plan_stages c dependencies selectedIds [] []) (\<lambda>stages.
                 WorkflowPlanSchema_parse
                   \<lparr> pl_id = po_planId options, pl_canvasId = canvas_id c, pl_nodeIds = selectedIds,
                     pl_stages = stages, pl_dependencies = dependencies,
                     pl_revisionLoopIds =
                       sort_ids (map loop_id (filter (\<lambda>l. loop_implementationNodeId l \<in> set selected
                         \<or> loop_reviewNodeId l \<in> set selected) (canvas_revisionLoops c))) \<rparr>))))"

section \<open>Capacity\<close>

text \<open>What the workflow limits promise of nodes that occupy the machine at the same time.\<close>

fun keys_disjoint :: "resource_requirements list \<Rightarrow> bool" where
  "keys_disjoint [] = True"
| "keys_disjoint (r # rs) =
     (list_all (\<lambda>q. set (exclusiveKeys r) \<inter> set (exclusiveKeys q) = {}) rs \<and> keys_disjoint rs)"

definition within_limits :: "workflow_limits \<Rightarrow> resource_requirements list \<Rightarrow> bool" where
  "within_limits l rs =
     (int (length rs) \<le> maximumConcurrency l
      \<and> sum_list (map cpuUnits rs) \<le> maximumCpuUnits l
      \<and> sum_list (map memoryMb rs) \<le> maximumMemoryMb l
      \<and> keys_disjoint rs)"

definition all_keys :: "resource_requirements list \<Rightarrow> string set" where
  "all_keys rs = (\<Union>r \<in> set rs. set (exclusiveKeys r))"

lemma all_keys_simps [simp]:
  "all_keys [] = {}" "all_keys (r # rs) = set (exclusiveKeys r) \<union> all_keys rs"
  "all_keys (rs @ qs) = all_keys rs \<union> all_keys qs"
  by (auto simp: all_keys_def)

lemma keys_disjoint_snoc:
  "keys_disjoint (rs @ [r]) \<longleftrightarrow> keys_disjoint rs \<and> set (exclusiveKeys r) \<inter> all_keys rs = {}"
  by (induction rs) (auto simp: all_keys_def)

lemma within_limits_snoc:
  "within_limits l (rs @ [r]) \<longleftrightarrow>
     int (length rs) < maximumConcurrency l
     \<and> sum_list (map cpuUnits rs) + cpuUnits r \<le> maximumCpuUnits l
     \<and> sum_list (map memoryMb rs) + memoryMb r \<le> maximumMemoryMb l
     \<and> keys_disjoint rs \<and> set (exclusiveKeys r) \<inter> all_keys rs = {}"
  by (auto simp: within_limits_def keys_disjoint_snoc)

definition requirements :: "canvas_node list \<Rightarrow> string \<Rightarrow> resource_requirements" where
  "requirements nodes i =
     (case node_by_id nodes i of
        None \<Rightarrow> \<lparr>cpuUnits = 0, memoryMb = 0, exclusiveKeys = []\<rparr>
      | Some n \<Rightarrow> node_resources n)"

text \<open>A stage as the packing loop builds it.\<close>

definition stage_ok :: "canvas \<Rightarrow> stage_state \<Rightarrow> bool" where
  "stage_ok c st =
     (case st of (stageNodes, exclusive, cpu, memory) \<Rightarrow>
        (let rs = map (requirements (canvas_nodes c)) stageNodes in
         within_limits (canvas_workflowLimits c) rs \<and> set exclusive = all_keys rs
         \<and> cpu = sum_list (map cpuUnits rs) \<and> memory = sum_list (map memoryMb rs)))"

lemma pack_node_ok:
  assumes "stage_ok c st"
  shows "stage_ok c (pack_node c i st)"
proof -
  obtain stageNodes exclusive cpu memory where st: "st = (stageNodes, exclusive, cpu, memory)" by (cases st)
  show ?thesis
  proof (cases "node_by_id (canvas_nodes c) i")
    case None
    then show ?thesis using assms by (simp add: st pack_node_def)
  next
    case (Some n)
    then have "requirements (canvas_nodes c) i = node_resources n" by (simp add: requirements_def)
    then show ?thesis using assms Some
      by (auto simp: st pack_node_def stage_ok_def Let_def within_limits_snoc set_fold_set_add list_ex_iff)
        (auto simp: within_limits_def)
  qed
qed

lemma pack_fold_ok: "stage_ok c st \<Longrightarrow> stage_ok c (fold (pack_node c) ready st)"
proof (induction ready arbitrary: st)
  case Nil
  then show ?case by simp
next
  case (Cons i ready)
  from Cons.IH [OF pack_node_ok [OF Cons.prems]] show ?case by simp
qed

lemma pack_fold_distinct:
  assumes "distinct (fst st @ ready)"
  shows "distinct (fst (fold (pack_node c) ready st))"
  using assms
proof (induction ready arbitrary: st)
  case Nil
  then show ?case by simp
next
  case (Cons i ready)
  have "fst (pack_node c i st) = fst st \<or> fst (pack_node c i st) = fst st @ [i]"
    by (auto simp: pack_node_def Let_def split: prod.splits option.splits)
  with Cons.prems have "distinct (fst (pack_node c i st) @ ready)" by auto
  then show ?case using Cons.IH by simp
qed

lemma pack_fold_grows: "set (fst st) \<subseteq> set (fst (fold (pack_node c) ready st))"
proof (induction ready arbitrary: st)
  case Nil
  then show ?case by simp
next
  case (Cons i ready)
  have "set (fst st) \<subseteq> set (fst (pack_node c i st))"
    by (auto simp: pack_node_def Let_def split: prod.splits option.splits)
  with Cons [of "pack_node c i st"] show ?case by auto
qed

text \<open>The limits are those of a schema-valid canvas, so an empty stage takes part in them.\<close>

lemma pack_stage_ok:
  assumes "WorkflowLimits_ok (canvas_workflowLimits c)" and "pack_stage c ready = (ns, ks, cpu, memory)"
    and "distinct ready"
  shows "stage_ok c (ns, ks, cpu, memory)" and "distinct ns" and "set ns \<subseteq> set ready"
proof -
  have "stage_ok c ([], [], 0, 0)"
    using assms(1) by (simp add: stage_ok_def within_limits_def WorkflowLimits_ok_def)
  from pack_fold_ok [OF this, of ready] show "stage_ok c (ns, ks, cpu, memory)"
    using assms(2) by (simp add: pack_stage_def)
  have ns: "ns = fst (fold (pack_node c) ready ([], [], 0, 0))" using assms(2) by (simp add: pack_stage_def)
  show "distinct ns" unfolding ns using assms(3) by (intro pack_fold_distinct) simp
  show "set ns \<subseteq> set ready" unfolding ns using pack_fold_nodes [of c ready "([], [], 0, 0)"] by simp
qed

lemma pack_stage_first:
  assumes limits: "WorkflowLimits_ok (canvas_workflowLimits c)"
    and n: "node_by_id (canvas_nodes c) i = Some n"
    and fits: "cpuUnits (node_resources n) \<le> maximumCpuUnits (canvas_workflowLimits c)"
      "memoryMb (node_resources n) \<le> maximumMemoryMb (canvas_workflowLimits c)"
    and p: "pack_stage c (i # ready) = (ns, ks, cpu, memory)"
  shows "i \<in> set ns"
proof -
  have "fst (pack_node c i ([], [], 0, 0)) = [i]"
    using limits n fits by (simp add: pack_node_def Let_def WorkflowLimits_ok_def list_ex_iff)
  then show ?thesis
    using p pack_fold_grows [of "pack_node c i ([], [], 0, 0)" c ready] by (auto simp: pack_stage_def)
qed

section \<open>The stages of a plan\<close>

definition staged :: "plan_stage list \<Rightarrow> string list" where
  "staged stages = concat (map st_nodeIds stages)"

lemma staged_simps [simp]: "staged [] = []" "staged (stages @ [s]) = staged stages @ st_nodeIds s"
  by (simp_all add: staged_def)

text \<open>
  Stage \<open>s\<close> after the stages \<open>before\<close>: numbered by its position, not empty, inside the limits
  with its totals recorded, and every dependency of its nodes in an earlier stage.
\<close>

definition sound_stage :: "canvas \<Rightarrow> string list obj \<Rightarrow> plan_stage list \<Rightarrow> plan_stage \<Rightarrow> bool" where
  "sound_stage c dependencies before s =
     (st_index s = int (length before) \<and> st_nodeIds s \<noteq> []
      \<and> within_limits (canvas_workflowLimits c) (map (requirements (canvas_nodes c)) (st_nodeIds s))
      \<and> st_cpuUnits s = sum_list (map (cpuUnits \<circ> requirements (canvas_nodes c)) (st_nodeIds s))
      \<and> st_memoryMb s = sum_list (map (memoryMb \<circ> requirements (canvas_nodes c)) (st_nodeIds s))
      \<and> (\<forall>i \<in> set (st_nodeIds s). dependencies_done dependencies (staged before) i))"

definition sound_stages :: "canvas \<Rightarrow> string list obj \<Rightarrow> plan_stage list \<Rightarrow> bool" where
  "sound_stages c dependencies stages =
     (distinct (staged stages)
      \<and> (\<forall>k < length stages. sound_stage c dependencies (take k stages) (stages ! k)))"

lemma sound_stages_snoc:
  "sound_stages c deps (stages @ [s]) \<longleftrightarrow>
     sound_stages c deps stages \<and> sound_stage c deps stages s
     \<and> distinct (st_nodeIds s) \<and> set (st_nodeIds s) \<inter> set (staged stages) = {}"
  by (auto simp: sound_stages_def nth_append less_Suc_eq)

lemma dependencies_done_cong: "set a = set b \<Longrightarrow> dependencies_done deps a = dependencies_done deps b"
  by (simp add: dependencies_done_def fun_eq_iff split: option.splits)

lemma plan_stages_Nil: "plan_stages c deps [] completed stages = Inr stages"
  by (simp add: plan_stages.simps)

lemma plan_stages_sound:
  assumes "plan_stages c deps remaining completed stages = Inr out"
    and "WorkflowLimits_ok (canvas_workflowLimits c)" and "distinct remaining"
    and "set completed = set (staged stages)" and "set remaining \<inter> set (staged stages) = {}"
    and "sound_stages c deps stages"
  shows "sound_stages c deps out \<and> set (staged out) = set remaining \<union> set (staged stages)"
  using assms
proof (induction c deps remaining completed stages rule: plan_stages.induct)
  case (1 c deps remaining completed stages)
  define ready where "ready = sort_ids (filter (dependencies_done deps completed) remaining)"
  obtain ns ks cpu memory where p: "pack_stage c ready = (ns, ks, cpu, memory)" by (cases "pack_stage c ready")
  define stage where
    "stage = \<lparr>st_index = int (length stages), st_nodeIds = ns, st_cpuUnits = cpu, st_memoryMb = memory\<rparr>"
  show ?case
  proof (cases "remaining = []")
    case True
    then show ?thesis using 1 by (simp add: plan_stages_Nil)
  next
    case False
    have out: "plan_stages c deps (filter (\<lambda>i. i \<notin> set ns) remaining) (fold set_add ns completed) (stages @ [stage])
        = Inr out" and "ready \<noteq> []" and "ns \<noteq> []"
      using 1(2) False p
      by (simp_all add: plan_stages.simps [of c deps remaining] stage_def flip: ready_def split: if_splits)
    have dist: "distinct ready" using 1(4) by (simp add: ready_def)
    note pk = pack_stage_ok [OF 1(3) p dist]
    have sub: "set ns \<subseteq> set remaining" "\<And>i. i \<in> set ns \<Longrightarrow> dependencies_done deps completed i"
      using pk(3) by (auto simp: ready_def)
    have stage: "sound_stage c deps stages stage"
      using pk(1) \<open>ns \<noteq> []\<close> sub(2) dependencies_done_cong [OF 1(5)]
      by (simp add: sound_stage_def stage_def stage_ok_def Let_def)
    have "sound_stages c deps out
        \<and> set (staged out) = set (filter (\<lambda>i. i \<notin> set ns) remaining) \<union> set (staged (stages @ [stage]))"
    proof (rule 1(1) [OF False ready_def \<open>ready \<noteq> []\<close> p [symmetric] refl refl refl \<open>ns \<noteq> []\<close> out [unfolded stage_def]
          1(3), folded stage_def])
      show "distinct (filter (\<lambda>i. i \<notin> set ns) remaining)" using 1(4) by simp
      show "set (fold set_add ns completed) = set (staged (stages @ [stage]))"
        using 1(5) by (auto simp: set_fold_set_add stage_def)
      show "set (filter (\<lambda>i. i \<notin> set ns) remaining) \<inter> set (staged (stages @ [stage])) = {}"
        using 1(6) by (auto simp: stage_def)
      show "sound_stages c deps (stages @ [stage])"
        using 1(6,7) stage pk(2) sub(1) by (auto simp: sound_stages_snoc stage_def)
    qed
    then show ?thesis using sub(1) by (auto simp: stage_def)
  qed
qed

text \<open>The packing always finds a stage on an acyclic selection whose nodes fit one by one.\<close>

lemma plan_stages_total:
  assumes "WorkflowLimits_ok (canvas_workflowLimits c)"
    and "\<And>i. i \<in> set remaining \<Longrightarrow> \<exists>n. node_by_id (canvas_nodes c) i = Some n
        \<and> cpuUnits (node_resources n) \<le> maximumCpuUnits (canvas_workflowLimits c)
        \<and> memoryMb (node_resources n) \<le> maximumMemoryMb (canvas_workflowLimits c)"
    and "\<And>i. i \<in> set remaining \<Longrightarrow> \<exists>ds. obj_get deps i = Some ds
        \<and> set ds \<subseteq> set remaining \<union> set completed \<and> (\<forall>d \<in> set ds. (d, i) \<in> R)"
    and "wf R"
  shows "\<exists>out. plan_stages c deps remaining completed stages = Inr out"
  using assms
proof (induction c deps remaining completed stages rule: plan_stages.induct)
  case (1 c deps remaining completed stages)
  define ready where "ready = sort_ids (filter (dependencies_done deps completed) remaining)"
  obtain ns ks cpu memory where p: "pack_stage c ready = (ns, ks, cpu, memory)" by (cases "pack_stage c ready")
  show ?case
  proof (cases "remaining = []")
    case True
    then show ?thesis by (simp add: plan_stages_Nil)
  next
    case False
    then obtain x where "x \<in> set remaining" by (cases remaining) auto
    with 1(5) obtain m where m: "m \<in> set remaining" "\<And>y. (y, m) \<in> R \<Longrightarrow> y \<notin> set remaining"
      by (metis wfE_min)
    from 1(4) [OF m(1)] obtain ds where "obj_get deps m = Some ds"
      "set ds \<subseteq> set remaining \<union> set completed" "\<forall>d \<in> set ds. (d, m) \<in> R" by blast
    with m(2) have "dependencies_done deps completed m"
      unfolding dependencies_done_def list_all_iff by fastforce
    with m(1) have "m \<in> set ready" by (simp add: ready_def)
    then obtain r rs where r: "ready = r # rs" by (cases ready) auto
    then have "r \<in> set ready" by simp
    then have "r \<in> set remaining" by (simp add: ready_def)
    with 1(3) obtain n where "node_by_id (canvas_nodes c) r = Some n"
      "cpuUnits (node_resources n) \<le> maximumCpuUnits (canvas_workflowLimits c)"
      "memoryMb (node_resources n) \<le> maximumMemoryMb (canvas_workflowLimits c)" by blast
    from pack_stage_first [OF 1(2) this p [unfolded r]] have ns: "ns \<noteq> []" by auto
    have ne: "ready \<noteq> []" by (simp add: r)
    have sub: "set ns \<subseteq> set remaining"
      using pack_fold_nodes [of c ready "([], [], 0, 0)"] p by (auto simp: pack_stage_def ready_def)
    define stage where
      "stage = \<lparr>st_index = int (length stages), st_nodeIds = ns, st_cpuUnits = cpu, st_memoryMb = memory\<rparr>"
    have "\<exists>out. plan_stages c deps (filter (\<lambda>i. i \<notin> set ns) remaining) (fold set_add ns completed)
        (stages @ [stage]) = Inr out"
    proof (rule 1(1) [OF False ready_def ne p [symmetric] refl refl refl ns 1(2), folded stage_def])
      show "\<exists>n. node_by_id (canvas_nodes c) i = Some n
          \<and> cpuUnits (node_resources n) \<le> maximumCpuUnits (canvas_workflowLimits c)
          \<and> memoryMb (node_resources n) \<le> maximumMemoryMb (canvas_workflowLimits c)"
        if "i \<in> set (filter (\<lambda>i. i \<notin> set ns) remaining)" for i
        using that 1(3) by simp
      show "\<exists>ds. obj_get deps i = Some ds
          \<and> set ds \<subseteq> set (filter (\<lambda>i. i \<notin> set ns) remaining) \<union> set (fold set_add ns completed)
          \<and> (\<forall>d \<in> set ds. (d, i) \<in> R)"
        if "i \<in> set (filter (\<lambda>i. i \<notin> set ns) remaining)" for i
        using that 1(4) [of i] by (auto simp: set_fold_set_add)
      show "wf R" by (rule 1(5))
    qed
    then show ?thesis using False p ne ns
      by (simp add: plan_stages.simps [of c deps remaining] stage_def flip: ready_def)
  qed
qed

section \<open>The selection\<close>

definition edge_arcs :: "canvas_edge list \<Rightarrow> (string \<times> string) set" where
  "edge_arcs edges = (\<lambda>e. (edge_sourceNodeId e, edge_targetNodeId e)) ` set edges"

lemma pull_fold_source:
  "e \<in> set es \<Longrightarrow> edge_targetNodeId e \<in> set selected \<Longrightarrow> edge_sourceNodeId e \<in> set (fold pull_source es selected)"
proof (induction es arbitrary: selected)
  case Nil
  then show ?case by simp
next
  case (Cons x es)
  show ?case
  proof (cases "e = x")
    case True
    then have "edge_sourceNodeId e \<in> set (pull_source x selected)" using Cons.prems by (auto simp: pull_source_def)
    then show ?thesis using pull_fold(1) [where selected = "pull_source x selected" and es = es] by auto
  next
    case False
    moreover have "edge_targetNodeId e \<in> set (pull_source x selected)"
      using Cons.prems by (auto simp: pull_source_def)
    ultimately show ?thesis using Cons by simp
  qed
qed

lemma pull_fold_reach:
  "v \<in> set (fold pull_source es selected) \<Longrightarrow> set es \<subseteq> set all
   \<Longrightarrow> \<exists>t \<in> set selected. (v, t) \<in> (edge_arcs all)\<^sup>*"
proof (induction es arbitrary: selected)
  case Nil
  then show ?case by auto
next
  case (Cons e es)
  then obtain t where t: "t \<in> set (pull_source e selected)" "(v, t) \<in> (edge_arcs all)\<^sup>*" by auto
  have e: "(edge_sourceNodeId e, edge_targetNodeId e) \<in> edge_arcs all"
    using Cons.prems by (auto simp: edge_arcs_def)
  show ?case
  proof (cases "t \<in> set selected")
    case True
    then show ?thesis using t by auto
  next
    case False
    with t(1) have "t = edge_sourceNodeId e" "edge_targetNodeId e \<in> set selected"
      by (auto simp: pull_source_def split: if_splits)
    then show ?thesis using t(2) e by (meson rtrancl.rtrancl_into_rtrancl)
  qed
qed

lemma distinct_pull_fold: "distinct (fold pull_source es selected) = distinct selected"
proof (induction es arbitrary: selected)
  case Nil
  then show ?case by simp
next
  case (Cons e es)
  have "distinct (pull_source e selected) = distinct selected" by (simp add: pull_source_def)
  with Cons show ?case by simp
qed

lemma upstream_closure_set:
  "set (upstream_closure edges selected) = {v. \<exists>t \<in> set selected. (v, t) \<in> (edge_arcs edges)\<^sup>*}"
  "distinct (upstream_closure edges selected) = distinct selected"
proof (induction edges selected rule: upstream_closure.induct)
  case (1 edges selected)
  note IH = this
  define selected' where "selected' = fold pull_source edges selected"
  have grow: "set selected \<subseteq> set selected'"
    unfolding selected'_def by (rule pull_fold(1))
  have reach: "\<And>v. v \<in> set selected' \<Longrightarrow> \<exists>t \<in> set selected. (v, t) \<in> (edge_arcs edges)\<^sup>*"
    unfolding selected'_def by (rule pull_fold_reach [OF _ subset_refl])
  {
    case 1
    show ?case
    proof (cases "set selected' \<subseteq> set selected")
      case True
      have clos: "v \<in> set selected" if "(v, t) \<in> (edge_arcs edges)\<^sup>*" "t \<in> set selected" for v t
        using that
      proof (induction rule: converse_rtrancl_induct)
        case (step y z)
        then obtain e where "e \<in> set edges" "y = edge_sourceNodeId e" "z = edge_targetNodeId e"
          by (auto simp: edge_arcs_def)
        with step pull_fold_source [of e edges selected] True show ?case by (auto simp: selected'_def)
      qed
      have "set (upstream_closure edges selected) = set selected"
        using True grow by (simp add: upstream_closure.simps [of edges selected] Let_def flip: selected'_def)
      also have "\<dots> = {v. \<exists>t \<in> set selected. (v, t) \<in> (edge_arcs edges)\<^sup>*}" using clos by auto
      finally show ?thesis .
    next
      case False
      then have "set (upstream_closure edges selected) = {v. \<exists>t \<in> set selected'. (v, t) \<in> (edge_arcs edges)\<^sup>*}"
        using IH(1) [OF selected'_def False]
        by (simp add: upstream_closure.simps [of edges selected] Let_def flip: selected'_def)
      also have "\<dots> = {v. \<exists>t \<in> set selected. (v, t) \<in> (edge_arcs edges)\<^sup>*}"
        using grow reach by (auto intro: rtrancl_trans) (meson reach rtrancl_trans)
      finally show ?thesis .
    qed
  next
    case 2
    have d: "distinct selected' = distinct selected" by (simp add: selected'_def distinct_pull_fold)
    show ?case
      using IH(2) [OF selected'_def] d
      by (simp add: upstream_closure.simps [of edges selected] Let_def flip: selected'_def)
  }
qed

text \<open>The nodes a plan request asks for: the targets, and unless told otherwise all that precede them.\<close>

definition requested :: "canvas \<Rightarrow> plan_options \<Rightarrow> string set" where
  "requested c options =
     (case po_targetNodeIds options of
        None \<Rightarrow> node_id ` set (canvas_nodes c)
      | Some targets \<Rightarrow>
          (if po_includeUpstream options = Some False then set targets
           else {v. \<exists>t \<in> set targets. (v, t) \<in> (edge_arcs (orderingEdges (canvas_edges c)))\<^sup>*}))"

definition targets_exist :: "canvas \<Rightarrow> plan_options \<Rightarrow> bool" where
  "targets_exist c options =
     (case po_targetNodeIds options of None \<Rightarrow> True
      | Some targets \<Rightarrow> set targets \<subseteq> node_id ` set (canvas_nodes c))"

lemma set_collectSelectedNodeIds: "set (collectSelectedNodeIds c options) = requested c options"
  by (auto simp: collectSelectedNodeIds_def requested_def upstream_closure_set split: option.splits)

lemma distinct_collectSelectedNodeIds [simp]: "distinct (collectSelectedNodeIds c options)"
  by (auto simp: collectSelectedNodeIds_def upstream_closure_set split: option.splits)

lemma wellformed_canvasD:
  assumes "wellformed_canvas c"
  shows "distinct (map node_id (canvas_nodes c))" and "distinct (map edge_id (canvas_edges c))"
    and "e \<in> set (canvas_edges c) \<Longrightarrow> wellformed_edge c e"
    and "n \<in> set (canvas_nodes c) \<Longrightarrow> node_data n = ReviewGateNode g \<Longrightarrow> wellformed_gate c (node_id n) g"
    and "l \<in> set (canvas_revisionLoops c) \<Longrightarrow> wellformed_loop c l"
    and "n \<in> set (canvas_nodes c) \<Longrightarrow> cpuUnits (node_resources n) \<le> maximumCpuUnits (canvas_workflowLimits c)
      \<and> memoryMb (node_resources n) \<le> maximumMemoryMb (canvas_workflowLimits c)"
    and "acyclic (set (selected_arcs (map node_id (canvas_nodes c)) (orderingEdges (canvas_edges c))))"
  using assms unfolding wellformed_canvas_def canvas_ids_def by auto

lemma wellformed_edge_ends:
  assumes "wellformed_canvas c" and "e \<in> set (canvas_edges c)"
  shows "edge_sourceNodeId e \<in> node_id ` set (canvas_nodes c)"
    and "edge_targetNodeId e \<in> node_id ` set (canvas_nodes c)"
  using wellformed_canvasD(3) [OF assms] by (force simp: wellformed_edge_def a_node_def)+

lemma requested_nodes:
  assumes "wellformed_canvas c" and "targets_exist c options"
  shows "requested c options \<subseteq> node_id ` set (canvas_nodes c)"
proof -
  have "v \<in> node_id ` set (canvas_nodes c)"
    if "(v, t) \<in> (edge_arcs (orderingEdges (canvas_edges c)))\<^sup>*" "t \<in> node_id ` set (canvas_nodes c)" for v t
    using that
  proof (induction rule: converse_rtrancl_induct)
    case (step y z)
    then obtain e where "e \<in> set (canvas_edges c)" "y = edge_sourceNodeId e"
      by (auto simp: edge_arcs_def orderingEdges_def)
    then show ?case using wellformed_edge_ends(1) [OF assms(1)] by blast
  qed simp
  then show ?thesis using assms(2) by (auto simp: requested_def targets_exist_def split: option.splits if_splits)
qed

lemma node_by_id_wellformed:
  assumes "wellformed_canvas c" and "i \<in> node_id ` set (canvas_nodes c)"
  obtains n where "node_by_id (canvas_nodes c) i = Some n" "n \<in> set (canvas_nodes c)" "node_id n = i"
proof -
  note wellformed_canvasD(1) [OF assms(1)]
  with assms(2) that show ?thesis by (auto simp: node_by_id_iff)
qed

lemma validateWorkflow_valid:
  assumes "validateWorkflow c = Inr r"
  shows "CanvasSchema_ok c" and "vr_issues r = all_issues c" and "vr_valid r \<longleftrightarrow> wellformed_canvas c"
  using assms all_issues_Nil [of c] by (auto simp: validateWorkflow_def Let_def res_bind_eq_Inr)

lemma validateWorkflow_Inr: "CanvasSchema_ok c \<Longrightarrow> \<exists>r. validateWorkflow c = Inr r"
  by (simp add: validateWorkflow_def CanvasSchema_parse_def Let_def)

text \<open>The edges and dependencies that \<open>planWorkflow\<close> gives to the packing loop.\<close>

definition selected_edges :: "canvas \<Rightarrow> plan_options \<Rightarrow> canvas_edge list" where
  "selected_edges c options =
     filter (\<lambda>e. edge_sourceNodeId e \<in> requested c options \<and> edge_targetNodeId e \<in> requested c options)
       (orderingEdges (canvas_edges c))"

definition chosen_dependencies :: "canvas \<Rightarrow> plan_options \<Rightarrow> string list obj" where
  "chosen_dependencies c options =
     plan_dependencies (selected_edges c options) (sort_ids (collectSelectedNodeIds c options))"

lemma chosen_dependencies_get:
  "obj_get (chosen_dependencies c options) i =
     (if i \<in> requested c options
      then Some (sort_ids (map edge_sourceNodeId (filter (\<lambda>e. edge_targetNodeId e = i) (selected_edges c options))))
      else None)"
  by (simp add: chosen_dependencies_def plan_dependencies_def obj_get_from_map set_collectSelectedNodeIds)

lemma dependencies_done_chosen:
  "dependencies_done (chosen_dependencies c options) completed i \<longleftrightarrow>
     i \<in> requested c options
     \<and> (\<forall>e \<in> set (canvas_edges c). \<not> is_Revision (edge_config e) \<and> edge_targetNodeId e = i
          \<and> edge_sourceNodeId e \<in> requested c options \<longrightarrow> edge_sourceNodeId e \<in> set completed)"
  by (auto simp: dependencies_done_def chosen_dependencies_get selected_edges_def orderingEdges_def list_all_iff)

definition chosen_plan :: "canvas \<Rightarrow> plan_options \<Rightarrow> plan_stage list \<Rightarrow> workflow_plan" where
  "chosen_plan c options stages =
     \<lparr> pl_id = po_planId options, pl_canvasId = canvas_id c,
       pl_nodeIds = sort_ids (collectSelectedNodeIds c options), pl_stages = stages,
       pl_dependencies = chosen_dependencies c options,
       pl_revisionLoopIds = sort_ids (map loop_id (filter (\<lambda>l. loop_implementationNodeId l \<in> requested c options
         \<or> loop_reviewNodeId l \<in> requested c options) (canvas_revisionLoops c))) \<rparr>"

lemma planWorkflow_eq:
  "planWorkflow c options =
     res_bind (CanvasSchema_parse c) (\<lambda>c.
     res_bind (validateWorkflow c) (\<lambda>validation.
       let missing = (case po_targetNodeIds options of None \<Rightarrow> []
                      | Some targets \<Rightarrow> filter (\<lambda>i. node_by_id (canvas_nodes c) i = None) targets) in
       if missing \<noteq> []
       then throw (WorkflowValidationError
              [\<lparr>issue_code = MISSING_NODE, issue_message = ''Plan target does not exist'', issue_entityIds = missing\<rparr>])
       else if \<not> vr_valid validation then throw (WorkflowValidationError (vr_issues validation))
       else res_bind (validateWorkflowExecutionConfiguration c (Some (sort_ids (collectSelectedNodeIds c options))))
         (\<lambda>configurationIssues.
            if configurationIssues \<noteq> [] then throw (WorkflowValidationError configurationIssues)
            else res_bind (plan_stages c (chosen_dependencies c options)
                   (sort_ids (collectSelectedNodeIds c options)) [] [])
                 (\<lambda>stages. WorkflowPlanSchema_parse (chosen_plan c options stages)))))"
  unfolding planWorkflow_def Let_def chosen_plan_def chosen_dependencies_def selected_edges_def
    set_collectSelectedNodeIds by (rule refl)

lemma missing_targets:
  "(case po_targetNodeIds options of None \<Rightarrow> []
    | Some targets \<Rightarrow> filter (\<lambda>i. node_by_id (canvas_nodes c) i = None) targets) = [] \<longleftrightarrow> targets_exist c options"
  by (auto simp: targets_exist_def node_by_id_None a_node_def filter_empty_conv split: option.splits)

lemma planWorkflow_Inr_iff:
  "planWorkflow c options = Inr p \<longleftrightarrow>
     CanvasSchema_ok c \<and> wellformed_canvas c \<and> targets_exist c options
     \<and> validateWorkflowExecutionConfiguration c (Some (sort_ids (collectSelectedNodeIds c options))) = Inr []
     \<and> (\<exists>stages. plan_stages c (chosen_dependencies c options)
            (sort_ids (collectSelectedNodeIds c options)) [] [] = Inr stages
          \<and> p = chosen_plan c options stages \<and> WorkflowPlan_ok p)"
  (is "?lhs \<longleftrightarrow> ?rhs")
proof (cases "CanvasSchema_ok c")
  case True
  then obtain r where r: "validateWorkflow c = Inr r" using validateWorkflow_Inr by blast
  show ?thesis
    using True validateWorkflow_valid [OF r] missing_targets [of c options]
    by (auto simp: planWorkflow_eq CanvasSchema_parse_def r res_bind_eq_Inr Let_def)
next
  case False
  then show ?thesis by (simp add: planWorkflow_eq CanvasSchema_parse_def)
qed

text \<open>What a successful plan satisfies; the two halves of the specification of \<open>planWorkflow\<close>.\<close>

definition schedules :: "canvas \<Rightarrow> string set \<Rightarrow> plan_stage list \<Rightarrow> bool" where
  "schedules c selected stages =
     (distinct (staged stages) \<and> set (staged stages) = selected
      \<and> (\<forall>k < length stages. let s = stages ! k; rs = map (requirements (canvas_nodes c)) (st_nodeIds s) in
           st_index s = int k \<and> st_nodeIds s \<noteq> []
           \<and> within_limits (canvas_workflowLimits c) rs
           \<and> st_cpuUnits s = sum_list (map cpuUnits rs) \<and> st_memoryMb s = sum_list (map memoryMb rs)
           \<and> (\<forall>e \<in> set (canvas_edges c). \<not> is_Revision (edge_config e)
                \<and> edge_targetNodeId e \<in> set (st_nodeIds s) \<and> edge_sourceNodeId e \<in> selected
                \<longrightarrow> edge_sourceNodeId e \<in> set (staged (take k stages)))))"

lemma planWorkflow_plan:
  assumes "planWorkflow c options = Inr p"
  shows "set (pl_nodeIds p) = requested c options" and "schedules c (requested c options) (pl_stages p)"
    and "WorkflowPlan_ok p" and "distinct (pl_nodeIds p)" and "pl_id p = po_planId options"
proof -
  obtain stages where st: "plan_stages c (chosen_dependencies c options)
      (sort_ids (collectSelectedNodeIds c options)) [] [] = Inr stages"
    and p: "p = chosen_plan c options stages" "WorkflowPlan_ok p" and ok: "CanvasSchema_ok c"
    using assms unfolding planWorkflow_Inr_iff by blast
  have "sound_stages c (chosen_dependencies c options) stages
      \<and> set (staged stages) = set (sort_ids (collectSelectedNodeIds c options)) \<union> set (staged [])"
    by (rule plan_stages_sound [OF st])
      (use ok in \<open>simp_all add: CanvasSchema_ok_def sound_stages_def staged_def\<close>)
  then have sound: "sound_stages c (chosen_dependencies c options) stages"
    and set: "set (staged stages) = requested c options"
    by (simp_all add: set_collectSelectedNodeIds staged_def)
  show "set (pl_nodeIds p) = requested c options" "WorkflowPlan_ok p" "distinct (pl_nodeIds p)"
    "pl_id p = po_planId options"
    using p by (simp_all add: chosen_plan_def set_collectSelectedNodeIds)
  show "schedules c (requested c options) (pl_stages p)"
    using sound set
    by (auto simp: p(1) schedules_def chosen_plan_def sound_stages_def sound_stage_def Let_def
        dependencies_done_chosen min_absorb2 comp_def)
qed

text \<open>
  C14. A plan is a schedule of exactly the requested nodes: every requested node is in exactly one
  stage, every source of a scheduling edge into a node lies in an earlier stage, each stage has a
  node, carries its position and its resource totals, and stays inside the workflow limits (node
  count, CPU, memory, no exclusive key shared by two of its nodes).
\<close>

theorem planWorkflow_sound:
  assumes "planWorkflow c options = Inr p"
  shows "set (pl_nodeIds p) = requested c options \<and> distinct (pl_nodeIds p)
     \<and> schedules c (requested c options) (pl_stages p)"
  using planWorkflow_plan [OF assms] by blast

lemma schema_nodes:
  assumes "CanvasSchema_ok c" and "n \<in> set (canvas_nodes c)"
  shows "EntityId_ok (node_id n)" and "0 < cpuUnits (node_resources n)" and "0 < memoryMb (node_resources n)"
  using assms by (auto simp: CanvasSchema_ok_def list_all_iff CanvasNode_ok_def ResourceRequirements_ok_def)

lemma sum_list_pos: "xs \<noteq> [] \<Longrightarrow> (\<And>x. x \<in> set xs \<Longrightarrow> (0 :: int) < f x) \<Longrightarrow> 0 < sum_list (map f xs)"
proof (induction xs)
  case (Cons x xs)
  then show ?case by (cases xs) (simp_all add: add_pos_pos)
qed simp

lemma chosen_plan_ok:
  assumes ok: "CanvasSchema_ok c" and wf: "wellformed_canvas c" and te: "targets_exist c options"
    and sound: "sound_stages c (chosen_dependencies c options) stages"
    and set: "set (staged stages) = requested c options"
  shows "WorkflowPlan_ok (chosen_plan c options stages) \<longleftrightarrow> EntityId_ok (po_planId options)"
proof -
  note sub = requested_nodes [OF wf te]
  have ids: "EntityId_ok i" if "i \<in> requested c options" for i
    using that sub schema_nodes(1) [OF ok] by auto
  have req: "0 < cpuUnits (requirements (canvas_nodes c) i) \<and> 0 < memoryMb (requirements (canvas_nodes c) i)"
    if "i \<in> requested c options" for i
  proof -
    have "i \<in> node_id ` set (canvas_nodes c)" using that sub by blast
    then obtain n where "node_by_id (canvas_nodes c) i = Some n" "n \<in> set (canvas_nodes c)"
      using node_by_id_wellformed [OF wf] by blast
    then show ?thesis using schema_nodes(2,3) [OF ok] by (simp add: requirements_def)
  qed
  have stage: "PlanStage_ok (stages ! k) \<and> st_index (stages ! k) = int k" if "k < length stages" for k
  proof -
    have s: "sound_stage c (chosen_dependencies c options) (take k stages) (stages ! k)"
      using sound that by (simp add: sound_stages_def)
    have in_req: "i \<in> requested c options" if "i \<in> set (st_nodeIds (stages ! k))" for i
      using that \<open>k < length stages\<close> set by (auto simp: staged_def intro: nth_mem)
    show ?thesis
      using s that in_req ids req
      by (auto simp: PlanStage_ok_def sound_stage_def list_all_iff min_absorb2 Suc_le_eq intro!: sum_list_pos)
  qed
  have "list_all EntityId_ok (pl_nodeIds (chosen_plan c options stages))"
    using ids by (simp add: chosen_plan_def list_all_iff set_collectSelectedNodeIds)
  moreover have "list_all PlanStage_ok stages" using stage by (simp add: list_all_length)
  moreover have "map st_index stages = map int [0..<length stages]"
    using stage by (intro nth_equalityI) simp_all
  moreover have "list_all (list_all EntityId_ok) (obj_values (chosen_dependencies c options))"
  proof -
    have "set ds \<subseteq> requested c options" if "(k, ds) \<in> set (chosen_dependencies c options)" for k ds
    proof -
      have "obj_ok (chosen_dependencies c options)" by (simp add: chosen_dependencies_def plan_dependencies_def)
      then have "obj_get (chosen_dependencies c options) k = Some ds" using that by (simp add: obj_get_eq_Some_iff)
      then show ?thesis by (auto simp: chosen_dependencies_get selected_edges_def split: if_splits)
    qed
    then show ?thesis using ids by (fastforce simp: list_all_iff obj_values_def)
  qed
  moreover have "list_all EntityId_ok (pl_revisionLoopIds (chosen_plan c options stages))"
    using ok by (auto simp: chosen_plan_def list_all_iff CanvasSchema_ok_def RevisionLoop_ok_def)
  moreover have "EntityId_ok (canvas_id c)" using ok by (simp add: CanvasSchema_ok_def)
  ultimately show ?thesis by (simp add: WorkflowPlan_ok_def chosen_plan_def)
qed

lemma planWorkflow_stages_total:
  assumes ok: "CanvasSchema_ok c" and wf: "wellformed_canvas c" and te: "targets_exist c options"
  shows "\<exists>stages. plan_stages c (chosen_dependencies c options)
    (sort_ids (collectSelectedNodeIds c options)) [] [] = Inr stages"
proof (rule plan_stages_total)
  note sub = requested_nodes [OF wf te]
  show "WorkflowLimits_ok (canvas_workflowLimits c)" using ok by (simp add: CanvasSchema_ok_def)
  show "\<exists>n. node_by_id (canvas_nodes c) i = Some n
      \<and> cpuUnits (node_resources n) \<le> maximumCpuUnits (canvas_workflowLimits c)
      \<and> memoryMb (node_resources n) \<le> maximumMemoryMb (canvas_workflowLimits c)"
    if "i \<in> set (sort_ids (collectSelectedNodeIds c options))" for i
  proof -
    have "i \<in> node_id ` set (canvas_nodes c)" using that sub by (auto simp: set_collectSelectedNodeIds)
    then obtain n where "node_by_id (canvas_nodes c) i = Some n" "n \<in> set (canvas_nodes c)"
      using node_by_id_wellformed [OF wf] by blast
    with wellformed_canvasD(6) [OF wf] show ?thesis by blast
  qed
  show "\<exists>ds. obj_get (chosen_dependencies c options) i = Some ds
      \<and> set ds \<subseteq> set (sort_ids (collectSelectedNodeIds c options)) \<union> set []
      \<and> (\<forall>d \<in> set ds. (d, i) \<in> set (selected_arcs (map node_id (canvas_nodes c)) (orderingEdges (canvas_edges c))))"
    if "i \<in> set (sort_ids (collectSelectedNodeIds c options))" for i
    using that sub
    by (auto simp: chosen_dependencies_get set_collectSelectedNodeIds selected_edges_def selected_arcs_def)
  show "wf (set (selected_arcs (map node_id (canvas_nodes c)) (orderingEdges (canvas_edges c))))"
    using wellformed_canvasD(7) [OF wf] by (simp add: finite_acyclic_wf)
qed

lemma planWorkflow_is_ok:
  "is_ok (planWorkflow c options) \<longleftrightarrow>
     CanvasSchema_ok c \<and> wellformed_canvas c \<and> targets_exist c options
     \<and> validateWorkflowExecutionConfiguration c (Some (sort_ids (collectSelectedNodeIds c options))) = Inr []
     \<and> EntityId_ok (po_planId options)"
proof (cases "CanvasSchema_ok c \<and> wellformed_canvas c \<and> targets_exist c options")
  case True
  then obtain stages where st: "plan_stages c (chosen_dependencies c options)
      (sort_ids (collectSelectedNodeIds c options)) [] [] = Inr stages"
    using planWorkflow_stages_total by blast
  have "sound_stages c (chosen_dependencies c options) stages
      \<and> set (staged stages) = set (sort_ids (collectSelectedNodeIds c options)) \<union> set (staged [])"
    by (rule plan_stages_sound [OF st])
      (use True in \<open>simp_all add: CanvasSchema_ok_def sound_stages_def staged_def\<close>)
  then have "WorkflowPlan_ok (chosen_plan c options stages) \<longleftrightarrow> EntityId_ok (po_planId options)"
    using True by (intro chosen_plan_ok) (simp_all add: set_collectSelectedNodeIds staged_def)
  with True st show ?thesis by (auto simp: is_ok_iff planWorkflow_Inr_iff)
next
  case False
  then show ?thesis by (auto simp: is_ok_iff planWorkflow_Inr_iff)
qed

text \<open>
  C18. Planning succeeds exactly on the requests it should accept: a schema-valid and well-formed
  canvas, targets that exist, every selected node and edge configured, and a valid plan id. In
  particular the errors \<open>No nodes can be scheduled\<close> and \<open>Ready nodes cannot fit resource limits\<close>
  inside the packing loop are unreachable, and the loop always ends.
\<close>

theorem planWorkflow_succeeds_iff:
  "is_ok (planWorkflow c options) \<longleftrightarrow>
     CanvasSchema_ok c \<and> wellformed_canvas c \<and> targets_exist c options
     \<and> validateWorkflowExecutionConfiguration c (Some (sort_ids (collectSelectedNodeIds c options))) = Inr []
     \<and> EntityId_ok (po_planId options)"
  by (rule planWorkflow_is_ok)

end
