(* ===== verification/Run_Scope.thy ===== *)
theory Run_Scope
  imports Planning
begin

text \<open>
  \<open>packages/core/src/workflow-runtime/planning.ts\<close>: resolving a run scope (one node, a selection,
  a group or the whole workflow) to plan targets, the closure that adds the nodes which
  authoritative edges and review gates need, and \<open>planWorkflowScope\<close>.
\<close>

datatype run_scope =
    NodeScope string "bool option"
  | SelectionScope "string list" "bool option"
  | GroupScope string "bool option"
  | WorkflowScope

record scoped_plan = workflow_plan +
  sp_scope :: run_scope
  sp_executableEdgeIds :: "entity_id list"

section \<open>Groups\<close>

definition frame_data :: "canvas_node list \<Rightarrow> string \<Rightarrow> group_frame_data option" where
  "frame_data nodes i =
     (case find (\<lambda>n. node_id n = i \<and> is_GroupFrameNode (node_data n)) nodes of
        None \<Rightarrow> None
      | Some n \<Rightarrow> (case node_data n of GroupFrameNode d \<Rightarrow> Some d | _ \<Rightarrow> None))"

definition frame_children :: "canvas_node list \<Rightarrow> string \<Rightarrow> string list" where
  "frame_children nodes i = (case frame_data nodes i of None \<Rightarrow> [] | Some d \<Rightarrow> gf_childNodeIds d)"

lemma frame_children_known: "frame_children nodes i \<noteq> [] \<Longrightarrow> i \<in> node_id ` set nodes"
  by (auto simp: frame_children_def frame_data_def find_Some_iff split: option.splits)

text \<open>
  The recursive \<open>visit\<close> of \<open>groupNodeIds\<close>, with its call stack made explicit: the nodes still to be
  visited, innermost call first. The \<open>visiting\<close> set of the code is contained in \<open>result\<close> at every
  call, so \<open>result\<close> alone decides whether a visit returns at once.
\<close>

function visit :: "canvas_node list \<Rightarrow> string list \<Rightarrow> string list \<Rightarrow> string list" where
  "visit nodes result [] = result"
| "visit nodes result (nodeId # rest) =
     (if nodeId \<in> set result then visit nodes result rest
      else visit nodes (result @ [nodeId]) (frame_children nodes nodeId @ rest))"
  by pat_completeness auto

termination
proof (relation "measures [\<lambda>(nodes, result, stack). card (node_id ` set nodes - set result),
    \<lambda>(nodes, result, stack). length stack]", goal_cases)
  case 1
  show ?case by simp
next
  case (2 nodes result nodeId rest)
  then show ?case by simp
next
  case (3 nodes result nodeId rest)
  show ?case
  proof (cases "nodeId \<in> node_id ` set nodes")
    case True
    then have "node_id ` set nodes - set (result @ [nodeId]) \<subset> node_id ` set nodes - set result"
      using 3 by auto
    then have "card (node_id ` set nodes - set (result @ [nodeId])) < card (node_id ` set nodes - set result)"
      by (rule psubset_card_mono [rotated]) simp
    then show ?thesis by simp
  next
    case False
    then have "frame_children nodes nodeId = []" using frame_children_known by blast
    moreover have "node_id ` set nodes - set (result @ [nodeId]) = node_id ` set nodes - set result"
      using False by auto
    ultimately show ?thesis by simp
  qed
qed

definition group_initial :: "canvas \<Rightarrow> string \<Rightarrow> string list option" where
  "group_initial c groupId =
     (case find (\<lambda>g. group_id g = groupId) (canvas_groups c) of
        Some g \<Rightarrow> Some (group_nodeIds g)
      | None \<Rightarrow> map_option gf_childNodeIds (frame_data (canvas_nodes c) groupId))"

definition groupNodeIds :: "canvas \<Rightarrow> string \<Rightarrow> string list res" where
  "groupNodeIds c groupId =
     (case group_initial c groupId of
        Some initial \<Rightarrow> return (uniqueSorted (visit (canvas_nodes c) [] initial))
      | None \<Rightarrow> throw (WorkflowValidationError
          [\<lparr>issue_code = INVALID_GROUP, issue_message = ''Run group does not exist'', issue_entityIds = [groupId]\<rparr>]))"

section \<open>Scopes\<close>

definition unavailableScope :: "string \<Rightarrow> string list \<Rightarrow> wf_error" where
  "unavailableScope message ids =
     WorkflowValidationError
       [\<lparr>issue_code = NODE_UNAVAILABLE, issue_message = message, issue_entityIds = uniqueSorted ids\<rparr>]"

definition is_eligible :: "string list option \<Rightarrow> string \<Rightarrow> bool" where
  "is_eligible eligible i = (case eligible of None \<Rightarrow> True | Some ids \<Rightarrow> i \<in> set ids)"

definition missing_eligible :: "canvas \<Rightarrow> string list option \<Rightarrow> string list" where
  "missing_eligible c eligible =
     (case eligible of None \<Rightarrow> []
      | Some ids \<Rightarrow> filter (\<lambda>i. \<not> list_ex (\<lambda>n. node_id n = i) (canvas_nodes c)) (new_Set ids))"

definition upstream_default :: "bool option \<Rightarrow> bool option" where
  "upstream_default includeUpstream = Some (case includeUpstream of None \<Rightarrow> True | Some b \<Rightarrow> b)"

definition scopeTargets ::
  "canvas \<Rightarrow> run_scope \<Rightarrow> string list option \<Rightarrow> (string list option \<times> bool option) res" where
  "scopeTargets c scope eligible =
     (if missing_eligible c eligible \<noteq> []
      then throw (WorkflowValidationError
             [\<lparr>issue_code = MISSING_NODE, issue_message = ''Host capability target does not exist'',
               issue_entityIds = uniqueSorted (missing_eligible c eligible)\<rparr>])
      else case scope of
        WorkflowScope \<Rightarrow>
          (case eligible of
             None \<Rightarrow> return (None, None)
           | Some ids \<Rightarrow>
               if ids = [] then throw (unavailableScope ''Workflow does not contain runnable nodes'' [])
               else return (Some (uniqueSorted (new_Set ids)), Some True))
      | NodeScope nodeId includeUpstream \<Rightarrow>
          (if \<not> is_eligible eligible nodeId
           then throw (unavailableScope ''Selected node is not runnable in this application'' [nodeId])
           else return (Some [nodeId], upstream_default includeUpstream))
      | SelectionScope nodeIds includeUpstream \<Rightarrow>
          (if nodeIds = []
           then throw (WorkflowValidationError
                  [\<lparr>issue_code = MISSING_NODE, issue_message = ''Run selection cannot be empty'', issue_entityIds = []\<rparr>])
           else
             let unavailable = filter (\<lambda>i. \<not> is_eligible eligible i) nodeIds in
             if unavailable \<noteq> []
             then throw (unavailableScope
                    ''Run selection contains nodes that are not runnable in this application'' unavailable)
             else return (Some (uniqueSorted nodeIds), upstream_default includeUpstream))
      | GroupScope groupId includeUpstream \<Rightarrow>
          res_bind (groupNodeIds c groupId) (\<lambda>members.
            let nodeIds = filter (is_eligible eligible) members in
            if nodeIds = []
            then throw (WorkflowValidationError
                   [\<lparr>issue_code = INVALID_GROUP, issue_message = ''Run group does not contain executable nodes'',
                     issue_entityIds = [groupId]\<rparr>])
            else return (Some nodeIds, upstream_default includeUpstream)))"

section \<open>The mandatory closure\<close>

fun isAuthoritativeIncomingEdge :: "edge_config \<Rightarrow> bool" where
  "isAuthoritativeIncomingEdge Dependency = True"
| "isAuthoritativeIncomingEdge (Execute _) = True"
| "isAuthoritativeIncomingEdge (Output c) = out_required c"
| "isAuthoritativeIncomingEdge (Review c) = rev_requireApproval c"
| "isAuthoritativeIncomingEdge _ = False"

text \<open>What a selected target of an edge includes, and what a selected review gate includes.\<close>

definition edge_includes :: "canvas_edge \<Rightarrow> string list" where
  "edge_includes e =
     (if isAuthoritativeIncomingEdge (edge_config e) then [edge_sourceNodeId e] else [])
     @ (case edge_config e of
          Execute c \<Rightarrow>
            (if exe_approval c = ApproveReviewGate
             then (case exe_approvalGateNodeId c of None \<Rightarrow> [] | Some g \<Rightarrow> [g]) else [])
        | _ \<Rightarrow> [])"

definition gate_includes :: "canvas \<Rightarrow> string \<Rightarrow> string list" where
  "gate_includes c nodeId =
     (case find (\<lambda>n. node_id n = nodeId) (canvas_nodes c) of
        None \<Rightarrow> []
      | Some n \<Rightarrow> (case node_data n of
          ReviewGateNode g \<Rightarrow>
            (case rg_reviewerAgentId g of None \<Rightarrow> [] | Some r \<Rightarrow> [r])
            @ concat (map (\<lambda>checkId. map node_id (check_producers (canvas_nodes c) checkId)) (rg_requiredCheckIds g))
            @ concat (map (gate_source_ids (node_id n)) (canvas_edges c))
        | _ \<Rightarrow> []))"

definition include_edge :: "canvas_edge \<Rightarrow> string list \<Rightarrow> string list" where
  "include_edge e selected =
     (if edge_targetNodeId e \<in> set selected then fold set_add (edge_includes e) selected else selected)"

definition expand_pass :: "canvas \<Rightarrow> string list \<Rightarrow> string list" where
  "expand_pass c selected =
     (let afterEdges = fold include_edge (canvas_edges c) selected in
      fold (\<lambda>nodeId. fold set_add (gate_includes c nodeId)) afterEdges afterEdges)"

definition include_universe :: "canvas \<Rightarrow> string set" where
  "include_universe c =
     (\<Union>e \<in> set (canvas_edges c). set (edge_includes e))
     \<union> (\<Union>n \<in> set (canvas_nodes c). set (gate_includes c (node_id n)))"

lemma finite_include_universe: "finite (include_universe c)"
  by (simp add: include_universe_def)

lemma gate_includes_universe: "set (gate_includes c i) \<subseteq> include_universe c"
proof (cases "find (\<lambda>n. node_id n = i) (canvas_nodes c)")
  case None
  then show ?thesis by (simp add: gate_includes_def)
next
  case (Some n)
  then have "n \<in> set (canvas_nodes c)" "node_id n = i" by (auto simp: find_Some_iff)
  then show ?thesis by (auto simp: include_universe_def)
qed

lemma fold_include_edge:
  "set selected \<subseteq> set (fold include_edge es selected)
   \<and> set (fold include_edge es selected) \<subseteq> set selected \<union> (\<Union>e \<in> set es. set (edge_includes e))"
proof (induction es arbitrary: selected)
  case Nil
  then show ?case by simp
next
  case (Cons e es)
  have "set selected \<subseteq> set (include_edge e selected)"
    "set (include_edge e selected) \<subseteq> set selected \<union> set (edge_includes e)"
    by (auto simp: include_edge_def set_fold_set_add)
  with Cons [of "include_edge e selected"] show ?case by auto
qed

lemma set_fold_gates:
  "set (fold (\<lambda>i. fold set_add (f i)) is selected) = set selected \<union> (\<Union>i \<in> set is. set (f i))"
  by (induction "is" arbitrary: selected) (auto simp: set_fold_set_add)

lemma expand_pass_bounds:
  "set selected \<subseteq> set (expand_pass c selected)"
  "set (expand_pass c selected) \<subseteq> set selected \<union> include_universe c"
  using fold_include_edge [of selected "canvas_edges c"] gate_includes_universe
  by (auto simp: expand_pass_def Let_def set_fold_gates include_universe_def)

function expand_selection :: "canvas \<Rightarrow> string list \<Rightarrow> string list" where
  "expand_selection c selected =
     (let selected' = expand_pass c selected in
      if set selected' \<subseteq> set selected then selected' else expand_selection c selected')"
  by pat_completeness auto

termination
proof (relation "measure (\<lambda>(c, selected). card (include_universe c - set selected))", goal_cases)
  case 1
  show ?case by simp
next
  case (2 c selected selected')
  then show ?case
    using expand_pass_bounds [where selected = selected and c = c] finite_include_universe [of c] by (auto intro!: grow_measure)
qed

declare expand_selection.simps [simp del]

definition expandMandatoryPlanNodes :: "canvas \<Rightarrow> string list \<Rightarrow> string list" where
  "expandMandatoryPlanNodes c initiallySelected = uniqueSorted (expand_selection c (new_Set initiallySelected))"

section \<open>Planning a scope\<close>

text \<open>Context edges carry data only and revision edges belong to loops: neither orders a plan.\<close>

definition planning_canvas :: "canvas \<Rightarrow> canvas" where
  "planning_canvas c =
     c\<lparr> canvas_edges := filter (\<lambda>e. \<not> is_Context (edge_config e) \<and> \<not> is_Revision (edge_config e)) (canvas_edges c),
        canvas_revisionLoops := [] \<rparr>"

definition scoped_of :: "canvas \<Rightarrow> run_scope \<Rightarrow> workflow_plan \<Rightarrow> scoped_plan" where
  "scoped_of c scope base =
     (let selected = set (pl_nodeIds base) in
      \<lparr> pl_id = pl_id base, pl_canvasId = pl_canvasId base, pl_nodeIds = pl_nodeIds base,
        pl_stages = pl_stages base, pl_dependencies = pl_dependencies base,
        pl_revisionLoopIds =
          sort_ids (map loop_id (filter (\<lambda>l. loop_implementationNodeId l \<in> selected
            \<and> loop_reviewNodeId l \<in> selected) (canvas_revisionLoops c))),
        sp_scope = scope,
        sp_executableEdgeIds =
          sort_ids (map edge_id (filter (\<lambda>e. edge_targetNodeId e \<in> selected
            \<and> (edge_sourceNodeId e \<in> selected \<or> is_Context (edge_config e))) (canvas_edges c))) \<rparr>)"

definition planWorkflowScope ::
  "canvas \<Rightarrow> string \<Rightarrow> run_scope \<Rightarrow> string list option \<Rightarrow> scoped_plan res" where
  "planWorkflowScope untrustedCanvas planId scope eligible =
     res_bind (CanvasSchema_parse untrustedCanvas) (\<lambda>c.
     res_bind (validateWorkflow c) (\<lambda>validation.
     if \<not> vr_valid validation then throw (WorkflowValidationError (vr_issues validation))
     else res_bind (scopeTargets c scope eligible) (\<lambda>(targetNodeIds, includeUpstream).
       res_bind (planWorkflow (planning_canvas c)
         \<lparr>po_planId = planId, po_targetNodeIds = targetNodeIds, po_includeUpstream = includeUpstream\<rparr>) (\<lambda>initial.
       let mandatoryNodeIds = expandMandatoryPlanNodes c (pl_nodeIds initial) in
       res_bind (if mandatoryNodeIds = pl_nodeIds initial then return initial
                 else planWorkflow (planning_canvas c)
                   \<lparr>po_planId = planId, po_targetNodeIds = Some mandatoryNodeIds, po_includeUpstream = Some False\<rparr>)
         (\<lambda>base. return (scoped_of c scope base))))))"

section \<open>Group membership is reachability\<close>

definition frame_child :: "canvas_node list \<Rightarrow> (string \<times> string) set" where
  "frame_child nodes = {(i, j). j \<in> set (frame_children nodes i)}"

definition child_closed :: "canvas_node list \<Rightarrow> string set \<Rightarrow> bool" where
  "child_closed nodes S = (\<forall>i \<in> S. set (frame_children nodes i) \<subseteq> S)"

lemma visit_spec:
  assumes "\<And>i. i \<in> set result \<Longrightarrow> set (frame_children nodes i) \<subseteq> set result \<union> set stack"
  shows "set result \<union> set stack \<subseteq> set (visit nodes result stack) \<and> child_closed nodes (set (visit nodes result stack))
    \<and> (\<forall>v \<in> set (visit nodes result stack). v \<in> set result \<or> (\<exists>i \<in> set stack. (i, v) \<in> (frame_child nodes)\<^sup>*))"
  using assms
proof (induction nodes result stack rule: visit.induct)
  case (1 nodes result)
  then show ?case by (auto simp: child_closed_def)
next
  case (2 nodes result nodeId rest)
  show ?case
  proof (cases "nodeId \<in> set result")
    case True
    have "\<And>i. i \<in> set result \<Longrightarrow> set (frame_children nodes i) \<subseteq> set result \<union> set rest" using 2(3) True by auto
    from 2(1) [OF True this] True show ?thesis by auto
  next
    case False
    define stack where "stack = frame_children nodes nodeId @ rest"
    have "\<And>i. i \<in> set (result @ [nodeId]) \<Longrightarrow>
        set (frame_children nodes i) \<subseteq> set (result @ [nodeId]) \<union> set stack"
      using 2(3) by (auto simp: stack_def)
    from 2(2) [OF False this [unfolded stack_def]]
    have IH: "set (result @ [nodeId]) \<union> set stack \<subseteq> set (visit nodes (result @ [nodeId]) stack)
        \<and> child_closed nodes (set (visit nodes (result @ [nodeId]) stack))
        \<and> (\<forall>v \<in> set (visit nodes (result @ [nodeId]) stack). v \<in> set (result @ [nodeId])
             \<or> (\<exists>i \<in> set stack. (i, v) \<in> (frame_child nodes)\<^sup>*))" by (simp add: stack_def)
    have child: "(nodeId, v) \<in> (frame_child nodes)\<^sup>*"
      if "i \<in> set (frame_children nodes nodeId)" "(i, v) \<in> (frame_child nodes)\<^sup>*" for i v
      using that by (auto simp: frame_child_def intro: converse_rtrancl_into_rtrancl)
    show ?thesis
    proof (intro conjI ballI)
      show "set result \<union> set (nodeId # rest) \<subseteq> set (visit nodes result (nodeId # rest))"
        and "child_closed nodes (set (visit nodes result (nodeId # rest)))"
        using IH False by (auto simp: stack_def)
      fix v assume "v \<in> set (visit nodes result (nodeId # rest))"
      then have "v \<in> set (result @ [nodeId]) \<or> (\<exists>i \<in> set stack. (i, v) \<in> (frame_child nodes)\<^sup>*)"
        using IH False by (simp add: stack_def)
      then show "v \<in> set result \<or> (\<exists>i \<in> set (nodeId # rest). (i, v) \<in> (frame_child nodes)\<^sup>*)"
        using child by (auto simp: stack_def)
    qed
  qed
qed

lemma visit_reach: "set (visit nodes [] stack) = {v. \<exists>i \<in> set stack. (i, v) \<in> (frame_child nodes)\<^sup>*}"
proof -
  have spec: "set stack \<subseteq> set (visit nodes [] stack)" "child_closed nodes (set (visit nodes [] stack))"
    "\<forall>v \<in> set (visit nodes [] stack). \<exists>i \<in> set stack. (i, v) \<in> (frame_child nodes)\<^sup>*"
    using visit_spec [of "[]" nodes stack] by auto
  have "v \<in> set (visit nodes [] stack)" if "(i, v) \<in> (frame_child nodes)\<^sup>*" "i \<in> set stack" for i v
    using that
  proof (induction rule: rtrancl_induct)
    case base
    then show ?case using spec(1) by blast
  next
    case (step y z)
    then show ?case using spec(2) by (auto simp: frame_child_def child_closed_def)
  qed
  with spec(3) show ?thesis by blast
qed

text \<open>
  Running a group runs the members of the group, or the children of the frame of that name,
  and everything nested in frames below them, however deep and even when frames contain each other
  in a circle: the result is exactly the set of nodes reachable through frame ownership, each once
  and in collation order. A name that is neither a group nor a frame is the only failure.
\<close>

theorem groupNodeIds_reachable:
  "case group_initial c groupId of
     None \<Rightarrow> \<not> is_ok (groupNodeIds c groupId)
   | Some initial \<Rightarrow> (\<exists>members. groupNodeIds c groupId = Inr members
       \<and> set members = {v. \<exists>i \<in> set initial. (i, v) \<in> (frame_child (canvas_nodes c))\<^sup>*}
       \<and> distinct members \<and> sorted (map Collated members))"
  using sorted_sort_ids
  by (auto simp: groupNodeIds_def visit_reach uniqueSorted_def split: option.splits)

section \<open>The mandatory closure is the least closed selection\<close>

definition mandatory_closed :: "canvas \<Rightarrow> string set \<Rightarrow> bool" where
  "mandatory_closed c S =
     ((\<forall>e \<in> set (canvas_edges c). edge_targetNodeId e \<in> S \<longrightarrow> set (edge_includes e) \<subseteq> S)
      \<and> (\<forall>i \<in> S. set (gate_includes c i) \<subseteq> S))"

lemma fold_include_edge_in:
  "e \<in> set es \<Longrightarrow> edge_targetNodeId e \<in> set selected
   \<Longrightarrow> set (edge_includes e) \<subseteq> set (fold include_edge es selected)"
proof (induction es arbitrary: selected)
  case Nil
  then show ?case by simp
next
  case (Cons x es)
  show ?case
  proof (cases "e = x")
    case True
    then have "set (edge_includes e) \<subseteq> set (include_edge x selected)"
      using Cons.prems by (auto simp: include_edge_def set_fold_set_add)
    then show ?thesis using fold_include_edge [of "include_edge x selected" es] by auto
  next
    case False
    moreover have "edge_targetNodeId e \<in> set (include_edge x selected)"
      using Cons.prems by (auto simp: include_edge_def set_fold_set_add)
    ultimately show ?thesis using Cons by simp
  qed
qed

lemma fold_include_edge_least:
  assumes "mandatory_closed c S" and "set selected \<subseteq> S" and "set es \<subseteq> set (canvas_edges c)"
  shows "set (fold include_edge es selected) \<subseteq> S"
  using assms
proof (induction es arbitrary: selected)
  case Nil
  then show ?case by simp
next
  case (Cons e es)
  then have "set (include_edge e selected) \<subseteq> S"
    by (auto simp: include_edge_def set_fold_set_add mandatory_closed_def)
  with Cons show ?case by simp
qed

lemma expand_pass_closed:
  assumes "set (expand_pass c selected) \<subseteq> set selected"
  shows "mandatory_closed c (set selected)"
proof -
  define mid where "mid = fold include_edge (canvas_edges c) selected"
  have mid: "set mid = set selected" and gates: "(\<Union>i \<in> set mid. set (gate_includes c i)) \<subseteq> set selected"
    using assms fold_include_edge [of selected "canvas_edges c"]
    by (auto simp: expand_pass_def Let_def set_fold_gates simp flip: mid_def)
  have "set (edge_includes e) \<subseteq> set selected"
    if "e \<in> set (canvas_edges c)" "edge_targetNodeId e \<in> set selected" for e
    using fold_include_edge_in [OF that] mid by (simp add: mid_def)
  with gates mid show ?thesis by (auto simp: mandatory_closed_def)
qed

lemma expand_pass_least:
  assumes "mandatory_closed c S" and "set selected \<subseteq> S"
  shows "set (expand_pass c selected) \<subseteq> S"
  using fold_include_edge_least [OF assms subset_refl] assms(1)
  by (auto simp: expand_pass_def Let_def set_fold_gates mandatory_closed_def)

lemma expand_selection_spec:
  "set selected \<subseteq> set (expand_selection c selected)
   \<and> mandatory_closed c (set (expand_selection c selected))
   \<and> (\<forall>S. mandatory_closed c S \<and> set selected \<subseteq> S \<longrightarrow> set (expand_selection c selected) \<subseteq> S)"
proof (induction c selected rule: expand_selection.induct)
  case (1 c selected)
  define selected' where "selected' = expand_pass c selected"
  have grow: "set selected \<subseteq> set selected'" unfolding selected'_def by (rule expand_pass_bounds)
  show ?case
  proof (cases "set selected' \<subseteq> set selected")
    case True
    then have "expand_selection c selected = selected'" "set selected' = set selected"
      using grow by (auto simp: expand_selection.simps [of c selected] Let_def simp flip: selected'_def)
    moreover have "mandatory_closed c (set selected)"
      using True by (intro expand_pass_closed) (simp add: selected'_def)
    ultimately show ?thesis by simp
  next
    case False
    then have "expand_selection c selected = expand_selection c selected'"
      by (simp add: expand_selection.simps [of c selected] Let_def flip: selected'_def)
    then show ?thesis
      using 1 [OF selected'_def False] grow expand_pass_least [of c _ selected]
      by (auto simp: selected'_def)
  qed
qed

lemma expandMandatoryPlanNodes_least:
  "set ids \<subseteq> set (expandMandatoryPlanNodes c ids)"
  "mandatory_closed c (set (expandMandatoryPlanNodes c ids))"
  "mandatory_closed c S \<Longrightarrow> set ids \<subseteq> S \<Longrightarrow> set (expandMandatoryPlanNodes c ids) \<subseteq> S"
  using expand_selection_spec [of "new_Set ids" c] by (simp_all add: expandMandatoryPlanNodes_def)

section \<open>The planning canvas of a valid canvas is valid\<close>

lemma planning_canvas_simps [simp]:
  "canvas_nodes (planning_canvas c) = canvas_nodes c"
  "canvas_groups (planning_canvas c) = canvas_groups c"
  "canvas_workflowLimits (planning_canvas c) = canvas_workflowLimits c"
  "canvas_revisionLoops (planning_canvas c) = []"
  "canvas_id (planning_canvas c) = canvas_id c"
  "canvas_edges (planning_canvas c) =
     filter (\<lambda>e. \<not> is_Context (edge_config e) \<and> \<not> is_Revision (edge_config e)) (canvas_edges c)"
  by (simp_all add: planning_canvas_def)

lemma planning_canvas_schema: "CanvasSchema_ok c \<Longrightarrow> CanvasSchema_ok (planning_canvas c)"
  by (auto simp: CanvasSchema_ok_def list_all_iff planning_canvas_def)

lemma a_node_planning [simp]: "a_node (planning_canvas c) = a_node c"
  by (simp add: fun_eq_iff a_node_def)

lemma wellformed_config_planning [simp]:
  "wellformed_config (planning_canvas c) s t k = wellformed_config c s t k"
  by (cases k) (simp_all split: reviewer.splits option.splits)

lemma gate_source_ids_data: "is_Context (edge_config e) \<or> is_Revision (edge_config e) \<Longrightarrow> gate_source_ids i e = []"
  by (cases "edge_config e") (simp_all add: gate_source_ids_def)

lemma set_reviewedSourceIds:
  "set (reviewedSourceIds c i) =
     (\<Union>e \<in> set (canvas_edges c). set (gate_source_ids i e))
     \<union> loop_implementationNodeId ` {l \<in> set (canvas_revisionLoops c). loop_reviewNodeId l = i}"
  by (simp add: reviewedSourceIds_def)

text \<open>A loop's implementation node is already a source of its gate through the loop's review edge.\<close>

lemma reviewedSourceIds_planning:
  assumes "wellformed_canvas c"
  shows "set (reviewedSourceIds (planning_canvas c) i) = set (reviewedSourceIds c i)"
proof -
  have loop: "loop_implementationNodeId l \<in> (\<Union>e \<in> set (canvas_edges c). set (gate_source_ids (loop_reviewNodeId l) e))"
    if "l \<in> set (canvas_revisionLoops c)" for l
  proof -
    from wellformed_canvasD(5) [OF assms that] obtain e k where "e \<in> set (canvas_edges c)" "edge_config e = Review k"
      "edge_sourceNodeId e = loop_implementationNodeId l" "edge_targetNodeId e = loop_reviewNodeId l"
      unfolding wellformed_loop_def by blast
    then show ?thesis by (force simp: gate_source_ids_def)
  qed
  have "(\<Union>e \<in> set (canvas_edges (planning_canvas c)). set (gate_source_ids i e))
      = (\<Union>e \<in> set (canvas_edges c). set (gate_source_ids i e))"
    using gate_source_ids_data by fastforce
  then show ?thesis using loop unfolding set_reviewedSourceIds by auto
qed

lemma feeds_producer_planning:
  "feeds_producer (canvas_edges (planning_canvas c)) s p = feeds_producer (canvas_edges c) s p"
proof -
  have "(case k of Output o' \<Rightarrow> out_required o' | _ \<Rightarrow> False) \<Longrightarrow> \<not> is_Context k \<and> \<not> is_Revision k" for k
    by (cases k) simp_all
  then show ?thesis by (auto simp: feeds_producer_def list_ex_iff)
qed

lemma wellformed_gate_planning:
  assumes "wellformed_canvas c" and "wellformed_gate c i g"
  shows "wellformed_gate (planning_canvas c) i g"
proof -
  have review: "is_Review k \<Longrightarrow> \<not> is_Context k \<and> \<not> is_Revision k" for k by (cases k) simp_all
  have "(\<exists>e \<in> set (canvas_edges (planning_canvas c)). is_Review (edge_config e) \<and> edge_targetNodeId e = i)
      \<longleftrightarrow> (\<exists>e \<in> set (canvas_edges c). is_Review (edge_config e) \<and> edge_targetNodeId e = i)"
    using review by auto
  then show ?thesis
    using assms(2)
    unfolding wellformed_gate_def reviewedSourceIds_planning [OF assms(1)] feeds_producer_planning a_node_planning
      planning_canvas_simps(1)
    by (simp only:)
qed

lemma wellformed_planning:
  assumes "wellformed_canvas c"
  shows "wellformed_canvas (planning_canvas c)"
proof -
  have gates: "\<forall>n g. n \<in> set (canvas_nodes c) \<and> node_data n = ReviewGateNode g
      \<longrightarrow> wellformed_gate (planning_canvas c) (node_id n) g"
    using wellformed_gate_planning [OF assms] wellformed_canvasD(4) [OF assms] by blast
  have ids: "distinct (canvas_ids (planning_canvas c))" "set (canvas_ids (planning_canvas c)) \<subseteq> set (canvas_ids c)"
    using assms by (auto simp: wellformed_canvas_def canvas_ids_def distinct_map_filter)
  have "set (selected_arcs (map node_id (canvas_nodes c)) (orderingEdges (canvas_edges (planning_canvas c))))
      \<subseteq> set (selected_arcs (map node_id (canvas_nodes c)) (orderingEdges (canvas_edges c)))"
    by (auto simp: selected_arcs_def orderingEdges_def)
  then have arcs: "acyclic (set (selected_arcs (map node_id (canvas_nodes c))
      (orderingEdges (canvas_edges (planning_canvas c)))))"
    using wellformed_canvasD(7) [OF assms] by (rule acyclic_subset [rotated])
  have revision: "is_Revision k \<longleftrightarrow> (\<exists>l. k = Revision l)" for k by (cases k) simp_all
  show ?thesis
    using assms ids gates arcs
    unfolding wellformed_canvas_def wellformed_edge_def a_node_planning wellformed_config_planning dedicated_target_def
    by (simp only: planning_canvas_simps) (auto simp: revision)
qed

section \<open>Specification of a scoped plan\<close>

definition scope_options :: "string \<Rightarrow> string list option \<times> bool option \<Rightarrow> plan_options" where
  "scope_options planId t = \<lparr>po_planId = planId, po_targetNodeIds = fst t, po_includeUpstream = snd t\<rparr>"

definition mandatory_options :: "canvas \<Rightarrow> string \<Rightarrow> workflow_plan \<Rightarrow> plan_options" where
  "mandatory_options c planId initial =
     \<lparr>po_planId = planId, po_targetNodeIds = Some (expandMandatoryPlanNodes c (pl_nodeIds initial)),
      po_includeUpstream = Some False\<rparr>"

lemma planWorkflowScope_Inr_iff:
  "planWorkflowScope c planId scope eligible = Inr p \<longleftrightarrow>
     CanvasSchema_ok c \<and> wellformed_canvas c
     \<and> (\<exists>t initial base. scopeTargets c scope eligible = Inr t
          \<and> planWorkflow (planning_canvas c) (scope_options planId t) = Inr initial
          \<and> (if expandMandatoryPlanNodes c (pl_nodeIds initial) = pl_nodeIds initial then return initial
             else planWorkflow (planning_canvas c) (mandatory_options c planId initial)) = Inr base
          \<and> p = scoped_of c scope base)"
proof (cases "CanvasSchema_ok c")
  case True
  then obtain r where r: "validateWorkflow c = Inr r" using validateWorkflow_Inr by blast
  show ?thesis
    using True validateWorkflow_valid(3) [OF r]
    unfolding planWorkflowScope_def CanvasSchema_parse_def Let_def scope_options_def mandatory_options_def
    by (simp add: r res_bind_eq_Inr case_prod_unfold eq_commute [of p])
next
  case False
  then show ?thesis by (simp add: planWorkflowScope_def CanvasSchema_parse_def)
qed

text \<open>Both ways to the base plan end in a plan for the mandatory nodes.\<close>

lemma base_plan:
  assumes i: "planWorkflow (planning_canvas c) (scope_options planId t) = Inr initial"
    and b: "(if expandMandatoryPlanNodes c (pl_nodeIds initial) = pl_nodeIds initial then return initial
        else planWorkflow (planning_canvas c) (mandatory_options c planId initial)) = Inr base"
  shows "\<exists>o'. planWorkflow (planning_canvas c) o' = Inr base \<and> po_planId o' = planId
    \<and> requested (planning_canvas c) o' = set (expandMandatoryPlanNodes c (pl_nodeIds initial))"
proof (cases "expandMandatoryPlanNodes c (pl_nodeIds initial) = pl_nodeIds initial")
  case True
  then have "base = initial" using b by simp
  then show ?thesis using i planWorkflow_plan(1) [OF i] True
    by (intro exI [of _ "scope_options planId t"]) (simp add: scope_options_def)
next
  case False
  then have b: "planWorkflow (planning_canvas c) (mandatory_options c planId initial) = Inr base" using b by simp
  then show ?thesis
    by (intro exI [of _ "mandatory_options c planId initial"]) (simp add: mandatory_options_def requested_def)
qed

lemma planWorkflowScope_facts:
  assumes "planWorkflowScope c planId scope eligible = Inr p"
  shows "\<exists>t. scopeTargets c scope eligible = Inr t
      \<and> set (pl_nodeIds p) = set (expandMandatoryPlanNodes c
          (sort_ids (collectSelectedNodeIds (planning_canvas c) (scope_options planId t))))"
    and "CanvasSchema_ok c" and "wellformed_canvas c"
    and "set (pl_nodeIds p) \<subseteq> node_id ` set (canvas_nodes c)"
    and "schedules (planning_canvas c) (set (pl_nodeIds p)) (pl_stages p)"
    and "WorkflowPlan_ok p" and "distinct (pl_nodeIds p)" and "pl_id p = planId" and "sp_scope p = scope"
    and "\<exists>base. p = scoped_of c scope base \<and> pl_nodeIds base = pl_nodeIds p"
proof -
  obtain t initial base where ok: "CanvasSchema_ok c" and wf: "wellformed_canvas c"
    and t: "scopeTargets c scope eligible = Inr t"
    and i: "planWorkflow (planning_canvas c) (scope_options planId t) = Inr initial"
    and b: "(if expandMandatoryPlanNodes c (pl_nodeIds initial) = pl_nodeIds initial then return initial
        else planWorkflow (planning_canvas c) (mandatory_options c planId initial)) = Inr base"
    and p: "p = scoped_of c scope base"
    using assms unfolding planWorkflowScope_Inr_iff by blast
  have fields: "pl_nodeIds p = pl_nodeIds base" "pl_stages p = pl_stages base" "pl_id p = pl_id base" "sp_scope p = scope"
    by (simp_all add: p scoped_of_def Let_def)
  obtain o' where o': "planWorkflow (planning_canvas c) o' = Inr base" "po_planId o' = planId"
    "requested (planning_canvas c) o' = set (expandMandatoryPlanNodes c (pl_nodeIds initial))"
    using base_plan [OF i b] by blast
  note pb = planWorkflow_plan [OF o'(1)]
  have te: "targets_exist (planning_canvas c) o'" using o'(1) by (simp add: planWorkflow_Inr_iff)
  have init_ids: "pl_nodeIds initial = sort_ids (collectSelectedNodeIds (planning_canvas c) (scope_options planId t))"
    using i by (auto simp: planWorkflow_Inr_iff chosen_plan_def)
  show "CanvasSchema_ok c" "wellformed_canvas c" by (rule ok, rule wf)
  show "\<exists>t. scopeTargets c scope eligible = Inr t
      \<and> set (pl_nodeIds p) = set (expandMandatoryPlanNodes c
          (sort_ids (collectSelectedNodeIds (planning_canvas c) (scope_options planId t))))"
    using t pb(1) o'(3) by (simp add: fields init_ids)
  show "set (pl_nodeIds p) \<subseteq> node_id ` set (canvas_nodes c)"
    using requested_nodes [OF wellformed_planning [OF wf] te] pb(1) by (simp add: fields)
  show "schedules (planning_canvas c) (set (pl_nodeIds p)) (pl_stages p)" using pb(1,2) by (simp add: fields)
  show "WorkflowPlan_ok p"
    using pb(3) ok by (auto simp: p scoped_of_def Let_def WorkflowPlan_ok_def CanvasSchema_ok_def RevisionLoop_ok_def list_all_iff)
  show "distinct (pl_nodeIds p)" "pl_id p = planId" "sp_scope p = scope" using pb o'(2) by (simp_all add: fields)
  show "\<exists>base. p = scoped_of c scope base \<and> pl_nodeIds base = pl_nodeIds p" using p fields by auto
qed

text \<open>
  C22. A scoped plan selects exactly the least set of nodes that contains the requested ones (the
  scope's targets and, unless excluded, their predecessors) and is closed under what execution
  needs: sources of authoritative edges, approval gates, and for every review gate its reviewer, the
  producers of its required checks and its reviewed sources. All of them exist, their stages respect
  every execute, output, review and dependency edge and the limits, and the executable edges and
  revision loops are those inside the selection (context edges may start outside it).
\<close>

theorem planWorkflowScope_sound:
  assumes "planWorkflowScope c planId scope eligible = Inr p"
  shows "\<exists>t. scopeTargets c scope eligible = Inr t
     \<and> requested (planning_canvas c) (scope_options planId t) \<subseteq> set (pl_nodeIds p)
     \<and> mandatory_closed c (set (pl_nodeIds p))
     \<and> (\<forall>S. mandatory_closed c S \<and> requested (planning_canvas c) (scope_options planId t) \<subseteq> S
          \<longrightarrow> set (pl_nodeIds p) \<subseteq> S)
     \<and> set (pl_nodeIds p) \<subseteq> node_id ` set (canvas_nodes c)
     \<and> schedules (planning_canvas c) (set (pl_nodeIds p)) (pl_stages p)
     \<and> set (sp_executableEdgeIds p) = edge_id ` {e \<in> set (canvas_edges c). edge_targetNodeId e \<in> set (pl_nodeIds p)
          \<and> (edge_sourceNodeId e \<in> set (pl_nodeIds p) \<or> is_Context (edge_config e))}
     \<and> set (pl_revisionLoopIds p) = loop_id ` {l \<in> set (canvas_revisionLoops c).
          loop_implementationNodeId l \<in> set (pl_nodeIds p) \<and> loop_reviewNodeId l \<in> set (pl_nodeIds p)}"
proof -
  note facts = planWorkflowScope_facts [OF assms]
  obtain t where t: "scopeTargets c scope eligible = Inr t"
    and ids: "set (pl_nodeIds p) = set (expandMandatoryPlanNodes c
          (sort_ids (collectSelectedNodeIds (planning_canvas c) (scope_options planId t))))"
    using facts(1) by blast
  have least: "requested (planning_canvas c) (scope_options planId t) \<subseteq> set (pl_nodeIds p)"
    "mandatory_closed c (set (pl_nodeIds p))"
    "mandatory_closed c S \<Longrightarrow> requested (planning_canvas c) (scope_options planId t) \<subseteq> S \<Longrightarrow> set (pl_nodeIds p) \<subseteq> S" for S
    using expandMandatoryPlanNodes_least
      [where ids = "sort_ids (collectSelectedNodeIds (planning_canvas c) (scope_options planId t))" and c = c]
    by (simp_all add: ids set_collectSelectedNodeIds)
  obtain base where base: "p = scoped_of c scope base" "pl_nodeIds base = pl_nodeIds p" using facts(10) by blast
  have "set (sp_executableEdgeIds p) = edge_id ` {e \<in> set (canvas_edges c). edge_targetNodeId e \<in> set (pl_nodeIds p)
          \<and> (edge_sourceNodeId e \<in> set (pl_nodeIds p) \<or> is_Context (edge_config e))}"
    and "set (pl_revisionLoopIds p) = loop_id ` {l \<in> set (canvas_revisionLoops c).
          loop_implementationNodeId l \<in> set (pl_nodeIds p) \<and> loop_reviewNodeId l \<in> set (pl_nodeIds p)}"
    by (simp_all add: base(1) scoped_of_def Let_def)
  with t least facts(4,5) show ?thesis by blast
qed

section \<open>When a scope can be planned\<close>

lemma wellformed_gate_includes:
  assumes wf: "wellformed_canvas c" and i: "i \<in> node_id ` set (canvas_nodes c)"
  shows "set (gate_includes c i) \<subseteq> node_id ` set (canvas_nodes c)"
proof (cases "find (\<lambda>n. node_id n = i) (canvas_nodes c)")
  case None
  then show ?thesis by (simp add: gate_includes_def)
next
  case (Some n)
  then have n: "n \<in> set (canvas_nodes c)" "node_id n = i" by (auto simp: find_Some_iff)
  show ?thesis
  proof (cases "node_data n")
    case (ReviewGateNode g)
    from wellformed_canvasD(4) [OF wf n(1) this] have "wellformed_gate c i g" by (simp add: n(2))
    then have "r \<in> node_id ` set (canvas_nodes c)" if "rg_reviewerAgentId g = Some r" for r
      using that by (auto simp: wellformed_gate_def a_node_def)
    moreover have "node_id m \<in> node_id ` set (canvas_nodes c)" if "m \<in> set (check_producers (canvas_nodes c) k)" for k m
      using that by (auto simp: check_producers_def)
    moreover have "s \<in> node_id ` set (canvas_nodes c)"
      if "e \<in> set (canvas_edges c)" "s \<in> set (gate_source_ids (node_id n) e)" for e s
      using wellformed_edge_ends(1) [OF wf that(1)] that(2)
      by (auto simp: gate_source_ids_def split: edge_config.splits if_splits)
    ultimately show ?thesis using Some ReviewGateNode by (auto simp: gate_includes_def split: option.splits)
  qed (use Some in \<open>simp_all add: gate_includes_def\<close>)
qed

lemma edge_includes_Execute:
  "edge_config e = Execute k \<Longrightarrow>
   edge_includes e = edge_sourceNodeId e #
     (if exe_approval k = ApproveReviewGate
      then (case exe_approvalGateNodeId k of None \<Rightarrow> [] | Some g \<Rightarrow> [g]) else [])"
  by (simp add: edge_includes_def)

lemma edge_includes_other:
  "\<not> is_Execute (edge_config e) \<Longrightarrow> edge_includes e = [] \<or> edge_includes e = [edge_sourceNodeId e]"
  by (cases "edge_config e") (simp_all add: edge_includes_def)

lemma wellformed_edge_includes:
  assumes wf: "wellformed_canvas c" and e: "e \<in> set (canvas_edges c)"
  shows "set (edge_includes e) \<subseteq> node_id ` set (canvas_nodes c)"
proof (cases "is_Execute (edge_config e)")
  case True
  then obtain k where k: "edge_config e = Execute k" by (cases "edge_config e") simp_all
  have "wellformed_config c (edge_sourceNodeId e) (edge_targetNodeId e) (edge_config e)"
    using wellformed_canvasD(3) [OF wf e] by (simp add: wellformed_edge_def)
  then have gate: "g \<in> node_id ` set (canvas_nodes c)"
    if "exe_approval k = ApproveReviewGate" "exe_approvalGateNodeId k = Some g" for g
    using that k by (auto simp: a_node_def)
  have "edge_includes e = [edge_sourceNodeId e] \<or> (\<exists>g. edge_includes e = [edge_sourceNodeId e, g]
      \<and> exe_approval k = ApproveReviewGate \<and> exe_approvalGateNodeId k = Some g)"
    by (cases "exe_approvalGateNodeId k") (simp_all add: edge_includes_Execute [OF k])
  then show ?thesis using wellformed_edge_ends(1) [OF wf e] gate by auto
next
  case False
  from edge_includes_other [OF this] wellformed_edge_ends(1) [OF wf e] show ?thesis by auto
qed

lemma nodes_mandatory_closed:
  "wellformed_canvas c \<Longrightarrow> mandatory_closed c (node_id ` set (canvas_nodes c))"
  using wellformed_gate_includes wellformed_edge_includes unfolding mandatory_closed_def by blast

definition configured :: "canvas \<Rightarrow> bool" where
  "configured c = (\<forall>n \<in> set (canvas_nodes c). node_configuration_issues n = [])"

lemma configured_planning:
  assumes "CanvasSchema_ok c" and "configured c"
  shows "validateWorkflowExecutionConfiguration (planning_canvas c) selected = Inr []"
  using assms planning_canvas_schema [OF assms(1)]
  by (auto simp: validateWorkflowExecutionConfiguration_def CanvasSchema_parse_def configured_def)

text \<open>
  On a valid canvas whose nodes are all configured, a scope can be planned exactly when its
  targets resolve and exist: closing the selection over its mandatory nodes and planning it again
  without context and revision edges never fails.
\<close>

theorem planWorkflowScope_total:
  assumes ok: "CanvasSchema_ok c" and wf: "wellformed_canvas c" and conf: "configured c"
    and planId: "EntityId_ok planId"
  shows "is_ok (planWorkflowScope c planId scope eligible) \<longleftrightarrow>
    (\<exists>targets up. scopeTargets c scope eligible = Inr (targets, up)
       \<and> (case targets of None \<Rightarrow> True | Some ts \<Rightarrow> set ts \<subseteq> node_id ` set (canvas_nodes c)))"
proof -
  have plans: "is_ok (planWorkflow (planning_canvas c) o') \<longleftrightarrow> targets_exist (planning_canvas c) o'"
    if "po_planId o' = planId" for o'
    unfolding planWorkflow_is_ok
    using planning_canvas_schema [OF ok] wellformed_planning [OF wf] configured_planning [OF ok conf] planId that by simp
  have exist: "targets_exist (planning_canvas c) (scope_options planId (targets, up)) \<longleftrightarrow>
      (case targets of None \<Rightarrow> True | Some ts \<Rightarrow> set ts \<subseteq> node_id ` set (canvas_nodes c))" for targets up
    by (simp add: targets_exist_def scope_options_def split: option.splits)
  have second: "is_ok (planWorkflow (planning_canvas c) (mandatory_options c planId initial))"
    if i: "planWorkflow (planning_canvas c) (scope_options planId t) = Inr initial" for t initial
  proof -
    have "targets_exist (planning_canvas c) (scope_options planId t)" using i by (simp add: planWorkflow_Inr_iff)
    then have "set (pl_nodeIds initial) \<subseteq> node_id ` set (canvas_nodes c)"
      using requested_nodes [OF wellformed_planning [OF wf]] planWorkflow_plan(1) [OF i] by simp
    then have "set (expandMandatoryPlanNodes c (pl_nodeIds initial)) \<subseteq> node_id ` set (canvas_nodes c)"
      by (rule expandMandatoryPlanNodes_least(3) [OF nodes_mandatory_closed [OF wf]])
    then show ?thesis
      using plans [of "mandatory_options c planId initial"] by (simp add: mandatory_options_def targets_exist_def)
  qed
  show ?thesis
  proof
    assume "is_ok (planWorkflowScope c planId scope eligible)"
    then obtain p where "planWorkflowScope c planId scope eligible = Inr p" by (auto simp: is_ok_iff)
    then obtain t initial where t: "scopeTargets c scope eligible = Inr t"
      and "planWorkflow (planning_canvas c) (scope_options planId t) = Inr initial"
      unfolding planWorkflowScope_Inr_iff by blast
    then have "targets_exist (planning_canvas c) (scope_options planId t)" by (simp add: planWorkflow_Inr_iff)
    with t show "\<exists>targets up. scopeTargets c scope eligible = Inr (targets, up)
       \<and> (case targets of None \<Rightarrow> True | Some ts \<Rightarrow> set ts \<subseteq> node_id ` set (canvas_nodes c))"
      using exist by (cases t) auto
  next
    assume "\<exists>targets up. scopeTargets c scope eligible = Inr (targets, up)
       \<and> (case targets of None \<Rightarrow> True | Some ts \<Rightarrow> set ts \<subseteq> node_id ` set (canvas_nodes c))"
    then obtain targets up where t: "scopeTargets c scope eligible = Inr (targets, up)"
      and "targets_exist (planning_canvas c) (scope_options planId (targets, up))" using exist by blast
    then obtain initial where i: "planWorkflow (planning_canvas c) (scope_options planId (targets, up)) = Inr initial"
      using plans [of "scope_options planId (targets, up)"] by (auto simp: scope_options_def is_ok_iff)
    obtain base where "(if expandMandatoryPlanNodes c (pl_nodeIds initial) = pl_nodeIds initial then return initial
        else planWorkflow (planning_canvas c) (mandatory_options c planId initial)) = Inr base"
      using second [OF i]
      by (cases "expandMandatoryPlanNodes c (pl_nodeIds initial) = pl_nodeIds initial") (auto simp: is_ok_iff)
    with t i ok wf have "planWorkflowScope c planId scope eligible = Inr (scoped_of c scope base)"
      unfolding planWorkflowScope_Inr_iff by blast
    then show "is_ok (planWorkflowScope c planId scope eligible)" by simp
  qed
qed

end
