(* ===== verification/Run_State.thy ===== *)
theory Run_State
  imports Domain
begin

text \<open>
  The run state machine of \<open>packages/core/src/workflow/model.ts\<close>: node runs and their allowed
  transitions, the aggregate status of a workflow run, cancellation, recovery after a host restart
  and the bounded revision loop.
\<close>

section \<open>Execution references and node runs\<close>

record process_reference =
  pr_pid :: int
  pr_startedAt :: timestamp
  pr_identityToken :: string

record internal_reference =
  ir_executionId :: entity_id
  ir_startedAt :: timestamp

datatype execution_reference =
    ProcessExecution process_reference
  | InternalExecution internal_reference

record node_run =
  nr_nodeId :: entity_id
  nr_status :: run_status
  nr_attempt :: int
  nr_queuedAt :: timestamp
  nr_startedAt :: "timestamp option"
  nr_endedAt :: "timestamp option"
  nr_process :: "process_reference option"
  nr_internalExecution :: "internal_reference option"
  nr_resumable :: bool
  nr_failureCode :: "string option"
  nr_statusReason :: "string option"

text \<open>\<open>TERMINAL_RUN_STATUSES\<close> and \<open>isTerminalRunStatus\<close>.\<close>

definition isTerminalRunStatus :: "run_status \<Rightarrow> bool" where
  "isTerminalRunStatus s = (s \<in> {Failed, Succeeded, Cancelled, Lost})"

definition isActiveStatus :: "run_status \<Rightarrow> bool" where
  "isActiveStatus s = (s = Running \<or> s = Cancelling)"

definition ProcessReference_ok :: "process_reference \<Rightarrow> bool" where
  "ProcessReference_ok p =
     (0 < pr_pid p \<and> is_timestamp (pr_startedAt p) \<and> len_between 8 512 (pr_identityToken p))"

definition InternalReference_ok :: "internal_reference \<Rightarrow> bool" where
  "InternalReference_ok i = (EntityId_ok (ir_executionId i) \<and> is_timestamp (ir_startedAt i))"

definition NodeRunState_ok :: "node_run \<Rightarrow> bool" where
  "NodeRunState_ok r =
     (EntityId_ok (nr_nodeId r) \<and> 0 < nr_attempt r \<and> is_timestamp (nr_queuedAt r)
      \<and> opt_ok is_timestamp (nr_startedAt r) \<and> opt_ok is_timestamp (nr_endedAt r)
      \<and> opt_ok ProcessReference_ok (nr_process r)
      \<and> opt_ok InternalReference_ok (nr_internalExecution r)
      \<and> opt_ok (len_between 1 300) (nr_failureCode r)
      \<and> opt_ok (len_between 1 20000) (nr_statusReason r)
      \<and> \<not> ((nr_status r = Running \<or> nr_status r = Cancelling)
            \<and> nr_process r = None \<and> nr_internalExecution r = None)
      \<and> \<not> (nr_process r \<noteq> None \<and> nr_internalExecution r \<noteq> None)
      \<and> \<not> (isTerminalRunStatus (nr_status r) \<and> nr_endedAt r = None))"

definition NodeRunStateSchema_parse :: "node_run \<Rightarrow> node_run res" where
  "NodeRunStateSchema_parse r =
     (if NodeRunState_ok r then return r else throw (ZodError ''NodeRunStateSchema''))"

lemma NodeRunStateSchema_parse_Inr [simp]:
  "NodeRunStateSchema_parse r = Inr r' \<longleftrightarrow> NodeRunState_ok r \<and> r' = r"
  by (auto simp: NodeRunStateSchema_parse_def)

section \<open>Revision-loop states and workflow runs\<close>

datatype loop_status = ReviewRequired | RevisionRequired | WaitingHuman | Satisfied | LoopCancelled

fun loop_status_text :: "loop_status \<Rightarrow> string" where
  "loop_status_text ReviewRequired = ''review-required''"
| "loop_status_text RevisionRequired = ''revision-required''"
| "loop_status_text WaitingHuman = ''waiting-human''"
| "loop_status_text Satisfied = ''satisfied''"
| "loop_status_text LoopCancelled = ''cancelled''"

record loop_state =
  ls_loopId :: entity_id
  ls_attemptsStarted :: int
  ls_status :: loop_status
  ls_lastFeedback :: "string option"
  ls_stopCondition :: "stop_condition option"
  ls_eligibleAt :: "timestamp option"

record workflow_run =
  wr_id :: entity_id
  wr_canvasId :: entity_id
  wr_planId :: entity_id
  wr_status :: run_status
  wr_nodeRuns :: "node_run obj"
  wr_revisionLoops :: "loop_state obj"
  wr_createdAt :: timestamp
  wr_updatedAt :: timestamp
  wr_endedAt :: "timestamp option"

definition LoopState_ok :: "loop_state \<Rightarrow> bool" where
  "LoopState_ok s =
     (EntityId_ok (ls_loopId s) \<and> 0 < ls_attemptsStarted s
      \<and> opt_ok (len_between 0 200000) (ls_lastFeedback s) \<and> opt_ok is_timestamp (ls_eligibleAt s))"

definition WorkflowRun_ok :: "workflow_run \<Rightarrow> bool" where
  "WorkflowRun_ok r =
     (EntityId_ok (wr_id r) \<and> EntityId_ok (wr_canvasId r) \<and> EntityId_ok (wr_planId r)
      \<and> list_all NodeRunState_ok (obj_values (wr_nodeRuns r))
      \<and> list_all LoopState_ok (obj_values (wr_revisionLoops r))
      \<and> is_timestamp (wr_createdAt r) \<and> is_timestamp (wr_updatedAt r)
      \<and> opt_ok is_timestamp (wr_endedAt r)
      \<and> list_all (\<lambda>(k, n). nr_nodeId n = k) (wr_nodeRuns r)
      \<and> \<not> (isTerminalRunStatus (wr_status r) \<and> wr_endedAt r = None)
      \<and> \<not> (isTerminalRunStatus (wr_status r)
            \<and> list_ex (\<lambda>n. \<not> isTerminalRunStatus (nr_status n)) (obj_values (wr_nodeRuns r))))"

definition WorkflowRunSchema_parse :: "workflow_run \<Rightarrow> workflow_run res" where
  "WorkflowRunSchema_parse r =
     (if WorkflowRun_ok r then return r else throw (ZodError ''WorkflowRunSchema''))"

lemma WorkflowRunSchema_parse_Inr [simp]:
  "WorkflowRunSchema_parse r = Inr r' \<longleftrightarrow> WorkflowRun_ok r \<and> r' = r"
  by (auto simp: WorkflowRunSchema_parse_def)

section \<open>Transitions\<close>

fun ALLOWED_TRANSITIONS :: "run_status \<Rightarrow> run_status list" where
  "ALLOWED_TRANSITIONS Queued = [Running, WaitingForApproval, Cancelled]"
| "ALLOWED_TRANSITIONS Running = [WaitingForApproval, Paused, Cancelling, Failed, Succeeded, Lost]"
| "ALLOWED_TRANSITIONS WaitingForApproval = [Queued, Running, Cancelled]"
| "ALLOWED_TRANSITIONS Paused = [Running, Cancelled, Lost]"
| "ALLOWED_TRANSITIONS Cancelling = [Cancelled, Failed, Lost]"
| "ALLOWED_TRANSITIONS Failed = [Queued]"
| "ALLOWED_TRANSITIONS Succeeded = []"
| "ALLOWED_TRANSITIONS Cancelled = []"
| "ALLOWED_TRANSITIONS Lost = [Queued, Paused]"

definition canTransitionRun :: "run_status \<Rightarrow> run_status \<Rightarrow> bool" where
  "canTransitionRun from to = (to \<in> set (ALLOWED_TRANSITIONS from))"

record node_transition =
  tr_status :: run_status
  tr_occurredAt :: timestamp
  tr_process :: "process_reference option"
  tr_internalExecution :: "internal_reference option"
  tr_reason :: "string option"
  tr_failureCode :: "string option"

definition orElse :: "'a option \<Rightarrow> 'a option \<Rightarrow> 'a option" where
  "orElse a b = (case a of None \<Rightarrow> b | Some _ \<Rightarrow> a)"

lemma orElse_simps [simp]: "orElse None b = b" "orElse (Some x) b = Some x"
  by (simp_all add: orElse_def)

definition transitionNodeRun :: "node_run \<Rightarrow> node_transition \<Rightarrow> node_run res" where
  "transitionNodeRun current tr =
     (if \<not> canTransitionRun (nr_status current) (tr_status tr)
      then throw (Error (''Invalid run transition: '' @ run_status_text (nr_status current)
                         @ '' -> '' @ run_status_text (tr_status tr)))
      else
        let terminal = isTerminalRunStatus (tr_status tr);
            live = (tr_status tr = Running \<or> tr_status tr = Cancelling);
            process = (if live then orElse (tr_process tr) (nr_process current) else None);
            internal = (if live then orElse (tr_internalExecution tr) (nr_internalExecution current)
                        else None);
            retrying = (tr_status tr = Queued
                        \<and> (nr_status current = Failed \<or> nr_status current = Lost))
        in NodeRunStateSchema_parse
             \<lparr> nr_nodeId = nr_nodeId current,
               nr_status = tr_status tr,
               nr_attempt = (if retrying then nr_attempt current + 1 else nr_attempt current),
               nr_queuedAt = (if tr_status tr = Queued then tr_occurredAt tr else nr_queuedAt current),
               nr_startedAt =
                 (if \<not> retrying \<and> nr_startedAt current = None \<and> tr_status tr = Running
                  then Some (tr_occurredAt tr)
                  else if retrying \<or> nr_startedAt current = None then None
                  else nr_startedAt current),
               nr_endedAt = (if terminal then Some (tr_occurredAt tr) else None),
               nr_process = process,
               nr_internalExecution = internal,
               nr_resumable = nr_resumable current,
               nr_failureCode = tr_failureCode tr,
               nr_statusReason = tr_reason tr \<rparr>)"

section \<open>Aggregate status\<close>

definition aggregateWorkflowStatus :: "node_run obj \<Rightarrow> run_status" where
  "aggregateWorkflowStatus nodeRuns =
     (let statuses = map nr_status (obj_values nodeRuns) in
      if statuses = [] then Queued
      else if list_ex (\<lambda>s. s = Cancelling) statuses then Cancelling
      else if list_ex (\<lambda>s. s = Running) statuses then Running
      else if list_ex (\<lambda>s. s = WaitingForApproval) statuses then WaitingForApproval
      else if list_ex (\<lambda>s. s = Paused) statuses then Paused
      else if list_ex (\<lambda>s. s = Queued) statuses then Queued
      else if list_ex (\<lambda>s. s = Lost) statuses then Lost
      else if list_ex (\<lambda>s. s = Failed) statuses then Failed
      else if list_all (\<lambda>s. s = Succeeded) statuses then Succeeded
      else if list_all (\<lambda>s. s = Cancelled \<or> s = Succeeded) statuses then Cancelled
      else Queued)"

section \<open>Cancellation\<close>

definition cancellation_entry :: "timestamp \<Rightarrow> string \<times> node_run \<Rightarrow> (string \<times> node_run) res" where
  "cancellation_entry occurredAt entry =
     (let (nodeId, nodeRun) = entry in
      if isTerminalRunStatus (nr_status nodeRun) \<or> nr_status nodeRun = Cancelling
      then return (nodeId, nodeRun)
      else res_bind (transitionNodeRun nodeRun
             \<lparr> tr_status = (if nr_status nodeRun = Running then Cancelling else Cancelled),
               tr_occurredAt = occurredAt,
               tr_process = nr_process nodeRun,
               tr_internalExecution = nr_internalExecution nodeRun,
               tr_reason = Some ''Workflow cancellation requested by the user'',
               tr_failureCode = None \<rparr>)
             (\<lambda>next. return (nodeId, next)))"

definition requestWorkflowCancellation :: "workflow_run \<Rightarrow> timestamp \<Rightarrow> workflow_run res" where
  "requestWorkflowCancellation run occurredAt =
     res_bind (map_res (cancellation_entry occurredAt) (wr_nodeRuns run)) (\<lambda>entries.
       let nodeRuns = obj_from entries;
           status = aggregateWorkflowStatus nodeRuns
       in WorkflowRunSchema_parse
            (run\<lparr> wr_nodeRuns := nodeRuns, wr_status := status, wr_updatedAt := occurredAt,
                  wr_endedAt := (if isTerminalRunStatus status then Some occurredAt
                                 else wr_endedAt run) \<rparr>))"

section \<open>Recovery\<close>

definition recovery_entry ::
  "(int \<Rightarrow> string option) \<Rightarrow> timestamp \<Rightarrow> string \<times> node_run \<Rightarrow> ((string \<times> node_run) \<times> bool) res" where
  "recovery_entry liveProcesses occurredAt entry =
     (let (nodeId, nodeRun) = entry in
      if nr_status nodeRun \<noteq> Running \<and> nr_status nodeRun \<noteq> Cancelling
      then return ((nodeId, nodeRun), False)
      else if nr_internalExecution nodeRun \<noteq> None
      then res_bind (transitionNodeRun nodeRun
             \<lparr> tr_status = Lost, tr_occurredAt = occurredAt, tr_process = None,
               tr_internalExecution = None,
               tr_reason = Some ''An in-process execution cannot be proven alive after a host restart'',
               tr_failureCode = Some ''INTERNAL_EXECUTION_NOT_RECOVERED'' \<rparr>)
             (\<lambda>next. return ((nodeId, next), True))
      else
        let liveIdentity = (case nr_process nodeRun of
                              None \<Rightarrow> None | Some p \<Rightarrow> liveProcesses (pr_pid p))
        in if liveIdentity = map_option pr_identityToken (nr_process nodeRun)
           then return ((nodeId, nodeRun), False)
           else res_bind (transitionNodeRun nodeRun
             \<lparr> tr_status = Lost, tr_occurredAt = occurredAt, tr_process = None,
               tr_internalExecution = None,
               tr_reason = Some ''The persisted process identity was not alive after restart'',
               tr_failureCode = Some ''PROCESS_NOT_RECOVERED'' \<rparr>)
             (\<lambda>next. return ((nodeId, next), True)))"

definition recoverInterruptedRun ::
  "workflow_run \<Rightarrow> (int \<Rightarrow> string option) \<Rightarrow> timestamp \<Rightarrow> (workflow_run \<times> entity_id list) res" where
  "recoverInterruptedRun run liveProcesses occurredAt =
     res_bind (map_res (recovery_entry liveProcesses occurredAt) (wr_nodeRuns run)) (\<lambda>results.
       let nodeRuns = obj_from (map fst results);
           lostNodeIds = map (\<lambda>((k, _), _). k) (filter (\<lambda>(_, lost). lost) results);
           status = aggregateWorkflowStatus nodeRuns
       in res_bind (WorkflowRunSchema_parse
            (run\<lparr> wr_nodeRuns := nodeRuns, wr_status := status, wr_updatedAt := occurredAt,
                  wr_endedAt := (if isTerminalRunStatus status then Some occurredAt
                                 else wr_endedAt run) \<rparr>))
            (\<lambda>recovered. return (recovered, sort_ids lostNodeIds)))"

section \<open>Bounded revision loops\<close>

definition createRevisionLoopState :: "revision_loop \<Rightarrow> loop_state" where
  "createRevisionLoopState l =
     \<lparr> ls_loopId = loop_id l, ls_attemptsStarted = 1, ls_status = ReviewRequired,
       ls_lastFeedback = None, ls_stopCondition = None, ls_eligibleAt = None \<rparr>"

datatype loop_event =
    ReviewFailed string
  | RevisionCompleted
  | StopConditionMet stop_condition
  | HumanAborted

definition withoutEligibility :: "loop_state \<Rightarrow> loop_state" where
  "withoutEligibility s = s\<lparr> ls_eligibleAt := None \<rparr>"

definition advanceRevisionLoop :: "revision_loop \<Rightarrow> loop_state \<Rightarrow> loop_event \<Rightarrow> loop_state res" where
  "advanceRevisionLoop l state event =
     (if ls_loopId state \<noteq> loop_id l
      then throw (Error ''Revision loop state belongs to a different loop'')
      else if ls_status state = Satisfied \<or> ls_status state = LoopCancelled
      then throw (Error (''Revision loop is already '' @ loop_status_text (ls_status state)))
      else case event of
        HumanAborted \<Rightarrow> return ((withoutEligibility state)\<lparr> ls_status := LoopCancelled \<rparr>)
      | StopConditionMet c \<Rightarrow>
          (if c \<notin> set (loop_stopConditions l)
           then throw (Error (''Stop condition is not configured: '' @ stop_condition_text c))
           else return ((withoutEligibility state)\<lparr> ls_status := Satisfied, ls_stopCondition := Some c \<rparr>))
      | ReviewFailed feedback \<Rightarrow>
          (if ls_status state \<noteq> ReviewRequired
           then throw (Error ''Review feedback is not currently expected'')
           else if length (trim feedback) = 0
           then throw (Error ''Revision feedback must be actionable'')
           else return (state\<lparr> ls_status := (if ls_attemptsStarted state \<ge> loop_maximumAttempts l
                                             then WaitingHuman else RevisionRequired),
                               ls_lastFeedback := Some feedback \<rparr>))
      | RevisionCompleted \<Rightarrow>
          (if ls_status state \<noteq> RevisionRequired
           then throw (Error ''A revision is not currently expected'')
           else if ls_attemptsStarted state \<ge> loop_maximumAttempts l
           then return (state\<lparr> ls_status := WaitingHuman \<rparr>)
           else return ((withoutEligibility state)\<lparr> ls_attemptsStarted := ls_attemptsStarted state + 1,
                                                   ls_status := ReviewRequired \<rparr>)))"

section \<open>Facts about statuses and transitions\<close>

lemma isTerminal_simps [simp, status_simps]:
  "isTerminalRunStatus Failed" "isTerminalRunStatus Succeeded"
  "isTerminalRunStatus Cancelled" "isTerminalRunStatus Lost"
  "\<not> isTerminalRunStatus Queued" "\<not> isTerminalRunStatus Running"
  "\<not> isTerminalRunStatus WaitingForApproval" "\<not> isTerminalRunStatus Paused"
  "\<not> isTerminalRunStatus Cancelling"
  by (simp_all add: isTerminalRunStatus_def)

lemma isActive_simps [simp, status_simps]:
  "isActiveStatus Running" "isActiveStatus Cancelling"
  "\<not> isActiveStatus Failed" "\<not> isActiveStatus Succeeded" "\<not> isActiveStatus Cancelled"
  "\<not> isActiveStatus Lost" "\<not> isActiveStatus Queued" "\<not> isActiveStatus WaitingForApproval"
  "\<not> isActiveStatus Paused"
  by (simp_all add: isActiveStatus_def)

lemma active_not_terminal: "isActiveStatus s \<Longrightarrow> \<not> isTerminalRunStatus s"
  by (auto simp: isActiveStatus_def)

lemma transitionNodeRun_InrD:
  assumes "transitionNodeRun cur tr = Inr next"
  shows "canTransitionRun (nr_status cur) (tr_status tr)"
    and "NodeRunState_ok next"
    and "nr_nodeId next = nr_nodeId cur"
    and "nr_status next = tr_status tr"
    and "nr_attempt next =
           nr_attempt cur + (if tr_status tr = Queued \<and> nr_status cur \<in> {Failed, Lost} then 1 else 0)"
    and "nr_resumable next = nr_resumable cur"
    and "nr_endedAt next = (if isTerminalRunStatus (tr_status tr) then Some (tr_occurredAt tr) else None)"
    and "nr_failureCode next = tr_failureCode tr"
    and "nr_statusReason next = tr_reason tr"
  using assms by (auto simp: transitionNodeRun_def Let_def split: if_splits)

text \<open>A step of one node run is a transition the schema accepts.\<close>

inductive node_step :: "node_run \<Rightarrow> node_run \<Rightarrow> bool" where
  node_step: "transitionNodeRun r tr = Inr r' \<Longrightarrow> node_step r r'"

inductive_cases node_stepE: "node_step r r'"

lemma node_step_attempt: "node_step r r' \<Longrightarrow> nr_attempt r \<le> nr_attempt r'"
  by (elim node_stepE) (simp add: transitionNodeRun_InrD(5))

lemma node_step_status: "node_step r r' \<Longrightarrow> canTransitionRun (nr_status r) (nr_status r')"
  by (elim node_stepE) (metis transitionNodeRun_InrD(1,4))

lemma canTransition_from_final: "s \<in> {Succeeded, Cancelled} \<Longrightarrow> \<not> canTransitionRun s t"
  by (auto simp: canTransitionRun_def)

lemma canTransition_from_terminal:
  "isTerminalRunStatus s \<Longrightarrow> canTransitionRun s t \<Longrightarrow> s \<in> {Failed, Lost} \<and> t \<in> {Queued, Paused}"
  by (cases s) (auto simp: canTransitionRun_def)

lemma node_steps_attempt: "node_step\<^sup>*\<^sup>* r r' \<Longrightarrow> nr_attempt r \<le> nr_attempt r'"
  by (induction rule: rtranclp_induct) (auto dest: node_step_attempt)

lemma node_steps_final:
  "node_step\<^sup>*\<^sup>* r r' \<Longrightarrow> nr_status r \<in> {Succeeded, Cancelled} \<Longrightarrow> r' = r"
  by (induction rule: converse_rtranclp_induct)
     (auto dest: node_step_status simp: canTransition_from_final)

text \<open>
  A node run that succeeded or was cancelled is final: no sequence of transitions leaves it,
  and along every sequence the attempt number never decreases. It grows exactly by the retries
  (\<open>failed\<close> or \<open>lost\<close> back to \<open>queued\<close>), and every state reached by a transition satisfies the
  persisted-state schema (an active run has an execution reference, a terminal run has an end).
\<close>

theorem node_run_steps_sound:
  assumes "node_step\<^sup>*\<^sup>* r r'"
  shows "nr_attempt r \<le> nr_attempt r'
    \<and> (nr_status r \<in> {Succeeded, Cancelled} \<longrightarrow> r' = r)
    \<and> (r' \<noteq> r \<longrightarrow> NodeRunState_ok r')"
proof (intro conjI impI)
  show "nr_attempt r \<le> nr_attempt r'" using assms by (rule node_steps_attempt)
  show "r' = r" if "nr_status r \<in> {Succeeded, Cancelled}" using assms that by (rule node_steps_final)
  show "NodeRunState_ok r'" if "r' \<noteq> r"
    using assms that
    by (cases rule: rtranclp.cases) (auto elim!: node_stepE dest: transitionNodeRun_InrD(2))
qed

section \<open>The aggregate status\<close>

lemma aggregate_terminal_iff:
  "isTerminalRunStatus (aggregateWorkflowStatus runs)
   \<longleftrightarrow> runs \<noteq> [] \<and> (\<forall>r \<in> set (obj_values runs). isTerminalRunStatus (nr_status r))"
proof -
  define st where "st = map nr_status (obj_values runs)"
  have agg: "aggregateWorkflowStatus runs =
      (if st = [] then Queued
       else if Cancelling \<in> set st then Cancelling
       else if Running \<in> set st then Running
       else if WaitingForApproval \<in> set st then WaitingForApproval
       else if Paused \<in> set st then Paused
       else if Queued \<in> set st then Queued
       else if Lost \<in> set st then Lost
       else if Failed \<in> set st then Failed
       else if list_all (\<lambda>s. s = Succeeded) st then Succeeded
       else if list_all (\<lambda>s. s = Cancelled \<or> s = Succeeded) st then Cancelled
       else Queued)"
    by (simp add: aggregateWorkflowStatus_def Let_def st_def list_ex_iff Bex_def)
  have rest: "list_all (\<lambda>s. s = Cancelled \<or> s = Succeeded) st"
    if "Cancelling \<notin> set st" "Running \<notin> set st" "WaitingForApproval \<notin> set st" "Paused \<notin> set st"
       "Queued \<notin> set st" "Lost \<notin> set st" "Failed \<notin> set st"
  proof -
    have "s \<in> set st \<longrightarrow> s = Cancelled \<or> s = Succeeded" for s
      by (cases s) (simp_all add: that)
    then show ?thesis by (simp add: list_all_iff)
  qed
  have open_status: "\<not> isTerminalRunStatus s \<longleftrightarrow>
      s \<in> {Cancelling, Running, WaitingForApproval, Paused, Queued}" for s
    by (cases s) simp_all
  have empty: "st = [] \<longleftrightarrow> runs = []" by (simp add: st_def obj_values_def)
  have "isTerminalRunStatus (aggregateWorkflowStatus runs)
        \<longleftrightarrow> st \<noteq> [] \<and> (\<forall>s \<in> set st. isTerminalRunStatus s)"
  proof (cases "\<exists>s \<in> set st. s \<in> {Cancelling, Running, WaitingForApproval, Paused, Queued}")
    case True
    then have "\<not> isTerminalRunStatus (aggregateWorkflowStatus runs)" by (auto simp: agg)
    moreover from True have "\<not> (\<forall>s \<in> set st. isTerminalRunStatus s)" using open_status by blast
    ultimately show ?thesis by simp
  next
    case False
    with rest have "st \<noteq> [] \<Longrightarrow> isTerminalRunStatus (aggregateWorkflowStatus runs)"
      by (auto simp: agg)
    moreover from False have "\<forall>s \<in> set st. isTerminalRunStatus s" using open_status by blast
    ultimately show ?thesis by (auto simp: agg)
  qed
  then show ?thesis by (simp add: empty) (simp add: st_def)
qed

section \<open>Cancellation is total\<close>

lemma obj_from_same_keys:
  assumes "obj_ok ob" and "map fst kvs = map fst ob"
  shows "obj_from kvs = kvs"
  using assms by (simp add: obj_from_distinct obj_ok_def)

lemma list_all_values: "list_all P (obj_values ob) \<longleftrightarrow> (\<forall>k v. (k, v) \<in> set ob \<longrightarrow> P v)"
  by (auto simp: list_all_iff obj_values_def)

lemma cancellation_entry_total:
  assumes ok: "NodeRunState_ok r" and t: "is_timestamp t"
  shows "\<exists>r'. cancellation_entry t (k, r) = Inr (k, r') \<and> NodeRunState_ok r'
           \<and> nr_nodeId r' = nr_nodeId r \<and> nr_attempt r' = nr_attempt r
           \<and> nr_status r' =
               (if isTerminalRunStatus (nr_status r) then nr_status r
                else if isActiveStatus (nr_status r) then Cancelling else Cancelled)
           \<and> nr_process r' = (if nr_status r \<in> {Queued, WaitingForApproval, Paused} then None
                              else nr_process r)"
proof (cases "isTerminalRunStatus (nr_status r) \<or> nr_status r = Cancelling")
  case True
  then show ?thesis using ok by (auto simp: cancellation_entry_def)
next
  case False
  then have "nr_status r \<in> {Queued, WaitingForApproval, Paused, Running}"
    by (cases "nr_status r") simp_all
  then show ?thesis using ok t
    by (auto simp: cancellation_entry_def transitionNodeRun_def canTransitionRun_def Let_def
        NodeRunStateSchema_parse_def NodeRunState_ok_def opt_ok_def len_between_def orElse_def
        split: option.splits)
qed

text \<open>What the schema of a run guarantees of its node runs.\<close>

lemma WorkflowRun_okD:
  assumes "WorkflowRun_ok run"
  shows "(k, r) \<in> set (wr_nodeRuns run) \<Longrightarrow> NodeRunState_ok r"
    and "(k, r) \<in> set (wr_nodeRuns run) \<Longrightarrow> nr_nodeId r = k"
    and "isTerminalRunStatus (wr_status run) \<Longrightarrow> (k, r) \<in> set (wr_nodeRuns run)
           \<Longrightarrow> isTerminalRunStatus (nr_status r)"
  using assms by (auto simp: WorkflowRun_ok_def list_all_values list_ex_iff obj_values_def)
     (auto simp: list_all_iff)

text \<open>Replacing the node runs by schema-valid ones and recomputing the status keeps a run valid.\<close>

lemma WorkflowRun_ok_replace:
  assumes "WorkflowRun_ok run" and "is_timestamp t"
    and "\<And>k r. (k, r) \<in> set nodeRuns \<Longrightarrow> NodeRunState_ok r \<and> nr_nodeId r = k"
  shows "WorkflowRun_ok
    (run\<lparr> wr_nodeRuns := nodeRuns, wr_status := aggregateWorkflowStatus nodeRuns, wr_updatedAt := t,
          wr_endedAt := (if isTerminalRunStatus (aggregateWorkflowStatus nodeRuns) then Some t
                         else wr_endedAt run) \<rparr>)"
  using assms
  by (auto simp: WorkflowRun_ok_def opt_ok_def list_all_values aggregate_terminal_iff list_ex_iff)
     (auto simp: list_all_iff)

lemma request_cancellation:
  assumes ok: "WorkflowRun_ok run" and keys: "obj_ok (wr_nodeRuns run)" and t: "is_timestamp t"
  shows "\<exists>run'. requestWorkflowCancellation run t = Inr run' \<and> WorkflowRun_ok run'
    \<and> list_all2 (\<lambda>(k, r) (k', r'). k' = k \<and> nr_attempt r' = nr_attempt r
          \<and> nr_status r' = (if isTerminalRunStatus (nr_status r) then nr_status r
                            else if isActiveStatus (nr_status r) then Cancelling else Cancelled)
          \<and> (isActiveStatus (nr_status r) \<longrightarrow> nr_process r' = nr_process r))
        (wr_nodeRuns run) (wr_nodeRuns run')"
proof -
  let ?post = "\<lambda>(k, r) (k', r'). k' = k \<and> NodeRunState_ok r' \<and> nr_nodeId r' = nr_nodeId r
      \<and> nr_attempt r' = nr_attempt r
      \<and> nr_status r' = (if isTerminalRunStatus (nr_status r) then nr_status r
                        else if isActiveStatus (nr_status r) then Cancelling else Cancelled)
      \<and> (isActiveStatus (nr_status r) \<longrightarrow> nr_process r' = nr_process r)"
  have entry: "\<exists>e'. cancellation_entry t e = Inr e' \<and> ?post e e'" if "e \<in> set (wr_nodeRuns run)" for e
  proof -
    obtain k r where e: "e = (k, r)" by (cases e)
    have "NodeRunState_ok r" using WorkflowRun_okD(1) [OF ok] that e by blast
    then obtain r' where r': "cancellation_entry t (k, r) = Inr (k, r')" "?post (k, r) (k, r')"
      using cancellation_entry_total [OF _ t, of r k] by (auto simp: isActiveStatus_def)
    then show ?thesis using e by blast
  qed
  then obtain entries where entries: "map_res (cancellation_entry t) (wr_nodeRuns run) = Inr entries"
    using map_res_total by (metis (no_types, lifting))
  then have rel: "list_all2 (\<lambda>e e'. cancellation_entry t e = Inr e') (wr_nodeRuns run) entries"
    by (simp add: map_res_Inr_list_all2)
  have post: "list_all2 ?post (wr_nodeRuns run) entries"
    using rel by (rule list.rel_mono_strong) (use entry in fastforce)
  then have "map fst entries = map fst (wr_nodeRuns run)"
    by (induction rule: list_all2_induct) auto
  then have from_entries: "obj_from entries = entries" using keys by (rule obj_from_same_keys [rotated])
  have valid: "NodeRunState_ok r' \<and> nr_nodeId r' = k'" if "(k', r') \<in> set entries" for k' r'
    using post that WorkflowRun_okD(2) [OF ok]
    by (fastforce simp: list_all2_conv_all_nth in_set_conv_nth)
  show ?thesis
  proof (intro exI conjI)
    let ?run' = "run\<lparr> wr_nodeRuns := entries, wr_status := aggregateWorkflowStatus entries,
        wr_updatedAt := t,
        wr_endedAt := (if isTerminalRunStatus (aggregateWorkflowStatus entries) then Some t
                       else wr_endedAt run) \<rparr>"
    show okr: "WorkflowRun_ok ?run'" using ok t valid by (rule WorkflowRun_ok_replace)
    then show "requestWorkflowCancellation run t = Inr ?run'"
      by (simp add: requestWorkflowCancellation_def entries from_entries Let_def)
    show "list_all2 (\<lambda>(k, r) (k', r'). k' = k \<and> nr_attempt r' = nr_attempt r
          \<and> nr_status r' = (if isTerminalRunStatus (nr_status r) then nr_status r
                            else if isActiveStatus (nr_status r) then Cancelling else Cancelled)
          \<and> (isActiveStatus (nr_status r) \<longrightarrow> nr_process r' = nr_process r))
        (wr_nodeRuns run) (wr_nodeRuns ?run')"
      using post by (auto elim!: list_all2_mono)
  qed
qed

text \<open>
  Cancelling a workflow never throws on a schema-valid run, and it stops everything that has
  not started: afterwards each node run is terminal or \<open>cancelling\<close>, the nodes and attempts are
  unchanged, and a run that was active keeps its process reference (so the host can still kill it).
\<close>

lemma requestWorkflowCancellation_total:
  assumes ok: "WorkflowRun_ok run" and keys: "obj_ok (wr_nodeRuns run)" and t: "is_timestamp t"
  shows "\<exists>run'. requestWorkflowCancellation run t = Inr run' \<and> WorkflowRun_ok run'
    \<and> list_all2 (\<lambda>(k, r) (k', r'). k' = k \<and> nr_attempt r' = nr_attempt r
          \<and> nr_status r' = (if isTerminalRunStatus (nr_status r) then nr_status r
                            else if isActiveStatus (nr_status r) then Cancelling else Cancelled)
          \<and> (isActiveStatus (nr_status r) \<longrightarrow> nr_process r' = nr_process r))
        (wr_nodeRuns run) (wr_nodeRuns run')"
  using assms by (rule request_cancellation)

section \<open>Recovery after a host restart\<close>

definition provably_alive :: "(int \<Rightarrow> string option) \<Rightarrow> node_run \<Rightarrow> bool" where
  "provably_alive live r =
     (nr_internalExecution r = None
      \<and> (case nr_process r of None \<Rightarrow> False
         | Some p \<Rightarrow> live (pr_pid p) = Some (pr_identityToken p)))"

lemma recovery_entry_total:
  assumes ok: "NodeRunState_ok r" and t: "is_timestamp t"
  shows "\<exists>r' lost. recovery_entry live t (k, r) = Inr ((k, r'), lost) \<and> NodeRunState_ok r'
           \<and> nr_nodeId r' = nr_nodeId r
           \<and> lost = (isActiveStatus (nr_status r) \<and> \<not> provably_alive live r)
           \<and> (if lost then nr_status r' = Lost \<and> nr_attempt r' = nr_attempt r else r' = r)"
proof (cases "nr_status r = Running \<or> nr_status r = Cancelling")
  case False
  then show ?thesis using ok by (auto simp: recovery_entry_def isActiveStatus_def)
next
  case True
  show ?thesis
  proof (cases "provably_alive live r")
    case alive: True
    then show ?thesis using ok True
      by (auto simp: recovery_entry_def provably_alive_def split: option.splits)
  next
    case dead: False
    have "nr_process r \<noteq> None \<or> nr_internalExecution r \<noteq> None"
      using ok True by (auto simp: NodeRunState_ok_def)
    then show ?thesis using ok t True dead
      by (auto simp: recovery_entry_def provably_alive_def transitionNodeRun_def Let_def
          canTransitionRun_def NodeRunStateSchema_parse_def NodeRunState_ok_def opt_ok_def
          len_between_def split: option.splits)
  qed
qed

lemma recover_interrupted:
  assumes ok: "WorkflowRun_ok run" and keys: "obj_ok (wr_nodeRuns run)" and t: "is_timestamp t"
  shows "\<exists>run' lost. recoverInterruptedRun run live t = Inr (run', lost) \<and> WorkflowRun_ok run'
    \<and> list_all2 (\<lambda>(k, r) (k', r'). k' = k
          \<and> (if isActiveStatus (nr_status r) \<and> \<not> provably_alive live r
             then nr_status r' = Lost \<and> nr_attempt r' = nr_attempt r else r' = r))
        (wr_nodeRuns run) (wr_nodeRuns run')
    \<and> set lost = {k. \<exists>r. (k, r) \<in> set (wr_nodeRuns run) \<and> isActiveStatus (nr_status r)
                          \<and> \<not> provably_alive live r}"
proof -
  let ?post = "\<lambda>(k, r) ((k', r'), lost). k' = k \<and> NodeRunState_ok r' \<and> nr_nodeId r' = nr_nodeId r
      \<and> lost = (isActiveStatus (nr_status r) \<and> \<not> provably_alive live r)
      \<and> (if lost then nr_status r' = Lost \<and> nr_attempt r' = nr_attempt r else r' = r)"
  have entry: "\<exists>e'. recovery_entry live t e = Inr e' \<and> ?post e e'" if "e \<in> set (wr_nodeRuns run)" for e
  proof -
    obtain k r where e: "e = (k, r)" by (cases e)
    have "NodeRunState_ok r" using WorkflowRun_okD(1) [OF ok] that e by blast
    from recovery_entry_total [OF this t, of live k] show ?thesis using e by auto
  qed
  then obtain results where results: "map_res (recovery_entry live t) (wr_nodeRuns run) = Inr results"
    using map_res_total by (metis (no_types, lifting))
  then have "list_all2 (\<lambda>e e'. recovery_entry live t e = Inr e') (wr_nodeRuns run) results"
    by (simp add: map_res_Inr_list_all2)
  then have post: "list_all2 ?post (wr_nodeRuns run) results"
    by (rule list.rel_mono_strong) (use entry in fastforce)
  then have "map fst (map fst results) = map fst (wr_nodeRuns run)"
    by (induction rule: list_all2_induct) auto
  then have from_results: "obj_from (map fst results) = map fst results"
    using keys by (rule obj_from_same_keys [rotated])
  have lostset: "set (map (\<lambda>((k, _), _). k) (filter (\<lambda>(_, lost). lost) results)) =
      {k. \<exists>r. (k, r) \<in> set (wr_nodeRuns run) \<and> isActiveStatus (nr_status r) \<and> \<not> provably_alive live r}"
    using post by (induction rule: list_all2_induct) auto
  have valid: "NodeRunState_ok r' \<and> nr_nodeId r' = k'" if "(k', r') \<in> set (map fst results)" for k' r'
    using post that WorkflowRun_okD(2) [OF ok]
    by (fastforce simp: list_all2_conv_all_nth in_set_conv_nth)
  let ?runs = "map fst results"
  let ?run' = "run\<lparr> wr_nodeRuns := ?runs, wr_status := aggregateWorkflowStatus ?runs,
      wr_updatedAt := t,
      wr_endedAt := (if isTerminalRunStatus (aggregateWorkflowStatus ?runs) then Some t
                     else wr_endedAt run) \<rparr>"
  have okr: "WorkflowRun_ok ?run'" using ok t valid by (rule WorkflowRun_ok_replace)
  then have parse: "WorkflowRunSchema_parse ?run' = Inr ?run'" by simp
  show ?thesis
  proof (intro exI conjI)
    show "recoverInterruptedRun run live t =
        Inr (?run', sort_ids (map (\<lambda>((k, _), _). k) (filter (\<lambda>(_, lost). lost) results)))"
      by (simp only: recoverInterruptedRun_def results from_results Let_def res_bind_simps parse)
    show "WorkflowRun_ok ?run'" by (rule okr)
    show "list_all2 (\<lambda>(k, r) (k', r'). k' = k
          \<and> (if isActiveStatus (nr_status r) \<and> \<not> provably_alive live r
             then nr_status r' = Lost \<and> nr_attempt r' = nr_attempt r else r' = r))
        (wr_nodeRuns run) (wr_nodeRuns ?run')"
      using post by (auto simp: list_all2_map2 elim!: list_all2_mono)
    show "set (sort_ids (map (\<lambda>((k, _), _). k) (filter (\<lambda>(_, lost). lost) results))) =
        {k. \<exists>r. (k, r) \<in> set (wr_nodeRuns run) \<and> isActiveStatus (nr_status r) \<and> \<not> provably_alive live r}"
      using lostset by simp
  qed
qed

text \<open>
  Recovery after a restart never throws on a schema-valid run. A node run that was active stays
  active only with an exact live process identity (same pid, same identity token); every other one,
  in particular each in-process execution, becomes \<open>lost\<close> in the same attempt. All other node runs
  are unchanged, and the reported list is exactly the ids of the runs that became lost.
\<close>

lemma recoverInterruptedRun_total:
  assumes ok: "WorkflowRun_ok run" and keys: "obj_ok (wr_nodeRuns run)" and t: "is_timestamp t"
  shows "\<exists>run' lost. recoverInterruptedRun run live t = Inr (run', lost) \<and> WorkflowRun_ok run'
    \<and> list_all2 (\<lambda>(k, r) (k', r'). k' = k
          \<and> (if isActiveStatus (nr_status r) \<and> \<not> provably_alive live r
             then nr_status r' = Lost \<and> nr_attempt r' = nr_attempt r else r' = r))
        (wr_nodeRuns run) (wr_nodeRuns run')
    \<and> set lost = {k. \<exists>r. (k, r) \<in> set (wr_nodeRuns run) \<and> isActiveStatus (nr_status r)
                          \<and> \<not> provably_alive live r}"
  using assms by (rule recover_interrupted)

section \<open>The revision loop is bounded\<close>

fun run_loop :: "revision_loop \<Rightarrow> loop_state \<Rightarrow> loop_event list \<Rightarrow> loop_state res" where
  "run_loop l s [] = return s"
| "run_loop l s (e # es) = res_bind (advanceRevisionLoop l s e) (\<lambda>s'. run_loop l s' es)"

definition loop_inv :: "revision_loop \<Rightarrow> loop_state \<Rightarrow> bool" where
  "loop_inv l s =
     (ls_loopId s = loop_id l \<and> 1 \<le> ls_attemptsStarted s
      \<and> ls_attemptsStarted s \<le> loop_maximumAttempts l
      \<and> (ls_status s = RevisionRequired \<longrightarrow> ls_attemptsStarted s < loop_maximumAttempts l)
      \<and> (\<forall>c. ls_stopCondition s = Some c \<longrightarrow> c \<in> set (loop_stopConditions l))
      \<and> (ls_status s = Satisfied \<longrightarrow> ls_stopCondition s \<noteq> None))"

definition restarts :: "loop_event list \<Rightarrow> nat" where
  "restarts es = length (filter (\<lambda>e. e = RevisionCompleted) es)"

lemma advance_inv:
  assumes "loop_inv l s" and "advanceRevisionLoop l s e = Inr s'"
  shows "loop_inv l s'
    \<and> ls_attemptsStarted s' = ls_attemptsStarted s + (if e = RevisionCompleted then 1 else 0)"
  using assms
  by (cases e) (auto simp: advanceRevisionLoop_def loop_inv_def withoutEligibility_def split: if_splits)

lemma run_loop_inv:
  "loop_inv l s \<Longrightarrow> run_loop l s es = Inr s'
   \<Longrightarrow> loop_inv l s' \<and> ls_attemptsStarted s' = ls_attemptsStarted s + int (restarts es)"
proof (induction es arbitrary: s)
  case Nil
  then show ?case by (simp add: restarts_def)
next
  case (Cons e es)
  from Cons.prems(2) obtain s1 where s1: "advanceRevisionLoop l s e = Inr s1" "run_loop l s1 es = Inr s'"
    by (auto simp: res_bind_eq_Inr)
  from advance_inv [OF Cons.prems(1) s1(1)] Cons.IH [OF _ s1(2)] show ?case
    by (auto simp: restarts_def)
qed

lemma loop_inv_create: "1 \<le> loop_maximumAttempts l \<Longrightarrow> loop_inv l (createRevisionLoopState l)"
  by (simp add: loop_inv_def createRevisionLoopState_def)

text \<open>
  C32. However reviews, revisions and people interleave, a loop state reached from the initial one
  has started one attempt plus one per restart and never more than \<open>maximumAttempts\<close>; it asks for
  a revision only while another attempt is allowed. A failed review of the last attempt hands the
  loop to the human, from where only an abort or a configured stop condition moves it on.
\<close>

theorem revision_loop_bounded:
  assumes max: "1 \<le> loop_maximumAttempts l"
    and run: "run_loop l (createRevisionLoopState l) es = Inr s"
  shows "ls_attemptsStarted s = 1 + int (restarts es)
    \<and> ls_attemptsStarted s \<le> loop_maximumAttempts l
    \<and> (ls_status s = RevisionRequired \<longrightarrow> ls_attemptsStarted s < loop_maximumAttempts l)
    \<and> (ls_status s = ReviewRequired \<and> ls_attemptsStarted s = loop_maximumAttempts l
        \<and> trim feedback \<noteq> []
        \<longrightarrow> (\<exists>s'. advanceRevisionLoop l s (ReviewFailed feedback) = Inr s' \<and> ls_status s' = WaitingHuman))
    \<and> (ls_status s = WaitingHuman \<and> advanceRevisionLoop l s e = Inr s'
        \<longrightarrow> e = HumanAborted \<or> (\<exists>c \<in> set (loop_stopConditions l). e = StopConditionMet c))"
proof -
  have inv: "loop_inv l s" and count: "ls_attemptsStarted s = 1 + int (restarts es)"
    using run_loop_inv [OF loop_inv_create [OF max] run]
    by (simp_all add: createRevisionLoopState_def)
  show ?thesis
  proof (intro conjI impI)
    show "\<exists>s'. advanceRevisionLoop l s (ReviewFailed feedback) = Inr s' \<and> ls_status s' = WaitingHuman"
      if "ls_status s = ReviewRequired \<and> ls_attemptsStarted s = loop_maximumAttempts l \<and> trim feedback \<noteq> []"
      using that inv by (simp add: advanceRevisionLoop_def loop_inv_def)
    show "e = HumanAborted \<or> (\<exists>c \<in> set (loop_stopConditions l). e = StopConditionMet c)"
      if "ls_status s = WaitingHuman \<and> advanceRevisionLoop l s e = Inr s'"
      using that by (cases e) (auto simp: advanceRevisionLoop_def split: if_splits)
  qed (use inv count in \<open>auto simp: loop_inv_def\<close>)
qed

end
