(* ===== verification/Gates.thy ===== *)
theory Gates
  imports Run_State
begin

text \<open>
  Review gates (\<open>packages/core/src/workflow/gates.ts\<close>): findings, reviewer assessments and
  \<open>evaluateReviewGate\<close>, which decides a gate from deterministic checks first, then the reviewer,
  then the human.
\<close>

datatype severity = Info | Warning | SeverityError
datatype verdict = Approved | ChangesRequested

record review_finding =
  rf_id :: entity_id
  rf_severity :: severity
  rf_message :: string
  rf_blocking :: bool
  rf_path :: "string option"
  rf_line :: "int option"

record reviewer_assessment =
  ra_runId :: entity_id
  ra_reviewEdgeId :: entity_id
  ra_reviewerNodeId :: entity_id
  ra_reviewerAttempt :: int
  ra_reviewedNodeId :: entity_id
  ra_reviewedNodeAttempt :: int
  ra_reviewedOutputDigest :: string
  ra_verdict :: verdict
  ra_findings :: "review_finding list"
  ra_summary :: "string option"

definition ReviewFinding_ok :: "review_finding \<Rightarrow> bool" where
  "ReviewFinding_ok f =
     (EntityId_ok (rf_id f) \<and> len_between 1 100000 (rf_message f)
      \<and> opt_ok RelativePath_ok (rf_path f) \<and> opt_ok (\<lambda>n. 0 < n) (rf_line f))"

definition ReviewerAssessment_ok :: "reviewer_assessment \<Rightarrow> bool" where
  "ReviewerAssessment_ok a =
     (EntityId_ok (ra_runId a) \<and> EntityId_ok (ra_reviewEdgeId a) \<and> EntityId_ok (ra_reviewerNodeId a)
      \<and> 0 < ra_reviewerAttempt a \<and> EntityId_ok (ra_reviewedNodeId a) \<and> 0 < ra_reviewedNodeAttempt a
      \<and> len_between 8 256 (ra_reviewedOutputDigest a)
      \<and> list_all ReviewFinding_ok (ra_findings a) \<and> length (ra_findings a) \<le> 10000
      \<and> opt_ok (len_between 0 200000) (ra_summary a)
      \<and> \<not> (ra_verdict a = Approved \<and> list_ex rf_blocking (ra_findings a)))"

definition ReviewerAssessmentSchema_parse :: "reviewer_assessment \<Rightarrow> reviewer_assessment res" where
  "ReviewerAssessmentSchema_parse a =
     (if ReviewerAssessment_ok a then return a else throw (ZodError ''ReviewerAssessmentSchema''))"

lemma ReviewerAssessmentSchema_parse_Inr [simp]:
  "ReviewerAssessmentSchema_parse a = Inr a' \<longleftrightarrow> ReviewerAssessment_ok a \<and> a' = a"
  by (auto simp: ReviewerAssessmentSchema_parse_def)

datatype gate_status = GatePend | GateWaitHuman | GateFail | GatePass
datatype deterministic_status = DetPending | DetFailed | DetPassed
datatype reviewer_status = RevNotRequired | RevPending | RevFailed | RevPassed
datatype human_status = HumanNotRequired | HumanPending | HumanApproved

record gate_evaluation =
  ge_status :: gate_status
  ge_deterministicStatus :: deterministic_status
  ge_reviewerStatus :: reviewer_status
  ge_humanStatus :: human_status
  ge_missingCheckIds :: "string list"
  ge_failedCheckIds :: "string list"
  ge_pendingCheckIds :: "string list"
  ge_blockingFindingIds :: "string list"
  ge_reasons :: "string list"

definition ReviewGateEvaluation_ok :: "gate_evaluation \<Rightarrow> bool" where
  "ReviewGateEvaluation_ok e =
     (list_all EntityId_ok (ge_missingCheckIds e) \<and> list_all EntityId_ok (ge_failedCheckIds e)
      \<and> list_all EntityId_ok (ge_pendingCheckIds e) \<and> list_all EntityId_ok (ge_blockingFindingIds e)
      \<and> list_all (len_between 1 20000) (ge_reasons e))"

definition ReviewGateEvaluationSchema_parse :: "gate_evaluation \<Rightarrow> gate_evaluation res" where
  "ReviewGateEvaluationSchema_parse e =
     (if ReviewGateEvaluation_ok e then return e else throw (ZodError ''ReviewGateEvaluationSchema''))"

record gate_evidence =
  gv_checks :: "check_result list"
  gv_reviewerAssessment :: "reviewer_assessment option"
  gv_humanApproved :: bool

section \<open>Selecting the checks of a gate\<close>

definition requiredKinds :: "review_gate_data \<Rightarrow> check_kind list" where
  "requiredKinds gate =
     (if rg_lintRequired gate then [LintCheck] else []) @ (if rg_testsRequired gate then [TestCheck] else [])"

text \<open>
  \<open>selectedChecks\<close>. A \<open>Map\<close> built from entries keeps the first position and the last value of a
  key, which is \<^const>\<open>obj_from\<close>.
\<close>

definition selectedChecks ::
  "review_gate_data \<Rightarrow> check_result list \<Rightarrow> check_result list \<times> entity_id list \<times> check_kind list" where
  "selectedChecks gate checks =
     (let byId = obj_from (map (\<lambda>c. (ck_id c, c)) checks);
          requiredById = concat (map (\<lambda>i. case obj_get byId i of None \<Rightarrow> [] | Some c \<Rightarrow> [c])
                                     (rg_requiredCheckIds gate));
          kinds = requiredKinds gate;
          requiredByKind = filter (\<lambda>c. ck_kind c \<in> set kinds) checks
      in (obj_values (obj_from (map (\<lambda>c. (ck_id c, c)) (requiredById @ requiredByKind))),
          filter (\<lambda>i. obj_get byId i = None) (rg_requiredCheckIds gate),
          filter (\<lambda>k. \<not> list_ex (\<lambda>c. ck_kind c = k) checks) kinds))"

section \<open>Evaluation\<close>

definition gate_reasons ::
  "string list \<Rightarrow> string list \<Rightarrow> string list \<Rightarrow> reviewer_status \<Rightarrow> human_status \<Rightarrow> string list" where
  "gate_reasons missing pending failed reviewerStatus humanStatus =
     (if missing \<noteq> [] then [''Required checks are missing: '' @ join '', '' missing] else [])
     @ (if pending \<noteq> [] then [''Required checks are still running: '' @ join '', '' pending] else [])
     @ (if failed \<noteq> [] then [''Required checks failed: '' @ join '', '' failed] else [])
     @ (if reviewerStatus = RevPending then [''The reviewer agent still needs to finish its review''] else [])
     @ (if reviewerStatus = RevFailed then [''Reviewer requested changes''] else [])
     @ (if humanStatus = HumanPending then [''Your approval is required''] else [])"

text \<open>The evaluation object, from the parsed assessment.\<close>

definition gateEvaluation ::
  "review_gate_data \<Rightarrow> gate_evidence \<Rightarrow> reviewer_assessment option \<Rightarrow> gate_evaluation" where
  "gateEvaluation gate evidence assessment =
     (let (selected, missingIds, missingKinds) = selectedChecks gate (gv_checks evidence);
          missingCheckIds = uniqueSorted (missingIds @ map (\<lambda>k. ''required-'' @ check_kind_text k) missingKinds);
          failedCheckIds = uniqueSorted (map ck_id
            (filter (\<lambda>c. ck_status c \<in> {CheckFailed, CheckCancelled, CheckLost}) selected));
          pendingCheckIds = uniqueSorted (map ck_id
            (filter (\<lambda>c. ck_status c = CheckQueued \<or> ck_status c = CheckRunning) selected));
          deterministicStatus = (if failedCheckIds \<noteq> [] then DetFailed
            else if missingCheckIds \<noteq> [] \<or> pendingCheckIds \<noteq> [] then DetPending else DetPassed);
          blockingFindingIds = uniqueSorted (case assessment of None \<Rightarrow> []
            | Some a \<Rightarrow> map rf_id (filter rf_blocking (ra_findings a)));
          reviewerStatus =
            (if rg_reviewerAgentId gate = None then RevNotRequired
             else case assessment of
               None \<Rightarrow> RevPending
             | Some a \<Rightarrow> if ra_verdict a = ChangesRequested \<or> blockingFindingIds \<noteq> []
                        then RevFailed else RevPassed);
          humanStatus =
            (if \<not> rg_humanApprovalRequired gate then HumanNotRequired
             else if gv_humanApproved evidence then HumanApproved else HumanPending);
          status =
            (if deterministicStatus = DetFailed \<or> reviewerStatus = RevFailed then GateFail
             else if deterministicStatus = DetPending \<or> reviewerStatus = RevPending then GatePend
             else if humanStatus = HumanPending then GateWaitHuman
             else GatePass)
      in \<lparr> ge_status = status, ge_deterministicStatus = deterministicStatus,
           ge_reviewerStatus = reviewerStatus, ge_humanStatus = humanStatus,
           ge_missingCheckIds = missingCheckIds, ge_failedCheckIds = failedCheckIds,
           ge_pendingCheckIds = pendingCheckIds, ge_blockingFindingIds = blockingFindingIds,
           ge_reasons = gate_reasons missingCheckIds pendingCheckIds failedCheckIds
                          reviewerStatus humanStatus \<rparr>)"

definition evaluateReviewGate :: "review_gate_data \<Rightarrow> gate_evidence \<Rightarrow> gate_evaluation res" where
  "evaluateReviewGate gate evidence =
     res_bind (case gv_reviewerAssessment evidence of
                 None \<Rightarrow> return None
               | Some a \<Rightarrow> res_bind (ReviewerAssessmentSchema_parse a) (\<lambda>a'. return (Some a')))
       (\<lambda>assessment. ReviewGateEvaluationSchema_parse (gateEvaluation gate evidence assessment))"

section \<open>What a gate promises\<close>

text \<open>
  The contract of a gate, without the evaluation's intermediate lists: every required check was
  reported, every check the gate looks at passed, each required kind is present; the configured
  reviewer approved with no blocking finding; the human approved where that is required.
\<close>

definition relevant_check :: "review_gate_data \<Rightarrow> check_result \<Rightarrow> bool" where
  "relevant_check gate c =
     (ck_id c \<in> set (rg_requiredCheckIds gate) \<or> ck_kind c \<in> set (requiredKinds gate))"

definition checks_satisfied :: "review_gate_data \<Rightarrow> check_result list \<Rightarrow> bool" where
  "checks_satisfied gate checks =
     ((\<forall>i \<in> set (rg_requiredCheckIds gate). \<exists>c \<in> set checks. ck_id c = i)
      \<and> (\<forall>k \<in> set (requiredKinds gate). \<exists>c \<in> set checks. ck_kind c = k)
      \<and> (\<forall>c \<in> set checks. relevant_check gate c \<longrightarrow> ck_status c = CheckPassed))"

definition reviewer_satisfied :: "review_gate_data \<Rightarrow> reviewer_assessment option \<Rightarrow> bool" where
  "reviewer_satisfied gate assessment =
     (rg_reviewerAgentId gate = None
      \<or> (\<exists>a. assessment = Some a \<and> ra_verdict a = Approved \<and> (\<forall>f \<in> set (ra_findings a). \<not> rf_blocking f)))"

definition human_satisfied :: "review_gate_data \<Rightarrow> bool \<Rightarrow> bool" where
  "human_satisfied gate approved = (rg_humanApprovalRequired gate \<longrightarrow> approved)"

lemma obj_values_from_ids:
  assumes "\<And>c. c \<in> set cs \<Longrightarrow> c \<in> set checks" and "distinct (map ck_id checks)"
  shows "set (obj_values (obj_from (map (\<lambda>c. (ck_id c, c)) cs))) = set cs"
proof -
  have inj: "c = d" if "c \<in> set checks" "d \<in> set checks" "ck_id c = ck_id d" for c d
    using assms(2) that by (metis distinct_map inj_onD)
  have gen: "set (obj_values (fold (\<lambda>(k, v). obj_put k v) (map (\<lambda>c. (ck_id c, c)) ds) ob))
        = set (obj_values ob) \<union> set ds"
    if "\<forall>(k, v) \<in> set ob. k = ck_id v \<and> v \<in> set checks" "obj_ok ob" "set ds \<subseteq> set checks" for ds ob
    using that
  proof (induction ds arbitrary: ob)
    case Nil
    then show ?case by simp
  next
    case (Cons d ds)
    have put: "(k, v) \<in> set (obj_put (ck_id d) d ob) \<longleftrightarrow> (k, v) \<in> set ob \<or> (k = ck_id d \<and> v = d)" for k v
    proof -
      have "obj_get (obj_put (ck_id d) d ob) k = Some v
            \<longleftrightarrow> obj_get ob k = Some v \<or> (k = ck_id d \<and> v = d)"
        using Cons.prems inj by (auto simp: obj_get_eq_Some_iff)
      moreover have "(k, v) \<in> set (obj_put (ck_id d) d ob) \<longleftrightarrow> obj_get (obj_put (ck_id d) d ob) k = Some v"
        by (rule obj_get_eq_Some_iff [symmetric]) (simp add: Cons.prems(2))
      ultimately show ?thesis using Cons.prems(2) by (simp only: obj_get_eq_Some_iff)
    qed
    then have "set (obj_values (obj_put (ck_id d) d ob)) = insert d (set (obj_values ob))"
      by (force simp: obj_values_def image_iff)
    moreover have "\<forall>(k, v) \<in> set (obj_put (ck_id d) d ob). k = ck_id v \<and> v \<in> set checks"
      using put Cons.prems by auto
    ultimately show ?case
      using Cons.IH [of "obj_put (ck_id d) d ob"] Cons.prems by auto
  qed
  from gen [of "[]" cs] assms(1) show ?thesis
    by (auto simp: obj_from_def obj_values_def)
qed

lemma set_case_option: "set (case x of None \<Rightarrow> [] | Some c \<Rightarrow> [c]) = {c. x = Some c}"
  by (cases x) auto

lemma get_check_by_id:
  assumes "distinct (map ck_id checks)"
  shows "obj_get (obj_from (map (\<lambda>c. (ck_id c, c)) checks)) i = Some c \<longleftrightarrow> c \<in> set checks \<and> ck_id c = i"
proof -
  have "obj_from (map (\<lambda>c. (ck_id c, c)) checks) = map (\<lambda>c. (ck_id c, c)) checks"
    using assms by (intro obj_from_distinct) (simp add: comp_def)
  moreover have "obj_ok (map (\<lambda>c. (ck_id c, c)) checks)"
    using assms by (simp add: obj_ok_def comp_def)
  ultimately show ?thesis by (auto simp: obj_get_eq_Some_iff)
qed

lemma selectedChecks_correct:
  assumes dist: "distinct (map ck_id checks)"
    and sel: "selectedChecks gate checks = (selected, missingIds, missingKinds)"
  shows "set selected = {c \<in> set checks. relevant_check gate c}"
    and "set missingIds = {i \<in> set (rg_requiredCheckIds gate). \<forall>c \<in> set checks. ck_id c \<noteq> i}"
    and "set missingKinds = {k \<in> set (requiredKinds gate). \<forall>c \<in> set checks. ck_kind c \<noteq> k}"
proof -
  let ?byId = "obj_from (map (\<lambda>c. (ck_id c, c)) checks)"
  let ?req = "concat (map (\<lambda>i. case obj_get ?byId i of None \<Rightarrow> [] | Some c \<Rightarrow> [c]) (rg_requiredCheckIds gate))"
  let ?cs = "?req @ filter (\<lambda>c. ck_kind c \<in> set (requiredKinds gate)) checks"
  have req: "set ?req = {c \<in> set checks. ck_id c \<in> set (rg_requiredCheckIds gate)}"
  proof -
    have "set ?req = (\<Union>i \<in> set (rg_requiredCheckIds gate). {c. obj_get ?byId i = Some c})"
      by (simp only: set_concat set_map image_image set_case_option)
    then show ?thesis unfolding get_check_by_id [OF dist] by blast
  qed
  have none: "obj_get ?byId i = None \<longleftrightarrow> (\<forall>c \<in> set checks. ck_id c \<noteq> i)" for i
  proof -
    have "obj_get ?byId i = None \<longleftrightarrow> (\<forall>c. obj_get ?byId i \<noteq> Some c)"
      by (cases "obj_get ?byId i") simp_all
    then show ?thesis unfolding get_check_by_id [OF dist] by blast
  qed
  have "set (obj_values (obj_from (map (\<lambda>c. (ck_id c, c)) ?cs))) = set ?cs"
    using req by (intro obj_values_from_ids [OF _ dist]) auto
  also have "\<dots> = {c \<in> set checks. relevant_check gate c}"
    unfolding set_append req by (auto simp: relevant_check_def)
  finally show "set selected = {c \<in> set checks. relevant_check gate c}"
    using sel by (auto simp: selectedChecks_def Let_def)
  show "set missingIds = {i \<in> set (rg_requiredCheckIds gate). \<forall>c \<in> set checks. ck_id c \<noteq> i}"
    using sel none by (auto simp: selectedChecks_def Let_def)
  show "set missingKinds = {k \<in> set (requiredKinds gate). \<forall>c \<in> set checks. ck_kind c \<noteq> k}"
    using sel by (auto simp: selectedChecks_def Let_def list_ex_iff)
qed

definition failed_status :: "check_status \<Rightarrow> bool" where
  "failed_status s = (s \<in> {CheckFailed, CheckCancelled, CheckLost})"

lemma passed_iff:
  "s = CheckPassed \<longleftrightarrow> \<not> failed_status s \<and> s \<noteq> CheckQueued \<and> s \<noteq> CheckRunning"
  by (cases s) (simp_all add: failed_status_def)

text \<open>The fields of an evaluation, one by one.\<close>

lemma evaluateReviewGate_fields:
  assumes dist: "distinct (map ck_id (gv_checks ev))" and eval: "evaluateReviewGate gate ev = Inr e"
  shows "ge_deterministicStatus e = DetPassed \<longleftrightarrow> checks_satisfied gate (gv_checks ev)"
    and "ge_deterministicStatus e = DetFailed
         \<longleftrightarrow> (\<exists>c \<in> set (gv_checks ev). relevant_check gate c \<and> failed_status (ck_status c))"
    and "ge_reviewerStatus e \<in> {RevNotRequired, RevPassed}
         \<longleftrightarrow> reviewer_satisfied gate (gv_reviewerAssessment ev)"
    and "ge_reviewerStatus e = RevFailed \<longleftrightarrow> rg_reviewerAgentId gate \<noteq> None
         \<and> (\<exists>a. gv_reviewerAssessment ev = Some a \<and> ra_verdict a = ChangesRequested)"
    and "ge_humanStatus e \<noteq> HumanPending \<longleftrightarrow> human_satisfied gate (gv_humanApproved ev)"
    and "ge_status e =
      (if ge_deterministicStatus e = DetFailed \<or> ge_reviewerStatus e = RevFailed then GateFail
       else if ge_deterministicStatus e = DetPending \<or> ge_reviewerStatus e = RevPending then GatePend
       else if ge_humanStatus e = HumanPending then GateWaitHuman else GatePass)"
proof -
  obtain selected missingIds missingKinds where
    sel: "selectedChecks gate (gv_checks ev) = (selected, missingIds, missingKinds)"
    by (metis prod_cases3)
  note S = selectedChecks_correct [OF dist sel]
  have failed: "filter (\<lambda>c. ck_status c \<in> {CheckFailed, CheckCancelled, CheckLost}) selected = []
      \<longleftrightarrow> \<not> (\<exists>c \<in> set (gv_checks ev). relevant_check gate c \<and> failed_status (ck_status c))"
    using S(1) by (auto simp: filter_empty_conv failed_status_def)
  have pending: "filter (\<lambda>c. ck_status c = CheckQueued \<or> ck_status c = CheckRunning) selected = []
      \<longleftrightarrow> \<not> (\<exists>c \<in> set (gv_checks ev). relevant_check gate c \<and> ck_status c \<in> {CheckQueued, CheckRunning})"
    using S(1) by (auto simp: filter_empty_conv)
  have missing: "missingIds @ map f missingKinds = [] \<longleftrightarrow>
      (\<forall>i \<in> set (rg_requiredCheckIds gate). \<exists>c \<in> set (gv_checks ev). ck_id c = i)
      \<and> (\<forall>k \<in> set (requiredKinds gate). \<exists>c \<in> set (gv_checks ev). ck_kind c = k)" for f
  proof -
    have "missingIds = [] \<longleftrightarrow> (\<forall>i \<in> set (rg_requiredCheckIds gate). \<exists>c \<in> set (gv_checks ev). ck_id c = i)"
      using S(2) by (auto simp flip: set_empty)
    moreover have "missingKinds = [] \<longleftrightarrow> (\<forall>k \<in> set (requiredKinds gate). \<exists>c \<in> set (gv_checks ev). ck_kind c = k)"
      using S(3) by (auto simp flip: set_empty)
    ultimately show ?thesis by simp
  qed
  have e: "e = gateEvaluation gate ev (gv_reviewerAssessment ev)"
    and blocking: "\<And>a. gv_reviewerAssessment ev = Some a \<Longrightarrow> ra_verdict a = Approved
                       \<Longrightarrow> \<not> list_ex rf_blocking (ra_findings a)"
    using eval
    by (auto simp: evaluateReviewGate_def ReviewGateEvaluationSchema_parse_def res_bind_eq_Inr
        ReviewerAssessment_ok_def split: option.splits if_splits)
  note fields = e gateEvaluation_def sel Let_def prod.case gate_evaluation.simps uniqueSorted_Nil_iff
      map_is_Nil_conv
  show "ge_deterministicStatus e = DetPassed \<longleftrightarrow> checks_satisfied gate (gv_checks ev)"
    unfolding fields missing failed pending
    by (auto simp: checks_satisfied_def passed_iff)
  show "ge_deterministicStatus e = DetFailed
      \<longleftrightarrow> (\<exists>c \<in> set (gv_checks ev). relevant_check gate c \<and> failed_status (ck_status c))"
    unfolding fields missing failed pending by auto
  show "ge_reviewerStatus e \<in> {RevNotRequired, RevPassed}
      \<longleftrightarrow> reviewer_satisfied gate (gv_reviewerAssessment ev)"
    unfolding fields reviewer_satisfied_def using blocking
    by (cases "gv_reviewerAssessment ev")
       (auto simp: filter_empty_conv intro: verdict.exhaust)
  show "ge_reviewerStatus e = RevFailed \<longleftrightarrow> rg_reviewerAgentId gate \<noteq> None
      \<and> (\<exists>a. gv_reviewerAssessment ev = Some a \<and> ra_verdict a = ChangesRequested)"
    unfolding fields using blocking
    by (cases "gv_reviewerAssessment ev")
       (auto simp: filter_empty_conv list_ex_iff intro: verdict.exhaust)
  show "ge_humanStatus e \<noteq> HumanPending \<longleftrightarrow> human_satisfied gate (gv_humanApproved ev)"
    unfolding fields by (simp add: human_satisfied_def)
  show "ge_status e =
      (if ge_deterministicStatus e = DetFailed \<or> ge_reviewerStatus e = RevFailed then GateFail
       else if ge_deterministicStatus e = DetPending \<or> ge_reviewerStatus e = RevPending then GatePend
       else if ge_humanStatus e = HumanPending then GateWaitHuman else GatePass)"
    unfolding fields by (rule refl)
qed

text \<open>
  C31. A gate decides exactly its contract. With check ids unique (what recording them enforces), a
  gate that evaluates passes if and only if every required check is present, every relevant check
  passed, the configured reviewer approved without blocking findings and the human approved where
  required; with everything but the human approval it waits for the human; and a failed, cancelled
  or lost relevant check fails it whatever the reviewer or the human say.
\<close>

theorem evaluateReviewGate_correct:
  assumes "distinct (map ck_id (gv_checks ev))" and "evaluateReviewGate gate ev = Inr e"
  shows "(ge_status e = GatePass
          \<longleftrightarrow> checks_satisfied gate (gv_checks ev) \<and> reviewer_satisfied gate (gv_reviewerAssessment ev)
              \<and> human_satisfied gate (gv_humanApproved ev))
    \<and> (ge_status e = GateWaitHuman
          \<longleftrightarrow> checks_satisfied gate (gv_checks ev) \<and> reviewer_satisfied gate (gv_reviewerAssessment ev)
              \<and> \<not> human_satisfied gate (gv_humanApproved ev))
    \<and> (ge_status e = GateFail
          \<longleftrightarrow> (\<exists>c \<in> set (gv_checks ev). relevant_check gate c
                  \<and> ck_status c \<in> {CheckFailed, CheckCancelled, CheckLost})
              \<or> (rg_reviewerAgentId gate \<noteq> None
                  \<and> (\<exists>a. gv_reviewerAssessment ev = Some a \<and> ra_verdict a = ChangesRequested)))"
proof -
  note F = evaluateReviewGate_fields [OF assms]
  have d: "ge_deterministicStatus e \<notin> {DetFailed, DetPending} \<longleftrightarrow> ge_deterministicStatus e = DetPassed"
    by (cases "ge_deterministicStatus e") auto
  have r: "ge_reviewerStatus e \<notin> {RevFailed, RevPending}
           \<longleftrightarrow> ge_reviewerStatus e \<in> {RevNotRequired, RevPassed}"
    by (cases "ge_reviewerStatus e") auto
  have pass: "ge_status e \<in> {GatePass, GateWaitHuman}
      \<longleftrightarrow> ge_deterministicStatus e \<notin> {DetFailed, DetPending} \<and> ge_reviewerStatus e \<notin> {RevFailed, RevPending}"
    unfolding F(6) by auto
  have "ge_status e = GatePass \<longleftrightarrow> ge_status e \<in> {GatePass, GateWaitHuman} \<and> ge_humanStatus e \<noteq> HumanPending"
    and "ge_status e = GateWaitHuman
         \<longleftrightarrow> ge_status e \<in> {GatePass, GateWaitHuman} \<and> \<not> ge_humanStatus e \<noteq> HumanPending"
    unfolding F(6) by auto
  moreover have "ge_status e = GateFail \<longleftrightarrow> ge_deterministicStatus e = DetFailed \<or> ge_reviewerStatus e = RevFailed"
    unfolding F(6) by auto
  ultimately show ?thesis
    unfolding pass d r F(1-5) failed_status_def by blast
qed

end
