(* ===== verification/Runtime.thy ===== *)
theory Runtime
  imports Run_Scope Gates
begin

text \<open>
  The execution runtime: the interfaces of \<open>packages/core/src/workflow-runtime/types.ts\<close>, the
  schemas of \<open>schemas.ts\<close> and \<open>createWorkflowExecutionRuntime\<close> of \<open>planning.ts\<close>. The host's evidence
  verifier is a record of four predicates: its implementation is outside this package, and every
  operation takes it as an argument.
\<close>

section \<open>Evidence\<close>

record output_publication =
  op_edgeId :: entity_id
  op_runId :: entity_id
  op_producerNodeId :: entity_id
  op_producerAttempt :: int
  op_outputKind :: output_kind
  op_referenceIds :: "entity_id list"
  op_contentDigest :: string
  op_verifiedAt :: timestamp
  op_verifierId :: entity_id

record node_completion_output =
  nc_runId :: entity_id
  nc_nodeId :: entity_id
  nc_nodeAttempt :: int
  nc_contentDigest :: string
  nc_sourceRunId :: entity_id
  nc_worktreePath :: string
  nc_artifactContent :: string
  nc_verifiedAt :: timestamp
  nc_verifierId :: entity_id

record context_resolution =
  cr_edgeId :: entity_id
  cr_runId :: entity_id
  cr_sourceNodeId :: entity_id
  cr_targetNodeId :: entity_id
  cr_targetAttempt :: int
  cr_attachmentIds :: "entity_id list"
  cr_contentDigest :: string
  cr_verifiedAt :: timestamp
  cr_verifierId :: entity_id

record evidence_verifier =
  verifyContextResolution :: "context_resolution \<Rightarrow> bool"
  verifyOutputPublication :: "output_publication \<Rightarrow> bool"
  verifyCheckResult :: "check_result \<Rightarrow> bool"
  verifyReviewerAssessment :: "reviewer_assessment \<Rightarrow> bool"

datatype approval_target = ExecuteEdgeTarget | HumanReviewTarget | ReviewGateTarget

record approval_request =
  hr_runId :: entity_id
  hr_targetId :: entity_id
  hr_targetType :: approval_target
  hr_targetAttempt :: int
  hr_evidenceFingerprint :: string

record human_approval = approval_request +
  ap_approvalId :: entity_id
  ap_approvedBy :: entity_id
  ap_approvedAt :: timestamp

record review_decision = approval_request +
  hd_decisionId :: entity_id
  hd_decision :: verdict
  hd_feedback :: "string option"
  hd_decidedBy :: entity_id
  hd_decidedAt :: timestamp

record escape_request =
  er_runId :: entity_id
  er_loopId :: entity_id
  er_attemptsStarted :: int
  er_evidenceFingerprint :: string

datatype escape_decision = EscapeAccept | EscapeCancel

record escape_resolution = escape_request +
  es_decision :: escape_decision
  es_decidedBy :: entity_id
  es_decidedAt :: timestamp

record execution_evidence =
  ev_humanApprovals :: "human_approval obj"
  ev_humanReviewDecisions :: "review_decision obj"
  ev_contextResolutions :: "context_resolution obj"
  ev_outputPublications :: "output_publication obj"
  ev_nodeCompletionOutputs :: "node_completion_output obj"
  ev_reviewerAssessments :: "reviewer_assessment obj"
  ev_gateChecks :: "check_result list obj"
  ev_revisionEscapes :: "escape_resolution obj"

section \<open>The runtime\<close>

record runtime =
  rt_canvas :: canvas
  rt_plan :: scoped_plan
  rt_run :: workflow_run
  rt_evidence :: execution_evidence
  rt_activeRevisionLoopIds :: "entity_id list"
  rt_cancellationRequested :: bool

abbreviation node_runs :: "runtime \<Rightarrow> node_run obj" where
  "node_runs rt \<equiv> wr_nodeRuns (rt_run rt)"

definition run_of :: "runtime \<Rightarrow> string \<Rightarrow> node_run option" where
  "run_of rt i = obj_get (node_runs rt) i"

datatype edge_disposition = EdgeSatisfied | EdgeWaiting | EdgeWaitingForApproval | EdgeBlocked | EdgeInactive

record edge_evaluation =
  ee_edgeId :: entity_id
  ee_type :: string
  ee_disposition :: edge_disposition
  ee_status :: run_status
  ee_reason :: string
  ee_gate :: "gate_evaluation option"

datatype readiness_disposition = NodeReady | NodeWaiting | NodeWaitingForApproval | NodeBlocked | NodeNotRunnable

record node_readiness =
  rd_nodeId :: entity_id
  rd_disposition :: readiness_disposition
  rd_edgeEvaluations :: "edge_evaluation list"
  rd_reasons :: "string list"

section \<open>Schemas\<close>

definition OutputPublication_ok :: "output_publication \<Rightarrow> bool" where
  "OutputPublication_ok p =
     (EntityId_ok (op_edgeId p) \<and> EntityId_ok (op_runId p) \<and> EntityId_ok (op_producerNodeId p)
      \<and> 0 < op_producerAttempt p
      \<and> list_all EntityId_ok (op_referenceIds p) \<and> len_between 1 10000 (op_referenceIds p)
      \<and> length (new_Set (op_referenceIds p)) = length (op_referenceIds p)
      \<and> len_between 8 256 (op_contentDigest p)
      \<and> is_timestamp (op_verifiedAt p) \<and> EntityId_ok (op_verifierId p))"

definition OutputPublicationSchema_parse :: "output_publication \<Rightarrow> output_publication res" where
  "OutputPublicationSchema_parse p =
     (if OutputPublication_ok p then return p else throw (ZodError ''OutputPublicationSchema''))"

definition sha256_ok :: "string \<Rightarrow> bool" where
  "sha256_ok s =
     (length s = 71 \<and> take 7 s = ''sha256:'' \<and> list_all (\<lambda>c. c \<in> set ''0123456789abcdef'') (drop 7 s))"

definition NodeCompletionOutput_ok :: "node_completion_output \<Rightarrow> bool" where
  "NodeCompletionOutput_ok o' =
     (EntityId_ok (nc_runId o') \<and> EntityId_ok (nc_nodeId o') \<and> 0 < nc_nodeAttempt o'
      \<and> sha256_ok (nc_contentDigest o') \<and> EntityId_ok (nc_sourceRunId o')
      \<and> len_between 1 32768 (nc_worktreePath o') \<and> length (nc_artifactContent o') \<le> 600000
      \<and> is_timestamp (nc_verifiedAt o') \<and> EntityId_ok (nc_verifierId o'))"

definition ContextResolution_ok :: "context_resolution \<Rightarrow> bool" where
  "ContextResolution_ok r =
     (EntityId_ok (cr_edgeId r) \<and> EntityId_ok (cr_runId r) \<and> EntityId_ok (cr_sourceNodeId r)
      \<and> EntityId_ok (cr_targetNodeId r) \<and> 0 < cr_targetAttempt r
      \<and> list_all EntityId_ok (cr_attachmentIds r) \<and> length (cr_attachmentIds r) \<le> 10000
      \<and> len_between 8 256 (cr_contentDigest r)
      \<and> is_timestamp (cr_verifiedAt r) \<and> EntityId_ok (cr_verifierId r))"

definition ContextResolutionSchema_parse :: "context_resolution \<Rightarrow> context_resolution res" where
  "ContextResolutionSchema_parse r =
     (if ContextResolution_ok r then return r else throw (ZodError ''ContextResolutionSchema''))"

definition ApprovalRequest_ok :: "'a approval_request_scheme \<Rightarrow> bool" where
  "ApprovalRequest_ok r =
     (EntityId_ok (hr_runId r) \<and> EntityId_ok (hr_targetId r) \<and> 0 < hr_targetAttempt r
      \<and> len_between 1 1000000 (hr_evidenceFingerprint r))"

definition ApprovalRequestSchema_parse :: "approval_request \<Rightarrow> approval_request res" where
  "ApprovalRequestSchema_parse r =
     (if ApprovalRequest_ok r then return r else throw (ZodError ''WorkflowHumanApprovalRequestSchema''))"

definition HumanApproval_ok :: "human_approval \<Rightarrow> bool" where
  "HumanApproval_ok a =
     (ApprovalRequest_ok a \<and> EntityId_ok (ap_approvalId a) \<and> EntityId_ok (ap_approvedBy a)
      \<and> is_timestamp (ap_approvedAt a))"

definition HumanApprovalSchema_parse :: "human_approval \<Rightarrow> human_approval res" where
  "HumanApprovalSchema_parse a =
     (if HumanApproval_ok a then return a else throw (ZodError ''WorkflowHumanApprovalSchema''))"

definition ReviewDecision_ok :: "review_decision \<Rightarrow> bool" where
  "ReviewDecision_ok d =
     (ApprovalRequest_ok d \<and> EntityId_ok (hd_decisionId d) \<and> opt_ok (len_between 1 200000) (hd_feedback d)
      \<and> EntityId_ok (hd_decidedBy d) \<and> is_timestamp (hd_decidedAt d)
      \<and> \<not> (hd_decision d = ChangesRequested \<and> hd_feedback d = None))"

definition ReviewDecisionSchema_parse :: "review_decision \<Rightarrow> review_decision res" where
  "ReviewDecisionSchema_parse d =
     (if ReviewDecision_ok d then return d else throw (ZodError ''WorkflowHumanReviewDecisionSchema''))"

definition EscapeRequest_ok :: "'a escape_request_scheme \<Rightarrow> bool" where
  "EscapeRequest_ok r =
     (EntityId_ok (er_runId r) \<and> EntityId_ok (er_loopId r) \<and> 0 < er_attemptsStarted r
      \<and> len_between 1 1000000 (er_evidenceFingerprint r))"

definition EscapeRequestSchema_parse :: "escape_request \<Rightarrow> escape_request res" where
  "EscapeRequestSchema_parse r =
     (if EscapeRequest_ok r then return r else throw (ZodError ''RevisionEscapeRequestSchema''))"

definition EscapeResolution_ok :: "escape_resolution \<Rightarrow> bool" where
  "EscapeResolution_ok r = (EscapeRequest_ok r \<and> EntityId_ok (es_decidedBy r) \<and> is_timestamp (es_decidedAt r))"

definition EscapeResolutionSchema_parse :: "escape_resolution \<Rightarrow> escape_resolution res" where
  "EscapeResolutionSchema_parse r =
     (if EscapeResolution_ok r then return r else throw (ZodError ''RevisionEscapeResolutionSchema''))"

lemma schema_parse_Inr [simp]:
  "OutputPublicationSchema_parse p = Inr p' \<longleftrightarrow> OutputPublication_ok p \<and> p' = p"
  "ContextResolutionSchema_parse r = Inr r' \<longleftrightarrow> ContextResolution_ok r \<and> r' = r"
  "ApprovalRequestSchema_parse q = Inr q' \<longleftrightarrow> ApprovalRequest_ok q \<and> q' = q"
  "HumanApprovalSchema_parse a = Inr a' \<longleftrightarrow> HumanApproval_ok a \<and> a' = a"
  "ReviewDecisionSchema_parse d = Inr d' \<longleftrightarrow> ReviewDecision_ok d \<and> d' = d"
  "EscapeRequestSchema_parse s = Inr s' \<longleftrightarrow> EscapeRequest_ok s \<and> s' = s"
  "EscapeResolutionSchema_parse t = Inr t' \<longleftrightarrow> EscapeResolution_ok t \<and> t' = t"
  by (auto simp: OutputPublicationSchema_parse_def ContextResolutionSchema_parse_def ApprovalRequestSchema_parse_def
      HumanApprovalSchema_parse_def ReviewDecisionSchema_parse_def EscapeRequestSchema_parse_def
      EscapeResolutionSchema_parse_def)

section \<open>Creating a runtime\<close>

definition no_evidence :: execution_evidence where
  "no_evidence =
     \<lparr> ev_humanApprovals = [], ev_humanReviewDecisions = [], ev_contextResolutions = [],
       ev_outputPublications = [], ev_nodeCompletionOutputs = [], ev_reviewerAssessments = [],
       ev_gateChecks = [], ev_revisionEscapes = [] \<rparr>"

definition queued_run :: "timestamp \<Rightarrow> string \<Rightarrow> node_run" where
  "queued_run occurredAt nodeId =
     \<lparr> nr_nodeId = nodeId, nr_status = Queued, nr_attempt = 1, nr_queuedAt = occurredAt,
       nr_startedAt = None, nr_endedAt = None, nr_process = None, nr_internalExecution = None,
       nr_resumable = False, nr_failureCode = None, nr_statusReason = None \<rparr>"

definition planned_loop :: "canvas \<Rightarrow> string \<Rightarrow> (string \<times> loop_state) res" where
  "planned_loop c loopId =
     (case find (\<lambda>l. loop_id l = loopId) (rev (canvas_revisionLoops c)) of
        None \<Rightarrow> throw (Error (''Planned revision loop is missing: '' @ loopId))
      | Some l \<Rightarrow> return (loopId, createRevisionLoopState l))"

definition createWorkflowExecutionRuntime ::
  "canvas \<Rightarrow> string \<Rightarrow> string \<Rightarrow> run_scope \<Rightarrow> timestamp \<Rightarrow> string list option \<Rightarrow> runtime res" where
  "createWorkflowExecutionRuntime untrustedCanvas planId runId scope occurredAt eligible =
     res_bind (CanvasSchema_parse untrustedCanvas) (\<lambda>c.
     res_bind (planWorkflowScope c planId scope eligible) (\<lambda>plan.
     res_bind (map_res (planned_loop c) (pl_revisionLoopIds plan)) (\<lambda>loops.
     res_bind (map_res (\<lambda>nodeId. res_bind (NodeRunStateSchema_parse (queued_run occurredAt nodeId))
         (\<lambda>r. return (nodeId, r))) (pl_nodeIds plan)) (\<lambda>runs.
     res_bind (WorkflowRunSchema_parse
         \<lparr> wr_id = runId, wr_canvasId = canvas_id c, wr_planId = pl_id plan, wr_status = Queued,
           wr_nodeRuns = obj_from runs, wr_revisionLoops = obj_from loops,
           wr_createdAt = occurredAt, wr_updatedAt = occurredAt, wr_endedAt = None \<rparr>) (\<lambda>run.
     return \<lparr> rt_canvas = c, rt_plan = plan, rt_run = run, rt_evidence = no_evidence,
              rt_activeRevisionLoopIds = [], rt_cancellationRequested = False \<rparr>)))))"

section \<open>The created runtime\<close>

text \<open>
  What never changes while a run executes: the canvas is valid, the plan is one of its scoped plans,
  and the run has exactly one node run per planned node and one loop state per planned loop.
\<close>

definition runtime_shape :: "runtime \<Rightarrow> bool" where
  "runtime_shape rt =
     (CanvasSchema_ok (rt_canvas rt) \<and> wellformed_canvas (rt_canvas rt)
      \<and> set (pl_nodeIds (rt_plan rt)) \<subseteq> node_id ` set (canvas_nodes (rt_canvas rt))
      \<and> set (staged (pl_stages (rt_plan rt))) = set (pl_nodeIds (rt_plan rt))
      \<and> obj_ok (node_runs rt) \<and> set (obj_keys (node_runs rt)) = set (pl_nodeIds (rt_plan rt))
      \<and> obj_ok (wr_revisionLoops (rt_run rt))
      \<and> set (obj_keys (wr_revisionLoops (rt_run rt))) = set (pl_revisionLoopIds (rt_plan rt))
      \<and> set (pl_revisionLoopIds (rt_plan rt)) \<subseteq> loop_id ` set (canvas_revisionLoops (rt_canvas rt))
      \<and> WorkflowRun_ok (rt_run rt))"

lemma queued_run_ok: "NodeRunState_ok (queued_run t i) \<longleftrightarrow> EntityId_ok i \<and> is_timestamp t"
  by (auto simp: NodeRunState_ok_def queued_run_def opt_ok_def isTerminalRunStatus_def)

lemma planned_loop_ok:
  assumes "EntityId_ok i" and "i \<in> loop_id ` set (canvas_revisionLoops c)"
  shows "\<exists>s. planned_loop c i = Inr (i, s) \<and> LoopState_ok s \<and> ls_status s = ReviewRequired \<and> ls_attemptsStarted s = 1"
proof (cases "find (\<lambda>l. loop_id l = i) (rev (canvas_revisionLoops c))")
  case None
  then show ?thesis using assms by (auto simp: find_None_iff)
next
  case (Some l)
  then have "loop_id l = i" by (auto simp: find_Some_iff)
  with Some assms show ?thesis
    by (auto simp: planned_loop_def createRevisionLoopState_def LoopState_ok_def opt_ok_def)
qed

lemma map_res_queued:
  "map_res (\<lambda>i. res_bind (NodeRunStateSchema_parse (queued_run t i)) (\<lambda>r. return (i, r))) ids = Inr runs
   \<longleftrightarrow> (\<forall>i \<in> set ids. EntityId_ok i \<and> is_timestamp t) \<and> runs = map (\<lambda>i. (i, queued_run t i)) ids"
  by (induction ids arbitrary: runs) (auto simp: res_bind_eq_Inr queued_run_ok)

lemma initial_run_ok:
  assumes "EntityId_ok runId" and "EntityId_ok canvasId" and "EntityId_ok planId" and "is_timestamp t"
    and "list_all EntityId_ok ids" and "list_all LoopState_ok (map snd loops)"
  shows "WorkflowRun_ok \<lparr> wr_id = runId, wr_canvasId = canvasId, wr_planId = planId, wr_status = Queued,
    wr_nodeRuns = map (\<lambda>i. (i, queued_run t i)) ids, wr_revisionLoops = loops,
    wr_createdAt = t, wr_updatedAt = t, wr_endedAt = None \<rparr>"
  using assms
  by (auto simp: WorkflowRun_ok_def obj_values_def list_all_iff queued_run_ok opt_ok_def isTerminalRunStatus_def)
    (simp add: queued_run_def)

lemma createWorkflowExecutionRuntime_eq:
  assumes p: "planWorkflowScope c planId scope eligible = Inr plan"
  shows "\<exists>loops. map fst loops = pl_revisionLoopIds plan
      \<and> list_all (\<lambda>s. LoopState_ok s \<and> ls_status s = ReviewRequired \<and> ls_attemptsStarted s = 1) (map snd loops)
      \<and> (\<forall>rt. createWorkflowExecutionRuntime c planId runId scope t eligible = Inr rt \<longleftrightarrow>
           EntityId_ok runId \<and> is_timestamp t
           \<and> rt = \<lparr> rt_canvas = c, rt_plan = plan,
               rt_run = \<lparr> wr_id = runId, wr_canvasId = canvas_id c, wr_planId = planId, wr_status = Queued,
                 wr_nodeRuns = map (\<lambda>i. (i, queued_run t i)) (pl_nodeIds plan), wr_revisionLoops = loops,
                 wr_createdAt = t, wr_updatedAt = t, wr_endedAt = None \<rparr>,
               rt_evidence = no_evidence, rt_activeRevisionLoopIds = [], rt_cancellationRequested = False \<rparr>)"
proof -
  note facts = planWorkflowScope_facts [OF p]
  have plan_ok: "list_all EntityId_ok (pl_nodeIds plan)" "list_all EntityId_ok (pl_revisionLoopIds plan)"
    "EntityId_ok planId" using facts(6,8) by (auto simp: WorkflowPlan_ok_def)
  have loop_ids: "set (pl_revisionLoopIds plan) \<subseteq> loop_id ` set (canvas_revisionLoops c)" "distinct (pl_revisionLoopIds plan)"
  proof -
    obtain base where "plan = scoped_of c scope base" using facts(10) by blast
    moreover have "distinct (map loop_id (canvas_revisionLoops c))"
      using facts(3) by (simp add: wellformed_canvas_def canvas_ids_def)
    ultimately show "set (pl_revisionLoopIds plan) \<subseteq> loop_id ` set (canvas_revisionLoops c)"
      "distinct (pl_revisionLoopIds plan)" by (auto simp: scoped_of_def Let_def distinct_map_filter)
  qed
  have loops: "\<exists>s. planned_loop c i = Inr (i, s) \<and> LoopState_ok s \<and> ls_status s = ReviewRequired \<and> ls_attemptsStarted s = 1"
    if "i \<in> set (pl_revisionLoopIds plan)" for i
    using planned_loop_ok [of i c] that loop_ids(1) plan_ok(2) by (auto simp: list_all_iff)
  then obtain loops where m: "map_res (planned_loop c) (pl_revisionLoopIds plan) = Inr loops"
    using map_res_total [of "pl_revisionLoopIds plan" "planned_loop c"] by blast
  then have all2: "list_all2 (\<lambda>i y. planned_loop c i = Inr y) (pl_revisionLoopIds plan) loops"
    by (simp add: map_res_Inr_list_all2)
  have keys: "map fst loops = pl_revisionLoopIds plan"
    using all2 loops by (induction rule: list_all2_induct) force+
  have states: "list_all (\<lambda>s. LoopState_ok s \<and> ls_status s = ReviewRequired \<and> ls_attemptsStarted s = 1) (map snd loops)"
    using map_res_Inr_in_set [OF m] loops by (fastforce simp: list_all_iff)
  have dist: "distinct (map fst loops)" using keys loop_ids(2) by simp
  have runs: "obj_from (map (\<lambda>i. (i, queued_run t i)) (pl_nodeIds plan)) = map (\<lambda>i. (i, queued_run t i)) (pl_nodeIds plan)"
    using facts(7) by (simp add: obj_from_distinct comp_def)
  have create: "createWorkflowExecutionRuntime c planId runId scope t eligible = Inr rt \<longleftrightarrow>
      EntityId_ok runId \<and> is_timestamp t
      \<and> rt = \<lparr> rt_canvas = c, rt_plan = plan,
          rt_run = \<lparr> wr_id = runId, wr_canvasId = canvas_id c, wr_planId = planId, wr_status = Queued,
            wr_nodeRuns = map (\<lambda>i. (i, queued_run t i)) (pl_nodeIds plan), wr_revisionLoops = loops,
            wr_createdAt = t, wr_updatedAt = t, wr_endedAt = None \<rparr>,
          rt_evidence = no_evidence, rt_activeRevisionLoopIds = [], rt_cancellationRequested = False \<rparr>"
    (is "?lhs \<longleftrightarrow> ?rhs") for rt
  proof
    assume ?lhs
    then obtain runs' where "map_res (\<lambda>i. res_bind (NodeRunStateSchema_parse (queued_run t i))
        (\<lambda>r. return (i, r))) (pl_nodeIds plan) = Inr runs'"
      and rest: "WorkflowRun_ok (rt_run rt)" "rt = \<lparr> rt_canvas = c, rt_plan = plan,
          rt_run = \<lparr> wr_id = runId, wr_canvasId = canvas_id c, wr_planId = planId, wr_status = Queued,
            wr_nodeRuns = obj_from runs', wr_revisionLoops = loops,
            wr_createdAt = t, wr_updatedAt = t, wr_endedAt = None \<rparr>,
          rt_evidence = no_evidence, rt_activeRevisionLoopIds = [], rt_cancellationRequested = False \<rparr>"
      using facts(2,8) by (auto simp: createWorkflowExecutionRuntime_def res_bind_eq_Inr p m obj_from_distinct [OF dist])
    then have "runs' = map (\<lambda>i. (i, queued_run t i)) (pl_nodeIds plan)" by (simp add: map_res_queued)
    with rest show ?rhs by (simp add: runs WorkflowRun_ok_def)
  next
    assume r: ?rhs
    then have "map_res (\<lambda>i. res_bind (NodeRunStateSchema_parse (queued_run t i)) (\<lambda>r. return (i, r))) (pl_nodeIds plan)
        = Inr (map (\<lambda>i. (i, queued_run t i)) (pl_nodeIds plan))"
      using plan_ok(1) by (simp add: map_res_queued list_all_iff)
    moreover have "WorkflowRun_ok \<lparr> wr_id = runId, wr_canvasId = canvas_id c, wr_planId = planId, wr_status = Queued,
        wr_nodeRuns = map (\<lambda>i. (i, queued_run t i)) (pl_nodeIds plan), wr_revisionLoops = loops,
        wr_createdAt = t, wr_updatedAt = t, wr_endedAt = None \<rparr>"
      using r plan_ok facts(2) states
      by (intro initial_run_ok) (auto simp: CanvasSchema_ok_def list_all_iff)
    ultimately show ?lhs
      using r facts(2,8)
      by (simp add: createWorkflowExecutionRuntime_def CanvasSchema_parse_def WorkflowRunSchema_parse_def p m
          obj_from_distinct [OF dist] runs)
  qed
  show ?thesis using keys states create by (intro exI [of _ loops]) blast
qed

lemma createWorkflowExecutionRuntime_is_ok:
  "is_ok (createWorkflowExecutionRuntime c planId runId scope t eligible) \<longleftrightarrow>
     is_ok (planWorkflowScope c planId scope eligible) \<and> EntityId_ok runId \<and> is_timestamp t"
proof (cases "planWorkflowScope c planId scope eligible")
  case (Inl e)
  then show ?thesis by (cases "CanvasSchema_ok c") (auto simp: createWorkflowExecutionRuntime_def CanvasSchema_parse_def)
next
  case (Inr plan)
  from createWorkflowExecutionRuntime_eq [OF this, of runId t] Inr show ?thesis by (auto simp: is_ok_iff)
qed

definition initial_runtime :: "runtime \<Rightarrow> timestamp \<Rightarrow> bool" where
  "initial_runtime rt t =
     (runtime_shape rt
      \<and> (\<forall>i \<in> set (pl_nodeIds (rt_plan rt)). run_of rt i = Some (queued_run t i))
      \<and> list_all (\<lambda>s. ls_status s = ReviewRequired \<and> ls_attemptsStarted s = 1)
          (obj_values (wr_revisionLoops (rt_run rt)))
      \<and> rt_evidence rt = no_evidence \<and> rt_activeRevisionLoopIds rt = [] \<and> \<not> rt_cancellationRequested rt)"

lemma createWorkflowExecutionRuntime_initial:
  assumes create: "createWorkflowExecutionRuntime c planId runId scope t eligible = Inr rt"
  shows "initial_runtime rt t" and "planWorkflowScope c planId scope eligible = Inr (rt_plan rt)"
    and "rt_canvas rt = c" and "wr_id (rt_run rt) = runId"
proof -
  from create obtain plan where p: "planWorkflowScope c planId scope eligible = Inr plan"
    by (auto simp: createWorkflowExecutionRuntime_def res_bind_eq_Inr)
  note facts = planWorkflowScope_facts [OF p]
  obtain loops where keys: "map fst loops = pl_revisionLoopIds plan"
    and states: "list_all (\<lambda>s. LoopState_ok s \<and> ls_status s = ReviewRequired \<and> ls_attemptsStarted s = 1) (map snd loops)"
    and ok: "EntityId_ok runId" "is_timestamp t"
    and rt: "rt = \<lparr> rt_canvas = c, rt_plan = plan,
        rt_run = \<lparr> wr_id = runId, wr_canvasId = canvas_id c, wr_planId = planId, wr_status = Queued,
          wr_nodeRuns = map (\<lambda>i. (i, queued_run t i)) (pl_nodeIds plan), wr_revisionLoops = loops,
          wr_createdAt = t, wr_updatedAt = t, wr_endedAt = None \<rparr>,
        rt_evidence = no_evidence, rt_activeRevisionLoopIds = [], rt_cancellationRequested = False \<rparr>"
    using createWorkflowExecutionRuntime_eq [OF p, of runId t] create by blast
  obtain base where base: "plan = scoped_of c scope base" using facts(10) by blast
  have dist: "distinct (pl_revisionLoopIds plan)" and sub: "set (pl_revisionLoopIds plan) \<subseteq> loop_id ` set (canvas_revisionLoops c)"
    using facts(3) by (auto simp: base scoped_of_def Let_def wellformed_canvas_def canvas_ids_def distinct_map_filter)
  have run_ok: "WorkflowRun_ok (rt_run rt)"
    using ok facts(2,6,8) states unfolding rt
    by (auto intro!: initial_run_ok simp: CanvasSchema_ok_def WorkflowPlan_ok_def list_all_iff)
  have "runtime_shape rt"
    using run_ok facts dist sub keys
    by (simp add: runtime_shape_def rt obj_ok_def obj_keys_def comp_def schedules_def)
  then show "initial_runtime rt t" and "planWorkflowScope c planId scope eligible = Inr (rt_plan rt)"
    and "rt_canvas rt = c" and "wr_id (rt_run rt) = runId"
    using p states by (auto simp: initial_runtime_def rt run_of_def obj_get_def map_of_map_restrict obj_values_def list_all_iff)
qed

text \<open>
  A run can be created exactly when its scope can be planned and the run id and the creation
  time are valid. It then starts with every planned node queued for its first attempt, every planned
  loop waiting for its first review, no evidence, nothing active and nothing cancelled, in a state
  the persisted-state schema accepts.
\<close>

theorem createWorkflowExecutionRuntime_correct:
  "(is_ok (createWorkflowExecutionRuntime c planId runId scope t eligible) \<longleftrightarrow>
      is_ok (planWorkflowScope c planId scope eligible) \<and> EntityId_ok runId \<and> is_timestamp t)
   \<and> (\<forall>rt. createWorkflowExecutionRuntime c planId runId scope t eligible = Inr rt \<longrightarrow>
        initial_runtime rt t \<and> planWorkflowScope c planId scope eligible = Inr (rt_plan rt))"
  using createWorkflowExecutionRuntime_is_ok createWorkflowExecutionRuntime_initial by blast

end
