(* ===== verification/Evidence_State.thy ===== *)
theory Evidence_State
  imports Runtime
begin

text \<open>
  \<open>packages/core/src/workflow-runtime/evidence-state.ts\<close>: reading the runtime. The effective status
  of a node, the evidence that is bound to the current attempts (publications, assessments, gate
  checks), evidence fingerprints, human approvals and decisions, and the evaluation of a gate.
\<close>

section \<open>Lookups\<close>

definition find_node :: "runtime \<Rightarrow> string \<Rightarrow> canvas_node option" where
  "find_node rt i = find (\<lambda>n. node_id n = i) (canvas_nodes (rt_canvas rt))"

definition find_edge :: "runtime \<Rightarrow> string \<Rightarrow> canvas_edge option" where
  "find_edge rt i = find (\<lambda>e. edge_id e = i) (canvas_edges (rt_canvas rt))"

definition nodeById :: "runtime \<Rightarrow> string \<Rightarrow> canvas_node res" where
  "nodeById rt i =
     (case find_node rt i of
        None \<Rightarrow> throw (Error (''Workflow node does not exist: '' @ i))
      | Some n \<Rightarrow> return n)"

definition edgeById :: "runtime \<Rightarrow> string \<Rightarrow> canvas_edge res" where
  "edgeById rt i =
     (case find_edge rt i of
        None \<Rightarrow> throw (Error (''Workflow edge does not exist: '' @ i))
      | Some e \<Rightarrow> return e)"

definition is_planned :: "runtime \<Rightarrow> canvas_edge \<Rightarrow> bool" where
  "is_planned rt e = (edge_id e \<in> set (sp_executableEdgeIds (rt_plan rt)))"

definition assertPlannedEdge :: "runtime \<Rightarrow> canvas_edge \<Rightarrow> unit res" where
  "assertPlannedEdge rt e =
     throw_if (\<not> is_planned rt e) (Error (''Edge is outside the current scoped plan: '' @ edge_id e))"

section \<open>Publications and reviewed sources\<close>

definition run_id :: "runtime \<Rightarrow> entity_id" where
  "run_id rt = wr_id (rt_run rt)"

definition attempt_of :: "runtime \<Rightarrow> string \<Rightarrow> int option" where
  "attempt_of rt i = map_option nr_attempt (run_of rt i)"

definition currentOutputPublicationsForNode :: "runtime \<Rightarrow> string \<Rightarrow> output_publication list" where
  "currentOutputPublicationsForNode rt nodeId =
     (case attempt_of rt nodeId of
        None \<Rightarrow> []
      | Some attempt \<Rightarrow>
          sort_key (\<lambda>p. Collated (op_edgeId p))
            (filter (\<lambda>p. op_runId p = run_id rt \<and> op_producerNodeId p = nodeId \<and> op_producerAttempt p = attempt)
              (obj_values (ev_outputPublications (rt_evidence rt)))))"

definition reviewedSourceIdsForGate :: "runtime \<Rightarrow> string \<Rightarrow> string list" where
  "reviewedSourceIdsForGate rt gateNodeId =
     uniqueSorted
       (concat (map (gate_source_ids gateNodeId) (canvas_edges (rt_canvas rt)))
        @ map loop_implementationNodeId
            (filter (\<lambda>l. loop_reviewNodeId l = gateNodeId) (canvas_revisionLoops (rt_canvas rt))))"

definition reviewedSourceForGate :: "runtime \<Rightarrow> string \<Rightarrow> string res" where
  "reviewedSourceForGate rt gateNodeId =
     (case reviewedSourceIdsForGate rt gateNodeId of
        [s] \<Rightarrow> return s
      | _ \<Rightarrow> throw (Error (''Review gate '' @ gateNodeId @ '' does not have exactly one reviewed source'')))"

section \<open>Effective status and current assessments\<close>

text \<open>
  \<open>canvasNodeStatus\<close> and \<open>currentReviewerAssessmentForEdge\<close> call each other along the agent-review
  edges. Each is a step over the other; the recursion carries fuel for one step per edge of the
  canvas, and running out of it is the stack overflow (a \<open>RangeError\<close>) that a cycle of review edges
  would cause. On a valid canvas the fuel is never used up (\<open>canvasNodeStatus_unfold\<close>).
\<close>

definition agent_reviews :: "runtime \<Rightarrow> string \<Rightarrow> canvas_edge list" where
  "agent_reviews rt nodeId =
     filter (\<lambda>e. (case edge_config e of Review c \<Rightarrow> rev_reviewer c = ReviewerAgent | _ \<Rightarrow> False)
                 \<and> edge_targetNodeId e = nodeId \<and> is_planned rt e)
       (canvas_edges (rt_canvas rt))"

definition has_verdict :: "verdict \<Rightarrow> reviewer_assessment option \<Rightarrow> bool" where
  "has_verdict v a = (case a of None \<Rightarrow> False | Some a \<Rightarrow> ra_verdict a = v)"

fun canvas_status :: "node_status \<Rightarrow> run_status" where
  "canvas_status Draft = Queued"
| "canvas_status Ready = Queued"
| "canvas_status Blocked = Failed"
| "canvas_status (RunStatus s) = s"

definition status_step ::
  "(canvas_edge \<Rightarrow> reviewer_assessment option res) \<Rightarrow> runtime \<Rightarrow> string \<Rightarrow> run_status res" where
  "status_step assess rt nodeId =
     (case run_of rt nodeId of
        Some r \<Rightarrow>
          (if nr_status r = Succeeded \<and> agent_reviews rt nodeId \<noteq> []
           then res_bind (map_res assess (agent_reviews rt nodeId)) (\<lambda>assessments.
             if list_ex (has_verdict ChangesRequested) assessments then return Failed
             else if list_ex (\<lambda>a. \<not> has_verdict Approved a) assessments then return Running
             else return Succeeded)
           else return (nr_status r))
      | None \<Rightarrow> res_bind (nodeById rt nodeId) (\<lambda>n. return (canvas_status (node_status n))))"

definition expected_reviewer :: "reviewer \<Rightarrow> canvas_edge \<Rightarrow> canvas_node \<Rightarrow> string option" where
  "expected_reviewer reviewer e target =
     (if reviewer = ReviewerAgent then Some (edge_targetNodeId e)
      else case node_data target of ReviewGateNode g \<Rightarrow> rg_reviewerAgentId g | _ \<Rightarrow> None)"

definition reviewer_finished :: "node_run option \<Rightarrow> bool" where
  "reviewer_finished r =
     (case r of None \<Rightarrow> False
      | Some r \<Rightarrow> nr_status r = Succeeded \<or> nr_status r = WaitingForApproval
          \<or> nr_status r = Failed \<and> nr_failureCode r = Some ''REVIEW_CHANGES_REQUESTED'')"

text \<open>The part of the guard that the code evaluates before it asks for the source's status.\<close>

definition assessment_bound :: "runtime \<Rightarrow> canvas_edge \<Rightarrow> string option \<Rightarrow> reviewer_assessment \<Rightarrow> bool" where
  "assessment_bound rt e expected a =
     (case expected of
        None \<Rightarrow> False
      | Some reviewerId \<Rightarrow>
          ra_runId a = run_id rt \<and> ra_reviewEdgeId a = edge_id e \<and> ra_reviewerNodeId a = reviewerId
          \<and> reviewer_finished (run_of rt reviewerId) \<and> attempt_of rt reviewerId = Some (ra_reviewerAttempt a)
          \<and> map_option nr_status (run_of rt (edge_sourceNodeId e)) = Some Succeeded)"

definition digest_current :: "runtime \<Rightarrow> string \<Rightarrow> reviewer_assessment \<Rightarrow> bool" where
  "digest_current rt sourceId a =
     (case obj_get (ev_nodeCompletionOutputs (rt_evidence rt)) sourceId of
        Some o' \<Rightarrow> nc_runId o' = run_id rt \<and> Some (nc_nodeAttempt o') = attempt_of rt sourceId
                  \<and> nc_contentDigest o' = ra_reviewedOutputDigest a
      | None \<Rightarrow>
          (let digests = map op_contentDigest (currentOutputPublicationsForNode rt sourceId) in
           digests = [] \<or> ra_reviewedOutputDigest a \<in> set digests))"

definition assessment_step ::
  "(string \<Rightarrow> run_status res) \<Rightarrow> runtime \<Rightarrow> canvas_edge \<Rightarrow> reviewer_assessment option res" where
  "assessment_step status rt e =
     (case edge_config e of
        Review c \<Rightarrow>
          (case obj_get (ev_reviewerAssessments (rt_evidence rt)) (edge_id e) of
             None \<Rightarrow> return None
           | Some a \<Rightarrow>
               if rev_reviewer c = ReviewerHuman then return None
               else res_bind (nodeById rt (edge_targetNodeId e)) (\<lambda>target.
                 if \<not> assessment_bound rt e (expected_reviewer (rev_reviewer c) e target) a then return None
                 else res_bind (status (edge_sourceNodeId e)) (\<lambda>s.
                   if s \<noteq> Succeeded \<or> ra_reviewedNodeId a \<noteq> edge_sourceNodeId e
                      \<or> attempt_of rt (edge_sourceNodeId e) \<noteq> Some (ra_reviewedNodeAttempt a)
                   then return None
                   else return (if digest_current rt (edge_sourceNodeId e) a then Some a else None))))
      | _ \<Rightarrow> return None)"

definition stack_overflow :: wf_error where
  "stack_overflow = RangeError ''Maximum call stack size exceeded''"

fun status_fuel :: "nat \<Rightarrow> runtime \<Rightarrow> string \<Rightarrow> run_status res" where
  "status_fuel 0 rt nodeId = throw stack_overflow"
| "status_fuel (Suc n) rt nodeId = status_step (assessment_step (status_fuel n rt) rt) rt nodeId"

definition canvasNodeStatus :: "runtime \<Rightarrow> string \<Rightarrow> run_status res" where
  "canvasNodeStatus rt nodeId = status_fuel (Suc (length (canvas_edges (rt_canvas rt)))) rt nodeId"

definition currentReviewerAssessmentForEdge :: "runtime \<Rightarrow> canvas_edge \<Rightarrow> reviewer_assessment option res" where
  "currentReviewerAssessmentForEdge rt e = assessment_step (canvasNodeStatus rt) rt e"

section \<open>Gate checks\<close>

definition causal_publication :: "runtime \<Rightarrow> string \<Rightarrow> output_config \<Rightarrow> canvas_edge \<Rightarrow> output_publication list" where
  "causal_publication rt reviewedNodeId k e =
     (case obj_get (ev_outputPublications (rt_evidence rt)) (edge_id e) of
        None \<Rightarrow> []
      | Some p \<Rightarrow>
          (if op_runId p = run_id rt \<and> op_producerNodeId p = reviewedNodeId
              \<and> attempt_of rt reviewedNodeId = Some (op_producerAttempt p) \<and> op_outputKind p = out_outputKind k
           then [p] else []))"

definition currentCausalCheckPublications :: "runtime \<Rightarrow> string \<Rightarrow> string \<Rightarrow> output_publication list" where
  "currentCausalCheckPublications rt reviewedNodeId producerNodeId =
     concat (map (\<lambda>e. case edge_config e of
         Output k \<Rightarrow>
           if out_required k \<and> edge_sourceNodeId e = reviewedNodeId \<and> edge_targetNodeId e = producerNodeId
              \<and> is_planned rt e
           then causal_publication rt reviewedNodeId k e else []
       | _ \<Rightarrow> []) (canvas_edges (rt_canvas rt)))"

fun expectedProducerStatuses :: "check_status \<Rightarrow> run_status list" where
  "expectedProducerStatuses CheckQueued = [Queued]"
| "expectedProducerStatuses CheckRunning = [Running]"
| "expectedProducerStatuses CheckPassed = [Succeeded]"
| "expectedProducerStatuses CheckFailed = [Succeeded, Failed]"
| "expectedProducerStatuses CheckCancelled = [Cancelled]"
| "expectedProducerStatuses CheckLost = [Lost]"

text \<open>\<open>Date.parse(verifiedAt) <= Date.parse(startedAt)\<close>, vacuous while the producer has not started.\<close>

definition verified_before_start :: "output_publication \<Rightarrow> node_run \<Rightarrow> bool" where
  "verified_before_start p r =
     (case nr_startedAt r of None \<Rightarrow> True | Some started \<Rightarrow> date_at_most (op_verifiedAt p) started)"

definition check_current :: "runtime \<Rightarrow> string \<Rightarrow> check_result \<Rightarrow> bool" where
  "check_current rt reviewedNodeId k =
     (case ck_producerNodeId k of
        None \<Rightarrow> False
      | Some producer \<Rightarrow>
          (case run_of rt producer of
             None \<Rightarrow> False
           | Some r \<Rightarrow>
               ck_runId k = run_id rt \<and> ck_producerAttempt k = Some (nr_attempt r)
               \<and> nr_status r \<in> set (expectedProducerStatuses (ck_status k))
               \<and> ck_reviewedNodeId k = Some reviewedNodeId
               \<and> ck_reviewedNodeAttempt k = attempt_of rt reviewedNodeId
               \<and> ck_reviewedOutputDigest k \<noteq> None
               \<and> list_ex (\<lambda>p. Some (op_contentDigest p) = ck_reviewedOutputDigest k \<and> verified_before_start p r)
                   (currentCausalCheckPublications rt reviewedNodeId producer)))"

definition gate_data_of :: "runtime \<Rightarrow> string \<Rightarrow> review_gate_data res" where
  "gate_data_of rt gateNodeId =
     res_bind (nodeById rt gateNodeId) (\<lambda>n. case node_data n of
       ReviewGateNode g \<Rightarrow> return g
     | _ \<Rightarrow> throw (Error (''Node is not a review gate: '' @ gateNodeId)))"

definition currentGateChecks :: "runtime \<Rightarrow> string \<Rightarrow> check_result list res" where
  "currentGateChecks rt gateNodeId =
     res_bind (gate_data_of rt gateNodeId) (\<lambda>g.
       if rg_requiredCheckIds g = [] \<and> \<not> rg_testsRequired g \<and> \<not> rg_lintRequired g then return []
       else res_bind (reviewedSourceForGate rt gateNodeId) (\<lambda>reviewedNodeId.
         if map_option nr_status (run_of rt reviewedNodeId) \<noteq> Some Succeeded then return []
         else res_bind (canvasNodeStatus rt reviewedNodeId) (\<lambda>s.
           if s \<noteq> Succeeded then return []
           else return (filter (check_current rt reviewedNodeId)
             (case obj_get (ev_gateChecks (rt_evidence rt)) gateNodeId of None \<Rightarrow> [] | Some ks \<Rightarrow> ks)))))"

section \<open>Evidence fingerprints\<close>

definition publication_json :: "output_publication \<Rightarrow> json" where
  "publication_json p =
     JObj [(''edgeId'', JStr (op_edgeId p)), (''runId'', JStr (op_runId p)),
       (''producerNodeId'', JStr (op_producerNodeId p)), (''producerAttempt'', JNum (op_producerAttempt p)),
       (''outputKind'', JStr (output_kind_text (op_outputKind p))),
       (''referenceIds'', JArr (map JStr (op_referenceIds p))),
       (''contentDigest'', JStr (op_contentDigest p)), (''verifiedAt'', JStr (op_verifiedAt p)),
       (''verifierId'', JStr (op_verifierId p))]"

definition resolution_json :: "context_resolution \<Rightarrow> json" where
  "resolution_json r =
     JObj [(''edgeId'', JStr (cr_edgeId r)), (''runId'', JStr (cr_runId r)),
       (''sourceNodeId'', JStr (cr_sourceNodeId r)), (''targetNodeId'', JStr (cr_targetNodeId r)),
       (''targetAttempt'', JNum (cr_targetAttempt r)),
       (''attachmentIds'', JArr (map JStr (cr_attachmentIds r))),
       (''contentDigest'', JStr (cr_contentDigest r)), (''verifiedAt'', JStr (cr_verifiedAt r)),
       (''verifierId'', JStr (cr_verifierId r))]"

fun severity_text :: "severity \<Rightarrow> string" where
  "severity_text Info = ''info''"
| "severity_text Warning = ''warning''"
| "severity_text SeverityError = ''error''"

fun verdict_text :: "verdict \<Rightarrow> string" where
  "verdict_text Approved = ''approved''"
| "verdict_text ChangesRequested = ''changes-requested''"

definition finding_json :: "review_finding \<Rightarrow> json" where
  "finding_json f =
     JObj ([(''id'', JStr (rf_id f)), (''severity'', JStr (severity_text (rf_severity f))),
       (''message'', JStr (rf_message f)), (''blocking'', JBool (rf_blocking f))]
       @ json_opt JStr ''path'' (rf_path f) @ json_opt JNum ''line'' (rf_line f))"

definition assessment_json :: "reviewer_assessment \<Rightarrow> json" where
  "assessment_json a =
     JObj ([(''runId'', JStr (ra_runId a)), (''reviewEdgeId'', JStr (ra_reviewEdgeId a)),
       (''reviewerNodeId'', JStr (ra_reviewerNodeId a)), (''reviewerAttempt'', JNum (ra_reviewerAttempt a)),
       (''reviewedNodeId'', JStr (ra_reviewedNodeId a)), (''reviewedNodeAttempt'', JNum (ra_reviewedNodeAttempt a)),
       (''reviewedOutputDigest'', JStr (ra_reviewedOutputDigest a)),
       (''verdict'', JStr (verdict_text (ra_verdict a))),
       (''findings'', JArr (map finding_json (ra_findings a)))]
       @ json_opt JStr ''summary'' (ra_summary a))"

fun approval_target_text :: "approval_target \<Rightarrow> string" where
  "approval_target_text ExecuteEdgeTarget = ''execute-edge''"
| "approval_target_text HumanReviewTarget = ''human-review''"
| "approval_target_text ReviewGateTarget = ''review-gate''"

section \<open>Human approvals\<close>

text \<open>What an approval id stands for: its kind, the node it releases and the nodes under review.\<close>

definition approval_target_of :: "runtime \<Rightarrow> string \<Rightarrow> (approval_target \<times> string \<times> string list) option" where
  "approval_target_of rt targetId =
     (let gate = (case find_node rt targetId of
                    None \<Rightarrow> None
                  | Some n \<Rightarrow> (case node_data n of
                      ReviewGateNode g \<Rightarrow>
                        if rg_humanApprovalRequired g
                        then Some (ReviewGateTarget, targetId, reviewedSourceIdsForGate rt targetId) else None
                    | _ \<Rightarrow> None))
      in case find_edge rt targetId of
           None \<Rightarrow> gate
         | Some e \<Rightarrow> (case edge_config e of
             Execute k \<Rightarrow>
               if exe_approval k = ApproveHuman
               then Some (ExecuteEdgeTarget, edge_targetNodeId e, [edge_sourceNodeId e]) else gate
           | Review k \<Rightarrow>
               if rev_reviewer k = ReviewerHuman \<and> rev_requireApproval k
               then Some (HumanReviewTarget, edge_targetNodeId e, [edge_sourceNodeId e]) else gate
           | _ \<Rightarrow> gate))"

definition reviewed_run_json :: "runtime \<Rightarrow> string \<Rightarrow> json" where
  "reviewed_run_json rt nodeId =
     (case run_of rt nodeId of
        None \<Rightarrow> JNull
      | Some r \<Rightarrow> JObj [(''attempt'', JNum (nr_attempt r)), (''status'', JStr (run_status_text (nr_status r))),
          (''endedAt'', case nr_endedAt r of None \<Rightarrow> JNull | Some t \<Rightarrow> JStr t)])"

definition relevantOutputs :: "runtime \<Rightarrow> string list \<Rightarrow> output_publication obj" where
  "relevantOutputs rt reviewed =
     filter (\<lambda>(_, p). op_runId p = run_id rt \<and> op_producerNodeId p \<in> set reviewed
                     \<and> attempt_of rt (op_producerNodeId p) = Some (op_producerAttempt p))
       (ev_outputPublications (rt_evidence rt))"

definition relevantContexts :: "runtime \<Rightarrow> string \<Rightarrow> context_resolution obj" where
  "relevantContexts rt targetNodeId =
     filter (\<lambda>(_, r). cr_targetNodeId r = targetNodeId) (ev_contextResolutions (rt_evidence rt))"

definition relevantChecks :: "runtime \<Rightarrow> string \<Rightarrow> check_result list res" where
  "relevantChecks rt targetId =
     (case find_node rt targetId of
        None \<Rightarrow> return []
      | Some n \<Rightarrow> if is_ReviewGateNode (node_data n) then currentGateChecks rt targetId else return [])"

definition relevant_assessment :: "runtime \<Rightarrow> string list \<Rightarrow> canvas_edge \<Rightarrow> (string \<times> reviewer_assessment) list res" where
  "relevant_assessment rt reviewed e =
     (if \<not> is_Review (edge_config e) \<or> edge_sourceNodeId e \<notin> set reviewed then return []
      else res_bind (currentReviewerAssessmentForEdge rt e) (\<lambda>a.
        return (case a of None \<Rightarrow> [] | Some a \<Rightarrow> [(edge_id e, a)])))"

definition fingerprint :: "string \<Rightarrow> json \<Rightarrow> string" where
  "fingerprint prefix v = prefix @ stringify (stableValue v)"

definition approval_evidence ::
  "runtime \<Rightarrow> string \<Rightarrow> approval_target \<Rightarrow> int \<Rightarrow> string \<Rightarrow> string list
   \<Rightarrow> check_result list \<Rightarrow> reviewer_assessment obj \<Rightarrow> json" where
  "approval_evidence rt targetId targetType attempt targetNodeId reviewed checks assessments =
     JObj [(''runId'', JStr (run_id rt)), (''targetId'', JStr targetId),
       (''targetType'', JStr (approval_target_text targetType)), (''targetAttempt'', JNum attempt),
       (''reviewedRuns'', JObj (obj_from (map (\<lambda>i. (i, reviewed_run_json rt i)) reviewed))),
       (''relevantOutputs'', json_record publication_json (obj_from (relevantOutputs rt reviewed))),
       (''relevantContexts'', json_record resolution_json (obj_from (relevantContexts rt targetNodeId))),
       (''relevantChecks'', JArr (map check_json checks)),
       (''relevantAssessments'', json_record assessment_json assessments)]"

definition approvalRequestUnchecked :: "runtime \<Rightarrow> string \<Rightarrow> approval_request res" where
  "approvalRequestUnchecked rt targetId =
     (case approval_target_of rt targetId of
        None \<Rightarrow> throw (Error (''No human approval is configured for '' @ targetId))
      | Some (targetType, targetNodeId, reviewed) \<Rightarrow>
          (case run_of rt targetNodeId of
             None \<Rightarrow> throw (Error (''Human approval target is outside the current scoped plan: '' @ targetId))
           | Some targetRun \<Rightarrow>
               res_bind (relevantChecks rt targetId) (\<lambda>checks.
               res_bind (map_res (relevant_assessment rt reviewed) (canvas_edges (rt_canvas rt))) (\<lambda>assessments.
               ApprovalRequestSchema_parse
                 \<lparr> hr_runId = run_id rt, hr_targetId = targetId, hr_targetType = targetType,
                   hr_targetAttempt = nr_attempt targetRun,
                   hr_evidenceFingerprint = fingerprint ''workflow-approval-v1:''
                     (approval_evidence rt targetId targetType (nr_attempt targetRun) targetNodeId reviewed checks
                       (obj_from (concat assessments))) \<rparr>))))"

text \<open>Both readers catch every error of the request and treat the record as stale.\<close>

definition hasCurrentHumanApproval :: "runtime \<Rightarrow> string \<Rightarrow> bool" where
  "hasCurrentHumanApproval rt targetId =
     (case obj_get (ev_humanApprovals (rt_evidence rt)) targetId of
        None \<Rightarrow> False
      | Some approval \<Rightarrow>
          (case approvalRequestUnchecked rt targetId of
             Inl _ \<Rightarrow> False
           | Inr expected \<Rightarrow>
               hr_runId approval = hr_runId expected \<and> hr_targetId approval = hr_targetId expected
               \<and> hr_targetType approval = hr_targetType expected
               \<and> hr_targetAttempt approval = hr_targetAttempt expected
               \<and> hr_evidenceFingerprint approval = hr_evidenceFingerprint expected))"

definition currentHumanReviewDecision :: "runtime \<Rightarrow> string \<Rightarrow> review_decision option" where
  "currentHumanReviewDecision rt edgeId =
     (case obj_get (ev_humanReviewDecisions (rt_evidence rt)) edgeId of
        None \<Rightarrow> None
      | Some decision \<Rightarrow>
          (case approvalRequestUnchecked rt edgeId of
             Inl _ \<Rightarrow> None
           | Inr expected \<Rightarrow>
               if hr_runId decision = hr_runId expected \<and> hr_targetType decision = HumanReviewTarget
                  \<and> hr_targetAttempt decision = hr_targetAttempt expected
                  \<and> hr_evidenceFingerprint decision = hr_evidenceFingerprint expected
               then Some decision else None))"

section \<open>Gate evaluation on current evidence\<close>

definition gate_assessments :: "runtime \<Rightarrow> string \<Rightarrow> reviewer_assessment option list res" where
  "gate_assessments rt gateNodeId =
     map_res (currentReviewerAssessmentForEdge rt)
       (filter (\<lambda>e. is_Review (edge_config e) \<and> edge_targetNodeId e = gateNodeId) (canvas_edges (rt_canvas rt)))"

text \<open>
  \<open>find((assessment) => assessment?.reviewerNodeId === gate.data.reviewerAgentId)\<close>: with no reviewer
  configured, the first missing assessment matches and the result is \<open>undefined\<close>.
\<close>

definition chosen_assessment :: "review_gate_data \<Rightarrow> reviewer_assessment option list \<Rightarrow> reviewer_assessment option" where
  "chosen_assessment g as =
     (case find (\<lambda>a. map_option ra_reviewerNodeId a = rg_reviewerAgentId g) as of
        None \<Rightarrow> None | Some a \<Rightarrow> a)"

definition currentReviewGateEvidence ::
  "runtime \<Rightarrow> string \<Rightarrow> (gate_evaluation \<times> check_result list \<times> reviewer_assessment option) res" where
  "currentReviewGateEvidence rt gateNodeId =
     res_bind (gate_data_of rt gateNodeId) (\<lambda>g.
     res_bind (gate_assessments rt gateNodeId) (\<lambda>assessments.
     res_bind (currentGateChecks rt gateNodeId) (\<lambda>checks.
     let reviewerAssessment = chosen_assessment g assessments in
     res_bind (evaluateReviewGate g
         \<lparr> gv_checks = checks, gv_reviewerAssessment = reviewerAssessment,
           gv_humanApproved = hasCurrentHumanApproval rt gateNodeId \<rparr>) (\<lambda>evaluation.
     return (evaluation, checks, reviewerAssessment)))))"

definition reviewGateEvaluation :: "runtime \<Rightarrow> string \<Rightarrow> gate_evaluation res" where
  "reviewGateEvaluation rt gateNodeId =
     res_bind (currentReviewGateEvidence rt gateNodeId) (\<lambda>r. return (fst r))"

section \<open>The recursion over review edges ends\<close>

definition review_edges :: "runtime \<Rightarrow> canvas_edge list" where
  "review_edges rt = filter (\<lambda>e. is_Review (edge_config e)) (canvas_edges (rt_canvas rt))"

definition review_arcs :: "runtime \<Rightarrow> (string \<times> string) set" where
  "review_arcs rt = edge_arcs (review_edges rt)"

text \<open>The number of review edges on the way to a node bounds the depth of the recursion.\<close>

definition review_rank :: "runtime \<Rightarrow> string \<Rightarrow> nat" where
  "review_rank rt v = card {e \<in> set (review_edges rt). (edge_targetNodeId e, v) \<in> (review_arcs rt)\<^sup>*}"

lemma review_rank_le: "review_rank rt v \<le> length (canvas_edges (rt_canvas rt))"
proof -
  have "review_rank rt v \<le> card (set (review_edges rt))" unfolding review_rank_def by (rule card_mono) auto
  also have "\<dots> \<le> length (review_edges rt)" by (rule card_length)
  also have "\<dots> \<le> length (canvas_edges (rt_canvas rt))" by (simp add: review_edges_def)
  finally show ?thesis .
qed

lemma review_rank_less:
  assumes "acyclic (review_arcs rt)" and e: "e \<in> set (review_edges rt)" and v: "edge_targetNodeId e = v"
  shows "review_rank rt (edge_sourceNodeId e) < review_rank rt v"
  unfolding review_rank_def
proof (rule psubset_card_mono)
  have arc: "(edge_sourceNodeId e, v) \<in> review_arcs rt" using e v by (auto simp: review_arcs_def edge_arcs_def)
  have "(v, edge_sourceNodeId e) \<notin> (review_arcs rt)\<^sup>*"
    using assms(1) arc unfolding acyclic_def by (metis rtrancl_into_trancl2)
  then have "e \<in> {e \<in> set (review_edges rt). (edge_targetNodeId e, v) \<in> (review_arcs rt)\<^sup>*}"
    and "e \<notin> {x \<in> set (review_edges rt). (edge_targetNodeId x, edge_sourceNodeId e) \<in> (review_arcs rt)\<^sup>*}"
    using e v by auto
  moreover have "{x \<in> set (review_edges rt). (edge_targetNodeId x, edge_sourceNodeId e) \<in> (review_arcs rt)\<^sup>*}
      \<subseteq> {e \<in> set (review_edges rt). (edge_targetNodeId e, v) \<in> (review_arcs rt)\<^sup>*}"
    using arc by (auto intro: rtrancl_into_rtrancl)
  ultimately show "{x \<in> set (review_edges rt). (edge_targetNodeId x, edge_sourceNodeId e) \<in> (review_arcs rt)\<^sup>*}
      \<subset> {e \<in> set (review_edges rt). (edge_targetNodeId e, v) \<in> (review_arcs rt)\<^sup>*}" by blast
qed simp

lemma agent_reviews_edge:
  assumes "e \<in> set (agent_reviews rt v)"
  shows "e \<in> set (review_edges rt)" and "edge_targetNodeId e = v" and "e \<in> set (canvas_edges (rt_canvas rt))"
    and "is_planned rt e"
  using assms by (auto simp: agent_reviews_def review_edges_def split: edge_config.splits)

lemma assessment_step_cong:
  assumes "status (edge_sourceNodeId e) = status' (edge_sourceNodeId e)"
  shows "assessment_step status rt e = assessment_step status' rt e"
  unfolding assessment_step_def assms by (rule refl)

lemma status_step_cong:
  assumes "\<And>e. e \<in> set (agent_reviews rt v) \<Longrightarrow> assess e = assess' e"
  shows "status_step assess rt v = status_step assess' rt v"
proof -
  have "map_res assess (agent_reviews rt v) = map_res assess' (agent_reviews rt v)"
    using assms by (intro map_res_cong) simp_all
  then show ?thesis unfolding status_step_def by (simp only:)
qed

lemma status_fuel_enough:
  assumes "acyclic (review_arcs rt)"
  shows "review_rank rt v < n \<Longrightarrow> review_rank rt v < m \<Longrightarrow> status_fuel n rt v = status_fuel m rt v"
proof (induction n arbitrary: m v)
  case 0
  then show ?case by simp
next
  case (Suc n)
  then obtain m' where m: "m = Suc m'" by (cases m) auto
  have "status_step (assessment_step (status_fuel n rt) rt) rt v
      = status_step (assessment_step (status_fuel m' rt) rt) rt v"
  proof (rule status_step_cong, rule assessment_step_cong)
    fix e assume "e \<in> set (agent_reviews rt v)"
    then have "review_rank rt (edge_sourceNodeId e) < review_rank rt v"
      using review_rank_less [OF assms] agent_reviews_edge by blast
    then show "status_fuel n rt (edge_sourceNodeId e) = status_fuel m' rt (edge_sourceNodeId e)"
      using Suc.prems m by (intro Suc.IH) simp_all
  qed
  then show ?case by (simp add: m)
qed

lemma canvasNodeStatus_unfold:
  assumes "acyclic (review_arcs rt)"
  shows "canvasNodeStatus rt v = status_step (currentReviewerAssessmentForEdge rt) rt v"
proof -
  have "status_step (assessment_step (status_fuel (length (canvas_edges (rt_canvas rt))) rt) rt) rt v
      = status_step (assessment_step (canvasNodeStatus rt) rt) rt v"
  proof (rule status_step_cong, rule assessment_step_cong)
    fix e assume "e \<in> set (agent_reviews rt v)"
    then have "review_rank rt (edge_sourceNodeId e) < review_rank rt v"
      using review_rank_less [OF assms] agent_reviews_edge by blast
    with review_rank_le [of rt v]
    show "status_fuel (length (canvas_edges (rt_canvas rt))) rt (edge_sourceNodeId e)
        = canvasNodeStatus rt (edge_sourceNodeId e)"
      unfolding canvasNodeStatus_def by (intro status_fuel_enough [OF assms]) simp_all
  qed
  then show ?thesis
    by (simp add: canvasNodeStatus_def currentReviewerAssessmentForEdge_def [abs_def])
qed

lemma runtime_review_acyclic:
  assumes "runtime_shape rt"
  shows "acyclic (review_arcs rt)"
proof (rule acyclic_subset)
  have wf: "wellformed_canvas (rt_canvas rt)" using assms by (simp add: runtime_shape_def)
  show "acyclic (set (selected_arcs (map node_id (canvas_nodes (rt_canvas rt))) (orderingEdges (canvas_edges (rt_canvas rt)))))"
    by (rule wellformed_canvasD(7) [OF wf])
  have "is_Review k \<Longrightarrow> \<not> is_Revision k" for k by (cases k) simp_all
  then show "review_arcs rt \<subseteq> set (selected_arcs (map node_id (canvas_nodes (rt_canvas rt)))
      (orderingEdges (canvas_edges (rt_canvas rt))))"
    using wellformed_edge_ends [OF wf]
    by (auto simp: review_arcs_def edge_arcs_def review_edges_def selected_arcs_def orderingEdges_def)
qed

text \<open>On a well-shaped runtime neither reader throws for a node or edge of the canvas.\<close>

lemma find_SomeD: "find P xs = Some x \<Longrightarrow> x \<in> set xs \<and> P x"
  by (induction xs) (auto split: if_splits)

lemma find_node_total:
  assumes "i \<in> node_id ` set (canvas_nodes (rt_canvas rt))"
  obtains n where "find_node rt i = Some n" "n \<in> set (canvas_nodes (rt_canvas rt))" "node_id n = i"
proof (cases "find_node rt i")
  case None
  then show ?thesis using assms by (auto simp: find_node_def find_None_iff)
next
  case (Some n)
  then have "n \<in> set (canvas_nodes (rt_canvas rt)) \<and> node_id n = i"
    unfolding find_node_def by (rule find_SomeD)
  with Some show ?thesis using that by simp
qed

lemma nodeById_total: "i \<in> node_id ` set (canvas_nodes (rt_canvas rt)) \<Longrightarrow> \<exists>n. nodeById rt i = Inr n"
  by (rule find_node_total [of i rt]) (auto simp: nodeById_def)

lemma assessment_step_total:
  assumes "edge_targetNodeId e \<in> node_id ` set (canvas_nodes (rt_canvas rt))"
    and "\<exists>s. status (edge_sourceNodeId e) = Inr s"
  shows "\<exists>a. assessment_step status rt e = Inr a"
proof -
  obtain n s where "nodeById rt (edge_targetNodeId e) = Inr n" "status (edge_sourceNodeId e) = Inr s"
    using nodeById_total [OF assms(1)] assms(2) by blast
  then show ?thesis
    by (auto simp: assessment_step_def split: edge_config.splits option.splits)
qed

lemma status_step_total:
  assumes "v \<in> node_id ` set (canvas_nodes (rt_canvas rt))"
    and "\<And>e. e \<in> set (agent_reviews rt v) \<Longrightarrow> \<exists>a. assess e = Inr a"
  shows "\<exists>s. status_step assess rt v = Inr s"
proof -
  obtain n as where "nodeById rt v = Inr n" "map_res assess (agent_reviews rt v) = Inr as"
    using nodeById_total [OF assms(1)] map_res_total [of "agent_reviews rt v" assess, OF assms(2)] by blast
  then show ?thesis by (simp add: status_step_def split: option.splits)
qed

lemma canvasNodeStatus_total:
  assumes shape: "runtime_shape rt"
  shows "v \<in> node_id ` set (canvas_nodes (rt_canvas rt)) \<Longrightarrow> \<exists>s. canvasNodeStatus rt v = Inr s"
proof (induction "review_rank rt v" arbitrary: v rule: less_induct)
  case less
  note ac = runtime_review_acyclic [OF shape]
  have wf: "wellformed_canvas (rt_canvas rt)" using shape by (simp add: runtime_shape_def)
  have "\<exists>a. currentReviewerAssessmentForEdge rt e = Inr a" if e: "e \<in> set (agent_reviews rt v)" for e
    unfolding currentReviewerAssessmentForEdge_def
  proof (rule assessment_step_total)
    note ends = wellformed_edge_ends [OF wf agent_reviews_edge(3) [OF e]]
    show "edge_targetNodeId e \<in> node_id ` set (canvas_nodes (rt_canvas rt))" by (rule ends(2))
    show "\<exists>s. canvasNodeStatus rt (edge_sourceNodeId e) = Inr s"
      by (rule less.hyps [OF review_rank_less [OF ac agent_reviews_edge(1,2) [OF e]] ends(1)])
  qed
  then show ?case
    by (subst canvasNodeStatus_unfold [OF ac]) (rule status_step_total [OF less.prems])
qed

lemma currentReviewerAssessment_total:
  assumes shape: "runtime_shape rt" and e: "e \<in> set (canvas_edges (rt_canvas rt))"
  shows "\<exists>a. currentReviewerAssessmentForEdge rt e = Inr a"
  unfolding currentReviewerAssessmentForEdge_def
proof (rule assessment_step_total)
  have wf: "wellformed_canvas (rt_canvas rt)" using shape by (simp add: runtime_shape_def)
  show "edge_targetNodeId e \<in> node_id ` set (canvas_nodes (rt_canvas rt))" by (rule wellformed_edge_ends(2) [OF wf e])
  show "\<exists>s. canvasNodeStatus rt (edge_sourceNodeId e) = Inr s"
    by (rule canvasNodeStatus_total [OF shape wellformed_edge_ends(1) [OF wf e]])
qed

section \<open>What the effective status means\<close>

lemma has_verdict_iff [simp]: "has_verdict v a \<longleftrightarrow> (\<exists>x. a = Some x \<and> ra_verdict x = v)"
  by (cases a) (simp_all add: has_verdict_def)

definition assessed :: "runtime \<Rightarrow> verdict \<Rightarrow> canvas_edge \<Rightarrow> bool" where
  "assessed rt v e = (\<exists>a. currentReviewerAssessmentForEdge rt e = Inr (Some a) \<and> ra_verdict a = v)"

lemma canvasNodeStatus_run:
  assumes shape: "runtime_shape rt" and r: "run_of rt i = Some r"
  shows "canvasNodeStatus rt i =
    Inr (if nr_status r \<noteq> Succeeded then nr_status r
         else if \<exists>e \<in> set (agent_reviews rt i). assessed rt ChangesRequested e then Failed
         else if \<exists>e \<in> set (agent_reviews rt i). \<not> assessed rt Approved e then Running
         else Succeeded)"
proof -
  have "\<exists>a. currentReviewerAssessmentForEdge rt e = Inr a" if "e \<in> set (agent_reviews rt i)" for e
    using currentReviewerAssessment_total [OF shape] agent_reviews_edge [OF that] by blast
  then obtain as where as: "map_res (currentReviewerAssessmentForEdge rt) (agent_reviews rt i) = Inr as"
    using map_res_total by blast
  then have all2: "list_all2 (\<lambda>e a. currentReviewerAssessmentForEdge rt e = Inr a) (agent_reviews rt i) as"
    by (simp add: map_res_Inr_list_all2)
  have ex: "list_ex P as \<longleftrightarrow> (\<exists>e \<in> set (agent_reviews rt i). \<exists>a. currentReviewerAssessmentForEdge rt e = Inr a \<and> P a)" for P
    using all2 by (induction rule: list_all2_induct) auto
  have "list_ex (has_verdict ChangesRequested) as \<longleftrightarrow> (\<exists>e \<in> set (agent_reviews rt i). assessed rt ChangesRequested e)"
    unfolding ex assessed_def by auto
  moreover have "list_ex (\<lambda>a. \<not> has_verdict Approved a) as \<longleftrightarrow> (\<exists>e \<in> set (agent_reviews rt i). \<not> assessed rt Approved e)"
    unfolding ex
  proof (rule bex_cong [OF refl])
    fix e assume "e \<in> set (agent_reviews rt i)"
    then obtain a where "currentReviewerAssessmentForEdge rt e = Inr a"
      using currentReviewerAssessment_total [OF shape] agent_reviews_edge(3) by blast
    then show "(\<exists>a. currentReviewerAssessmentForEdge rt e = Inr a \<and> \<not> has_verdict Approved a)
        \<longleftrightarrow> \<not> assessed rt Approved e" by (auto simp: assessed_def)
  qed
  moreover have "canvasNodeStatus rt i = status_step (currentReviewerAssessmentForEdge rt) rt i"
    by (rule canvasNodeStatus_unfold [OF runtime_review_acyclic [OF shape]])
  ultimately show ?thesis using as r
    by (cases "agent_reviews rt i = []") (auto simp: status_step_def)
qed

text \<open>
  Reading a node's status never fails on a well-shaped runtime (the recursion along agent
  reviews ends), and a planned node counts as succeeded exactly when its own run succeeded and every
  planned agent review assigned to it has a current approval; a current change request makes it
  failed and a missing verdict leaves it running.
\<close>

theorem canvasNodeStatus_effective:
  assumes "runtime_shape rt" and "i \<in> set (pl_nodeIds (rt_plan rt))"
  shows "\<exists>r. run_of rt i = Some r \<and>
    canvasNodeStatus rt i =
      Inr (if nr_status r \<noteq> Succeeded then nr_status r
           else if \<exists>e \<in> set (agent_reviews rt i). assessed rt ChangesRequested e then Failed
           else if \<exists>e \<in> set (agent_reviews rt i). \<not> assessed rt Approved e then Running
           else Succeeded)"
proof -
  have "i \<in> set (obj_keys (node_runs rt))" using assms by (simp add: runtime_shape_def)
  then obtain r where "run_of rt i = Some r"
    unfolding run_of_def by (metis not_None_eq obj_get_eq_None_iff)
  with canvasNodeStatus_run [OF assms(1) this] show ?thesis by blast
qed

section \<open>Current evidence is bound to current attempts\<close>

definition succeeded_now :: "runtime \<Rightarrow> string \<Rightarrow> bool" where
  "succeeded_now rt i =
     (map_option nr_status (run_of rt i) = Some Succeeded \<and> canvasNodeStatus rt i = Inr Succeeded)"

lemma currentReviewerAssessment_bound:
  assumes "currentReviewerAssessmentForEdge rt e = Inr (Some a)"
  shows "\<exists>k target reviewerId. edge_config e = Review k \<and> rev_reviewer k \<noteq> ReviewerHuman
      \<and> nodeById rt (edge_targetNodeId e) = Inr target
      \<and> expected_reviewer (rev_reviewer k) e target = Some reviewerId
      \<and> ra_reviewerNodeId a = reviewerId \<and> reviewer_finished (run_of rt reviewerId)
      \<and> attempt_of rt reviewerId = Some (ra_reviewerAttempt a)"
    and "obj_get (ev_reviewerAssessments (rt_evidence rt)) (edge_id e) = Some a"
    and "ra_runId a = run_id rt" and "ra_reviewEdgeId a = edge_id e"
    and "ra_reviewedNodeId a = edge_sourceNodeId e"
    and "succeeded_now rt (edge_sourceNodeId e)"
    and "attempt_of rt (edge_sourceNodeId e) = Some (ra_reviewedNodeAttempt a)"
    and "digest_current rt (edge_sourceNodeId e) a"
proof -
  obtain k where k: "edge_config e = Review k"
    using assms by (cases "edge_config e") (simp_all add: currentReviewerAssessmentForEdge_def assessment_step_def)
  obtain a' where stored: "obj_get (ev_reviewerAssessments (rt_evidence rt)) (edge_id e) = Some a'"
    and human: "rev_reviewer k \<noteq> ReviewerHuman"
    using assms by (auto simp: currentReviewerAssessmentForEdge_def assessment_step_def k split: option.splits if_splits)
  obtain target where target: "nodeById rt (edge_targetNodeId e) = Inr target"
    using assms by (auto simp: currentReviewerAssessmentForEdge_def assessment_step_def k stored human res_bind_eq_Inr)
  have bound: "assessment_bound rt e (expected_reviewer (rev_reviewer k) e target) a'"
    and rest: "canvasNodeStatus rt (edge_sourceNodeId e) = Inr Succeeded" "ra_reviewedNodeId a' = edge_sourceNodeId e"
    "attempt_of rt (edge_sourceNodeId e) = Some (ra_reviewedNodeAttempt a')" "digest_current rt (edge_sourceNodeId e) a'"
    and a: "a' = a"
    using assms
    by (auto simp: currentReviewerAssessmentForEdge_def assessment_step_def k stored human target res_bind_eq_Inr
        split: if_splits)
  show "\<exists>k target reviewerId. edge_config e = Review k \<and> rev_reviewer k \<noteq> ReviewerHuman
      \<and> nodeById rt (edge_targetNodeId e) = Inr target
      \<and> expected_reviewer (rev_reviewer k) e target = Some reviewerId
      \<and> ra_reviewerNodeId a = reviewerId \<and> reviewer_finished (run_of rt reviewerId)
      \<and> attempt_of rt reviewerId = Some (ra_reviewerAttempt a)"
    using k human target bound a by (auto simp: assessment_bound_def split: option.splits)
  show "obj_get (ev_reviewerAssessments (rt_evidence rt)) (edge_id e) = Some a" using stored a by simp
  show "ra_runId a = run_id rt" "ra_reviewEdgeId a = edge_id e"
    using bound a by (auto simp: assessment_bound_def split: option.splits)
  show "succeeded_now rt (edge_sourceNodeId e)"
    using bound rest(1) by (auto simp: assessment_bound_def succeeded_now_def split: option.splits)
  show "ra_reviewedNodeId a = edge_sourceNodeId e"
    "attempt_of rt (edge_sourceNodeId e) = Some (ra_reviewedNodeAttempt a)"
    "digest_current rt (edge_sourceNodeId e) a" using rest(2-4) a by simp_all
qed

text \<open>
  A check that counts for a gate: passed by the current, successful attempt of its producer, on an
  output of the current attempt of the reviewed node that a required output edge delivered to the
  producer, verified before the producer started.
\<close>

definition passed_on_current_output :: "runtime \<Rightarrow> string \<Rightarrow> check_result \<Rightarrow> bool" where
  "passed_on_current_output rt reviewed k =
     (ck_status k = CheckPassed \<and> ck_runId k = run_id rt
      \<and> ck_reviewedNodeId k = Some reviewed \<and> ck_reviewedNodeAttempt k = attempt_of rt reviewed
      \<and> (\<exists>producer r e p.
           ck_producerNodeId k = Some producer \<and> run_of rt producer = Some r \<and> nr_status r = Succeeded
           \<and> ck_producerAttempt k = Some (nr_attempt r)
           \<and> e \<in> set (canvas_edges (rt_canvas rt)) \<and> is_planned rt e \<and> is_Output (edge_config e)
           \<and> edge_sourceNodeId e = reviewed \<and> edge_targetNodeId e = producer
           \<and> obj_get (ev_outputPublications (rt_evidence rt)) (edge_id e) = Some p
           \<and> op_runId p = run_id rt \<and> op_producerNodeId p = reviewed
           \<and> attempt_of rt reviewed = Some (op_producerAttempt p)
           \<and> ck_reviewedOutputDigest k = Some (op_contentDigest p) \<and> verified_before_start p r))"

lemma causal_publicationD:
  assumes "p \<in> set (currentCausalCheckPublications rt reviewed producer)"
  shows "\<exists>e \<in> set (canvas_edges (rt_canvas rt)). is_planned rt e \<and> is_Output (edge_config e)
      \<and> edge_sourceNodeId e = reviewed \<and> edge_targetNodeId e = producer
      \<and> obj_get (ev_outputPublications (rt_evidence rt)) (edge_id e) = Some p
      \<and> op_runId p = run_id rt \<and> op_producerNodeId p = reviewed
      \<and> attempt_of rt reviewed = Some (op_producerAttempt p)"
proof -
  obtain e where e: "e \<in> set (canvas_edges (rt_canvas rt))" and p: "p \<in> set (case edge_config e of
       Output k \<Rightarrow>
         if out_required k \<and> edge_sourceNodeId e = reviewed \<and> edge_targetNodeId e = producer \<and> is_planned rt e
         then causal_publication rt reviewed k e else []
     | _ \<Rightarrow> [])"
    using assms unfolding currentCausalCheckPublications_def set_concat set_map by blast
  then obtain k where k: "edge_config e = Output k" by (cases "edge_config e") auto
  with p have p': "edge_sourceNodeId e = reviewed" "edge_targetNodeId e = producer" "is_planned rt e"
    "p \<in> set (causal_publication rt reviewed k e)" by (simp_all split: if_splits)
  then obtain q where "obj_get (ev_outputPublications (rt_evidence rt)) (edge_id e) = Some q"
    unfolding causal_publication_def by (cases "obj_get (ev_outputPublications (rt_evidence rt)) (edge_id e)") auto
  with p' e k show ?thesis
    by (intro bexI [of _ e]) (simp_all add: causal_publication_def split: if_splits)
qed

lemma check_current_passed:
  assumes "check_current rt reviewed k" and "ck_status k = CheckPassed"
  shows "passed_on_current_output rt reviewed k"
proof -
  obtain producer r where pr: "ck_producerNodeId k = Some producer" "run_of rt producer = Some r"
    using assms(1) by (auto simp: check_current_def split: option.splits)
  then obtain p where p: "p \<in> set (currentCausalCheckPublications rt reviewed producer)"
    "Some (op_contentDigest p) = ck_reviewedOutputDigest k" "verified_before_start p r"
    using assms(1) by (auto simp: check_current_def list_ex_iff)
  from causal_publicationD [OF p(1)] obtain e where "e \<in> set (canvas_edges (rt_canvas rt))" "is_planned rt e"
    "is_Output (edge_config e)" "edge_sourceNodeId e = reviewed" "edge_targetNodeId e = producer"
    "obj_get (ev_outputPublications (rt_evidence rt)) (edge_id e) = Some p"
    "op_runId p = run_id rt" "op_producerNodeId p = reviewed"
    "attempt_of rt reviewed = Some (op_producerAttempt p)" by blast
  with assms pr p show ?thesis
    unfolding passed_on_current_output_def check_current_def by auto
qed

text \<open>
  A reviewer assessment counts only while it is about the present: it is the recorded one for
  this run and this edge, it comes from the configured (never a human) reviewer in its current
  attempt, which finished, it reviews the current attempt of the edge's source, that source
  effectively succeeded, and its digest is the source's current output.
\<close>

theorem currentReviewerAssessment_current:
  assumes "currentReviewerAssessmentForEdge rt e = Inr (Some a)"
  shows "obj_get (ev_reviewerAssessments (rt_evidence rt)) (edge_id e) = Some a
     \<and> ra_runId a = run_id rt \<and> ra_reviewEdgeId a = edge_id e
     \<and> ra_reviewedNodeId a = edge_sourceNodeId e
     \<and> attempt_of rt (edge_sourceNodeId e) = Some (ra_reviewedNodeAttempt a)
     \<and> succeeded_now rt (edge_sourceNodeId e) \<and> digest_current rt (edge_sourceNodeId e) a
     \<and> (\<exists>k target. edge_config e = Review k \<and> rev_reviewer k \<noteq> ReviewerHuman
          \<and> nodeById rt (edge_targetNodeId e) = Inr target
          \<and> expected_reviewer (rev_reviewer k) e target = Some (ra_reviewerNodeId a)
          \<and> reviewer_finished (run_of rt (ra_reviewerNodeId a))
          \<and> attempt_of rt (ra_reviewerNodeId a) = Some (ra_reviewerAttempt a))"
  using currentReviewerAssessment_bound [OF assms] by metis

definition stored_checks :: "runtime \<Rightarrow> string \<Rightarrow> check_result list" where
  "stored_checks rt gateNodeId =
     (case obj_get (ev_gateChecks (rt_evidence rt)) gateNodeId of None \<Rightarrow> [] | Some ks \<Rightarrow> ks)"

lemma currentGateChecks_Inr:
  assumes "currentGateChecks rt i = Inr checks" and "k \<in> set checks"
  shows "\<exists>reviewed. reviewedSourceForGate rt i = Inr reviewed \<and> succeeded_now rt reviewed
    \<and> k \<in> set (stored_checks rt i) \<and> check_current rt reviewed k"
proof -
  obtain g where g: "gate_data_of rt i = Inr g" using assms by (auto simp: currentGateChecks_def res_bind_eq_Inr)
  then obtain reviewed where r: "reviewedSourceForGate rt i = Inr reviewed"
    using assms by (auto simp: currentGateChecks_def res_bind_eq_Inr split: if_splits)
  then obtain s where s: "map_option nr_status (run_of rt reviewed) = Some Succeeded" "canvasNodeStatus rt reviewed = Inr s"
    using assms g by (auto simp: currentGateChecks_def res_bind_eq_Inr split: if_splits)
  then have "s = Succeeded" using assms g r by (auto simp: currentGateChecks_def split: if_splits)
  with s g r assms show ?thesis
    by (auto simp: currentGateChecks_def succeeded_now_def stored_checks_def split: if_splits)
qed

lemma currentGateChecks_distinct:
  assumes "currentGateChecks rt i = Inr checks" and "distinct (map ck_id (stored_checks rt i))"
  shows "distinct (map ck_id checks)"
  using assms
  by (auto simp: currentGateChecks_def res_bind_eq_Inr stored_checks_def distinct_map_filter split: if_splits)

lemma reviewGateEvaluation_InrE:
  assumes "reviewGateEvaluation rt i = Inr ev"
  obtains g as checks where "gate_data_of rt i = Inr g" "gate_assessments rt i = Inr as"
    "currentGateChecks rt i = Inr checks"
    "evaluateReviewGate g \<lparr> gv_checks = checks, gv_reviewerAssessment = chosen_assessment g as,
       gv_humanApproved = hasCurrentHumanApproval rt i \<rparr> = Inr ev"
  using assms
  by (auto simp: reviewGateEvaluation_def currentReviewGateEvidence_def res_bind_eq_Inr Let_def)

lemma chosen_assessment_current:
  assumes "gate_assessments rt i = Inr as" and "chosen_assessment g as = Some a"
  shows "rg_reviewerAgentId g = Some (ra_reviewerNodeId a)
    \<and> (\<exists>e \<in> set (canvas_edges (rt_canvas rt)). is_Review (edge_config e) \<and> edge_targetNodeId e = i
         \<and> currentReviewerAssessmentForEdge rt e = Inr (Some a))"
proof -
  have f: "find (\<lambda>a. map_option ra_reviewerNodeId a = rg_reviewerAgentId g) as = Some (Some a)"
    using assms(2) by (auto simp: chosen_assessment_def split: option.splits)
  then have "map_option ra_reviewerNodeId (Some a) = rg_reviewerAgentId g" and mem: "Some a \<in> set as"
    using find_SomeD [OF f] by simp_all
  moreover have "\<exists>e \<in> set (canvas_edges (rt_canvas rt)). is_Review (edge_config e) \<and> edge_targetNodeId e = i
         \<and> currentReviewerAssessmentForEdge rt e = Inr (Some a)"
    using map_res_Inr_in_set [OF assms(1) [unfolded gate_assessments_def] mem] by auto
  ultimately show ?thesis by simp
qed

text \<open>
  C3. A review gate that evaluates as passed rests on current evidence only: for every required
  check a recorded result with that id, passed by the current successful attempt of its producer on
  a verified output of the current attempt of the gate's reviewed source, which effectively
  succeeded; a current approval of the configured reviewer on a review edge into the gate, without
  blocking findings; and a current human approval where the gate requires one. Recorded results of
  earlier attempts never count.
\<close>

theorem passed_gate_rests_on_current_evidence:
  assumes eval: "reviewGateEvaluation rt i = Inr ev" and pass: "ge_status ev = GatePass"
    and ids: "distinct (map ck_id (stored_checks rt i))"
  shows "\<exists>g. gate_data_of rt i = Inr g
    \<and> (\<forall>c \<in> set (rg_requiredCheckIds g). \<exists>reviewed k. reviewedSourceForGate rt i = Inr reviewed
         \<and> succeeded_now rt reviewed \<and> k \<in> set (stored_checks rt i) \<and> ck_id k = c
         \<and> passed_on_current_output rt reviewed k)
    \<and> (\<forall>reviewer. rg_reviewerAgentId g = Some reviewer \<longrightarrow>
         (\<exists>e a. e \<in> set (canvas_edges (rt_canvas rt)) \<and> is_Review (edge_config e) \<and> edge_targetNodeId e = i
            \<and> currentReviewerAssessmentForEdge rt e = Inr (Some a) \<and> ra_reviewerNodeId a = reviewer
            \<and> ra_verdict a = Approved \<and> (\<forall>f \<in> set (ra_findings a). \<not> rf_blocking f)))
    \<and> (rg_humanApprovalRequired g \<longrightarrow> hasCurrentHumanApproval rt i)"
proof -
  obtain g as checks where g: "gate_data_of rt i = Inr g" and as: "gate_assessments rt i = Inr as"
    and checks: "currentGateChecks rt i = Inr checks"
    and ev: "evaluateReviewGate g \<lparr> gv_checks = checks, gv_reviewerAssessment = chosen_assessment g as,
       gv_humanApproved = hasCurrentHumanApproval rt i \<rparr> = Inr ev"
    using eval by (rule reviewGateEvaluation_InrE)
  have "distinct (map ck_id checks)" by (rule currentGateChecks_distinct [OF checks ids])
  then have dist: "distinct (map ck_id (gv_checks \<lparr> gv_checks = checks, gv_reviewerAssessment = chosen_assessment g as,
       gv_humanApproved = hasCurrentHumanApproval rt i \<rparr>))" by simp
  note F = evaluateReviewGate_fields [OF dist ev, simplified]
  have "ge_deterministicStatus ev = DetPassed" "ge_reviewerStatus ev \<in> {RevNotRequired, RevPassed}"
    "ge_humanStatus ev \<noteq> HumanPending"
    using pass F(6)
    by (cases "ge_deterministicStatus ev"; cases "ge_reviewerStatus ev"; auto split: if_splits)+
  then have sat: "checks_satisfied g checks" "reviewer_satisfied g (chosen_assessment g as)"
    "human_satisfied g (hasCurrentHumanApproval rt i)" using F by simp_all
  have check: "\<exists>reviewed k. reviewedSourceForGate rt i = Inr reviewed \<and> succeeded_now rt reviewed
      \<and> k \<in> set (stored_checks rt i) \<and> ck_id k = c \<and> passed_on_current_output rt reviewed k"
    if c: "c \<in> set (rg_requiredCheckIds g)" for c
  proof -
    obtain k where k: "k \<in> set checks" "ck_id k = c" "ck_status k = CheckPassed"
      using sat(1) c unfolding checks_satisfied_def relevant_check_def by metis
    from currentGateChecks_Inr [OF checks k(1)] obtain reviewed where
      "reviewedSourceForGate rt i = Inr reviewed" "succeeded_now rt reviewed"
      "k \<in> set (stored_checks rt i)" "check_current rt reviewed k" by blast
    with k check_current_passed show ?thesis by blast
  qed
  have reviewer: "\<exists>e a. e \<in> set (canvas_edges (rt_canvas rt)) \<and> is_Review (edge_config e) \<and> edge_targetNodeId e = i
      \<and> currentReviewerAssessmentForEdge rt e = Inr (Some a) \<and> ra_reviewerNodeId a = reviewer
      \<and> ra_verdict a = Approved \<and> (\<forall>f \<in> set (ra_findings a). \<not> rf_blocking f)"
    if r: "rg_reviewerAgentId g = Some reviewer" for reviewer
  proof -
    obtain a where a: "chosen_assessment g as = Some a" "ra_verdict a = Approved" "\<forall>f \<in> set (ra_findings a). \<not> rf_blocking f"
      using sat(2) r by (auto simp: reviewer_satisfied_def)
    from chosen_assessment_current [OF as a(1)] a r show ?thesis by auto
  qed
  show ?thesis using g check reviewer sat(3) unfolding human_satisfied_def by blast
qed

end
