(* ===== verification/Evaluation.thy ===== *)
theory Evaluation
  imports Evidence_State
begin

text \<open>
  \<open>packages/core/src/workflow-runtime/evaluation.ts\<close>: the disposition of one edge of the plan
  (\<open>evaluateExecutableEdge\<close>, one definition per edge type), the context attachments of a node and
  the readiness of a node.
\<close>

section \<open>Edge evaluations\<close>

definition evaluation :: "canvas_edge \<Rightarrow> edge_disposition \<Rightarrow> run_status \<Rightarrow> string \<Rightarrow> edge_evaluation" where
  "evaluation e disposition status reason =
     \<lparr> ee_edgeId = edge_id e, ee_type = edge_type_text (edge_config e), ee_disposition = disposition,
       ee_status = status, ee_reason = reason, ee_gate = None \<rparr>"

definition gated_evaluation ::
  "canvas_edge \<Rightarrow> edge_disposition \<Rightarrow> run_status \<Rightarrow> string \<Rightarrow> gate_evaluation \<Rightarrow> edge_evaluation" where
  "gated_evaluation e disposition status reason gate =
     \<lparr> ee_edgeId = edge_id e, ee_type = edge_type_text (edge_config e), ee_disposition = disposition,
       ee_status = status, ee_reason = reason, ee_gate = Some gate \<rparr>"

definition waitingEdgeStatus :: "run_status \<Rightarrow> run_status" where
  "waitingEdgeStatus s = (if isTerminalRunStatus s then Queued else s)"

definition blockedEdgeStatus :: "run_status \<Rightarrow> run_status" where
  "blockedEdgeStatus s = (if s = Failed \<or> s = Cancelled \<or> s = Lost then s else Failed)"

text \<open>\<open>a || b\<close> on strings.\<close>

definition or_text :: "string \<Rightarrow> string \<Rightarrow> string" where
  "or_text a b = (if a = [] then b else a)"

text \<open>\<open>JSON.stringify\<close> tells two arrays of strings apart, so comparing the texts is comparing the arrays.\<close>

definition resolution_current :: "runtime \<Rightarrow> canvas_edge \<Rightarrow> context_resolution \<Rightarrow> bool" where
  "resolution_current rt e r =
     (cr_runId r = run_id rt \<and> cr_sourceNodeId r = edge_sourceNodeId e \<and> cr_targetNodeId r = edge_targetNodeId e
      \<and> attempt_of rt (edge_targetNodeId e) = Some (cr_targetAttempt r))"

definition evaluate_context :: "runtime \<Rightarrow> canvas_edge \<Rightarrow> context_config \<Rightarrow> run_status \<Rightarrow> edge_evaluation" where
  "evaluate_context rt e c sourceStatus =
     (if ctx_required c \<and> ctx_attachmentIds c = []
      then evaluation e EdgeBlocked Failed ''This required context link has no attachments selected''
      else if ctx_attachmentIds c = []
      then evaluation e EdgeSatisfied Succeeded ''This optional context link has no attachments selected''
      else case obj_get (ev_contextResolutions (rt_evidence rt)) (edge_id e) of
        None \<Rightarrow> evaluation e EdgeWaiting Queued ''The selected attachments are waiting to be verified''
      | Some r \<Rightarrow>
          if \<not> resolution_current rt e r \<or> uniqueSorted (cr_attachmentIds r) \<noteq> uniqueSorted (ctx_attachmentIds c)
          then evaluation e EdgeBlocked (blockedEdgeStatus sourceStatus)
                 ''The verified context is out of date for the current attempt''
          else evaluation e EdgeSatisfied Succeeded ''The selected attachments were verified for this attempt'')"

definition evaluate_dependency :: "canvas_edge \<Rightarrow> run_status \<Rightarrow> edge_evaluation" where
  "evaluate_dependency e sourceStatus =
     (if sourceStatus = Succeeded then evaluation e EdgeSatisfied Succeeded ''The required earlier task succeeded''
      else if isTerminalRunStatus sourceStatus
      then evaluation e EdgeBlocked (blockedEdgeStatus sourceStatus)
             (''The required earlier task ended as '' @ run_status_text sourceStatus)
      else evaluation e EdgeWaiting (waitingEdgeStatus sourceStatus) ''The required earlier task has not succeeded'')"

definition trigger_satisfied :: "trigger \<Rightarrow> run_status \<Rightarrow> bool" where
  "trigger_satisfied t sourceStatus =
     (if t = OnSuccess then sourceStatus = Succeeded else isTerminalRunStatus sourceStatus)"

definition evaluate_untriggered :: "canvas_edge \<Rightarrow> execute_config \<Rightarrow> run_status \<Rightarrow> edge_evaluation" where
  "evaluate_untriggered e c sourceStatus =
     (let blocked = exe_trigger c = OnSuccess \<and> isTerminalRunStatus sourceStatus in
      evaluation e (if blocked then EdgeBlocked else EdgeWaiting)
        (if blocked then blockedEdgeStatus sourceStatus else waitingEdgeStatus sourceStatus)
        (if blocked
         then ''This step runs only after success, but the earlier step ended as '' @ run_status_text sourceStatus
         else if exe_trigger c = OnSuccess then ''Waiting for the earlier step to succeed''
         else ''Waiting for the earlier step to finish''))"

definition execute_ready :: "canvas_edge \<Rightarrow> edge_evaluation" where
  "execute_ready e = evaluation e EdgeSatisfied Succeeded ''Everything needed for this step to run is ready''"

text \<open>The approval gate of an execute edge whose trigger is satisfied.\<close>

definition evaluate_approval_gate ::
  "canvas_edge \<Rightarrow> gate_evaluation \<Rightarrow> run_status option \<Rightarrow> edge_evaluation" where
  "evaluate_approval_gate e gate gateRunStatus =
     (if ge_status gate = GateFail
         \<or> (case gateRunStatus of None \<Rightarrow> False | Some s \<Rightarrow> isTerminalRunStatus s \<and> s \<noteq> Succeeded)
      then gated_evaluation e EdgeBlocked (case gateRunStatus of None \<Rightarrow> Failed | Some s \<Rightarrow> blockedEdgeStatus s)
             (or_text (join ''; '' (ge_reasons gate)) ''Review gate failed'') gate
      else if ge_status gate = GateWaitHuman
      then gated_evaluation e EdgeWaitingForApproval WaitingForApproval (join ''; '' (ge_reasons gate)) gate
      else if ge_status gate \<noteq> GatePass \<or> (case gateRunStatus of None \<Rightarrow> False | Some s \<Rightarrow> s \<noteq> Succeeded)
      then gated_evaluation e EdgeWaiting (case gateRunStatus of None \<Rightarrow> Queued | Some s \<Rightarrow> waitingEdgeStatus s)
             (or_text (join ''; '' (ge_reasons gate)) ''Review gate has not completed'') gate
      else execute_ready e)"

definition evaluate_execute :: "runtime \<Rightarrow> canvas_edge \<Rightarrow> execute_config \<Rightarrow> run_status \<Rightarrow> edge_evaluation res" where
  "evaluate_execute rt e c sourceStatus =
     (if (case run_of rt (edge_sourceNodeId e) of None \<Rightarrow> False
          | Some r \<Rightarrow> nr_failureCode r = Some ''REVIEW_CHANGES_REQUESTED'')
      then return (evaluation e EdgeBlocked Failed ''The reviewer requested changes, so later steps cannot run'')
      else if \<not> trigger_satisfied (exe_trigger c) sourceStatus
      then return (evaluate_untriggered e c sourceStatus)
      else if exe_approval c = ApproveHuman \<and> \<not> hasCurrentHumanApproval rt (edge_id e)
      then return (evaluation e EdgeWaitingForApproval WaitingForApproval
                     ''This step needs your approval before it can run'')
      else if exe_approval c = ApproveReviewGate
      then (case exe_approvalGateNodeId c of
              None \<Rightarrow> throw (Error ''Validated review-gate edge lost its gate id'')
            | Some gateNodeId \<Rightarrow>
                res_bind (reviewGateEvaluation rt gateNodeId) (\<lambda>gate.
                  return (evaluate_approval_gate e gate (map_option nr_status (run_of rt gateNodeId)))))
      else return (execute_ready e))"

definition publication_current :: "runtime \<Rightarrow> canvas_edge \<Rightarrow> output_config \<Rightarrow> output_publication \<Rightarrow> bool" where
  "publication_current rt e c p =
     (op_runId p = run_id rt \<and> op_producerNodeId p = edge_sourceNodeId e
      \<and> attempt_of rt (edge_sourceNodeId e) = Some (op_producerAttempt p) \<and> op_outputKind p = out_outputKind c)"

definition evaluate_unpublished :: "canvas_edge \<Rightarrow> output_config \<Rightarrow> run_status \<Rightarrow> edge_evaluation" where
  "evaluate_unpublished e c sourceStatus =
     (if isTerminalRunStatus sourceStatus \<and> sourceStatus \<noteq> Succeeded
      then evaluation e (if out_required c then EdgeBlocked else EdgeSatisfied)
             (if out_required c then blockedEdgeStatus sourceStatus else Succeeded)
             (if out_required c
              then ''The required output was not shared before the earlier step ended as '' @ run_status_text sourceStatus
              else ''No optional output was shared'')
      else if sourceStatus = Succeeded \<and> \<not> out_required c
      then evaluation e EdgeSatisfied Succeeded ''No optional output was shared''
      else evaluation e EdgeWaiting (waitingEdgeStatus sourceStatus)
             (''Waiting for the required '' @ output_kind_text (out_outputKind c) @ '' output''))"

definition evaluate_output :: "runtime \<Rightarrow> canvas_edge \<Rightarrow> output_config \<Rightarrow> run_status \<Rightarrow> edge_evaluation" where
  "evaluate_output rt e c sourceStatus =
     (case obj_get (ev_outputPublications (rt_evidence rt)) (edge_id e) of
        Some p \<Rightarrow>
          if publication_current rt e c p
          then evaluation e EdgeSatisfied Succeeded
                 (''The '' @ output_kind_text (op_outputKind p) @ '' output was shared'')
          else evaluate_unpublished e c sourceStatus
      | None \<Rightarrow> evaluate_unpublished e c sourceStatus)"

definition evaluate_unreviewed :: "canvas_edge \<Rightarrow> run_status \<Rightarrow> edge_evaluation" where
  "evaluate_unreviewed e sourceStatus =
     (let blocked = isTerminalRunStatus sourceStatus in
      evaluation e (if blocked then EdgeBlocked else EdgeWaiting)
        (if blocked then blockedEdgeStatus sourceStatus else waitingEdgeStatus sourceStatus)
        (if blocked then ''The step under review ended as '' @ run_status_text sourceStatus
         else ''The review waits for the earlier step to succeed''))"

definition evaluate_human_review :: "runtime \<Rightarrow> canvas_edge \<Rightarrow> edge_evaluation" where
  "evaluate_human_review rt e =
     (case map_option hd_decision (currentHumanReviewDecision rt (edge_id e)) of
        Some ChangesRequested \<Rightarrow>
          evaluation e EdgeSatisfied Failed ''You finished the review with changes requested''
      | Some Approved \<Rightarrow> evaluation e EdgeSatisfied Succeeded ''You approved the reviewed result''
      | None \<Rightarrow> evaluation e EdgeWaitingForApproval WaitingForApproval
          ''Waiting for you to approve or request changes'')"

definition evaluate_agent_review ::
  "runtime \<Rightarrow> canvas_edge \<Rightarrow> reviewer_assessment option \<Rightarrow> edge_evaluation" where
  "evaluate_agent_review rt e assessment =
     (case map_option ra_verdict assessment of
        Some Approved \<Rightarrow> evaluation e EdgeSatisfied Succeeded ''The reviewer approved this attempt''
      | Some ChangesRequested \<Rightarrow> evaluation e EdgeBlocked Failed ''The reviewer requested changes''
      | None \<Rightarrow>
          (case map_option nr_status (run_of rt (edge_targetNodeId e)) of
             Some s \<Rightarrow>
               if isTerminalRunStatus s \<and> s \<noteq> Succeeded
               then evaluation e EdgeBlocked (blockedEdgeStatus s)
                      (''The reviewer agent ended as '' @ run_status_text s @ '' without approving'')
               else if s = Succeeded \<or> s = WaitingForApproval
               then evaluation e EdgeWaiting Running
                      ''The reviewer finished and still needs to record its review''
               else evaluation e EdgeSatisfied Succeeded
                      ''The step under review succeeded; the reviewer agent can run now''
           | None \<Rightarrow> evaluation e EdgeSatisfied Succeeded
               ''The step under review succeeded; the reviewer agent can run now''))"

definition evaluate_gate_review ::
  "canvas_edge \<Rightarrow> review_config \<Rightarrow> canvas_node \<Rightarrow> reviewer_assessment option \<Rightarrow> edge_evaluation" where
  "evaluate_gate_review e c target assessment =
     (let configuredGateReviewer =
            (case node_data target of
               ReviewGateNode g \<Rightarrow> if rev_reviewer c = ReviewerGate then rg_reviewerAgentId g else None
             | _ \<Rightarrow> None)
      in if rev_requireApproval c \<and> configuredGateReviewer \<noteq> None \<and> assessment = None
         then evaluation e EdgeWaiting Queued ''Waiting for the configured reviewer to finish its review''
         else evaluation e EdgeSatisfied Succeeded
                (if assessment = None then ''The review gate can decide without a separate reviewer''
                 else ''The review found nothing that blocks the run''))"

definition evaluate_review :: "runtime \<Rightarrow> canvas_edge \<Rightarrow> review_config \<Rightarrow> run_status \<Rightarrow> edge_evaluation res" where
  "evaluate_review rt e c sourceStatus =
     (if sourceStatus \<noteq> Succeeded then return (evaluate_unreviewed e sourceStatus)
      else res_bind (currentReviewerAssessmentForEdge rt e) (\<lambda>assessment.
        if has_verdict ChangesRequested assessment \<and> rev_reviewer c \<noteq> ReviewerAgent
        then return (evaluation e EdgeSatisfied Failed ''The review finished with changes requested'')
        else if rev_reviewer c = ReviewerHuman then return (evaluate_human_review rt e)
        else res_bind (nodeById rt (edge_targetNodeId e)) (\<lambda>target.
          return (if rev_reviewer c = ReviewerAgent then evaluate_agent_review rt e assessment
                  else evaluate_gate_review e c target assessment))))"

definition satisfied_reason :: "stop_condition option \<Rightarrow> string" where
  "satisfied_reason c =
     (case c of
        Some ReviewApproved \<Rightarrow> ''The loop finished because the review approved the result''
      | Some TestsPassed \<Rightarrow> ''The loop finished because the checks passed''
      | Some HumanAccepted \<Rightarrow> ''The loop finished because you accepted the result''
      | None \<Rightarrow> ''The loop finished'')"

definition evaluate_revision :: "runtime \<Rightarrow> canvas_edge \<Rightarrow> string option \<Rightarrow> edge_evaluation res" where
  "evaluate_revision rt e loopId =
     (case loopId of
        None \<Rightarrow> throw (Error (''Revision edge is not configured: '' @ edge_id e))
      | Some i \<Rightarrow>
          (case obj_get (wr_revisionLoops (rt_run rt)) i of
             None \<Rightarrow> throw (Error (''Revision loop state is missing: '' @ i))
           | Some state \<Rightarrow>
               if ls_loopId state \<in> set (rt_activeRevisionLoopIds rt)
               then res_bind (canvasNodeStatus rt (edge_targetNodeId e)) (\<lambda>s.
                 return (evaluation e EdgeSatisfied s
                   ''The review asked for changes, so the loop is trying again''))
               else case ls_status state of
                 WaitingHuman \<Rightarrow> return (evaluation e EdgeWaitingForApproval WaitingForApproval
                   ''The loop reached its limit and needs your decision'')
               | Satisfied \<Rightarrow> return (evaluation e EdgeSatisfied Succeeded (satisfied_reason (ls_stopCondition state)))
               | LoopCancelled \<Rightarrow> return (evaluation e EdgeInactive Cancelled ''You cancelled the loop'')
               | _ \<Rightarrow> return (evaluation e EdgeInactive Queued ''This step runs only after a failed review'')))"

definition evaluateExecutableEdge :: "runtime \<Rightarrow> canvas_edge \<Rightarrow> edge_evaluation res" where
  "evaluateExecutableEdge rt e =
     res_bind (assertPlannedEdge rt e) (\<lambda>_.
     res_bind (canvasNodeStatus rt (edge_sourceNodeId e)) (\<lambda>sourceStatus.
       case edge_config e of
         Context c \<Rightarrow> return (evaluate_context rt e c sourceStatus)
       | Dependency \<Rightarrow> return (evaluate_dependency e sourceStatus)
       | Execute c \<Rightarrow> evaluate_execute rt e c sourceStatus
       | Output c \<Rightarrow> return (evaluate_output rt e c sourceStatus)
       | Review c \<Rightarrow> evaluate_review rt e c sourceStatus
       | Revision loopId \<Rightarrow> evaluate_revision rt e loopId))"

section \<open>Context attachments\<close>

record context_attachment =
  ca_edgeId :: entity_id
  ca_sourceNodeId :: entity_id
  ca_sourceType :: string
  ca_attachmentIds :: "entity_id list"
  ca_required :: bool
  ca_contentDigest :: string
  ca_verifierId :: entity_id

definition context_attachment_of :: "runtime \<Rightarrow> canvas_edge \<Rightarrow> context_config \<Rightarrow> context_attachment list res" where
  "context_attachment_of rt e c =
     (if ctx_attachmentIds c = [] then return []
      else case obj_get (ev_contextResolutions (rt_evidence rt)) (edge_id e) of
        None \<Rightarrow> throw (Error (''This context link has not been verified yet: '' @ edge_id e))
      | Some r \<Rightarrow>
          if \<not> resolution_current rt e r \<or> cr_attachmentIds r \<noteq> ctx_attachmentIds c
          then throw (Error (''This context link is out of date for the current attempt: '' @ edge_id e))
          else res_bind (nodeById rt (edge_sourceNodeId e)) (\<lambda>source. return
            [\<lparr> ca_edgeId = edge_id e, ca_sourceNodeId = edge_sourceNodeId e,
               ca_sourceType = node_type_text (node_data source), ca_attachmentIds = ctx_attachmentIds c,
               ca_required = ctx_required c, ca_contentDigest = cr_contentDigest r,
               ca_verifierId = cr_verifierId r \<rparr>]))"

definition contextAttachmentsForNode :: "runtime \<Rightarrow> string \<Rightarrow> context_attachment list res" where
  "contextAttachmentsForNode rt nodeId =
     (if run_of rt nodeId = None then return []
      else res_bind (nodeById rt nodeId) (\<lambda>target.
        if \<not> is_AgentNode (node_data target) \<and> \<not> is_TaskNode (node_data target) then return []
        else res_bind (map_res (\<lambda>e. case edge_config e of
               Context c \<Rightarrow>
                 if edge_targetNodeId e = nodeId \<and> is_planned rt e then context_attachment_of rt e c else return []
             | _ \<Rightarrow> return []) (canvas_edges (rt_canvas rt))) (\<lambda>as. return (concat as))))"

section \<open>Node readiness\<close>

definition readiness ::
  "string \<Rightarrow> readiness_disposition \<Rightarrow> edge_evaluation list \<Rightarrow> string list \<Rightarrow> node_readiness" where
  "readiness nodeId disposition evaluations reasons =
     \<lparr> rd_nodeId = nodeId, rd_disposition = disposition, rd_edgeEvaluations = evaluations, rd_reasons = reasons \<rparr>"

definition incoming_edges :: "runtime \<Rightarrow> string \<Rightarrow> canvas_edge list" where
  "incoming_edges rt nodeId =
     filter (\<lambda>e. edge_targetNodeId e = nodeId \<and> \<not> is_Revision (edge_config e) \<and> is_planned rt e)
       (canvas_edges (rt_canvas rt))"

definition with_disposition :: "edge_disposition \<Rightarrow> edge_evaluation list \<Rightarrow> edge_evaluation list" where
  "with_disposition d evaluations = filter (\<lambda>v. ee_disposition v = d) evaluations"

text \<open>The sources whose gates name this agent as their reviewer.\<close>

definition assigned_sources :: "runtime \<Rightarrow> string \<Rightarrow> string list" where
  "assigned_sources rt nodeId =
     uniqueSorted (concat (map (\<lambda>n. case node_data n of
         ReviewGateNode g \<Rightarrow>
           if rg_reviewerAgentId g = Some nodeId \<and> run_of rt (node_id n) \<noteq> None
           then reviewedSourceIdsForGate rt (node_id n) else []
       | _ \<Rightarrow> []) (canvas_nodes (rt_canvas rt))))"

definition with_status :: "(run_status \<Rightarrow> bool) \<Rightarrow> runtime \<Rightarrow> string list \<Rightarrow> string list res" where
  "with_status P rt ids =
     res_bind (map_res (\<lambda>i. res_bind (canvasNodeStatus rt i) (\<lambda>s. return (i, s))) ids)
       (\<lambda>ps. return (map fst (filter (\<lambda>(_, s). P s) ps)))"

definition agent_readiness :: "runtime \<Rightarrow> string \<Rightarrow> edge_evaluation list \<Rightarrow> node_readiness option res" where
  "agent_readiness rt nodeId evaluations =
     res_bind (with_status (\<lambda>s. isTerminalRunStatus s \<and> s \<noteq> Succeeded) rt (assigned_sources rt nodeId)) (\<lambda>failedSources.
       if failedSources \<noteq> []
       then return (Some (readiness nodeId NodeBlocked evaluations
              [''The step under review did not succeed: '' @ join '', '' failedSources]))
       else res_bind (with_status (\<lambda>s. s \<noteq> Succeeded) rt (assigned_sources rt nodeId)) (\<lambda>pendingSources.
         if pendingSources \<noteq> []
         then return (Some (readiness nodeId NodeWaiting evaluations
                [''The reviewer is waiting for these steps: '' @ join '', '' pendingSources]))
         else return None))"

definition gate_readiness :: "runtime \<Rightarrow> string \<Rightarrow> edge_evaluation list \<Rightarrow> node_readiness option res" where
  "gate_readiness rt nodeId evaluations =
     res_bind (reviewGateEvaluation rt nodeId) (\<lambda>gate. return
       (if ge_status gate = GatePend then Some (readiness nodeId NodeWaiting evaluations (ge_reasons gate))
        else if ge_status gate = GateWaitHuman
        then Some (readiness nodeId NodeWaitingForApproval evaluations (ge_reasons gate))
        else None))"

text \<open>The last step of the readiness: the checks a node of its type adds.\<close>

definition extra_readiness :: "runtime \<Rightarrow> string \<Rightarrow> canvas_node \<Rightarrow> edge_evaluation list
   \<Rightarrow> node_readiness option res" where
  "extra_readiness rt i n vs =
     (case node_data n of
        AgentNode _ \<Rightarrow> agent_readiness rt i vs
      | ReviewGateNode _ \<Rightarrow> gate_readiness rt i vs
      | _ \<Rightarrow> return None)"

definition evaluateNodeReadiness :: "runtime \<Rightarrow> string \<Rightarrow> node_readiness res" where
  "evaluateNodeReadiness rt nodeId =
     (case run_of rt nodeId of
        None \<Rightarrow> return (readiness nodeId NodeNotRunnable [] [''This step is outside the current run''])
      | Some r \<Rightarrow>
          if rt_cancellationRequested rt \<or> isTerminalRunStatus (wr_status (rt_run rt))
          then return (readiness nodeId NodeNotRunnable []
                 [if rt_cancellationRequested rt then ''The workflow was cancelled'' else ''The workflow ended''])
          else if nr_status r \<noteq> Queued \<and> nr_status r \<noteq> WaitingForApproval
          then return (readiness nodeId NodeNotRunnable [] [''Node is already '' @ run_status_text (nr_status r)])
          else res_bind (map_res (evaluateExecutableEdge rt) (incoming_edges rt nodeId)) (\<lambda>evaluations.
            let blocked = with_disposition EdgeBlocked evaluations;
                waiting = with_disposition EdgeWaiting evaluations;
                approvals = with_disposition EdgeWaitingForApproval evaluations
            in if blocked \<noteq> [] then return (readiness nodeId NodeBlocked evaluations (map ee_reason blocked))
               else if waiting \<noteq> [] then return (readiness nodeId NodeWaiting evaluations (map ee_reason waiting))
               else if approvals \<noteq> []
               then return (readiness nodeId NodeWaitingForApproval evaluations (map ee_reason approvals))
               else res_bind (nodeById rt nodeId) (\<lambda>node.
                 res_bind (extra_readiness rt nodeId node evaluations) (\<lambda>result.
                 return (case result of None \<Rightarrow> readiness nodeId NodeReady evaluations [] | Some r \<Rightarrow> r)))))"

section \<open>When an edge releases its target\<close>

text \<open>
  The contract of the evaluation, stated on the evidence and not on the code's case order: what must
  hold of the present state before the target of an incoming edge may start.
\<close>

definition verified_context :: "runtime \<Rightarrow> canvas_edge \<Rightarrow> context_config \<Rightarrow> bool" where
  "verified_context rt e c =
     (case obj_get (ev_contextResolutions (rt_evidence rt)) (edge_id e) of
        None \<Rightarrow> False
      | Some r \<Rightarrow> resolution_current rt e r \<and> set (cr_attachmentIds r) = set (ctx_attachmentIds c))"

definition published :: "runtime \<Rightarrow> canvas_edge \<Rightarrow> output_config \<Rightarrow> bool" where
  "published rt e c =
     (case obj_get (ev_outputPublications (rt_evidence rt)) (edge_id e) of
        None \<Rightarrow> False | Some p \<Rightarrow> publication_current rt e c p)"

definition review_refused :: "runtime \<Rightarrow> string \<Rightarrow> bool" where
  "review_refused rt i =
     (case run_of rt i of None \<Rightarrow> False | Some r \<Rightarrow> nr_failureCode r = Some ''REVIEW_CHANGES_REQUESTED'')"

definition gate_passed :: "runtime \<Rightarrow> string \<Rightarrow> bool" where
  "gate_passed rt g =
     ((case reviewGateEvaluation rt g of Inl _ \<Rightarrow> False | Inr ev \<Rightarrow> ge_status ev = GatePass)
      \<and> (case run_of rt g of None \<Rightarrow> True | Some r \<Rightarrow> nr_status r = Succeeded))"

definition approved_execution :: "runtime \<Rightarrow> canvas_edge \<Rightarrow> execute_config \<Rightarrow> bool" where
  "approved_execution rt e c =
     (case exe_approval c of
        ApproveNone \<Rightarrow> True
      | ApproveHuman \<Rightarrow> hasCurrentHumanApproval rt (edge_id e)
      | ApproveReviewGate \<Rightarrow> (case exe_approvalGateNodeId c of None \<Rightarrow> False | Some g \<Rightarrow> gate_passed rt g))"

definition has_reviewer :: "runtime \<Rightarrow> string \<Rightarrow> bool" where
  "has_reviewer rt i =
     (case find_node rt i of
        None \<Rightarrow> False
      | Some n \<Rightarrow> (case node_data n of ReviewGateNode g \<Rightarrow> rg_reviewerAgentId g \<noteq> None | _ \<Rightarrow> False))"

text \<open>An agent reviewer may run while it has not finished; once it finished, only its approval counts.\<close>

definition reviewer_may_run :: "runtime \<Rightarrow> string \<Rightarrow> bool" where
  "reviewer_may_run rt i =
     (case run_of rt i of
        None \<Rightarrow> True
      | Some r \<Rightarrow> \<not> isTerminalRunStatus (nr_status r) \<and> nr_status r \<noteq> WaitingForApproval)"

definition review_settled :: "runtime \<Rightarrow> canvas_edge \<Rightarrow> review_config \<Rightarrow> bool" where
  "review_settled rt e c =
     (case rev_reviewer c of
        ReviewerHuman \<Rightarrow> currentHumanReviewDecision rt (edge_id e) \<noteq> None
      | ReviewerAgent \<Rightarrow> assessed rt Approved e
          \<or> currentReviewerAssessmentForEdge rt e = Inr None \<and> reviewer_may_run rt (edge_targetNodeId e)
      | ReviewerGate \<Rightarrow> \<not> (rev_requireApproval c \<and> has_reviewer rt (edge_targetNodeId e)
          \<and> currentReviewerAssessmentForEdge rt e = Inr None))"

definition released :: "runtime \<Rightarrow> canvas_edge \<Rightarrow> bool" where
  "released rt e =
     (case canvasNodeStatus rt (edge_sourceNodeId e) of
        Inl _ \<Rightarrow> False
      | Inr s \<Rightarrow> (case edge_config e of
          Context c \<Rightarrow> if ctx_attachmentIds c = [] then \<not> ctx_required c else verified_context rt e c
        | Dependency \<Rightarrow> s = Succeeded
        | Execute c \<Rightarrow> \<not> review_refused rt (edge_sourceNodeId e) \<and> trigger_satisfied (exe_trigger c) s
            \<and> approved_execution rt e c
        | Output c \<Rightarrow> published rt e c \<or> \<not> out_required c \<and> isTerminalRunStatus s
        | Review c \<Rightarrow> s = Succeeded \<and> review_settled rt e c
        | Revision _ \<Rightarrow> False))"

lemma ee_simps [simp]:
  "ee_disposition (evaluation e d s r) = d" "ee_edgeId (evaluation e d s r) = edge_id e"
  "ee_disposition (gated_evaluation e d s r g) = d" "ee_edgeId (gated_evaluation e d s r g) = edge_id e"
  "ee_reason (evaluation e d s r) = r" "ee_status (evaluation e d s r) = s"
  by (simp_all add: evaluation_def gated_evaluation_def)

abbreviation opens :: "edge_evaluation res \<Rightarrow> bool" where
  "opens m \<equiv> (\<exists>v. m = Inr v \<and> ee_disposition v = EdgeSatisfied)"

lemma evaluate_context_satisfied:
  "ee_disposition (evaluate_context rt e c s) = EdgeSatisfied \<longleftrightarrow>
     (if ctx_attachmentIds c = [] then \<not> ctx_required c else verified_context rt e c)"
  by (auto simp: evaluate_context_def verified_context_def uniqueSorted_eq_iff split: option.splits)

lemma evaluate_output_satisfied:
  "ee_disposition (evaluate_output rt e c s) = EdgeSatisfied \<longleftrightarrow>
     published rt e c \<or> \<not> out_required c \<and> isTerminalRunStatus s"
  by (auto simp: evaluate_output_def evaluate_unpublished_def published_def isTerminalRunStatus_def
      split: option.splits)

lemma gate_satisfied:
  "opens (res_bind (reviewGateEvaluation rt g) (\<lambda>ev.
      return (evaluate_approval_gate e ev (map_option nr_status (run_of rt g))))) \<longleftrightarrow> gate_passed rt g"
  by (cases "reviewGateEvaluation rt g"; cases "run_of rt g")
     (auto simp: gate_passed_def evaluate_approval_gate_def execute_ready_def isTerminalRunStatus_def)

lemma evaluate_execute_satisfied:
  "opens (evaluate_execute rt e c s) \<longleftrightarrow>
     \<not> review_refused rt (edge_sourceNodeId e) \<and> trigger_satisfied (exe_trigger c) s \<and> approved_execution rt e c"
proof (cases "exe_approval c = ApproveReviewGate")
  case True
  then show ?thesis
    using gate_satisfied [of rt _ e]
    by (cases "exe_approvalGateNodeId c")
       (auto simp: evaluate_execute_def review_refused_def approved_execution_def evaluate_untriggered_def Let_def
         split: option.splits)
next
  case False
  then show ?thesis
    by (cases "exe_approval c")
       (auto simp: evaluate_execute_def review_refused_def approved_execution_def evaluate_untriggered_def Let_def
         execute_ready_def split: option.splits)
qed

lemma evaluate_agent_review_satisfied:
  "ee_disposition (evaluate_agent_review rt e a) = EdgeSatisfied \<longleftrightarrow>
     has_verdict Approved a \<or> a = None \<and> reviewer_may_run rt (edge_targetNodeId e)"
  by (auto simp: evaluate_agent_review_def reviewer_may_run_def isTerminalRunStatus_def
      split: option.splits verdict.splits)

lemma assessment_of_human:
  "edge_config e = Review c \<Longrightarrow> rev_reviewer c = ReviewerHuman \<Longrightarrow> currentReviewerAssessmentForEdge rt e = Inr None"
  by (auto simp: currentReviewerAssessmentForEdge_def assessment_step_def split: option.splits)

lemma evaluate_review_satisfied:
  assumes target: "nodeById rt (edge_targetNodeId e) = Inr target"
    and a: "currentReviewerAssessmentForEdge rt e = Inr a" and e: "edge_config e = Review c"
  shows "opens (evaluate_review rt e c s) \<longleftrightarrow> s = Succeeded \<and> review_settled rt e c"
proof (cases "s = Succeeded")
  case False
  then show ?thesis by (simp add: evaluate_review_def evaluate_unreviewed_def Let_def)
next
  case True
  have find: "find_node rt (edge_targetNodeId e) = Some target"
    using target by (auto simp: nodeById_def split: option.splits)
  show ?thesis
  proof (cases "rev_reviewer c")
    case ReviewerHuman
    with assessment_of_human [OF e this, of rt] a True show ?thesis
      by (auto simp: evaluate_review_def evaluate_human_review_def review_settled_def
          split: option.splits verdict.splits)
  next
    case ReviewerAgent
    with a target True show ?thesis
      by (auto simp: evaluate_review_def review_settled_def evaluate_agent_review_satisfied assessed_def)
  next
    case ReviewerGate
    with a target find True show ?thesis
      by (cases a) (auto simp: evaluate_review_def review_settled_def evaluate_gate_review_def has_reviewer_def Let_def
          split: node_data.splits)
  qed
qed

text \<open>An incoming edge is satisfied exactly when the contract holds.\<close>

lemma evaluateExecutableEdge_satisfied:
  assumes shape: "runtime_shape rt" and e: "e \<in> set (canvas_edges (rt_canvas rt))" and planned: "is_planned rt e"
    and forward: "\<not> is_Revision (edge_config e)"
  shows "opens (evaluateExecutableEdge rt e) \<longleftrightarrow> released rt e"
proof -
  have wf: "wellformed_canvas (rt_canvas rt)" using shape by (simp add: runtime_shape_def)
  note ends = wellformed_edge_ends [OF wf e]
  obtain s where s: "canvasNodeStatus rt (edge_sourceNodeId e) = Inr s"
    using canvasNodeStatus_total [OF shape ends(1)] by blast
  obtain target where target: "nodeById rt (edge_targetNodeId e) = Inr target"
    using nodeById_total [OF ends(2)] by blast
  obtain a where a: "currentReviewerAssessmentForEdge rt e = Inr a"
    using currentReviewerAssessment_total [OF shape e] by blast
  have "opens (evaluateExecutableEdge rt e) \<longleftrightarrow>
      opens (case edge_config e of
         Context c \<Rightarrow> return (evaluate_context rt e c s)
       | Dependency \<Rightarrow> return (evaluate_dependency e s)
       | Execute c \<Rightarrow> evaluate_execute rt e c s
       | Output c \<Rightarrow> return (evaluate_output rt e c s)
       | Review c \<Rightarrow> evaluate_review rt e c s
       | Revision loopId \<Rightarrow> evaluate_revision rt e loopId)"
    using planned by (simp add: evaluateExecutableEdge_def assertPlannedEdge_def s)
  also have "\<dots> \<longleftrightarrow> released rt e"
  proof (cases "edge_config e")
    case (Context c)
    then show ?thesis by (simp add: released_def s evaluate_context_satisfied)
  next
    case (Execute c)
    then show ?thesis by (simp add: released_def s evaluate_execute_satisfied)
  next
    case (Output c)
    then show ?thesis by (simp add: released_def s evaluate_output_satisfied)
  next
    case (Review c)
    then show ?thesis by (simp add: released_def s evaluate_review_satisfied [OF target a Review])
  next
    case (Revision l)
    then show ?thesis using forward by simp
  next
    case Dependency
    then show ?thesis by (simp add: released_def s evaluate_dependency_def isTerminalRunStatus_def)
  qed
  finally show ?thesis .
qed

section \<open>When a node is ready\<close>

definition decided_gate :: "runtime \<Rightarrow> string \<Rightarrow> bool" where
  "decided_gate rt i =
     (case reviewGateEvaluation rt i of Inl _ \<Rightarrow> False | Inr ev \<Rightarrow> ge_status ev = GatePass \<or> ge_status ev = GateFail)"

definition may_start :: "runtime \<Rightarrow> string \<Rightarrow> bool" where
  "may_start rt i =
     (case find_node rt i of
        None \<Rightarrow> False
      | Some n \<Rightarrow> (case node_data n of
          AgentNode _ \<Rightarrow> \<forall>s \<in> set (assigned_sources rt i). canvasNodeStatus rt s = Inr Succeeded
        | ReviewGateNode _ \<Rightarrow> decided_gate rt i
        | _ \<Rightarrow> True))"

definition is_pending :: "runtime \<Rightarrow> string \<Rightarrow> bool" where
  "is_pending rt i =
     (case run_of rt i of None \<Rightarrow> False | Some r \<Rightarrow> nr_status r = Queued \<or> nr_status r = WaitingForApproval)"

definition node_ready :: "runtime \<Rightarrow> string \<Rightarrow> bool" where
  "node_ready rt i =
     (case evaluateNodeReadiness rt i of Inl _ \<Rightarrow> False | Inr d \<Rightarrow> rd_disposition d = NodeReady)"

lemma rd_simps [simp]:
  "rd_disposition (readiness i d vs rs) = d" "rd_nodeId (readiness i d vs rs) = i"
  "rd_edgeEvaluations (readiness i d vs rs) = vs" "rd_reasons (readiness i d vs rs) = rs"
  by (simp_all add: readiness_def)

lemma agent_readiness_Some:
  "agent_readiness rt i vs = Inr (Some d) \<Longrightarrow> rd_nodeId d = i \<and> rd_disposition d \<noteq> NodeReady"
  by (auto simp: agent_readiness_def res_bind_eq_Inr split: if_splits)

lemma gate_readiness_Some:
  "gate_readiness rt i vs = Inr (Some d) \<Longrightarrow> rd_nodeId d = i \<and> rd_disposition d \<noteq> NodeReady"
  by (auto simp: gate_readiness_def res_bind_eq_Inr split: if_splits)

lemma extra_readiness_Some:
  "extra_readiness rt i n vs = Inr (Some d) \<Longrightarrow> rd_nodeId d = i \<and> rd_disposition d \<noteq> NodeReady"
  by (cases "node_data n") (auto simp: extra_readiness_def dest: agent_readiness_Some gate_readiness_Some)

lemma evaluateNodeReadiness_pending:
  assumes "is_pending rt i" and "\<not> rt_cancellationRequested rt" and "\<not> isTerminalRunStatus (wr_status (rt_run rt))"
  shows "evaluateNodeReadiness rt i =
    res_bind (map_res (evaluateExecutableEdge rt) (incoming_edges rt i)) (\<lambda>vs.
      if with_disposition EdgeBlocked vs \<noteq> []
      then return (readiness i NodeBlocked vs (map ee_reason (with_disposition EdgeBlocked vs)))
      else if with_disposition EdgeWaiting vs \<noteq> []
      then return (readiness i NodeWaiting vs (map ee_reason (with_disposition EdgeWaiting vs)))
      else if with_disposition EdgeWaitingForApproval vs \<noteq> []
      then return (readiness i NodeWaitingForApproval vs (map ee_reason (with_disposition EdgeWaitingForApproval vs)))
      else res_bind (nodeById rt i) (\<lambda>n. res_bind (extra_readiness rt i n vs) (\<lambda>d.
        return (case d of None \<Rightarrow> readiness i NodeReady vs [] | Some d \<Rightarrow> d))))"
proof -
  obtain r where r: "run_of rt i = Some r" "nr_status r = Queued \<or> nr_status r = WaitingForApproval"
    using assms(1) by (auto simp: is_pending_def split: option.splits)
  from r(2) show ?thesis
    by (elim disjE) (simp_all add: evaluateNodeReadiness_def r(1) assms(2,3) Let_def)
qed

lemma evaluateNodeReadiness_not_pending:
  assumes "\<not> (is_pending rt i \<and> \<not> rt_cancellationRequested rt \<and> \<not> isTerminalRunStatus (wr_status (rt_run rt)))"
  shows "\<exists>reasons. evaluateNodeReadiness rt i = Inr (readiness i NodeNotRunnable [] reasons)"
  using assms by (auto simp: evaluateNodeReadiness_def is_pending_def split: option.splits)

lemma evaluateNodeReadiness_nodeId:
  assumes "evaluateNodeReadiness rt i = Inr d"
  shows "rd_nodeId d = i"
proof (cases "is_pending rt i \<and> \<not> rt_cancellationRequested rt \<and> \<not> isTerminalRunStatus (wr_status (rt_run rt))")
  case True
  then have "is_pending rt i" "\<not> rt_cancellationRequested rt" "\<not> isTerminalRunStatus (wr_status (rt_run rt))" by auto
  from assms [unfolded evaluateNodeReadiness_pending [OF this]] show ?thesis
    by (auto simp: res_bind_eq_Inr dest: extra_readiness_Some split: if_splits option.splits)
next
  case False
  from evaluateNodeReadiness_not_pending [OF this] assms show ?thesis by auto
qed

lemma evaluate_execute_inactive:
  "evaluate_execute rt e c s = Inr v \<Longrightarrow> ee_disposition v \<noteq> EdgeInactive \<and> ee_edgeId v = edge_id e"
  by (auto simp: evaluate_execute_def res_bind_eq_Inr evaluate_untriggered_def Let_def execute_ready_def
      evaluate_approval_gate_def split: if_splits option.splits)

lemma evaluate_human_review_inactive:
  "ee_disposition (evaluate_human_review rt e) \<noteq> EdgeInactive \<and> ee_edgeId (evaluate_human_review rt e) = edge_id e"
  by (simp add: evaluate_human_review_def split: option.split verdict.split)

lemma evaluate_agent_review_inactive:
  "ee_disposition (evaluate_agent_review rt e a) \<noteq> EdgeInactive \<and> ee_edgeId (evaluate_agent_review rt e a) = edge_id e"
  by (simp add: evaluate_agent_review_def split: option.split verdict.split)

lemma evaluate_gate_review_inactive:
  "ee_disposition (evaluate_gate_review e c n a) \<noteq> EdgeInactive \<and> ee_edgeId (evaluate_gate_review e c n a) = edge_id e"
  by (simp add: evaluate_gate_review_def Let_def)

lemma evaluate_review_inactive:
  assumes "evaluate_review rt e c s = Inr v"
  shows "ee_disposition v \<noteq> EdgeInactive \<and> ee_edgeId v = edge_id e"
proof (cases "s = Succeeded")
  case False
  with assms show ?thesis by (auto simp: evaluate_review_def evaluate_unreviewed_def Let_def split: if_splits)
next
  case True
  with assms obtain a where a: "currentReviewerAssessmentForEdge rt e = Inr a"
    by (auto simp: evaluate_review_def res_bind_eq_Inr)
  show ?thesis
  proof (cases "has_verdict ChangesRequested a \<and> rev_reviewer c \<noteq> ReviewerAgent")
    case True
    with assms a \<open>s = Succeeded\<close> show ?thesis by (auto simp: evaluate_review_def)
  next
    case False
    then have open_verdict: "(has_verdict ChangesRequested a \<and> rev_reviewer c \<noteq> ReviewerAgent) = False" by blast
    show ?thesis
    proof (cases "rev_reviewer c = ReviewerHuman")
      case True
      then have "v = evaluate_human_review rt e"
        using assms a \<open>s = Succeeded\<close> open_verdict unfolding evaluate_review_def
        by (simp del: has_verdict_iff)
      with evaluate_human_review_inactive show ?thesis by simp
    next
      case False
      then obtain n where "v = (if rev_reviewer c = ReviewerAgent then evaluate_agent_review rt e a else evaluate_gate_review e c n a)"
        using assms a \<open>s = Succeeded\<close> open_verdict unfolding evaluate_review_def
        by (cases "nodeById rt (edge_targetNodeId e)") (simp_all del: has_verdict_iff, metis)
      with evaluate_agent_review_inactive evaluate_gate_review_inactive show ?thesis by simp
    qed
  qed
qed

lemma edge_never_inactive:
  assumes "evaluateExecutableEdge rt e = Inr v" and "\<not> is_Revision (edge_config e)"
  shows "ee_disposition v \<noteq> EdgeInactive" and "ee_edgeId v = edge_id e"
proof -
  obtain s where s: "canvasNodeStatus rt (edge_sourceNodeId e) = Inr s"
    using assms by (auto simp: evaluateExecutableEdge_def res_bind_eq_Inr)
  have "ee_disposition v \<noteq> EdgeInactive \<and> ee_edgeId v = edge_id e"
  proof (cases "edge_config e")
    case (Context c)
    with assms s show ?thesis
      by (auto simp: evaluateExecutableEdge_def res_bind_eq_Inr evaluate_context_def split: if_splits option.splits)
  next
    case (Execute c)
    with assms s show ?thesis by (auto simp: evaluateExecutableEdge_def res_bind_eq_Inr dest: evaluate_execute_inactive)
  next
    case (Output c)
    with assms s show ?thesis
      by (auto simp: evaluateExecutableEdge_def res_bind_eq_Inr evaluate_output_def evaluate_unpublished_def
          split: if_splits option.splits)
  next
    case (Review c)
    with assms s show ?thesis by (auto simp: evaluateExecutableEdge_def res_bind_eq_Inr dest: evaluate_review_inactive)
  next
    case (Revision l)
    with assms show ?thesis by simp
  next
    case Dependency
    with assms s show ?thesis
      by (auto simp: evaluateExecutableEdge_def res_bind_eq_Inr evaluate_dependency_def split: if_splits)
  qed
  then show "ee_disposition v \<noteq> EdgeInactive" and "ee_edgeId v = edge_id e" by simp_all
qed

lemma incoming_edgesD:
  assumes "e \<in> set (incoming_edges rt i)"
  shows "e \<in> set (canvas_edges (rt_canvas rt))" and "is_planned rt e" and "\<not> is_Revision (edge_config e)"
    and "edge_targetNodeId e = i"
  using assms by (auto simp: incoming_edges_def)

lemma all_released_iff:
  assumes shape: "runtime_shape rt"
  shows "(\<exists>vs. map_res (evaluateExecutableEdge rt) (incoming_edges rt i) = Inr vs
        \<and> with_disposition EdgeBlocked vs = [] \<and> with_disposition EdgeWaiting vs = []
        \<and> with_disposition EdgeWaitingForApproval vs = [])
    \<longleftrightarrow> (\<forall>e \<in> set (incoming_edges rt i). released rt e)" (is "?lhs \<longleftrightarrow> ?rhs")
proof
  assume ?lhs
  then obtain vs where vs: "map_res (evaluateExecutableEdge rt) (incoming_edges rt i) = Inr vs"
    and none: "\<And>v. v \<in> set vs \<Longrightarrow> ee_disposition v \<notin> {EdgeBlocked, EdgeWaiting, EdgeWaitingForApproval}"
    by (auto simp: with_disposition_def filter_empty_conv)
  show ?rhs
  proof
    fix e assume e: "e \<in> set (incoming_edges rt i)"
    from map_res_Inr_in_set' [OF vs e] obtain v where v: "v \<in> set vs" "evaluateExecutableEdge rt e = Inr v" by blast
    have "ee_disposition v = EdgeSatisfied"
      using none [OF v(1)] edge_never_inactive(1) [OF v(2) incoming_edgesD(3) [OF e]] by (cases "ee_disposition v") auto
    then show "released rt e"
      using evaluateExecutableEdge_satisfied [OF shape incoming_edgesD(1-3) [OF e]] v(2) by blast
  qed
next
  assume rel: ?rhs
  have opens: "\<exists>v. evaluateExecutableEdge rt e = Inr v \<and> ee_disposition v = EdgeSatisfied"
    if e: "e \<in> set (incoming_edges rt i)" for e
    using evaluateExecutableEdge_satisfied [OF shape incoming_edgesD(1-3) [OF e]] rel e by blast
  then obtain vs where vs: "map_res (evaluateExecutableEdge rt) (incoming_edges rt i) = Inr vs"
    using map_res_total [of "incoming_edges rt i" "evaluateExecutableEdge rt"] by blast
  have "ee_disposition v = EdgeSatisfied" if "v \<in> set vs" for v
    using map_res_Inr_in_set [OF vs that] opens by fastforce
  with vs show ?lhs by (auto simp: with_disposition_def filter_empty_conv)
qed

lemma with_status_Nil:
  "with_status P rt ids = Inr [] \<longleftrightarrow> (\<forall>i \<in> set ids. \<exists>s. canvasNodeStatus rt i = Inr s \<and> \<not> P s)"
proof -
  have "with_status P rt ids = Inr [] \<longleftrightarrow>
      (\<exists>ps. map_res (\<lambda>i. res_bind (canvasNodeStatus rt i) (\<lambda>s. return (i, s))) ids = Inr ps \<and> (\<forall>p \<in> set ps. \<not> P (snd p)))"
    by (auto simp: with_status_def res_bind_eq_Inr filter_empty_conv case_prod_unfold)
  also have "\<dots> \<longleftrightarrow> (\<forall>i \<in> set ids. \<exists>s. canvasNodeStatus rt i = Inr s \<and> \<not> P s)"
    unfolding map_res_all_iff by (auto simp: res_bind_eq_Inr)
  finally show ?thesis .
qed

lemma agent_readiness_None:
  "agent_readiness rt i vs = Inr None \<longleftrightarrow>
     (\<forall>s \<in> set (assigned_sources rt i). canvasNodeStatus rt s = Inr Succeeded)"
proof -
  have "agent_readiness rt i vs = Inr None \<longleftrightarrow>
      with_status (\<lambda>s. isTerminalRunStatus s \<and> s \<noteq> Succeeded) rt (assigned_sources rt i) = Inr []
      \<and> with_status (\<lambda>s. s \<noteq> Succeeded) rt (assigned_sources rt i) = Inr []"
    by (auto simp: agent_readiness_def res_bind_eq_Inr split: if_splits)
  then show ?thesis by (auto simp: with_status_Nil)
qed

lemma gate_readiness_None: "gate_readiness rt i vs = Inr None \<longleftrightarrow> decided_gate rt i"
  by (cases "reviewGateEvaluation rt i")
     (auto simp: gate_readiness_def decided_gate_def intro: gate_status.exhaust)

lemma extra_readiness_None:
  "find_node rt i = Some n \<Longrightarrow> extra_readiness rt i n vs = Inr None \<longleftrightarrow> may_start rt i"
  by (cases "node_data n") (simp_all add: extra_readiness_def may_start_def agent_readiness_None gate_readiness_None)

lemma node_ready_iff:
  assumes shape: "runtime_shape rt"
  shows "node_ready rt i \<longleftrightarrow>
     is_pending rt i \<and> \<not> rt_cancellationRequested rt \<and> \<not> isTerminalRunStatus (wr_status (rt_run rt))
     \<and> (\<forall>e \<in> set (incoming_edges rt i). released rt e) \<and> may_start rt i"
proof (cases "is_pending rt i \<and> \<not> rt_cancellationRequested rt \<and> \<not> isTerminalRunStatus (wr_status (rt_run rt))")
  case False
  from evaluateNodeReadiness_not_pending [OF this] False show ?thesis by (auto simp: node_ready_def)
next
  case True
  then have "run_of rt i \<noteq> None" by (auto simp: is_pending_def split: option.splits)
  then have "i \<in> set (obj_keys (node_runs rt))" by (simp add: run_of_def obj_get_eq_None_iff)
  then have "i \<in> node_id ` set (canvas_nodes (rt_canvas rt))" using shape by (auto simp: runtime_shape_def)
  then obtain n where n: "find_node rt i = Some n" "nodeById rt i = Inr n"
    by (rule find_node_total) (simp add: nodeById_def)
  have unfold: "evaluateNodeReadiness rt i = res_bind (map_res (evaluateExecutableEdge rt) (incoming_edges rt i)) (\<lambda>vs.
      if with_disposition EdgeBlocked vs \<noteq> []
      then return (readiness i NodeBlocked vs (map ee_reason (with_disposition EdgeBlocked vs)))
      else if with_disposition EdgeWaiting vs \<noteq> []
      then return (readiness i NodeWaiting vs (map ee_reason (with_disposition EdgeWaiting vs)))
      else if with_disposition EdgeWaitingForApproval vs \<noteq> []
      then return (readiness i NodeWaitingForApproval vs (map ee_reason (with_disposition EdgeWaitingForApproval vs)))
      else res_bind (nodeById rt i) (\<lambda>n. res_bind (extra_readiness rt i n vs) (\<lambda>d.
        return (case d of None \<Rightarrow> readiness i NodeReady vs [] | Some d \<Rightarrow> d))))"
    by (rule evaluateNodeReadiness_pending) (use True in auto)
  have "node_ready rt i \<longleftrightarrow>
      (\<exists>vs. map_res (evaluateExecutableEdge rt) (incoming_edges rt i) = Inr vs
        \<and> with_disposition EdgeBlocked vs = [] \<and> with_disposition EdgeWaiting vs = []
        \<and> with_disposition EdgeWaitingForApproval vs = [] \<and> extra_readiness rt i n vs = Inr None)"
  proof (cases "map_res (evaluateExecutableEdge rt) (incoming_edges rt i)")
    case (Inl x)
    then show ?thesis by (simp add: node_ready_def unfold)
  next
    case vs: (Inr vs)
    show ?thesis
    proof (cases "extra_readiness rt i n vs")
      case (Inl x)
      then show ?thesis by (simp add: node_ready_def unfold vs n)
    next
      case (Inr d)
      then show ?thesis
        by (cases d) (simp_all add: node_ready_def unfold vs n extra_readiness_Some)
    qed
  qed
  then show ?thesis
    using True all_released_iff [OF shape, of i] extra_readiness_None [OF n(1)] by auto
qed

text \<open>
  C1. On a well-shaped runtime a node is ready exactly when it is pending in a live, uncancelled run,
  every planned incoming edge (revisions apart) releases it on present evidence (the dependency
  effectively succeeded, the required output was published by the current attempt, the context was
  verified for this attempt, the review settled, the human or the gate approved), an agent that a
  gate names as its reviewer has all its reviewed sources succeeded, and a gate can decide.
\<close>

theorem ready_iff_released:
  assumes "runtime_shape rt"
  shows "node_ready rt i \<longleftrightarrow>
     is_pending rt i \<and> \<not> rt_cancellationRequested rt \<and> \<not> isTerminalRunStatus (wr_status (rt_run rt))
     \<and> (\<forall>e \<in> set (incoming_edges rt i). released rt e) \<and> may_start rt i"
  by (rule node_ready_iff [OF assms])

section \<open>Verified attachments in another order\<close>

text \<open>
  The two readers of a context resolution disagree. The edge is satisfied when the verified
  attachments are the configured ones as a set, but the attachments of the target can be read only
  when they are the same list: a current resolution in another order releases the node, and then
  reading what it may see throws.
\<close>

theorem context_order_mismatch:
  assumes e: "edge_config e = Context c" and planned: "is_planned rt e" and some: "ctx_attachmentIds c \<noteq> []"
    and status: "is_ok (canvasNodeStatus rt (edge_sourceNodeId e))"
    and r: "obj_get (ev_contextResolutions (rt_evidence rt)) (edge_id e) = Some r"
    and current: "resolution_current rt e r" and same: "set (cr_attachmentIds r) = set (ctx_attachmentIds c)"
    and order: "cr_attachmentIds r \<noteq> ctx_attachmentIds c"
  shows "(\<exists>v. evaluateExecutableEdge rt e = Inr v \<and> ee_disposition v = EdgeSatisfied)
    \<and> context_attachment_of rt e c = Inl (Error (''This context link is out of date for the current attempt: '' @ edge_id e))"
proof -
  have "ee_disposition (evaluate_context rt e c s) = EdgeSatisfied" for s
    using some r current same by (simp add: evaluate_context_satisfied verified_context_def)
  then show ?thesis
    using assms by (auto simp: is_ok_iff evaluateExecutableEdge_def assertPlannedEdge_def context_attachment_of_def)
qed

end
