(* ===== verification/Frame.thy ===== *)
theory Frame
  imports Evaluation
begin

text \<open>
  What every operation of the engine keeps: the canvas, the plan, the identity of the run, the set of
  planned nodes and loops, schema validity, and that attempt numbers never decrease. The locales name
  the three kinds of operations (any run operation, one that starts nothing, one that only records
  evidence), and the theories of the operations interpret them on the code's model.
\<close>

section \<open>Active nodes and capacity\<close>

definition active_at :: "runtime \<Rightarrow> string \<Rightarrow> bool" where
  "active_at rt i = (case run_of rt i of None \<Rightarrow> False | Some r \<Rightarrow> isActiveStatus (nr_status r))"

definition active_ids :: "runtime \<Rightarrow> string list" where
  "active_ids rt = filter (active_at rt) (obj_keys (node_runs rt))"

definition node_requirements :: "runtime \<Rightarrow> string \<Rightarrow> resource_requirements" where
  "node_requirements rt i = requirements (canvas_nodes (rt_canvas rt)) i"

text \<open>The nodes that occupy the machine stay within the workflow limits, exclusive keys disjoint.\<close>

definition capacity :: "runtime \<Rightarrow> bool" where
  "capacity rt =
     within_limits (canvas_workflowLimits (rt_canvas rt)) (map (node_requirements rt) (active_ids rt))"

lemma keys_disjoint_filter: "keys_disjoint (map f xs) \<Longrightarrow> keys_disjoint (map f (filter P xs))"
  by (induction xs) (auto simp: list_all_iff)

lemma keys_disjoint_insert:
  "keys_disjoint (map f (as @ x # bs)) \<longleftrightarrow>
     keys_disjoint (map f (as @ bs)) \<and> set (exclusiveKeys (f x)) \<inter> all_keys (map f (as @ bs)) = {}"
  by (induction as) (auto simp: list_all_iff all_keys_def)

lemma within_limits_filter:
  assumes "within_limits l (map f xs)" and pos: "\<And>x. 0 \<le> cpuUnits (f x) \<and> 0 \<le> memoryMb (f x)"
  shows "within_limits l (map f (filter P xs))"
proof -
  have "sum_list (map (\<lambda>x. cpuUnits (f x)) (filter P xs)) \<le> sum_list (map (\<lambda>x. cpuUnits (f x)) xs)"
    "sum_list (map (\<lambda>x. memoryMb (f x)) (filter P xs)) \<le> sum_list (map (\<lambda>x. memoryMb (f x)) xs)"
    using pos by (induction xs) (auto simp: add_increasing)
  moreover have "int (length (filter P xs)) \<le> maximumConcurrency l"
    using assms(1) order_trans [of "int (length (filter P xs))" "int (length xs)" "maximumConcurrency l"]
    by (simp add: within_limits_def)
  ultimately show ?thesis
    using assms(1) keys_disjoint_filter [of f xs P] unfolding within_limits_def by (simp add: comp_def)
qed

lemma within_limits_insert:
  "within_limits l (map f (as @ x # bs)) \<longleftrightarrow>
     int (length (as @ bs)) < maximumConcurrency l
     \<and> sum_list (map (\<lambda>x. cpuUnits (f x)) (as @ bs)) + cpuUnits (f x) \<le> maximumCpuUnits l
     \<and> sum_list (map (\<lambda>x. memoryMb (f x)) (as @ bs)) + memoryMb (f x) \<le> maximumMemoryMb l
     \<and> keys_disjoint (map f (as @ bs)) \<and> set (exclusiveKeys (f x)) \<inter> all_keys (map f (as @ bs)) = {}"
  unfolding within_limits_def keys_disjoint_insert by (auto simp: comp_def)

lemma node_requirements_nonneg:
  assumes "runtime_shape rt"
  shows "0 \<le> cpuUnits (node_requirements rt i) \<and> 0 \<le> memoryMb (node_requirements rt i)"
proof (cases "node_by_id (canvas_nodes (rt_canvas rt)) i")
  case None
  then show ?thesis by (simp add: node_requirements_def requirements_def)
next
  case (Some n)
  then have "n \<in> set (canvas_nodes (rt_canvas rt))" by (auto dest: node_by_id_Some)
  moreover have "list_all CanvasNode_ok (canvas_nodes (rt_canvas rt))"
    using assms by (simp add: runtime_shape_def CanvasSchema_ok_def)
  ultimately have "CanvasNode_ok n" by (simp add: list_all_iff)
  with Some show ?thesis
    by (simp add: node_requirements_def requirements_def CanvasNode_ok_def ResourceRequirements_ok_def)
qed

section \<open>Evolution\<close>

definition evolves :: "runtime \<Rightarrow> runtime \<Rightarrow> bool" where
  "evolves rt rt' =
     (rt_canvas rt' = rt_canvas rt \<and> rt_plan rt' = rt_plan rt
      \<and> wr_id (rt_run rt') = wr_id (rt_run rt) \<and> wr_canvasId (rt_run rt') = wr_canvasId (rt_run rt)
      \<and> wr_planId (rt_run rt') = wr_planId (rt_run rt) \<and> wr_createdAt (rt_run rt') = wr_createdAt (rt_run rt)
      \<and> obj_keys (node_runs rt') = obj_keys (node_runs rt)
      \<and> obj_keys (wr_revisionLoops (rt_run rt')) = obj_keys (wr_revisionLoops (rt_run rt))
      \<and> WorkflowRun_ok (rt_run rt')
      \<and> (\<forall>i r r'. run_of rt i = Some r \<and> run_of rt' i = Some r' \<longrightarrow> nr_attempt r \<le> nr_attempt r'))"

lemma evolves_refl: "runtime_shape rt \<Longrightarrow> evolves rt rt"
  by (auto simp: evolves_def runtime_shape_def)

lemma evolves_run:
  assumes "evolves rt rt'"
  shows "run_of rt' i = None \<longleftrightarrow> run_of rt i = None"
  using assms by (simp add: evolves_def run_of_def obj_get_eq_None_iff)

lemma evolves_attempt:
  "evolves rt rt' \<Longrightarrow> run_of rt i = Some r \<Longrightarrow> run_of rt' i = Some r' \<Longrightarrow> nr_attempt r \<le> nr_attempt r'"
  by (simp add: evolves_def)

lemma evolves_trans:
  assumes ab: "evolves rt rt'" and bc: "evolves rt' rt''"
  shows "evolves rt rt''"
proof -
  have "nr_attempt r \<le> nr_attempt r''" if r: "run_of rt i = Some r" and r'': "run_of rt'' i = Some r''" for i r r''
  proof -
    from r have "run_of rt' i \<noteq> None" using evolves_run [OF ab, of i] by simp
    then obtain r' where r': "run_of rt' i = Some r'" by blast
    show ?thesis using evolves_attempt [OF ab r r'] evolves_attempt [OF bc r' r''] by simp
  qed
  then have "\<forall>i r r''. run_of rt i = Some r \<and> run_of rt'' i = Some r'' \<longrightarrow> nr_attempt r \<le> nr_attempt r''"
    by blast
  with ab bc show ?thesis by (simp add: evolves_def)
qed

lemma obj_ok_keys: "obj_ok ob \<longleftrightarrow> distinct (obj_keys ob)"
  by (simp add: obj_ok_def obj_keys_def)

lemma evolves_shape:
  assumes "runtime_shape rt" and "evolves rt rt'"
  shows "runtime_shape rt'"
  using assms by (simp add: runtime_shape_def evolves_def obj_ok_keys)

definition starts_nothing :: "runtime \<Rightarrow> runtime \<Rightarrow> bool" where
  "starts_nothing rt rt' = (\<forall>i. active_at rt' i \<longrightarrow> active_at rt i)"

lemma starts_nothing_trans: "starts_nothing rt rt' \<Longrightarrow> starts_nothing rt' rt'' \<Longrightarrow> starts_nothing rt rt''"
  by (simp add: starts_nothing_def)

lemma starts_nothing_refl [simp]: "starts_nothing rt rt"
  by (simp add: starts_nothing_def)

lemma capacity_idle:
  assumes shape: "runtime_shape rt" and ev: "evolves rt rt'" and idle: "starts_nothing rt rt'" and cap: "capacity rt"
  shows "capacity rt'"
proof -
  have "(\<lambda>i. active_at rt' i \<and> active_at rt i) = active_at rt'"
    using idle by (auto simp: starts_nothing_def)
  then have "active_ids rt' = filter (active_at rt') (active_ids rt)"
    using ev by (simp add: active_ids_def evolves_def conj_commute)
  moreover have "node_requirements rt' = node_requirements rt" and "rt_canvas rt' = rt_canvas rt"
    using ev by (auto simp: evolves_def node_requirements_def)
  ultimately show ?thesis
    using within_limits_filter [OF cap [unfolded capacity_def] node_requirements_nonneg [OF shape], of "active_at rt'"]
    by (simp add: capacity_def)
qed

section \<open>Kinds of operations\<close>

locale run_operation =
  fixes op :: "runtime \<Rightarrow> runtime res"
  assumes evolution: "runtime_shape rt \<Longrightarrow> op rt = Inr rt' \<Longrightarrow> evolves rt rt'"
begin

lemma keeps_shape:
  assumes "runtime_shape rt" and "op rt = Inr rt'"
  shows "runtime_shape rt'"
  using assms(1) evolution [OF assms] by (rule evolves_shape)

lemma keeps_plan:
  assumes "runtime_shape rt" and "op rt = Inr rt'"
  shows "rt_canvas rt' = rt_canvas rt \<and> rt_plan rt' = rt_plan rt"
  using evolution [OF assms] by (simp add: evolves_def)

lemma keeps_attempts:
  assumes "runtime_shape rt" and "op rt = Inr rt'" and "attempt_of rt i = Some a"
  shows "\<exists>a'. attempt_of rt' i = Some a' \<and> a \<le> a'"
proof -
  have ev: "evolves rt rt'" using assms(1,2) by (rule evolution)
  obtain r where r: "run_of rt i = Some r" "a = nr_attempt r"
    using assms(3) by (auto simp: attempt_of_def)
  then obtain r' where r': "run_of rt' i = Some r'" using evolves_run [OF ev, of i] by auto
  show ?thesis using evolves_attempt [OF ev r(1) r'] r r' by (simp add: attempt_of_def)
qed

end

locale idle_operation = run_operation +
  assumes idle: "runtime_shape rt \<Longrightarrow> op rt = Inr rt' \<Longrightarrow> starts_nothing rt rt'"
begin

lemma keeps_capacity:
  assumes shape: "runtime_shape rt" and op: "op rt = Inr rt'" and cap: "capacity rt"
  shows "capacity rt'"
  using shape evolution [OF shape op] idle [OF shape op] cap by (rule capacity_idle)

end

locale evidence_operation =
  fixes op :: "runtime \<Rightarrow> runtime res"
  assumes evidence_only: "op rt = Inr rt' \<Longrightarrow> \<exists>ev. rt' = rt\<lparr> rt_evidence := ev \<rparr>"

sublocale evidence_operation \<subseteq> idle_operation
proof
  fix rt rt' :: runtime
  assume shape: "runtime_shape rt" and op: "op rt = Inr rt'"
  from evidence_only [OF op] obtain ev where rt': "rt' = rt\<lparr> rt_evidence := ev \<rparr>" by blast
  have "run_of rt' = run_of rt" by (simp add: rt' run_of_def fun_eq_iff)
  with shape rt' show "evolves rt rt'" by (auto simp: evolves_def runtime_shape_def)
  from \<open>run_of rt' = run_of rt\<close> show "starts_nothing rt rt'" by (simp add: starts_nothing_def active_at_def)
qed

end
