(* ===== verification/Scheduling.thy ===== *)
theory Scheduling
  imports Frame
begin

text \<open>
  \<open>packages/core/src/workflow-runtime/scheduling.ts\<close>: resource reservations and the scheduling
  snapshot, and the operations that move node runs: start, failure before launch, completion,
  settling of blocked nodes, waiting for approval, cancellation and recovery.
\<close>

section \<open>Reservations\<close>

record reservation =
  rs_concurrency :: int
  rs_cpuUnits :: int
  rs_memoryMb :: int
  rs_exclusiveKeys :: "string list"

definition active_runs :: "runtime \<Rightarrow> node_run list" where
  "active_runs rt = filter (\<lambda>r. nr_status r = Running \<or> nr_status r = Cancelling) (obj_values (node_runs rt))"

definition activeReservation :: "runtime \<Rightarrow> reservation res" where
  "activeReservation rt =
     res_bind (map_res (\<lambda>r. nodeById rt (nr_nodeId r)) (active_runs rt)) (\<lambda>nodes. return
       \<lparr> rs_concurrency = int (length nodes),
         rs_cpuUnits = sum_list (map (\<lambda>n. cpuUnits (node_resources n)) nodes),
         rs_memoryMb = sum_list (map (\<lambda>n. memoryMb (node_resources n)) nodes),
         rs_exclusiveKeys = new_Set (concat (map (\<lambda>n. exclusiveKeys (node_resources n)) nodes)) \<rparr>)"

definition fitsReservation :: "runtime \<Rightarrow> reservation \<Rightarrow> canvas_node \<Rightarrow> bool" where
  "fitsReservation rt r n =
     (let limits = canvas_workflowLimits (rt_canvas rt) in
      rs_concurrency r + 1 \<le> maximumConcurrency limits
      \<and> rs_cpuUnits r + cpuUnits (node_resources n) \<le> maximumCpuUnits limits
      \<and> rs_memoryMb r + memoryMb (node_resources n) \<le> maximumMemoryMb limits
      \<and> \<not> list_ex (\<lambda>k. k \<in> set (rs_exclusiveKeys r)) (exclusiveKeys (node_resources n)))"

definition reserve :: "reservation \<Rightarrow> canvas_node \<Rightarrow> reservation" where
  "reserve r n =
     \<lparr> rs_concurrency = rs_concurrency r + 1,
       rs_cpuUnits = rs_cpuUnits r + cpuUnits (node_resources n),
       rs_memoryMb = rs_memoryMb r + memoryMb (node_resources n),
       rs_exclusiveKeys = fold set_add (exclusiveKeys (node_resources n)) (rs_exclusiveKeys r) \<rparr>"

section \<open>The scheduling snapshot\<close>

record scheduling_snapshot =
  ss_runnableNodeIds :: "entity_id list"
  ss_waitingNodeIds :: "entity_id list"
  ss_waitingForApprovalNodeIds :: "entity_id list"
  ss_blockedNodeIds :: "entity_id list"
  ss_activeNodeIds :: "entity_id list"
  ss_reserved :: reservation

fun pick_runnable :: "runtime \<Rightarrow> node_readiness list \<Rightarrow> reservation \<Rightarrow> entity_id list res" where
  "pick_runnable rt [] r = return []"
| "pick_runnable rt (entry # entries) r =
     (if rd_disposition entry \<noteq> NodeReady then pick_runnable rt entries r
      else res_bind (nodeById rt (rd_nodeId entry)) (\<lambda>n.
        if \<not> fitsReservation rt r n then pick_runnable rt entries r
        else res_bind (pick_runnable rt entries (reserve r n)) (\<lambda>ids. return (node_id n # ids))))"

definition with_readiness :: "readiness_disposition \<Rightarrow> node_readiness list \<Rightarrow> entity_id list" where
  "with_readiness d entries = map rd_nodeId (filter (\<lambda>e. rd_disposition e = d) entries)"

definition getSchedulingSnapshot :: "runtime \<Rightarrow> scheduling_snapshot res" where
  "getSchedulingSnapshot rt =
     res_bind (activeReservation rt) (\<lambda>reservation.
     res_bind (map_res (evaluateNodeReadiness rt) (staged (pl_stages (rt_plan rt)))) (\<lambda>readiness.
     res_bind (pick_runnable rt readiness reservation) (\<lambda>runnable. return
       \<lparr> ss_runnableNodeIds = runnable,
         ss_waitingNodeIds = with_readiness NodeWaiting readiness,
         ss_waitingForApprovalNodeIds = with_readiness NodeWaitingForApproval readiness,
         ss_blockedNodeIds = with_readiness NodeBlocked readiness,
         ss_activeNodeIds = sort_ids (map nr_nodeId (active_runs rt)),
         ss_reserved = reservation\<lparr> rs_exclusiveKeys := sort_ids (rs_exclusiveKeys reservation) \<rparr> \<rparr>)))"

section \<open>Replacing the node runs\<close>

definition replaceRunState :: "runtime \<Rightarrow> node_run obj \<Rightarrow> timestamp \<Rightarrow> runtime res" where
  "replaceRunState rt nodeRuns occurredAt =
     (let status = aggregateWorkflowStatus nodeRuns in
      res_bind (WorkflowRunSchema_parse
        \<lparr> wr_id = wr_id (rt_run rt), wr_canvasId = wr_canvasId (rt_run rt), wr_planId = wr_planId (rt_run rt),
          wr_status = status, wr_nodeRuns = nodeRuns, wr_revisionLoops = wr_revisionLoops (rt_run rt),
          wr_createdAt = wr_createdAt (rt_run rt), wr_updatedAt = occurredAt,
          wr_endedAt = (if isTerminalRunStatus status then Some occurredAt else None) \<rparr>)
        (\<lambda>run. return (rt\<lparr> rt_run := run \<rparr>)))"

text \<open>\<open>{ ...runtime.run.nodeRuns, [nodeId]: next }\<close>.\<close>

definition replace_node_run :: "runtime \<Rightarrow> string \<Rightarrow> node_run \<Rightarrow> timestamp \<Rightarrow> runtime res" where
  "replace_node_run rt nodeId next occurredAt = replaceRunState rt (obj_put nodeId next (node_runs rt)) occurredAt"

section \<open>Settling blocked nodes\<close>

definition loop_unresolved :: "runtime \<Rightarrow> revision_loop \<Rightarrow> bool" where
  "loop_unresolved rt l =
     (case obj_get (wr_revisionLoops (rt_run rt)) (loop_id l) of
        None \<Rightarrow> False
      | Some s \<Rightarrow> ls_status s = ReviewRequired \<or> ls_status s = RevisionRequired \<or> ls_status s = WaitingHuman)"

definition blockIsDeferredByRevisionLoop :: "runtime \<Rightarrow> edge_evaluation \<Rightarrow> bool" where
  "blockIsDeferredByRevisionLoop rt v =
     (case find_edge rt (ee_edgeId v) of
        None \<Rightarrow> False
      | Some e \<Rightarrow> list_ex (\<lambda>l. loop_unresolved rt l
          \<and> (edge_sourceNodeId e = loop_reviewNodeId l
             \<or> (case edge_config e of
                  Execute c \<Rightarrow> exe_approval c = ApproveReviewGate \<and> exe_approvalGateNodeId c = Some (loop_reviewNodeId l)
                | _ \<Rightarrow> False))) (canvas_revisionLoops (rt_canvas rt)))"

definition deferred :: "runtime \<Rightarrow> node_readiness \<Rightarrow> bool" where
  "deferred rt d =
     (let blockedEdges = with_disposition EdgeBlocked (rd_edgeEvaluations d) in
      blockedEdges \<noteq> [] \<and> list_all (blockIsDeferredByRevisionLoop rt) blockedEdges)"

definition plain_transition :: "run_status \<Rightarrow> timestamp \<Rightarrow> string option \<Rightarrow> string option \<Rightarrow> node_transition" where
  "plain_transition status occurredAt reason failureCode =
     \<lparr> tr_status = status, tr_occurredAt = occurredAt, tr_process = None, tr_internalExecution = None,
       tr_reason = reason, tr_failureCode = failureCode \<rparr>"

definition blocked_transition :: "timestamp \<Rightarrow> node_readiness \<Rightarrow> node_transition" where
  "blocked_transition occurredAt d =
     plain_transition Cancelled occurredAt (Some (''Blocked by an earlier step: '' @ join ''; '' (rd_reasons d))) None"

text \<open>One entry of the pass: the new node run of a node that is blocked for good, if it is.\<close>

definition settle_entry :: "runtime \<Rightarrow> timestamp \<Rightarrow> string \<times> node_run \<Rightarrow> (string \<times> node_run) list res" where
  "settle_entry rt occurredAt entry =
     (let (nodeId, nodeRun) = entry in
      if nr_status nodeRun \<noteq> Queued \<and> nr_status nodeRun \<noteq> WaitingForApproval then return []
      else res_bind (evaluateNodeReadiness rt nodeId) (\<lambda>d.
        if rd_disposition d \<noteq> NodeBlocked \<or> deferred rt d then return []
        else res_bind (transitionNodeRun nodeRun (blocked_transition occurredAt d))
             (\<lambda>next. return [(nodeId, next)])))"

definition settle_changes :: "runtime \<Rightarrow> timestamp \<Rightarrow> (string \<times> node_run) list res" where
  "settle_changes rt occurredAt =
     res_bind (map_res (settle_entry rt occurredAt) (node_runs rt)) (\<lambda>cs. return (concat cs))"

text \<open>The loop ends because each round cancels a pending node run and none becomes pending.\<close>

definition pending_keys :: "runtime \<Rightarrow> string set" where
  "pending_keys rt = {i \<in> set (obj_keys (node_runs rt)). is_pending rt i}"

definition settled_by :: "runtime \<Rightarrow> timestamp \<Rightarrow> string \<times> node_run \<Rightarrow> bool" where
  "settled_by rt t c =
     (case c of (k, r') \<Rightarrow>
        is_pending rt k
        \<and> (\<exists>r d. (k, r) \<in> set (node_runs rt)
             \<and> evaluateNodeReadiness rt k = Inr d \<and> rd_disposition d = NodeBlocked \<and> \<not> deferred rt d
             \<and> transitionNodeRun r (blocked_transition t d) = Inr r'))"

lemma blocked_pending:
  assumes "evaluateNodeReadiness rt i = Inr d" and "rd_disposition d \<noteq> NodeNotRunnable"
  shows "is_pending rt i" and "\<not> rt_cancellationRequested rt" and "\<not> isTerminalRunStatus (wr_status (rt_run rt))"
proof -
  have "is_pending rt i \<and> \<not> rt_cancellationRequested rt \<and> \<not> isTerminalRunStatus (wr_status (rt_run rt))"
  proof (rule ccontr)
    assume "\<not> ?thesis"
    from evaluateNodeReadiness_not_pending [OF this] assms show False by auto
  qed
  then show "is_pending rt i" and "\<not> rt_cancellationRequested rt" and "\<not> isTerminalRunStatus (wr_status (rt_run rt))"
    by simp_all
qed

lemma settle_entry_settled:
  assumes "settle_entry rt t e = Inr cs" and "e \<in> set (node_runs rt)" and c: "c \<in> set cs"
  shows "settled_by rt t c"
proof -
  obtain k r where e: "e = (k, r)" by (cases e)
  then obtain d where "evaluateNodeReadiness rt k = Inr d" "rd_disposition d = NodeBlocked" "\<not> deferred rt d"
    and "res_bind (transitionNodeRun r (blocked_transition t d)) (\<lambda>next. return [(k, next)]) = Inr cs"
    using assms(1) c by (auto simp: settle_entry_def res_bind_eq_Inr split: if_splits)
  with assms(2) c blocked_pending(1) [of rt k d] show ?thesis
    unfolding e settled_by_def by (auto simp: res_bind_eq_Inr)
qed

lemma settle_changes_settled:
  assumes "settle_changes rt t = Inr cs" and "c \<in> set cs"
  shows "settled_by rt t c"
proof -
  obtain css where css: "map_res (settle_entry rt t) (node_runs rt) = Inr css" and cs: "cs = concat css"
    using assms(1) by (auto simp: settle_changes_def res_bind_eq_Inr)
  then obtain x where "x \<in> set css" "c \<in> set x" using assms(2) by auto
  with map_res_Inr_in_set [OF css] settle_entry_settled show ?thesis by blast
qed

lemma replaceRunState_Inr:
  "replaceRunState rt runs t = Inr rt' \<longleftrightarrow>
     WorkflowRun_ok (rt_run rt')
     \<and> rt' = rt\<lparr> rt_run := \<lparr> wr_id = wr_id (rt_run rt), wr_canvasId = wr_canvasId (rt_run rt),
         wr_planId = wr_planId (rt_run rt), wr_status = aggregateWorkflowStatus runs, wr_nodeRuns = runs,
         wr_revisionLoops = wr_revisionLoops (rt_run rt), wr_createdAt = wr_createdAt (rt_run rt), wr_updatedAt = t,
         wr_endedAt = (if isTerminalRunStatus (aggregateWorkflowStatus runs) then Some t else None) \<rparr> \<rparr>"
  by (auto simp: replaceRunState_def res_bind_eq_Inr Let_def)

text \<open>A replacement of the runs leaves the evidence, the loops and the cancellation flag alone.\<close>

definition only_node_runs :: "runtime \<Rightarrow> runtime \<Rightarrow> bool" where
  "only_node_runs rt rt' =
     (rt_evidence rt' = rt_evidence rt \<and> rt_activeRevisionLoopIds rt' = rt_activeRevisionLoopIds rt
      \<and> rt_cancellationRequested rt' = rt_cancellationRequested rt
      \<and> wr_revisionLoops (rt_run rt') = wr_revisionLoops (rt_run rt))"

lemma only_node_runs_refl [simp]: "only_node_runs rt rt"
  by (simp add: only_node_runs_def)

lemma only_node_runs_trans: "only_node_runs rt rt' \<Longrightarrow> only_node_runs rt' rt'' \<Longrightarrow> only_node_runs rt rt''"
  by (simp add: only_node_runs_def)

lemma replaceRunState_run_of: "replaceRunState rt runs t = Inr rt' \<Longrightarrow> run_of rt' i = obj_get runs i"
  by (auto simp: replaceRunState_Inr run_of_def)

lemma replaceRunState_only: "replaceRunState rt runs t = Inr rt' \<Longrightarrow> only_node_runs rt rt'"
  by (auto simp: replaceRunState_Inr only_node_runs_def)

lemma replaceRunState_evolves:
  assumes eq: "replaceRunState rt runs t = Inr rt'" and keys: "obj_keys runs = obj_keys (node_runs rt)"
    and attempts: "\<And>i r r'. run_of rt i = Some r \<Longrightarrow> obj_get runs i = Some r' \<Longrightarrow> nr_attempt r \<le> nr_attempt r'"
  shows "evolves rt rt'"
proof -
  from eq have ok: "WorkflowRun_ok (rt_run rt')" unfolding replaceRunState_Inr by (rule conjunct1)
  have "\<forall>i r r'. run_of rt i = Some r \<and> run_of rt' i = Some r' \<longrightarrow> nr_attempt r \<le> nr_attempt r'"
    unfolding replaceRunState_run_of [OF eq] using attempts by blast
  moreover have "rt' = rt\<lparr> rt_run := rt_run rt' \<rparr>" "wr_id (rt_run rt') = wr_id (rt_run rt)"
    "wr_canvasId (rt_run rt') = wr_canvasId (rt_run rt)" "wr_planId (rt_run rt') = wr_planId (rt_run rt)"
    "wr_createdAt (rt_run rt') = wr_createdAt (rt_run rt)" "node_runs rt' = runs"
    "wr_revisionLoops (rt_run rt') = wr_revisionLoops (rt_run rt)"
    using eq by (auto simp: replaceRunState_Inr)
  ultimately show ?thesis unfolding evolves_def using ok keys by (metis (no_types, lifting) runtime.select_convs(1,2) runtime.surjective runtime.update_convs(3))
qed

lemma replace_node_run_facts:
  assumes eq: "replace_node_run rt i next t = Inr rt'" and r: "run_of rt i = Some r"
    and attempt: "nr_attempt r \<le> nr_attempt next"
  shows "evolves rt rt'" and "only_node_runs rt rt'" and "run_of rt' j = (if j = i then Some next else run_of rt j)"
proof -
  from eq have eq: "replaceRunState rt (obj_put i next (node_runs rt)) t = Inr rt'" by (simp add: replace_node_run_def)
  from r have "i \<in> set (obj_keys (node_runs rt))"
    using obj_get_eq_None_iff [of "node_runs rt" i] by (simp add: run_of_def)
  with eq show "evolves rt rt'"
    by (rule replaceRunState_evolves [OF _ obj_keys_put_present])
      (use r attempt in \<open>auto simp: run_of_def split: if_splits\<close>)
  from eq show "only_node_runs rt rt'" by (rule replaceRunState_only)
  from replaceRunState_run_of [OF eq] show "run_of rt' j = (if j = i then Some next else run_of rt j)"
    by (auto simp: run_of_def)
qed

lemma transition_attempt: "transitionNodeRun r tr = Inr r' \<Longrightarrow> nr_attempt r \<le> nr_attempt r'"
  by (simp add: transitionNodeRun_InrD(5))

lemma plain_transition_simps [simp]:
  "tr_status (plain_transition s t reason code) = s" "tr_occurredAt (plain_transition s t reason code) = t"
  "tr_reason (plain_transition s t reason code) = reason" "tr_failureCode (plain_transition s t reason code) = code"
  by (simp_all add: plain_transition_def)

lemma blocked_transition_status [simp]: "tr_status (blocked_transition t d) = Cancelled"
  by (simp add: blocked_transition_def)

text \<open>What settling may change: a pending node run becomes cancelled.\<close>

definition settles :: "runtime \<Rightarrow> runtime \<Rightarrow> bool" where
  "settles rt rt' =
     (evolves rt rt' \<and> only_node_runs rt rt'
      \<and> (\<forall>i. run_of rt' i = run_of rt i
            \<or> is_pending rt i \<and> (\<exists>r. run_of rt' i = Some r \<and> nr_status r = Cancelled)))"

lemma settles_refl: "runtime_shape rt \<Longrightarrow> settles rt rt"
  by (simp add: settles_def evolves_refl)

lemma settles_trans:
  assumes ab: "settles rt rt'" and bc: "settles rt' rt''"
  shows "settles rt rt''"
proof -
  have "run_of rt'' i = run_of rt i \<or> is_pending rt i \<and> (\<exists>r. run_of rt'' i = Some r \<and> nr_status r = Cancelled)" for i
  proof (cases "run_of rt' i = run_of rt i")
    case True
    then have "is_pending rt' i = is_pending rt i" by (simp add: is_pending_def)
    with True bc show ?thesis unfolding settles_def by metis
  next
    case False
    with ab obtain r where r: "is_pending rt i" "run_of rt' i = Some r" "nr_status r = Cancelled"
      unfolding settles_def by blast
    then have "\<not> is_pending rt' i" by (simp add: is_pending_def)
    with bc r show ?thesis unfolding settles_def by metis
  qed
  with ab bc show ?thesis unfolding settles_def using evolves_trans only_node_runs_trans by blast
qed

lemma settle_change_facts:
  assumes cs: "settle_changes rt t = Inr cs" and mem: "(k, r') \<in> set cs"
  shows "is_pending rt k" and "k \<in> set (obj_keys (node_runs rt))" and "nr_status r' = Cancelled"
    and "runtime_shape rt \<Longrightarrow> \<exists>r. run_of rt k = Some r \<and> nr_attempt r \<le> nr_attempt r'"
proof -
  from settle_changes_settled [OF cs mem] obtain r d where r: "is_pending rt k" "(k, r) \<in> set (node_runs rt)"
    "transitionNodeRun r (blocked_transition t d) = Inr r'"
    unfolding settled_by_def by blast
  then show "is_pending rt k" and "k \<in> set (obj_keys (node_runs rt))" and "nr_status r' = Cancelled"
    by (force simp: obj_keys_def transitionNodeRun_InrD(4))+
  assume "runtime_shape rt"
  then have "run_of rt k = Some r" using r(2) by (simp add: run_of_def runtime_shape_def obj_get_eq_Some_iff)
  with transition_attempt [OF r(3)] show "\<exists>r. run_of rt k = Some r \<and> nr_attempt r \<le> nr_attempt r'" by blast
qed

lemma settle_step_runs:
  assumes cs: "settle_changes rt t = Inr cs"
    and rt': "replaceRunState rt (put_all cs (node_runs rt)) t = Inr rt'"
  shows "obj_keys (node_runs rt') = obj_keys (node_runs rt)"
    and "k \<notin> fst ` set cs \<Longrightarrow> run_of rt' k = run_of rt k"
    and "k \<in> fst ` set cs \<Longrightarrow> is_pending rt k \<and> (\<exists>r. (k, r) \<in> set cs \<and> run_of rt' k = Some r \<and> nr_status r = Cancelled)"
proof -
  note facts = settle_change_facts [OF cs] and run = replaceRunState_run_of [OF rt']
  have "obj_keys (put_all cs (node_runs rt)) = obj_keys (node_runs rt)"
    using facts(2) by (intro obj_keys_put_all) auto
  then show "obj_keys (node_runs rt') = obj_keys (node_runs rt)" using rt' by (simp add: replaceRunState_Inr)
  show "k \<notin> fst ` set cs \<Longrightarrow> run_of rt' k = run_of rt k"
    by (simp add: run) (simp add: run_of_def obj_get_put_all_other)
  assume "k \<in> fst ` set cs"
  from obj_get_put_all_in [OF this, of "node_runs rt"] facts(1,3)
  show "is_pending rt k \<and> (\<exists>r. (k, r) \<in> set cs \<and> run_of rt' k = Some r \<and> nr_status r = Cancelled)"
    unfolding run by blast
qed

lemma settle_pending_less:
  assumes cs: "settle_changes rt t = Inr cs" "cs \<noteq> []"
    and rt': "replaceRunState rt (put_all cs (node_runs rt)) t = Inr rt'"
  shows "pending_keys rt' \<subset> pending_keys rt"
proof -
  note runs = settle_step_runs [OF cs(1) rt']
  have changed: "\<not> is_pending rt' k" if "k \<in> fst ` set cs" for k
    using runs(3) [OF that] by (auto simp: is_pending_def)
  have "pending_keys rt' \<subseteq> pending_keys rt"
  proof
    fix k assume k: "k \<in> pending_keys rt'"
    then have "run_of rt' k = run_of rt k" using changed runs(2) unfolding pending_keys_def by blast
    then have "is_pending rt' k = is_pending rt k" by (simp add: is_pending_def)
    with k show "k \<in> pending_keys rt" by (simp add: pending_keys_def runs(1))
  qed
  moreover obtain k r' where k: "(k, r') \<in> set cs" using cs(2) by (cases cs) auto
  have "k \<in> pending_keys rt" using settle_change_facts(1,2) [OF cs(1) k] by (simp add: pending_keys_def)
  moreover have "k \<notin> pending_keys rt'" using changed [of k] k by (force simp: pending_keys_def)
  ultimately show ?thesis by blast
qed

lemma settle_step:
  assumes shape: "runtime_shape rt" and cs: "settle_changes rt t = Inr cs"
    and rt': "replaceRunState rt (put_all cs (node_runs rt)) t = Inr rt'"
  shows "settles rt rt'"
proof -
  note runs = settle_step_runs [OF cs rt']
  have "nr_attempt r \<le> nr_attempt r'" if r: "run_of rt i = Some r" "run_of rt' i = Some r'" for i r r'
  proof (cases "i \<in> fst ` set cs")
    case True
    from runs(3) [OF True] r(2) have "(i, r') \<in> set cs" by auto
    from settle_change_facts(4) [OF cs this shape] r(1) show ?thesis by simp
  next
    case False
    with runs(2) r show ?thesis by simp
  qed
  then have "evolves rt rt'"
    using runs(1) rt' by (intro replaceRunState_evolves [OF rt'])
      (simp_all add: replaceRunState_run_of [OF rt'] replaceRunState_Inr)
  moreover have "run_of rt' i = run_of rt i
      \<or> is_pending rt i \<and> (\<exists>r. run_of rt' i = Some r \<and> nr_status r = Cancelled)" for i
    using runs(2,3) [of i] by (cases "i \<in> fst ` set cs") auto
  ultimately show ?thesis using replaceRunState_only [OF rt'] unfolding settles_def by blast
qed

function settleBlockedWorkflowNodes :: "runtime \<Rightarrow> timestamp \<Rightarrow> runtime res" where
  "settleBlockedWorkflowNodes rt occurredAt =
     (if isTerminalRunStatus (wr_status (rt_run rt)) then return rt
      else res_bind (settle_changes rt occurredAt) (\<lambda>changes.
        if changes = [] then return rt
        else res_bind (replaceRunState rt (put_all changes (node_runs rt)) occurredAt) (\<lambda>settled.
          settleBlockedWorkflowNodes settled occurredAt)))"
  by pat_completeness auto

termination
proof (relation "measure (\<lambda>(rt, _). card (pending_keys rt))", goal_cases)
  case 1
  show ?case by simp
next
  case (2 rt t changes rt')
  then have "pending_keys rt' \<subset> pending_keys rt" using settle_pending_less by blast
  then show ?case by (auto intro: psubset_card_mono simp: pending_keys_def)
qed

declare settleBlockedWorkflowNodes.simps [simp del]

text \<open>When settling stops: no pending node is blocked for good any more.\<close>

definition nothing_to_settle :: "runtime \<Rightarrow> bool" where
  "nothing_to_settle rt =
     (\<forall>i. is_pending rt i \<longrightarrow>
        (\<exists>d. evaluateNodeReadiness rt i = Inr d \<and> (rd_disposition d = NodeBlocked \<longrightarrow> deferred rt d)))"

lemma settle_changes_Nil:
  assumes "settle_changes rt t = Inr []"
  shows "nothing_to_settle rt"
proof -
  obtain css where css: "map_res (settle_entry rt t) (node_runs rt) = Inr css" "concat css = []"
    using assms by (auto simp: settle_changes_def res_bind_eq_Inr)
  have "\<exists>d. evaluateNodeReadiness rt i = Inr d \<and> (rd_disposition d = NodeBlocked \<longrightarrow> deferred rt d)"
    if i: "is_pending rt i" for i
  proof -
    obtain r where r: "run_of rt i = Some r" "nr_status r = Queued \<or> nr_status r = WaitingForApproval"
      using i by (auto simp: is_pending_def split: option.splits)
    then have "(i, r) \<in> set (node_runs rt)" by (simp add: run_of_def obj_get_eq_Some_in)
    from map_res_Inr_in_set' [OF css(1) this] css(2) have "settle_entry rt t (i, r) = Inr []" by auto
    with r(2) show ?thesis
      by (cases "evaluateNodeReadiness rt i") (auto simp: settle_entry_def res_bind_eq_Inr split: if_splits)
  qed
  then show ?thesis by (simp add: nothing_to_settle_def)
qed

lemma settleBlocked_settles:
  assumes "runtime_shape rt" and "settleBlockedWorkflowNodes rt t = Inr rt'"
  shows "settles rt rt' \<and> (isTerminalRunStatus (wr_status (rt_run rt')) \<or> nothing_to_settle rt')"
  using assms
proof (induction rt t rule: settleBlockedWorkflowNodes.induct)
  case (1 rt t)
  show ?case
  proof (cases "isTerminalRunStatus (wr_status (rt_run rt))")
    case True
    with "1.prems" show ?thesis by (simp add: settleBlockedWorkflowNodes.simps [of rt] settles_refl)
  next
    case live: False
    with "1.prems"(2) obtain cs where cs: "settle_changes rt t = Inr cs"
      by (auto simp: settleBlockedWorkflowNodes.simps [of rt] res_bind_eq_Inr)
    show ?thesis
    proof (cases "cs = []")
      case True
      with "1.prems" live cs show ?thesis
        by (simp add: settleBlockedWorkflowNodes.simps [of rt] settles_refl settle_changes_Nil)
    next
      case False
      with "1.prems"(2) live cs obtain rt1
        where rt1: "replaceRunState rt (put_all cs (node_runs rt)) t = Inr rt1"
          "settleBlockedWorkflowNodes rt1 t = Inr rt'"
        by (auto simp: settleBlockedWorkflowNodes.simps [of rt] res_bind_eq_Inr)
      from settle_step [OF "1.prems"(1) cs rt1(1)] have step: "settles rt rt1" .
      then have "runtime_shape rt1" using "1.prems"(1) evolves_shape by (auto simp: settles_def)
      from "1.IH" [OF live cs False rt1(1) this rt1(2)] step show ?thesis using settles_trans by blast
    qed
  qed
qed

lemma settles_starts_nothing: "settles rt rt' \<Longrightarrow> starts_nothing rt rt'"
  unfolding settles_def starts_nothing_def active_at_def by (metis isActive_simps(5) option.simps(5))

interpretation settling: idle_operation "\<lambda>rt. settleBlockedWorkflowNodes rt t" for t
proof
  fix rt rt' :: runtime
  assume "runtime_shape rt" and "settleBlockedWorkflowNodes rt t = Inr rt'"
  then have "settles rt rt'" using settleBlocked_settles by blast
  then show "evolves rt rt'" and "starts_nothing rt rt'"
    by (simp_all add: settles_def [of rt rt'] settles_starts_nothing)
qed

text \<open>
  The declarative side of settling. A revision loop that is not resolved holds a block open when the edge leaves
  its reviewer or waits for its reviewer's approval; a node is blocked for good when some block on it is not held
  open. A round cancels exactly the nodes that are blocked for good, and settling is a sequence of rounds.
\<close>

definition held_open :: "runtime \<Rightarrow> string \<Rightarrow> bool" where
  "held_open rt edgeId =
     (\<exists>e l s. find_edge rt edgeId = Some e \<and> l \<in> set (canvas_revisionLoops (rt_canvas rt))
        \<and> obj_get (wr_revisionLoops (rt_run rt)) (loop_id l) = Some s
        \<and> ls_status s \<in> {ReviewRequired, RevisionRequired, WaitingHuman}
        \<and> (edge_sourceNodeId e = loop_reviewNodeId l
           \<or> (\<exists>c. edge_config e = Execute c \<and> exe_approval c = ApproveReviewGate
                \<and> exe_approvalGateNodeId c = Some (loop_reviewNodeId l))))"

definition blocked_for_good :: "runtime \<Rightarrow> string \<Rightarrow> bool" where
  "blocked_for_good rt i =
     (\<exists>d. evaluateNodeReadiness rt i = Inr d \<and> rd_disposition d = NodeBlocked
        \<and> ((\<forall>v \<in> set (rd_edgeEvaluations d). ee_disposition v \<noteq> EdgeBlocked)
           \<or> (\<exists>v \<in> set (rd_edgeEvaluations d). ee_disposition v = EdgeBlocked \<and> \<not> held_open rt (ee_edgeId v))))"

definition settle_round :: "timestamp \<Rightarrow> runtime \<Rightarrow> runtime \<Rightarrow> bool" where
  "settle_round t rt rt' =
     (\<not> isTerminalRunStatus (wr_status (rt_run rt)) \<and> (\<exists>i. blocked_for_good rt i)
      \<and> evolves rt rt' \<and> only_node_runs rt rt' \<and> wr_status (rt_run rt') = aggregateWorkflowStatus (node_runs rt')
      \<and> (\<forall>i. blocked_for_good rt i \<longrightarrow> (\<exists>r r'. run_of rt i = Some r \<and> is_pending rt i \<and> run_of rt' i = Some r'
            \<and> nr_status r' = Cancelled \<and> nr_attempt r' = nr_attempt r \<and> nr_endedAt r' = Some t))
      \<and> (\<forall>i. \<not> blocked_for_good rt i \<longrightarrow> run_of rt' i = run_of rt i))"

inductive settles_in_rounds :: "timestamp \<Rightarrow> nat \<Rightarrow> runtime \<Rightarrow> runtime \<Rightarrow> bool" for t where
  settled: "settles_in_rounds t 0 rt rt"
| round: "settle_round t rt rt1 \<Longrightarrow> settles_in_rounds t n rt1 rt' \<Longrightarrow> settles_in_rounds t (Suc n) rt rt'"

lemma loop_unresolved_iff:
  "loop_unresolved rt l \<longleftrightarrow> (\<exists>s. obj_get (wr_revisionLoops (rt_run rt)) (loop_id l) = Some s
     \<and> ls_status s \<in> {ReviewRequired, RevisionRequired, WaitingHuman})"
  by (auto simp: loop_unresolved_def split: option.split)

lemma deferred_by_loop_iff: "blockIsDeferredByRevisionLoop rt v \<longleftrightarrow> held_open rt (ee_edgeId v)"
proof (cases "find_edge rt (ee_edgeId v)")
  case None
  then show ?thesis by (simp add: blockIsDeferredByRevisionLoop_def held_open_def)
next
  case (Some e)
  have "(case edge_config e of Execute c \<Rightarrow> exe_approval c = ApproveReviewGate \<and> exe_approvalGateNodeId c = Some i | _ \<Rightarrow> False)
      \<longleftrightarrow> (\<exists>c. edge_config e = Execute c \<and> exe_approval c = ApproveReviewGate \<and> exe_approvalGateNodeId c = Some i)" for i
    by (cases "edge_config e") simp_all
  with Some show ?thesis
    unfolding blockIsDeferredByRevisionLoop_def held_open_def by (simp add: list_ex_iff loop_unresolved_iff) blast
qed

lemma blocked_for_good_iff:
  assumes "evaluateNodeReadiness rt i = Inr d"
  shows "blocked_for_good rt i \<longleftrightarrow> rd_disposition d = NodeBlocked \<and> \<not> deferred rt d"
  using assms
  by (auto simp: blocked_for_good_def deferred_def Let_def with_disposition_def deferred_by_loop_iff list_all_iff
      filter_empty_conv)

lemma settle_changes_exact:
  assumes shape: "runtime_shape rt" and cs: "settle_changes rt t = Inr cs"
  shows "k \<in> fst ` set cs \<longleftrightarrow> blocked_for_good rt k"
    and "(k, r') \<in> set cs \<Longrightarrow> \<exists>r. run_of rt k = Some r \<and> is_pending rt k \<and> nr_status r' = Cancelled
      \<and> nr_attempt r' = nr_attempt r \<and> nr_endedAt r' = Some t"
proof -
  show change: "\<exists>r. run_of rt k = Some r \<and> is_pending rt k \<and> nr_status r' = Cancelled
      \<and> nr_attempt r' = nr_attempt r \<and> nr_endedAt r' = Some t" if mem: "(k, r') \<in> set cs" for k r'
  proof -
    obtain r d where r: "is_pending rt k" "(k, r) \<in> set (node_runs rt)" "transitionNodeRun r (blocked_transition t d) = Inr r'"
      using settle_changes_settled [OF cs mem] unfolding settled_by_def by blast
    have "tr_occurredAt (blocked_transition t d) = t" by (simp add: blocked_transition_def)
    then show ?thesis using r shape transitionNodeRun_InrD(4,5,7) [OF r(3)]
      by (auto simp: run_of_def runtime_shape_def obj_get_eq_Some_iff)
  qed
  show "k \<in> fst ` set cs \<longleftrightarrow> blocked_for_good rt k"
  proof
    assume "k \<in> fst ` set cs"
    then obtain r' where "(k, r') \<in> set cs" by auto
    from settle_changes_settled [OF cs this] show "blocked_for_good rt k"
      by (auto simp: settled_by_def blocked_for_good_iff)
  next
    assume good: "blocked_for_good rt k"
    then obtain d where d: "evaluateNodeReadiness rt k = Inr d" "rd_disposition d = NodeBlocked"
      unfolding blocked_for_good_def by blast
    have "\<not> deferred rt d" using good blocked_for_good_iff [OF d(1)] by simp
    obtain r where r: "run_of rt k = Some r" "nr_status r = Queued \<or> nr_status r = WaitingForApproval"
      using blocked_pending(1) [OF d(1)] d(2) by (auto simp: is_pending_def split: option.splits)
    then have "(k, r) \<in> set (node_runs rt)" by (simp add: run_of_def obj_get_eq_Some_in)
    moreover obtain css where css: "map_res (settle_entry rt t) (node_runs rt) = Inr css" and concat: "cs = concat css"
      using cs by (auto simp: settle_changes_def res_bind_eq_Inr)
    ultimately obtain x where x: "x \<in> set css" "settle_entry rt t (k, r) = Inr x"
      using map_res_Inr_in_set' [OF css] by blast
    then have "k \<in> fst ` set x" using d r(2) \<open>\<not> deferred rt d\<close> by (auto simp: settle_entry_def res_bind_eq_Inr)
    then show "k \<in> fst ` set cs" using x(1) concat by auto
  qed
qed

lemma settle_step_round:
  assumes shape: "runtime_shape rt" and live: "\<not> isTerminalRunStatus (wr_status (rt_run rt))"
    and cs: "settle_changes rt t = Inr cs" "cs \<noteq> []" and rt': "replaceRunState rt (put_all cs (node_runs rt)) t = Inr rt'"
  shows "settle_round t rt rt'"
proof -
  note runs = settle_step_runs [OF cs(1) rt'] and exact = settle_changes_exact [OF shape cs(1)]
  have base: "evolves rt rt'" "only_node_runs rt rt'" using settle_step [OF shape cs(1) rt'] by (simp_all add: settles_def)
  have status: "wr_status (rt_run rt') = aggregateWorkflowStatus (node_runs rt')"
  proof -
    have "rt' = rt\<lparr> rt_run := \<lparr> wr_id = wr_id (rt_run rt), wr_canvasId = wr_canvasId (rt_run rt),
        wr_planId = wr_planId (rt_run rt), wr_status = aggregateWorkflowStatus (put_all cs (node_runs rt)),
        wr_nodeRuns = put_all cs (node_runs rt), wr_revisionLoops = wr_revisionLoops (rt_run rt),
        wr_createdAt = wr_createdAt (rt_run rt), wr_updatedAt = t,
        wr_endedAt = (if isTerminalRunStatus (aggregateWorkflowStatus (put_all cs (node_runs rt))) then Some t else None) \<rparr> \<rparr>"
      using rt' unfolding replaceRunState_Inr by (rule conjunct2)
    then show ?thesis by simp
  qed
  have some: "\<exists>i. blocked_for_good rt i" using cs(2) exact(1) by (cases cs) auto
  have hit: "\<exists>r r'. run_of rt i = Some r \<and> is_pending rt i \<and> run_of rt' i = Some r'
      \<and> nr_status r' = Cancelled \<and> nr_attempt r' = nr_attempt r \<and> nr_endedAt r' = Some t" if "blocked_for_good rt i" for i
  proof -
    have "i \<in> fst ` set cs" unfolding exact(1) by (rule that)
    then obtain r' where r': "(i, r') \<in> set cs" "run_of rt' i = Some r'" using runs(3) [of i] by blast
    from exact(2) [OF r'(1)] r'(2) show ?thesis by auto
  qed
  have miss: "run_of rt' i = run_of rt i" if "\<not> blocked_for_good rt i" for i
    using that unfolding exact(1) [symmetric] by (rule runs(2))
  show ?thesis unfolding settle_round_def by (intro conjI allI impI live some base status hit miss)
qed

lemma settleBlocked_rounds:
  assumes "runtime_shape rt" and "settleBlockedWorkflowNodes rt t = Inr rt'"
  shows "\<exists>n \<le> card (pending_keys rt). settles_in_rounds t n rt rt'"
  using assms
proof (induction rt t rule: settleBlockedWorkflowNodes.induct)
  case (1 rt t)
  show ?case
  proof (cases "isTerminalRunStatus (wr_status (rt_run rt))")
    case True
    with "1.prems" have "rt' = rt" by (simp add: settleBlockedWorkflowNodes.simps [of rt])
    then show ?thesis using settled [of t rt] by blast
  next
    case live: False
    with "1.prems"(2) obtain cs where cs: "settle_changes rt t = Inr cs"
      by (auto simp: settleBlockedWorkflowNodes.simps [of rt] res_bind_eq_Inr)
    show ?thesis
    proof (cases "cs = []")
      case True
      with "1.prems" live cs have "rt' = rt" by (simp add: settleBlockedWorkflowNodes.simps [of rt])
      then show ?thesis using settled [of t rt] by blast
    next
      case False
      with "1.prems"(2) live cs obtain rt1
        where rt1: "replaceRunState rt (put_all cs (node_runs rt)) t = Inr rt1"
          "settleBlockedWorkflowNodes rt1 t = Inr rt'"
        by (auto simp: settleBlockedWorkflowNodes.simps [of rt] res_bind_eq_Inr)
      have step: "settle_round t rt rt1" by (rule settle_step_round [OF "1.prems"(1) live cs False rt1(1)])
      then have "runtime_shape rt1" using "1.prems"(1) evolves_shape by (auto simp: settle_round_def)
      from "1.IH" [OF live cs False rt1(1) this rt1(2)] obtain n
        where n: "n \<le> card (pending_keys rt1)" "settles_in_rounds t n rt1 rt'" by blast
      have "card (pending_keys rt1) < card (pending_keys rt)"
        using settle_pending_less [OF cs False rt1(1)] by (intro psubset_card_mono) (simp_all add: pending_keys_def)
      then show ?thesis using n round [OF step n(2)] by (intro exI [of _ "Suc n"]) simp
    qed
  qed
qed

lemma nothing_blocked_for_good:
  assumes "nothing_to_settle rt"
  shows "\<not> blocked_for_good rt i"
proof
  assume good: "blocked_for_good rt i"
  then obtain d where d: "evaluateNodeReadiness rt i = Inr d" "rd_disposition d = NodeBlocked"
    unfolding blocked_for_good_def by blast
  moreover have "is_pending rt i" using blocked_pending(1) [OF d(1)] d(2) by simp
  ultimately have "deferred rt d" using assms by (force simp: nothing_to_settle_def)
  with good blocked_for_good_iff [OF d(1)] show False by simp
qed

text \<open>
  C25. Settling is a sequence of at most as many rounds as there are pending nodes. A round is made only while the
  run is live and cancels exactly the pending nodes that are blocked for good at that moment, in their attempt; a
  node whose blocks are all held open by an unresolved revision loop is never cancelled. Settling stops only when
  the run has ended or no node is blocked for good. Everything else of the runtime, the evidence and the
  revision loops included, is unchanged, and no node occupies the machine that did not before.
\<close>

theorem settleBlockedWorkflowNodes_correct:
  assumes "runtime_shape rt" and "settleBlockedWorkflowNodes rt t = Inr rt'"
  shows "(\<exists>n \<le> card (pending_keys rt). settles_in_rounds t n rt rt') \<and> settles rt rt' \<and> starts_nothing rt rt'
    \<and> (isTerminalRunStatus (wr_status (rt_run rt')) \<or> (\<forall>i. \<not> blocked_for_good rt' i))"
  using settleBlocked_rounds [OF assms] settleBlocked_settles [OF assms] settling.idle [OF assms] nothing_blocked_for_good
  by blast

section \<open>Waiting for approvals\<close>

definition approval_entry :: "runtime \<Rightarrow> timestamp \<Rightarrow> string \<times> node_run \<Rightarrow> ((string \<times> node_run) \<times> bool) res" where
  "approval_entry rt occurredAt entry =
     (let (nodeId, nodeRun) = entry in
      if nr_status nodeRun \<noteq> Queued then return ((nodeId, nodeRun), False)
      else res_bind (evaluateNodeReadiness rt nodeId) (\<lambda>d.
        if rd_disposition d \<noteq> NodeWaitingForApproval then return ((nodeId, nodeRun), False)
        else res_bind (transitionNodeRun nodeRun (plain_transition WaitingForApproval occurredAt
               (Some ''Waiting for your decision before this step runs'') None))
             (\<lambda>next. return ((nodeId, next), True))))"

definition markWaitingForApprovals :: "runtime \<Rightarrow> timestamp \<Rightarrow> runtime res" where
  "markWaitingForApprovals rt occurredAt =
     res_bind (map_res (approval_entry rt occurredAt) (node_runs rt)) (\<lambda>results.
       if list_ex snd results then replaceRunState rt (obj_from (map fst results)) occurredAt
       else return rt)"

section \<open>Launching\<close>

fun readiness_text :: "readiness_disposition \<Rightarrow> string" where
  "readiness_text NodeReady = ''ready''"
| "readiness_text NodeWaiting = ''waiting''"
| "readiness_text NodeWaitingForApproval = ''waiting-for-approval''"
| "readiness_text NodeBlocked = ''blocked''"
| "readiness_text NodeNotRunnable = ''not-runnable''"

text \<open>When the evidence on an incoming edge was verified, for the two kinds that carry it.\<close>

definition evidence_time :: "runtime \<Rightarrow> canvas_edge \<Rightarrow> timestamp option" where
  "evidence_time rt e =
     (case edge_config e of
        Output _ \<Rightarrow> map_option op_verifiedAt (obj_get (ev_outputPublications (rt_evidence rt)) (edge_id e))
      | Context _ \<Rightarrow> map_option cr_verifiedAt (obj_get (ev_contextResolutions (rt_evidence rt)) (edge_id e))
      | _ \<Rightarrow> None)"

definition futureEvidence :: "runtime \<Rightarrow> string \<Rightarrow> timestamp \<Rightarrow> string list" where
  "futureEvidence rt nodeId occurredAt =
     concat (map (\<lambda>e.
       if edge_targetNodeId e \<noteq> nodeId \<or> \<not> is_planned rt e then []
       else case evidence_time rt e of
         None \<Rightarrow> []
       | Some verifiedAt \<Rightarrow> if date_after verifiedAt occurredAt then [edge_id e] else [])
       (canvas_edges (rt_canvas rt)))"

definition outside_plan :: "string \<Rightarrow> wf_error" where
  "outside_plan nodeId = Error (''Node is outside the current plan: '' @ nodeId)"

definition assertWorkflowNodeLaunchable :: "runtime \<Rightarrow> string \<Rightarrow> timestamp \<Rightarrow> node_run res" where
  "assertWorkflowNodeLaunchable rt nodeId occurredAt =
     res_bind (evaluateNodeReadiness rt nodeId) (\<lambda>d.
       if rd_disposition d \<noteq> NodeReady
       then throw (Error (''Node '' @ nodeId @ '' cannot run: ''
              @ or_text (join ''; '' (rd_reasons d)) (readiness_text (rd_disposition d))))
       else if futureEvidence rt nodeId occurredAt \<noteq> []
       then throw (Error (''Node '' @ nodeId @ '' cannot start before incoming evidence is verified: ''
              @ join '', '' (futureEvidence rt nodeId occurredAt)))
       else res_bind (activeReservation rt) (\<lambda>reservation.
            res_bind (nodeById rt nodeId) (\<lambda>n.
              if \<not> fitsReservation rt reservation n
              then throw (Error (''Node '' @ nodeId @ '' exceeds currently available workflow resources''))
              else case run_of rt nodeId of
                None \<Rightarrow> throw (outside_plan nodeId)
              | Some current \<Rightarrow> return current)))"

fun start_transition :: "execution_reference \<Rightarrow> timestamp \<Rightarrow> node_transition" where
  "start_transition (ProcessExecution p) occurredAt =
     (plain_transition Running occurredAt None None)\<lparr> tr_process := Some p \<rparr>"
| "start_transition (InternalExecution i) occurredAt =
     (plain_transition Running occurredAt None None)\<lparr> tr_internalExecution := Some i \<rparr>"

definition startWorkflowNode :: "runtime \<Rightarrow> string \<Rightarrow> execution_reference \<Rightarrow> timestamp \<Rightarrow> runtime res" where
  "startWorkflowNode rt nodeId execution occurredAt =
     res_bind (assertWorkflowNodeLaunchable rt nodeId occurredAt) (\<lambda>current.
     res_bind (transitionNodeRun current (start_transition execution occurredAt)) (\<lambda>next.
       replace_node_run rt nodeId next occurredAt))"

record prelaunch_failure =
  pf_failureCode :: string
  pf_reason :: string

definition failWorkflowNodeBeforeLaunch :: "runtime \<Rightarrow> string \<Rightarrow> prelaunch_failure \<Rightarrow> timestamp \<Rightarrow> runtime res" where
  "failWorkflowNodeBeforeLaunch rt nodeId failure occurredAt =
     (case run_of rt nodeId of
        None \<Rightarrow> throw (outside_plan nodeId)
      | Some current \<Rightarrow>
          if nr_status current \<noteq> Queued
          then throw (Error (''Node '' @ nodeId @ '' cannot fail before launch from status ''
                 @ run_status_text (nr_status current)))
          else
            res_bind (assertWorkflowNodeLaunchable rt nodeId occurredAt) (\<lambda>_.
            res_bind (NodeRunStateSchema_parse
              \<lparr> nr_nodeId = nr_nodeId current, nr_status = Failed, nr_attempt = nr_attempt current,
                nr_queuedAt = nr_queuedAt current, nr_startedAt = None, nr_endedAt = Some occurredAt,
                nr_process = None, nr_internalExecution = None, nr_resumable = nr_resumable current,
                nr_failureCode = Some (pf_failureCode failure), nr_statusReason = Some (pf_reason failure) \<rparr>) (\<lambda>failed.
            res_bind (replace_node_run rt nodeId failed occurredAt) (\<lambda>rt'.
              settleBlockedWorkflowNodes rt' occurredAt))))"

section \<open>Completion\<close>

datatype node_completion =
    CompletedSucceeded
  | CompletedFailed string string
  | CompletedLost string string
  | CompletedCancelled string

fun completion_transition :: "node_completion \<Rightarrow> timestamp \<Rightarrow> node_transition" where
  "completion_transition CompletedSucceeded t = plain_transition Succeeded t None None"
| "completion_transition (CompletedFailed failureCode reason) t = plain_transition Failed t (Some reason) (Some failureCode)"
| "completion_transition (CompletedLost failureCode reason) t = plain_transition Lost t (Some reason) (Some failureCode)"
| "completion_transition (CompletedCancelled reason) t = plain_transition Cancelled t (Some reason) None"

definition gate_may_succeed :: "runtime \<Rightarrow> string \<Rightarrow> node_completion \<Rightarrow> canvas_node \<Rightarrow> unit res" where
  "gate_may_succeed rt nodeId completion n =
     (if completion = CompletedSucceeded \<and> is_ReviewGateNode (node_data n)
      then res_bind (reviewGateEvaluation rt nodeId) (\<lambda>gate.
             throw_if (ge_status gate \<noteq> GatePass)
               (Error (''Review gate '' @ nodeId @ '' cannot pass: '' @ join ''; '' (ge_reasons gate))))
      else return ())"

fun before_completion :: "node_completion \<Rightarrow> node_run \<Rightarrow> timestamp \<Rightarrow> node_run res" where
  "before_completion (CompletedCancelled reason) current t =
     (if nr_status current = Running then transitionNodeRun current (plain_transition Cancelling t (Some reason) None)
      else return current)"
| "before_completion _ current t = return current"

definition active_loop_of :: "runtime \<Rightarrow> string \<Rightarrow> revision_loop option" where
  "active_loop_of rt nodeId =
     find (\<lambda>l. loop_implementationNodeId l = nodeId \<and> loop_id l \<in> set (rt_activeRevisionLoopIds rt))
       (canvas_revisionLoops (rt_canvas rt))"

definition close_active_loop :: "runtime \<Rightarrow> string \<Rightarrow> node_completion \<Rightarrow> runtime \<Rightarrow> runtime" where
  "close_active_loop rt nodeId completion updated =
     (case active_loop_of rt nodeId of
        None \<Rightarrow> updated
      | Some l \<Rightarrow>
          if completion \<noteq> CompletedSucceeded then updated
          else updated\<lparr> rt_activeRevisionLoopIds := filter (\<lambda>i. i \<noteq> loop_id l) (rt_activeRevisionLoopIds updated) \<rparr>)"

definition completeWorkflowNode :: "runtime \<Rightarrow> string \<Rightarrow> node_completion \<Rightarrow> timestamp \<Rightarrow> runtime res" where
  "completeWorkflowNode rt nodeId completion occurredAt =
     (case run_of rt nodeId of
        None \<Rightarrow> throw (outside_plan nodeId)
      | Some current \<Rightarrow>
          res_bind (nodeById rt nodeId) (\<lambda>n.
          res_bind (gate_may_succeed rt nodeId completion n) (\<lambda>_.
          if completion = CompletedSucceeded \<and> agent_reviews rt nodeId \<noteq> []
          then res_bind (transitionNodeRun current (plain_transition WaitingForApproval occurredAt
                 (Some ''The reviewer finished and is waiting for its review to be recorded'') None))
               (\<lambda>awaiting. replace_node_run rt nodeId awaiting occurredAt)
          else
            res_bind (before_completion completion current occurredAt) (\<lambda>transitioned.
            res_bind (transitionNodeRun transitioned (completion_transition completion occurredAt)) (\<lambda>next.
            res_bind (replace_node_run rt nodeId next occurredAt) (\<lambda>updated.
              settleBlockedWorkflowNodes (close_active_loop rt nodeId completion updated) occurredAt))))))"

section \<open>Cancellation and recovery\<close>

definition cancelWorkflowExecution :: "runtime \<Rightarrow> timestamp \<Rightarrow> runtime res" where
  "cancelWorkflowExecution rt occurredAt =
     res_bind (requestWorkflowCancellation (rt_run rt) occurredAt) (\<lambda>run. return
       (rt\<lparr> rt_run := run, rt_cancellationRequested := True, rt_activeRevisionLoopIds := [] \<rparr>))"

definition recoverWorkflowExecution ::
  "runtime \<Rightarrow> (int \<Rightarrow> string option) \<Rightarrow> timestamp \<Rightarrow> (runtime \<times> entity_id list) res" where
  "recoverWorkflowExecution rt liveProcesses occurredAt =
     res_bind (recoverInterruptedRun (rt_run rt) liveProcesses occurredAt) (\<lambda>(run, lostNodeIds).
     res_bind (settleBlockedWorkflowNodes (rt\<lparr> rt_run := run, rt_activeRevisionLoopIds := [] \<rparr>) occurredAt) (\<lambda>recovered.
       return (recovered, lostNodeIds)))"

section \<open>Reservations are sums over the active nodes\<close>

text \<open>A reservation that stands for a list of node ids.\<close>

definition reserves :: "runtime \<Rightarrow> reservation \<Rightarrow> string list \<Rightarrow> bool" where
  "reserves rt r ids =
     (let rs = map (node_requirements rt) ids in
      rs_concurrency r = int (length rs) \<and> rs_cpuUnits r = sum_list (map cpuUnits rs)
      \<and> rs_memoryMb r = sum_list (map memoryMb rs) \<and> set (rs_exclusiveKeys r) = all_keys rs)"

abbreviation fits_limits :: "runtime \<Rightarrow> string list \<Rightarrow> bool" where
  "fits_limits rt ids \<equiv> within_limits (canvas_workflowLimits (rt_canvas rt)) (map (node_requirements rt) ids)"

lemma nodeById_requirements:
  assumes "runtime_shape rt" and "nodeById rt i = Inr n"
  shows "node_id n = i" and "node_resources n = node_requirements rt i"
proof -
  from assms(2) have "find_node rt i = Some n" by (simp add: nodeById_def split: option.splits)
  then have n: "n \<in> set (canvas_nodes (rt_canvas rt))" "node_id n = i"
    unfolding find_node_def by (auto dest: find_SomeD)
  have "distinct (map node_id (canvas_nodes (rt_canvas rt)))"
    using assms(1) by (simp add: runtime_shape_def wellformed_canvas_def canvas_ids_def)
  with n have "node_by_id (canvas_nodes (rt_canvas rt)) i = Some n" by (simp add: node_by_id_iff)
  with n show "node_id n = i" and "node_resources n = node_requirements rt i"
    by (simp_all add: node_requirements_def requirements_def)
qed

lemma active_ids_runs:
  assumes "runtime_shape rt"
  shows "active_ids rt = map nr_nodeId (active_runs rt)"
proof -
  have run: "nr_nodeId (snd e) = fst e" "active_at rt (fst e) \<longleftrightarrow> isActiveStatus (nr_status (snd e))"
    if e: "e \<in> set (node_runs rt)" for e
  proof -
    obtain k r where e': "e = (k, r)" by (cases e)
    have "run_of rt k = Some r" using assms e e' by (simp add: run_of_def runtime_shape_def obj_get_eq_Some_iff)
    moreover have "WorkflowRun_ok (rt_run rt)" using assms by (simp add: runtime_shape_def)
    then have "nr_nodeId r = k" using e e' WorkflowRun_okD(2) by blast
    ultimately show "nr_nodeId (snd e) = fst e" "active_at rt (fst e) \<longleftrightarrow> isActiveStatus (nr_status (snd e))"
      by (simp_all add: e' active_at_def)
  qed
  have "active_ids rt = map fst (filter (\<lambda>e. active_at rt (fst e)) (node_runs rt))"
    by (simp add: active_ids_def obj_keys_def filter_map comp_def)
  also have "\<dots> = map fst (filter (\<lambda>e. isActiveStatus (nr_status (snd e))) (node_runs rt))"
    using run(2) by (metis (mono_tags, lifting) filter_cong)
  also have "\<dots> = map (\<lambda>e. nr_nodeId (snd e)) (filter (\<lambda>e. isActiveStatus (nr_status (snd e))) (node_runs rt))"
    using run(1) by simp
  also have "\<dots> = map nr_nodeId (active_runs rt)"
    by (simp add: active_runs_def obj_values_def filter_map comp_def isActiveStatus_def)
  finally show ?thesis .
qed

lemma activeReservation_reserves:
  assumes shape: "runtime_shape rt"
  shows "\<exists>r. activeReservation rt = Inr r \<and> reserves rt r (active_ids rt)"
proof -
  have "i \<in> node_id ` set (canvas_nodes (rt_canvas rt))" if "i \<in> set (active_ids rt)" for i
    using that shape by (auto simp: active_ids_def runtime_shape_def)
  then have "\<exists>n. nodeById rt (nr_nodeId r) = Inr n" if "r \<in> set (active_runs rt)" for r
    using that nodeById_total unfolding active_ids_runs [OF shape] by auto
  then obtain nodes where nodes: "map_res (\<lambda>r. nodeById rt (nr_nodeId r)) (active_runs rt) = Inr nodes"
    using map_res_total [of "active_runs rt" "\<lambda>r. nodeById rt (nr_nodeId r)"] by blast
  have "map node_resources nodes = map (node_requirements rt) (active_ids rt)"
    using nodes nodeById_requirements(2) [OF shape] unfolding active_ids_runs [OF shape] map_res_Inr_list_all2
    by (induction rule: list_all2_induct) auto
  then have eqs: "map (\<lambda>n. f (node_resources n)) nodes = map (\<lambda>i. f (node_requirements rt i)) (active_ids rt)" for f
    by (metis (no_types, lifting) list.map_comp comp_def map_eq_conv)
  have "length nodes = length (active_ids rt)" using eqs [of cpuUnits] map_eq_imp_length_eq by blast
  then show ?thesis
    by (simp add: activeReservation_def nodes reserves_def Let_def eqs all_keys_def comp_def)
qed

lemma fitsReservation_iff:
  assumes "runtime_shape rt" and "reserves rt r ids" and "nodeById rt i = Inr n" and "fits_limits rt ids"
  shows "fitsReservation rt r n \<longleftrightarrow> fits_limits rt (ids @ [i])"
proof -
  from assms(4) have "keys_disjoint (map (node_requirements rt) ids)" by (simp add: within_limits_def)
  with assms(2) nodeById_requirements [OF assms(1,3)] show ?thesis
    by (auto simp: fitsReservation_def reserves_def Let_def within_limits_snoc list_ex_iff)
qed

lemma reserves_reserve:
  assumes "runtime_shape rt" and "reserves rt r ids" and "nodeById rt i = Inr n"
  shows "reserves rt (reserve r n) (ids @ [i])"
  using assms(2) nodeById_requirements [OF assms(1,3)]
  by (auto simp: reserves_def Let_def reserve_def set_fold_set_add)

lemma within_limits_drop:
  assumes "within_limits l (map f (as @ bs @ cs))" and "\<And>x. 0 \<le> cpuUnits (f x) \<and> 0 \<le> memoryMb (f x)"
  shows "within_limits l (map f (as @ cs))"
  using assms(1)
proof (induction bs)
  case Nil
  then show ?case by simp
next
  case (Cons b bs)
  from Cons.prems have "within_limits l (map f (as @ b # (bs @ cs)))" by simp
  then have "within_limits l (map f (as @ bs @ cs))"
    unfolding within_limits_insert using assms(2) [of b] by (simp add: within_limits_def comp_def)
  then show ?case by (rule Cons.IH)
qed

lemma pick_runnable_greedy:
  assumes shape: "runtime_shape rt"
  shows "pick_runnable rt entries r = Inr ids \<Longrightarrow> reserves rt r act \<Longrightarrow> fits_limits rt act \<Longrightarrow>
    fits_limits rt (act @ ids) \<and> set ids \<subseteq> set (with_readiness NodeReady entries)
    \<and> (\<forall>i \<in> set (with_readiness NodeReady entries) - set ids. \<not> fits_limits rt (act @ ids @ [i]))"
proof (induction entries arbitrary: r act ids)
  case Nil
  then show ?case by (simp add: with_readiness_def)
next
  case (Cons e es)
  show ?case
  proof (cases "rd_disposition e = NodeReady")
    case False
    with Cons show ?thesis by (simp add: with_readiness_def)
  next
    case True
    then have ready: "with_readiness NodeReady (e # es) = rd_nodeId e # with_readiness NodeReady es"
      by (simp add: with_readiness_def)
    from Cons.prems(1) True obtain n where n: "nodeById rt (rd_nodeId e) = Inr n" by (auto simp: res_bind_eq_Inr)
    note fit = fitsReservation_iff [OF shape Cons.prems(2) n Cons.prems(3)]
    show ?thesis
    proof (cases "fitsReservation rt r n")
      case False
      with Cons.prems(1) True n have "pick_runnable rt es r = Inr ids" by simp
      note IH = Cons.IH [OF this Cons.prems(2,3)]
      have "\<not> fits_limits rt (act @ ids @ [rd_nodeId e])"
        using within_limits_drop [of _ "node_requirements rt" act ids "[rd_nodeId e]"] False fit
          node_requirements_nonneg [OF shape] by blast
      with IH ready show ?thesis by auto
    next
      case fits: True
      with Cons.prems(1) True n obtain js where js: "pick_runnable rt es (reserve r n) = Inr js" "ids = node_id n # js"
        by (auto simp: res_bind_eq_Inr)
      have "fits_limits rt (act @ [rd_nodeId e])" using fits fit by simp
      note IH = Cons.IH [OF js(1) reserves_reserve [OF shape Cons.prems(2) n] this]
      have "node_id n = rd_nodeId e" using nodeById_requirements(1) [OF shape n] .
      with IH ready js(2) show ?thesis by auto
    qed
  qed
qed

lemma getSchedulingSnapshot_InrE:
  assumes "runtime_shape rt" and "getSchedulingSnapshot rt = Inr s"
  obtains r entries where "activeReservation rt = Inr r" "reserves rt r (active_ids rt)"
    and "map_res (evaluateNodeReadiness rt) (staged (pl_stages (rt_plan rt))) = Inr entries"
    and "pick_runnable rt entries r = Inr (ss_runnableNodeIds s)"
    and "ss_blockedNodeIds s = with_readiness NodeBlocked entries"
    and "ss_waitingNodeIds s = with_readiness NodeWaiting entries"
    and "ss_waitingForApprovalNodeIds s = with_readiness NodeWaitingForApproval entries"
    and "ss_activeNodeIds s = sort_ids (active_ids rt)"
proof -
  obtain r where r: "activeReservation rt = Inr r" "reserves rt r (active_ids rt)"
    using activeReservation_reserves [OF assms(1)] by blast
  from assms(2) r(1) obtain entries runnable
    where "map_res (evaluateNodeReadiness rt) (staged (pl_stages (rt_plan rt))) = Inr entries"
      "pick_runnable rt entries r = Inr runnable"
      "s = \<lparr> ss_runnableNodeIds = runnable, ss_waitingNodeIds = with_readiness NodeWaiting entries,
         ss_waitingForApprovalNodeIds = with_readiness NodeWaitingForApproval entries,
         ss_blockedNodeIds = with_readiness NodeBlocked entries,
         ss_activeNodeIds = sort_ids (map nr_nodeId (active_runs rt)),
         ss_reserved = r\<lparr> rs_exclusiveKeys := sort_ids (rs_exclusiveKeys r) \<rparr> \<rparr>"
    by (auto simp: getSchedulingSnapshot_def res_bind_eq_Inr)
  with r that show ?thesis by (simp add: active_ids_runs [OF assms(1)])
qed

lemma with_readiness_planned:
  assumes shape: "runtime_shape rt"
    and entries: "map_res (evaluateNodeReadiness rt) (staged (pl_stages (rt_plan rt))) = Inr entries"
  shows "set (with_readiness d entries) =
    {i \<in> set (pl_nodeIds (rt_plan rt)). \<exists>e. evaluateNodeReadiness rt i = Inr e \<and> rd_disposition e = d}"
proof -
  have staged: "set (staged (pl_stages (rt_plan rt))) = set (pl_nodeIds (rt_plan rt))"
    using shape by (simp add: runtime_shape_def)
  show ?thesis
  proof (intro equalityI subsetI)
    fix i assume "i \<in> set (with_readiness d entries)"
    then obtain e where e: "e \<in> set entries" "rd_disposition e = d" "i = rd_nodeId e" by (auto simp: with_readiness_def)
    from map_res_Inr_in_set [OF entries e(1)] obtain j where "j \<in> set (pl_nodeIds (rt_plan rt))" "evaluateNodeReadiness rt j = Inr e"
      unfolding staged by blast
    with e evaluateNodeReadiness_nodeId [of rt j e]
    show "i \<in> {i \<in> set (pl_nodeIds (rt_plan rt)). \<exists>e. evaluateNodeReadiness rt i = Inr e \<and> rd_disposition e = d}" by auto
  next
    fix i assume "i \<in> {i \<in> set (pl_nodeIds (rt_plan rt)). \<exists>e. evaluateNodeReadiness rt i = Inr e \<and> rd_disposition e = d}"
    then obtain e where e: "i \<in> set (pl_nodeIds (rt_plan rt))" "evaluateNodeReadiness rt i = Inr e" "rd_disposition e = d" by blast
    from map_res_Inr_in_set' [OF entries] e(1) staged have "e \<in> set entries" using e(2) by fastforce
    with e evaluateNodeReadiness_nodeId [OF e(2)] show "i \<in> set (with_readiness d entries)"
      by (auto simp: with_readiness_def)
  qed
qed

text \<open>
  C2. The nodes a snapshot offers are ready and can all start together beside the active ones without
  exceeding the concurrency, CPU or memory limits or sharing an exclusive key. The choice is maximal:
  a ready planned node that is not offered does not fit beside the active and the offered ones. The
  active list is exactly the nodes occupying the machine.
\<close>

theorem getSchedulingSnapshot_correct:
  assumes shape: "runtime_shape rt" and cap: "capacity rt" and snap: "getSchedulingSnapshot rt = Inr s"
  shows "fits_limits rt (active_ids rt @ ss_runnableNodeIds s)
    \<and> (\<forall>i \<in> set (ss_runnableNodeIds s). node_ready rt i)
    \<and> (\<forall>i \<in> set (pl_nodeIds (rt_plan rt)) - set (ss_runnableNodeIds s).
         node_ready rt i \<longrightarrow> \<not> fits_limits rt (active_ids rt @ ss_runnableNodeIds s @ [i]))
    \<and> set (ss_activeNodeIds s) = {i. active_at rt i}"
proof -
  obtain r entries where r: "reserves rt r (active_ids rt)"
    and entries: "map_res (evaluateNodeReadiness rt) (staged (pl_stages (rt_plan rt))) = Inr entries"
    and pick: "pick_runnable rt entries r = Inr (ss_runnableNodeIds s)"
    and act: "ss_activeNodeIds s = sort_ids (active_ids rt)"
    using getSchedulingSnapshot_InrE [OF shape snap] by metis
  have ready: "i \<in> set (with_readiness NodeReady entries) \<longleftrightarrow> i \<in> set (pl_nodeIds (rt_plan rt)) \<and> node_ready rt i" for i
    unfolding with_readiness_planned [OF shape entries] by (auto simp: node_ready_def split: sum.splits)
  have "active_at rt i \<Longrightarrow> i \<in> set (obj_keys (node_runs rt))" for i
    using obj_get_eq_None_iff [of "node_runs rt" i] by (auto simp: active_at_def run_of_def split: option.splits)
  then have "set (ss_activeNodeIds s) = {i. active_at rt i}" by (auto simp: act active_ids_def)
  moreover note pick_runnable_greedy [OF shape pick r] cap
  ultimately show ?thesis using ready by (auto simp: capacity_def)
qed

end
