(* ===== verification/Lifecycle.thy ===== *)
theory Lifecycle
  imports Scheduling
begin

text \<open>
  What the operations of \<open>scheduling.ts\<close> do to the node runs: launching, failing before launch,
  completing, waiting for approval, cancelling and recovering. Every operation is interpreted in the
  locales of \<open>Frame\<close>, and each has the theorem that states its effect.
\<close>

section \<open>Runs related entry by entry\<close>

lemma obj_get_list_all2:
  assumes "list_all2 (\<lambda>(k, r) (k', r'). k' = k \<and> R k r r') runs runs'"
  shows "obj_keys runs' = obj_keys runs" and "rel_option (R i) (obj_get runs i) (obj_get runs' i)"
  using assms by (induction rule: list_all2_induct) (auto simp: obj_keys_def)

lemma run_of_list_all2:
  assumes "list_all2 (\<lambda>(k, r) (k', r'). k' = k \<and> R k r r') (node_runs rt) (node_runs rt')"
  shows "run_of rt i = Some r \<Longrightarrow> \<exists>r'. run_of rt' i = Some r' \<and> R i r r'"
    and "run_of rt' i = Some r' \<Longrightarrow> \<exists>r. run_of rt i = Some r \<and> R i r r'"
  using obj_get_list_all2(2) [OF assms, of i] by (auto simp: run_of_def option_rel_Some1 option_rel_Some2)

section \<open>Launching\<close>

lemma assertWorkflowNodeLaunchable_Inr:
  assumes shape: "runtime_shape rt" and ok: "assertWorkflowNodeLaunchable rt i t = Inr r"
  shows "node_ready rt i" and "futureEvidence rt i t = []" and "run_of rt i = Some r"
    and "capacity rt \<Longrightarrow> fits_limits rt (active_ids rt @ [i])"
proof -
  from ok obtain d where d: "evaluateNodeReadiness rt i = Inr d" by (auto simp: assertWorkflowNodeLaunchable_def res_bind_eq_Inr)
  obtain rs where rs: "activeReservation rt = Inr rs" "reserves rt rs (active_ids rt)"
    using activeReservation_reserves [OF shape] by blast
  from ok d have "rd_disposition d = NodeReady" "futureEvidence rt i t = []"
    by (auto simp: assertWorkflowNodeLaunchable_def split: if_splits)
  with d ok rs(1) obtain n where n: "nodeById rt i = Inr n" "fitsReservation rt rs n" "run_of rt i = Some r"
    by (auto simp: assertWorkflowNodeLaunchable_def res_bind_eq_Inr split: if_splits option.splits)
  show "node_ready rt i" using d \<open>rd_disposition d = NodeReady\<close> by (simp add: node_ready_def)
  show "futureEvidence rt i t = []" and "run_of rt i = Some r" by fact+
  show "fits_limits rt (active_ids rt @ [i])" if "capacity rt"
    using fitsReservation_iff [OF shape rs(2) n(1)] n(2) that by (simp add: capacity_def)
qed

lemma node_ready_pending: "node_ready rt i \<Longrightarrow> is_pending rt i"
  by (auto simp: node_ready_def split: sum.splits intro: blocked_pending(1))

lemma start_transition_status [simp]: "tr_status (start_transition e t) = Running"
  by (cases e) simp_all

lemma active_ids_insert:
  assumes shape: "runtime_shape rt" and ev: "evolves rt rt'" and i: "run_of rt i \<noteq> None" "\<not> active_at rt i" "active_at rt' i"
    and others: "\<And>j. j \<noteq> i \<Longrightarrow> active_at rt' j = active_at rt j"
  shows "\<exists>as bs. active_ids rt = as @ bs \<and> active_ids rt' = as @ i # bs"
proof -
  have keys: "obj_keys (node_runs rt') = obj_keys (node_runs rt)" using ev by (simp add: evolves_def)
  have "i \<in> set (obj_keys (node_runs rt))" using i(1) by (simp add: run_of_def obj_get_eq_None_iff)
  then obtain as bs where split: "obj_keys (node_runs rt) = as @ i # bs" by (auto dest: split_list)
  have "distinct (obj_keys (node_runs rt))" using shape by (simp add: runtime_shape_def obj_ok_keys)
  then have "i \<notin> set as" "i \<notin> set bs" by (simp_all add: split)
  moreover have "filter (active_at rt') js = filter (active_at rt) js" if "i \<notin> set js" for js
    using that others by (metis filter_cong)
  ultimately show ?thesis using i(2,3) by (auto simp: active_ids_def keys split)
qed

lemma capacity_insert:
  assumes shape: "runtime_shape rt" and ev: "evolves rt rt'" and i: "run_of rt i \<noteq> None" "\<not> active_at rt i" "active_at rt' i"
    and others: "\<And>j. j \<noteq> i \<Longrightarrow> active_at rt' j = active_at rt j"
    and fits: "fits_limits rt (active_ids rt @ [i])"
  shows "capacity rt'"
proof -
  obtain as bs where "active_ids rt = as @ bs" "active_ids rt' = as @ i # bs"
    using active_ids_insert [OF assms(1-6)] by blast
  moreover have "node_requirements rt' = node_requirements rt" "rt_canvas rt' = rt_canvas rt"
    using ev by (auto simp: evolves_def node_requirements_def)
  ultimately show ?thesis
    using fits unfolding capacity_def by (simp only: within_limits_insert within_limits_insert [of _ _ "as @ bs" i "[]", simplified]) simp
qed

lemma startWorkflowNode_facts:
  assumes shape: "runtime_shape rt" and start: "startWorkflowNode rt i execution t = Inr rt'"
  shows "evolves rt rt'" and "only_node_runs rt rt'"
    and "\<exists>r r'. run_of rt i = Some r \<and> transitionNodeRun r (start_transition execution t) = Inr r' \<and> run_of rt' i = Some r'"
    and "j \<noteq> i \<Longrightarrow> run_of rt' j = run_of rt j"
    and "node_ready rt i" and "futureEvidence rt i t = []" and "capacity rt \<Longrightarrow> capacity rt'"
proof -
  from start obtain r r' where r: "assertWorkflowNodeLaunchable rt i t = Inr r"
    "transitionNodeRun r (start_transition execution t) = Inr r'" "replace_node_run rt i r' t = Inr rt'"
    by (auto simp: startWorkflowNode_def res_bind_eq_Inr)
  note launch = assertWorkflowNodeLaunchable_Inr [OF shape r(1)]
  note put = replace_node_run_facts [OF r(3) launch(3) transition_attempt [OF r(2)]]
  show ev: "evolves rt rt'" and "only_node_runs rt rt'" by (rule put)+
  show "\<exists>r r'. run_of rt i = Some r \<and> transitionNodeRun r (start_transition execution t) = Inr r' \<and> run_of rt' i = Some r'"
    using launch(3) r(2) put(3) [of i] by auto
  show other: "run_of rt' j = run_of rt j" if "j \<noteq> i" for j using put(3) [of j] that by simp
  show "node_ready rt i" and "futureEvidence rt i t = []" by (rule launch)+
  show "capacity rt'" if "capacity rt"
  proof (rule capacity_insert [OF shape ev])
    show "run_of rt i \<noteq> None" using launch(3) by simp
    show "\<not> active_at rt i" using node_ready_pending [OF launch(1)] launch(3) by (auto simp: is_pending_def active_at_def)
    show "active_at rt' i" using put(3) [of i] transitionNodeRun_InrD(4) [OF r(2)] by (simp add: active_at_def)
    show "active_at rt' j = active_at rt j" if "j \<noteq> i" for j using other [OF that] by (simp add: active_at_def)
    show "fits_limits rt (active_ids rt @ [i])" using launch(4) that .
  qed
qed

interpretation starting: run_operation "\<lambda>rt. startWorkflowNode rt i execution t" for i execution t
  by unfold_locales (rule startWorkflowNode_facts(1))

text \<open>
  C23. A node starts only when it is ready, no evidence on its incoming edges is dated after the start,
  and it fits beside the active nodes: capacity stays respected. It runs in the same attempt with
  exactly the given execution reference, and no other node run changes.
\<close>

theorem startWorkflowNode_correct:
  assumes shape: "runtime_shape rt" and start: "startWorkflowNode rt i execution t = Inr rt'"
  shows "node_ready rt i \<and> futureEvidence rt i t = [] \<and> (capacity rt \<longrightarrow> capacity rt')
    \<and> (\<exists>r r'. run_of rt i = Some r \<and> run_of rt' i = Some r' \<and> nr_status r' = Running \<and> nr_attempt r' = nr_attempt r
         \<and> (case execution of ProcessExecution p \<Rightarrow> nr_process r' = Some p
            | InternalExecution e \<Rightarrow> nr_internalExecution r' = Some e))
    \<and> (\<forall>j. j \<noteq> i \<longrightarrow> run_of rt' j = run_of rt j) \<and> evolves rt rt' \<and> only_node_runs rt rt'"
proof -
  note facts = startWorkflowNode_facts [OF shape start]
  obtain r r' where r: "run_of rt i = Some r" "run_of rt' i = Some r'"
    and tr: "transitionNodeRun r (start_transition execution t) = Inr r'" using facts(3) by blast
  have "case execution of ProcessExecution p \<Rightarrow> nr_process r' = Some p | InternalExecution e \<Rightarrow> nr_internalExecution r' = Some e"
    using tr by (cases execution) (auto simp: transitionNodeRun_def Let_def plain_transition_def split: if_splits)
  then show ?thesis
    using facts r transitionNodeRun_InrD(4,5) [OF tr] by simp
qed

section \<open>Failing before launch\<close>

lemma runtime_shape_run:
  assumes "runtime_shape rt" and "run_of rt i = Some r"
  shows "NodeRunState_ok r" and "nr_nodeId r = i"
proof -
  have "WorkflowRun_ok (rt_run rt)" "(i, r) \<in> set (node_runs rt)"
    using assms by (simp_all add: runtime_shape_def run_of_def obj_get_eq_Some_in)
  then show "NodeRunState_ok r" and "nr_nodeId r = i" using WorkflowRun_okD(1,2) by blast+
qed

text \<open>Settling after another change: the changed run stays, the others may be cancelled.\<close>

lemma settled_after:
  assumes shape: "runtime_shape rt" and settle: "settleBlockedWorkflowNodes rt t = Inr rt'"
    and r: "run_of rt i = Some r" "nr_status r \<noteq> Queued" "nr_status r \<noteq> WaitingForApproval"
  shows "evolves rt rt'" and "only_node_runs rt rt'" and "run_of rt' i = Some r"
    and "run_of rt' j = run_of rt j \<or> is_pending rt j \<and> (\<exists>r'. run_of rt' j = Some r' \<and> nr_status r' = Cancelled)"
    and "isTerminalRunStatus (wr_status (rt_run rt')) \<or> nothing_to_settle rt'"
    and "starts_nothing rt rt'"
proof -
  have facts: "settles rt rt'" "isTerminalRunStatus (wr_status (rt_run rt')) \<or> nothing_to_settle rt'"
    using settleBlocked_settles [OF shape settle] by blast+
  then show "evolves rt rt'" and "only_node_runs rt rt'"
    and "run_of rt' j = run_of rt j \<or> is_pending rt j \<and> (\<exists>r'. run_of rt' j = Some r' \<and> nr_status r' = Cancelled)"
    and "isTerminalRunStatus (wr_status (rt_run rt')) \<or> nothing_to_settle rt'"
    unfolding settles_def by blast+
  have "\<not> is_pending rt i" using r by (simp add: is_pending_def)
  with facts(1) r(1) show "run_of rt' i = Some r" unfolding settles_def by metis
  show "starts_nothing rt rt'" using settling.idle [OF shape settle] .
qed

text \<open>The other node runs after an operation: unchanged, or pending and now cancelled.\<close>

definition others_settled :: "runtime \<Rightarrow> string \<Rightarrow> runtime \<Rightarrow> bool" where
  "others_settled rt i rt' =
     (\<forall>j. j \<noteq> i \<longrightarrow> run_of rt' j = run_of rt j
        \<or> is_pending rt j \<and> (\<exists>r'. run_of rt' j = Some r' \<and> nr_status r' = Cancelled))"

text \<open>The runtime before settling: nothing but the run of this node has moved.\<close>

definition only_moved :: "runtime \<Rightarrow> string \<Rightarrow> runtime \<Rightarrow> bool" where
  "only_moved rt i rt' =
     (evolves rt rt' \<and> only_node_runs rt rt' \<and> (\<forall>j. j \<noteq> i \<longrightarrow> run_of rt' j = run_of rt j))"

lemma put_then_settle:
  assumes shape: "runtime_shape rt" and r: "run_of rt i = Some r" "nr_attempt r \<le> nr_attempt next"
    and put: "replace_node_run rt i next t = Inr rt1"
    and fin: "isTerminalRunStatus (nr_status next)"
    and loops: "rt2 = rt1\<lparr> rt_evidence := ev, rt_activeRevisionLoopIds := active \<rparr>"
    and settle: "settleBlockedWorkflowNodes rt2 t = Inr rt'"
  shows "evolves rt rt'" and "starts_nothing rt rt'" and "run_of rt' i = Some next" and "others_settled rt i rt'"
    and "rt_evidence rt' = ev" and "rt_activeRevisionLoopIds rt' = active"
    and "rt_cancellationRequested rt' = rt_cancellationRequested rt"
    and "wr_revisionLoops (rt_run rt') = wr_revisionLoops (rt_run rt)"
    and "isTerminalRunStatus (wr_status (rt_run rt')) \<or> nothing_to_settle rt'"
    and "only_moved rt i (rt2\<lparr> rt_evidence := rt_evidence rt, rt_activeRevisionLoopIds := rt_activeRevisionLoopIds rt \<rparr>)"
    and "run_of rt2 i = Some next" and "\<exists>n. settles_in_rounds t n rt2 rt'"
proof -
  note facts = replace_node_run_facts [OF put r]
  have run2: "run_of rt2 j = (if j = i then Some next else run_of rt j)" for j
    using facts(3) [of j] by (simp add: loops run_of_def)
  have ev2: "evolves rt rt2" using facts(1) run2 r by (auto simp: evolves_def loops)
  have shape2: "runtime_shape rt2" using shape ev2 by (rule evolves_shape)
  have "run_of rt2 i = Some next" "nr_status next \<noteq> Queued" "nr_status next \<noteq> WaitingForApproval"
    using run2 fin by auto
  note after = settled_after [OF shape2 settle this]
  show "evolves rt rt'" using ev2 after(1) by (rule evolves_trans)
  have "starts_nothing rt rt2"
    using fin by (auto simp: starts_nothing_def active_at_def run2 dest: active_not_terminal)
  then show "starts_nothing rt rt'" using after(6) by (rule starts_nothing_trans)
  show "run_of rt' i = Some next" by (rule after(3))
  show "others_settled rt i rt'"
    unfolding others_settled_def
  proof (intro allI impI)
    fix j assume "j \<noteq> i"
    then have "run_of rt2 j = run_of rt j" "is_pending rt2 j = is_pending rt j" by (simp_all add: run2 is_pending_def)
    with after(4) [of j] show "run_of rt' j = run_of rt j
        \<or> is_pending rt j \<and> (\<exists>r'. run_of rt' j = Some r' \<and> nr_status r' = Cancelled)" by simp
  qed
  show "rt_evidence rt' = ev" "rt_activeRevisionLoopIds rt' = active"
    "rt_cancellationRequested rt' = rt_cancellationRequested rt"
    "wr_revisionLoops (rt_run rt') = wr_revisionLoops (rt_run rt)"
    using facts(2) after(2) by (simp_all add: only_node_runs_def loops)
  show "isTerminalRunStatus (wr_status (rt_run rt')) \<or> nothing_to_settle rt'" by (rule after(5))
  have "rt2\<lparr> rt_evidence := rt_evidence rt, rt_activeRevisionLoopIds := rt_activeRevisionLoopIds rt \<rparr> = rt1"
    using facts(2) by (simp add: loops only_node_runs_def)
  then show "only_moved rt i (rt2\<lparr> rt_evidence := rt_evidence rt, rt_activeRevisionLoopIds := rt_activeRevisionLoopIds rt \<rparr>)"
    using facts by (simp add: only_moved_def)
  show "run_of rt2 i = Some next" using run2 [of i] by simp
  show "\<exists>n. settles_in_rounds t n rt2 rt'" using settleBlocked_rounds [OF shape2 settle] by blast
qed

lemma failWorkflowNodeBeforeLaunch_InrE:
  assumes shape: "runtime_shape rt" and fail: "failWorkflowNodeBeforeLaunch rt i f t = Inr rt'"
  obtains r r' rt1 where "run_of rt i = Some r" "nr_status r = Queued" "node_ready rt i"
    and "nr_status r' = Failed" "nr_attempt r' = nr_attempt r" "nr_failureCode r' = Some (pf_failureCode f)"
    and "nr_startedAt r' = None" "nr_process r' = None" "nr_internalExecution r' = None"
    and "replace_node_run rt i r' t = Inr rt1" "settleBlockedWorkflowNodes rt1 t = Inr rt'"
proof -
  from fail obtain r where r: "run_of rt i = Some r" "nr_status r = Queued"
    by (auto simp: failWorkflowNodeBeforeLaunch_def split: option.splits if_splits)
  let ?failed = "\<lparr> nr_nodeId = nr_nodeId r, nr_status = Failed, nr_attempt = nr_attempt r,
      nr_queuedAt = nr_queuedAt r, nr_startedAt = None, nr_endedAt = Some t, nr_process = None,
      nr_internalExecution = None, nr_resumable = nr_resumable r,
      nr_failureCode = Some (pf_failureCode f), nr_statusReason = Some (pf_reason f) \<rparr>"
  from fail r obtain r0 rt1 where "assertWorkflowNodeLaunchable rt i t = Inr r0"
    and rt1: "replace_node_run rt i ?failed t = Inr rt1" "settleBlockedWorkflowNodes rt1 t = Inr rt'"
    by (auto simp: failWorkflowNodeBeforeLaunch_def res_bind_eq_Inr)
  then have "node_ready rt i" using assertWorkflowNodeLaunchable_Inr(1) [OF shape] by blast
  then show ?thesis by (rule that [OF r _ _ _ _ _ _ _ rt1]) simp_all
qed

lemma with_active_loops: "rt = rt\<lparr> rt_evidence := rt_evidence rt, rt_activeRevisionLoopIds := rt_activeRevisionLoopIds rt \<rparr>"
  by simp

interpretation prelaunch: idle_operation "\<lambda>rt. failWorkflowNodeBeforeLaunch rt i f t" for i f t
proof
  fix rt rt' :: runtime
  assume shape: "runtime_shape rt" and "failWorkflowNodeBeforeLaunch rt i f t = Inr rt'"
  then obtain r r' rt1 where "run_of rt i = Some r" "nr_status r' = Failed" "nr_attempt r' = nr_attempt r"
    "replace_node_run rt i r' t = Inr rt1" "settleBlockedWorkflowNodes rt1 t = Inr rt'"
    by (rule failWorkflowNodeBeforeLaunch_InrE)
  then show "evolves rt rt'" and "starts_nothing rt rt'"
    using put_then_settle(1,2) [OF shape _ _ _ _ with_active_loops, of i r r' t rt1 rt'] by simp_all
qed

text \<open>
  Only a queued node that could have been launched can fail before launch. It fails in its attempt
  with the given code and without ever having started; the other node runs are unchanged or, when
  the failure blocks them for good, cancelled.
\<close>

theorem failWorkflowNodeBeforeLaunch_correct:
  assumes shape: "runtime_shape rt" and fail: "failWorkflowNodeBeforeLaunch rt i f t = Inr rt'"
  shows "node_ready rt i \<and> others_settled rt i rt'
    \<and> (\<exists>r r'. run_of rt i = Some r \<and> nr_status r = Queued \<and> run_of rt' i = Some r' \<and> nr_status r' = Failed
         \<and> nr_attempt r' = nr_attempt r \<and> nr_failureCode r' = Some (pf_failureCode f) \<and> nr_startedAt r' = None)
    \<and> evolves rt rt' \<and> starts_nothing rt rt'"
proof -
  from shape fail obtain r r' rt1 where r: "run_of rt i = Some r" "nr_status r = Queued" "node_ready rt i"
    and r': "nr_status r' = Failed" "nr_attempt r' = nr_attempt r" "nr_failureCode r' = Some (pf_failureCode f)" "nr_startedAt r' = None"
    and rt1: "replace_node_run rt i r' t = Inr rt1" "settleBlockedWorkflowNodes rt1 t = Inr rt'"
    by (rule failWorkflowNodeBeforeLaunch_InrE)
  note facts = put_then_settle [OF shape r(1) _ rt1(1) _ with_active_loops rt1(2)]
  show ?thesis using facts(1-4) r r' by simp
qed

section \<open>Completion\<close>

fun completion_status :: "node_completion \<Rightarrow> run_status" where
  "completion_status CompletedSucceeded = Succeeded"
| "completion_status (CompletedFailed _ _) = Failed"
| "completion_status (CompletedLost _ _) = Lost"
| "completion_status (CompletedCancelled _) = Cancelled"

lemma completion_status_terminal [simp]: "isTerminalRunStatus (completion_status c)"
  by (cases c) simp_all

lemma completion_transition_status [simp]: "tr_status (completion_transition c t) = completion_status c"
  by (cases c) simp_all

lemma before_completion_facts:
  assumes "before_completion c r t = Inr r1"
  shows "nr_attempt r1 = nr_attempt r" and "nr_status r1 = nr_status r \<or> nr_status r = Running \<and> nr_status r1 = Cancelling"
  using assms
  by (cases c; auto simp: transitionNodeRun_InrD(4,5) split: if_splits)+

definition waits_for_assessment :: "runtime \<Rightarrow> string \<Rightarrow> node_completion \<Rightarrow> bool" where
  "waits_for_assessment rt i c = (c = CompletedSucceeded \<and> agent_reviews rt i \<noteq> [])"

lemma completeWorkflowNode_gate:
  assumes "completeWorkflowNode rt i CompletedSucceeded t = Inr rt'" and "find_node rt i = Some n"
    and "is_ReviewGateNode (node_data n)"
  shows "\<exists>g. reviewGateEvaluation rt i = Inr g \<and> ge_status g = GatePass"
  using assms
  by (auto simp: completeWorkflowNode_def res_bind_eq_Inr nodeById_def gate_may_succeed_def split: option.splits)

lemma completeWorkflowNode_waiting:
  assumes "completeWorkflowNode rt i c t = Inr rt'" and "waits_for_assessment rt i c"
  obtains r r' where "run_of rt i = Some r" "nr_attempt r' = nr_attempt r" "nr_status r' = WaitingForApproval"
    and "nr_status r \<in> {Queued, Running}" "replace_node_run rt i r' t = Inr rt'"
proof -
  from assms obtain r r' where r: "run_of rt i = Some r" "replace_node_run rt i r' t = Inr rt'"
    and tr: "transitionNodeRun r (plain_transition WaitingForApproval t
        (Some ''The reviewer finished and is waiting for its review to be recorded'') None) = Inr r'"
    by (auto simp: completeWorkflowNode_def waits_for_assessment_def res_bind_eq_Inr split: option.splits)
  have "nr_status r \<in> {Queued, Running}"
    using transitionNodeRun_InrD(1) [OF tr] by (cases "nr_status r") (auto simp: canTransitionRun_def)
  with r show ?thesis using transitionNodeRun_InrD(4,5) [OF tr] by (intro that) simp_all
qed

lemma completeWorkflowNode_finished:
  assumes "completeWorkflowNode rt i c t = Inr rt'" and "\<not> waits_for_assessment rt i c"
  obtains r r' rt1 where "run_of rt i = Some r" "nr_attempt r' = nr_attempt r" "nr_status r' = completion_status c"
    and "replace_node_run rt i r' t = Inr rt1"
    and "settleBlockedWorkflowNodes (close_active_loop rt i c rt1) t = Inr rt'"
    and "c = CompletedSucceeded \<longrightarrow> nr_status r = Running"
proof -
  from assms(2) have no: "(c = CompletedSucceeded \<and> agent_reviews rt i \<noteq> []) = False" by (simp add: waits_for_assessment_def)
  from assms(1) no obtain r r1 r' rt1 where r: "run_of rt i = Some r" "replace_node_run rt i r' t = Inr rt1"
      "settleBlockedWorkflowNodes (close_active_loop rt i c rt1) t = Inr rt'"
    and b: "before_completion c r t = Inr r1" and tr: "transitionNodeRun r1 (completion_transition c t) = Inr r'"
    by (auto simp: completeWorkflowNode_def res_bind_eq_Inr simp del: before_completion.simps split: option.splits)
  have "c = CompletedSucceeded \<longrightarrow> nr_status r = Running"
    using b transitionNodeRun_InrD(1) [OF tr] by (cases "nr_status r") (auto simp: canTransitionRun_def)
  moreover have "nr_attempt r' = nr_attempt r"
    using transitionNodeRun_InrD(5) [OF tr] before_completion_facts(1) [OF b] by (cases c) simp_all
  ultimately show ?thesis
    using r transitionNodeRun_InrD(4) [OF tr] by (intro that) simp_all
qed

lemma close_active_loop_update:
  "close_active_loop rt i c rt1 =
     rt1\<lparr> rt_evidence := rt_evidence rt1, rt_activeRevisionLoopIds := rt_activeRevisionLoopIds (close_active_loop rt i c rt1) \<rparr>"
  by (auto simp: close_active_loop_def split: option.split)

text \<open>
  After a completion: an awaited assessment moves nothing else; otherwise, with the run of the node moved and the
  loop closed whose implementation succeeded, the rounds of settling follow.
\<close>

definition still_active :: "runtime \<Rightarrow> string \<Rightarrow> node_completion \<Rightarrow> string list" where
  "still_active rt i c =
     (case find (\<lambda>l. loop_implementationNodeId l = i \<and> loop_id l \<in> set (rt_activeRevisionLoopIds rt))
             (canvas_revisionLoops (rt_canvas rt)) of
        None \<Rightarrow> rt_activeRevisionLoopIds rt
      | Some l \<Rightarrow> if c = CompletedSucceeded then filter (\<lambda>k. k \<noteq> loop_id l) (rt_activeRevisionLoopIds rt)
                  else rt_activeRevisionLoopIds rt)"

definition completion_settled :: "runtime \<Rightarrow> string \<Rightarrow> node_completion \<Rightarrow> timestamp \<Rightarrow> runtime \<Rightarrow> bool" where
  "completion_settled rt i c t rt' =
     (if waits_for_assessment rt i c then only_moved rt i rt'
      else (\<exists>moved. only_moved rt i (moved\<lparr> rt_activeRevisionLoopIds := rt_activeRevisionLoopIds rt \<rparr>)
             \<and> run_of moved i = run_of rt' i \<and> rt_activeRevisionLoopIds moved = still_active rt i c
             \<and> (\<exists>n. settles_in_rounds t n moved rt')
             \<and> (isTerminalRunStatus (wr_status (rt_run rt')) \<or> (\<forall>j. \<not> blocked_for_good rt' j))))"

lemma close_active_loop_ids:
  "rt_activeRevisionLoopIds rt1 = rt_activeRevisionLoopIds rt
    \<Longrightarrow> rt_activeRevisionLoopIds (close_active_loop rt i c rt1) = still_active rt i c"
  by (auto simp: close_active_loop_def still_active_def active_loop_of_def split: option.splits)

lemma completeWorkflowNode_moves:
  assumes shape: "runtime_shape rt" and complete: "completeWorkflowNode rt i c t = Inr rt'"
  shows "evolves rt rt'" and "starts_nothing rt rt'" and "others_settled rt i rt'"
    and "\<exists>r r'. run_of rt i = Some r \<and> run_of rt' i = Some r' \<and> nr_attempt r' = nr_attempt r
      \<and> nr_status r' = (if waits_for_assessment rt i c then WaitingForApproval else completion_status c)
      \<and> (c = CompletedSucceeded \<and> \<not> waits_for_assessment rt i c \<longrightarrow> nr_status r = Running)"
    and "rt_evidence rt' = rt_evidence rt" and "wr_revisionLoops (rt_run rt') = wr_revisionLoops (rt_run rt)"
    and "set (rt_activeRevisionLoopIds rt') \<subseteq> set (rt_activeRevisionLoopIds rt)"
    and "completion_settled rt i c t rt'"
proof -
  have "completion_settled rt i c t rt' \<and> evolves rt rt' \<and> starts_nothing rt rt' \<and> others_settled rt i rt'
    \<and> (\<exists>r r'. run_of rt i = Some r \<and> run_of rt' i = Some r' \<and> nr_attempt r' = nr_attempt r
      \<and> nr_status r' = (if waits_for_assessment rt i c then WaitingForApproval else completion_status c)
      \<and> (c = CompletedSucceeded \<and> \<not> waits_for_assessment rt i c \<longrightarrow> nr_status r = Running))
    \<and> rt_evidence rt' = rt_evidence rt \<and> wr_revisionLoops (rt_run rt') = wr_revisionLoops (rt_run rt)
    \<and> set (rt_activeRevisionLoopIds rt') \<subseteq> set (rt_activeRevisionLoopIds rt)"
  proof (cases "waits_for_assessment rt i c")
    case True
    with complete obtain r r' where r: "run_of rt i = Some r" "nr_attempt r' = nr_attempt r" "nr_status r' = WaitingForApproval"
      and put: "replace_node_run rt i r' t = Inr rt'" by (rule completeWorkflowNode_waiting)
    have le: "nr_attempt r \<le> nr_attempt r'" using r(2) by simp
    note facts = replace_node_run_facts [OF put r(1) le]
    have "starts_nothing rt rt'" using r(3) by (simp add: starts_nothing_def active_at_def facts(3))
    moreover have "others_settled rt i rt'" by (simp add: others_settled_def facts(3))
    moreover have "run_of rt' i = Some r'" by (simp add: facts(3))
    moreover have "completion_settled rt i c t rt'"
      using facts by (simp add: completion_settled_def True only_moved_def)
    ultimately show ?thesis using facts(1,2) r True by (simp add: only_node_runs_def)
  next
    case False
    with complete obtain r r' rt1 where r: "run_of rt i = Some r" "nr_attempt r' = nr_attempt r" "nr_status r' = completion_status c"
      and rt1: "replace_node_run rt i r' t = Inr rt1" "settleBlockedWorkflowNodes (close_active_loop rt i c rt1) t = Inr rt'"
      and running: "c = CompletedSucceeded \<longrightarrow> nr_status r = Running" by (rule completeWorkflowNode_finished)
    have le: "nr_attempt r \<le> nr_attempt r'" and fin: "isTerminalRunStatus (nr_status r')" using r by simp_all
    note facts = put_then_settle [OF shape r(1) le rt1(1) fin close_active_loop_update rt1(2)]
    have "rt_activeRevisionLoopIds rt1 = rt_activeRevisionLoopIds rt" "rt_evidence rt1 = rt_evidence rt"
      using replace_node_run_facts(2) [OF rt1(1) r(1) le] by (simp_all add: only_node_runs_def)
    moreover from this have "set (rt_activeRevisionLoopIds (close_active_loop rt i c rt1)) \<subseteq> set (rt_activeRevisionLoopIds rt)"
      by (auto simp: close_active_loop_def split: option.splits)
    moreover have "completion_settled rt i c t rt'"
      unfolding completion_settled_def
    proof (simp only: False if_False, intro conjI exI [of _ "close_active_loop rt i c rt1"])
      show "rt_activeRevisionLoopIds (close_active_loop rt i c rt1) = still_active rt i c"
        using \<open>rt_activeRevisionLoopIds rt1 = rt_activeRevisionLoopIds rt\<close> by (simp add: close_active_loop_ids)
      show "isTerminalRunStatus (wr_status (rt_run rt')) \<or> (\<forall>j. \<not> blocked_for_good rt' j)"
        using facts(9) nothing_blocked_for_good by blast
      have "rt_evidence (close_active_loop rt i c rt1) = rt_evidence rt"
        using \<open>rt_evidence rt1 = rt_evidence rt\<close> by (subst close_active_loop_update) simp
      then have "close_active_loop rt i c rt1\<lparr> rt_evidence := rt_evidence rt \<rparr> = close_active_loop rt i c rt1" by simp
      with facts(10) show "only_moved rt i (close_active_loop rt i c rt1\<lparr> rt_activeRevisionLoopIds := rt_activeRevisionLoopIds rt \<rparr>)"
        by simp
    qed (use facts(3,11,12) in simp_all)
    ultimately show ?thesis using facts(1-8) r False running by simp
  qed
  then show "evolves rt rt'" and "starts_nothing rt rt'" and "others_settled rt i rt'"
    and "\<exists>r r'. run_of rt i = Some r \<and> run_of rt' i = Some r' \<and> nr_attempt r' = nr_attempt r
      \<and> nr_status r' = (if waits_for_assessment rt i c then WaitingForApproval else completion_status c)
      \<and> (c = CompletedSucceeded \<and> \<not> waits_for_assessment rt i c \<longrightarrow> nr_status r = Running)"
    and "rt_evidence rt' = rt_evidence rt" and "wr_revisionLoops (rt_run rt') = wr_revisionLoops (rt_run rt)"
    and "set (rt_activeRevisionLoopIds rt') \<subseteq> set (rt_activeRevisionLoopIds rt)"
    and "completion_settled rt i c t rt'"
    by blast+
qed

interpretation completing: idle_operation "\<lambda>rt. completeWorkflowNode rt i c t" for i c t
  by unfold_locales (rule completeWorkflowNode_moves(1,2); assumption)+

text \<open>
  C24. Completing a node moves that node, in its attempt: a node with an agent review edge that
  reports success waits for the recorded assessment and never succeeds directly, any other node ends
  with the reported status, success only from \<open>running\<close>. A review gate succeeds only while its
  evaluation passes. When an assessment is awaited no other node run changes; otherwise the loop whose
  implementation succeeded stops being active, and then exactly the rounds of settling follow: the only other node
  runs that change are pending ones blocked for good, which are cancelled, and none such is left in a live run.
\<close>

theorem completeWorkflowNode_correct:
  assumes shape: "runtime_shape rt" and complete: "completeWorkflowNode rt i c t = Inr rt'"
  shows "(\<exists>r r'. run_of rt i = Some r \<and> run_of rt' i = Some r' \<and> nr_attempt r' = nr_attempt r
      \<and> nr_status r' = (if waits_for_assessment rt i c then WaitingForApproval else completion_status c)
      \<and> (c = CompletedSucceeded \<and> \<not> waits_for_assessment rt i c \<longrightarrow> nr_status r = Running))
    \<and> (c = CompletedSucceeded \<and> (\<exists>n. find_node rt i = Some n \<and> is_ReviewGateNode (node_data n))
        \<longrightarrow> (\<exists>g. reviewGateEvaluation rt i = Inr g \<and> ge_status g = GatePass))
    \<and> completion_settled rt i c t rt' \<and> others_settled rt i rt' \<and> evolves rt rt' \<and> starts_nothing rt rt'
    \<and> rt_evidence rt' = rt_evidence rt"
  using completeWorkflowNode_moves [OF assms] completeWorkflowNode_gate complete by blast

section \<open>Waiting for approvals\<close>

definition approval_change :: "runtime \<Rightarrow> string \<Rightarrow> node_run \<Rightarrow> node_run \<Rightarrow> bool" where
  "approval_change rt k r r' =
     (r' = r
      \<or> nr_status r = Queued \<and> nr_status r' = WaitingForApproval \<and> nr_attempt r' = nr_attempt r
        \<and> (\<exists>d. evaluateNodeReadiness rt k = Inr d \<and> rd_disposition d = NodeWaitingForApproval))"

lemma approval_entry_change:
  assumes "approval_entry rt t (k, r) = Inr ((k', r'), b)"
  shows "k' = k \<and> approval_change rt k r r'"
  using assms
  by (auto simp: approval_entry_def approval_change_def res_bind_eq_Inr transitionNodeRun_InrD(4,5) split: if_splits)

lemma markWaitingForApprovals_facts:
  assumes shape: "runtime_shape rt" and mark: "markWaitingForApprovals rt t = Inr rt'"
  shows "evolves rt rt'" and "starts_nothing rt rt'" and "only_node_runs rt rt'"
    and "run_of rt i = Some r \<Longrightarrow> \<exists>r'. run_of rt' i = Some r' \<and> approval_change rt i r r'"
proof -
  from mark obtain results where res: "map_res (approval_entry rt t) (node_runs rt) = Inr results"
    and rt': "if list_ex snd results then replaceRunState rt (obj_from (map fst results)) t = Inr rt' else rt' = rt"
    by (auto simp: markWaitingForApprovals_def res_bind_eq_Inr split: if_splits)
  have "list_all2 (\<lambda>e x. approval_entry rt t e = Inr x) (node_runs rt) results"
    using res by (simp add: map_res_Inr_list_all2)
  then have rel: "list_all2 (\<lambda>(k, r) (k', r'). k' = k \<and> approval_change rt k r r') (node_runs rt) (map fst results)"
    unfolding list_all2_map2 by (rule list_all2_mono) (auto dest: approval_entry_change)
  have keys: "obj_keys (map fst results) = obj_keys (node_runs rt)" using obj_get_list_all2(1) [OF rel] .
  then have from_results: "obj_from (map fst results) = map fst results"
    using shape by (intro obj_from_distinct) (simp add: runtime_shape_def obj_ok_keys obj_keys_def)
  have changed: "run_of rt i = Some r \<Longrightarrow> \<exists>r'. obj_get (map fst results) i = Some r' \<and> approval_change rt i r r'" for i r
    using obj_get_list_all2(2) [OF rel, of i] by (auto simp: run_of_def option_rel_Some1)
  have "evolves rt rt' \<and> starts_nothing rt rt' \<and> only_node_runs rt rt'
      \<and> (\<forall>i r. run_of rt i = Some r \<longrightarrow> (\<exists>r'. run_of rt' i = Some r' \<and> approval_change rt i r r'))"
  proof (cases "list_ex snd results")
    case False
    with rt' show ?thesis using shape by (auto simp: evolves_refl approval_change_def)
  next
    case True
    with rt' have eq: "replaceRunState rt (map fst results) t = Inr rt'" by (simp add: from_results)
    note run = replaceRunState_run_of [OF eq]
    have "evolves rt rt'"
      using changed by (intro replaceRunState_evolves [OF eq keys]) (fastforce simp: approval_change_def)
    moreover have "starts_nothing rt rt'"
      unfolding starts_nothing_def
    proof (intro allI impI)
      fix i assume act: "active_at rt' i"
      then have "i \<in> set (obj_keys (node_runs rt))"
        using obj_get_eq_None_iff [of "map fst results" i] by (auto simp: active_at_def run keys split: option.splits)
      then obtain r where r: "run_of rt i = Some r"
        using obj_get_eq_None_iff [of "node_runs rt" i] by (auto simp: run_of_def)
      from changed [OF r] act r show "active_at rt i" by (auto simp: active_at_def run approval_change_def)
    qed
    ultimately show ?thesis using replaceRunState_only [OF eq] changed run by simp
  qed
  then show "evolves rt rt'" and "starts_nothing rt rt'" and "only_node_runs rt rt'"
    and "run_of rt i = Some r \<Longrightarrow> \<exists>r'. run_of rt' i = Some r' \<and> approval_change rt i r r'" by blast+
qed

interpretation marking: idle_operation "\<lambda>rt. markWaitingForApprovals rt t" for t
  by unfold_locales (rule markWaitingForApprovals_facts(1,2); assumption)+

section \<open>Cancellation and recovery\<close>

lemma evolves_of_run:
  assumes run': "run' = (rt_run rt)\<lparr> wr_nodeRuns := runs, wr_status := st, wr_updatedAt := t, wr_endedAt := e \<rparr>"
    and ok: "WorkflowRun_ok run'"
    and rel: "list_all2 (\<lambda>(k, r) (k', r'). k' = k \<and> nr_attempt r \<le> nr_attempt r'
      \<and> (isActiveStatus (nr_status r') \<longrightarrow> isActiveStatus (nr_status r))) (node_runs rt) runs"
    and rt': "rt_canvas rt' = rt_canvas rt" "rt_plan rt' = rt_plan rt" "rt_run rt' = run'"
  shows "evolves rt rt'" and "starts_nothing rt rt'"
proof -
  have rel': "list_all2 (\<lambda>(k, r) (k', r'). k' = k \<and> (nr_attempt r \<le> nr_attempt r'
      \<and> (isActiveStatus (nr_status r') \<longrightarrow> isActiveStatus (nr_status r)))) (node_runs rt) (node_runs rt')"
    using rel by (simp add: rt'(3) run')
  note origin = run_of_list_all2(2) [OF rel']
  show "starts_nothing rt rt'"
    unfolding starts_nothing_def active_at_def using origin by (fastforce split: option.splits)
  have "\<forall>i r r'. run_of rt i = Some r \<and> run_of rt' i = Some r' \<longrightarrow> nr_attempt r \<le> nr_attempt r'"
    using origin by fastforce
  then show "evolves rt rt'"
    using ok obj_get_list_all2(1) [OF rel'] by (simp add: evolves_def rt' run')
qed

lemma requestWorkflowCancellation_form:
  "requestWorkflowCancellation run t = Inr run' \<Longrightarrow>
     run' = run\<lparr> wr_nodeRuns := wr_nodeRuns run', wr_status := wr_status run', wr_updatedAt := t, wr_endedAt := wr_endedAt run' \<rparr>"
  by (auto simp: requestWorkflowCancellation_def res_bind_eq_Inr Let_def)

lemma recoverInterruptedRun_form:
  "recoverInterruptedRun run live t = Inr (run', lost) \<Longrightarrow>
     run' = run\<lparr> wr_nodeRuns := wr_nodeRuns run', wr_status := wr_status run', wr_updatedAt := t, wr_endedAt := wr_endedAt run' \<rparr>"
  by (auto simp: recoverInterruptedRun_def res_bind_eq_Inr Let_def)

lemma cancelWorkflowExecution_facts:
  assumes shape: "runtime_shape rt" and t: "is_timestamp t"
  obtains rt' where "cancelWorkflowExecution rt t = Inr rt'" "evolves rt rt'" "starts_nothing rt rt'"
    and "rt_cancellationRequested rt'" "rt_activeRevisionLoopIds rt' = []" "rt_evidence rt' = rt_evidence rt"
    and "\<forall>i r. run_of rt i = Some r \<longrightarrow> (\<exists>r'. run_of rt' i = Some r' \<and> nr_attempt r' = nr_attempt r
        \<and> nr_status r' = (if isTerminalRunStatus (nr_status r) then nr_status r
                          else if isActiveStatus (nr_status r) then Cancelling else Cancelled))"
proof -
  have ok: "WorkflowRun_ok (rt_run rt)" "obj_ok (node_runs rt)" using shape by (simp_all add: runtime_shape_def)
  let ?step = "\<lambda>r r'. nr_attempt r' = nr_attempt r
      \<and> nr_status r' = (if isTerminalRunStatus (nr_status r) then nr_status r
                        else if isActiveStatus (nr_status r) then Cancelling else Cancelled)"
  obtain run' where run': "requestWorkflowCancellation (rt_run rt) t = Inr run'" "WorkflowRun_ok run'"
    and rel0: "list_all2 (\<lambda>(k, r) (k', r'). k' = k \<and> nr_attempt r' = nr_attempt r
          \<and> nr_status r' = (if isTerminalRunStatus (nr_status r) then nr_status r
                            else if isActiveStatus (nr_status r) then Cancelling else Cancelled)
          \<and> (isActiveStatus (nr_status r) \<longrightarrow> nr_process r' = nr_process r)) (node_runs rt) (wr_nodeRuns run')"
    using request_cancellation [OF ok t] by blast
  have rel: "list_all2 (\<lambda>(k, r) (k', r'). k' = k \<and> ?step r r') (node_runs rt) (wr_nodeRuns run')"
    using rel0 by (rule list_all2_mono) auto
  define rt' where "rt' = rt\<lparr> rt_run := run', rt_cancellationRequested := True, rt_activeRevisionLoopIds := [] \<rparr>"
  note form = requestWorkflowCancellation_form [OF run'(1)]
  have rel2: "list_all2 (\<lambda>(k, r) (k', r'). k' = k \<and> nr_attempt r \<le> nr_attempt r'
      \<and> (isActiveStatus (nr_status r') \<longrightarrow> isActiveStatus (nr_status r))) (node_runs rt) (wr_nodeRuns run')"
    using rel by (rule list_all2_mono) (auto split: if_splits)
  have rel3: "list_all2 (\<lambda>(k, r) (k', r'). k' = k \<and> ?step r r') (node_runs rt) (node_runs rt')"
    using rel by (simp add: rt'_def)
  show ?thesis
  proof (rule that)
    show "cancelWorkflowExecution rt t = Inr rt'" by (simp add: cancelWorkflowExecution_def run'(1) rt'_def)
    show "evolves rt rt'" "starts_nothing rt rt'"
      by (rule evolves_of_run [OF form run'(2) rel2]; simp add: rt'_def)+
    show "rt_cancellationRequested rt'" "rt_activeRevisionLoopIds rt' = []" "rt_evidence rt' = rt_evidence rt"
      by (simp_all add: rt'_def)
    show "\<forall>i r. run_of rt i = Some r \<longrightarrow> (\<exists>r'. run_of rt' i = Some r' \<and> ?step r r')"
      using run_of_list_all2(1) [OF rel3] by blast
  qed
qed

lemma recover_evolves:
  assumes shape: "runtime_shape rt" and t: "is_timestamp t"
  obtains run' lost rt1 where "recoverInterruptedRun (rt_run rt) live t = Inr (run', lost)"
    and "rt1 = rt\<lparr> rt_run := run', rt_activeRevisionLoopIds := [] \<rparr>" "evolves rt rt1" "starts_nothing rt rt1"
    and "set lost = {i. \<exists>r. run_of rt i = Some r \<and> isActiveStatus (nr_status r) \<and> \<not> provably_alive live r}"
    and "\<And>i r. run_of rt i = Some r \<Longrightarrow> \<exists>r'. run_of rt1 i = Some r'
       \<and> (if isActiveStatus (nr_status r) \<and> \<not> provably_alive live r
          then nr_status r' = Lost \<and> nr_attempt r' = nr_attempt r else r' = r)"
proof -
  have ok: "WorkflowRun_ok (rt_run rt)" "obj_ok (node_runs rt)" using shape by (simp_all add: runtime_shape_def)
  let ?step = "\<lambda>r r'. if isActiveStatus (nr_status r) \<and> \<not> provably_alive live r
      then nr_status r' = Lost \<and> nr_attempt r' = nr_attempt r else r' = r"
  obtain run' lost where run': "recoverInterruptedRun (rt_run rt) live t = Inr (run', lost)" "WorkflowRun_ok run'"
    and rel: "list_all2 (\<lambda>(k, r) (k', r'). k' = k \<and> ?step r r') (node_runs rt) (wr_nodeRuns run')"
    and lost: "set lost = {k. \<exists>r. (k, r) \<in> set (node_runs rt) \<and> isActiveStatus (nr_status r) \<and> \<not> provably_alive live r}"
    using recover_interrupted [OF ok t] by blast
  define rt1 where rt1: "rt1 = rt\<lparr> rt_run := run', rt_activeRevisionLoopIds := [] \<rparr>"
  note form = recoverInterruptedRun_form [OF run'(1)]
  have rel2: "list_all2 (\<lambda>(k, r) (k', r'). k' = k \<and> nr_attempt r \<le> nr_attempt r'
      \<and> (isActiveStatus (nr_status r') \<longrightarrow> isActiveStatus (nr_status r))) (node_runs rt) (wr_nodeRuns run')"
    using rel by (rule list_all2_mono) (auto split: if_splits)
  have rel3: "list_all2 (\<lambda>(k, r) (k', r'). k' = k \<and> ?step r r') (node_runs rt) (node_runs rt1)"
    using rel by (simp add: rt1)
  show ?thesis
  proof (rule that [OF run'(1) rt1])
    show "evolves rt rt1" "starts_nothing rt rt1" by (rule evolves_of_run [OF form run'(2) rel2]; simp add: rt1)+
    show "set lost = {i. \<exists>r. run_of rt i = Some r \<and> isActiveStatus (nr_status r) \<and> \<not> provably_alive live r}"
      using ok(2) by (simp add: lost run_of_def obj_get_eq_Some_iff)
    show "\<exists>r'. run_of rt1 i = Some r' \<and> ?step r r'" if "run_of rt i = Some r" for i r
      using run_of_list_all2(1) [OF rel3 that] .
  qed
qed

lemma recoverWorkflowExecution_facts:
  assumes shape: "runtime_shape rt" and t: "is_timestamp t"
    and rec: "recoverWorkflowExecution rt live t = Inr (rt', lost)"
  shows "evolves rt rt'" and "starts_nothing rt rt'" and "rt_evidence rt' = rt_evidence rt"
    and "rt_activeRevisionLoopIds rt' = []"
    and "set lost = {i. \<exists>r. run_of rt i = Some r \<and> isActiveStatus (nr_status r) \<and> \<not> provably_alive live r}"
    and "i \<in> set lost \<Longrightarrow> \<exists>r'. run_of rt' i = Some r' \<and> nr_status r' = Lost"
    and "i \<notin> set lost \<Longrightarrow> run_of rt' i = run_of rt i
       \<or> is_pending rt i \<and> (\<exists>r'. run_of rt' i = Some r' \<and> nr_status r' = Cancelled)"
proof -
  obtain run' lost0 rt1 where base: "recoverInterruptedRun (rt_run rt) live t = Inr (run', lost0)"
    "rt1 = rt\<lparr> rt_run := run', rt_activeRevisionLoopIds := [] \<rparr>" "evolves rt rt1" "starts_nothing rt rt1"
    and lost: "set lost0 = {i. \<exists>r. run_of rt i = Some r \<and> isActiveStatus (nr_status r) \<and> \<not> provably_alive live r}"
    and step: "\<And>i r. run_of rt i = Some r \<Longrightarrow> \<exists>r'. run_of rt1 i = Some r'
       \<and> (if isActiveStatus (nr_status r) \<and> \<not> provably_alive live r
          then nr_status r' = Lost \<and> nr_attempt r' = nr_attempt r else r' = r)"
    using recover_evolves [OF shape t] by blast
  have lost0: "lost0 = lost" and settle: "settleBlockedWorkflowNodes rt1 t = Inr rt'"
    using rec base(1) by (auto simp: recoverWorkflowExecution_def res_bind_eq_Inr base(2))
  have shape1: "runtime_shape rt1" using shape base(3) by (rule evolves_shape)
  have settles: "settles rt1 rt'" using settleBlocked_settles [OF shape1 settle] by blast
  have ev: "evolves rt1 rt'" "only_node_runs rt1 rt'" using settles by (simp_all add: settles_def)
  show "evolves rt rt'" using base(3) ev(1) by (rule evolves_trans)
  show "starts_nothing rt rt'" using base(4) settles_starts_nothing [OF settles] by (rule starts_nothing_trans)
  show "rt_evidence rt' = rt_evidence rt" "rt_activeRevisionLoopIds rt' = []"
    using ev(2) by (simp_all add: only_node_runs_def base(2))
  show set_lost: "set lost = {i. \<exists>r. run_of rt i = Some r \<and> isActiveStatus (nr_status r) \<and> \<not> provably_alive live r}"
    using lost lost0 by simp
  have moved: "run_of rt' j = run_of rt1 j \<or> is_pending rt1 j \<and> (\<exists>r. run_of rt' j = Some r \<and> nr_status r = Cancelled)" for j
    using settles by (simp add: settles_def)
  show "\<exists>r'. run_of rt' i = Some r' \<and> nr_status r' = Lost" if "i \<in> set lost"
  proof -
    from that set_lost obtain r where "run_of rt i = Some r" "isActiveStatus (nr_status r) \<and> \<not> provably_alive live r" by blast
    with step [of i r] obtain r' where r': "run_of rt1 i = Some r'" "nr_status r' = Lost" by auto
    then have "\<not> is_pending rt1 i" by (simp add: is_pending_def)
    with moved [of i] r' show ?thesis by auto
  qed
  show "run_of rt' i = run_of rt i \<or> is_pending rt i \<and> (\<exists>r'. run_of rt' i = Some r' \<and> nr_status r' = Cancelled)"
    if "i \<notin> set lost"
  proof -
    have same: "run_of rt1 i = run_of rt i"
    proof (cases "run_of rt i")
      case None
      then show ?thesis using evolves_run [OF base(3), of i] by simp
    next
      case (Some r)
      with that set_lost have "\<not> (isActiveStatus (nr_status r) \<and> \<not> provably_alive live r)" by blast
      with step [OF Some] Some show ?thesis by (auto split: if_splits)
    qed
    then have "is_pending rt1 i = is_pending rt i" by (simp add: is_pending_def)
    with moved [of i] same show ?thesis by simp
  qed
qed

text \<open>
  C26. Cancelling a well-shaped runtime never fails. Afterwards the cancellation is recorded, no revision
  loop is active, no node run can start any more, every unfinished node run is cancelled or, when it
  was running, \<open>cancelling\<close>, and the finished ones and all attempt numbers are unchanged.
\<close>

theorem cancelWorkflowExecution_total:
  assumes "runtime_shape rt" and "is_timestamp t"
  shows "\<exists>rt'. cancelWorkflowExecution rt t = Inr rt' \<and> evolves rt rt' \<and> starts_nothing rt rt'
    \<and> rt_cancellationRequested rt' \<and> rt_activeRevisionLoopIds rt' = [] \<and> (\<forall>i. \<not> node_ready rt' i)
    \<and> (\<forall>i r. run_of rt i = Some r \<longrightarrow> (\<exists>r'. run_of rt' i = Some r' \<and> nr_attempt r' = nr_attempt r
        \<and> nr_status r' = (if isTerminalRunStatus (nr_status r) then nr_status r
                          else if isActiveStatus (nr_status r) then Cancelling else Cancelled)))"
proof -
  obtain rt' where rt': "cancelWorkflowExecution rt t = Inr rt'" "evolves rt rt'" "starts_nothing rt rt'"
    "rt_cancellationRequested rt'" "rt_activeRevisionLoopIds rt' = []" "rt_evidence rt' = rt_evidence rt"
    and runs: "\<forall>i r. run_of rt i = Some r \<longrightarrow> (\<exists>r'. run_of rt' i = Some r' \<and> nr_attempt r' = nr_attempt r
        \<and> nr_status r' = (if isTerminalRunStatus (nr_status r) then nr_status r
                          else if isActiveStatus (nr_status r) then Cancelling else Cancelled))"
    by (rule cancelWorkflowExecution_facts [OF assms])
  have "\<not> node_ready rt' i" for i
    using evaluateNodeReadiness_not_pending [of rt' i] rt'(4) by (auto simp: node_ready_def)
  with rt' runs show ?thesis by (intro exI [of _ rt'] conjI) simp_all
qed

text \<open>
  After a host restart exactly the active node runs without a proven live process are reported lost
  and are lost; every other node run is unchanged, or was pending, is blocked for good by a lost one
  and is now cancelled. Nothing starts, no evidence changes and no revision loop stays active.
\<close>

theorem recoverWorkflowExecution_correct:
  assumes "runtime_shape rt" and "is_timestamp t" and "recoverWorkflowExecution rt live t = Inr (rt', lost)"
  shows "set lost = {i. \<exists>r. run_of rt i = Some r \<and> isActiveStatus (nr_status r) \<and> \<not> provably_alive live r}
    \<and> (\<forall>i \<in> set lost. \<exists>r'. run_of rt' i = Some r' \<and> nr_status r' = Lost)
    \<and> (\<forall>i. i \<notin> set lost \<longrightarrow> run_of rt' i = run_of rt i
         \<or> is_pending rt i \<and> (\<exists>r'. run_of rt' i = Some r' \<and> nr_status r' = Cancelled))
    \<and> evolves rt rt' \<and> starts_nothing rt rt' \<and> rt_evidence rt' = rt_evidence rt \<and> rt_activeRevisionLoopIds rt' = []"
proof (intro conjI ballI allI impI)
  note facts = recoverWorkflowExecution_facts [OF assms]
  show "evolves rt rt'" "starts_nothing rt rt'" "rt_evidence rt' = rt_evidence rt" "rt_activeRevisionLoopIds rt' = []"
    "set lost = {i. \<exists>r. run_of rt i = Some r \<and> isActiveStatus (nr_status r) \<and> \<not> provably_alive live r}"
    by (rule facts)+
  show "\<exists>r'. run_of rt' i = Some r' \<and> nr_status r' = Lost" if "i \<in> set lost" for i using that by (rule facts)
  show "run_of rt' i = run_of rt i \<or> is_pending rt i \<and> (\<exists>r'. run_of rt' i = Some r' \<and> nr_status r' = Cancelled)"
    if "i \<notin> set lost" for i using that by (rule facts)
qed

section \<open>Both keep what every operation keeps\<close>

lemma cancelWorkflowExecution_timestamp: "cancelWorkflowExecution rt t = Inr rt' \<Longrightarrow> is_timestamp t"
  by (auto simp: cancelWorkflowExecution_def requestWorkflowCancellation_def res_bind_eq_Inr Let_def WorkflowRun_ok_def)

lemma recoverWorkflowExecution_timestamp: "recoverWorkflowExecution rt live t = Inr x \<Longrightarrow> is_timestamp t"
  by (auto simp: recoverWorkflowExecution_def recoverInterruptedRun_def res_bind_eq_Inr Let_def WorkflowRun_ok_def)

interpretation cancelling: idle_operation "\<lambda>rt. cancelWorkflowExecution rt t" for t
proof
  fix rt rt' :: runtime
  assume shape: "runtime_shape rt" and cancel: "cancelWorkflowExecution rt t = Inr rt'"
  from cancelWorkflowExecution_facts [OF shape cancelWorkflowExecution_timestamp [OF cancel]] cancel
  show "evolves rt rt'" and "starts_nothing rt rt'" by (metis Inr_inject)+
qed

definition recovered_runtime :: "(int \<Rightarrow> string option) \<Rightarrow> timestamp \<Rightarrow> runtime \<Rightarrow> runtime res" where
  "recovered_runtime live t rt = res_bind (recoverWorkflowExecution rt live t) (\<lambda>(rt', _). return rt')"

interpretation recovering: idle_operation "recovered_runtime live t" for live t
proof
  fix rt rt' :: runtime
  assume shape: "runtime_shape rt" and "recovered_runtime live t rt = Inr rt'"
  then obtain lost where rec: "recoverWorkflowExecution rt live t = Inr (rt', lost)"
    by (auto simp: recovered_runtime_def res_bind_eq_Inr)
  note facts = recoverWorkflowExecution_facts [OF shape recoverWorkflowExecution_timestamp [OF rec] rec]
  show "evolves rt rt'" and "starts_nothing rt rt'" by (rule facts)+
qed

end
