(* ===== verification/Evidence.thy ===== *)
theory Evidence
  imports Lifecycle
begin

text \<open>
  \<open>packages/core/src/workflow-runtime/evidence.ts\<close>: the operations that record evidence. Each one
  parses the untrusted record, checks that it is bound to the present state of the run, asks the
  host's verifier where the record comes from outside, and only then stores it.
\<close>

section \<open>Human approvals\<close>

definition other_incoming :: "runtime \<Rightarrow> canvas_edge \<Rightarrow> canvas_edge list" where
  "other_incoming rt e =
     filter (\<lambda>x. edge_id x \<noteq> edge_id e \<and> edge_targetNodeId x = edge_targetNodeId e
                 \<and> \<not> is_Revision (edge_config x) \<and> is_planned rt x)
       (canvas_edges (rt_canvas rt))"

definition not_in_the_way :: "edge_evaluation \<Rightarrow> bool" where
  "not_in_the_way v =
     (ee_disposition v \<noteq> EdgeWaiting \<and> ee_disposition v \<noteq> EdgeBlocked
      \<and> ee_status v \<noteq> Failed \<and> ee_status v \<noteq> Lost \<and> ee_status v \<noteq> Cancelled)"

definition edge_waits :: "runtime \<Rightarrow> canvas_edge \<Rightarrow> bool res" where
  "edge_waits rt e =
     res_bind (evaluateExecutableEdge rt e) (\<lambda>v.
       if ee_disposition v \<noteq> EdgeWaitingForApproval then return False
       else res_bind (map_res (evaluateExecutableEdge rt) (other_incoming rt e)) (\<lambda>vs.
              return (list_all not_in_the_way vs)))"

definition gate_waits :: "runtime \<Rightarrow> canvas_node option \<Rightarrow> bool res" where
  "gate_waits rt gate =
     (case gate of
        None \<Rightarrow> return False
      | Some n \<Rightarrow>
          if \<not> is_ReviewGateNode (node_data n) \<or> run_of rt (node_id n) = None then return False
          else res_bind (reviewGateEvaluation rt (node_id n)) (\<lambda>g. return (ge_status g = GateWaitHuman)))"

definition not_waiting :: "string \<Rightarrow> wf_error" where
  "not_waiting targetId = Error (''Human approval target is not currently waiting: '' @ targetId)"

definition getWorkflowHumanApprovalRequest :: "runtime \<Rightarrow> string \<Rightarrow> approval_request res" where
  "getWorkflowHumanApprovalRequest rt targetId =
     (let edge = find_edge rt targetId; gate = find_node rt targetId in
      if (case edge of None \<Rightarrow> False | Some e \<Rightarrow> \<not> is_planned rt e)
      then throw (Error (''Human approval target is outside the current scoped plan: '' @ targetId))
      else if hasCurrentHumanApproval rt targetId then throw (not_waiting targetId)
      else res_bind (case edge of Some e \<Rightarrow> edge_waits rt e | None \<Rightarrow> gate_waits rt gate) (\<lambda>waiting.
        if \<not> waiting then throw (not_waiting targetId) else approvalRequestUnchecked rt targetId))"

definition approveWorkflowHumanDecision :: "runtime \<Rightarrow> human_approval \<Rightarrow> runtime res" where
  "approveWorkflowHumanDecision rt untrustedApproval =
     res_bind (HumanApprovalSchema_parse untrustedApproval) (\<lambda>approval.
     res_bind (getWorkflowHumanApprovalRequest rt (hr_targetId approval)) (\<lambda>expected.
       if hr_runId approval \<noteq> hr_runId expected \<or> hr_targetType approval \<noteq> hr_targetType expected
          \<or> hr_targetAttempt approval \<noteq> hr_targetAttempt expected
          \<or> hr_evidenceFingerprint approval \<noteq> hr_evidenceFingerprint expected
       then throw (Error ''Human approval does not match the current workflow decision'')
       else if hr_targetType expected = HumanReviewTarget
       then throw (Error ''Human review edges require an explicit review decision'')
       else return (rt\<lparr> rt_evidence := (rt_evidence rt)\<lparr> ev_humanApprovals :=
              obj_put (hr_targetId approval) approval (ev_humanApprovals (rt_evidence rt)) \<rparr> \<rparr>)))"

definition is_human_review_edge :: "canvas_edge \<Rightarrow> bool" where
  "is_human_review_edge e = (case edge_config e of Review c \<Rightarrow> rev_reviewer c = ReviewerHuman | _ \<Rightarrow> False)"

definition completed_review :: "node_run \<Rightarrow> review_decision \<Rightarrow> node_run" where
  "completed_review current decision =
     \<lparr> nr_nodeId = nr_nodeId current,
       nr_status = (if hd_decision decision = Approved then Succeeded else Failed),
       nr_attempt = nr_attempt current, nr_queuedAt = nr_queuedAt current, nr_startedAt = None,
       nr_endedAt = Some (hd_decidedAt decision), nr_process = None, nr_internalExecution = None,
       nr_resumable = nr_resumable current,
       nr_failureCode = (if hd_decision decision = ChangesRequested then Some ''HUMAN_CHANGES_REQUESTED'' else None),
       nr_statusReason = (if hd_decision decision = Approved then Some ''You approved the reviewed result''
                          else hd_feedback decision) \<rparr>"

definition put_decision :: "string \<Rightarrow> review_decision \<Rightarrow> runtime \<Rightarrow> runtime" where
  "put_decision edgeId decision rt =
     rt\<lparr> rt_evidence := (rt_evidence rt)\<lparr> ev_humanReviewDecisions :=
       obj_put edgeId decision (ev_humanReviewDecisions (rt_evidence rt)) \<rparr> \<rparr>"

definition finish_human_review :: "runtime \<Rightarrow> canvas_edge \<Rightarrow> review_decision \<Rightarrow> runtime res" where
  "finish_human_review rt e decision =
     (case run_of rt (edge_targetNodeId e) of
        None \<Rightarrow> throw (Error ''Human review target is not awaiting a decision'')
      | Some current \<Rightarrow>
          if nr_status current \<noteq> Queued \<and> nr_status current \<noteq> WaitingForApproval
          then throw (Error ''Human review target is not awaiting a decision'')
          else res_bind (NodeRunStateSchema_parse (completed_review current decision)) (\<lambda>completedReview.
               res_bind (replace_node_run rt (edge_targetNodeId e) completedReview (hd_decidedAt decision)) (\<lambda>decidedRuntime.
                 settleBlockedWorkflowNodes (put_decision (edge_id e) decision decidedRuntime) (hd_decidedAt decision))))"

definition recordWorkflowHumanReviewDecision :: "runtime \<Rightarrow> review_decision \<Rightarrow> runtime res" where
  "recordWorkflowHumanReviewDecision rt untrustedDecision =
     res_bind (ReviewDecisionSchema_parse untrustedDecision) (\<lambda>decision.
     res_bind (getWorkflowHumanApprovalRequest rt (hr_targetId decision)) (\<lambda>expected.
       if hr_targetType expected \<noteq> HumanReviewTarget \<or> hr_runId decision \<noteq> hr_runId expected
          \<or> hr_targetAttempt decision \<noteq> hr_targetAttempt expected
          \<or> hr_evidenceFingerprint decision \<noteq> hr_evidenceFingerprint expected
       then throw (Error ''Human review decision does not match the current reviewed evidence'')
       else res_bind (edgeById rt (hr_targetId decision)) (\<lambda>e.
         if \<not> is_human_review_edge e then throw (Error ''Human review decision target is not a human review edge'')
         else finish_human_review rt e decision)))"

section \<open>Context resolutions\<close>

definition pending_status :: "run_status \<Rightarrow> bool" where
  "pending_status s = (s = Queued \<or> s = WaitingForApproval)"

definition recordWorkflowContextResolution ::
  "runtime \<Rightarrow> context_resolution \<Rightarrow> evidence_verifier \<Rightarrow> runtime res" where
  "recordWorkflowContextResolution rt untrustedResolution verifier =
     res_bind (ContextResolutionSchema_parse untrustedResolution) (\<lambda>r.
     res_bind (edgeById rt (cr_edgeId r)) (\<lambda>e.
       case edge_config e of
         Context c \<Rightarrow>
           res_bind (assertPlannedEdge rt e) (\<lambda>_.
           case run_of rt (edge_targetNodeId e) of
             None \<Rightarrow> throw (Error ''Context target is outside the scoped plan'')
           | Some targetRun \<Rightarrow>
               if \<not> pending_status (nr_status targetRun)
               then throw (Error ''Context must be verified before the target starts'')
               else if cr_runId r \<noteq> run_id rt \<or> cr_sourceNodeId r \<noteq> edge_sourceNodeId e
                  \<or> cr_targetNodeId r \<noteq> edge_targetNodeId e \<or> cr_targetAttempt r \<noteq> nr_attempt targetRun
                  \<or> uniqueSorted (cr_attachmentIds r) \<noteq> uniqueSorted (ctx_attachmentIds c)
               then throw (Error ''Context resolution does not match the current planned edge and target attempt'')
               else if \<not> verifyContextResolution verifier r
               then throw (Error ''Host verifier rejected the context resolution'')
               else return (rt\<lparr> rt_evidence := (rt_evidence rt)\<lparr> ev_contextResolutions :=
                      obj_put (edge_id e) r (ev_contextResolutions (rt_evidence rt)) \<rparr> \<rparr>))
       | _ \<Rightarrow> throw (Error (''Edge is not a context edge: '' @ cr_edgeId r))))"

section \<open>Gate checks\<close>

text \<open>The checks the loop of \<open>recordWorkflowGateChecks\<close> makes, in its order.\<close>

definition same_command :: "command_spec \<Rightarrow> command_spec option \<Rightarrow> bool" where
  "same_command c producerCommand =
     (Some (stringify (command_json c)) = map_option (\<lambda>c. stringify (command_json c)) producerCommand)"

definition producer_of :: "runtime \<Rightarrow> string \<Rightarrow> (test_data \<times> node_run) res" where
  "producer_of rt producerId =
     res_bind (nodeById rt producerId) (\<lambda>n.
       case (node_data n, run_of rt producerId) of
         (TestNode d, Some r) \<Rightarrow> return (d, r)
       | _ \<Rightarrow> throw (Error (''Check producer must be a planned test node: '' @ producerId)))"

definition check_publication ::
  "runtime \<Rightarrow> string \<Rightarrow> string \<Rightarrow> check_result \<Rightarrow> output_publication option" where
  "check_publication rt reviewedNodeId producerId k =
     find (\<lambda>p. Some (op_contentDigest p) = ck_reviewedOutputDigest k)
       (currentCausalCheckPublications rt reviewedNodeId producerId)"

definition started_too_early :: "output_publication \<Rightarrow> node_run \<Rightarrow> bool" where
  "started_too_early p r =
     (case nr_startedAt r of None \<Rightarrow> False | Some started \<Rightarrow> date_after (op_verifiedAt p) started)"

definition check_causality ::
  "runtime \<Rightarrow> string \<Rightarrow> string \<Rightarrow> test_data \<Rightarrow> node_run \<Rightarrow> evidence_verifier \<Rightarrow> check_result \<Rightarrow> unit res" where
  "check_causality rt reviewedNodeId producerId d r verifier k =
     (case check_publication rt reviewedNodeId producerId k of
        None \<Rightarrow> throw (Error (''Check '' @ ck_id k
          @ '' does not match a host-verified output consumed from the current reviewed attempt''))
      | Some p \<Rightarrow>
          if started_too_early p r
          then throw (Error (''Check '' @ ck_id k @ '' producer started before its reviewed output was verified''))
          else if \<not> same_command (ck_command k) (te_command d)
          then throw (Error (''Check '' @ ck_id k @ '' command does not match its configured producer''))
          else throw_if (\<not> verifyCheckResult verifier k) (Error (''Host verifier rejected check '' @ ck_id k)))"

definition check_binding ::
  "runtime \<Rightarrow> string \<Rightarrow> node_run \<Rightarrow> evidence_verifier \<Rightarrow> check_result \<Rightarrow> string \<Rightarrow> int \<Rightarrow> unit res" where
  "check_binding rt reviewedNodeId reviewedRun verifier k producerId producerAttempt =
     res_bind (producer_of rt producerId) (\<lambda>(d, r).
       if ck_id k \<notin> set (te_runIds d)
       then throw (Error (''Check '' @ ck_id k @ '' is not registered to producer '' @ producerId))
       else if nr_attempt r \<noteq> producerAttempt
       then throw (Error (''Check '' @ ck_id k @ '' belongs to stale producer attempt '' @ show_int producerAttempt
              @ ''; current attempt is '' @ show_int (nr_attempt r)))
       else if ck_reviewedNodeId k \<noteq> Some reviewedNodeId \<or> ck_reviewedNodeAttempt k \<noteq> Some (nr_attempt reviewedRun)
          \<or> ck_reviewedOutputDigest k = None
       then throw (Error (''Check '' @ ck_id k @ '' is not bound to reviewed source '' @ reviewedNodeId
              @ '' attempt '' @ show_int (nr_attempt reviewedRun)))
       else if nr_status r \<notin> set (expectedProducerStatuses (ck_status k))
       then throw (Error (''Check '' @ ck_id k @ '' status '' @ check_status_text (ck_status k)
              @ '' does not match producer status '' @ run_status_text (nr_status r)))
       else check_causality rt reviewedNodeId producerId d r verifier k)"

definition record_check ::
  "runtime \<Rightarrow> string \<Rightarrow> review_gate_data \<Rightarrow> string \<Rightarrow> node_run \<Rightarrow> evidence_verifier \<Rightarrow> check_result \<Rightarrow> unit res" where
  "record_check rt gateNodeId g reviewedNodeId reviewedRun verifier k =
     (if ck_id k \<notin> set (rg_requiredCheckIds g)
      then throw (Error (''Check '' @ ck_id k @ '' is not configured as required by gate '' @ gateNodeId))
      else case (ck_producerNodeId k, ck_producerAttempt k) of
        (Some producerId, Some producerAttempt) \<Rightarrow>
          check_binding rt reviewedNodeId reviewedRun verifier k producerId producerAttempt
      | _ \<Rightarrow> throw (Error ''Review-gate checks require producer node and attempt provenance''))"

definition reviewed_run_for_checks :: "runtime \<Rightarrow> string \<Rightarrow> node_run res" where
  "reviewed_run_for_checks rt reviewedNodeId =
     (let failure = throw (Error ''Review-gate checks require the current reviewed source attempt to succeed'') in
      case run_of rt reviewedNodeId of
        None \<Rightarrow> failure
      | Some r \<Rightarrow>
          if nr_status r \<noteq> Succeeded then failure
          else res_bind (canvasNodeStatus rt reviewedNodeId) (\<lambda>s.
            if s \<noteq> Succeeded then failure else return r))"

definition gate_accepts_checks :: "runtime \<Rightarrow> string \<Rightarrow> unit res" where
  "gate_accepts_checks rt gateNodeId =
     (case run_of rt gateNodeId of
        None \<Rightarrow> throw (Error (''Review gate is outside the current scoped plan: '' @ gateNodeId))
      | Some gateRun \<Rightarrow> throw_if (\<not> pending_status (nr_status gateRun))
          (Error ''Review-gate checks must be recorded before the gate starts''))"

definition recordWorkflowGateChecks ::
  "runtime \<Rightarrow> string \<Rightarrow> check_result list \<Rightarrow> evidence_verifier \<Rightarrow> runtime res" where
  "recordWorkflowGateChecks rt gateNodeId checks verifier =
     res_bind (gate_data_of rt gateNodeId) (\<lambda>g.
     res_bind (gate_accepts_checks rt gateNodeId) (\<lambda>_.
     res_bind (map_res CheckResultSchema_parse checks) (\<lambda>parsedChecks.
     res_bind (throw_if (list_ex (\<lambda>k. ck_runId k \<noteq> run_id rt) parsedChecks)
       (Error ''Review-gate checks must belong to the current workflow run'')) (\<lambda>_.
     res_bind (throw_if (length (new_Set (map ck_id parsedChecks)) \<noteq> length parsedChecks)
       (Error ''Review-gate check IDs must be unique'')) (\<lambda>_.
     res_bind (reviewedSourceForGate rt gateNodeId) (\<lambda>reviewedNodeId.
     res_bind (reviewed_run_for_checks rt reviewedNodeId) (\<lambda>reviewedRun.
     res_bind (for_each (record_check rt gateNodeId g reviewedNodeId reviewedRun verifier) parsedChecks) (\<lambda>_.
       return (rt\<lparr> rt_evidence := (rt_evidence rt)\<lparr> ev_gateChecks :=
         obj_put gateNodeId parsedChecks (ev_gateChecks (rt_evidence rt)) \<rparr> \<rparr>)))))))))"

section \<open>Outputs\<close>

definition undefined_attempt :: wf_error where
  "undefined_attempt = TypeError ''Cannot read properties of undefined''"

text \<open>The binding of a publication: the source run is read only after the first two comparisons.\<close>

definition publication_binding :: "runtime \<Rightarrow> canvas_edge \<Rightarrow> output_publication \<Rightarrow> unit res" where
  "publication_binding rt e p =
     (let failure = Error ''Output publication is not bound to the current source attempt'' in
      if op_runId p \<noteq> run_id rt \<or> op_producerNodeId p \<noteq> edge_sourceNodeId e then throw failure
      else case run_of rt (edge_sourceNodeId e) of
        None \<Rightarrow> throw undefined_attempt
      | Some sourceRun \<Rightarrow> throw_if (op_producerAttempt p \<noteq> nr_attempt sourceRun) failure)"

definition consumer_pending :: "runtime \<Rightarrow> canvas_edge \<Rightarrow> bool" where
  "consumer_pending rt e =
     (case run_of rt (edge_targetNodeId e) of None \<Rightarrow> False | Some r \<Rightarrow> pending_status (nr_status r))"

definition publishWorkflowOutput :: "runtime \<Rightarrow> output_publication \<Rightarrow> evidence_verifier \<Rightarrow> runtime res" where
  "publishWorkflowOutput rt untrustedPublication verifier =
     res_bind (OutputPublicationSchema_parse untrustedPublication) (\<lambda>p.
     res_bind (edgeById rt (op_edgeId p)) (\<lambda>e.
       case edge_config e of
         Output c \<Rightarrow>
           res_bind (assertPlannedEdge rt e) (\<lambda>_.
           res_bind (canvasNodeStatus rt (edge_sourceNodeId e)) (\<lambda>s.
           res_bind (throw_if (s \<noteq> Succeeded)
             (Error (''Output source must succeed before publication: '' @ edge_sourceNodeId e))) (\<lambda>_.
           res_bind (throw_if (\<not> consumer_pending rt e)
             (Error ''Output must be verified before its planned consumer starts'')) (\<lambda>_.
           res_bind (publication_binding rt e p) (\<lambda>_.
           res_bind (throw_if (out_outputKind c \<noteq> op_outputKind p)
             (Error (''Output kind mismatch for '' @ edge_id e @ '': expected '' @ output_kind_text (out_outputKind c)
                @ '', received '' @ output_kind_text (op_outputKind p)))) (\<lambda>_.
           res_bind (throw_if (\<not> verifyOutputPublication verifier p)
             (Error (''Host verifier rejected output publication '' @ op_edgeId p))) (\<lambda>_.
             return (rt\<lparr> rt_evidence := (rt_evidence rt)\<lparr> ev_outputPublications :=
               obj_put (edge_id e) p (ev_outputPublications (rt_evidence rt)) \<rparr> \<rparr>))))))))
       | _ \<Rightarrow> throw (Error (''Edge is not an output edge: '' @ op_edgeId p))))"

section \<open>Reviews\<close>

definition review_source :: "runtime \<Rightarrow> canvas_edge \<Rightarrow> node_run res" where
  "review_source rt e =
     (let failure = throw (Error (''Review source must succeed before assessment: '' @ edge_sourceNodeId e)) in
      case run_of rt (edge_sourceNodeId e) of
        None \<Rightarrow> failure
      | Some r \<Rightarrow>
          if nr_status r \<noteq> Succeeded then failure
          else res_bind (canvasNodeStatus rt (edge_sourceNodeId e)) (\<lambda>s.
            if s \<noteq> Succeeded then failure else return r))"

definition reviewer_completed :: "runtime \<Rightarrow> reviewer \<Rightarrow> string \<Rightarrow> bool res" where
  "reviewer_completed rt reviewer reviewerId =
     (let status = map_option nr_status (run_of rt reviewerId) in
      if reviewer = ReviewerAgent then return (status = Some WaitingForApproval \<or> status = Some Succeeded)
      else if status \<noteq> Some Succeeded then return False
      else res_bind (canvasNodeStatus rt reviewerId) (\<lambda>s. return (s = Succeeded)))"

definition reviewer_unfinished :: "string \<Rightarrow> wf_error" where
  "reviewer_unfinished reviewerId =
     Error (''Configured reviewer '' @ reviewerId @ '' must complete its planned agent run'')"

text \<open>The reviewer that must have written the assessment, and its finished run.\<close>

definition configured_reviewer ::
  "runtime \<Rightarrow> canvas_edge \<Rightarrow> review_config \<Rightarrow> reviewer_assessment \<Rightarrow> (string \<times> node_run) res" where
  "configured_reviewer rt e c a =
     res_bind (nodeById rt (edge_targetNodeId e)) (\<lambda>target.
     res_bind (throw_if (is_ReviewGateNode (node_data target) \<and> \<not> consumer_pending rt e)
       (Error ''Gate reviewer assessment must be recorded before the gate starts'')) (\<lambda>_.
     case expected_reviewer (rev_reviewer c) e target of
       None \<Rightarrow> throw (Error (''Review edge '' @ edge_id e @ '' has no configured agent reviewer''))
     | Some reviewerId \<Rightarrow>
         if ra_reviewerNodeId a \<noteq> reviewerId
         then throw (Error (''Review assessment must come from configured reviewer '' @ reviewerId))
         else res_bind (nodeById rt reviewerId) (\<lambda>reviewerNode.
              res_bind (reviewer_completed rt (rev_reviewer c) reviewerId) (\<lambda>completed.
              case run_of rt reviewerId of
                Some reviewerRun \<Rightarrow>
                  if \<not> is_AgentNode (node_data reviewerNode) \<or> \<not> completed
                  then throw (reviewer_unfinished reviewerId)
                  else return (reviewerId, reviewerRun)
              | None \<Rightarrow> throw (reviewer_unfinished reviewerId)))))"

definition reviewed_output_current :: "runtime \<Rightarrow> canvas_edge \<Rightarrow> node_run \<Rightarrow> reviewer_assessment \<Rightarrow> unit res" where
  "reviewed_output_current rt e sourceRun a =
     (case obj_get (ev_nodeCompletionOutputs (rt_evidence rt)) (edge_sourceNodeId e) of
        Some o' \<Rightarrow> throw_if (nc_runId o' \<noteq> run_id rt \<or> nc_nodeAttempt o' \<noteq> nr_attempt sourceRun
                           \<or> nc_contentDigest o' \<noteq> ra_reviewedOutputDigest a)
                    (Error ''Review assessment does not match the current reviewed completion output'')
      | None \<Rightarrow>
          (let currentDigests = map op_contentDigest (currentOutputPublicationsForNode rt (edge_sourceNodeId e)) in
           throw_if (currentDigests \<noteq> [] \<and> ra_reviewedOutputDigest a \<notin> set currentDigests)
             (Error ''Review assessment does not match a current reviewed output digest'')))"

definition put_assessment :: "string \<Rightarrow> reviewer_assessment \<Rightarrow> runtime \<Rightarrow> runtime" where
  "put_assessment edgeId a rt =
     rt\<lparr> rt_evidence := (rt_evidence rt)\<lparr> ev_reviewerAssessments :=
       obj_put edgeId a (ev_reviewerAssessments (rt_evidence rt)) \<rparr> \<rparr>"

definition review_outcome :: "reviewer_assessment option list \<Rightarrow> run_status option" where
  "review_outcome assessments =
     (if list_ex (has_verdict ChangesRequested) assessments then Some Failed
      else if list_all (has_verdict Approved) assessments then Some Succeeded
      else None)"

definition review_time :: "runtime \<Rightarrow> node_run \<Rightarrow> timestamp" where
  "review_time rt reviewerRun =
     (case nr_endedAt reviewerRun of Some t \<Rightarrow> t | None \<Rightarrow> wr_updatedAt (rt_run rt))"

definition finalized_reviewer :: "runtime \<Rightarrow> node_run \<Rightarrow> run_status \<Rightarrow> node_run" where
  "finalized_reviewer rt reviewerRun terminalStatus =
     \<lparr> nr_nodeId = nr_nodeId reviewerRun, nr_status = terminalStatus, nr_attempt = nr_attempt reviewerRun,
       nr_queuedAt = nr_queuedAt reviewerRun, nr_startedAt = nr_startedAt reviewerRun,
       nr_endedAt = Some (review_time rt reviewerRun), nr_process = None, nr_internalExecution = None,
       nr_resumable = nr_resumable reviewerRun,
       nr_failureCode = (if terminalStatus = Failed then Some ''REVIEW_CHANGES_REQUESTED'' else None),
       nr_statusReason = (if terminalStatus = Failed then Some ''The reviewer requested changes''
                          else Some ''All reviewers approved the result'') \<rparr>"

definition finalize_reviewer :: "runtime \<Rightarrow> runtime \<Rightarrow> string \<Rightarrow> node_run \<Rightarrow> runtime res" where
  "finalize_reviewer rt reviewedRuntime reviewerId reviewerRun =
     res_bind (map_res (currentReviewerAssessmentForEdge reviewedRuntime) (agent_reviews rt reviewerId)) (\<lambda>assessments.
       case review_outcome assessments of
         None \<Rightarrow> return reviewedRuntime
       | Some terminalStatus \<Rightarrow>
           res_bind (NodeRunStateSchema_parse (finalized_reviewer rt reviewerRun terminalStatus)) (\<lambda>finalized.
             replace_node_run reviewedRuntime reviewerId finalized (review_time rt reviewerRun)))"

text \<open>The guards of \<open>recordWorkflowReview\<close>; the result is the reviewer and its run.\<close>

definition check_review ::
  "runtime \<Rightarrow> canvas_edge \<Rightarrow> review_config \<Rightarrow> reviewer_assessment \<Rightarrow> evidence_verifier \<Rightarrow> (string \<times> node_run) res" where
  "check_review rt e c untrustedAssessment verifier =
     res_bind (review_source rt e) (\<lambda>sourceRun.
     res_bind (ReviewerAssessmentSchema_parse untrustedAssessment) (\<lambda>a.
     res_bind (throw_if (ra_runId a \<noteq> run_id rt \<or> ra_reviewEdgeId a \<noteq> edge_id e)
       (Error ''Review assessment is not bound to this execution and review edge'')) (\<lambda>_.
     res_bind (throw_if (rev_reviewer c = ReviewerHuman)
       (Error ''Human review decisions must use the explicit human approval action'')) (\<lambda>_.
     res_bind (configured_reviewer rt e c a) (\<lambda>(reviewerId, reviewerRun).
     res_bind (throw_if (ra_reviewerAttempt a \<noteq> nr_attempt reviewerRun)
       (Error (''Review assessment belongs to stale reviewer attempt '' @ show_int (ra_reviewerAttempt a)
          @ ''; current attempt is '' @ show_int (nr_attempt reviewerRun)))) (\<lambda>_.
     res_bind (throw_if (ra_reviewedNodeId a \<noteq> edge_sourceNodeId e \<or> ra_reviewedNodeAttempt a \<noteq> nr_attempt sourceRun)
       (Error ''Review assessment is not bound to the current reviewed source attempt'')) (\<lambda>_.
     res_bind (reviewed_output_current rt e sourceRun a) (\<lambda>_.
     res_bind (throw_if (rev_structuredFindings c \<and> ra_findings a = [] \<and> ra_verdict a = ChangesRequested)
       (Error ''A structured review requesting changes must include actionable findings'')) (\<lambda>_.
     res_bind (throw_if (\<not> verifyReviewerAssessment verifier a)
       (Error (''Host verifier rejected review assessment for '' @ edge_id e))) (\<lambda>_.
       return (reviewerId, reviewerRun)))))))))))"

definition recordWorkflowReview ::
  "runtime \<Rightarrow> string \<Rightarrow> reviewer_assessment \<Rightarrow> evidence_verifier \<Rightarrow> runtime res" where
  "recordWorkflowReview rt reviewEdgeId a verifier =
     res_bind (edgeById rt reviewEdgeId) (\<lambda>e.
       case edge_config e of
         Review c \<Rightarrow>
           res_bind (assertPlannedEdge rt e) (\<lambda>_.
           res_bind (check_review rt e c a verifier) (\<lambda>(reviewerId, reviewerRun).
           res_bind (if rev_reviewer c = ReviewerAgent
                     then finalize_reviewer rt (put_assessment reviewEdgeId a rt) reviewerId reviewerRun
                     else return (put_assessment reviewEdgeId a rt)) (\<lambda>reviewedRuntime.
             settleBlockedWorkflowNodes reviewedRuntime (review_time rt reviewerRun))))
       | _ \<Rightarrow> throw (Error (''Edge is not a review edge: '' @ reviewEdgeId)))"

end
