(* ===== verification/Recording.thy ===== *)
theory Recording
  imports Evidence
begin

text \<open>
  What recording evidence achieves: each record is stored only for the present run and attempt and,
  where the host must vouch for it, only after its verifier accepted it; and the reader of the record
  then finds it current, so that the edge or the gate it was recorded for moves on.
\<close>

section \<open>What the effective status depends on\<close>

text \<open>
  Two runtimes with the same canvas, plan, run, outputs, completion outputs and assessments have the
  same effective statuses and current assessments: approvals, decisions, contexts and gate checks do
  not enter them.
\<close>

lemmas branch_congs = if_cong option.case_cong prod.case_cong edge_config.case_cong node_data.case_cong

definition same_reviews :: "runtime \<Rightarrow> runtime \<Rightarrow> bool" where
  "same_reviews rt rt' =
     (rt_canvas rt' = rt_canvas rt \<and> rt_plan rt' = rt_plan rt \<and> rt_run rt' = rt_run rt
      \<and> ev_outputPublications (rt_evidence rt') = ev_outputPublications (rt_evidence rt)
      \<and> ev_nodeCompletionOutputs (rt_evidence rt') = ev_nodeCompletionOutputs (rt_evidence rt)
      \<and> ev_reviewerAssessments (rt_evidence rt') = ev_reviewerAssessments (rt_evidence rt))"

lemma same_reviews_reads:
  assumes "same_reviews rt rt'"
  shows "run_of rt' = run_of rt" and "find_node rt' = find_node rt" and "find_edge rt' = find_edge rt"
    and "nodeById rt' = nodeById rt" and "edgeById rt' = edgeById rt" and "is_planned rt' = is_planned rt"
    and "run_id rt' = run_id rt" and "attempt_of rt' = attempt_of rt" and "agent_reviews rt' = agent_reviews rt"
    and "currentOutputPublicationsForNode rt' = currentOutputPublicationsForNode rt"
    and "reviewedSourceIdsForGate rt' = reviewedSourceIdsForGate rt"
    and "reviewedSourceForGate rt' = reviewedSourceForGate rt"
    and "currentCausalCheckPublications rt' = currentCausalCheckPublications rt"
    and "gate_data_of rt' = gate_data_of rt" and "assertPlannedEdge rt' = assertPlannedEdge rt"
proof -
  show run: "run_of rt' = run_of rt" and "find_node rt' = find_node rt" and "find_edge rt' = find_edge rt"
    and planned: "is_planned rt' = is_planned rt" and id: "run_id rt' = run_id rt"
    using assms by (auto simp: same_reviews_def run_of_def find_node_def find_edge_def is_planned_def run_id_def fun_eq_iff)
  then show node: "nodeById rt' = nodeById rt" and "edgeById rt' = edgeById rt" and att: "attempt_of rt' = attempt_of rt"
    and "assertPlannedEdge rt' = assertPlannedEdge rt"
    by (simp_all add: nodeById_def edgeById_def attempt_of_def assertPlannedEdge_def fun_eq_iff)
  show "agent_reviews rt' = agent_reviews rt"
    using assms by (simp add: agent_reviews_def planned same_reviews_def fun_eq_iff)
  show "currentOutputPublicationsForNode rt' = currentOutputPublicationsForNode rt"
    using assms by (simp add: currentOutputPublicationsForNode_def att id same_reviews_def fun_eq_iff cong: branch_congs)
  show src: "reviewedSourceIdsForGate rt' = reviewedSourceIdsForGate rt"
    using assms by (simp add: reviewedSourceIdsForGate_def same_reviews_def fun_eq_iff)
  then show "reviewedSourceForGate rt' = reviewedSourceForGate rt" by (simp add: reviewedSourceForGate_def fun_eq_iff)
  have "causal_publication rt' = causal_publication rt"
    using assms by (simp add: causal_publication_def att id same_reviews_def fun_eq_iff cong: branch_congs)
  with planned assms show "currentCausalCheckPublications rt' = currentCausalCheckPublications rt"
    by (simp add: currentCausalCheckPublications_def same_reviews_def fun_eq_iff cong: branch_congs)
  show "gate_data_of rt' = gate_data_of rt" by (simp add: gate_data_of_def node fun_eq_iff)
qed

lemma same_reviews_status:
  assumes same: "same_reviews rt rt'"
  shows "canvasNodeStatus rt' = canvasNodeStatus rt"
    and "currentReviewerAssessmentForEdge rt' = currentReviewerAssessmentForEdge rt"
proof -
  note reads = same_reviews_reads [OF same]
  have bound: "assessment_bound rt' = assessment_bound rt" "digest_current rt' = digest_current rt"
    using same by (simp_all add: assessment_bound_def digest_current_def reads same_reviews_def fun_eq_iff cong: branch_congs)
  have step: "assessment_step f rt' = assessment_step f rt" for f
    using same by (simp add: assessment_step_def bound reads same_reviews_def fun_eq_iff cong: branch_congs)
  have fuel: "status_fuel n rt' = status_fuel n rt" for n
  proof (induction n)
    case 0
    show ?case by (simp add: fun_eq_iff)
  next
    case (Suc n)
    then show ?case by (intro ext) (simp add: status_step_def reads step cong: branch_congs)
  qed
  have "canvas_edges (rt_canvas rt') = canvas_edges (rt_canvas rt)" using same by (simp add: same_reviews_def)
  then show status: "canvasNodeStatus rt' = canvasNodeStatus rt" by (simp add: canvasNodeStatus_def fuel fun_eq_iff)
  then show "currentReviewerAssessmentForEdge rt' = currentReviewerAssessmentForEdge rt"
    by (intro ext) (simp add: currentReviewerAssessmentForEdge_def step)
qed

lemma same_reviews_checks:
  assumes same: "same_reviews rt rt'"
    and checks: "ev_gateChecks (rt_evidence rt') = ev_gateChecks (rt_evidence rt)"
    and contexts: "ev_contextResolutions (rt_evidence rt') = ev_contextResolutions (rt_evidence rt)"
  shows "approvalRequestUnchecked rt' = approvalRequestUnchecked rt" and "currentGateChecks rt' = currentGateChecks rt"
proof -
  note reads = same_reviews_reads [OF same] and status = same_reviews_status [OF same]
  have "check_current rt' = check_current rt"
    by (simp add: check_current_def reads fun_eq_iff cong: branch_congs)
  then show gate: "currentGateChecks rt' = currentGateChecks rt"
    using checks by (intro ext) (simp add: currentGateChecks_def reads status cong: branch_congs)
  have target: "approval_target_of rt' = approval_target_of rt"
    by (simp add: approval_target_of_def reads fun_eq_iff cong: branch_congs)
  have "relevantChecks rt' = relevantChecks rt" "relevant_assessment rt' = relevant_assessment rt"
    "approval_evidence rt' = approval_evidence rt"
    using same contexts by (simp_all add: relevantChecks_def relevant_assessment_def approval_evidence_def
        reviewed_run_json_def relevantOutputs_def relevantContexts_def reads status gate same_reviews_def fun_eq_iff cong: branch_congs)
  with same show "approvalRequestUnchecked rt' = approvalRequestUnchecked rt"
    by (intro ext) (simp add: approvalRequestUnchecked_def target reads same_reviews_def cong: branch_congs)
qed

section \<open>Approvals\<close>

lemma edgeById_Inr: "edgeById rt i = Inr e \<longleftrightarrow> find_edge rt i = Some e"
  by (simp add: edgeById_def split: option.split)

lemma find_edgeD:
  assumes "find_edge rt i = Some e"
  shows "e \<in> set (canvas_edges (rt_canvas rt))" and "edge_id e = i"
  using assms by (auto simp: find_edge_def dest: find_SomeD)

lemma approveWorkflowHumanDecision_InrE:
  assumes "approveWorkflowHumanDecision rt a = Inr rt'"
  obtains q where "HumanApproval_ok a" "getWorkflowHumanApprovalRequest rt (hr_targetId a) = Inr q"
    and "hr_targetType q \<noteq> HumanReviewTarget"
    and "hr_runId a = hr_runId q" "hr_targetType a = hr_targetType q" "hr_targetAttempt a = hr_targetAttempt q"
    and "hr_evidenceFingerprint a = hr_evidenceFingerprint q"
    and "rt' = rt\<lparr> rt_evidence := (rt_evidence rt)\<lparr> ev_humanApprovals :=
           obj_put (hr_targetId a) a (ev_humanApprovals (rt_evidence rt)) \<rparr> \<rparr>"
  using assms by (auto simp: approveWorkflowHumanDecision_def res_bind_eq_Inr split: if_splits)

lemma getWorkflowHumanApprovalRequest_Inr:
  assumes "getWorkflowHumanApprovalRequest rt i = Inr q"
  shows "approvalRequestUnchecked rt i = Inr q" and "\<not> hasCurrentHumanApproval rt i"
    and "find_edge rt i = Some e \<Longrightarrow> is_planned rt e \<and> edge_waits rt e = Inr True"
    and "find_edge rt i = None \<Longrightarrow> gate_waits rt (find_node rt i) = Inr True"
  using assms
  by (auto simp: getWorkflowHumanApprovalRequest_def Let_def res_bind_eq_Inr split: if_splits option.splits)

lemma approvalRequestUnchecked_id:
  "approvalRequestUnchecked rt i = Inr q \<Longrightarrow> hr_targetId q = i \<and> hr_runId q = run_id rt"
  by (auto simp: approvalRequestUnchecked_def res_bind_eq_Inr split: option.splits)

lemma approve_makes_current:
  assumes "approveWorkflowHumanDecision rt a = Inr rt'"
  shows "hasCurrentHumanApproval rt' (hr_targetId a)" and "\<not> hasCurrentHumanApproval rt (hr_targetId a)"
    and "same_reviews rt rt'" and "currentGateChecks rt' = currentGateChecks rt"
proof -
  from assms obtain q where q: "getWorkflowHumanApprovalRequest rt (hr_targetId a) = Inr q"
    and eqs: "hr_runId a = hr_runId q" "hr_targetType a = hr_targetType q" "hr_targetAttempt a = hr_targetAttempt q"
      "hr_evidenceFingerprint a = hr_evidenceFingerprint q"
    and rt': "rt' = rt\<lparr> rt_evidence := (rt_evidence rt)\<lparr> ev_humanApprovals :=
           obj_put (hr_targetId a) a (ev_humanApprovals (rt_evidence rt)) \<rparr> \<rparr>"
    by (rule approveWorkflowHumanDecision_InrE)
  show same: "same_reviews rt rt'" by (simp add: same_reviews_def rt')
  note checks = same_reviews_checks [OF same]
  show "currentGateChecks rt' = currentGateChecks rt" by (rule checks(2)) (simp_all add: rt')
  note q' = getWorkflowHumanApprovalRequest_Inr(1) [OF q]
  have "approvalRequestUnchecked rt' (hr_targetId a) = Inr q"
    using q' checks(1) by (simp add: rt')
  moreover have "obj_get (ev_humanApprovals (rt_evidence rt')) (hr_targetId a) = Some a" by (simp add: rt')
  ultimately show "hasCurrentHumanApproval rt' (hr_targetId a)"
    using eqs approvalRequestUnchecked_id [OF q'] by (simp add: hasCurrentHumanApproval_def)
  show "\<not> hasCurrentHumanApproval rt (hr_targetId a)" using getWorkflowHumanApprovalRequest_Inr(2) [OF q] .
qed

interpretation approving: evidence_operation "\<lambda>rt. approveWorkflowHumanDecision rt a" for a
  by unfold_locales (blast elim: approveWorkflowHumanDecision_InrE)

lemma approve_rejects_replay:
  assumes ok: "approveWorkflowHumanDecision rt a = Inr rt'" and again: "HumanApproval_ok b" "hr_targetId b = hr_targetId a"
  shows "approveWorkflowHumanDecision rt' b = Inl (not_waiting (hr_targetId a))"
proof -
  from ok obtain q where q: "getWorkflowHumanApprovalRequest rt (hr_targetId a) = Inr q" by (rule approveWorkflowHumanDecision_InrE)
  note made = approve_makes_current [OF ok]
  note reads = same_reviews_reads [OF made(3)]
  have "\<not> (case find_edge rt' (hr_targetId a) of None \<Rightarrow> False | Some e \<Rightarrow> \<not> is_planned rt' e)"
    using getWorkflowHumanApprovalRequest_Inr(3) [OF q] by (auto simp: reads split: option.split)
  then have "getWorkflowHumanApprovalRequest rt' (hr_targetId a) = Inl (not_waiting (hr_targetId a))"
    using made(1) by (simp add: getWorkflowHumanApprovalRequest_def)
  with again show ?thesis by (simp add: approveWorkflowHumanDecision_def HumanApprovalSchema_parse_def)
qed

lemma evaluate_execute_waiting:
  assumes "evaluate_execute rt e c s = Inr v" and "ee_disposition v = EdgeWaitingForApproval" and "exe_approval c = ApproveHuman"
  shows "\<not> review_refused rt (edge_sourceNodeId e)" and "trigger_satisfied (exe_trigger c) s"
  using assms
  by (auto simp: evaluate_execute_def review_refused_def evaluate_untriggered_def execute_ready_def Let_def split: if_splits option.splits)

lemma approve_releases_execution:
  assumes ok: "approveWorkflowHumanDecision rt a = Inr rt'"
    and e: "find_edge rt (hr_targetId a) = Some e" "edge_config e = Execute c" "exe_approval c = ApproveHuman"
  shows "opens (evaluateExecutableEdge rt' e)"
proof -
  from ok obtain q where q: "getWorkflowHumanApprovalRequest rt (hr_targetId a) = Inr q" by (rule approveWorkflowHumanDecision_InrE)
  note made = approve_makes_current [OF ok]
  note reads = same_reviews_reads [OF made(3)] and status = same_reviews_status [OF made(3)]
  have w: "is_planned rt e" "edge_waits rt e = Inr True"
    using getWorkflowHumanApprovalRequest_Inr(3) [OF q e(1)] by auto
  then obtain v where v: "evaluateExecutableEdge rt e = Inr v" "ee_disposition v = EdgeWaitingForApproval"
    by (auto simp: edge_waits_def res_bind_eq_Inr split: if_splits)
  then obtain s where s: "canvasNodeStatus rt (edge_sourceNodeId e) = Inr s" "evaluate_execute rt e c s = Inr v"
    using e(2) by (auto simp: evaluateExecutableEdge_def res_bind_eq_Inr)
  note wait = evaluate_execute_waiting [OF s(2) v(2) e(3)]
  have "edge_id e = hr_targetId a" using find_edgeD(2) [OF e(1)] .
  with made(1) have "approved_execution rt' e c" using e(3) by (simp add: approved_execution_def)
  moreover have "\<not> review_refused rt' (edge_sourceNodeId e)" using wait(1) by (simp add: review_refused_def reads)
  ultimately have "opens (evaluate_execute rt' e c s)" using wait(2) by (simp add: evaluate_execute_satisfied)
  then show ?thesis
    using w(1) s(1) e(2) by (simp add: evaluateExecutableEdge_def assertPlannedEdge_def reads status)
qed

text \<open>
  Approving records exactly one approval: it was asked for (the target waits and has no current
  approval), it changes nothing but the evidence, and afterwards it is current: the same target cannot
  be approved again, and an execute edge that waited for a person is satisfied.
\<close>

theorem approveWorkflowHumanDecision_correct:
  assumes ok: "approveWorkflowHumanDecision rt a = Inr rt'"
  shows "hasCurrentHumanApproval rt' (hr_targetId a) \<and> \<not> hasCurrentHumanApproval rt (hr_targetId a)
    \<and> (\<exists>ev. rt' = rt\<lparr> rt_evidence := ev \<rparr>)
    \<and> (\<forall>b. HumanApproval_ok b \<and> hr_targetId b = hr_targetId a
         \<longrightarrow> approveWorkflowHumanDecision rt' b = Inl (not_waiting (hr_targetId a)))
    \<and> (\<forall>e c. find_edge rt (hr_targetId a) = Some e \<and> edge_config e = Execute c \<and> exe_approval c = ApproveHuman
         \<longrightarrow> opens (evaluateExecutableEdge rt' e))"
  using approve_makes_current(1,2) [OF ok] approving.evidence_only [OF ok] approve_rejects_replay [OF ok]
    approve_releases_execution [OF ok] by blast

section \<open>Context resolutions and outputs\<close>

lemma recordWorkflowContextResolution_InrE:
  assumes "recordWorkflowContextResolution rt r verifier = Inr rt'"
  obtains e c where "find_edge rt (cr_edgeId r) = Some e" "edge_config e = Context c" "is_planned rt e"
    and "is_pending rt (edge_targetNodeId e)" "resolution_current rt e r"
    and "set (cr_attachmentIds r) = set (ctx_attachmentIds c)"
    and "ContextResolution_ok r" "verifyContextResolution verifier r"
    and "rt' = rt\<lparr> rt_evidence := (rt_evidence rt)\<lparr> ev_contextResolutions :=
           obj_put (edge_id e) r (ev_contextResolutions (rt_evidence rt)) \<rparr> \<rparr>"
proof -
  from assms obtain e where e0: "find_edge rt (cr_edgeId r) = Some e" "ContextResolution_ok r"
    by (auto simp: recordWorkflowContextResolution_def res_bind_eq_Inr edgeById_Inr)
  with assms obtain c where e: "find_edge rt (cr_edgeId r) = Some e" "edge_config e = Context c" "ContextResolution_ok r"
    by (cases "edge_config e") (simp_all add: recordWorkflowContextResolution_def ContextResolutionSchema_parse_def edgeById_def)
  with assms obtain t where t: "run_of rt (edge_targetNodeId e) = Some t" "pending_status (nr_status t)" "is_planned rt e"
    and b: "cr_runId r = run_id rt" "cr_sourceNodeId r = edge_sourceNodeId e" "cr_targetNodeId r = edge_targetNodeId e"
      "cr_targetAttempt r = nr_attempt t" "uniqueSorted (cr_attachmentIds r) = uniqueSorted (ctx_attachmentIds c)"
      "verifyContextResolution verifier r"
    and rt': "rt' = rt\<lparr> rt_evidence := (rt_evidence rt)\<lparr> ev_contextResolutions :=
           obj_put (edge_id e) r (ev_contextResolutions (rt_evidence rt)) \<rparr> \<rparr>"
    by (auto simp: recordWorkflowContextResolution_def ContextResolutionSchema_parse_def res_bind_eq_Inr edgeById_def
        assertPlannedEdge_def split: option.splits if_splits)
  show ?thesis
    using that [OF e(1,2) t(3) _ _ _ e(3) b(6) rt'] t b
    by (simp add: is_pending_def pending_status_def resolution_current_def attempt_of_def uniqueSorted_eq_iff)
qed

interpretation resolving: evidence_operation "\<lambda>rt. recordWorkflowContextResolution rt r verifier" for r verifier
  by unfold_locales (blast elim: recordWorkflowContextResolution_InrE)

lemma runtime_source_total:
  assumes "runtime_shape rt" and "e \<in> set (canvas_edges (rt_canvas rt))"
  shows "\<exists>s. canvasNodeStatus rt (edge_sourceNodeId e) = Inr s"
proof -
  have "wellformed_canvas (rt_canvas rt)" using assms(1) by (simp add: runtime_shape_def)
  from canvasNodeStatus_total [OF assms(1) wellformed_edge_ends(1) [OF this assms(2)]] show ?thesis .
qed

text \<open>
  A context resolution is stored only while its target is pending in the attempt it names, for the
  configured attachments, and after the host's verifier accepted it. The context edge then releases
  its target, whatever was recorded before.
\<close>

theorem recordWorkflowContextResolution_releases:
  assumes shape: "runtime_shape rt" and ok: "recordWorkflowContextResolution rt r verifier = Inr rt'"
  shows "verifyContextResolution verifier r
    \<and> (\<exists>e c. find_edge rt (cr_edgeId r) = Some e \<and> edge_config e = Context c
         \<and> is_pending rt (edge_targetNodeId e) \<and> attempt_of rt (edge_targetNodeId e) = Some (cr_targetAttempt r)
         \<and> (ctx_attachmentIds c \<noteq> [] \<longrightarrow> released rt' e)
         \<and> rt' = rt\<lparr> rt_evidence := (rt_evidence rt)\<lparr> ev_contextResolutions :=
             obj_put (edge_id e) r (ev_contextResolutions (rt_evidence rt)) \<rparr> \<rparr>)"
proof -
  from ok obtain e c where e: "find_edge rt (cr_edgeId r) = Some e" "edge_config e = Context c" "is_planned rt e"
    and cur: "is_pending rt (edge_targetNodeId e)" "resolution_current rt e r"
      "set (cr_attachmentIds r) = set (ctx_attachmentIds c)" and v: "verifyContextResolution verifier r"
    and rt': "rt' = rt\<lparr> rt_evidence := (rt_evidence rt)\<lparr> ev_contextResolutions :=
           obj_put (edge_id e) r (ev_contextResolutions (rt_evidence rt)) \<rparr> \<rparr>"
    by (rule recordWorkflowContextResolution_InrE)
  have same: "same_reviews rt rt'" by (simp add: same_reviews_def rt')
  note reads = same_reviews_reads [OF same]
  obtain s where s: "canvasNodeStatus rt' (edge_sourceNodeId e) = Inr s"
    using runtime_source_total [OF shape find_edgeD(1) [OF e(1)]] same_reviews_status(1) [OF same] by auto
  have "resolution_current rt' e r" using cur(2) by (simp add: resolution_current_def reads)
  moreover have "obj_get (ev_contextResolutions (rt_evidence rt')) (edge_id e) = Some r" by (simp add: rt')
  ultimately have "verified_context rt' e c" using cur(3) by (simp add: verified_context_def)
  with s e(2) have "ctx_attachmentIds c \<noteq> [] \<longrightarrow> released rt' e" by (simp add: released_def)
  with e cur v rt' show ?thesis by (simp add: resolution_current_def)
qed

lemma publishWorkflowOutput_InrE:
  assumes "publishWorkflowOutput rt p verifier = Inr rt'"
  obtains e c where "find_edge rt (op_edgeId p) = Some e" "edge_config e = Output c" "is_planned rt e"
    and "canvasNodeStatus rt (edge_sourceNodeId e) = Inr Succeeded" "is_pending rt (edge_targetNodeId e)"
    and "publication_current rt e c p" "OutputPublication_ok p" "verifyOutputPublication verifier p"
    and "rt' = rt\<lparr> rt_evidence := (rt_evidence rt)\<lparr> ev_outputPublications :=
           obj_put (edge_id e) p (ev_outputPublications (rt_evidence rt)) \<rparr> \<rparr>"
proof -
  from assms obtain e where e0: "find_edge rt (op_edgeId p) = Some e" "OutputPublication_ok p"
    by (auto simp: publishWorkflowOutput_def res_bind_eq_Inr edgeById_Inr)
  with assms obtain c where e: "edge_config e = Output c"
    by (cases "edge_config e") (simp_all add: publishWorkflowOutput_def OutputPublicationSchema_parse_def edgeById_def)
  from assms e0 e have facts: "is_planned rt e" "canvasNodeStatus rt (edge_sourceNodeId e) = Inr Succeeded"
      "consumer_pending rt e" "publication_binding rt e p = Inr ()" "out_outputKind c = op_outputKind p"
      "verifyOutputPublication verifier p"
    and rt': "rt' = rt\<lparr> rt_evidence := (rt_evidence rt)\<lparr> ev_outputPublications :=
           obj_put (edge_id e) p (ev_outputPublications (rt_evidence rt)) \<rparr> \<rparr>"
    by (simp_all add: publishWorkflowOutput_def OutputPublicationSchema_parse_def edgeById_def assertPlannedEdge_def
        res_bind_eq_Inr)
  have "publication_current rt e c p"
    using facts(4,5) by (auto simp: publication_binding_def Let_def publication_current_def attempt_of_def
        split: if_splits option.splits)
  moreover have "is_pending rt (edge_targetNodeId e)"
    using facts(3) by (simp add: consumer_pending_def is_pending_def pending_status_def split: option.splits)
  ultimately show ?thesis using that [OF e0(1) e facts(1,2) _ _ e0(2) facts(6) rt'] by blast
qed

interpretation publishing: evidence_operation "\<lambda>rt. publishWorkflowOutput rt p verifier" for p verifier
  by unfold_locales (blast elim: publishWorkflowOutput_InrE)

text \<open>
  An output is published only by the current attempt of an effectively succeeded source, before its
  consumer starts, in the kind the edge is configured for, and after the host's verifier accepted it.
  The edge then releases its consumer.
\<close>

theorem publishWorkflowOutput_releases:
  assumes shape: "runtime_shape rt" and ok: "publishWorkflowOutput rt p verifier = Inr rt'"
  shows "verifyOutputPublication verifier p
    \<and> (\<exists>e c. find_edge rt (op_edgeId p) = Some e \<and> edge_config e = Output c
         \<and> canvasNodeStatus rt (edge_sourceNodeId e) = Inr Succeeded
         \<and> attempt_of rt (edge_sourceNodeId e) = Some (op_producerAttempt p)
         \<and> is_pending rt (edge_targetNodeId e) \<and> out_outputKind c = op_outputKind p
         \<and> published rt' e c \<and> released rt' e
         \<and> rt' = rt\<lparr> rt_evidence := (rt_evidence rt)\<lparr> ev_outputPublications :=
             obj_put (edge_id e) p (ev_outputPublications (rt_evidence rt)) \<rparr> \<rparr>)"
proof -
  from ok obtain e c where e: "find_edge rt (op_edgeId p) = Some e" "edge_config e = Output c" "is_planned rt e"
    and cur: "canvasNodeStatus rt (edge_sourceNodeId e) = Inr Succeeded" "is_pending rt (edge_targetNodeId e)"
      "publication_current rt e c p" and v: "verifyOutputPublication verifier p"
    and rt': "rt' = rt\<lparr> rt_evidence := (rt_evidence rt)\<lparr> ev_outputPublications :=
           obj_put (edge_id e) p (ev_outputPublications (rt_evidence rt)) \<rparr> \<rparr>"
    by (rule publishWorkflowOutput_InrE)
  have "run_of rt' = run_of rt" "run_id rt' = run_id rt" by (simp_all add: rt' run_of_def run_id_def fun_eq_iff)
  then have "publication_current rt' e c p" using cur(3) by (simp add: publication_current_def attempt_of_def)
  then have pub: "published rt' e c" by (simp add: published_def) (simp add: rt')
  moreover have "e \<in> set (canvas_edges (rt_canvas rt'))" using find_edgeD(1) [OF e(1)] by (simp add: rt')
  from runtime_source_total [OF publishing.keeps_shape [OF shape ok] this]
  obtain s where "canvasNodeStatus rt' (edge_sourceNodeId e) = Inr s" by blast
  ultimately have "released rt' e" by (simp add: released_def e(2))
  with pub e cur v rt' show ?thesis by (simp add: publication_current_def)
qed

section \<open>Gate checks\<close>

definition valid_publications :: "runtime \<Rightarrow> bool" where
  "valid_publications rt = list_all OutputPublication_ok (obj_values (ev_outputPublications (rt_evidence rt)))"

lemma not_after_at_most:
  "is_timestamp a \<Longrightarrow> is_timestamp b \<Longrightarrow> \<not> date_after a b \<Longrightarrow> date_at_most a b"
  by (auto simp: is_timestamp_def date_after_def date_at_most_def split: option.splits)

lemma record_check_current:
  assumes shape: "runtime_shape rt" and valid: "valid_publications rt"
    and src: "run_of rt s = Some srun" and run: "ck_runId k = run_id rt"
    and ok: "record_check rt gid g s srun verifier k = Inr ()"
  shows "check_current rt s k" and "ck_id k \<in> set (rg_requiredCheckIds g)" and "verifyCheckResult verifier k"
proof -
  from ok obtain p a where pa: "ck_producerNodeId k = Some p" "ck_producerAttempt k = Some a"
    and id: "ck_id k \<in> set (rg_requiredCheckIds g)" and bind: "check_binding rt s srun verifier k p a = Inr ()"
    by (auto simp: record_check_def split: if_splits option.splits)
  from bind obtain d r where pr: "producer_of rt p = Inr (d, r)"
    and b: "nr_attempt r = a" "ck_reviewedNodeId k = Some s" "ck_reviewedNodeAttempt k = Some (nr_attempt srun)"
      "ck_reviewedOutputDigest k \<noteq> None" "nr_status r \<in> set (expectedProducerStatuses (ck_status k))"
    and caus: "check_causality rt s p d r verifier k = Inr ()"
    by (auto simp: check_binding_def res_bind_eq_Inr split: if_splits)
  have r: "run_of rt p = Some r"
  proof (cases "nodeById rt p")
    case (Inl x)
    with pr show ?thesis by (simp add: producer_of_def)
  next
    case (Inr n)
    with pr show ?thesis by (cases "node_data n"; cases "run_of rt p") (simp_all add: producer_of_def)
  qed
  from caus obtain q where q: "check_publication rt s p k = Some q" "\<not> started_too_early q r" "verifyCheckResult verifier k"
    by (auto simp: check_causality_def split: option.splits if_splits)
  then have mem: "q \<in> set (currentCausalCheckPublications rt s p)" "Some (op_contentDigest q) = ck_reviewedOutputDigest k"
    by (auto simp: check_publication_def dest: find_SomeD)
  have "is_timestamp (op_verifiedAt q)"
    using causal_publicationD [OF mem(1)] valid
    by (auto simp: valid_publications_def list_all_iff OutputPublication_ok_def dest: obj_get_value)
  moreover have "opt_ok is_timestamp (nr_startedAt r)"
    using runtime_shape_run(1) [OF shape r] by (simp add: NodeRunState_ok_def)
  ultimately have "verified_before_start q r"
    using q(2) not_after_at_most
    by (auto simp: verified_before_start_def started_too_early_def opt_ok_def split: option.splits)
  with mem have "list_ex (\<lambda>p. Some (op_contentDigest p) = ck_reviewedOutputDigest k \<and> verified_before_start p r)
      (currentCausalCheckPublications rt s p)" by (auto simp: list_ex_iff)
  then show "check_current rt s k"
    using pa b r src run by (simp add: check_current_def attempt_of_def)
  show "ck_id k \<in> set (rg_requiredCheckIds g)" and "verifyCheckResult verifier k" by fact+
qed

lemma recordWorkflowGateChecks_InrE:
  assumes "recordWorkflowGateChecks rt gid checks verifier = Inr rt'"
  obtains g s srun where "gate_data_of rt gid = Inr g" "is_pending rt gid" "reviewedSourceForGate rt gid = Inr s"
    and "run_of rt s = Some srun" "nr_status srun = Succeeded" "canvasNodeStatus rt s = Inr Succeeded"
    and "list_all CheckResult_ok checks" "list_all (\<lambda>k. ck_runId k = run_id rt) checks" "distinct (map ck_id checks)"
    and "list_all (\<lambda>k. record_check rt gid g s srun verifier k = Inr ()) checks"
    and "rt' = rt\<lparr> rt_evidence := (rt_evidence rt)\<lparr> ev_gateChecks :=
           obj_put gid checks (ev_gateChecks (rt_evidence rt)) \<rparr> \<rparr>"
proof -
  have parse: "map_res CheckResultSchema_parse xs = Inr ys \<Longrightarrow> list_all CheckResult_ok xs \<and> ys = xs" for xs ys
    by (induction xs arbitrary: ys) (auto simp: res_bind_eq_Inr)
  from assms obtain g s srun parsed where g: "gate_data_of rt gid = Inr g" "gate_accepts_checks rt gid = Inr ()"
      "reviewedSourceForGate rt gid = Inr s" "reviewed_run_for_checks rt s = Inr srun"
    and p: "map_res CheckResultSchema_parse checks = Inr parsed" "\<not> list_ex (\<lambda>k. ck_runId k \<noteq> run_id rt) parsed"
      "length (new_Set (map ck_id parsed)) = length parsed"
      "for_each (record_check rt gid g s srun verifier) parsed = Inr ()"
    and rt': "rt' = rt\<lparr> rt_evidence := (rt_evidence rt)\<lparr> ev_gateChecks :=
           obj_put gid parsed (ev_gateChecks (rt_evidence rt)) \<rparr> \<rparr>"
    by (auto simp: recordWorkflowGateChecks_def res_bind_eq_Inr)
  from parse [OF p(1)] have ok: "list_all CheckResult_ok checks" and eq: "parsed = checks" by simp_all
  have "is_pending rt gid"
    using g(2) by (auto simp: gate_accepts_checks_def is_pending_def pending_status_def split: option.splits)
  moreover have "run_of rt s = Some srun" "nr_status srun = Succeeded" "canvasNodeStatus rt s = Inr Succeeded"
    using g(4) by (auto simp: reviewed_run_for_checks_def Let_def res_bind_eq_Inr split: option.splits if_splits)
  moreover have "distinct (map ck_id checks)" using p(3) length_new_Set_iff [of "map ck_id checks"] by (simp add: eq)
  moreover have "list_all (\<lambda>k. ck_runId k = run_id rt) checks" using p(2) by (auto simp: eq list_all_iff list_ex_iff)
  moreover have "list_all (\<lambda>k. record_check rt gid g s srun verifier k = Inr ()) checks"
    using p(4) by (simp add: eq for_each_Inr_iff list_all_iff)
  ultimately show ?thesis using that g(1,3) ok rt' eq by blast
qed

interpretation gate_checking: evidence_operation "\<lambda>rt. recordWorkflowGateChecks rt gid checks verifier" for gid checks verifier
  by unfold_locales (blast elim: recordWorkflowGateChecks_InrE)

text \<open>
  Recording gate checks and reading them back agree: when the recorder accepts a list of checks, the
  gate finds exactly that list current. Each check was vouched for by the host's verifier and is one
  of the checks the gate requires, and the gate had not started.
\<close>

theorem recordWorkflowGateChecks_roundtrip:
  assumes shape: "runtime_shape rt" and valid: "valid_publications rt"
    and ok: "recordWorkflowGateChecks rt gid checks verifier = Inr rt'"
  shows "currentGateChecks rt' gid = Inr checks
    \<and> list_all (verifyCheckResult verifier) checks \<and> is_pending rt gid
    \<and> (\<exists>g. gate_data_of rt gid = Inr g \<and> set (map ck_id checks) \<subseteq> set (rg_requiredCheckIds g))
    \<and> (\<exists>ev. rt' = rt\<lparr> rt_evidence := ev \<rparr>)"
proof -
  from ok obtain g s srun where g: "gate_data_of rt gid = Inr g" "is_pending rt gid" "reviewedSourceForGate rt gid = Inr s"
    and src: "run_of rt s = Some srun" "nr_status srun = Succeeded" "canvasNodeStatus rt s = Inr Succeeded"
    and all: "list_all (\<lambda>k. ck_runId k = run_id rt) checks" "list_all (\<lambda>k. record_check rt gid g s srun verifier k = Inr ()) checks"
    and rt': "rt' = rt\<lparr> rt_evidence := (rt_evidence rt)\<lparr> ev_gateChecks :=
           obj_put gid checks (ev_gateChecks (rt_evidence rt)) \<rparr> \<rparr>"
    by (rule recordWorkflowGateChecks_InrE)
  have same: "same_reviews rt rt'" by (simp add: same_reviews_def rt')
  note reads = same_reviews_reads [OF same] and status = same_reviews_status [OF same]
  have each: "check_current rt s k \<and> ck_id k \<in> set (rg_requiredCheckIds g) \<and> verifyCheckResult verifier k" if "k \<in> set checks" for k
    using record_check_current [OF shape valid src(1), of k gid g verifier] all that by (simp add: list_all_iff)
  have cur: "check_current rt' = check_current rt"
    by (simp add: check_current_def reads fun_eq_iff cong: branch_congs)
  have stored: "(case obj_get (ev_gateChecks (rt_evidence rt')) gid of None \<Rightarrow> [] | Some ks \<Rightarrow> ks) = checks"
    by (simp add: rt')
  have "currentGateChecks rt' gid = Inr checks"
  proof (cases "rg_requiredCheckIds g = [] \<and> \<not> rg_testsRequired g \<and> \<not> rg_lintRequired g")
    case True
    then have "checks = []" using each by (cases checks) auto
    with True g(1) show ?thesis by (simp add: currentGateChecks_def reads)
  next
    case False
    have "filter (check_current rt s) checks = checks" using each by (simp add: filter_id_conv)
    with False g(1,3) src show ?thesis
      by (auto simp: currentGateChecks_def reads status cur stored)
  qed
  moreover have "set (map ck_id checks) \<subseteq> set (rg_requiredCheckIds g)" "list_all (verifyCheckResult verifier) checks"
    using each by (auto simp: list_all_iff)
  ultimately show ?thesis using g rt' by blast
qed

section \<open>Human review decisions\<close>

lemma evidence_change:
  assumes "runtime_shape rt"
  shows "evolves rt (rt\<lparr> rt_evidence := ev \<rparr>)" and "starts_nothing rt (rt\<lparr> rt_evidence := ev \<rparr>)"
    and "runtime_shape (rt\<lparr> rt_evidence := ev \<rparr>)" and "run_of (rt\<lparr> rt_evidence := ev \<rparr>) = run_of rt"
proof -
  show same: "run_of (rt\<lparr> rt_evidence := ev \<rparr>) = run_of rt" by (simp add: run_of_def fun_eq_iff)
  with assms show "evolves rt (rt\<lparr> rt_evidence := ev \<rparr>)" by (auto simp: evolves_def runtime_shape_def)
  from same show "starts_nothing rt (rt\<lparr> rt_evidence := ev \<rparr>)" by (simp add: starts_nothing_def active_at_def)
  from assms show "runtime_shape (rt\<lparr> rt_evidence := ev \<rparr>)" by (simp add: runtime_shape_def)
qed

definition decided_status :: "verdict \<Rightarrow> run_status" where
  "decided_status v = (if v = Approved then Succeeded else Failed)"

lemma finish_human_review_facts:
  assumes shape: "runtime_shape rt" and ok: "finish_human_review rt e d = Inr rt'"
  shows "evolves rt rt'" and "starts_nothing rt rt'" and "others_settled rt (edge_targetNodeId e) rt'"
    and "is_pending rt (edge_targetNodeId e)"
    and "\<exists>r'. run_of rt' (edge_targetNodeId e) = Some r' \<and> nr_status r' = decided_status (hd_decision d)
          \<and> attempt_of rt (edge_targetNodeId e) = Some (nr_attempt r')"
    and "rt_evidence rt' = (rt_evidence rt)\<lparr> ev_humanReviewDecisions :=
          obj_put (edge_id e) d (ev_humanReviewDecisions (rt_evidence rt)) \<rparr>"
    and "rt_activeRevisionLoopIds rt' = rt_activeRevisionLoopIds rt"
    and "rt_cancellationRequested rt' = rt_cancellationRequested rt"
    and "wr_revisionLoops (rt_run rt') = wr_revisionLoops (rt_run rt)"
proof -
  from ok obtain r rt1 where r: "run_of rt (edge_targetNodeId e) = Some r" "nr_status r = Queued \<or> nr_status r = WaitingForApproval"
    and put: "replace_node_run rt (edge_targetNodeId e) (completed_review r d) (hd_decidedAt d) = Inr rt1"
    and settle: "settleBlockedWorkflowNodes (put_decision (edge_id e) d rt1) (hd_decidedAt d) = Inr rt'"
    by (auto simp: finish_human_review_def res_bind_eq_Inr split: option.splits if_splits)
  let ?r' = "completed_review r d"
  have r': "nr_attempt ?r' = nr_attempt r" "nr_status ?r' = decided_status (hd_decision d)"
    by (simp_all add: completed_review_def decided_status_def)
  then have le: "nr_attempt r \<le> nr_attempt ?r'" and fin: "isTerminalRunStatus (nr_status ?r')"
    by (simp_all add: decided_status_def)
  have rt1: "only_node_runs rt rt1" using replace_node_run_facts(2) [OF put r(1) le] .
  have upd: "put_decision (edge_id e) d rt1 = rt1\<lparr> rt_evidence := (rt_evidence rt1)\<lparr> ev_humanReviewDecisions :=
      obj_put (edge_id e) d (ev_humanReviewDecisions (rt_evidence rt1)) \<rparr>,
      rt_activeRevisionLoopIds := rt_activeRevisionLoopIds rt1 \<rparr>" by (simp add: put_decision_def)
  note facts = put_then_settle [OF shape r(1) le put fin upd settle]
  show "evolves rt rt'" "starts_nothing rt rt'" "others_settled rt (edge_targetNodeId e) rt'"
    "rt_cancellationRequested rt' = rt_cancellationRequested rt"
    "wr_revisionLoops (rt_run rt') = wr_revisionLoops (rt_run rt)" by (rule facts)+
  show "is_pending rt (edge_targetNodeId e)" using r by (auto simp: is_pending_def)
  show "\<exists>r'. run_of rt' (edge_targetNodeId e) = Some r' \<and> nr_status r' = decided_status (hd_decision d)
      \<and> attempt_of rt (edge_targetNodeId e) = Some (nr_attempt r')"
    using facts(3) r(1) r' by (simp add: attempt_of_def)
  show "rt_evidence rt' = (rt_evidence rt)\<lparr> ev_humanReviewDecisions :=
      obj_put (edge_id e) d (ev_humanReviewDecisions (rt_evidence rt)) \<rparr>"
    and "rt_activeRevisionLoopIds rt' = rt_activeRevisionLoopIds rt"
    using facts(5,6) rt1 by (simp_all add: only_node_runs_def)
qed

lemma recordWorkflowHumanReviewDecision_InrE:
  assumes "recordWorkflowHumanReviewDecision rt d = Inr rt'"
  obtains q e where "ReviewDecision_ok d" "getWorkflowHumanApprovalRequest rt (hr_targetId d) = Inr q"
    and "hr_targetType q = HumanReviewTarget" "hr_runId d = hr_runId q" "hr_targetAttempt d = hr_targetAttempt q"
    and "hr_evidenceFingerprint d = hr_evidenceFingerprint q"
    and "find_edge rt (hr_targetId d) = Some e" "is_human_review_edge e" "finish_human_review rt e d = Inr rt'"
  using assms by (auto simp: recordWorkflowHumanReviewDecision_def res_bind_eq_Inr edgeById_Inr split: if_splits)

interpretation deciding: idle_operation "\<lambda>rt. recordWorkflowHumanReviewDecision rt d" for d
proof
  fix rt rt' :: runtime
  assume shape: "runtime_shape rt" and "recordWorkflowHumanReviewDecision rt d = Inr rt'"
  then obtain e where "finish_human_review rt e d = Inr rt'" by (blast elim: recordWorkflowHumanReviewDecision_InrE)
  from finish_human_review_facts(1,2) [OF shape this] show "evolves rt rt'" and "starts_nothing rt rt'" by blast+
qed

text \<open>
  A human review decision counts only for the evidence it was made on: it must carry the fingerprint
  of the request that waits now. It ends the pending review node, in its attempt, as succeeded or
  failed, is stored under its edge, and moves no other node except pending ones it blocks for good.
\<close>

theorem recordWorkflowHumanReviewDecision_correct:
  assumes shape: "runtime_shape rt" and ok: "recordWorkflowHumanReviewDecision rt d = Inr rt'"
  shows "\<exists>q e. getWorkflowHumanApprovalRequest rt (hr_targetId d) = Inr q
    \<and> hr_evidenceFingerprint d = hr_evidenceFingerprint q \<and> hr_targetAttempt d = hr_targetAttempt q
    \<and> find_edge rt (hr_targetId d) = Some e \<and> is_human_review_edge e
    \<and> is_pending rt (edge_targetNodeId e)
    \<and> (\<exists>r'. run_of rt' (edge_targetNodeId e) = Some r' \<and> nr_status r' = decided_status (hd_decision d)
          \<and> attempt_of rt (edge_targetNodeId e) = Some (nr_attempt r'))
    \<and> obj_get (ev_humanReviewDecisions (rt_evidence rt')) (hr_targetId d) = Some d
    \<and> others_settled rt (edge_targetNodeId e) rt' \<and> evolves rt rt' \<and> starts_nothing rt rt'"
proof -
  from ok obtain q e where q: "getWorkflowHumanApprovalRequest rt (hr_targetId d) = Inr q"
    "hr_targetAttempt d = hr_targetAttempt q" "hr_evidenceFingerprint d = hr_evidenceFingerprint q"
    and e: "find_edge rt (hr_targetId d) = Some e" "is_human_review_edge e" "finish_human_review rt e d = Inr rt'"
    by (rule recordWorkflowHumanReviewDecision_InrE)
  note facts = finish_human_review_facts [OF shape e(3)]
  have "obj_get (ev_humanReviewDecisions (rt_evidence rt')) (hr_targetId d) = Some d"
    using find_edgeD(2) [OF e(1)] by (simp add: facts(6))
  with q e facts show ?thesis by blast
qed

text \<open>
  A change request with a long explanation cannot be recorded. The decision schema accepts feedback of
  up to 200,000 characters, but the feedback becomes the status reason of the review node, which the
  run schema limits to 20,000: a valid decision on the waiting request fails with a schema error.
\<close>

theorem long_feedback_rejected:
  assumes d: "ReviewDecision_ok d" "hd_decision d = ChangesRequested" "hd_feedback d = Some feedback"
    and long: "20000 < length feedback"
    and q: "getWorkflowHumanApprovalRequest rt (hr_targetId d) = Inr q" "hr_targetType q = HumanReviewTarget"
      "hr_runId d = hr_runId q" "hr_targetAttempt d = hr_targetAttempt q" "hr_evidenceFingerprint d = hr_evidenceFingerprint q"
    and e: "find_edge rt (hr_targetId d) = Some e" "is_human_review_edge e" "is_pending rt (edge_targetNodeId e)"
  shows "recordWorkflowHumanReviewDecision rt d = Inl (ZodError ''NodeRunStateSchema'')"
proof -
  obtain r where r: "run_of rt (edge_targetNodeId e) = Some r" "nr_status r = Queued \<or> nr_status r = WaitingForApproval"
    using e(3) by (auto simp: is_pending_def split: option.splits)
  have "\<not> NodeRunState_ok (completed_review r d)"
    using d(2,3) long by (simp add: NodeRunState_ok_def completed_review_def opt_ok_def len_between_def)
  then have "finish_human_review rt e d = Inl (ZodError ''NodeRunStateSchema'')"
    using r by (auto simp: finish_human_review_def NodeRunStateSchema_parse_def)
  with d(1) q e(1,2) show ?thesis
    by (simp add: recordWorkflowHumanReviewDecision_def ReviewDecisionSchema_parse_def edgeById_def)
qed

end
