(* ===== verification/Reviewing.thy ===== *)
theory Reviewing
  imports Recording
begin

text \<open>
  What \<open>recordWorkflowReview\<close> achieves: the assessment it stores is the current one of its edge, and an
  agent reviewer ends as failed or succeeded by the assessments of all its review edges together.
\<close>

section \<open>Storing an assessment does not disturb what it reviews\<close>

lemma put_assessment_reads [simp]:
  "run_of (put_assessment i a rt) = run_of rt" "find_node (put_assessment i a rt) = find_node rt"
  "nodeById (put_assessment i a rt) = nodeById rt" "is_planned (put_assessment i a rt) = is_planned rt"
  "run_id (put_assessment i a rt) = run_id rt" "attempt_of (put_assessment i a rt) = attempt_of rt"
  "agent_reviews (put_assessment i a rt) = agent_reviews rt" "rt_canvas (put_assessment i a rt) = rt_canvas rt"
  "rt_plan (put_assessment i a rt) = rt_plan rt" "rt_run (put_assessment i a rt) = rt_run rt"
  "currentOutputPublicationsForNode (put_assessment i a rt) = currentOutputPublicationsForNode rt"
proof -
  show r [simp]: "run_of (put_assessment i a rt) = run_of rt" "find_node (put_assessment i a rt) = find_node rt"
    "is_planned (put_assessment i a rt) = is_planned rt" "run_id (put_assessment i a rt) = run_id rt"
    "rt_canvas (put_assessment i a rt) = rt_canvas rt" "rt_plan (put_assessment i a rt) = rt_plan rt"
    "rt_run (put_assessment i a rt) = rt_run rt"
    by (auto simp: put_assessment_def run_of_def find_node_def is_planned_def run_id_def fun_eq_iff)
  show n [simp]: "nodeById (put_assessment i a rt) = nodeById rt" "attempt_of (put_assessment i a rt) = attempt_of rt"
    "agent_reviews (put_assessment i a rt) = agent_reviews rt"
    by (simp_all add: nodeById_def attempt_of_def agent_reviews_def fun_eq_iff)
  have "ev_outputPublications (rt_evidence (put_assessment i a rt)) = ev_outputPublications (rt_evidence rt)"
    by (simp add: put_assessment_def)
  then show "currentOutputPublicationsForNode (put_assessment i a rt) = currentOutputPublicationsForNode rt"
    by (simp add: currentOutputPublicationsForNode_def fun_eq_iff cong: branch_congs)
qed

lemma put_assessment_bound [simp]:
  "assessment_bound (put_assessment i a rt) = assessment_bound rt" "digest_current (put_assessment i a rt) = digest_current rt"
proof -
  show "assessment_bound (put_assessment i a rt) = assessment_bound rt"
    by (simp add: assessment_bound_def fun_eq_iff cong: branch_congs)
  have "ev_nodeCompletionOutputs (rt_evidence (put_assessment i a rt)) = ev_nodeCompletionOutputs (rt_evidence rt)"
    by (simp add: put_assessment_def)
  then show "digest_current (put_assessment i a rt) = digest_current rt"
    by (simp add: digest_current_def fun_eq_iff cong: branch_congs)
qed

lemma put_assessment_get [simp]:
  "obj_get (ev_reviewerAssessments (rt_evidence (put_assessment i a rt))) j =
     (if i = j then Some a else obj_get (ev_reviewerAssessments (rt_evidence rt)) j)"
  by (simp add: put_assessment_def)

lemma put_assessment_step_other:
  "edge_id x \<noteq> i \<Longrightarrow> assessment_step f (put_assessment i a rt) x = assessment_step f rt x"
  by (simp add: assessment_step_def cong: branch_congs)

lemma canvas_edge_id_inject:
  assumes "runtime_shape rt" and "e \<in> set (canvas_edges (rt_canvas rt))" and "x \<in> set (canvas_edges (rt_canvas rt))"
    and "edge_id x = edge_id e"
  shows "x = e"
proof -
  have "distinct (map edge_id (canvas_edges (rt_canvas rt)))"
    using assms(1) by (simp add: runtime_shape_def wellformed_canvas_def canvas_ids_def)
  with assms(2-4) show ?thesis by (auto simp: distinct_map dest: inj_onD)
qed

lemma put_assessment_upstream:
  assumes shape: "runtime_shape rt" and e: "e \<in> set (canvas_edges (rt_canvas rt))"
  shows "(edge_targetNodeId e, v) \<notin> (review_arcs rt)\<^sup>* \<Longrightarrow>
    status_fuel n (put_assessment (edge_id e) a rt) v = status_fuel n rt v"
proof (induction n arbitrary: v)
  case 0
  then show ?case by simp
next
  case (Suc n)
  let ?rt = "put_assessment (edge_id e) a rt"
  have "map_res (assessment_step (status_fuel n ?rt) ?rt) (agent_reviews rt v)
      = map_res (assessment_step (status_fuel n rt) rt) (agent_reviews rt v)"
  proof (rule map_res_cong [OF refl])
    fix x assume x: "x \<in> set (agent_reviews rt v)"
    note edge = agent_reviews_edge [OF x]
    have "x \<noteq> e" using Suc.prems edge(2) by auto
    then have other: "edge_id x \<noteq> edge_id e" using canvas_edge_id_inject [OF shape e edge(3)] by blast
    have arc: "(edge_sourceNodeId x, v) \<in> review_arcs rt" using edge by (auto simp: review_arcs_def edge_arcs_def)
    then have "(edge_targetNodeId e, edge_sourceNodeId x) \<notin> (review_arcs rt)\<^sup>*"
      using Suc.prems by (meson rtrancl_into_rtrancl)
    then have "status_fuel n ?rt (edge_sourceNodeId x) = status_fuel n rt (edge_sourceNodeId x)" by (rule Suc.IH)
    then show "assessment_step (status_fuel n ?rt) ?rt x = assessment_step (status_fuel n rt) rt x"
      unfolding put_assessment_step_other [OF other] by (rule assessment_step_cong)
  qed
  then show ?case by (simp add: status_step_def cong: branch_congs)
qed

lemma put_assessment_source:
  assumes shape: "runtime_shape rt" and e: "e \<in> set (canvas_edges (rt_canvas rt))" and c: "edge_config e = Review c"
  shows "canvasNodeStatus (put_assessment (edge_id e) a rt) (edge_sourceNodeId e) = canvasNodeStatus rt (edge_sourceNodeId e)"
proof -
  have "(edge_sourceNodeId e, edge_targetNodeId e) \<in> review_arcs rt"
    using e c by (auto simp: review_arcs_def edge_arcs_def review_edges_def)
  then have "(edge_targetNodeId e, edge_sourceNodeId e) \<notin> (review_arcs rt)\<^sup>*"
    using runtime_review_acyclic [OF shape] unfolding acyclic_def by (meson rtrancl_into_trancl2)
  then show ?thesis unfolding canvasNodeStatus_def put_assessment_reads by (rule put_assessment_upstream [OF shape e])
qed

section \<open>The recorded assessment is current\<close>

lemma review_source_Inr:
  assumes "review_source rt e = Inr r"
  shows "run_of rt (edge_sourceNodeId e) = Some r" and "nr_status r = Succeeded"
    and "canvasNodeStatus rt (edge_sourceNodeId e) = Inr Succeeded"
  using assms by (auto simp: review_source_def Let_def res_bind_eq_Inr split: option.splits if_splits)

lemma configured_reviewer_Inr:
  assumes "configured_reviewer rt e c a = Inr (j, r)"
  shows "\<exists>target. nodeById rt (edge_targetNodeId e) = Inr target
      \<and> expected_reviewer (rev_reviewer c) e target = Some j
      \<and> (is_ReviewGateNode (node_data target) \<longrightarrow> consumer_pending rt e)"
    and "ra_reviewerNodeId a = j" and "run_of rt j = Some r"
    and "nr_status r = Succeeded \<or> rev_reviewer c = ReviewerAgent \<and> nr_status r = WaitingForApproval"
proof -
  from assms obtain target where t: "nodeById rt (edge_targetNodeId e) = Inr target"
      "is_ReviewGateNode (node_data target) \<longrightarrow> consumer_pending rt e"
    by (auto simp: configured_reviewer_def res_bind_eq_Inr)
  with assms have "\<exists>k. expected_reviewer (rev_reviewer c) e target = Some k"
    by (cases "expected_reviewer (rev_reviewer c) e target") (simp_all add: configured_reviewer_def res_bind_eq_Inr)
  then obtain k where k: "expected_reviewer (rev_reviewer c) e target = Some k" by blast
  from assms t k have a: "ra_reviewerNodeId a = k" by (auto simp: configured_reviewer_def split: if_splits)
  have rest: "res_bind (nodeById rt k) (\<lambda>n. res_bind (reviewer_completed rt (rev_reviewer c) k) (\<lambda>completed.
      case run_of rt k of
        Some r \<Rightarrow> if \<not> is_AgentNode (node_data n) \<or> \<not> completed then throw (reviewer_unfinished k) else return (k, r)
      | None \<Rightarrow> throw (reviewer_unfinished k))) = Inr (j, r)"
    using assms t a k by (simp add: configured_reviewer_def res_bind_eq_Inr)
  then obtain n fin where n: "nodeById rt k = Inr n" "reviewer_completed rt (rev_reviewer c) k = Inr fin"
    by (auto simp: res_bind_eq_Inr)
  with rest have r: "run_of rt k = Some r" "j = k" "fin"
    by (auto split: option.splits if_splits)
  show "\<exists>target. nodeById rt (edge_targetNodeId e) = Inr target
      \<and> expected_reviewer (rev_reviewer c) e target = Some j
      \<and> (is_ReviewGateNode (node_data target) \<longrightarrow> consumer_pending rt e)"
    and "ra_reviewerNodeId a = j" and "run_of rt j = Some r" using t k r a by auto
  show "nr_status r = Succeeded \<or> rev_reviewer c = ReviewerAgent \<and> nr_status r = WaitingForApproval"
    using n(2) r(1,3) by (auto simp: reviewer_completed_def Let_def res_bind_eq_Inr split: if_splits)
qed

lemma check_review_Inr:
  assumes "check_review rt e c a verifier = Inr (j, r)"
  obtains srun where "review_source rt e = Inr srun" "ReviewerAssessment_ok a" "ra_runId a = run_id rt" "ra_reviewEdgeId a = edge_id e"
    and "rev_reviewer c \<noteq> ReviewerHuman" "configured_reviewer rt e c a = Inr (j, r)"
    and "ra_reviewerAttempt a = nr_attempt r" "ra_reviewedNodeId a = edge_sourceNodeId e"
    and "ra_reviewedNodeAttempt a = nr_attempt srun" "reviewed_output_current rt e srun a = Inr ()"
    and "verifyReviewerAssessment verifier a"
  using assms by (auto simp: check_review_def res_bind_eq_Inr)

lemma recorded_assessment_current:
  assumes shape: "runtime_shape rt" and e: "e \<in> set (canvas_edges (rt_canvas rt))" and c: "edge_config e = Review c"
    and ok: "check_review rt e c a verifier = Inr (j, r)"
  shows "currentReviewerAssessmentForEdge (put_assessment (edge_id e) a rt) e = Inr (Some a)"
proof -
  obtain srun where src: "review_source rt e = Inr srun" and run: "ra_runId a = run_id rt" "ra_reviewEdgeId a = edge_id e"
    and rev: "rev_reviewer c \<noteq> ReviewerHuman" "configured_reviewer rt e c a = Inr (j, r)"
    and att: "ra_reviewerAttempt a = nr_attempt r" "ra_reviewedNodeId a = edge_sourceNodeId e"
      "ra_reviewedNodeAttempt a = nr_attempt srun" and out: "reviewed_output_current rt e srun a = Inr ()"
    using ok by (rule check_review_Inr) blast
  note source = review_source_Inr [OF src] and reviewer = configured_reviewer_Inr [OF rev(2)]
  obtain target where target: "nodeById rt (edge_targetNodeId e) = Inr target"
    "expected_reviewer (rev_reviewer c) e target = Some j" using reviewer(1) by blast
  have "assessment_bound rt e (Some j) a"
    using run reviewer(2-4) att(1) source(1,2) by (auto simp: assessment_bound_def reviewer_finished_def attempt_of_def)
  moreover have "digest_current rt (edge_sourceNodeId e) a"
    using out source(1) by (auto simp: reviewed_output_current_def digest_current_def attempt_of_def Let_def split: option.splits)
  moreover have "canvasNodeStatus (put_assessment (edge_id e) a rt) (edge_sourceNodeId e) = Inr Succeeded"
    using put_assessment_source [OF shape e c] source(3) by simp
  ultimately show ?thesis
    using c rev(1) target att(2,3) source(1)
    by (simp add: currentReviewerAssessmentForEdge_def assessment_step_def attempt_of_def)
qed

section \<open>Recording a review\<close>

lemma recordWorkflowReview_InrE:
  assumes "recordWorkflowReview rt i a verifier = Inr rt'"
  obtains e c j r rt2 where "find_edge rt i = Some e" "edge_config e = Review c" "is_planned rt e"
    and "check_review rt e c a verifier = Inr (j, r)"
    and "(if rev_reviewer c = ReviewerAgent then finalize_reviewer rt (put_assessment i a rt) j r
          else return (put_assessment i a rt)) = Inr rt2"
    and "settleBlockedWorkflowNodes rt2 (review_time rt r) = Inr rt'"
proof -
  from assms obtain e where e: "find_edge rt i = Some e"
    by (auto simp: recordWorkflowReview_def res_bind_eq_Inr edgeById_Inr)
  with assms obtain c where c: "edge_config e = Review c"
    by (cases "edge_config e") (simp_all add: recordWorkflowReview_def edgeById_def)
  from assms e c obtain j r rt2 where "is_planned rt e" "check_review rt e c a verifier = Inr (j, r)"
    "(if rev_reviewer c = ReviewerAgent then finalize_reviewer rt (put_assessment i a rt) j r
      else return (put_assessment i a rt)) = Inr rt2"
    "settleBlockedWorkflowNodes rt2 (review_time rt r) = Inr rt'"
    by (auto simp: recordWorkflowReview_def edgeById_def assertPlannedEdge_def res_bind_eq_Inr)
  with e c show ?thesis by (rule that)
qed

text \<open>How a runtime may differ from the one with the assessment stored: the reviewer has ended.\<close>

lemma finalize_reviewer_cases:
  assumes "finalize_reviewer rt rt1 j r = Inr rt2"
  obtains "rt2 = rt1"
  | assessments s where "map_res (currentReviewerAssessmentForEdge rt1) (agent_reviews rt j) = Inr assessments"
      "review_outcome assessments = Some s" "s = Failed \<or> s = Succeeded"
      "replace_node_run rt1 j (finalized_reviewer rt r s) (review_time rt r) = Inr rt2"
proof -
  from assms obtain assessments where as: "map_res (currentReviewerAssessmentForEdge rt1) (agent_reviews rt j) = Inr assessments"
    by (auto simp: finalize_reviewer_def res_bind_eq_Inr)
  show ?thesis
  proof (cases "review_outcome assessments")
    case None
    with assms as show ?thesis using that(1) by (simp add: finalize_reviewer_def)
  next
    case (Some s)
    moreover from Some have "s = Failed \<or> s = Succeeded" by (auto simp: review_outcome_def split: if_splits)
    moreover from assms as Some have "replace_node_run rt1 j (finalized_reviewer rt r s) (review_time rt r) = Inr rt2"
      by (auto simp: finalize_reviewer_def res_bind_eq_Inr)
    ultimately show ?thesis using as that(2) by blast
  qed
qed

lemma recordWorkflowReview_moves:
  assumes shape: "runtime_shape rt" and ok: "recordWorkflowReview rt i a verifier = Inr rt'"
  shows "evolves rt rt'" and "starts_nothing rt rt'" and "rt_evidence rt' = rt_evidence (put_assessment i a rt)"
    and "rt_activeRevisionLoopIds rt' = rt_activeRevisionLoopIds rt"
    and "rt_cancellationRequested rt' = rt_cancellationRequested rt"
    and "wr_revisionLoops (rt_run rt') = wr_revisionLoops (rt_run rt)"
proof -
  let ?rt1 = "put_assessment i a rt"
  have rt1: "evolves rt ?rt1" "starts_nothing rt ?rt1" "runtime_shape ?rt1"
    using evidence_change [OF shape] by (simp_all add: put_assessment_def)
  obtain e c j r rt2 where e: "check_review rt e c a verifier = Inr (j, r)"
    and fin: "(if rev_reviewer c = ReviewerAgent then finalize_reviewer rt ?rt1 j r else return ?rt1) = Inr rt2"
    and settle: "settleBlockedWorkflowNodes rt2 (review_time rt r) = Inr rt'"
    using ok by (rule recordWorkflowReview_InrE) blast
  have plain: "settles ?rt1 rt'" if "rt2 = ?rt1"
    using settleBlocked_settles [OF rt1(3)] settle that by blast
  have r: "run_of ?rt1 j = Some r"
    using e by (rule check_review_Inr) (simp add: configured_reviewer_Inr(3))
  have "evolves ?rt1 rt' \<and> starts_nothing ?rt1 rt' \<and> rt_evidence rt' = rt_evidence ?rt1
      \<and> rt_activeRevisionLoopIds rt' = rt_activeRevisionLoopIds ?rt1
      \<and> rt_cancellationRequested rt' = rt_cancellationRequested ?rt1
      \<and> wr_revisionLoops (rt_run rt') = wr_revisionLoops (rt_run ?rt1)"
  proof (cases "rt2 = ?rt1")
    case True
    from plain [OF this] show ?thesis
      using settles_starts_nothing unfolding settles_def only_node_runs_def by blast
  next
    case False
    with fin have fr: "finalize_reviewer rt ?rt1 j r = Inr rt2" by (auto split: if_splits)
    obtain s where s: "s = Failed \<or> s = Succeeded"
      and put: "replace_node_run ?rt1 j (finalized_reviewer rt r s) (review_time rt r) = Inr rt2"
      by (rule finalize_reviewer_cases [OF fr]) (use False in blast)+
    have fin: "isTerminalRunStatus (nr_status (finalized_reviewer rt r s))" and le: "nr_attempt r \<le> nr_attempt (finalized_reviewer rt r s)"
      using s by (auto simp: finalized_reviewer_def)
    note facts = put_then_settle [OF rt1(3) r le put fin with_active_loops settle]
    have "only_node_runs ?rt1 rt2" using replace_node_run_facts(2) [OF put r le] .
    with facts show ?thesis by (simp add: only_node_runs_def)
  qed
  then show "evolves rt rt'" and "starts_nothing rt rt'" and "rt_evidence rt' = rt_evidence ?rt1"
    and "rt_activeRevisionLoopIds rt' = rt_activeRevisionLoopIds rt"
    and "rt_cancellationRequested rt' = rt_cancellationRequested rt"
    and "wr_revisionLoops (rt_run rt') = wr_revisionLoops (rt_run rt)"
    using rt1(1,2) evolves_trans starts_nothing_trans by (auto simp: put_assessment_def)
qed

interpretation reviewing: idle_operation "\<lambda>rt. recordWorkflowReview rt i a verifier" for i a verifier
  by unfold_locales (rule recordWorkflowReview_moves(1,2); assumption)+

lemma finalized_reviewer_facts:
  assumes shape: "runtime_shape rt" and ok: "recordWorkflowReview rt i a verifier = Inr rt'"
    and e: "find_edge rt i = Some e" "edge_config e = Review c" "rev_reviewer c = ReviewerAgent"
  shows "\<exists>r r'. run_of rt (edge_targetNodeId e) = Some r \<and> run_of rt' (edge_targetNodeId e) = Some r'
      \<and> (ra_verdict a = ChangesRequested
           \<longrightarrow> nr_status r' = Failed \<and> nr_failureCode r' = Some ''REVIEW_CHANGES_REQUESTED'')
      \<and> (nr_status r = WaitingForApproval \<and> nr_status r' = Succeeded
           \<longrightarrow> list_all (\<lambda>x. assessed (put_assessment i a rt) Approved x) (agent_reviews rt (edge_targetNodeId e)))"
proof -
  let ?rt1 = "put_assessment i a rt" and ?j = "edge_targetNodeId e"
  obtain e' c' j r rt2 where e': "find_edge rt i = Some e'" "edge_config e' = Review c'" "is_planned rt e'"
    and chk: "check_review rt e' c' a verifier = Inr (j, r)"
    and fin: "(if rev_reviewer c' = ReviewerAgent then finalize_reviewer rt ?rt1 j r else return ?rt1) = Inr rt2"
    and settle: "settleBlockedWorkflowNodes rt2 (review_time rt r) = Inr rt'"
    using ok by (rule recordWorkflowReview_InrE)
  have same: "e' = e" "c' = c" using e' e by auto
  from chk have conf: "configured_reviewer rt e c a = Inr (j, r)" unfolding same by (rule check_review_Inr)
  note reviewer = configured_reviewer_Inr [OF conf]
  have j: "j = ?j" using reviewer(1) e(3) by (auto simp: expected_reviewer_def)
  have shape1: "runtime_shape ?rt1" using evidence_change(3) [OF shape] by (simp add: put_assessment_def)
  have edge: "e \<in> set (canvas_edges (rt_canvas rt))" "edge_id e = i" using find_edgeD [OF e(1)] by auto
  have mem: "e \<in> set (agent_reviews rt ?j)" using edge(1) e(2,3) e'(3) by (simp add: agent_reviews_def same)
  have cur: "currentReviewerAssessmentForEdge ?rt1 e = Inr (Some a)"
    using recorded_assessment_current [OF shape edge(1) e(2)] chk by (simp add: same edge(2))
  from fin have fin: "finalize_reviewer rt ?rt1 j r = Inr rt2" using e(3) by (simp add: same)
  then obtain as where as: "map_res (currentReviewerAssessmentForEdge ?rt1) (agent_reviews rt j) = Inr as"
    by (auto simp: finalize_reviewer_def res_bind_eq_Inr)
  then obtain "Some a \<in> set as" using map_res_Inr_in_set' [OF as, of e] mem cur by (auto simp: j)
  then have changes: "review_outcome as = Some Failed" if "ra_verdict a = ChangesRequested"
    using that by (auto simp: review_outcome_def list_ex_iff)
  show ?thesis
  proof (cases "review_outcome as")
    case None
    with fin as have "rt2 = ?rt1" by (simp add: finalize_reviewer_def)
    then have s: "settles ?rt1 rt'" using settleBlocked_settles [OF shape1] settle by blast
    then obtain r' where "run_of rt' j = Some r'" using evolves_run [of ?rt1 rt' j] reviewer(3) by (auto simp: settles_def)
    moreover have "nr_status r' \<noteq> Succeeded" if "nr_status r = WaitingForApproval"
    proof -
      from s have "run_of rt' j = run_of ?rt1 j \<or> (\<exists>x. run_of rt' j = Some x \<and> nr_status x = Cancelled)"
        unfolding settles_def by blast
      with calculation reviewer(3) that show ?thesis by auto
    qed
    ultimately show ?thesis using changes None reviewer(3) j by auto
  next
    case (Some s)
    have put: "replace_node_run ?rt1 j (finalized_reviewer rt r s) (review_time rt r) = Inr rt2"
      using fin unfolding finalize_reviewer_def as by (simp add: Some res_bind_eq_Inr)
    have s: "s = Failed \<or> s = Succeeded" using Some by (auto simp: review_outcome_def split: if_splits)
    have ended: "isTerminalRunStatus (nr_status (finalized_reviewer rt r s))" and le: "nr_attempt r \<le> nr_attempt (finalized_reviewer rt r s)"
      using s by (auto simp: finalized_reviewer_def)
    have "run_of ?rt1 j = Some r" using reviewer(3) by simp
    note facts = put_then_settle [OF shape1 this le put ended with_active_loops settle]
    have "list_all (assessed ?rt1 Approved) (agent_reviews rt j)" if "s = Succeeded"
    proof -
      have all: "list_all (has_verdict Approved) as" using Some that by (auto simp: review_outcome_def split: if_splits)
      show ?thesis
        unfolding list_all_iff
      proof
        fix x assume "x \<in> set (agent_reviews rt j)"
        from map_res_Inr_in_set' [OF as this] all show "assessed ?rt1 Approved x"
          by (auto simp: list_all_iff assessed_def)
      qed
    qed
    then show ?thesis
      using facts(3) reviewer(3) j s changes Some by (auto simp: finalized_reviewer_def)
  qed
qed

text \<open>
  A recorded review is one the host's verifier accepted, of the present effectively succeeded attempt
  of the reviewed node, and it is then the current assessment of its edge. An agent reviewer that
  requested changes has failed with its own failure code; one that waited for its assessments succeeds
  only when every agent review edge into it is currently approved. No other evidence changes.
\<close>

theorem recordWorkflowReview_correct:
  assumes shape: "runtime_shape rt" and ok: "recordWorkflowReview rt i a verifier = Inr rt'"
  shows "verifyReviewerAssessment verifier a
    \<and> (\<exists>e c. find_edge rt i = Some e \<and> edge_config e = Review c \<and> rev_reviewer c \<noteq> ReviewerHuman
         \<and> canvasNodeStatus rt (edge_sourceNodeId e) = Inr Succeeded
         \<and> currentReviewerAssessmentForEdge (put_assessment i a rt) e = Inr (Some a)
         \<and> (rev_reviewer c = ReviewerAgent \<longrightarrow>
             (\<exists>r r'. run_of rt (edge_targetNodeId e) = Some r \<and> run_of rt' (edge_targetNodeId e) = Some r'
                \<and> (ra_verdict a = ChangesRequested
                     \<longrightarrow> nr_status r' = Failed \<and> nr_failureCode r' = Some ''REVIEW_CHANGES_REQUESTED'')
                \<and> (nr_status r = WaitingForApproval \<and> nr_status r' = Succeeded
                     \<longrightarrow> list_all (assessed (put_assessment i a rt) Approved) (agent_reviews rt (edge_targetNodeId e))))))
    \<and> rt_evidence rt' = rt_evidence (put_assessment i a rt) \<and> evolves rt rt' \<and> starts_nothing rt rt'"
proof -
  obtain e c j r where e: "find_edge rt i = Some e" "edge_config e = Review c"
    and chk: "check_review rt e c a verifier = Inr (j, r)"
    using ok by (rule recordWorkflowReview_InrE)
  from chk have v1: "verifyReviewerAssessment verifier a" by (rule check_review_Inr)
  from chk have v2: "rev_reviewer c \<noteq> ReviewerHuman" by (rule check_review_Inr)
  obtain srun where "review_source rt e = Inr srun" using chk by (rule check_review_Inr)
  then have src: "canvasNodeStatus rt (edge_sourceNodeId e) = Inr Succeeded" by (rule review_source_Inr)
  have cur: "currentReviewerAssessmentForEdge (put_assessment i a rt) e = Inr (Some a)"
    using recorded_assessment_current [OF shape find_edgeD(1) [OF e(1)] e(2) chk] find_edgeD(2) [OF e(1)] by simp
  note moves = recordWorkflowReview_moves(1-3) [OF shape ok] and fin = finalized_reviewer_facts [OF shape ok e]
  have "find_edge rt i = Some e \<and> edge_config e = Review c \<and> rev_reviewer c \<noteq> ReviewerHuman
      \<and> canvasNodeStatus rt (edge_sourceNodeId e) = Inr Succeeded
      \<and> currentReviewerAssessmentForEdge (put_assessment i a rt) e = Inr (Some a)
      \<and> (rev_reviewer c = ReviewerAgent \<longrightarrow>
          (\<exists>r r'. run_of rt (edge_targetNodeId e) = Some r \<and> run_of rt' (edge_targetNodeId e) = Some r'
             \<and> (ra_verdict a = ChangesRequested
                  \<longrightarrow> nr_status r' = Failed \<and> nr_failureCode r' = Some ''REVIEW_CHANGES_REQUESTED'')
             \<and> (nr_status r = WaitingForApproval \<and> nr_status r' = Succeeded
                  \<longrightarrow> list_all (assessed (put_assessment i a rt) Approved) (agent_reviews rt (edge_targetNodeId e)))))"
    (is "?P e c")
  proof (intro conjI impI)
    assume "rev_reviewer c = ReviewerAgent"
    then show "\<exists>r r'. run_of rt (edge_targetNodeId e) = Some r \<and> run_of rt' (edge_targetNodeId e) = Some r'
        \<and> (ra_verdict a = ChangesRequested
             \<longrightarrow> nr_status r' = Failed \<and> nr_failureCode r' = Some ''REVIEW_CHANGES_REQUESTED'')
        \<and> (nr_status r = WaitingForApproval \<and> nr_status r' = Succeeded
             \<longrightarrow> list_all (assessed (put_assessment i a rt) Approved) (agent_reviews rt (edge_targetNodeId e)))" by (rule fin)
  qed (rule e v2 src cur)+
  then have "\<exists>e c. ?P e c" by (intro exI)
  with v1 moves show ?thesis by (intro conjI)
qed

end
