(* ===== verification/Revisions.thy ===== *)
theory Revisions
  imports Reviewing
begin

text \<open>
  \<open>packages/core/src/workflow-runtime/revisions.ts\<close>: bounded revision loops at run time. A completed
  review is applied to its loop, an additional attempt is queued with the evidence of the old one
  removed, and an exhausted loop is resolved by a person.
\<close>

section \<open>Applying a review\<close>

definition replaceRevisionLoopState :: "runtime \<Rightarrow> string \<Rightarrow> loop_state \<Rightarrow> timestamp \<Rightarrow> runtime res" where
  "replaceRevisionLoopState rt loopId state occurredAt =
     res_bind (WorkflowRunSchema_parse ((rt_run rt)\<lparr>
         wr_revisionLoops := obj_put loopId state (wr_revisionLoops (rt_run rt)), wr_updatedAt := occurredAt \<rparr>))
       (\<lambda>run. return (rt\<lparr> rt_run := run \<rparr>))"

datatype review_disposition = ReviewPending | ReviewSatisfied | ReviewRevision | ReviewWaitingHuman

record review_result =
  rv_runtime :: runtime
  rv_disposition :: review_disposition
  rv_gate :: "gate_evaluation option"

definition newline :: string where
  "newline = [CHR 0x0A]"

definition actionable_finding :: "review_finding \<Rightarrow> bool" where
  "actionable_finding f = (rf_blocking f \<or> rf_severity f = SeverityError)"

definition actionableReviewFeedback :: "reviewer_assessment option \<Rightarrow> gate_evaluation option \<Rightarrow> string" where
  "actionableReviewFeedback assessment gate =
     (let findingText = (case assessment of None \<Rightarrow> []
                         | Some a \<Rightarrow> join newline (map rf_message (filter actionable_finding (ra_findings a))));
          reasons = (case gate of None \<Rightarrow> [] | Some g \<Rightarrow> ge_reasons g);
          feedback = join newline (filter (\<lambda>v. length (trim v) > 0) (findingText # reasons));
          summary = (case assessment of None \<Rightarrow> [] | Some a \<Rightarrow> (case ra_summary a of None \<Rightarrow> [] | Some s \<Rightarrow> s))
      in or_text feedback (or_text summary ''Review did not satisfy the configured gate.''))"

definition find_loop :: "runtime \<Rightarrow> string \<Rightarrow> revision_loop option" where
  "find_loop rt loopId = find (\<lambda>l. loop_id l = loopId) (canvas_revisionLoops (rt_canvas rt))"

definition loop_and_state :: "runtime \<Rightarrow> string \<Rightarrow> (revision_loop \<times> loop_state) res" where
  "loop_and_state rt loopId =
     (case (find_loop rt loopId, obj_get (wr_revisionLoops (rt_run rt)) loopId) of
        (Some l, Some s) \<Rightarrow> return (l, s)
      | _ \<Rightarrow> throw (Error (''Revision loop is missing: '' @ loopId)))"

text \<open>What a review is decided on: the current assessment, the gate's evaluation, the person's decision.\<close>

record review_evidence =
  re_assessment :: "reviewer_assessment option"
  re_gate :: "gate_evaluation option"
  re_human :: "review_decision option"
  re_reviewer :: reviewer
  re_node :: canvas_node

definition gate_of_node :: "runtime \<Rightarrow> canvas_node \<Rightarrow> gate_evaluation option res" where
  "gate_of_node rt n =
     (if is_ReviewGateNode (node_data n)
      then res_bind (reviewGateEvaluation rt (node_id n)) (\<lambda>g. return (Some g))
      else return None)"

definition review_evidence_of :: "runtime \<Rightarrow> revision_loop \<Rightarrow> review_evidence res" where
  "review_evidence_of rt l =
     res_bind (nodeById rt (loop_reviewNodeId l)) (\<lambda>reviewNode.
     res_bind (edgeById rt (loop_reviewEdgeId l)) (\<lambda>reviewEdge.
     case edge_config reviewEdge of
       Review c \<Rightarrow>
         res_bind (currentReviewerAssessmentForEdge rt reviewEdge) (\<lambda>assessment.
         res_bind (gate_of_node rt reviewNode) (\<lambda>gate. return
           \<lparr> re_assessment = assessment, re_gate = gate,
             re_human = (if rev_reviewer c = ReviewerHuman
                         then currentHumanReviewDecision rt (edge_id reviewEdge) else None),
             re_reviewer = rev_reviewer c, re_node = reviewNode \<rparr>))
     | _ \<Rightarrow> throw (Error ''Revision loop review edge is invalid'')))"

definition human_verdict :: "review_evidence \<Rightarrow> verdict option" where
  "human_verdict ev = map_option hd_decision (re_human ev)"

definition agent_verdict :: "review_evidence \<Rightarrow> verdict option" where
  "agent_verdict ev = map_option ra_verdict (re_assessment ev)"

definition reviewer_incomplete :: "review_evidence \<Rightarrow> run_status \<Rightarrow> bool" where
  "reviewer_incomplete ev status =
     (re_gate ev = None \<and> status \<noteq> Succeeded
        \<and> \<not> (status = Failed
              \<and> (human_verdict ev = Some ChangesRequested \<or> agent_verdict ev = Some ChangesRequested))
      \<or> re_gate ev \<noteq> None \<and> status \<noteq> Running \<and> \<not> isTerminalRunStatus status)"

definition gate_status_of :: "review_evidence \<Rightarrow> gate_status option" where
  "gate_status_of ev = map_option ge_status (re_gate ev)"

definition human_approved :: "review_evidence \<Rightarrow> bool" where
  "human_approved ev = (re_reviewer ev = ReviewerHuman \<and> human_verdict ev = Some Approved)"

definition review_approved :: "review_evidence \<Rightarrow> bool" where
  "review_approved ev =
     (gate_status_of ev = Some GatePass \<or> human_approved ev \<or> agent_verdict ev = Some Approved)"

definition deterministic_passed :: "review_evidence \<Rightarrow> bool" where
  "deterministic_passed ev = (re_gate ev = None \<or> gate_status_of ev = Some GatePass)"

definition stop_condition_of :: "revision_loop \<Rightarrow> review_evidence \<Rightarrow> stop_condition option" where
  "stop_condition_of l ev =
     (if \<not> deterministic_passed ev then None
      else if review_approved ev \<and> ReviewApproved \<in> set (loop_stopConditions l) then Some ReviewApproved
      else if agent_verdict ev \<noteq> Some ChangesRequested \<and> TestsPassed \<in> set (loop_stopConditions l)
              \<and> map_option ge_deterministicStatus (re_gate ev) = Some DetPassed
      then Some TestsPassed
      else None)"

definition review_backoff :: "canvas_node \<Rightarrow> int" where
  "review_backoff n = (case node_data n of ReviewGateNode g \<Rightarrow> backoffMs (rg_retryPolicy g) | _ \<Rightarrow> 0)"

text \<open>\<open>new Date(Date.parse(occurredAt) + backoffMs).toISOString()\<close>.\<close>

definition eligible_at :: "timestamp \<Rightarrow> int \<Rightarrow> timestamp res" where
  "eligible_at occurredAt backoff =
     (case Date_parse occurredAt of
        None \<Rightarrow> throw (RangeError ''Invalid time value'')
      | Some ms \<Rightarrow> toISOString (ms + backoff))"

definition with_eligibility :: "loop_state \<Rightarrow> timestamp \<Rightarrow> int \<Rightarrow> loop_state res" where
  "with_eligibility next occurredAt backoff =
     (if ls_status next = RevisionRequired \<and> backoff > 0
      then res_bind (eligible_at occurredAt backoff) (\<lambda>t. return (next\<lparr> ls_eligibleAt := Some t \<rparr>))
      else return next)"

definition review_feedback :: "review_evidence \<Rightarrow> string" where
  "review_feedback ev =
     (case re_human ev of
        Some d \<Rightarrow> (case hd_feedback d of Some f \<Rightarrow> f | None \<Rightarrow> actionableReviewFeedback (re_assessment ev) (re_gate ev))
      | None \<Rightarrow> actionableReviewFeedback (re_assessment ev) (re_gate ev))"

definition fail_review ::
  "runtime \<Rightarrow> revision_loop \<Rightarrow> loop_state \<Rightarrow> review_evidence \<Rightarrow> timestamp \<Rightarrow> review_result res" where
  "fail_review rt l state ev occurredAt =
     res_bind (advanceRevisionLoop l state (ReviewFailed (review_feedback ev))) (\<lambda>next.
     res_bind (with_eligibility next occurredAt (review_backoff (re_node ev))) (\<lambda>next'.
     res_bind (replaceRevisionLoopState rt (loop_id l) next' occurredAt) (\<lambda>rt'. return
       \<lparr> rv_runtime = rt',
         rv_disposition = (if ls_status next' = WaitingHuman then ReviewWaitingHuman else ReviewRevision),
         rv_gate = re_gate ev \<rparr>)))"

definition decide_review ::
  "runtime \<Rightarrow> revision_loop \<Rightarrow> loop_state \<Rightarrow> review_evidence \<Rightarrow> timestamp \<Rightarrow> review_result res" where
  "decide_review rt l state ev occurredAt =
     (case stop_condition_of l ev of
        Some condition \<Rightarrow>
          res_bind (advanceRevisionLoop l state (StopConditionMet condition)) (\<lambda>next.
          res_bind (replaceRevisionLoopState rt (loop_id l) next occurredAt) (\<lambda>rt'. return
            \<lparr> rv_runtime = rt', rv_disposition = ReviewSatisfied, rv_gate = re_gate ev \<rparr>))
      | None \<Rightarrow>
          if review_approved ev \<and> deterministic_passed ev
          then throw (Error ''Review passed, but no automatic stop condition is configured'')
          else fail_review rt l state ev occurredAt)"

definition undecided_review :: "runtime \<Rightarrow> review_evidence \<Rightarrow> review_result option" where
  "undecided_review rt ev =
     (case gate_status_of ev of
        Some GatePend \<Rightarrow> Some \<lparr> rv_runtime = rt, rv_disposition = ReviewPending, rv_gate = re_gate ev \<rparr>
      | Some GateWaitHuman \<Rightarrow> Some \<lparr> rv_runtime = rt, rv_disposition = ReviewWaitingHuman, rv_gate = re_gate ev \<rparr>
      | _ \<Rightarrow>
          if re_assessment ev = None \<and> re_gate ev = None \<and> \<not> human_approved ev \<and> re_human ev = None
          then Some \<lparr> rv_runtime = rt, rv_disposition = ReviewPending, rv_gate = None \<rparr>
          else None)"

definition reviewed_loop :: "runtime \<Rightarrow> string \<Rightarrow> (revision_loop \<times> loop_state \<times> node_run) res" where
  "reviewed_loop rt loopId =
     res_bind (loop_and_state rt loopId) (\<lambda>(l, state).
       if ls_status state \<noteq> ReviewRequired then throw (Error ''Revision review is not currently expected'')
       else if map_option nr_status (run_of rt (loop_implementationNodeId l)) \<noteq> Some Succeeded
       then throw (Error ''Revision review requires the current implementation attempt to succeed'')
       else case run_of rt (loop_reviewNodeId l) of
         None \<Rightarrow> throw (Error ''Revision review requires the reviewer node to start'')
       | Some reviewRun \<Rightarrow> return (l, state, reviewRun))"

definition applyRevisionReview :: "runtime \<Rightarrow> string \<Rightarrow> timestamp \<Rightarrow> review_result res" where
  "applyRevisionReview rt loopId occurredAt =
     res_bind (reviewed_loop rt loopId) (\<lambda>(l, state, reviewRun).
     res_bind (review_evidence_of rt l) (\<lambda>ev.
       if reviewer_incomplete ev (nr_status reviewRun)
       then throw (Error ''Revision review requires the configured reviewer to complete'')
       else case undecided_review rt ev of
         Some result \<Rightarrow> return result
       | None \<Rightarrow> decide_review rt l state ev occurredAt))"

section \<open>Queueing another attempt\<close>

definition requeueRevisionNode :: "node_run \<Rightarrow> timestamp \<Rightarrow> node_run res" where
  "requeueRevisionNode r occurredAt =
     (if \<not> isTerminalRunStatus (nr_status r)
      then throw (Error (''Revision node '' @ nr_nodeId r @ '' is not in a completed state''))
      else NodeRunStateSchema_parse
        \<lparr> nr_nodeId = nr_nodeId r, nr_status = Queued, nr_attempt = nr_attempt r + 1, nr_queuedAt = occurredAt,
          nr_startedAt = None, nr_endedAt = None, nr_process = None, nr_internalExecution = None,
          nr_resumable = nr_resumable r, nr_failureCode = None,
          nr_statusReason = Some ''Queued to try again after the review asked for changes'' \<rparr>)"

definition requiredCheckProducerIds :: "runtime \<Rightarrow> string \<Rightarrow> string list res" where
  "requiredCheckProducerIds rt reviewNodeId =
     res_bind (nodeById rt reviewNodeId) (\<lambda>n. return (case node_data n of
       ReviewGateNode g \<Rightarrow>
         uniqueSorted (concat (map (\<lambda>checkId. concat (map (\<lambda>m. case node_data m of
             TestNode d \<Rightarrow> if checkId \<in> set (te_runIds d) then [node_id m] else []
           | _ \<Rightarrow> []) (canvas_nodes (rt_canvas rt)))) (rg_requiredCheckIds g)))
     | _ \<Rightarrow> []))"

definition requeuedNodeIds :: "runtime \<Rightarrow> revision_loop \<Rightarrow> string list res" where
  "requeuedNodeIds rt l =
     res_bind (requiredCheckProducerIds rt (loop_reviewNodeId l)) (\<lambda>producerIds.
     res_bind (nodeById rt (loop_reviewNodeId l)) (\<lambda>reviewNode.
       let reviewerAgentId = (case node_data reviewNode of ReviewGateNode g \<Rightarrow> rg_reviewerAgentId g | _ \<Rightarrow> None)
       in return (new_Set ([loop_implementationNodeId l, loop_reviewNodeId l] @ producerIds
            @ (case reviewerAgentId of None \<Rightarrow> [] | Some i \<Rightarrow> [i])))))"

fun requeue_nodes :: "timestamp \<Rightarrow> string list \<Rightarrow> node_run obj \<Rightarrow> node_run obj res" where
  "requeue_nodes occurredAt [] nodeRuns = return nodeRuns"
| "requeue_nodes occurredAt (nodeId # ids) nodeRuns =
     (case obj_get nodeRuns nodeId of
        None \<Rightarrow> throw (Error (''Revision retry node is outside the plan: '' @ nodeId))
      | Some r \<Rightarrow> res_bind (requeueRevisionNode r occurredAt) (\<lambda>next.
          requeue_nodes occurredAt ids (obj_put nodeId next nodeRuns)))"

text \<open>
  \<open>Object.fromEntries(Object.entries(o).filter(p))\<close>: an object has each key once, so this is the
  object without the entries that fail the test.
\<close>

definition obj_filter :: "(string \<Rightarrow> 'a \<Rightarrow> bool) \<Rightarrow> 'a obj \<Rightarrow> 'a obj" where
  "obj_filter P ob = filter (\<lambda>(k, v). P k v) ob"

definition check_untouched :: "string set \<Rightarrow> check_result \<Rightarrow> bool" where
  "check_untouched requeued k =
     ((case ck_producerNodeId k of None \<Rightarrow> True | Some i \<Rightarrow> i \<notin> requeued)
      \<and> (case ck_reviewedNodeId k of None \<Rightarrow> True | Some i \<Rightarrow> i \<notin> requeued))"

definition approval_untouched :: "runtime \<Rightarrow> revision_loop \<Rightarrow> string set \<Rightarrow> string \<Rightarrow> bool" where
  "approval_untouched rt l requeued targetId =
     (targetId \<noteq> loop_reviewNodeId l \<and> targetId \<noteq> loop_reviewEdgeId l
      \<and> (case find_edge rt targetId of None \<Rightarrow> True | Some e \<Rightarrow> edge_targetNodeId e \<notin> requeued))"

definition surviving_evidence :: "runtime \<Rightarrow> revision_loop \<Rightarrow> string set \<Rightarrow> execution_evidence" where
  "surviving_evidence rt l requeued =
     (let ev = rt_evidence rt in ev\<lparr>
        ev_contextResolutions := obj_filter (\<lambda>_ r. cr_targetNodeId r \<notin> requeued) (ev_contextResolutions ev),
        ev_outputPublications := obj_filter (\<lambda>edgeId _.
          case find_edge rt edgeId of None \<Rightarrow> True | Some e \<Rightarrow> edge_sourceNodeId e \<notin> requeued) (ev_outputPublications ev),
        ev_nodeCompletionOutputs := obj_filter (\<lambda>nodeId _. nodeId \<notin> requeued) (ev_nodeCompletionOutputs ev),
        ev_reviewerAssessments := obj_filter (\<lambda>edgeId a. edgeId \<noteq> loop_reviewEdgeId l
          \<and> ra_reviewerNodeId a \<notin> requeued \<and> ra_reviewedNodeId a \<notin> requeued) (ev_reviewerAssessments ev),
        ev_gateChecks := obj_filter (\<lambda>gateNodeId checks. gateNodeId \<noteq> loop_reviewNodeId l
          \<and> list_all (check_untouched requeued) checks) (ev_gateChecks ev),
        ev_humanApprovals := obj_filter (\<lambda>targetId _. approval_untouched rt l requeued targetId) (ev_humanApprovals ev),
        ev_humanReviewDecisions := obj_filter (\<lambda>targetId _. targetId \<noteq> loop_reviewEdgeId l) (ev_humanReviewDecisions ev) \<rparr>)"

definition retry_too_early :: "loop_state \<Rightarrow> timestamp \<Rightarrow> bool" where
  "retry_too_early state occurredAt =
     (case ls_eligibleAt state of None \<Rightarrow> False | Some t \<Rightarrow> date_after t occurredAt)"

definition queueable_loop :: "runtime \<Rightarrow> string \<Rightarrow> timestamp \<Rightarrow> (revision_loop \<times> loop_state) res" where
  "queueable_loop rt loopId occurredAt =
     res_bind (loop_and_state rt loopId) (\<lambda>(l, state).
       if ls_status state \<noteq> RevisionRequired then throw (Error ''A revision attempt is not currently allowed'')
       else if retry_too_early state occurredAt
       then throw (Error (''Revision retry is not eligible until ''
              @ (case ls_eligibleAt state of None \<Rightarrow> [] | Some t \<Rightarrow> t)))
       else if run_of rt (loop_implementationNodeId l) = None \<or> run_of rt (loop_reviewNodeId l) = None
       then throw (Error ''Both revision-loop nodes must belong to the scoped plan'')
       else return (l, state))"

definition queueRevisionAttempt :: "runtime \<Rightarrow> string \<Rightarrow> timestamp \<Rightarrow> runtime res" where
  "queueRevisionAttempt rt loopId occurredAt =
     res_bind (queueable_loop rt loopId occurredAt) (\<lambda>(l, state).
     res_bind (advanceRevisionLoop l state RevisionCompleted) (\<lambda>nextLoop.
     res_bind (requeuedNodeIds rt l) (\<lambda>ids.
     res_bind (requeue_nodes occurredAt ids (node_runs rt)) (\<lambda>nodeRuns.
     res_bind (replaceRunState rt nodeRuns occurredAt) (\<lambda>reopened.
     res_bind (WorkflowRunSchema_parse ((rt_run reopened)\<lparr>
         wr_revisionLoops := obj_put loopId nextLoop (wr_revisionLoops (rt_run reopened)) \<rparr>)) (\<lambda>run.
     return (reopened\<lparr> rt_run := run, rt_evidence := surviving_evidence rt l (set ids),
       rt_activeRevisionLoopIds := uniqueSorted (rt_activeRevisionLoopIds rt @ [loopId]) \<rparr>)))))))"

section \<open>Human escape\<close>

definition process_json :: "process_reference \<Rightarrow> json" where
  "process_json p =
     JObj [(''pid'', JNum (pr_pid p)), (''startedAt'', JStr (pr_startedAt p)), (''identityToken'', JStr (pr_identityToken p))]"

definition internal_json :: "internal_reference \<Rightarrow> json" where
  "internal_json i = JObj [(''kind'', JStr ''internal''), (''executionId'', JStr (ir_executionId i)), (''startedAt'', JStr (ir_startedAt i))]"

definition node_run_json :: "node_run \<Rightarrow> json" where
  "node_run_json r =
     JObj ([(''nodeId'', JStr (nr_nodeId r)), (''status'', JStr (run_status_text (nr_status r))),
        (''attempt'', JNum (nr_attempt r)), (''queuedAt'', JStr (nr_queuedAt r))]
       @ json_opt JStr ''startedAt'' (nr_startedAt r) @ json_opt JStr ''endedAt'' (nr_endedAt r)
       @ json_opt process_json ''process'' (nr_process r)
       @ json_opt internal_json ''internalExecution'' (nr_internalExecution r)
       @ [(''resumable'', JBool (nr_resumable r))]
       @ json_opt JStr ''failureCode'' (nr_failureCode r) @ json_opt JStr ''statusReason'' (nr_statusReason r))"

definition loop_state_json :: "loop_state \<Rightarrow> json" where
  "loop_state_json s =
     JObj ([(''loopId'', JStr (ls_loopId s)), (''attemptsStarted'', JNum (ls_attemptsStarted s)),
        (''status'', JStr (loop_status_text (ls_status s)))]
       @ json_opt JStr ''lastFeedback'' (ls_lastFeedback s)
       @ json_opt (\<lambda>c. JStr (stop_condition_text c)) ''stopCondition'' (ls_stopCondition s)
       @ json_opt JStr ''eligibleAt'' (ls_eligibleAt s))"

definition escape_evidence :: "runtime \<Rightarrow> revision_loop \<Rightarrow> loop_state \<Rightarrow> json" where
  "escape_evidence rt l state =
     JObj ([(''runId'', JStr (run_id rt)), (''loopId'', JStr (loop_id l)), (''state'', loop_state_json state)]
       @ json_opt node_run_json ''implementationRun'' (run_of rt (loop_implementationNodeId l))
       @ json_opt node_run_json ''reviewRun'' (run_of rt (loop_reviewNodeId l))
       @ [(''assessment'', case obj_get (ev_reviewerAssessments (rt_evidence rt)) (loop_reviewEdgeId l) of
             None \<Rightarrow> JNull | Some a \<Rightarrow> assessment_json a),
          (''gateChecks'', JArr (map check_json
             (case obj_get (ev_gateChecks (rt_evidence rt)) (loop_reviewNodeId l) of None \<Rightarrow> [] | Some ks \<Rightarrow> ks))),
          (''outputs'', JArr (map publication_json (currentOutputPublicationsForNode rt (loop_implementationNodeId l))))])"

definition getRevisionEscapeRequest :: "runtime \<Rightarrow> string \<Rightarrow> escape_request res" where
  "getRevisionEscapeRequest rt loopId =
     res_bind (loop_and_state rt loopId) (\<lambda>(l, state).
       if ls_status state \<noteq> WaitingHuman then throw (Error ''Human escape is not currently required'')
       else EscapeRequestSchema_parse
         \<lparr> er_runId = run_id rt, er_loopId = loopId, er_attemptsStarted = ls_attemptsStarted state,
           er_evidenceFingerprint = fingerprint ''revision-escape-v1:'' (escape_evidence rt l state) \<rparr>)"

definition normalize_cancelled :: "timestamp \<Rightarrow> string \<times> node_run \<Rightarrow> (string \<times> node_run) res" where
  "normalize_cancelled decidedAt entry =
     (let (nodeId, r) = entry in
      if nr_status r \<noteq> Failed \<and> nr_status r \<noteq> Lost then return (nodeId, r)
      else res_bind (NodeRunStateSchema_parse
        \<lparr> nr_nodeId = nodeId, nr_status = Cancelled, nr_attempt = nr_attempt r, nr_queuedAt = nr_queuedAt r,
          nr_startedAt = nr_startedAt r, nr_endedAt = Some decidedAt, nr_process = None,
          nr_internalExecution = None, nr_resumable = nr_resumable r, nr_failureCode = nr_failureCode r,
          nr_statusReason = Some ''You cancelled the loop after it reached its limit'' \<rparr>)
        (\<lambda>r'. return (nodeId, r')))"

definition put_escape :: "string \<Rightarrow> escape_resolution \<Rightarrow> runtime \<Rightarrow> runtime" where
  "put_escape loopId resolution rt =
     rt\<lparr> rt_evidence := (rt_evidence rt)\<lparr> ev_revisionEscapes :=
           obj_put loopId resolution (ev_revisionEscapes (rt_evidence rt)) \<rparr>,
         rt_activeRevisionLoopIds := filter (\<lambda>i. i \<noteq> loopId) (rt_activeRevisionLoopIds rt) \<rparr>"

definition cancel_escape ::
  "runtime \<Rightarrow> revision_loop \<Rightarrow> loop_state \<Rightarrow> escape_resolution \<Rightarrow> runtime res" where
  "cancel_escape rt l state resolution =
     res_bind (advanceRevisionLoop l state HumanAborted) (\<lambda>next.
     res_bind (replaceRevisionLoopState rt (loop_id l) next (es_decidedAt resolution)) (\<lambda>withCancelledLoop.
     res_bind (requestWorkflowCancellation (rt_run withCancelledLoop) (es_decidedAt resolution)) (\<lambda>cancelled.
     res_bind (map_res (normalize_cancelled (es_decidedAt resolution)) (wr_nodeRuns cancelled)) (\<lambda>normalizedRuns.
     res_bind (replaceRunState (withCancelledLoop\<lparr> rt_run := cancelled \<rparr>) (obj_from normalizedRuns) (es_decidedAt resolution))
       (\<lambda>cancelledRuntime.
       return ((put_escape (loop_id l) resolution cancelledRuntime)\<lparr> rt_cancellationRequested := True \<rparr>))))))"

definition failed_gate_run :: "node_run \<Rightarrow> timestamp \<Rightarrow> node_run res" where
  "failed_gate_run reviewRun decidedAt =
     (if nr_status reviewRun = Running \<or> nr_status reviewRun = Cancelling
      then transitionNodeRun reviewRun (plain_transition Failed decidedAt
             (Some ''You accepted the current result; the failed checks still stand'')
             (Some ''HUMAN_ACCEPTED_FAILED_GATE''))
      else return reviewRun)"

definition accepted_reviewer :: "node_run \<Rightarrow> timestamp \<Rightarrow> node_run" where
  "accepted_reviewer r decidedAt =
     \<lparr> nr_nodeId = nr_nodeId r, nr_status = Succeeded, nr_attempt = nr_attempt r, nr_queuedAt = nr_queuedAt r,
       nr_startedAt = nr_startedAt r, nr_endedAt = Some decidedAt, nr_process = None, nr_internalExecution = None,
       nr_resumable = nr_resumable r, nr_failureCode = None,
       nr_statusReason = Some ''You accepted the current result, ending the loop'' \<rparr>"

definition accept_gate :: "runtime \<Rightarrow> revision_loop \<Rightarrow> node_run \<Rightarrow> timestamp \<Rightarrow> runtime res" where
  "accept_gate rt l reviewRun decidedAt =
     res_bind (failed_gate_run reviewRun decidedAt) (\<lambda>failedReviewer.
       if nr_status failedReviewer = Succeeded
       then throw (Error ''A succeeded deterministic gate cannot require a failed-review escape'')
       else replace_node_run rt (loop_reviewNodeId l) failedReviewer decidedAt)"

definition accept_reviewer :: "runtime \<Rightarrow> revision_loop \<Rightarrow> node_run \<Rightarrow> timestamp \<Rightarrow> runtime res" where
  "accept_reviewer rt l reviewRun decidedAt =
     (if nr_status reviewRun = Succeeded then return rt
      else res_bind (edgeById rt (loop_reviewEdgeId l)) (\<lambda>reviewEdge.
        if \<not> (is_human_review_edge reviewEdge \<and> nr_status reviewRun = Failed)
        then throw (Error ''Human acceptance requires the non-gate reviewer to complete'')
        else res_bind (NodeRunStateSchema_parse (accepted_reviewer reviewRun decidedAt)) (\<lambda>acceptedReviewer.
               replace_node_run rt (loop_reviewNodeId l) acceptedReviewer decidedAt)))"

definition accept_escape ::
  "runtime \<Rightarrow> revision_loop \<Rightarrow> loop_state \<Rightarrow> node_run \<Rightarrow> escape_resolution \<Rightarrow> runtime res" where
  "accept_escape rt l state reviewRun resolution =
     (if HumanAccepted \<notin> set (loop_stopConditions l)
      then throw (Error ''Human acceptance is not a configured stop condition'')
      else res_bind (nodeById rt (loop_reviewNodeId l)) (\<lambda>reviewNode.
        res_bind (if is_ReviewGateNode (node_data reviewNode)
                  then accept_gate rt l reviewRun (es_decidedAt resolution)
                  else accept_reviewer rt l reviewRun (es_decidedAt resolution)) (\<lambda>acceptedRuntime.
        res_bind (advanceRevisionLoop l state (StopConditionMet HumanAccepted)) (\<lambda>next.
        res_bind (replaceRevisionLoopState acceptedRuntime (loop_id l) next (es_decidedAt resolution)) (\<lambda>resolved.
          settleBlockedWorkflowNodes (put_escape (loop_id l) resolution resolved) (es_decidedAt resolution))))))"

definition resolveRevisionEscape :: "runtime \<Rightarrow> escape_resolution \<Rightarrow> runtime res" where
  "resolveRevisionEscape rt untrustedResolution =
     res_bind (EscapeResolutionSchema_parse untrustedResolution) (\<lambda>resolution.
     res_bind (getRevisionEscapeRequest rt (er_loopId resolution)) (\<lambda>expected.
       if er_runId resolution \<noteq> er_runId expected \<or> er_attemptsStarted resolution \<noteq> er_attemptsStarted expected
          \<or> er_evidenceFingerprint resolution \<noteq> er_evidenceFingerprint expected
       then throw (Error ''Revision escape decision does not match the exhausted loop evidence'')
       else res_bind (loop_and_state rt (er_loopId resolution)) (\<lambda>(l, state).
         case run_of rt (loop_reviewNodeId l) of
           None \<Rightarrow> throw (Error ''Revision reviewer is outside the scoped plan'')
         | Some reviewRun \<Rightarrow>
             (case es_decision resolution of
                EscapeCancel \<Rightarrow> cancel_escape rt l state resolution
              | EscapeAccept \<Rightarrow> accept_escape rt l state reviewRun resolution))))"

end
