(* ===== verification/Attempts.thy ===== *)
theory Attempts
  imports Revisions
begin

text \<open>
  What the revision operations guarantee: loops stay bounded, a failed gate is never overruled by a
  review, a new attempt starts clean (exactly the evidence about it is gone), and a
  person resolves an exhausted loop on the evidence the request named.
\<close>

section \<open>Loop states\<close>

text \<open>Every loop state of the run keeps the invariant of its loop of the canvas.\<close>

definition loops_bounded :: "runtime \<Rightarrow> bool" where
  "loops_bounded rt =
     (\<forall>i s. obj_get (wr_revisionLoops (rt_run rt)) i = Some s \<longrightarrow> (\<exists>l. find_loop rt i = Some l \<and> loop_inv l s))"

lemma loop_and_state_Inr:
  "loop_and_state rt i = Inr (l, s) \<longleftrightarrow> find_loop rt i = Some l \<and> obj_get (wr_revisionLoops (rt_run rt)) i = Some s"
  by (auto simp: loop_and_state_def split: option.splits)

lemma find_loop_id: "find_loop rt i = Some l \<Longrightarrow> loop_id l = i"
  by (auto simp: find_loop_def dest: find_SomeD)

lemma replaceRevisionLoopState_Inr:
  "replaceRevisionLoopState rt i s t = Inr rt' \<longleftrightarrow>
     WorkflowRun_ok ((rt_run rt)\<lparr> wr_revisionLoops := obj_put i s (wr_revisionLoops (rt_run rt)), wr_updatedAt := t \<rparr>)
     \<and> rt' = rt\<lparr> rt_run := (rt_run rt)\<lparr> wr_revisionLoops := obj_put i s (wr_revisionLoops (rt_run rt)), wr_updatedAt := t \<rparr> \<rparr>"
  by (auto simp: replaceRevisionLoopState_def res_bind_eq_Inr)

lemma loop_change_evolves:
  assumes rt': "rt_canvas rt' = rt_canvas rt" "rt_plan rt' = rt_plan rt" "node_runs rt' = node_runs rt"
      "wr_id (rt_run rt') = wr_id (rt_run rt)" "wr_canvasId (rt_run rt') = wr_canvasId (rt_run rt)"
      "wr_planId (rt_run rt') = wr_planId (rt_run rt)" "wr_createdAt (rt_run rt') = wr_createdAt (rt_run rt)"
      "obj_keys (wr_revisionLoops (rt_run rt')) = obj_keys (wr_revisionLoops (rt_run rt))"
    and ok: "WorkflowRun_ok (rt_run rt')"
  shows "evolves rt rt'" and "starts_nothing rt rt'"
proof -
  have same: "run_of rt' = run_of rt" using rt'(3) by (simp add: run_of_def fun_eq_iff)
  with rt' ok show "evolves rt rt'" by (auto simp: evolves_def)
  from same show "starts_nothing rt rt'" by (simp add: starts_nothing_def active_at_def)
qed

lemma replaceRevisionLoopState_facts:
  assumes ok: "replaceRevisionLoopState rt i s t = Inr rt'" and old: "obj_get (wr_revisionLoops (rt_run rt)) i \<noteq> None"
  shows "evolves rt rt'" and "starts_nothing rt rt'" and "node_runs rt' = node_runs rt"
    and "rt_evidence rt' = rt_evidence rt" and "rt_activeRevisionLoopIds rt' = rt_activeRevisionLoopIds rt"
    and "rt_cancellationRequested rt' = rt_cancellationRequested rt"
    and "obj_get (wr_revisionLoops (rt_run rt')) j = (if j = i then Some s else obj_get (wr_revisionLoops (rt_run rt)) j)"
proof -
  have rt': "rt' = rt\<lparr> rt_run := (rt_run rt)\<lparr> wr_revisionLoops := obj_put i s (wr_revisionLoops (rt_run rt)), wr_updatedAt := t \<rparr> \<rparr>"
    and valid: "WorkflowRun_ok ((rt_run rt)\<lparr> wr_revisionLoops := obj_put i s (wr_revisionLoops (rt_run rt)), wr_updatedAt := t \<rparr>)"
    using ok by (simp_all only: replaceRevisionLoopState_Inr)
  have "i \<in> set (obj_keys (wr_revisionLoops (rt_run rt)))" using old by (simp add: obj_get_eq_None_iff)
  then show "evolves rt rt'" "starts_nothing rt rt'"
    by (rule_tac [!] loop_change_evolves) (simp_all add: rt' valid obj_keys_put_present)
  show "node_runs rt' = node_runs rt" and "rt_evidence rt' = rt_evidence rt"
    and "rt_activeRevisionLoopIds rt' = rt_activeRevisionLoopIds rt"
    and "rt_cancellationRequested rt' = rt_cancellationRequested rt"
    and "obj_get (wr_revisionLoops (rt_run rt')) j = (if j = i then Some s else obj_get (wr_revisionLoops (rt_run rt)) j)"
    by (simp_all add: rt')
qed

lemma loops_boundedD:
  "loops_bounded rt \<Longrightarrow> find_loop rt i = Some l \<Longrightarrow> obj_get (wr_revisionLoops (rt_run rt)) i = Some s \<Longrightarrow> loop_inv l s"
  unfolding loops_bounded_def by (metis option.inject)

lemma loops_bounded_put:
  assumes "loops_bounded rt" and "find_loop rt i = Some l" and "loop_inv l s"
    and "rt_canvas rt' = rt_canvas rt"
    and "\<And>j. obj_get (wr_revisionLoops (rt_run rt')) j = (if j = i then Some s else obj_get (wr_revisionLoops (rt_run rt)) j)"
  shows "loops_bounded rt'"
proof -
  have "find_loop rt' = find_loop rt" using assms(4) by (simp add: find_loop_def fun_eq_iff)
  with assms(1-3,5) show ?thesis by (auto simp: loops_bounded_def split: if_splits)
qed

lemma loops_bounded_same:
  assumes "loops_bounded rt" and "rt_canvas rt' = rt_canvas rt" and "wr_revisionLoops (rt_run rt') = wr_revisionLoops (rt_run rt)"
  shows "loops_bounded rt'"
  using assms by (simp add: loops_bounded_def find_loop_def)

section \<open>A review applied to its loop\<close>

lemma applyRevisionReview_InrE:
  assumes "applyRevisionReview rt i t = Inr res"
  obtains l s r ev where "find_loop rt i = Some l" "obj_get (wr_revisionLoops (rt_run rt)) i = Some s"
    and "ls_status s = ReviewRequired" "review_evidence_of rt l = Inr ev"
    and "map_option nr_status (run_of rt (loop_implementationNodeId l)) = Some Succeeded"
    and "run_of rt (loop_reviewNodeId l) = Some r" "\<not> reviewer_incomplete ev (nr_status r)"
    and "(case undecided_review rt ev of Some result \<Rightarrow> return result | None \<Rightarrow> decide_review rt l s ev t) = Inr res"
proof -
  from assms obtain l s r where lsr: "reviewed_loop rt i = Inr (l, s, r)"
    by (auto simp: applyRevisionReview_def res_bind_eq_Inr)
  with assms obtain ev where ev: "review_evidence_of rt l = Inr ev" "\<not> reviewer_incomplete ev (nr_status r)"
    "(case undecided_review rt ev of Some result \<Rightarrow> return result | None \<Rightarrow> decide_review rt l s ev t) = Inr res"
    by (auto simp: applyRevisionReview_def res_bind_eq_Inr split: if_splits)
  from lsr have "loop_and_state rt i = Inr (l, s)" "ls_status s = ReviewRequired"
    "map_option nr_status (run_of rt (loop_implementationNodeId l)) = Some Succeeded" "run_of rt (loop_reviewNodeId l) = Some r"
    by (auto simp: reviewed_loop_def res_bind_eq_Inr split: if_splits option.splits)
  with ev show ?thesis using that by (auto simp: loop_and_state_Inr)
qed

lemma with_eligibility_Inr:
  assumes "with_eligibility s t b = Inr s'"
  shows "s' = s \<or> ls_status s = RevisionRequired \<and> (\<exists>x. s' = s\<lparr> ls_eligibleAt := Some x \<rparr>)"
  using assms by (auto simp: with_eligibility_def res_bind_eq_Inr split: if_splits)

lemma loop_inv_eligible: "loop_inv l (s\<lparr> ls_eligibleAt := x \<rparr>) = loop_inv l s"
  by (simp add: loop_inv_def)

lemma decide_review_Inr:
  assumes ok: "decide_review rt l s ev t = Inr res" and req: "ls_status s = ReviewRequired"
  obtains s' where "replaceRevisionLoopState rt (loop_id l) s' t = Inr (rv_runtime res)" "rv_gate res = re_gate ev"
    and "loop_inv l s \<longrightarrow> loop_inv l s'" "ls_attemptsStarted s' = ls_attemptsStarted s"
    and "(\<exists>c. stop_condition_of l ev = Some c \<and> c \<in> set (loop_stopConditions l) \<and> rv_disposition res = ReviewSatisfied
            \<and> ls_status s' = Satisfied \<and> ls_stopCondition s' = Some c)
       \<or> stop_condition_of l ev = None \<and> \<not> (review_approved ev \<and> deterministic_passed ev)
          \<and> ls_lastFeedback s' = Some (review_feedback ev)
          \<and> (if ls_attemptsStarted s \<ge> loop_maximumAttempts l
             then rv_disposition res = ReviewWaitingHuman \<and> ls_status s' = WaitingHuman
             else rv_disposition res = ReviewRevision \<and> ls_status s' = RevisionRequired)"
proof (cases "stop_condition_of l ev")
  case (Some c)
  with ok obtain s' where s': "advanceRevisionLoop l s (StopConditionMet c) = Inr s'"
    "replaceRevisionLoopState rt (loop_id l) s' t = Inr (rv_runtime res)" "rv_disposition res = ReviewSatisfied" "rv_gate res = re_gate ev"
    by (auto simp: decide_review_def res_bind_eq_Inr)
  moreover have "loop_inv l s \<longrightarrow> loop_inv l s'" "ls_attemptsStarted s' = ls_attemptsStarted s"
    "c \<in> set (loop_stopConditions l) \<and> ls_status s' = Satisfied \<and> ls_stopCondition s' = Some c"
    using s'(1) advance_inv [of l s "StopConditionMet c" s']
    by (auto simp: advanceRevisionLoop_def withoutEligibility_def split: if_splits)
  ultimately show ?thesis using Some that [of s'] by blast
next
  case None
  with ok have not: "\<not> (review_approved ev \<and> deterministic_passed ev)" and "fail_review rt l s ev t = Inr res"
    by (auto simp: decide_review_def split: if_splits)
  then obtain n s' where n: "advanceRevisionLoop l s (ReviewFailed (review_feedback ev)) = Inr n"
    and s': "with_eligibility n t (review_backoff (re_node ev)) = Inr s'"
      "replaceRevisionLoopState rt (loop_id l) s' t = Inr (rv_runtime res)" "rv_gate res = re_gate ev"
      "rv_disposition res = (if ls_status s' = WaitingHuman then ReviewWaitingHuman else ReviewRevision)"
    by (auto simp: fail_review_def res_bind_eq_Inr)
  have inv: "loop_inv l s \<longrightarrow> loop_inv l n" using advance_inv n by blast
  have n': "ls_attemptsStarted n = ls_attemptsStarted s" "ls_lastFeedback n = Some (review_feedback ev)"
    "ls_status n = (if ls_attemptsStarted s \<ge> loop_maximumAttempts l then WaitingHuman else RevisionRequired)"
    using n req by (auto simp: advanceRevisionLoop_def split: if_splits)
  have same: "loop_inv l s' = loop_inv l n" "ls_attemptsStarted s' = ls_attemptsStarted n"
    "ls_lastFeedback s' = ls_lastFeedback n" "ls_status s' = ls_status n"
    using with_eligibility_Inr [OF s'(1)] by (auto simp: loop_inv_eligible)
  show ?thesis using that [OF s'(2,3)] inv n' same None not s'(4) by auto
qed

lemma undecided_review_Some:
  assumes "undecided_review rt ev = Some res"
  shows "rv_runtime res = rt" and "rv_disposition res = ReviewPending \<or> rv_disposition res = ReviewWaitingHuman"
  using assms by (auto simp: undecided_review_def split: option.splits gate_status.splits if_splits)

lemma stop_condition_sound:
  assumes "stop_condition_of l ev = Some c"
  shows "c \<in> set (loop_stopConditions l)" and "deterministic_passed ev"
    and "c = ReviewApproved \<and> review_approved ev \<or> c = TestsPassed \<and> agent_verdict ev \<noteq> Some ChangesRequested"
  using assms by (auto simp: stop_condition_of_def split: if_splits)

lemma applyRevisionReview_facts:
  assumes shape: "runtime_shape rt" and ok: "applyRevisionReview rt i t = Inr res"
  shows "evolves rt (rv_runtime res)" and "starts_nothing rt (rv_runtime res)"
    and "node_runs (rv_runtime res) = node_runs rt" and "rt_evidence (rv_runtime res) = rt_evidence rt"
    and "rt_activeRevisionLoopIds (rv_runtime res) = rt_activeRevisionLoopIds rt"
    and "rt_cancellationRequested (rv_runtime res) = rt_cancellationRequested rt"
    and "loops_bounded rt \<Longrightarrow> loops_bounded (rv_runtime res)"
    and "rv_disposition res = ReviewPending \<Longrightarrow> rv_runtime res = rt"
    and "rv_disposition res = ReviewSatisfied \<Longrightarrow> \<exists>l ev c s'. find_loop rt i = Some l \<and> review_evidence_of rt l = Inr ev
       \<and> stop_condition_of l ev = Some c \<and> obj_get (wr_revisionLoops (rt_run (rv_runtime res))) i = Some s'
       \<and> ls_status s' = Satisfied \<and> ls_stopCondition s' = Some c"
    and "rv_disposition res = ReviewRevision \<Longrightarrow> \<exists>l s'. find_loop rt i = Some l
       \<and> obj_get (wr_revisionLoops (rt_run (rv_runtime res))) i = Some s'
       \<and> ls_status s' = RevisionRequired \<and> ls_attemptsStarted s' < loop_maximumAttempts l"
proof -
  obtain l s r ev where l: "find_loop rt i = Some l" "obj_get (wr_revisionLoops (rt_run rt)) i = Some s"
    and req: "ls_status s = ReviewRequired" and ev: "review_evidence_of rt l = Inr ev"
    and res: "(case undecided_review rt ev of Some result \<Rightarrow> return result | None \<Rightarrow> decide_review rt l s ev t) = Inr res"
    using ok by (rule applyRevisionReview_InrE)
  let ?P = "evolves rt (rv_runtime res) \<and> starts_nothing rt (rv_runtime res)
    \<and> node_runs (rv_runtime res) = node_runs rt \<and> rt_evidence (rv_runtime res) = rt_evidence rt
    \<and> rt_activeRevisionLoopIds (rv_runtime res) = rt_activeRevisionLoopIds rt
    \<and> rt_cancellationRequested (rv_runtime res) = rt_cancellationRequested rt
    \<and> (loops_bounded rt \<longrightarrow> loops_bounded (rv_runtime res))
    \<and> (rv_disposition res = ReviewPending \<longrightarrow> rv_runtime res = rt)
    \<and> (rv_disposition res = ReviewSatisfied \<longrightarrow> (\<exists>c s'. stop_condition_of l ev = Some c
        \<and> obj_get (wr_revisionLoops (rt_run (rv_runtime res))) i = Some s' \<and> ls_status s' = Satisfied \<and> ls_stopCondition s' = Some c))
    \<and> (rv_disposition res = ReviewRevision \<longrightarrow> (\<exists>s'. obj_get (wr_revisionLoops (rt_run (rv_runtime res))) i = Some s'
        \<and> ls_status s' = RevisionRequired \<and> ls_attemptsStarted s' < loop_maximumAttempts l))"
  have ?P
  proof (cases "undecided_review rt ev")
    case (Some result)
    with res have "result = res" by simp
    with undecided_review_Some [of rt ev res] Some evolves_refl [OF shape] show ?P by auto
  next
    case None
    with res have "decide_review rt l s ev t = Inr res" by simp
    then obtain s' where put: "replaceRevisionLoopState rt (loop_id l) s' t = Inr (rv_runtime res)"
      and inv: "loop_inv l s \<longrightarrow> loop_inv l s'" "ls_attemptsStarted s' = ls_attemptsStarted s"
      and out: "(\<exists>c. stop_condition_of l ev = Some c \<and> c \<in> set (loop_stopConditions l) \<and> rv_disposition res = ReviewSatisfied
            \<and> ls_status s' = Satisfied \<and> ls_stopCondition s' = Some c)
       \<or> stop_condition_of l ev = None \<and> \<not> (review_approved ev \<and> deterministic_passed ev)
          \<and> ls_lastFeedback s' = Some (review_feedback ev)
          \<and> (if ls_attemptsStarted s \<ge> loop_maximumAttempts l
             then rv_disposition res = ReviewWaitingHuman \<and> ls_status s' = WaitingHuman
             else rv_disposition res = ReviewRevision \<and> ls_status s' = RevisionRequired)"
      using req by (rule decide_review_Inr) blast
    have id: "loop_id l = i" using find_loop_id [OF l(1)] .
    have old: "obj_get (wr_revisionLoops (rt_run rt)) i \<noteq> None" using l(2) by simp
    note facts = replaceRevisionLoopState_facts [OF put [unfolded id] old]
    have "loops_bounded (rv_runtime res)" if b: "loops_bounded rt"
    proof (rule loops_bounded_put [OF b l(1)])
      show "loop_inv l s'" using loops_boundedD [OF b l] inv(1) by blast
      show "rt_canvas (rv_runtime res) = rt_canvas rt" using facts(1) by (simp add: evolves_def)
    qed (rule facts(7))
    moreover have "obj_get (wr_revisionLoops (rt_run (rv_runtime res))) i = Some s'" using facts(7) [of i] by simp
    ultimately show ?P using facts(1-6) out inv(2) by (auto split: if_splits)
  qed
  with l(1) ev show "evolves rt (rv_runtime res)" and "starts_nothing rt (rv_runtime res)"
    and "node_runs (rv_runtime res) = node_runs rt" and "rt_evidence (rv_runtime res) = rt_evidence rt"
    and "rt_activeRevisionLoopIds (rv_runtime res) = rt_activeRevisionLoopIds rt"
    and "rt_cancellationRequested (rv_runtime res) = rt_cancellationRequested rt"
    and "loops_bounded rt \<Longrightarrow> loops_bounded (rv_runtime res)"
    and "rv_disposition res = ReviewPending \<Longrightarrow> rv_runtime res = rt"
    and "rv_disposition res = ReviewSatisfied \<Longrightarrow> \<exists>l ev c s'. find_loop rt i = Some l \<and> review_evidence_of rt l = Inr ev
       \<and> stop_condition_of l ev = Some c \<and> obj_get (wr_revisionLoops (rt_run (rv_runtime res))) i = Some s'
       \<and> ls_status s' = Satisfied \<and> ls_stopCondition s' = Some c"
    and "rv_disposition res = ReviewRevision \<Longrightarrow> \<exists>l s'. find_loop rt i = Some l
       \<and> obj_get (wr_revisionLoops (rt_run (rv_runtime res))) i = Some s'
       \<and> ls_status s' = RevisionRequired \<and> ls_attemptsStarted s' < loop_maximumAttempts l"
    by simp_all
qed

definition reviewed_runtime :: "string \<Rightarrow> timestamp \<Rightarrow> runtime \<Rightarrow> runtime res" where
  "reviewed_runtime i t rt = res_bind (applyRevisionReview rt i t) (\<lambda>res. return (rv_runtime res))"

interpretation applying: idle_operation "reviewed_runtime i t" for i t
proof
  fix rt rt' :: runtime
  assume shape: "runtime_shape rt" and "reviewed_runtime i t rt = Inr rt'"
  then obtain res where "applyRevisionReview rt i t = Inr res" "rt' = rv_runtime res"
    by (auto simp: reviewed_runtime_def res_bind_eq_Inr)
  with applyRevisionReview_facts(1,2) [OF shape] show "evolves rt rt'" and "starts_nothing rt rt'" by auto
qed

lemma review_evidence_gate:
  assumes "review_evidence_of rt l = Inr ev" and "find_node rt (loop_reviewNodeId l) = Some n" and "is_ReviewGateNode (node_data n)"
  shows "\<exists>g. reviewGateEvaluation rt (loop_reviewNodeId l) = Inr g \<and> re_gate ev = Some g"
proof -
  have id: "node_id n = loop_reviewNodeId l" using assms(2) by (auto simp: find_node_def dest: find_SomeD)
  from assms(1) obtain e where e: "edgeById rt (loop_reviewEdgeId l) = Inr e"
    by (auto simp: review_evidence_of_def res_bind_eq_Inr)
  with assms id show ?thesis
    by (cases "edge_config e") (auto simp: review_evidence_of_def nodeById_def gate_of_node_def res_bind_eq_Inr)
qed

text \<open>
  C4. Applying a review touches nothing but its loop's state and keeps every loop bounded. The loop is
  satisfied only by one of its configured stop conditions, and when its reviewer is a gate only while
  the gate passes: a failed gate is never overruled by an assessment or a person's verdict. A revision
  is asked for only while another attempt is allowed.
\<close>

theorem applyRevisionReview_correct:
  assumes shape: "runtime_shape rt" and bounded: "loops_bounded rt" and ok: "applyRevisionReview rt i t = Inr res"
  shows "evolves rt (rv_runtime res) \<and> node_runs (rv_runtime res) = node_runs rt
    \<and> rt_evidence (rv_runtime res) = rt_evidence rt \<and> loops_bounded (rv_runtime res)
    \<and> (rv_disposition res = ReviewSatisfied \<longrightarrow> (\<exists>l c s'. find_loop rt i = Some l \<and> c \<in> set (loop_stopConditions l)
         \<and> obj_get (wr_revisionLoops (rt_run (rv_runtime res))) i = Some s' \<and> ls_status s' = Satisfied \<and> ls_stopCondition s' = Some c
         \<and> (\<forall>n. find_node rt (loop_reviewNodeId l) = Some n \<and> is_ReviewGateNode (node_data n)
              \<longrightarrow> (\<exists>g. reviewGateEvaluation rt (loop_reviewNodeId l) = Inr g \<and> ge_status g = GatePass))))
    \<and> (rv_disposition res = ReviewRevision \<longrightarrow> (\<exists>l s'. find_loop rt i = Some l
         \<and> obj_get (wr_revisionLoops (rt_run (rv_runtime res))) i = Some s'
         \<and> ls_status s' = RevisionRequired \<and> ls_attemptsStarted s' < loop_maximumAttempts l))"
proof (intro conjI impI)
  note facts = applyRevisionReview_facts [OF shape ok]
  show "evolves rt (rv_runtime res)" "node_runs (rv_runtime res) = node_runs rt"
    "rt_evidence (rv_runtime res) = rt_evidence rt" "loops_bounded (rv_runtime res)"
    by (rule facts(1,3,4) facts(7) [OF bounded])+
  show "\<exists>l s'. find_loop rt i = Some l \<and> obj_get (wr_revisionLoops (rt_run (rv_runtime res))) i = Some s'
      \<and> ls_status s' = RevisionRequired \<and> ls_attemptsStarted s' < loop_maximumAttempts l"
    if "rv_disposition res = ReviewRevision" using facts(10) [OF that] .
  show "\<exists>l c s'. find_loop rt i = Some l \<and> c \<in> set (loop_stopConditions l)
      \<and> obj_get (wr_revisionLoops (rt_run (rv_runtime res))) i = Some s' \<and> ls_status s' = Satisfied \<and> ls_stopCondition s' = Some c
      \<and> (\<forall>n. find_node rt (loop_reviewNodeId l) = Some n \<and> is_ReviewGateNode (node_data n)
           \<longrightarrow> (\<exists>g. reviewGateEvaluation rt (loop_reviewNodeId l) = Inr g \<and> ge_status g = GatePass))"
    if "rv_disposition res = ReviewSatisfied"
  proof -
    obtain l ev c s' where l: "find_loop rt i = Some l" "review_evidence_of rt l = Inr ev" "stop_condition_of l ev = Some c"
      "obj_get (wr_revisionLoops (rt_run (rv_runtime res))) i = Some s'" "ls_status s' = Satisfied" "ls_stopCondition s' = Some c"
      using facts(9) [OF \<open>rv_disposition res = ReviewSatisfied\<close>] by blast
    have "\<exists>g. reviewGateEvaluation rt (loop_reviewNodeId l) = Inr g \<and> ge_status g = GatePass"
      if "find_node rt (loop_reviewNodeId l) = Some n" "is_ReviewGateNode (node_data n)" for n
      using review_evidence_gate [OF l(2) that] stop_condition_sound(2) [OF l(3)]
      by (auto simp: deterministic_passed_def gate_status_of_def)
    with l stop_condition_sound(1) [OF l(3)] show ?thesis by blast
  qed
qed

section \<open>A new attempt\<close>

definition requeued :: "node_run \<Rightarrow> node_run \<Rightarrow> bool" where
  "requeued r r' =
     (isTerminalRunStatus (nr_status r) \<and> nr_status r' = Queued \<and> nr_attempt r' = nr_attempt r + 1
      \<and> nr_startedAt r' = None \<and> nr_endedAt r' = None \<and> nr_process r' = None \<and> nr_internalExecution r' = None
      \<and> nr_failureCode r' = None)"

lemma requeueRevisionNode_Inr:
  "requeueRevisionNode r t = Inr r' \<Longrightarrow> requeued r r'"
  by (auto simp: requeueRevisionNode_def requeued_def split: if_splits)

lemma requeue_nodes_facts:
  assumes "distinct ids" and "requeue_nodes t ids runs = Inr runs'"
  shows "obj_keys runs' = obj_keys runs"
    and "j \<in> set ids \<Longrightarrow> \<exists>r r'. obj_get runs j = Some r \<and> obj_get runs' j = Some r' \<and> requeued r r'"
    and "j \<notin> set ids \<Longrightarrow> obj_get runs' j = obj_get runs j"
proof -
  have "obj_keys runs' = obj_keys runs
    \<and> (\<forall>j \<in> set ids. \<exists>r r'. obj_get runs j = Some r \<and> obj_get runs' j = Some r' \<and> requeued r r')
    \<and> (\<forall>j. j \<notin> set ids \<longrightarrow> obj_get runs' j = obj_get runs j)"
    using assms
  proof (induction ids arbitrary: runs)
    case Nil
    then show ?case by simp
  next
    case (Cons i ids)
    then obtain r n where r: "obj_get runs i = Some r" "requeueRevisionNode r t = Inr n"
      and rest: "requeue_nodes t ids (obj_put i n runs) = Inr runs'"
      by (auto simp: res_bind_eq_Inr split: option.splits)
    have IH: "obj_keys runs' = obj_keys (obj_put i n runs)"
      "\<forall>j \<in> set ids. \<exists>r r'. obj_get (obj_put i n runs) j = Some r \<and> obj_get runs' j = Some r' \<and> requeued r r'"
      "\<forall>j. j \<notin> set ids \<longrightarrow> obj_get runs' j = obj_get (obj_put i n runs) j"
      using Cons.IH [OF _ rest] Cons.prems(1) by auto
    have "i \<in> set (obj_keys runs)" using r(1) obj_get_eq_None_iff [of runs i] by simp
    then have "obj_keys runs' = obj_keys runs" using IH(1) by (simp add: obj_keys_put_present)
    moreover have "\<exists>r r'. obj_get runs i = Some r \<and> obj_get runs' i = Some r' \<and> requeued r r'"
      using IH(3) Cons.prems(1) r requeueRevisionNode_Inr [OF r(2)] by simp
    moreover have "\<exists>r r'. obj_get runs j = Some r \<and> obj_get runs' j = Some r' \<and> requeued r r'" if "j \<in> set ids" for j
      using IH(2) that Cons.prems(1) by (auto split: if_splits)
    moreover have "obj_get runs' j = obj_get runs j" if "j \<notin> set (i # ids)" for j using IH(3) that by auto
    ultimately show ?case by auto
  qed
  then show "obj_keys runs' = obj_keys runs"
    and "j \<in> set ids \<Longrightarrow> \<exists>r r'. obj_get runs j = Some r \<and> obj_get runs' j = Some r' \<and> requeued r r'"
    and "j \<notin> set ids \<Longrightarrow> obj_get runs' j = obj_get runs j" by blast+
qed

lemma queueRevisionAttempt_InrE:
  assumes "queueRevisionAttempt rt i t = Inr rt'"
  obtains l s n ids runs reopened where "find_loop rt i = Some l" "obj_get (wr_revisionLoops (rt_run rt)) i = Some s"
    and "ls_status s = RevisionRequired" "\<not> retry_too_early s t" "advanceRevisionLoop l s RevisionCompleted = Inr n"
    and "requeuedNodeIds rt l = Inr ids" "requeue_nodes t ids (node_runs rt) = Inr runs"
    and "replaceRunState rt runs t = Inr reopened"
    and "WorkflowRun_ok ((rt_run reopened)\<lparr> wr_revisionLoops := obj_put i n (wr_revisionLoops (rt_run reopened)) \<rparr>)"
    and "rt' = reopened\<lparr> rt_run := (rt_run reopened)\<lparr> wr_revisionLoops := obj_put i n (wr_revisionLoops (rt_run reopened)) \<rparr>,
           rt_evidence := surviving_evidence rt l (set ids),
           rt_activeRevisionLoopIds := uniqueSorted (rt_activeRevisionLoopIds rt @ [i]) \<rparr>"
proof -
  from assms obtain l s where q: "queueable_loop rt i t = Inr (l, s)"
    by (auto simp: queueRevisionAttempt_def res_bind_eq_Inr)
  then have "find_loop rt i = Some l" "obj_get (wr_revisionLoops (rt_run rt)) i = Some s"
    "ls_status s = RevisionRequired" "\<not> retry_too_early s t"
    by (auto simp: queueable_loop_def res_bind_eq_Inr loop_and_state_Inr split: if_splits)
  with assms q show ?thesis using that by (auto simp: queueRevisionAttempt_def res_bind_eq_Inr)
qed

text \<open>The nodes an attempt involves: both ends of the loop, and the agent and the check producers of a reviewing gate.\<close>

definition gate_node_at :: "runtime \<Rightarrow> string \<Rightarrow> review_gate_data \<Rightarrow> bool" where
  "gate_node_at rt i g = (\<exists>n. find_node rt i = Some n \<and> node_data n = ReviewGateNode g)"

definition attempt_nodes :: "runtime \<Rightarrow> revision_loop \<Rightarrow> string set" where
  "attempt_nodes rt l = {loop_implementationNodeId l, loop_reviewNodeId l}
     \<union> {i. \<exists>g. gate_node_at rt (loop_reviewNodeId l) g \<and> (rg_reviewerAgentId g = Some i
          \<or> (\<exists>m d. m \<in> set (canvas_nodes (rt_canvas rt)) \<and> node_data m = TestNode d \<and> node_id m = i
               \<and> (\<exists>c \<in> set (rg_requiredCheckIds g). c \<in> set (te_runIds d))))}"

text \<open>
  The evidence a new attempt starts with, table by table: exactly the entries that are not about the
  attempt. Human verdicts are kept by edge, so only the one on the loop's review edge is.
\<close>

definition edge_end_in :: "runtime \<Rightarrow> (canvas_edge \<Rightarrow> string) \<Rightarrow> string set \<Rightarrow> string \<Rightarrow> bool" where
  "edge_end_in rt end_of ids edgeId = (\<exists>e. find_edge rt edgeId = Some e \<and> end_of e \<in> ids)"

definition fresh_evidence :: "runtime \<Rightarrow> revision_loop \<Rightarrow> string set \<Rightarrow> execution_evidence \<Rightarrow> bool" where
  "fresh_evidence rt l ids ev' =
     (let ev = rt_evidence rt in
      set (ev_contextResolutions ev') = {(k, r) \<in> set (ev_contextResolutions ev). cr_targetNodeId r \<notin> ids}
      \<and> set (ev_outputPublications ev') = {(k, p) \<in> set (ev_outputPublications ev). \<not> edge_end_in rt edge_sourceNodeId ids k}
      \<and> set (ev_nodeCompletionOutputs ev') = {(k, p) \<in> set (ev_nodeCompletionOutputs ev). k \<notin> ids}
      \<and> set (ev_reviewerAssessments ev') = {(k, a) \<in> set (ev_reviewerAssessments ev).
           k \<noteq> loop_reviewEdgeId l \<and> ra_reviewerNodeId a \<notin> ids \<and> ra_reviewedNodeId a \<notin> ids}
      \<and> set (ev_gateChecks ev') = {(k, cs) \<in> set (ev_gateChecks ev). k \<noteq> loop_reviewNodeId l
           \<and> (\<forall>c \<in> set cs. ck_producerNodeId c \<notin> Some ` ids \<and> ck_reviewedNodeId c \<notin> Some ` ids)}
      \<and> set (ev_humanApprovals ev') = {(k, a) \<in> set (ev_humanApprovals ev).
           k \<noteq> loop_reviewNodeId l \<and> k \<noteq> loop_reviewEdgeId l \<and> \<not> edge_end_in rt edge_targetNodeId ids k}
      \<and> set (ev_humanReviewDecisions ev') = {(k, d) \<in> set (ev_humanReviewDecisions ev). k \<noteq> loop_reviewEdgeId l}
      \<and> ev_revisionEscapes ev' = ev_revisionEscapes ev)"

lemma set_obj_filter: "set (obj_filter P ob) = {(k, v) \<in> set ob. P k v}"
  by (auto simp: obj_filter_def)

lemma untouched_iff:
  "check_untouched ids c \<longleftrightarrow> ck_producerNodeId c \<notin> Some ` ids \<and> ck_reviewedNodeId c \<notin> Some ` ids"
  "(case find_edge rt k of None \<Rightarrow> True | Some e \<Rightarrow> f e \<notin> ids) \<longleftrightarrow> \<not> edge_end_in rt f ids k"
  by (auto simp: check_untouched_def edge_end_in_def split: option.splits)

lemma surviving_evidence_fresh: "fresh_evidence rt l ids (surviving_evidence rt l ids)"
  by (simp add: fresh_evidence_def surviving_evidence_def Let_def set_obj_filter untouched_iff approval_untouched_def
      list_all_iff)

lemma requiredCheckProducerIds_Inr:
  assumes "requiredCheckProducerIds rt i = Inr ids"
  shows "set ids = {k. \<exists>g m d. gate_node_at rt i g \<and> m \<in> set (canvas_nodes (rt_canvas rt)) \<and> node_data m = TestNode d
     \<and> node_id m = k \<and> (\<exists>c \<in> set (rg_requiredCheckIds g). c \<in> set (te_runIds d))}"
proof -
  obtain n where n: "find_node rt i = Some n" using assms
    by (auto simp: requiredCheckProducerIds_def nodeById_def res_bind_eq_Inr split: option.splits)
  show ?thesis
  proof (cases "\<exists>g. node_data n = ReviewGateNode g")
    case True
    then obtain g where g: "node_data n = ReviewGateNode g" by blast
    have producer: "k \<in> set (case node_data m of TestNode d \<Rightarrow> if c \<in> set (te_runIds d) then [node_id m] else [] | _ \<Rightarrow> [])
        \<longleftrightarrow> (\<exists>d. node_data m = TestNode d \<and> c \<in> set (te_runIds d)) \<and> node_id m = k" for k c m
      by (cases "node_data m") auto
    have "gate_node_at rt i g' \<longleftrightarrow> g' = g" for g' using n g by (auto simp: gate_node_at_def)
    then show ?thesis
      using assms n g by (auto simp: requiredCheckProducerIds_def nodeById_def res_bind_eq_Inr producer) metis+
  next
    case False
    then show ?thesis using assms n
      by (cases "node_data n") (auto simp: requiredCheckProducerIds_def nodeById_def res_bind_eq_Inr gate_node_at_def)
  qed
qed

lemma requeuedNodeIds_set:
  assumes "requeuedNodeIds rt l = Inr ids"
  shows "set ids = attempt_nodes rt l"
proof -
  obtain producers n where parts: "requiredCheckProducerIds rt (loop_reviewNodeId l) = Inr producers"
    "nodeById rt (loop_reviewNodeId l) = Inr n"
    and ids: "ids = new_Set ([loop_implementationNodeId l, loop_reviewNodeId l] @ producers
      @ (case (case node_data n of ReviewGateNode g \<Rightarrow> rg_reviewerAgentId g | _ \<Rightarrow> None) of None \<Rightarrow> [] | Some i \<Rightarrow> [i]))"
    using assms by (auto simp: requeuedNodeIds_def res_bind_eq_Inr Let_def)
  have n: "find_node rt (loop_reviewNodeId l) = Some n"
    using parts(2) by (cases "find_node rt (loop_reviewNodeId l)") (auto simp: nodeById_def)
  define agent where "agent = (case node_data n of ReviewGateNode g \<Rightarrow> rg_reviewerAgentId g | _ \<Rightarrow> None)"
  have gate: "(\<exists>g. gate_node_at rt (loop_reviewNodeId l) g \<and> rg_reviewerAgentId g = Some i) \<longleftrightarrow> agent = Some i" for i
    by (cases "node_data n") (simp_all add: gate_node_at_def n agent_def)
  have "set (case agent of None \<Rightarrow> [] | Some i \<Rightarrow> [i]) = {i. agent = Some i}" by (cases agent) auto
  then have "set ids = {loop_implementationNodeId l, loop_reviewNodeId l} \<union> set producers \<union> {i. agent = Some i}"
    unfolding ids agent_def [symmetric] by auto
  then show ?thesis
    unfolding attempt_nodes_def requiredCheckProducerIds_Inr [OF parts(1)] gate [symmetric] by blast
qed

lemma requeuedNodeIds_Inr:
  "requeuedNodeIds rt l = Inr ids \<Longrightarrow> distinct ids \<and> loop_implementationNodeId l \<in> set ids \<and> loop_reviewNodeId l \<in> set ids"
  by (auto simp: requeuedNodeIds_def res_bind_eq_Inr Let_def)

lemma queueRevisionAttempt_facts:
  assumes ok: "queueRevisionAttempt rt i t = Inr rt'"
  shows "evolves rt rt'" and "starts_nothing rt rt'" and "loops_bounded rt \<Longrightarrow> loops_bounded rt'"
    and "rt_cancellationRequested rt' = rt_cancellationRequested rt"
    and "rt_activeRevisionLoopIds rt' = uniqueSorted (rt_activeRevisionLoopIds rt @ [i])"
    and "\<exists>l s n ids. find_loop rt i = Some l \<and> obj_get (wr_revisionLoops (rt_run rt)) i = Some s
       \<and> ls_status s = RevisionRequired \<and> \<not> retry_too_early s t
       \<and> obj_get (wr_revisionLoops (rt_run rt')) i = Some n \<and> advanceRevisionLoop l s RevisionCompleted = Inr n
       \<and> requeuedNodeIds rt l = Inr ids \<and> rt_evidence rt' = surviving_evidence rt l (set ids)
       \<and> (\<forall>j \<in> set ids. \<exists>r r'. run_of rt j = Some r \<and> run_of rt' j = Some r' \<and> requeued r r')
       \<and> (\<forall>j. j \<notin> set ids \<longrightarrow> run_of rt' j = run_of rt j)"
proof -
  from ok obtain l s n ids runs reopened where l: "find_loop rt i = Some l" "obj_get (wr_revisionLoops (rt_run rt)) i = Some s"
    and s: "ls_status s = RevisionRequired" "\<not> retry_too_early s t" "advanceRevisionLoop l s RevisionCompleted = Inr n"
    and ids: "requeuedNodeIds rt l = Inr ids" "requeue_nodes t ids (node_runs rt) = Inr runs"
    and re: "replaceRunState rt runs t = Inr reopened"
    and valid: "WorkflowRun_ok ((rt_run reopened)\<lparr> wr_revisionLoops := obj_put i n (wr_revisionLoops (rt_run reopened)) \<rparr>)"
    and rt': "rt' = reopened\<lparr> rt_run := (rt_run reopened)\<lparr> wr_revisionLoops := obj_put i n (wr_revisionLoops (rt_run reopened)) \<rparr>,
           rt_evidence := surviving_evidence rt l (set ids),
           rt_activeRevisionLoopIds := uniqueSorted (rt_activeRevisionLoopIds rt @ [i]) \<rparr>"
    by (rule queueRevisionAttempt_InrE)
  have d: "distinct ids" using requeuedNodeIds_Inr [OF ids(1)] by simp
  note nodes = requeue_nodes_facts [OF d ids(2)]
  have run: "run_of rt' j = obj_get runs j" for j using replaceRunState_run_of [OF re] by (simp add: rt' run_of_def)
  have hit: "\<exists>r r'. run_of rt j = Some r \<and> run_of rt' j = Some r' \<and> requeued r r'" if "j \<in> set ids" for j
    using nodes(2) [OF that] by (simp add: run) (simp add: run_of_def)
  have miss: "run_of rt' j = run_of rt j" if "j \<notin> set ids" for j
    using nodes(3) [OF that] by (simp add: run) (simp add: run_of_def)
  have att: "nr_attempt r \<le> nr_attempt r'" if "run_of rt j = Some r" "run_of rt' j = Some r'" for j r r'
    using that hit [of j] miss [of j] by (cases "j \<in> set ids") (auto simp: requeued_def)
  have base: "evolves rt reopened" "only_node_runs rt reopened"
    using att by (auto intro!: replaceRunState_evolves [OF re nodes(1)] replaceRunState_only [OF re] simp: run)
  have keys: "i \<in> set (obj_keys (wr_revisionLoops (rt_run reopened)))"
    using l(2) base(2) obj_get_eq_None_iff [of "wr_revisionLoops (rt_run rt)" i] by (simp add: only_node_runs_def)
  have "evolves reopened rt'"
    by (rule loop_change_evolves(1)) (simp_all add: rt' valid obj_keys_put_present [OF keys])
  with base(1) show ev: "evolves rt rt'" by (rule evolves_trans)
  show "starts_nothing rt rt'"
    unfolding starts_nothing_def
  proof (intro allI impI)
    fix j assume act: "active_at rt' j"
    then have "j \<notin> set ids" using hit [of j] by (auto simp: active_at_def requeued_def)
    with act miss show "active_at rt j" by (simp add: active_at_def)
  qed
  show "rt_cancellationRequested rt' = rt_cancellationRequested rt"
    and "rt_activeRevisionLoopIds rt' = uniqueSorted (rt_activeRevisionLoopIds rt @ [i])"
    using base(2) by (simp_all add: rt' only_node_runs_def)
  have loops: "obj_get (wr_revisionLoops (rt_run rt')) j = (if j = i then Some n else obj_get (wr_revisionLoops (rt_run rt)) j)" for j
    using base(2) by (simp add: rt' only_node_runs_def)
  show "loops_bounded rt'" if b: "loops_bounded rt"
  proof (rule loops_bounded_put [OF b l(1)])
    show "loop_inv l n" using advance_inv [OF loops_boundedD [OF b l] s(3)] by blast
    show "rt_canvas rt' = rt_canvas rt" using ev by (simp add: evolves_def)
  qed (rule loops)
  have "rt_evidence rt' = surviving_evidence rt l (set ids)" by (simp add: rt')
  then show "\<exists>l s n ids. find_loop rt i = Some l \<and> obj_get (wr_revisionLoops (rt_run rt)) i = Some s
       \<and> ls_status s = RevisionRequired \<and> \<not> retry_too_early s t
       \<and> obj_get (wr_revisionLoops (rt_run rt')) i = Some n \<and> advanceRevisionLoop l s RevisionCompleted = Inr n
       \<and> requeuedNodeIds rt l = Inr ids \<and> rt_evidence rt' = surviving_evidence rt l (set ids)
       \<and> (\<forall>j \<in> set ids. \<exists>r r'. run_of rt j = Some r \<and> run_of rt' j = Some r' \<and> requeued r r')
       \<and> (\<forall>j. j \<notin> set ids \<longrightarrow> run_of rt' j = run_of rt j)"
    using l s ids loops [of i] hit miss by (intro exI [of _ l] exI [of _ s] exI [of _ n] exI [of _ ids]) simp
qed

interpretation queueing: idle_operation "\<lambda>rt. queueRevisionAttempt rt i t" for i t
  by unfold_locales (rule queueRevisionAttempt_facts(1,2); assumption)+

text \<open>
  C5. Queueing a revision starts exactly one more attempt, within the loop's bound and not before it is
  eligible. The implementation, the reviewer, the reviewing agent and the producers of the gate's
  required checks, all of them finished, are queued again under the next attempt number; the others
  stay. Exactly the evidence about these nodes, the loop's review edge and its gate is dropped, approvals and
  the person's verdict on that edge included, and all other evidence is kept.
\<close>

theorem queueRevisionAttempt_correct:
  assumes bounded: "loops_bounded rt" and ok: "queueRevisionAttempt rt i t = Inr rt'"
  shows "\<exists>l s n. find_loop rt i = Some l \<and> obj_get (wr_revisionLoops (rt_run rt)) i = Some s
    \<and> obj_get (wr_revisionLoops (rt_run rt')) i = Some n
    \<and> ls_attemptsStarted n = ls_attemptsStarted s + 1 \<and> ls_attemptsStarted n \<le> loop_maximumAttempts l
    \<and> ls_status s = RevisionRequired \<and> ls_status n = ReviewRequired \<and> \<not> retry_too_early s t
    \<and> (\<forall>j \<in> attempt_nodes rt l. \<exists>r r'. run_of rt j = Some r \<and> run_of rt' j = Some r' \<and> requeued r r')
    \<and> (\<forall>j. j \<notin> attempt_nodes rt l \<longrightarrow> run_of rt' j = run_of rt j)
    \<and> fresh_evidence rt l (attempt_nodes rt l) (rt_evidence rt')
    \<and> evolves rt rt' \<and> starts_nothing rt rt' \<and> loops_bounded rt'"
proof -
  note facts = queueRevisionAttempt_facts [OF ok]
  obtain l s n ids where l: "find_loop rt i = Some l" "obj_get (wr_revisionLoops (rt_run rt)) i = Some s"
    and s: "ls_status s = RevisionRequired" "\<not> retry_too_early s t" "advanceRevisionLoop l s RevisionCompleted = Inr n"
    and n: "obj_get (wr_revisionLoops (rt_run rt')) i = Some n"
    and ids: "requeuedNodeIds rt l = Inr ids" "rt_evidence rt' = surviving_evidence rt l (set ids)"
    and runs: "\<forall>j \<in> set ids. \<exists>r r'. run_of rt j = Some r \<and> run_of rt' j = Some r' \<and> requeued r r'"
      "\<forall>j. j \<notin> set ids \<longrightarrow> run_of rt' j = run_of rt j"
    using facts(6) by blast
  have inv: "loop_inv l s" using loops_boundedD [OF bounded l] .
  have next_state: "ls_attemptsStarted n = ls_attemptsStarted s + 1" "loop_inv l n" "ls_status n = ReviewRequired"
    using advance_inv [OF inv s(3)] s(1,3) inv
    by (auto simp: advanceRevisionLoop_def withoutEligibility_def loop_inv_def split: if_splits)
  have max: "ls_attemptsStarted n \<le> loop_maximumAttempts l" using next_state(2) by (simp add: loop_inv_def)
  show ?thesis
    using l s n ids runs next_state max surviving_evidence_fresh facts(1,2) facts(3) [OF bounded]
    unfolding requeuedNodeIds_set [OF ids(1)]
    by (intro exI [of _ l] exI [of _ s] exI [of _ n]) simp
qed

end
