(* ===== verification/Escape.thy ===== *)
theory Escape
  imports Attempts
begin

text \<open>
  How a person resolves an exhausted revision loop (\<open>resolveRevisionEscape\<close> of \<open>revisions.ts\<close>): the
  decision must name the loop's current evidence; cancelling ends every node run and the loop,
  accepting ends the loop by the configured stop condition and never turns a failed gate into a
  passed one.
\<close>

section \<open>Storing the resolution\<close>

lemma evolves_fields:
  "evolves rt rt' \<Longrightarrow> evolves rt (rt'\<lparr> rt_evidence := e, rt_activeRevisionLoopIds := a \<rparr>)"
  "evolves rt rt' \<Longrightarrow> evolves rt (rt'\<lparr> rt_cancellationRequested := b \<rparr>)"
  by (simp_all add: evolves_def run_of_def)

lemma starts_nothing_fields:
  "starts_nothing rt rt' \<Longrightarrow> starts_nothing rt (rt'\<lparr> rt_evidence := e, rt_activeRevisionLoopIds := a \<rparr>)"
  "starts_nothing rt rt' \<Longrightarrow> starts_nothing rt (rt'\<lparr> rt_cancellationRequested := b \<rparr>)"
  by (simp_all add: starts_nothing_def active_at_def run_of_def)

lemma put_escape_fields [simp]:
  "rt_run (put_escape i x rt) = rt_run rt" "rt_canvas (put_escape i x rt) = rt_canvas rt"
  "run_of (put_escape i x rt) j = run_of rt j"
  "obj_get (ev_revisionEscapes (rt_evidence (put_escape i x rt))) i = Some x"
  "rt_activeRevisionLoopIds (put_escape i x rt) = filter (\<lambda>j. j \<noteq> i) (rt_activeRevisionLoopIds rt)"
  by (simp_all add: put_escape_def run_of_def)

lemma put_escape_evolves:
  "evolves rt rt' \<Longrightarrow> evolves rt (put_escape i x rt')"
  "starts_nothing rt rt' \<Longrightarrow> starts_nothing rt (put_escape i x rt')"
  unfolding put_escape_def by (rule evolves_fields starts_nothing_fields; assumption)+

section \<open>Cancelling the loop\<close>

lemma normalize_cancelled_Inr:
  assumes "normalize_cancelled t (k, r) = Inr e'"
  shows "fst e' = k \<and> nr_attempt (snd e') = nr_attempt r
    \<and> nr_status (snd e') = (if nr_status r = Failed \<or> nr_status r = Lost then Cancelled else nr_status r)"
  using assms by (auto simp: normalize_cancelled_def res_bind_eq_Inr NodeRunStateSchema_parse_def split: if_splits)

text \<open>The status a node run has after its loop was cancelled by a person.\<close>

definition stopped_status :: "run_status \<Rightarrow> run_status" where
  "stopped_status s =
     (if s = Succeeded then Succeeded else if isActiveStatus s then Cancelling else Cancelled)"

lemma cancel_escape_facts:
  assumes shape: "runtime_shape rt" and l: "find_loop rt (loop_id l) = Some l"
    and s: "obj_get (wr_revisionLoops (rt_run rt)) (loop_id l) = Some s"
    and ok: "cancel_escape rt l s x = Inr rt'"
  shows "evolves rt rt'" and "starts_nothing rt rt'" and "rt_cancellationRequested rt'"
    and "advanceRevisionLoop l s HumanAborted = Inr
           (the (obj_get (wr_revisionLoops (rt_run rt')) (loop_id l)))"
    and "obj_get (wr_revisionLoops (rt_run rt')) j =
           (if j = loop_id l then Some ((withoutEligibility s)\<lparr> ls_status := LoopCancelled \<rparr>)
            else obj_get (wr_revisionLoops (rt_run rt)) j)"
    and "obj_get (ev_revisionEscapes (rt_evidence rt')) (loop_id l) = Some x"
    and "loop_id l \<notin> set (rt_activeRevisionLoopIds rt')"
    and "run_of rt k = Some r \<Longrightarrow> \<exists>r'. run_of rt' k = Some r' \<and> nr_attempt r' = nr_attempt r
           \<and> nr_status r' = stopped_status (nr_status r)"
proof -
  let ?t = "es_decidedAt x"
  from ok obtain n rt1 run2 entries rt3 where n: "advanceRevisionLoop l s HumanAborted = Inr n"
    and rt1: "replaceRevisionLoopState rt (loop_id l) n ?t = Inr rt1"
    and run2: "requestWorkflowCancellation (rt_run rt1) ?t = Inr run2"
    and entries: "map_res (normalize_cancelled ?t) (wr_nodeRuns run2) = Inr entries"
    and rt3: "replaceRunState (rt1\<lparr> rt_run := run2 \<rparr>) (obj_from entries) ?t = Inr rt3"
    and rt': "rt' = (put_escape (loop_id l) x rt3)\<lparr> rt_cancellationRequested := True \<rparr>"
    by (auto simp: cancel_escape_def res_bind_eq_Inr)
  have n': "n = (withoutEligibility s)\<lparr> ls_status := LoopCancelled \<rparr>"
    using n by (auto simp: advanceRevisionLoop_def split: if_splits)
  have old: "obj_get (wr_revisionLoops (rt_run rt)) (loop_id l) \<noteq> None" using s by simp
  note f1 = replaceRevisionLoopState_facts [OF rt1 old]
  have shape1: "runtime_shape rt1" using shape f1(1) by (rule evolves_shape)
  then have ok1: "WorkflowRun_ok (rt_run rt1)" "obj_ok (node_runs rt1)" by (simp_all add: runtime_shape_def)
  have t: "is_timestamp ?t"
    using rt1 by (auto simp: replaceRevisionLoopState_Inr WorkflowRun_ok_def)
  have rel: "list_all2 (\<lambda>(k, r) (k', r'). k' = k \<and> nr_attempt r' = nr_attempt r
          \<and> nr_status r' = (if isTerminalRunStatus (nr_status r) then nr_status r
                            else if isActiveStatus (nr_status r) then Cancelling else Cancelled)
          \<and> (isActiveStatus (nr_status r) \<longrightarrow> nr_process r' = nr_process r)) (node_runs rt1) (wr_nodeRuns run2)"
    and ok2: "WorkflowRun_ok run2"
    using request_cancellation [OF ok1 t] run2 by auto
  define rt2 where "rt2 = rt1\<lparr> rt_run := run2 \<rparr>"
  have rel2: "list_all2 (\<lambda>(k, r) (k', r'). k' = k \<and> nr_attempt r \<le> nr_attempt r'
      \<and> (isActiveStatus (nr_status r') \<longrightarrow> isActiveStatus (nr_status r))) (node_runs rt1) (wr_nodeRuns run2)"
    using rel by (rule list_all2_mono) (auto split: if_splits)
  note form = requestWorkflowCancellation_form [OF run2]
  have ev2: "evolves rt1 rt2" "starts_nothing rt1 rt2"
    by (rule evolves_of_run [OF form ok2 rel2]; simp add: rt2_def)+
  have loops2: "wr_revisionLoops run2 = wr_revisionLoops (rt_run rt1)" by (subst form) simp
  have rel3: "list_all2 (\<lambda>(k, r) (k', r'). k' = k \<and> (nr_attempt r' = nr_attempt r
        \<and> nr_status r' = (if nr_status r = Failed \<or> nr_status r = Lost then Cancelled else nr_status r)))
      (wr_nodeRuns run2) entries"
    using entries unfolding map_res_Inr_list_all2
    by (rule list_all2_mono) (auto dest: normalize_cancelled_Inr)
  have keys3: "obj_keys entries = obj_keys (wr_nodeRuns run2)" using obj_get_list_all2(1) [OF rel3] .
  have shape2: "runtime_shape rt2" using shape1 ev2(1) by (rule evolves_shape)
  then have "distinct (obj_keys (wr_nodeRuns run2))" by (simp add: runtime_shape_def obj_ok_keys rt2_def)
  then have from_entries: "obj_from entries = entries"
    by (intro obj_from_distinct) (simp add: obj_keys_def [symmetric] keys3)
  have rt3': "replaceRunState rt2 entries ?t = Inr rt3" using rt3 by (simp add: from_entries rt2_def)
  note run3 = replaceRunState_run_of [OF rt3']
  have step3: "\<exists>r'. run_of rt3 k = Some r' \<and> nr_attempt r' = nr_attempt r
      \<and> nr_status r' = (if nr_status r = Failed \<or> nr_status r = Lost then Cancelled else nr_status r)"
    if "run_of rt2 k = Some r" for k r
  proof -
    from that have "obj_get (wr_nodeRuns run2) k = Some r" by (simp add: run_of_def rt2_def)
    with obj_get_list_all2(2) [OF rel3, of k] show ?thesis unfolding run3 by (auto simp: option_rel_Some1)
  qed
  have ev3: "evolves rt2 rt3"
  proof (rule replaceRunState_evolves [OF rt3'])
    show "obj_keys entries = obj_keys (node_runs rt2)" using keys3 by (simp add: rt2_def)
    show "nr_attempt r \<le> nr_attempt r'" if "run_of rt2 k = Some r" "obj_get entries k = Some r'" for k r r'
      using step3 [OF that(1)] that(2) by (auto simp: run3)
  qed
  have idle3: "starts_nothing rt2 rt3"
    unfolding starts_nothing_def
  proof (intro allI impI)
    fix k assume act: "active_at rt3 k"
    then obtain r where r: "run_of rt2 k = Some r" using evolves_run [OF ev3, of k] by (auto simp: active_at_def)
    from step3 [OF r] act r show "active_at rt2 k" by (auto simp: active_at_def split: if_splits)
  qed
  have "evolves rt rt3" using f1(1) ev2(1) ev3 by (blast intro: evolves_trans)
  then show "evolves rt rt'" unfolding rt' by (intro evolves_fields(2) put_escape_evolves)
  have "starts_nothing rt rt3" using f1(2) ev2(2) idle3 by (blast intro: starts_nothing_trans)
  then show "starts_nothing rt rt'" unfolding rt' by (intro starts_nothing_fields(2) put_escape_evolves)
  show "rt_cancellationRequested rt'" by (simp add: rt')
  have loops3: "wr_revisionLoops (rt_run rt3) = wr_revisionLoops (rt_run rt1)"
    using replaceRunState_only [OF rt3'] loops2 by (simp add: only_node_runs_def rt2_def)
  show loops: "obj_get (wr_revisionLoops (rt_run rt')) j =
           (if j = loop_id l then Some ((withoutEligibility s)\<lparr> ls_status := LoopCancelled \<rparr>)
            else obj_get (wr_revisionLoops (rt_run rt)) j)" for j
    using f1(7) [of j] by (simp add: rt' loops3 n')
  show "advanceRevisionLoop l s HumanAborted = Inr
           (the (obj_get (wr_revisionLoops (rt_run rt')) (loop_id l)))"
    using n by (simp add: loops n')
  show "obj_get (ev_revisionEscapes (rt_evidence rt')) (loop_id l) = Some x"
    and "loop_id l \<notin> set (rt_activeRevisionLoopIds rt')" by (simp_all add: rt')
  show "\<exists>r'. run_of rt' k = Some r' \<and> nr_attempt r' = nr_attempt r
           \<and> nr_status r' = stopped_status (nr_status r)" if r: "run_of rt k = Some r"
  proof -
    have "obj_get (node_runs rt1) k = Some r" using r f1(3) by (simp add: run_of_def)
    moreover have rel': "list_all2 (\<lambda>(k, r) (k', r'). k' = k \<and> (nr_attempt r' = nr_attempt r
          \<and> nr_status r' = (if isTerminalRunStatus (nr_status r) then nr_status r
                            else if isActiveStatus (nr_status r) then Cancelling else Cancelled)))
        (node_runs rt1) (node_runs rt2)"
      using rel by (simp add: rt2_def) (erule list_all2_mono, auto)
    ultimately obtain r2 where r2: "run_of rt2 k = Some r2" "nr_attempt r2 = nr_attempt r"
      "nr_status r2 = (if isTerminalRunStatus (nr_status r) then nr_status r
                            else if isActiveStatus (nr_status r) then Cancelling else Cancelled)"
      using obj_get_list_all2(2) [OF rel', of k] by (auto simp: run_of_def option_rel_Some1)
    from step3 [OF r2(1)] r2(2,3) show ?thesis
      by (cases "nr_status r") (auto simp: rt' stopped_status_def run_of_def [of "_\<lparr>rt_cancellationRequested := _\<rparr>"] run_of_def [of rt3, symmetric])
  qed
qed

section \<open>Accepting the result\<close>

text \<open>Whether the reviewer of the loop is a review gate.\<close>

definition gate_reviewed :: "runtime \<Rightarrow> revision_loop \<Rightarrow> bool" where
  "gate_reviewed rt l =
     (case find_node rt (loop_reviewNodeId l) of None \<Rightarrow> False | Some n \<Rightarrow> is_ReviewGateNode (node_data n))"

lemma failed_gate_run_Inr:
  assumes "failed_gate_run r t = Inr r'"
  shows "nr_attempt r' = nr_attempt r"
    and "r' = r \<and> \<not> isActiveStatus (nr_status r) \<or> nr_status r' = Failed \<and> isActiveStatus (nr_status r)"
  using assms
  by (cases "nr_status r"; auto simp: failed_gate_run_def transitionNodeRun_InrD(4,5))+

lemma accepted_run_cases:
  assumes r: "run_of rt (loop_reviewNodeId l) = Some r"
    and ok: "(if gate then accept_gate rt l r t else accept_reviewer rt l r t) = Inr rt1"
  obtains "rt1 = rt" "\<not> gate" "nr_status r = Succeeded"
  | r' where "replace_node_run rt (loop_reviewNodeId l) r' t = Inr rt1" "nr_attempt r' = nr_attempt r"
      "gate" "nr_status r' \<noteq> Succeeded" "isActiveStatus (nr_status r') \<longrightarrow> isActiveStatus (nr_status r)"
  | r' where "replace_node_run rt (loop_reviewNodeId l) r' t = Inr rt1" "nr_attempt r' = nr_attempt r"
      "\<not> gate" "nr_status r = Failed" "nr_status r' = Succeeded"
proof (cases gate)
  case True
  with ok obtain r' where r': "failed_gate_run r t = Inr r'" "nr_status r' \<noteq> Succeeded"
      "replace_node_run rt (loop_reviewNodeId l) r' t = Inr rt1"
    by (auto simp: accept_gate_def res_bind_eq_Inr split: if_splits)
  show ?thesis using that(2) [OF r'(3)] failed_gate_run_Inr [OF r'(1)] True r'(2) by auto
next
  case human: False
  with ok have accept: "accept_reviewer rt l r t = Inr rt1" by simp
  show ?thesis
  proof (cases "nr_status r = Succeeded")
    case True
    with accept show ?thesis by (intro that(1)) (simp_all add: accept_reviewer_def human)
  next
    case False
    with accept have "nr_status r = Failed" "replace_node_run rt (loop_reviewNodeId l) (accepted_reviewer r t) t = Inr rt1"
      by (auto simp: accept_reviewer_def res_bind_eq_Inr NodeRunStateSchema_parse_def split: if_splits)
    then show ?thesis by (intro that(3) [of "accepted_reviewer r t"]) (simp_all add: accepted_reviewer_def human)
  qed
qed

lemma accepted_run_facts:
  assumes shape: "runtime_shape rt" and r: "run_of rt (loop_reviewNodeId l) = Some r"
    and ok: "(if gate then accept_gate rt l r t else accept_reviewer rt l r t) = Inr rt1"
  shows "evolves rt rt1" and "starts_nothing rt rt1" and "only_node_runs rt rt1"
    and "j \<noteq> loop_reviewNodeId l \<Longrightarrow> run_of rt1 j = run_of rt j"
    and "\<exists>r1. run_of rt1 (loop_reviewNodeId l) = Some r1 \<and> nr_attempt r1 = nr_attempt r
      \<and> (if gate then nr_status r1 \<noteq> Succeeded else nr_status r1 = Succeeded)"
proof -
  have "evolves rt rt1 \<and> starts_nothing rt rt1 \<and> only_node_runs rt rt1
    \<and> (\<forall>j. j \<noteq> loop_reviewNodeId l \<longrightarrow> run_of rt1 j = run_of rt j)
    \<and> (\<exists>r1. run_of rt1 (loop_reviewNodeId l) = Some r1 \<and> nr_attempt r1 = nr_attempt r
      \<and> (if gate then nr_status r1 \<noteq> Succeeded else nr_status r1 = Succeeded))"
    using r ok
  proof (cases rule: accepted_run_cases)
    case 1
    then show ?thesis using shape r by (simp add: evolves_refl only_node_runs_def)
  next
    case (2 r')
    have le: "nr_attempt r \<le> nr_attempt r'" using 2(2) by simp
    note put = replace_node_run_facts [OF 2(1) r le]
    have "starts_nothing rt rt1" using 2(5) r by (auto simp: starts_nothing_def active_at_def put(3))
    then show ?thesis using put 2 by simp
  next
    case (3 r')
    have le: "nr_attempt r \<le> nr_attempt r'" using 3(2) by simp
    note put = replace_node_run_facts [OF 3(1) r le]
    have "starts_nothing rt rt1" using 3(5) by (auto simp: starts_nothing_def active_at_def put(3))
    then show ?thesis using put 3 by simp
  qed
  then show "evolves rt rt1" and "starts_nothing rt rt1" and "only_node_runs rt rt1"
    and "j \<noteq> loop_reviewNodeId l \<Longrightarrow> run_of rt1 j = run_of rt j"
    and "\<exists>r1. run_of rt1 (loop_reviewNodeId l) = Some r1 \<and> nr_attempt r1 = nr_attempt r
      \<and> (if gate then nr_status r1 \<noteq> Succeeded else nr_status r1 = Succeeded)" by blast+
qed

lemma accept_escape_facts:
  assumes shape: "runtime_shape rt" and s: "obj_get (wr_revisionLoops (rt_run rt)) (loop_id l) = Some s"
    and r: "run_of rt (loop_reviewNodeId l) = Some r" and ok: "accept_escape rt l s r x = Inr rt'"
  shows "evolves rt rt'" and "starts_nothing rt rt'" and "HumanAccepted \<in> set (loop_stopConditions l)"
    and "obj_get (wr_revisionLoops (rt_run rt')) j =
           (if j = loop_id l then Some ((withoutEligibility s)\<lparr> ls_status := Satisfied, ls_stopCondition := Some HumanAccepted \<rparr>)
            else obj_get (wr_revisionLoops (rt_run rt)) j)"
    and "advanceRevisionLoop l s (StopConditionMet HumanAccepted) = Inr
           (the (obj_get (wr_revisionLoops (rt_run rt')) (loop_id l)))"
    and "obj_get (ev_revisionEscapes (rt_evidence rt')) (loop_id l) = Some x"
    and "loop_id l \<notin> set (rt_activeRevisionLoopIds rt')"
    and "others_settled rt (loop_reviewNodeId l) rt'"
    and "\<exists>r'. run_of rt' (loop_reviewNodeId l) = Some r'
      \<and> (if gate_reviewed rt l then nr_status r' \<noteq> Succeeded else nr_status r' = Succeeded)"
proof -
  let ?t = "es_decidedAt x" and ?i = "loop_reviewNodeId l"
  from ok have stop: "HumanAccepted \<in> set (loop_stopConditions l)" by (auto simp: accept_escape_def split: if_splits)
  with ok obtain node rt1 n rt2 where node: "nodeById rt ?i = Inr node"
    and rt1: "(if is_ReviewGateNode (node_data node) then accept_gate rt l r ?t else accept_reviewer rt l r ?t) = Inr rt1"
    and n: "advanceRevisionLoop l s (StopConditionMet HumanAccepted) = Inr n"
    and rt2: "replaceRevisionLoopState rt1 (loop_id l) n ?t = Inr rt2"
    and settle: "settleBlockedWorkflowNodes (put_escape (loop_id l) x rt2) ?t = Inr rt'"
    by (auto simp: accept_escape_def res_bind_eq_Inr split del: if_split)
  have gate: "gate_reviewed rt l = is_ReviewGateNode (node_data node)"
    using node by (simp add: gate_reviewed_def nodeById_def split: option.splits)
  have n': "n = (withoutEligibility s)\<lparr> ls_status := Satisfied, ls_stopCondition := Some HumanAccepted \<rparr>"
    using n by (auto simp: advanceRevisionLoop_def split: if_splits)
  note f1 = accepted_run_facts [OF shape r rt1]
  have loops1: "wr_revisionLoops (rt_run rt1) = wr_revisionLoops (rt_run rt)"
    using f1(3) by (simp add: only_node_runs_def)
  then have old: "obj_get (wr_revisionLoops (rt_run rt1)) (loop_id l) \<noteq> None" using s by simp
  note f2 = replaceRevisionLoopState_facts [OF rt2 old]
  have runs2: "run_of rt2 = run_of rt1" using f2(3) by (simp add: run_of_def fun_eq_iff)
  define rt3 where "rt3 = put_escape (loop_id l) x rt2"
  have runs3: "run_of rt3 = run_of rt1" by (simp add: rt3_def runs2 fun_eq_iff)
  have ev3: "evolves rt rt3" unfolding rt3_def using f1(1) f2(1) by (intro put_escape_evolves) (rule evolves_trans)
  have idle3: "starts_nothing rt rt3"
    unfolding rt3_def using f1(2) f2(2) by (intro put_escape_evolves) (rule starts_nothing_trans)
  have shape3: "runtime_shape rt3" using shape ev3 by (rule evolves_shape)
  have settle3: "settleBlockedWorkflowNodes rt3 ?t = Inr rt'" using settle by (simp add: rt3_def)
  have settles: "settles rt3 rt'" using settleBlocked_settles [OF shape3 settle3] by blast
  then have ev': "evolves rt3 rt'" and only: "only_node_runs rt3 rt'"
    and moved: "\<And>j. run_of rt' j = run_of rt3 j \<or> is_pending rt3 j \<and> (\<exists>r. run_of rt' j = Some r \<and> nr_status r = Cancelled)"
    unfolding settles_def by blast+
  show "evolves rt rt'" using ev3 ev' by (rule evolves_trans)
  show "starts_nothing rt rt'" using idle3 settling.idle [OF shape3 settle3] by (rule starts_nothing_trans)
  show "HumanAccepted \<in> set (loop_stopConditions l)" by fact
  show loops: "obj_get (wr_revisionLoops (rt_run rt')) j =
           (if j = loop_id l then Some ((withoutEligibility s)\<lparr> ls_status := Satisfied, ls_stopCondition := Some HumanAccepted \<rparr>)
            else obj_get (wr_revisionLoops (rt_run rt)) j)" for j
    using only f2(7) [of j] loops1 by (simp add: only_node_runs_def rt3_def n')
  show "advanceRevisionLoop l s (StopConditionMet HumanAccepted) = Inr
           (the (obj_get (wr_revisionLoops (rt_run rt')) (loop_id l)))"
    using n by (simp add: loops n')
  show "obj_get (ev_revisionEscapes (rt_evidence rt')) (loop_id l) = Some x"
    and "loop_id l \<notin> set (rt_activeRevisionLoopIds rt')"
    using only by (simp_all add: only_node_runs_def rt3_def)
  show "others_settled rt ?i rt'"
    unfolding others_settled_def
  proof (intro allI impI)
    fix j assume "j \<noteq> ?i"
    then have same: "run_of rt3 j = run_of rt j" using f1(4) by (simp add: runs3)
    then have "is_pending rt3 j = is_pending rt j" by (simp add: is_pending_def)
    with moved [of j] same show "run_of rt' j = run_of rt j
        \<or> is_pending rt j \<and> (\<exists>r'. run_of rt' j = Some r' \<and> nr_status r' = Cancelled)" by simp
  qed
  from f1(5) obtain r1 where r1: "run_of rt3 ?i = Some r1"
      "if gate_reviewed rt l then nr_status r1 \<noteq> Succeeded else nr_status r1 = Succeeded"
    by (auto simp: gate runs3)
  show "\<exists>r'. run_of rt' ?i = Some r'
      \<and> (if gate_reviewed rt l then nr_status r' \<noteq> Succeeded else nr_status r' = Succeeded)"
    using moved [of ?i] r1 by (auto simp: is_pending_def)
qed

section \<open>Resolving\<close>

lemma resolveRevisionEscape_InrE:
  assumes "resolveRevisionEscape rt x = Inr rt'"
  obtains l s r where "find_loop rt (er_loopId x) = Some l" "obj_get (wr_revisionLoops (rt_run rt)) (er_loopId x) = Some s"
    and "ls_status s = WaitingHuman" "er_runId x = run_id rt" "er_attemptsStarted x = ls_attemptsStarted s"
    and "er_evidenceFingerprint x = fingerprint ''revision-escape-v1:'' (escape_evidence rt l s)"
    and "run_of rt (loop_reviewNodeId l) = Some r"
    and "es_decision x = EscapeCancel \<longrightarrow> cancel_escape rt l s x = Inr rt'"
    and "es_decision x = EscapeAccept \<longrightarrow> accept_escape rt l s r x = Inr rt'"
proof -
  from assms obtain l s where ls: "loop_and_state rt (er_loopId x) = Inr (l, s)" "ls_status s = WaitingHuman"
    by (auto simp: resolveRevisionEscape_def getRevisionEscapeRequest_def res_bind_eq_Inr split: if_splits)
  with assms obtain r where "er_runId x = run_id rt" "er_attemptsStarted x = ls_attemptsStarted s"
    "er_evidenceFingerprint x = fingerprint ''revision-escape-v1:'' (escape_evidence rt l s)"
    "run_of rt (loop_reviewNodeId l) = Some r"
    "es_decision x = EscapeCancel \<longrightarrow> cancel_escape rt l s x = Inr rt'"
    "es_decision x = EscapeAccept \<longrightarrow> accept_escape rt l s r x = Inr rt'"
    by (auto simp: resolveRevisionEscape_def getRevisionEscapeRequest_def res_bind_eq_Inr
        split: if_splits option.splits escape_decision.splits)
  with ls that show ?thesis by (auto simp: loop_and_state_Inr)
qed

text \<open>What a person's decision does to the loop and to the node runs.\<close>

definition loop_cancelled :: "runtime \<Rightarrow> runtime \<Rightarrow> string \<Rightarrow> bool" where
  "loop_cancelled rt rt' i =
     ((\<exists>s'. obj_get (wr_revisionLoops (rt_run rt')) i = Some s' \<and> ls_status s' = LoopCancelled)
      \<and> rt_cancellationRequested rt'
      \<and> (\<forall>k r. run_of rt k = Some r \<longrightarrow> (\<exists>r'. run_of rt' k = Some r' \<and> nr_attempt r' = nr_attempt r
           \<and> nr_status r' = stopped_status (nr_status r))))"

definition loop_accepted :: "runtime \<Rightarrow> runtime \<Rightarrow> revision_loop \<Rightarrow> bool" where
  "loop_accepted rt rt' l =
     (HumanAccepted \<in> set (loop_stopConditions l)
      \<and> (\<exists>s'. obj_get (wr_revisionLoops (rt_run rt')) (loop_id l) = Some s'
           \<and> ls_status s' = Satisfied \<and> ls_stopCondition s' = Some HumanAccepted)
      \<and> (\<exists>r'. run_of rt' (loop_reviewNodeId l) = Some r'
           \<and> (if gate_reviewed rt l then nr_status r' \<noteq> Succeeded else nr_status r' = Succeeded))
      \<and> others_settled rt (loop_reviewNodeId l) rt')"

lemma resolveRevisionEscape_facts:
  assumes shape: "runtime_shape rt" and ok: "resolveRevisionEscape rt x = Inr rt'"
  shows "evolves rt rt'" and "starts_nothing rt rt'" and "loops_bounded rt \<Longrightarrow> loops_bounded rt'"
    and "obj_get (ev_revisionEscapes (rt_evidence rt')) (er_loopId x) = Some x"
    and "er_loopId x \<notin> set (rt_activeRevisionLoopIds rt')"
    and "\<exists>l s. find_loop rt (er_loopId x) = Some l \<and> obj_get (wr_revisionLoops (rt_run rt)) (er_loopId x) = Some s
       \<and> ls_status s = WaitingHuman \<and> er_runId x = run_id rt \<and> er_attemptsStarted x = ls_attemptsStarted s
       \<and> er_evidenceFingerprint x = fingerprint ''revision-escape-v1:'' (escape_evidence rt l s)
       \<and> (case es_decision x of EscapeCancel \<Rightarrow> loop_cancelled rt rt' (er_loopId x)
          | EscapeAccept \<Rightarrow> loop_accepted rt rt' l)"
proof -
  from ok obtain l s r where l: "find_loop rt (er_loopId x) = Some l" "obj_get (wr_revisionLoops (rt_run rt)) (er_loopId x) = Some s"
    and names: "ls_status s = WaitingHuman" "er_runId x = run_id rt" "er_attemptsStarted x = ls_attemptsStarted s"
      "er_evidenceFingerprint x = fingerprint ''revision-escape-v1:'' (escape_evidence rt l s)"
    and r: "run_of rt (loop_reviewNodeId l) = Some r"
    and how: "es_decision x = EscapeCancel \<longrightarrow> cancel_escape rt l s x = Inr rt'"
      "es_decision x = EscapeAccept \<longrightarrow> accept_escape rt l s r x = Inr rt'"
    by (rule resolveRevisionEscape_InrE)
  have id: "loop_id l = er_loopId x" using find_loop_id [OF l(1)] .
  have l': "find_loop rt (loop_id l) = Some l" "obj_get (wr_revisionLoops (rt_run rt)) (loop_id l) = Some s"
    using l by (simp_all add: id)
  have bounded: "loops_bounded rt'" if b: "loops_bounded rt" and ev: "evolves rt rt'"
    and e: "advanceRevisionLoop l s e = Inr (the (obj_get (wr_revisionLoops (rt_run rt')) (loop_id l)))"
    and put: "\<And>j. obj_get (wr_revisionLoops (rt_run rt')) j = (if j = loop_id l then Some n else obj_get (wr_revisionLoops (rt_run rt)) j)"
    for e n
  proof (rule loops_bounded_put [OF b l'(1) _ _ put])
    show "loop_inv l n" using advance_inv [OF loops_boundedD [OF b l] e] by (simp add: put)
    show "rt_canvas rt' = rt_canvas rt" using ev by (simp add: evolves_def)
  qed
  let ?P = "evolves rt rt' \<and> starts_nothing rt rt' \<and> (loops_bounded rt \<longrightarrow> loops_bounded rt')
    \<and> obj_get (ev_revisionEscapes (rt_evidence rt')) (loop_id l) = Some x
    \<and> loop_id l \<notin> set (rt_activeRevisionLoopIds rt')
    \<and> (case es_decision x of EscapeCancel \<Rightarrow> loop_cancelled rt rt' (loop_id l) | EscapeAccept \<Rightarrow> loop_accepted rt rt' l)"
  have ?P
  proof (cases "es_decision x")
    case EscapeCancel
    note f = cancel_escape_facts [OF shape l' how(1) [rule_format, OF EscapeCancel]]
    have "loop_cancelled rt rt' (loop_id l)" using f(3,5,8) by (simp add: loop_cancelled_def)
    with f(1,2,6,7) bounded [OF _ f(1,4,5)] EscapeCancel show ?P by simp
  next
    case EscapeAccept
    note f = accept_escape_facts [OF shape l'(2) r how(2) [rule_format, OF EscapeAccept]]
    have "loop_accepted rt rt' l" using f(3,4,8,9) by (simp add: loop_accepted_def)
    with f(1,2,6,7) bounded [OF _ f(1,5,4)] EscapeAccept show ?P by simp
  qed
  then show "evolves rt rt'" and "starts_nothing rt rt'" and "loops_bounded rt \<Longrightarrow> loops_bounded rt'"
    and "obj_get (ev_revisionEscapes (rt_evidence rt')) (er_loopId x) = Some x"
    and "er_loopId x \<notin> set (rt_activeRevisionLoopIds rt')"
    by (simp_all only: id simp_thms)
  show "\<exists>l s. find_loop rt (er_loopId x) = Some l \<and> obj_get (wr_revisionLoops (rt_run rt)) (er_loopId x) = Some s
       \<and> ls_status s = WaitingHuman \<and> er_runId x = run_id rt \<and> er_attemptsStarted x = ls_attemptsStarted s
       \<and> er_evidenceFingerprint x = fingerprint ''revision-escape-v1:'' (escape_evidence rt l s)
       \<and> (case es_decision x of EscapeCancel \<Rightarrow> loop_cancelled rt rt' (er_loopId x)
          | EscapeAccept \<Rightarrow> loop_accepted rt rt' l)"
    using \<open>?P\<close> l names by (intro exI [of _ l] exI [of _ s]) (simp only: id simp_thms)
qed

interpretation escaping: idle_operation "\<lambda>rt. resolveRevisionEscape rt x" for x
  by unfold_locales (rule resolveRevisionEscape_facts(1,2); assumption)+

text \<open>
  C6. A person resolves only a loop that waits for one, and only on the evidence the request named: the
  decision carries the fingerprint of the loop's current state, runs, assessment, checks and outputs.
  Cancelling ends the loop and stops every unfinished node run; accepting needs the configured stop
  condition, satisfies the loop and leaves a failed review gate unsuccessful. The resolution is
  stored, the loop is no longer active, nothing starts and loops stay bounded.
\<close>

theorem resolveRevisionEscape_correct:
  assumes "runtime_shape rt" and "resolveRevisionEscape rt x = Inr rt'"
  shows "(\<exists>l s. find_loop rt (er_loopId x) = Some l \<and> obj_get (wr_revisionLoops (rt_run rt)) (er_loopId x) = Some s
       \<and> ls_status s = WaitingHuman \<and> er_runId x = run_id rt \<and> er_attemptsStarted x = ls_attemptsStarted s
       \<and> er_evidenceFingerprint x = fingerprint ''revision-escape-v1:'' (escape_evidence rt l s)
       \<and> (case es_decision x of EscapeCancel \<Rightarrow> loop_cancelled rt rt' (er_loopId x)
          | EscapeAccept \<Rightarrow> loop_accepted rt rt' l))
    \<and> obj_get (ev_revisionEscapes (rt_evidence rt')) (er_loopId x) = Some x
    \<and> er_loopId x \<notin> set (rt_activeRevisionLoopIds rt')
    \<and> evolves rt rt' \<and> starts_nothing rt rt' \<and> (loops_bounded rt \<longrightarrow> loops_bounded rt')"
  using resolveRevisionEscape_facts [OF assms] by (intro conjI impI)

end
