(* ===== verification/State_Schema.thy ===== *)
theory State_Schema
  imports Escape
begin

text \<open>
  \<open>packages/core/src/workflow-runtime/state-schema.ts\<close>: the schema every stored runtime is parsed with
  when the host reads it back. A schema accepts a value when its fields are valid and its
  refinements report no issue; an issue is the path it is reported at and its message.
\<close>

type_synonym schema_issue = "string list \<times> string"

definition MAX_RUNTIME_ENTITIES :: nat where
  "MAX_RUNTIME_ENTITIES = 100000"

definition schema_issue_if :: "bool \<Rightarrow> string list \<Rightarrow> string \<Rightarrow> schema_issue list" where
  "schema_issue_if b path message = (if b then [(path, message)] else [])"

definition addDuplicateIssue :: "string list \<Rightarrow> string list \<Rightarrow> string \<Rightarrow> schema_issue list" where
  "addDuplicateIssue values path message = schema_issue_if (length (new_Set values) \<noteq> length values) path message"

lemma schema_issue_if_Nil [simp]: "schema_issue_if b path message = [] \<longleftrightarrow> \<not> b"
  by (simp add: schema_issue_if_def)

lemma addDuplicateIssue_Nil [simp]: "addDuplicateIssue values path message = [] \<longleftrightarrow> distinct values"
  by (simp add: addDuplicateIssue_def length_new_Set_iff)

section \<open>Scopes and scoped plans\<close>

fun RunScope_ok :: "run_scope \<Rightarrow> bool" where
  "RunScope_ok (NodeScope nodeId _) = EntityId_ok nodeId"
| "RunScope_ok (SelectionScope nodeIds _) = (list_all EntityId_ok nodeIds \<and> len_between 1 MAX_RUNTIME_ENTITIES nodeIds)"
| "RunScope_ok (GroupScope groupId _) = EntityId_ok groupId"
| "RunScope_ok WorkflowScope = True"

definition ids_within_limit :: "string list \<Rightarrow> bool" where
  "ids_within_limit ids = (list_all EntityId_ok ids \<and> length ids \<le> MAX_RUNTIME_ENTITIES)"

definition plan_dependency_issues :: "string list \<Rightarrow> string \<times> string list \<Rightarrow> schema_issue list" where
  "plan_dependency_issues planned entry =
     (let (nodeId, dependencies) = entry in
      addDuplicateIssue dependencies [''dependencies'', nodeId] ''Node dependencies must be unique''
      @ schema_issue_if (list_ex (\<lambda>i. i \<notin> set planned) dependencies) [''dependencies'', nodeId]
          ''Node dependencies must remain inside the scoped plan'')"

definition scoped_plan_issues :: "scoped_plan \<Rightarrow> schema_issue list" where
  "scoped_plan_issues p =
     (let dependencyKeys = obj_keys (pl_dependencies p);
          planned = new_Set (pl_nodeIds p);
          stagedNodeIds = staged (pl_stages p) in
      addDuplicateIssue (pl_nodeIds p) [''nodeIds''] ''Planned node IDs must be unique''
      @ addDuplicateIssue (pl_revisionLoopIds p) [''revisionLoopIds''] ''Planned revision-loop IDs must be unique''
      @ addDuplicateIssue (sp_executableEdgeIds p) [''executableEdgeIds''] ''Executable edge IDs must be unique''
      @ schema_issue_if (length dependencyKeys > MAX_RUNTIME_ENTITIES) [''dependencies''] ''Workflow dependency map is too large''
      @ schema_issue_if (length (new_Set stagedNodeIds) \<noteq> length stagedNodeIds \<or> length stagedNodeIds \<noteq> length planned
            \<or> list_ex (\<lambda>i. i \<notin> set planned) stagedNodeIds)
          [''stages''] ''Workflow stages must contain every planned node exactly once''
      @ schema_issue_if (list_ex (\<lambda>i. i \<notin> set dependencyKeys) (pl_nodeIds p) \<or> list_ex (\<lambda>i. i \<notin> set planned) dependencyKeys)
          [''dependencies''] ''Workflow dependencies must have exactly one entry for every planned node''
      @ concat (map (plan_dependency_issues planned) (pl_dependencies p))
      @ schema_issue_if (\<not> WorkflowPlan_ok p) [] ''Scoped workflow plan does not satisfy the deterministic plan schema'')"

definition scoped_plan_fields :: "scoped_plan \<Rightarrow> bool" where
  "scoped_plan_fields p =
     (EntityId_ok (pl_id p) \<and> EntityId_ok (pl_canvasId p) \<and> ids_within_limit (pl_nodeIds p)
      \<and> list_all PlanStage_ok (pl_stages p) \<and> length (pl_stages p) \<le> MAX_RUNTIME_ENTITIES
      \<and> list_all ids_within_limit (obj_values (pl_dependencies p))
      \<and> ids_within_limit (pl_revisionLoopIds p) \<and> RunScope_ok (sp_scope p)
      \<and> ids_within_limit (sp_executableEdgeIds p))"

definition ScopedWorkflowPlan_ok :: "scoped_plan \<Rightarrow> bool" where
  "ScopedWorkflowPlan_ok p = (scoped_plan_fields p \<and> scoped_plan_issues p = [])"

section \<open>Evidence\<close>

text \<open>\<open>new TextEncoder().encode(s).byteLength\<close>: characters are code units below 256.\<close>

definition utf8_length :: "string \<Rightarrow> nat" where
  "utf8_length s = sum_list (map (\<lambda>c. if of_char c < (128 :: nat) then 1 else 2) s)"

definition artifact_bytes :: "execution_evidence \<Rightarrow> nat" where
  "artifact_bytes ev = sum_list (map (\<lambda>o'. utf8_length (nc_artifactContent o')) (obj_values (ev_nodeCompletionOutputs ev)))"

definition validateEmbeddedMapIds :: "('a \<Rightarrow> string) \<Rightarrow> 'a obj \<Rightarrow> string \<Rightarrow> string \<Rightarrow> schema_issue list" where
  "validateEmbeddedMapIds idOf values idField path =
     concat (map (\<lambda>(key, v). schema_issue_if (idOf v \<noteq> key) [path, key, idField]
       ''Evidence map key must match its embedded entity ID'') values)"

definition map_size_issue :: "string \<Rightarrow> 'a obj \<Rightarrow> schema_issue list" where
  "map_size_issue name values = schema_issue_if (length (obj_keys values) > MAX_RUNTIME_ENTITIES) [name] ''Workflow evidence map is too large''"

definition evidence_issues :: "execution_evidence \<Rightarrow> schema_issue list" where
  "evidence_issues ev =
     map_size_issue ''humanApprovals'' (ev_humanApprovals ev)
     @ map_size_issue ''humanReviewDecisions'' (ev_humanReviewDecisions ev)
     @ map_size_issue ''contextResolutions'' (ev_contextResolutions ev)
     @ map_size_issue ''outputPublications'' (ev_outputPublications ev)
     @ map_size_issue ''nodeCompletionOutputs'' (ev_nodeCompletionOutputs ev)
     @ map_size_issue ''reviewerAssessments'' (ev_reviewerAssessments ev)
     @ map_size_issue ''gateChecks'' (ev_gateChecks ev)
     @ map_size_issue ''revisionEscapes'' (ev_revisionEscapes ev)
     @ schema_issue_if (artifact_bytes ev > 32 * 1024 * 1024) [''nodeCompletionOutputs'']
         ''Persisted reviewer artifacts exceed the 32 MiB aggregate limit''
     @ validateEmbeddedMapIds hr_targetId (ev_humanApprovals ev) ''targetId'' ''humanApprovals''
     @ validateEmbeddedMapIds hr_targetId (ev_humanReviewDecisions ev) ''targetId'' ''humanReviewDecisions''
     @ validateEmbeddedMapIds cr_edgeId (ev_contextResolutions ev) ''edgeId'' ''contextResolutions''
     @ validateEmbeddedMapIds op_edgeId (ev_outputPublications ev) ''edgeId'' ''outputPublications''
     @ validateEmbeddedMapIds nc_nodeId (ev_nodeCompletionOutputs ev) ''nodeId'' ''nodeCompletionOutputs''
     @ validateEmbeddedMapIds er_loopId (ev_revisionEscapes ev) ''loopId'' ''revisionEscapes''"

definition evidence_fields :: "execution_evidence \<Rightarrow> bool" where
  "evidence_fields ev =
     (list_all HumanApproval_ok (obj_values (ev_humanApprovals ev))
      \<and> list_all ReviewDecision_ok (obj_values (ev_humanReviewDecisions ev))
      \<and> list_all ContextResolution_ok (obj_values (ev_contextResolutions ev))
      \<and> list_all OutputPublication_ok (obj_values (ev_outputPublications ev))
      \<and> list_all NodeCompletionOutput_ok (obj_values (ev_nodeCompletionOutputs ev))
      \<and> list_all ReviewerAssessment_ok (obj_values (ev_reviewerAssessments ev))
      \<and> list_all (\<lambda>ks. list_all CheckResult_ok ks \<and> length ks \<le> MAX_RUNTIME_ENTITIES) (obj_values (ev_gateChecks ev))
      \<and> list_all EscapeResolution_ok (obj_values (ev_revisionEscapes ev)))"

definition WorkflowExecutionEvidence_ok :: "execution_evidence \<Rightarrow> bool" where
  "WorkflowExecutionEvidence_ok ev = (evidence_fields ev \<and> evidence_issues ev = [])"

section \<open>Evidence bindings\<close>

definition run_binding_issues :: "string \<Rightarrow> ('a \<Rightarrow> string) \<Rightarrow> 'a obj \<Rightarrow> schema_issue list" where
  "run_binding_issues runId runOf values =
     concat (map (\<lambda>(key, v). schema_issue_if (runOf v \<noteq> runId) [''evidence'', key]
       ''Workflow evidence must belong to the persisted workflow run'') values)"

definition output_binding_issues :: "runtime \<Rightarrow> string \<times> node_completion_output \<Rightarrow> schema_issue list" where
  "output_binding_issues rt entry =
     (let (nodeId, o') = entry in
      schema_issue_if (nodeId \<noteq> nc_nodeId o' \<or> nodeId \<notin> set (pl_nodeIds (rt_plan rt))
          \<or> Some (nc_nodeAttempt o') \<noteq> map_option nr_attempt (obj_get (node_runs rt) nodeId))
        [''evidence'', ''nodeCompletionOutputs'', nodeId]
        ''Node completion output must target the current planned node attempt'')"

definition check_binding_issues :: "runtime \<Rightarrow> string \<times> check_result list \<Rightarrow> schema_issue list" where
  "check_binding_issues rt entry =
     (let (gateNodeId, checks) = entry in
      schema_issue_if ((case find_node rt gateNodeId of None \<Rightarrow> True | Some n \<Rightarrow> \<not> is_ReviewGateNode (node_data n))
          \<or> gateNodeId \<notin> set (pl_nodeIds (rt_plan rt)) \<or> list_ex (\<lambda>k. ck_runId k \<noteq> wr_id (rt_run rt)) checks)
        [''evidence'', ''gateChecks'', gateNodeId]
        ''Gate-check evidence must target a planned gate in the same workflow run'')"

definition assessment_binding_issues :: "runtime \<Rightarrow> string \<Rightarrow> schema_issue list" where
  "assessment_binding_issues rt edgeId =
     schema_issue_if ((case find_edge rt edgeId of None \<Rightarrow> True | Some e \<Rightarrow> \<not> is_Review (edge_config e))
         \<or> edgeId \<notin> set (sp_executableEdgeIds (rt_plan rt)))
       [''evidence'', ''reviewerAssessments'', edgeId] ''Reviewer evidence must target a planned review edge''"

definition validateEvidenceBindings :: "runtime \<Rightarrow> schema_issue list" where
  "validateEvidenceBindings rt =
     (let ev = rt_evidence rt; runId = wr_id (rt_run rt) in
      run_binding_issues runId hr_runId (ev_humanApprovals ev)
      @ run_binding_issues runId hr_runId (ev_humanReviewDecisions ev)
      @ run_binding_issues runId cr_runId (ev_contextResolutions ev)
      @ run_binding_issues runId op_runId (ev_outputPublications ev)
      @ run_binding_issues runId nc_runId (ev_nodeCompletionOutputs ev)
      @ run_binding_issues runId er_runId (ev_revisionEscapes ev)
      @ concat (map (output_binding_issues rt) (ev_nodeCompletionOutputs ev))
      @ concat (map (check_binding_issues rt) (ev_gateChecks ev))
      @ concat (map (assessment_binding_issues rt) (obj_keys (ev_reviewerAssessments ev))))"

section \<open>The runtime\<close>

definition node_binding_broken :: "runtime \<Rightarrow> bool" where
  "node_binding_broken rt =
     (let canvasNodeIds = new_Set (map node_id (canvas_nodes (rt_canvas rt)));
          plannedNodeIds = new_Set (pl_nodeIds (rt_plan rt));
          runNodeIds = obj_keys (node_runs rt) in
      list_ex (\<lambda>i. i \<notin> set canvasNodeIds) (pl_nodeIds (rt_plan rt))
      \<or> length runNodeIds \<noteq> length plannedNodeIds \<or> list_ex (\<lambda>i. i \<notin> set plannedNodeIds) runNodeIds)"

definition loop_binding_broken :: "runtime \<Rightarrow> bool" where
  "loop_binding_broken rt =
     (let canvasLoopIds = new_Set (map loop_id (canvas_revisionLoops (rt_canvas rt)));
          planned = pl_revisionLoopIds (rt_plan rt);
          runLoopIds = obj_keys (wr_revisionLoops (rt_run rt)) in
      list_ex (\<lambda>i. i \<notin> set canvasLoopIds) planned
      \<or> length runLoopIds \<noteq> length planned \<or> list_ex (\<lambda>i. i \<notin> set planned) runLoopIds
      \<or> list_ex (\<lambda>i. i \<notin> set planned) (rt_activeRevisionLoopIds rt))"

definition runtime_issues :: "runtime \<Rightarrow> schema_issue list" where
  "runtime_issues rt =
     schema_issue_if (pl_canvasId (rt_plan rt) \<noteq> canvas_id (rt_canvas rt) \<or> wr_canvasId (rt_run rt) \<noteq> canvas_id (rt_canvas rt))
       [''run'', ''canvasId''] ''Canvas, plan, and workflow run IDs must identify the same canvas''
     @ schema_issue_if (wr_planId (rt_run rt) \<noteq> pl_id (rt_plan rt))
       [''run'', ''planId''] ''Workflow run must reference the persisted scoped plan''
     @ schema_issue_if (node_binding_broken rt)
       [''run'', ''nodeRuns''] ''Persisted node runs must exactly match nodes in the scoped plan and canvas''
     @ schema_issue_if (list_ex (\<lambda>i. i \<notin> set (new_Set (map edge_id (canvas_edges (rt_canvas rt))))) (sp_executableEdgeIds (rt_plan rt)))
       [''plan'', ''executableEdgeIds''] ''Executable edges must exist in the persisted canvas snapshot''
     @ schema_issue_if (loop_binding_broken rt)
       [''activeRevisionLoopIds''] ''Active revision loops must exist in the persisted scoped plan''
     @ addDuplicateIssue (rt_activeRevisionLoopIds rt) [''activeRevisionLoopIds''] ''Active revision-loop IDs must be unique''
     @ validateEvidenceBindings rt"

definition runtime_fields :: "runtime \<Rightarrow> bool" where
  "runtime_fields rt =
     (CanvasSchema_ok (rt_canvas rt) \<and> ScopedWorkflowPlan_ok (rt_plan rt) \<and> WorkflowRun_ok (rt_run rt)
      \<and> WorkflowExecutionEvidence_ok (rt_evidence rt) \<and> ids_within_limit (rt_activeRevisionLoopIds rt))"

definition parseWorkflowExecutionRuntime :: "runtime \<Rightarrow> runtime res" where
  "parseWorkflowExecutionRuntime rt =
     (if runtime_fields rt \<and> runtime_issues rt = [] then return rt
      else throw (ZodError ''WorkflowExecutionRuntimeSchema''))"

section \<open>What the schema accepts\<close>

text \<open>A dictionary with each key once whose entries all satisfy a predicate.\<close>

definition each_entry :: "(string \<Rightarrow> 'a \<Rightarrow> bool) \<Rightarrow> 'a obj \<Rightarrow> bool" where
  "each_entry P ob = (obj_ok ob \<and> (\<forall>(k, v) \<in> set ob. P k v))"

definition consistent_plan :: "scoped_plan \<Rightarrow> bool" where
  "consistent_plan p =
     (WorkflowPlan_ok p \<and> distinct (pl_nodeIds p) \<and> distinct (pl_revisionLoopIds p)
      \<and> distinct (sp_executableEdgeIds p) \<and> list_all EntityId_ok (sp_executableEdgeIds p)
      \<and> distinct (staged (pl_stages p)) \<and> set (staged (pl_stages p)) = set (pl_nodeIds p)
      \<and> set (obj_keys (pl_dependencies p)) = set (pl_nodeIds p)
      \<and> each_entry (\<lambda>_ ds. distinct ds \<and> set ds \<subseteq> set (pl_nodeIds p)) (pl_dependencies p))"

text \<open>Every stored piece of evidence is valid, stands under its own id and belongs to this run.\<close>

definition approval_bound :: "runtime \<Rightarrow> string \<Rightarrow> human_approval \<Rightarrow> bool" where
  "approval_bound rt k a = (HumanApproval_ok a \<and> hr_targetId a = k \<and> hr_runId a = run_id rt)"

definition decision_bound :: "runtime \<Rightarrow> string \<Rightarrow> review_decision \<Rightarrow> bool" where
  "decision_bound rt k d = (ReviewDecision_ok d \<and> hr_targetId d = k \<and> hr_runId d = run_id rt)"

definition resolution_bound :: "runtime \<Rightarrow> string \<Rightarrow> context_resolution \<Rightarrow> bool" where
  "resolution_bound rt k r = (ContextResolution_ok r \<and> cr_edgeId r = k \<and> cr_runId r = run_id rt)"

definition publication_bound :: "runtime \<Rightarrow> string \<Rightarrow> output_publication \<Rightarrow> bool" where
  "publication_bound rt k p = (OutputPublication_ok p \<and> op_edgeId p = k \<and> op_runId p = run_id rt)"

definition completion_bound :: "runtime \<Rightarrow> string \<Rightarrow> node_completion_output \<Rightarrow> bool" where
  "completion_bound rt k o' =
     (NodeCompletionOutput_ok o' \<and> nc_nodeId o' = k \<and> nc_runId o' = run_id rt
      \<and> k \<in> set (pl_nodeIds (rt_plan rt)) \<and> attempt_of rt k = Some (nc_nodeAttempt o'))"

definition review_bound :: "runtime \<Rightarrow> string \<Rightarrow> reviewer_assessment \<Rightarrow> bool" where
  "review_bound rt k a =
     (ReviewerAssessment_ok a \<and> k \<in> set (sp_executableEdgeIds (rt_plan rt))
      \<and> (\<exists>e. find_edge rt k = Some e \<and> is_Review (edge_config e)))"

definition checks_bound :: "runtime \<Rightarrow> string \<Rightarrow> check_result list \<Rightarrow> bool" where
  "checks_bound rt k ks =
     (list_all (\<lambda>c. CheckResult_ok c \<and> ck_runId c = run_id rt) ks \<and> k \<in> set (pl_nodeIds (rt_plan rt))
      \<and> (\<exists>n. find_node rt k = Some n \<and> is_ReviewGateNode (node_data n)))"

definition escape_bound :: "runtime \<Rightarrow> string \<Rightarrow> escape_resolution \<Rightarrow> bool" where
  "escape_bound rt k x = (EscapeResolution_ok x \<and> er_loopId x = k \<and> er_runId x = run_id rt)"

definition evidence_bound :: "runtime \<Rightarrow> bool" where
  "evidence_bound rt =
     (let ev = rt_evidence rt in
      each_entry (approval_bound rt) (ev_humanApprovals ev)
      \<and> each_entry (decision_bound rt) (ev_humanReviewDecisions ev)
      \<and> each_entry (resolution_bound rt) (ev_contextResolutions ev)
      \<and> each_entry (publication_bound rt) (ev_outputPublications ev)
      \<and> each_entry (completion_bound rt) (ev_nodeCompletionOutputs ev)
      \<and> each_entry (review_bound rt) (ev_reviewerAssessments ev)
      \<and> each_entry (checks_bound rt) (ev_gateChecks ev)
      \<and> each_entry (escape_bound rt) (ev_revisionEscapes ev))"

definition identities_agree :: "runtime \<Rightarrow> bool" where
  "identities_agree rt =
     (pl_canvasId (rt_plan rt) = canvas_id (rt_canvas rt) \<and> wr_canvasId (rt_run rt) = canvas_id (rt_canvas rt)
      \<and> wr_planId (rt_run rt) = pl_id (rt_plan rt)
      \<and> set (sp_executableEdgeIds (rt_plan rt)) \<subseteq> edge_id ` set (canvas_edges (rt_canvas rt)))"

definition active_loops_ok :: "runtime \<Rightarrow> bool" where
  "active_loops_ok rt =
     (distinct (rt_activeRevisionLoopIds rt) \<and> set (rt_activeRevisionLoopIds rt) \<subseteq> set (pl_revisionLoopIds (rt_plan rt)))"

text \<open>What holds of a runtime besides its shape; the sizes the schema bounds are stated apart.\<close>

definition storable :: "runtime \<Rightarrow> bool" where
  "storable rt = (consistent_plan (rt_plan rt) \<and> identities_agree rt \<and> active_loops_ok rt \<and> evidence_bound rt)"

definition fits_storage :: "runtime \<Rightarrow> bool" where
  "fits_storage rt =
     (let limit = (\<lambda>n. n \<le> MAX_RUNTIME_ENTITIES); p = rt_plan rt; ev = rt_evidence rt in
      RunScope_ok (sp_scope p)
      \<and> list_all limit [length (pl_nodeIds p), length (pl_stages p), length (pl_dependencies p),
           length (pl_revisionLoopIds p), length (sp_executableEdgeIds p), length (rt_activeRevisionLoopIds rt),
           length (ev_humanApprovals ev), length (ev_humanReviewDecisions ev), length (ev_contextResolutions ev),
           length (ev_outputPublications ev), length (ev_nodeCompletionOutputs ev), length (ev_reviewerAssessments ev),
           length (ev_gateChecks ev), length (ev_revisionEscapes ev)]
      \<and> list_all (\<lambda>ds. limit (length ds)) (obj_values (pl_dependencies p))
      \<and> list_all (\<lambda>ks. limit (length ks)) (obj_values (ev_gateChecks ev))
      \<and> artifact_bytes ev \<le> 32 * 1024 * 1024)"

text \<open>The maps of a runtime read from JSON have each key once.\<close>

definition plain_objects :: "runtime \<Rightarrow> bool" where
  "plain_objects rt =
     (let ev = rt_evidence rt in
      obj_ok (pl_dependencies (rt_plan rt)) \<and> obj_ok (node_runs rt) \<and> obj_ok (wr_revisionLoops (rt_run rt))
      \<and> obj_ok (ev_humanApprovals ev) \<and> obj_ok (ev_humanReviewDecisions ev) \<and> obj_ok (ev_contextResolutions ev)
      \<and> obj_ok (ev_outputPublications ev) \<and> obj_ok (ev_nodeCompletionOutputs ev) \<and> obj_ok (ev_reviewerAssessments ev)
      \<and> obj_ok (ev_gateChecks ev) \<and> obj_ok (ev_revisionEscapes ev))"

lemma same_set_lengths:
  assumes "distinct xs" and "distinct ys"
  shows "length xs = length ys \<and> set xs \<subseteq> set ys \<longleftrightarrow> set xs = set ys"
  using assms by (metis card_subset_eq distinct_card finite_set order_refl)

lemma plan_dependency_issues_Nil:
  "plan_dependency_issues planned e = [] \<longleftrightarrow> (case e of (k, ds) \<Rightarrow> distinct ds \<and> set ds \<subseteq> set planned)"
  by (cases e) (auto simp: plan_dependency_issues_def list_ex_iff)

lemma scoped_plan_iff:
  assumes "obj_ok (pl_dependencies p)"
  shows "scoped_plan_fields p \<and> scoped_plan_issues p = [] \<longleftrightarrow>
    consistent_plan p \<and> RunScope_ok (sp_scope p)
    \<and> list_all (\<lambda>n. n \<le> MAX_RUNTIME_ENTITIES) [length (pl_nodeIds p), length (pl_stages p), length (pl_dependencies p),
         length (pl_revisionLoopIds p), length (sp_executableEdgeIds p)]
    \<and> list_all (\<lambda>ds. length ds \<le> MAX_RUNTIME_ENTITIES) (obj_values (pl_dependencies p))"
proof -
  have deps: "concat (map (plan_dependency_issues (new_Set (pl_nodeIds p))) (pl_dependencies p)) = []
      \<longleftrightarrow> each_entry (\<lambda>_ ds. distinct ds \<and> set ds \<subseteq> set (pl_nodeIds p)) (pl_dependencies p)"
    using assms by (simp add: each_entry_def concat_map_Nil plan_dependency_issues_Nil)
  have stages: "\<not> (length (new_Set xs) \<noteq> length xs \<or> length xs \<noteq> length (new_Set ys) \<or> list_ex (\<lambda>i. i \<notin> set (new_Set ys)) xs)
      \<longleftrightarrow> distinct xs \<and> set xs = set ys" if "distinct ys" for xs ys :: "string list"
  proof -
    have ys: "length (new_Set ys) = length ys" using that by (simp add: length_new_Set_iff)
    show ?thesis
      using that same_set_lengths [of xs ys] by (auto simp: length_new_Set_iff list_ex_iff ys)
  qed
  have keys: "length (obj_keys (pl_dependencies p)) = length (pl_dependencies p)" by (simp add: obj_keys_def)
  have both: "\<not> (list_ex (\<lambda>i. i \<notin> set ks) ns \<or> list_ex (\<lambda>i. i \<notin> set (new_Set ns)) ks) \<longleftrightarrow> set ks = set ns" for ks ns :: "string list"
    by (auto simp: list_ex_iff)
  show ?thesis
  proof (cases "distinct (pl_nodeIds p)")
    case True
    show ?thesis
      unfolding scoped_plan_issues_def Let_def append_is_Nil_conv schema_issue_if_Nil addDuplicateIssue_Nil deps
        stages [OF True] both not_not consistent_plan_def keys
      by (auto simp: scoped_plan_fields_def ids_within_limit_def WorkflowPlan_ok_def list_all_iff)
  next
    case False
    then show ?thesis by (simp add: scoped_plan_issues_def Let_def consistent_plan_def)
  qed
qed

text \<open>The issues of one map, entry by entry.\<close>

lemma entry_issues_Nil:
  "validateEmbeddedMapIds idOf ob field path = [] \<longleftrightarrow> (\<forall>(k, v) \<in> set ob. idOf v = k)"
  "run_binding_issues runId runOf ob = [] \<longleftrightarrow> (\<forall>(k, v) \<in> set ob. runOf v = runId)"
  "map_size_issue name ob = [] \<longleftrightarrow> length ob \<le> MAX_RUNTIME_ENTITIES"
  by (auto simp: validateEmbeddedMapIds_def run_binding_issues_def map_size_issue_def concat_map_Nil obj_keys_def)

lemma output_binding_Nil:
  "output_binding_issues rt e = [] \<longleftrightarrow> (case e of (k, o') \<Rightarrow>
     nc_nodeId o' = k \<and> k \<in> set (pl_nodeIds (rt_plan rt)) \<and> attempt_of rt k = Some (nc_nodeAttempt o'))"
  by (cases e) (auto simp: output_binding_issues_def attempt_of_def run_of_def eq_commute [of "Some (nc_nodeAttempt _)"]
      simp del: map_option_eq_Some)

lemma check_binding_Nil:
  "check_binding_issues rt e = [] \<longleftrightarrow> (case e of (k, ks) \<Rightarrow>
     (\<exists>n. find_node rt k = Some n \<and> is_ReviewGateNode (node_data n)) \<and> k \<in> set (pl_nodeIds (rt_plan rt))
     \<and> list_all (\<lambda>c. ck_runId c = run_id rt) ks)"
  by (cases e) (auto simp: check_binding_issues_def run_id_def list_ex_iff list_all_iff split: option.splits)

lemma assessment_binding_Nil:
  "assessment_binding_issues rt k = [] \<longleftrightarrow>
     (\<exists>e. find_edge rt k = Some e \<and> is_Review (edge_config e)) \<and> k \<in> set (sp_executableEdgeIds (rt_plan rt))"
  by (auto simp: assessment_binding_issues_def split: option.splits)

lemma list_all_entries: "list_all P (obj_values ob) \<longleftrightarrow> (\<forall>(k, v) \<in> set ob. P v)"
  by (auto simp: obj_values_def list_all_iff)

lemma ball_keys: "(\<forall>k \<in> set (obj_keys ob). P k) \<longleftrightarrow> (\<forall>(k, v) \<in> set ob. P k)"
  by (auto simp: obj_keys_def)

lemma each_entry_conj:
  "obj_ok ob \<Longrightarrow> each_entry P ob \<longleftrightarrow> (\<forall>(k, v) \<in> set ob. P k v)"
  by (simp add: each_entry_def)

lemma evidence_accepted_iff:
  assumes plain: "plain_objects rt"
  shows "WorkflowExecutionEvidence_ok (rt_evidence rt) \<and> validateEvidenceBindings rt = [] \<longleftrightarrow>
    evidence_bound rt
    \<and> (let ev = rt_evidence rt in
        list_all (\<lambda>n. n \<le> MAX_RUNTIME_ENTITIES)
          [length (ev_humanApprovals ev), length (ev_humanReviewDecisions ev), length (ev_contextResolutions ev),
           length (ev_outputPublications ev), length (ev_nodeCompletionOutputs ev), length (ev_reviewerAssessments ev),
           length (ev_gateChecks ev), length (ev_revisionEscapes ev)]
        \<and> list_all (\<lambda>ks. length ks \<le> MAX_RUNTIME_ENTITIES) (obj_values (ev_gateChecks ev))
        \<and> artifact_bytes ev \<le> 32 * 1024 * 1024)"
proof -
  define ev where "ev = rt_evidence rt"
  have ok: "obj_ok (ev_humanApprovals ev)" "obj_ok (ev_humanReviewDecisions ev)" "obj_ok (ev_contextResolutions ev)"
      "obj_ok (ev_outputPublications ev)" "obj_ok (ev_nodeCompletionOutputs ev)" "obj_ok (ev_reviewerAssessments ev)"
      "obj_ok (ev_gateChecks ev)" "obj_ok (ev_revisionEscapes ev)"
    using plain by (simp_all add: plain_objects_def Let_def ev_def)
  have e1: "each_entry (approval_bound rt) (ev_humanApprovals ev) \<longleftrightarrow>
      (\<forall>(k, a) \<in> set (ev_humanApprovals ev). HumanApproval_ok a) \<and> (\<forall>(k, a) \<in> set (ev_humanApprovals ev). hr_targetId a = k)
      \<and> (\<forall>(k, a) \<in> set (ev_humanApprovals ev). hr_runId a = run_id rt)"
    using ok(1) by (auto simp: each_entry_def approval_bound_def)
  have e2: "each_entry (decision_bound rt) (ev_humanReviewDecisions ev) \<longleftrightarrow>
      (\<forall>(k, a) \<in> set (ev_humanReviewDecisions ev). ReviewDecision_ok a) \<and> (\<forall>(k, a) \<in> set (ev_humanReviewDecisions ev). hr_targetId a = k)
      \<and> (\<forall>(k, a) \<in> set (ev_humanReviewDecisions ev). hr_runId a = run_id rt)"
    using ok(2) by (auto simp: each_entry_def decision_bound_def)
  have e3: "each_entry (resolution_bound rt) (ev_contextResolutions ev) \<longleftrightarrow>
      (\<forall>(k, a) \<in> set (ev_contextResolutions ev). ContextResolution_ok a) \<and> (\<forall>(k, a) \<in> set (ev_contextResolutions ev). cr_edgeId a = k)
      \<and> (\<forall>(k, a) \<in> set (ev_contextResolutions ev). cr_runId a = run_id rt)"
    using ok(3) by (auto simp: each_entry_def resolution_bound_def)
  have e4: "each_entry (publication_bound rt) (ev_outputPublications ev) \<longleftrightarrow>
      (\<forall>(k, a) \<in> set (ev_outputPublications ev). OutputPublication_ok a) \<and> (\<forall>(k, a) \<in> set (ev_outputPublications ev). op_edgeId a = k)
      \<and> (\<forall>(k, a) \<in> set (ev_outputPublications ev). op_runId a = run_id rt)"
    using ok(4) by (auto simp: each_entry_def publication_bound_def)
  have e5: "each_entry (completion_bound rt) (ev_nodeCompletionOutputs ev) \<longleftrightarrow>
      (\<forall>(k, a) \<in> set (ev_nodeCompletionOutputs ev). NodeCompletionOutput_ok a) \<and> (\<forall>(k, a) \<in> set (ev_nodeCompletionOutputs ev). nc_nodeId a = k)
      \<and> (\<forall>(k, a) \<in> set (ev_nodeCompletionOutputs ev). nc_runId a = run_id rt)
      \<and> (\<forall>e \<in> set (ev_nodeCompletionOutputs ev). output_binding_issues rt e = [])"
    using ok(5) unfolding output_binding_Nil by (auto simp: each_entry_def completion_bound_def)
  have e6: "each_entry (review_bound rt) (ev_reviewerAssessments ev) \<longleftrightarrow>
      (\<forall>(k, a) \<in> set (ev_reviewerAssessments ev). ReviewerAssessment_ok a)
      \<and> (\<forall>(k, a) \<in> set (ev_reviewerAssessments ev). assessment_binding_issues rt k = [])"
    using ok(6) unfolding assessment_binding_Nil by (auto simp: each_entry_def review_bound_def)
  have e7: "each_entry (checks_bound rt) (ev_gateChecks ev) \<longleftrightarrow>
      (\<forall>(k, ks) \<in> set (ev_gateChecks ev). list_all CheckResult_ok ks)
      \<and> (\<forall>e \<in> set (ev_gateChecks ev). check_binding_issues rt e = [])"
    using ok(7) unfolding check_binding_Nil by (auto simp: each_entry_def checks_bound_def list_all_iff)
  have e8: "each_entry (escape_bound rt) (ev_revisionEscapes ev) \<longleftrightarrow>
      (\<forall>(k, a) \<in> set (ev_revisionEscapes ev). EscapeResolution_ok a) \<and> (\<forall>(k, a) \<in> set (ev_revisionEscapes ev). er_loopId a = k)
      \<and> (\<forall>(k, a) \<in> set (ev_revisionEscapes ev). er_runId a = run_id rt)"
    using ok(8) by (auto simp: each_entry_def escape_bound_def)
  have e9: "(\<forall>(k, ks) \<in> set (ev_gateChecks ev). list_all CheckResult_ok ks \<and> length ks \<le> MAX_RUNTIME_ENTITIES) \<longleftrightarrow>
      (\<forall>(k, ks) \<in> set (ev_gateChecks ev). list_all CheckResult_ok ks)
      \<and> (\<forall>(k, ks) \<in> set (ev_gateChecks ev). length ks \<le> MAX_RUNTIME_ENTITIES)" by blast
  have nil: "list_all P [] = True" for P :: "nat \<Rightarrow> bool" by simp
  show ?thesis
    unfolding WorkflowExecutionEvidence_ok_def evidence_fields_def evidence_issues_def validateEvidenceBindings_def
      evidence_bound_def Let_def append_is_Nil_conv entry_issues_Nil schema_issue_if_Nil list_all_entries concat_map_Nil
      ball_keys not_less run_id_def [symmetric] ev_def [symmetric] list.pred_inject(2) nil e1 e2 e3 e4 e5 e6 e7 e8 e9 simp_thms
    by (intro iffI; elim conjE; intro conjI; assumption)
qed

section \<open>Exactly the consistent runtimes are accepted\<close>

definition persisted_shape :: "runtime \<Rightarrow> bool" where
  "persisted_shape rt =
     (CanvasSchema_ok (rt_canvas rt) \<and> WorkflowRun_ok (rt_run rt)
      \<and> set (pl_nodeIds (rt_plan rt)) \<subseteq> node_id ` set (canvas_nodes (rt_canvas rt))
      \<and> set (obj_keys (node_runs rt)) = set (pl_nodeIds (rt_plan rt))
      \<and> set (pl_revisionLoopIds (rt_plan rt)) \<subseteq> loop_id ` set (canvas_revisionLoops (rt_canvas rt))
      \<and> set (obj_keys (wr_revisionLoops (rt_run rt))) = set (pl_revisionLoopIds (rt_plan rt)))"

lemma shape_persisted: "runtime_shape rt \<Longrightarrow> persisted_shape rt"
  by (simp add: runtime_shape_def persisted_shape_def)

lemma node_binding_iff:
  assumes "distinct (pl_nodeIds (rt_plan rt))" and "obj_ok (node_runs rt)"
  shows "\<not> node_binding_broken rt \<longleftrightarrow> set (pl_nodeIds (rt_plan rt)) \<subseteq> node_id ` set (canvas_nodes (rt_canvas rt))
    \<and> set (obj_keys (node_runs rt)) = set (pl_nodeIds (rt_plan rt))"
proof -
  have "length (new_Set (pl_nodeIds (rt_plan rt))) = length (pl_nodeIds (rt_plan rt))"
    using assms(1) by (simp add: length_new_Set_iff)
  then show ?thesis
    using same_set_lengths [of "obj_keys (node_runs rt)" "pl_nodeIds (rt_plan rt)"] assms
    by (auto simp: node_binding_broken_def Let_def list_ex_iff obj_ok_keys)
qed

lemma loop_binding_iff:
  assumes "distinct (pl_revisionLoopIds (rt_plan rt))" and "obj_ok (wr_revisionLoops (rt_run rt))"
  shows "\<not> loop_binding_broken rt \<longleftrightarrow> set (pl_revisionLoopIds (rt_plan rt)) \<subseteq> loop_id ` set (canvas_revisionLoops (rt_canvas rt))
    \<and> set (obj_keys (wr_revisionLoops (rt_run rt))) = set (pl_revisionLoopIds (rt_plan rt))
    \<and> set (rt_activeRevisionLoopIds rt) \<subseteq> set (pl_revisionLoopIds (rt_plan rt))"
  using same_set_lengths [of "obj_keys (wr_revisionLoops (rt_run rt))" "pl_revisionLoopIds (rt_plan rt)"] assms
  by (auto simp: loop_binding_broken_def Let_def list_ex_iff obj_ok_keys)

lemma identities_agree_iff:
  "identities_agree rt \<longleftrightarrow>
     \<not> (pl_canvasId (rt_plan rt) \<noteq> canvas_id (rt_canvas rt) \<or> wr_canvasId (rt_run rt) \<noteq> canvas_id (rt_canvas rt))
     \<and> \<not> wr_planId (rt_run rt) \<noteq> pl_id (rt_plan rt)
     \<and> \<not> list_ex (\<lambda>i. i \<notin> set (new_Set (map edge_id (canvas_edges (rt_canvas rt))))) (sp_executableEdgeIds (rt_plan rt))"
  by (auto simp: identities_agree_def list_ex_iff)

lemma fits_storage_split:
  "fits_storage rt \<longleftrightarrow>
     (RunScope_ok (sp_scope (rt_plan rt))
      \<and> list_all (\<lambda>n. n \<le> MAX_RUNTIME_ENTITIES) [length (pl_nodeIds (rt_plan rt)), length (pl_stages (rt_plan rt)),
         length (pl_dependencies (rt_plan rt)), length (pl_revisionLoopIds (rt_plan rt)), length (sp_executableEdgeIds (rt_plan rt))]
      \<and> list_all (\<lambda>ds. length ds \<le> MAX_RUNTIME_ENTITIES) (obj_values (pl_dependencies (rt_plan rt))))
     \<and> length (rt_activeRevisionLoopIds rt) \<le> MAX_RUNTIME_ENTITIES
     \<and> (let ev = rt_evidence rt in
        list_all (\<lambda>n. n \<le> MAX_RUNTIME_ENTITIES)
          [length (ev_humanApprovals ev), length (ev_humanReviewDecisions ev), length (ev_contextResolutions ev),
           length (ev_outputPublications ev), length (ev_nodeCompletionOutputs ev), length (ev_reviewerAssessments ev),
           length (ev_gateChecks ev), length (ev_revisionEscapes ev)]
        \<and> list_all (\<lambda>ks. length ks \<le> MAX_RUNTIME_ENTITIES) (obj_values (ev_gateChecks ev))
        \<and> artifact_bytes ev \<le> 32 * 1024 * 1024)"
  unfolding fits_storage_def Let_def list.pred_inject(2) by blast

lemma parse_runtime_iff:
  assumes plain: "plain_objects rt"
  shows "runtime_fields rt \<and> runtime_issues rt = [] \<longleftrightarrow> persisted_shape rt \<and> storable rt \<and> fits_storage rt"
proof (cases "consistent_plan (rt_plan rt)")
  case True
  then have plan: "distinct (pl_nodeIds (rt_plan rt))" "distinct (pl_revisionLoopIds (rt_plan rt))"
      "list_all EntityId_ok (pl_revisionLoopIds (rt_plan rt))"
    by (simp_all add: consistent_plan_def WorkflowPlan_ok_def)
  have obj: "obj_ok (pl_dependencies (rt_plan rt))" "obj_ok (node_runs rt)" "obj_ok (wr_revisionLoops (rt_run rt))"
    using plain by (simp_all add: plain_objects_def Let_def)
  have active: "list_all EntityId_ok (rt_activeRevisionLoopIds rt)"
    if "set (rt_activeRevisionLoopIds rt) \<subseteq> set (pl_revisionLoopIds (rt_plan rt))"
    using that plan(3) by (auto simp: list_all_iff)
  have "runtime_fields rt \<and> runtime_issues rt = [] \<longleftrightarrow>
      CanvasSchema_ok (rt_canvas rt) \<and> WorkflowRun_ok (rt_run rt)
      \<and> ScopedWorkflowPlan_ok (rt_plan rt)
      \<and> (WorkflowExecutionEvidence_ok (rt_evidence rt) \<and> validateEvidenceBindings rt = [])
      \<and> ids_within_limit (rt_activeRevisionLoopIds rt) \<and> identities_agree rt
      \<and> \<not> node_binding_broken rt \<and> \<not> loop_binding_broken rt \<and> distinct (rt_activeRevisionLoopIds rt)"
    unfolding runtime_fields_def runtime_issues_def append_is_Nil_conv
      identities_agree_iff schema_issue_if_Nil addDuplicateIssue_Nil by argo
  also have "\<dots> \<longleftrightarrow> persisted_shape rt \<and> storable rt \<and> fits_storage rt"
    unfolding ScopedWorkflowPlan_ok_def scoped_plan_iff [OF obj(1)] evidence_accepted_iff [OF plain]
      node_binding_iff [OF plan(1) obj(2)] loop_binding_iff [OF plan(2) obj(3)] fits_storage_split
      persisted_shape_def storable_def active_loops_ok_def ids_within_limit_def
    using True active by argo
  finally show ?thesis .
next
  case False
  then have "\<not> ScopedWorkflowPlan_ok (rt_plan rt)"
    using scoped_plan_iff [of "rt_plan rt"] plain by (simp add: ScopedWorkflowPlan_ok_def plain_objects_def Let_def)
  with False show ?thesis by (simp add: runtime_fields_def storable_def)
qed

text \<open>
  C16. Reading a stored runtime back accepts exactly the consistent ones: canvas, plan and run name
  each other and cover the same nodes and loops, the plan schedules every node once, every piece of
  evidence is valid, stands under its own id, belongs to this run and, where it names an attempt, to
  the current one, and the sizes are within the limits. An accepted runtime is returned unchanged.
\<close>

theorem parseWorkflowExecutionRuntime_correct:
  assumes "plain_objects rt"
  shows "parseWorkflowExecutionRuntime rt =
    (if persisted_shape rt \<and> storable rt \<and> fits_storage rt then Inr rt
     else Inl (ZodError ''WorkflowExecutionRuntimeSchema''))"
  by (simp add: parseWorkflowExecutionRuntime_def parse_runtime_iff [OF assms])

end
