(* ===== verification/Storage.thy ===== *)
theory Storage
  imports State_Schema
begin

text \<open>
  Which runtimes of the engine the stored-state schema accepts: a created runtime exactly when no two
  scheduling edges of its plan join the same two nodes, and from an accepted runtime every operation
  leads to an accepted one again.
\<close>

section \<open>Created runtimes\<close>

definition scheduling_edge :: "canvas_edge \<Rightarrow> bool" where
  "scheduling_edge e = (\<not> is_Context (edge_config e) \<and> \<not> is_Revision (edge_config e))"

text \<open>The sources of the scheduling edges into a node, once per edge.\<close>

definition planned_sources :: "runtime \<Rightarrow> string \<Rightarrow> string list" where
  "planned_sources rt i =
     map edge_sourceNodeId (filter (\<lambda>e. scheduling_edge e \<and> edge_targetNodeId e = i
       \<and> edge_sourceNodeId e \<in> set (pl_nodeIds (rt_plan rt))) (canvas_edges (rt_canvas rt)))"

definition no_parallel_edges :: "runtime \<Rightarrow> bool" where
  "no_parallel_edges rt = (\<forall>i \<in> set (pl_nodeIds (rt_plan rt)). distinct (planned_sources rt i))"

lemma planWorkflowScope_dependencies:
  assumes p: "planWorkflowScope c planId scope eligible = Inr p"
  shows "pl_canvasId p = canvas_id c" and "obj_ok (pl_dependencies p)"
    and "obj_get (pl_dependencies p) i =
      (if i \<in> set (pl_nodeIds p)
       then Some (sort_ids (map edge_sourceNodeId (filter (\<lambda>e. scheduling_edge e \<and> edge_targetNodeId e = i
              \<and> edge_sourceNodeId e \<in> set (pl_nodeIds p)) (canvas_edges c))))
       else None)"
proof -
  obtain t initial base where i: "planWorkflow (planning_canvas c) (scope_options planId t) = Inr initial"
    and b: "(if expandMandatoryPlanNodes c (pl_nodeIds initial) = pl_nodeIds initial then return initial
        else planWorkflow (planning_canvas c) (mandatory_options c planId initial)) = Inr base"
    and scoped: "p = scoped_of c scope base"
    using p unfolding planWorkflowScope_Inr_iff by blast
  obtain o' where o': "planWorkflow (planning_canvas c) o' = Inr base" using base_plan [OF i b] by blast
  have req: "requested (planning_canvas c) o' = set (pl_nodeIds base)" using planWorkflow_plan(1) [OF o'] by simp
  have fields: "pl_canvasId base = canvas_id c" "pl_dependencies base = chosen_dependencies (planning_canvas c) o'"
    using o' by (auto simp: planWorkflow_Inr_iff chosen_plan_def planning_canvas_def)
  have p_fields: "pl_canvasId p = pl_canvasId base" "pl_dependencies p = pl_dependencies base" "pl_nodeIds p = pl_nodeIds base"
    by (simp_all add: scoped scoped_of_def Let_def)
  show "pl_canvasId p = canvas_id c" by (simp add: p_fields fields)
  show "obj_ok (pl_dependencies p)" by (simp add: p_fields fields chosen_dependencies_def plan_dependencies_def)
  have "filter (\<lambda>e. edge_targetNodeId e = i) (selected_edges (planning_canvas c) o') =
      filter (\<lambda>e. scheduling_edge e \<and> edge_targetNodeId e = i \<and> edge_sourceNodeId e \<in> set (pl_nodeIds p)) (canvas_edges c)"
    if "i \<in> set (pl_nodeIds p)"
    using that by (auto simp: selected_edges_def orderingEdges_def planning_canvas_def scheduling_edge_def req [unfolded planning_canvas_def]
        p_fields intro!: filter_cong)
  then show "obj_get (pl_dependencies p) i =
      (if i \<in> set (pl_nodeIds p)
       then Some (sort_ids (map edge_sourceNodeId (filter (\<lambda>e. scheduling_edge e \<and> edge_targetNodeId e = i
              \<and> edge_sourceNodeId e \<in> set (pl_nodeIds p)) (canvas_edges c))))
       else None)"
    by (simp add: p_fields fields chosen_dependencies_get req)
qed

lemma created_plan_consistent:
  assumes p: "planWorkflowScope c planId scope eligible = Inr (rt_plan rt)" and c: "rt_canvas rt = c"
  shows "consistent_plan (rt_plan rt) \<longleftrightarrow> no_parallel_edges rt"
proof -
  note facts = planWorkflowScope_facts [OF p] and deps = planWorkflowScope_dependencies [OF p]
  obtain base where base: "rt_plan rt = scoped_of c scope base" using facts(10) by blast
  have ids: "distinct (map loop_id (canvas_revisionLoops c))" "distinct (map edge_id (canvas_edges c))"
    using facts(3) by (simp_all add: wellformed_canvas_def canvas_ids_def)
  have edges: "list_all EntityId_ok (map edge_id (canvas_edges c))"
    using facts(2) by (auto simp: CanvasSchema_ok_def CanvasEdge_ok_def list_all_iff)
  have rest: "WorkflowPlan_ok (rt_plan rt)" "distinct (pl_nodeIds (rt_plan rt))" "distinct (pl_revisionLoopIds (rt_plan rt))"
      "distinct (sp_executableEdgeIds (rt_plan rt))" "list_all EntityId_ok (sp_executableEdgeIds (rt_plan rt))"
      "distinct (staged (pl_stages (rt_plan rt)))" "set (staged (pl_stages (rt_plan rt))) = set (pl_nodeIds (rt_plan rt))"
    using facts(5-7) ids edges
    by (auto simp: base scoped_of_def Let_def distinct_map_filter schedules_def list_all_iff)
  have keys: "set (obj_keys (pl_dependencies (rt_plan rt))) = set (pl_nodeIds (rt_plan rt))"
    using deps(3) obj_get_eq_None_iff [of "pl_dependencies (rt_plan rt)"] by (metis (no_types, lifting) option.distinct(1) subsetI subset_antisym)
  have entry: "(k, ds) \<in> set (pl_dependencies (rt_plan rt)) \<longleftrightarrow> k \<in> set (pl_nodeIds (rt_plan rt)) \<and> ds = sort_ids (planned_sources rt k)" for k ds
    using obj_get_eq_Some_iff [OF deps(2), of k ds] deps(3) [of k] by (auto simp: planned_sources_def c split: if_splits)
  have all: "set (pl_dependencies (rt_plan rt)) = (\<lambda>k. (k, sort_ids (planned_sources rt k))) ` set (pl_nodeIds (rt_plan rt))"
    using entry by auto
  have sub: "set (planned_sources rt k) \<subseteq> set (pl_nodeIds (rt_plan rt))" for k by (auto simp: planned_sources_def)
  have "each_entry (\<lambda>_ ds. distinct ds \<and> set ds \<subseteq> set (pl_nodeIds (rt_plan rt))) (pl_dependencies (rt_plan rt))
      \<longleftrightarrow> no_parallel_edges rt"
    by (simp add: each_entry_def deps(2) all no_parallel_edges_def sub)
  with rest keys show ?thesis by (simp add: consistent_plan_def)
qed

lemma no_evidence_bound: "rt_evidence rt = no_evidence \<Longrightarrow> evidence_bound rt"
  by (simp add: evidence_bound_def Let_def no_evidence_def each_entry_def)

lemma created_storable:
  assumes create: "createWorkflowExecutionRuntime c planId runId scope t eligible = Inr rt"
  shows "storable rt \<longleftrightarrow> no_parallel_edges rt" and "plain_objects rt" and "persisted_shape rt"
proof -
  note init = createWorkflowExecutionRuntime_initial [OF create]
  have shape: "runtime_shape rt" and none: "rt_evidence rt = no_evidence" and active: "rt_activeRevisionLoopIds rt = []"
    using init(1) by (simp_all add: initial_runtime_def)
  note deps = planWorkflowScope_dependencies [OF init(2)] and facts = planWorkflowScope_facts [OF init(2)]
  have run: "wr_canvasId (rt_run rt) = canvas_id c \<and> wr_planId (rt_run rt) = pl_id (rt_plan rt)"
    using create by (auto simp: createWorkflowExecutionRuntime_def res_bind_eq_Inr)
  obtain base where "rt_plan rt = scoped_of c scope base" using facts(10) by blast
  then have "identities_agree rt"
    using run deps(1) by (auto simp: identities_agree_def init(3) scoped_of_def Let_def)
  then show "storable rt \<longleftrightarrow> no_parallel_edges rt"
    using created_plan_consistent [OF init(2,3)] no_evidence_bound [OF none]
    by (simp add: storable_def active_loops_ok_def active)
  show "plain_objects rt"
    using shape deps(2) by (simp add: plain_objects_def Let_def none no_evidence_def runtime_shape_def)
  show "persisted_shape rt" using shape by (rule shape_persisted)
qed

text \<open>
  C20. A created runtime of an admissible size can be read back from storage exactly when no two
  scheduling edges of its plan join the same two nodes. The planner lists the source of every edge as a
  dependency, so two edges between the same nodes, which the validator allows, give a plan with a
  repeated dependency that the stored-state schema rejects.
\<close>

theorem created_runtime_readable_iff:
  assumes "createWorkflowExecutionRuntime c planId runId scope t eligible = Inr rt" and "fits_storage rt"
  shows "parseWorkflowExecutionRuntime rt = Inr rt \<longleftrightarrow> no_parallel_edges rt"
  using created_storable [OF assms(1)] assms(2)
  by (simp add: parseWorkflowExecutionRuntime_def parse_runtime_iff)

section \<open>Operations that keep a runtime readable\<close>

lemma storable_readable:
  assumes shape: "runtime_shape rt" and st: "storable rt" and fits: "fits_storage rt"
  shows "parseWorkflowExecutionRuntime rt = Inr rt"
proof -
  have "plain_objects rt"
    using shape st by (simp add: plain_objects_def Let_def storable_def evidence_bound_def consistent_plan_def
        each_entry_def runtime_shape_def)
  with shape st fits show ?thesis
    by (simp add: parseWorkflowExecutionRuntime_def parse_runtime_iff shape_persisted)
qed

locale storing_operation = run_operation +
  assumes storing: "runtime_shape rt \<Longrightarrow> storable rt \<Longrightarrow> op rt = Inr rt' \<Longrightarrow> storable rt'"
begin

lemma keeps_readable:
  assumes "runtime_shape rt" and "storable rt" and "op rt = Inr rt'" and "fits_storage rt'"
  shows "parseWorkflowExecutionRuntime rt' = Inr rt'"
  using keeps_shape [OF assms(1,3)] storing [OF assms(1-3)] assms(4) by (rule storable_readable)

end

text \<open>
  The operations that leave attempts, evidence and (up to closing one) the active loops alone.
\<close>

definition closes_loops :: "string list \<Rightarrow> string list \<Rightarrow> bool" where
  "closes_loops active active' = (active' = [] \<or> (\<exists>P. active' = filter P active))"

lemma closes_loops_refl [simp]: "closes_loops active active"
  unfolding closes_loops_def by (intro disjI2 exI [of _ "\<lambda>_. True"]) simp

lemma closes_loops_simps [simp]: "closes_loops active []" "closes_loops active (filter P active)"
  by (auto simp: closes_loops_def)

lemma closes_loops_ok:
  "active_loops_ok rt \<Longrightarrow> closes_loops (rt_activeRevisionLoopIds rt) (rt_activeRevisionLoopIds rt')
   \<Longrightarrow> rt_plan rt' = rt_plan rt \<Longrightarrow> active_loops_ok rt'"
  by (auto simp: active_loops_ok_def closes_loops_def)

locale quiet_operation = run_operation +
  assumes same_attempts: "runtime_shape rt \<Longrightarrow> op rt = Inr rt' \<Longrightarrow> attempt_of rt' = attempt_of rt"
    and same_evidence: "runtime_shape rt \<Longrightarrow> op rt = Inr rt' \<Longrightarrow> rt_evidence rt' = rt_evidence rt"
    and closing: "runtime_shape rt \<Longrightarrow> op rt = Inr rt'
      \<Longrightarrow> closes_loops (rt_activeRevisionLoopIds rt) (rt_activeRevisionLoopIds rt')"

text \<open>What the bindings depend on: the canvas, the plan, the identity of the run and the attempts.\<close>

lemma bound_predicates_cong:
  assumes "evolves rt rt'"
  shows "approval_bound rt' = approval_bound rt" "decision_bound rt' = decision_bound rt"
    "resolution_bound rt' = resolution_bound rt" "publication_bound rt' = publication_bound rt"
    "review_bound rt' = review_bound rt" "checks_bound rt' = checks_bound rt" "escape_bound rt' = escape_bound rt"
proof -
  have same: "rt_canvas rt' = rt_canvas rt" "rt_plan rt' = rt_plan rt" "wr_id (rt_run rt') = wr_id (rt_run rt)"
    using assms by (simp_all add: evolves_def)
  then show "approval_bound rt' = approval_bound rt" "decision_bound rt' = decision_bound rt"
    "resolution_bound rt' = resolution_bound rt" "publication_bound rt' = publication_bound rt"
    "review_bound rt' = review_bound rt" "checks_bound rt' = checks_bound rt" "escape_bound rt' = escape_bound rt"
    by (simp_all add: fun_eq_iff approval_bound_def decision_bound_def resolution_bound_def publication_bound_def
        review_bound_def checks_bound_def escape_bound_def run_id_def find_edge_def find_node_def)
qed

lemma completion_bound_cong:
  assumes "evolves rt rt'" and "attempt_of rt' k = attempt_of rt k"
  shows "completion_bound rt' k = completion_bound rt k"
  using assms by (simp add: fun_eq_iff completion_bound_def evolves_def run_id_def)

lemma storable_step:
  assumes "storable rt" and "evolves rt rt'" and "evidence_bound rt'" and "active_loops_ok rt'"
  shows "storable rt'"
  using assms by (simp add: storable_def evolves_def identities_agree_def)

lemma evidence_bound_kept:
  assumes "evidence_bound rt" and ev: "evolves rt rt'" and att: "attempt_of rt' = attempt_of rt"
    and "rt_evidence rt' = rt_evidence rt"
  shows "evidence_bound rt'"
proof -
  have "completion_bound rt' = completion_bound rt" using completion_bound_cong [OF ev] att by (simp add: fun_eq_iff)
  with assms show ?thesis by (simp add: evidence_bound_def bound_predicates_cong [OF ev])
qed

sublocale quiet_operation \<subseteq> storing_operation
proof
  fix rt rt' :: runtime
  assume shape: "runtime_shape rt" and st: "storable rt" and op: "op rt = Inr rt'"
  note ev = evolution [OF shape op]
  have "evidence_bound rt'"
    by (rule evidence_bound_kept [OF _ ev same_attempts [OF shape op] same_evidence [OF shape op]])
      (use st in \<open>simp add: storable_def\<close>)
  moreover have "active_loops_ok rt'"
    by (rule closes_loops_ok [OF _ closing [OF shape op]]) (use st ev in \<open>simp_all add: storable_def evolves_def\<close>)
  ultimately show "storable rt'" by (rule storable_step [OF st ev])
qed

section \<open>Attempts that do not change\<close>

lemma attempt_of_fields [simp]:
  "attempt_of (rt\<lparr> rt_evidence := ev \<rparr>) = attempt_of rt"
  "attempt_of (rt\<lparr> rt_evidence := ev, rt_activeRevisionLoopIds := a \<rparr>) = attempt_of rt"
  "attempt_of (rt\<lparr> rt_activeRevisionLoopIds := a \<rparr>) = attempt_of rt"
  "attempt_of (rt\<lparr> rt_cancellationRequested := b \<rparr>) = attempt_of rt"
  by (simp_all add: attempt_of_def run_of_def fun_eq_iff)

lemma same_attemptsI:
  assumes ev: "evolves rt rt'"
    and "\<And>i r. run_of rt i = Some r \<Longrightarrow> \<exists>r'. run_of rt' i = Some r' \<and> nr_attempt r' = nr_attempt r"
  shows "attempt_of rt' = attempt_of rt"
proof
  fix i
  show "attempt_of rt' i = attempt_of rt i"
    using evolves_run [OF ev, of i] assms(2) [of i] by (cases "run_of rt i") (auto simp: attempt_of_def)
qed

lemma replace_node_run_attempts:
  assumes "replace_node_run rt i next t = Inr rt'" and "run_of rt i = Some r" and "nr_attempt next = nr_attempt r"
  shows "attempt_of rt' = attempt_of rt"
proof -
  have "nr_attempt r \<le> nr_attempt next" using assms(3) by simp
  from replace_node_run_facts(3) [OF assms(1,2) this] assms(2,3) show ?thesis
    by (simp add: attempt_of_def fun_eq_iff)
qed

lemma settle_step_attempts:
  assumes shape: "runtime_shape rt" and cs: "settle_changes rt t = Inr cs"
    and rt': "replaceRunState rt (put_all cs (node_runs rt)) t = Inr rt'"
  shows "attempt_of rt' = attempt_of rt"
proof
  fix i
  note runs = settle_step_runs [OF cs rt']
  show "attempt_of rt' i = attempt_of rt i"
  proof (cases "i \<in> fst ` set cs")
    case True
    then obtain r' where r': "(i, r') \<in> set cs" "run_of rt' i = Some r'" using runs(3) by blast
    from settle_changes_settled [OF cs r'(1)] obtain r d where "(i, r) \<in> set (node_runs rt)"
      "transitionNodeRun r (blocked_transition t d) = Inr r'" unfolding settled_by_def by blast
    moreover from this have "run_of rt i = Some r"
      using shape by (simp add: run_of_def runtime_shape_def obj_get_eq_Some_iff)
    ultimately show ?thesis using r'(2) by (simp add: attempt_of_def transitionNodeRun_InrD(5))
  next
    case False
    with runs(2) show ?thesis by (simp add: attempt_of_def)
  qed
qed

lemma settle_attempts:
  assumes "runtime_shape rt" and "settleBlockedWorkflowNodes rt t = Inr rt'"
  shows "attempt_of rt' = attempt_of rt"
  using assms
proof (induction rt t rule: settleBlockedWorkflowNodes.induct)
  case (1 rt t)
  show ?case
  proof (cases "isTerminalRunStatus (wr_status (rt_run rt))")
    case True
    with "1.prems" show ?thesis by (simp add: settleBlockedWorkflowNodes.simps [of rt])
  next
    case live: False
    with "1.prems"(2) obtain cs where cs: "settle_changes rt t = Inr cs"
      by (auto simp: settleBlockedWorkflowNodes.simps [of rt] res_bind_eq_Inr)
    show ?thesis
    proof (cases "cs = []")
      case True
      with "1.prems" live cs show ?thesis by (simp add: settleBlockedWorkflowNodes.simps [of rt])
    next
      case False
      with "1.prems"(2) live cs obtain rt1
        where rt1: "replaceRunState rt (put_all cs (node_runs rt)) t = Inr rt1"
          "settleBlockedWorkflowNodes rt1 t = Inr rt'"
        by (auto simp: settleBlockedWorkflowNodes.simps [of rt] res_bind_eq_Inr)
      have "runtime_shape rt1"
        using settle_step [OF "1.prems"(1) cs rt1(1)] "1.prems"(1) evolves_shape by (auto simp: settles_def)
      from "1.IH" [OF live cs False rt1(1) this rt1(2)] settle_step_attempts [OF "1.prems"(1) cs rt1(1)]
      show ?thesis by simp
    qed
  qed
qed

lemma put_then_settle_attempts:
  assumes shape: "runtime_shape rt" and r: "run_of rt i = Some r" "nr_attempt next = nr_attempt r"
    and put: "replace_node_run rt i next t = Inr rt1"
    and rt2: "rt2 = rt1\<lparr> rt_evidence := ev, rt_activeRevisionLoopIds := active \<rparr>"
    and settle: "settleBlockedWorkflowNodes rt2 t = Inr rt'"
  shows "attempt_of rt' = attempt_of rt"
proof -
  have le: "nr_attempt r \<le> nr_attempt next" using r(2) by simp
  have "evolves rt rt2"
    using replace_node_run_facts(1) [OF put r(1) le] by (simp add: rt2 evolves_def run_of_def)
  with shape have "runtime_shape rt2" by (rule evolves_shape)
  from settle_attempts [OF this settle] replace_node_run_attempts [OF put r] show ?thesis by (simp add: rt2)
qed

section \<open>The quiet operations\<close>

lemma startWorkflowNode_attempts:
  assumes shape: "runtime_shape rt" and ok: "startWorkflowNode rt i execution t = Inr rt'"
  shows "attempt_of rt' = attempt_of rt"
proof (rule same_attemptsI)
  note facts = startWorkflowNode_facts [OF shape ok]
  show "evolves rt rt'" by (rule facts)
  fix j r assume r: "run_of rt j = Some r"
  show "\<exists>r'. run_of rt' j = Some r' \<and> nr_attempt r' = nr_attempt r"
  proof (cases "j = i")
    case True
    with r facts(3) show ?thesis by (auto simp: transitionNodeRun_InrD(5))
  next
    case False
    with r facts(4) show ?thesis by simp
  qed
qed

interpretation start_storing: quiet_operation "\<lambda>rt. startWorkflowNode rt i execution t" for i execution t
proof
  fix rt rt' :: runtime
  assume ok: "runtime_shape rt" "startWorkflowNode rt i execution t = Inr rt'"
  show "attempt_of rt' = attempt_of rt" using ok by (rule startWorkflowNode_attempts)
  from startWorkflowNode_facts(2) [OF ok] show "rt_evidence rt' = rt_evidence rt"
    and "closes_loops (rt_activeRevisionLoopIds rt) (rt_activeRevisionLoopIds rt')"
    by (simp_all add: only_node_runs_def)
qed

interpretation prelaunch_storing: quiet_operation "\<lambda>rt. failWorkflowNodeBeforeLaunch rt i f t" for i f t
proof
  fix rt rt' :: runtime
  assume shape: "runtime_shape rt" and ok: "failWorkflowNodeBeforeLaunch rt i f t = Inr rt'"
  then obtain r r' rt1 where r: "run_of rt i = Some r" "nr_attempt r' = nr_attempt r" "nr_status r' = Failed"
    and rt1: "replace_node_run rt i r' t = Inr rt1" "settleBlockedWorkflowNodes rt1 t = Inr rt'"
    by (rule failWorkflowNodeBeforeLaunch_InrE)
  have le: "nr_attempt r \<le> nr_attempt r'" and fin: "isTerminalRunStatus (nr_status r')" using r by simp_all
  note facts = put_then_settle [OF shape r(1) le rt1(1) fin with_active_loops rt1(2)]
  have "only_node_runs rt rt1" using replace_node_run_facts(2) [OF rt1(1) r(1) le] .
  then show "rt_evidence rt' = rt_evidence rt"
    and "closes_loops (rt_activeRevisionLoopIds rt) (rt_activeRevisionLoopIds rt')"
    using facts(5,6) by (simp_all add: only_node_runs_def)
  show "attempt_of rt' = attempt_of rt"
    by (rule put_then_settle_attempts [OF shape r(1,2) rt1(1) with_active_loops rt1(2)])
qed

lemma close_active_loop_closes:
  "closes_loops (rt_activeRevisionLoopIds rt1) (rt_activeRevisionLoopIds (close_active_loop rt i c rt1))"
  by (simp add: close_active_loop_def split: option.split)

interpretation complete_storing: quiet_operation "\<lambda>rt. completeWorkflowNode rt i c t" for i c t
proof
  fix rt rt' :: runtime
  assume shape: "runtime_shape rt" and ok: "completeWorkflowNode rt i c t = Inr rt'"
  show "rt_evidence rt' = rt_evidence rt" using completeWorkflowNode_moves(5) [OF shape ok] .
  have "attempt_of rt' = attempt_of rt \<and> closes_loops (rt_activeRevisionLoopIds rt) (rt_activeRevisionLoopIds rt')"
  proof (cases "waits_for_assessment rt i c")
    case True
    with ok obtain r r' where r: "run_of rt i = Some r" "nr_attempt r' = nr_attempt r"
      and put: "replace_node_run rt i r' t = Inr rt'" by (rule completeWorkflowNode_waiting)
    have le: "nr_attempt r \<le> nr_attempt r'" using r(2) by simp
    show ?thesis
      using replace_node_run_attempts [OF put r] replace_node_run_facts(2) [OF put r(1) le] by (simp add: only_node_runs_def)
  next
    case False
    with ok obtain r r' rt1 where r: "run_of rt i = Some r" "nr_attempt r' = nr_attempt r" "nr_status r' = completion_status c"
      and rt1: "replace_node_run rt i r' t = Inr rt1" "settleBlockedWorkflowNodes (close_active_loop rt i c rt1) t = Inr rt'"
      by (rule completeWorkflowNode_finished)
    have le: "nr_attempt r \<le> nr_attempt r'" and fin: "isTerminalRunStatus (nr_status r')" using r by simp_all
    note facts = put_then_settle [OF shape r(1) le rt1(1) fin close_active_loop_update rt1(2)]
    have "rt_activeRevisionLoopIds rt1 = rt_activeRevisionLoopIds rt"
      using replace_node_run_facts(2) [OF rt1(1) r(1) le] by (simp add: only_node_runs_def)
    with facts(6) close_active_loop_closes [of rt1 rt i c]
      put_then_settle_attempts [OF shape r(1,2) rt1(1) close_active_loop_update rt1(2)]
    show ?thesis by simp
  qed
  then show "attempt_of rt' = attempt_of rt"
    and "closes_loops (rt_activeRevisionLoopIds rt) (rt_activeRevisionLoopIds rt')" by blast+
qed

interpretation mark_storing: quiet_operation "\<lambda>rt. markWaitingForApprovals rt t" for t
proof
  fix rt rt' :: runtime
  assume ok: "runtime_shape rt" "markWaitingForApprovals rt t = Inr rt'"
  note facts = markWaitingForApprovals_facts [OF ok]
  show "attempt_of rt' = attempt_of rt"
    by (rule same_attemptsI [OF facts(1)]) (use facts(4) in \<open>fastforce simp: approval_change_def\<close>)
  show "rt_evidence rt' = rt_evidence rt"
    and "closes_loops (rt_activeRevisionLoopIds rt) (rt_activeRevisionLoopIds rt')"
    using facts(3) by (simp_all add: only_node_runs_def)
qed

interpretation settle_storing: quiet_operation "\<lambda>rt. settleBlockedWorkflowNodes rt t" for t
proof
  fix rt rt' :: runtime
  assume ok: "runtime_shape rt" "settleBlockedWorkflowNodes rt t = Inr rt'"
  show "attempt_of rt' = attempt_of rt" using ok by (rule settle_attempts)
  from settleBlocked_settles [OF ok] have "only_node_runs rt rt'" by (simp add: settles_def)
  then show "rt_evidence rt' = rt_evidence rt"
    and "closes_loops (rt_activeRevisionLoopIds rt) (rt_activeRevisionLoopIds rt')"
    by (simp_all add: only_node_runs_def)
qed

interpretation cancel_storing: quiet_operation "\<lambda>rt. cancelWorkflowExecution rt t" for t
proof
  fix rt rt' :: runtime
  assume shape: "runtime_shape rt" and ok: "cancelWorkflowExecution rt t = Inr rt'"
  obtain rt1 where "cancelWorkflowExecution rt t = Inr rt1" and ev: "evolves rt rt1"
    and fields: "rt_activeRevisionLoopIds rt1 = []" "rt_evidence rt1 = rt_evidence rt"
    and runs: "\<forall>i r. run_of rt i = Some r \<longrightarrow> (\<exists>r'. run_of rt1 i = Some r' \<and> nr_attempt r' = nr_attempt r
        \<and> nr_status r' = (if isTerminalRunStatus (nr_status r) then nr_status r
                          else if isActiveStatus (nr_status r) then Cancelling else Cancelled))"
    by (rule cancelWorkflowExecution_facts [OF shape cancelWorkflowExecution_timestamp [OF ok]])
  with ok have [simp]: "rt1 = rt'" by simp
  show "attempt_of rt' = attempt_of rt"
  proof (rule same_attemptsI)
    show "evolves rt rt'" using ev by simp
    show "\<exists>r'. run_of rt' j = Some r' \<and> nr_attempt r' = nr_attempt r" if "run_of rt j = Some r" for j r
      using runs that by auto
  qed
  show "rt_evidence rt' = rt_evidence rt"
    and "closes_loops (rt_activeRevisionLoopIds rt) (rt_activeRevisionLoopIds rt')"
    using fields by simp_all
qed

interpretation recover_storing: quiet_operation "recovered_runtime live t" for live t
proof
  fix rt rt' :: runtime
  assume shape: "runtime_shape rt" and ok: "recovered_runtime live t rt = Inr rt'"
  then obtain lost where rec: "recoverWorkflowExecution rt live t = Inr (rt', lost)"
    by (auto simp: recovered_runtime_def res_bind_eq_Inr)
  note t = recoverWorkflowExecution_timestamp [OF rec]
  note facts = recoverWorkflowExecution_facts [OF shape t rec]
  show "rt_evidence rt' = rt_evidence rt"
    and "closes_loops (rt_activeRevisionLoopIds rt) (rt_activeRevisionLoopIds rt')"
    using facts(3,4) by simp_all
  obtain run' lost0 rt1 where base: "recoverInterruptedRun (rt_run rt) live t = Inr (run', lost0)"
    "rt1 = rt\<lparr> rt_run := run', rt_activeRevisionLoopIds := [] \<rparr>" "evolves rt rt1" "starts_nothing rt rt1"
    and "set lost0 = {i. \<exists>r. run_of rt i = Some r \<and> isActiveStatus (nr_status r) \<and> \<not> provably_alive live r}"
    and step: "\<And>i r. run_of rt i = Some r \<Longrightarrow> \<exists>r'. run_of rt1 i = Some r'
       \<and> (if isActiveStatus (nr_status r) \<and> \<not> provably_alive live r
          then nr_status r' = Lost \<and> nr_attempt r' = nr_attempt r else r' = r)"
    using recover_evolves [OF shape t] by blast
  have settle: "settleBlockedWorkflowNodes rt1 t = Inr rt'"
    using rec base(1) by (auto simp: recoverWorkflowExecution_def res_bind_eq_Inr base(2))
  have "runtime_shape rt1" using shape base(3) by (rule evolves_shape)
  note settle_attempts [OF this settle]
  also have "attempt_of rt1 = attempt_of rt"
  proof (rule same_attemptsI [OF base(3)])
    show "\<exists>r'. run_of rt1 j = Some r' \<and> nr_attempt r' = nr_attempt r" if "run_of rt j = Some r" for j r
      using step [OF that] by (auto split: if_splits)
  qed
  finally show "attempt_of rt' = attempt_of rt" .
qed

interpretation apply_storing: quiet_operation "reviewed_runtime i t" for i t
proof
  fix rt rt' :: runtime
  assume shape: "runtime_shape rt" and "reviewed_runtime i t rt = Inr rt'"
  then obtain res where res: "applyRevisionReview rt i t = Inr res" "rt' = rv_runtime res"
    by (auto simp: reviewed_runtime_def res_bind_eq_Inr)
  note facts = applyRevisionReview_facts [OF shape res(1)]
  show "attempt_of rt' = attempt_of rt" using facts(3) by (simp add: res(2) attempt_of_def run_of_def fun_eq_iff)
  show "rt_evidence rt' = rt_evidence rt"
    and "closes_loops (rt_activeRevisionLoopIds rt) (rt_activeRevisionLoopIds rt')"
    using facts(4,5) by (simp_all add: res(2))
qed

section \<open>The operations that record evidence\<close>

lemma each_entry_get: "each_entry P ob \<longleftrightarrow> obj_ok ob \<and> (\<forall>k v. obj_get ob k = Some v \<longrightarrow> P k v)"
  using obj_get_eq_Some_iff [of ob] by (auto simp: each_entry_def)

lemma each_entry_put: "each_entry P ob \<Longrightarrow> P k v \<Longrightarrow> each_entry P (obj_put k v ob)"
  by (simp add: each_entry_get)

lemma each_entry_filter:
  assumes "each_entry P ob" and "\<And>k v. P k v \<Longrightarrow> Q k v \<Longrightarrow> P' k v"
  shows "each_entry P' (obj_filter Q ob)"
proof -
  have "distinct (map fst (obj_filter Q ob))"
    using assms(1) by (simp add: each_entry_def obj_ok_def obj_filter_def distinct_map_filter)
  with assms show ?thesis by (auto simp: each_entry_def obj_ok_def obj_filter_def)
qed

lemma bound_with_evidence [simp]:
  "approval_bound (rt\<lparr> rt_evidence := ev \<rparr>) = approval_bound rt"
  "decision_bound (rt\<lparr> rt_evidence := ev \<rparr>) = decision_bound rt"
  "resolution_bound (rt\<lparr> rt_evidence := ev \<rparr>) = resolution_bound rt"
  "publication_bound (rt\<lparr> rt_evidence := ev \<rparr>) = publication_bound rt"
  "completion_bound (rt\<lparr> rt_evidence := ev \<rparr>) = completion_bound rt"
  "review_bound (rt\<lparr> rt_evidence := ev \<rparr>) = review_bound rt"
  "checks_bound (rt\<lparr> rt_evidence := ev \<rparr>) = checks_bound rt"
  "escape_bound (rt\<lparr> rt_evidence := ev \<rparr>) = escape_bound rt"
  by (simp_all add: fun_eq_iff approval_bound_def decision_bound_def resolution_bound_def publication_bound_def
      completion_bound_def review_bound_def checks_bound_def escape_bound_def run_id_def find_edge_def find_node_def)

text \<open>Only the changed evidence has to be checked when the attempts stay.\<close>

lemma evidence_bound_transfer:
  assumes "evidence_bound (rt\<lparr> rt_evidence := rt_evidence rt' \<rparr>)" and ev: "evolves rt rt'"
    and att: "attempt_of rt' = attempt_of rt"
  shows "evidence_bound rt'"
proof -
  have "completion_bound rt' = completion_bound rt" using completion_bound_cong [OF ev] att by (simp add: fun_eq_iff)
  with assms(1) show ?thesis by (simp add: evidence_bound_def bound_predicates_cong [OF ev])
qed

lemma evidence_bound_put:
  assumes "evidence_bound rt"
  shows "approval_bound rt k a \<Longrightarrow> evidence_bound (rt\<lparr> rt_evidence := (rt_evidence rt)\<lparr> ev_humanApprovals :=
      obj_put k a (ev_humanApprovals (rt_evidence rt)) \<rparr> \<rparr>)"
    and "decision_bound rt k d \<Longrightarrow> evidence_bound (rt\<lparr> rt_evidence := (rt_evidence rt)\<lparr> ev_humanReviewDecisions :=
      obj_put k d (ev_humanReviewDecisions (rt_evidence rt)) \<rparr> \<rparr>)"
    and "resolution_bound rt k r \<Longrightarrow> evidence_bound (rt\<lparr> rt_evidence := (rt_evidence rt)\<lparr> ev_contextResolutions :=
      obj_put k r (ev_contextResolutions (rt_evidence rt)) \<rparr> \<rparr>)"
    and "publication_bound rt k p \<Longrightarrow> evidence_bound (rt\<lparr> rt_evidence := (rt_evidence rt)\<lparr> ev_outputPublications :=
      obj_put k p (ev_outputPublications (rt_evidence rt)) \<rparr> \<rparr>)"
    and "completion_bound rt k o' \<Longrightarrow> evidence_bound (rt\<lparr> rt_evidence := (rt_evidence rt)\<lparr> ev_nodeCompletionOutputs :=
      obj_put k o' (ev_nodeCompletionOutputs (rt_evidence rt)) \<rparr> \<rparr>)"
    and "review_bound rt k x \<Longrightarrow> evidence_bound (rt\<lparr> rt_evidence := (rt_evidence rt)\<lparr> ev_reviewerAssessments :=
      obj_put k x (ev_reviewerAssessments (rt_evidence rt)) \<rparr> \<rparr>)"
    and "checks_bound rt k ks \<Longrightarrow> evidence_bound (rt\<lparr> rt_evidence := (rt_evidence rt)\<lparr> ev_gateChecks :=
      obj_put k ks (ev_gateChecks (rt_evidence rt)) \<rparr> \<rparr>)"
    and "escape_bound rt k y \<Longrightarrow> evidence_bound (rt\<lparr> rt_evidence := (rt_evidence rt)\<lparr> ev_revisionEscapes :=
      obj_put k y (ev_revisionEscapes (rt_evidence rt)) \<rparr> \<rparr>)"
  using assms by (simp_all add: evidence_bound_def Let_def each_entry_put)

locale recording_operation = evidence_operation +
  assumes records: "runtime_shape rt \<Longrightarrow> evidence_bound rt \<Longrightarrow> op rt = Inr rt' \<Longrightarrow> evidence_bound rt'"

sublocale recording_operation \<subseteq> storing_operation
proof
  fix rt rt' :: runtime
  assume shape: "runtime_shape rt" and st: "storable rt" and op: "op rt = Inr rt'"
  have bound: "evidence_bound rt'" using records [OF shape _ op] st by (simp add: storable_def)
  obtain ev where "rt' = rt\<lparr> rt_evidence := ev \<rparr>" using evidence_only [OF op] by blast
  then have "active_loops_ok rt'" using st by (simp add: storable_def active_loops_ok_def)
  then show "storable rt'" by (rule storable_step [OF st evolution [OF shape op] bound])
qed

interpretation approve_storing: recording_operation "\<lambda>rt. approveWorkflowHumanDecision rt a" for a
proof
  fix rt rt' :: runtime
  assume bound: "evidence_bound rt" and ok: "approveWorkflowHumanDecision rt a = Inr rt'"
  obtain q where "HumanApproval_ok a" and q: "getWorkflowHumanApprovalRequest rt (hr_targetId a) = Inr q"
    "hr_runId a = hr_runId q" and rt': "rt' = rt\<lparr> rt_evidence := (rt_evidence rt)\<lparr> ev_humanApprovals :=
        obj_put (hr_targetId a) a (ev_humanApprovals (rt_evidence rt)) \<rparr> \<rparr>"
    using ok by (rule approveWorkflowHumanDecision_InrE) blast
  then have "approval_bound rt (hr_targetId a) a"
    using approvalRequestUnchecked_id [OF getWorkflowHumanApprovalRequest_Inr(1) [OF q(1)]] by (simp add: approval_bound_def)
  then show "evidence_bound rt'" unfolding rt' by (rule evidence_bound_put(1) [OF bound])
qed

interpretation resolve_storing: recording_operation "\<lambda>rt. recordWorkflowContextResolution rt r verifier" for r verifier
proof
  fix rt rt' :: runtime
  assume bound: "evidence_bound rt" and ok: "recordWorkflowContextResolution rt r verifier = Inr rt'"
  obtain e where e: "find_edge rt (cr_edgeId r) = Some e" "resolution_current rt e r" "ContextResolution_ok r"
    and rt': "rt' = rt\<lparr> rt_evidence := (rt_evidence rt)\<lparr> ev_contextResolutions :=
        obj_put (edge_id e) r (ev_contextResolutions (rt_evidence rt)) \<rparr> \<rparr>"
    using ok by (rule recordWorkflowContextResolution_InrE) blast
  then have "resolution_bound rt (edge_id e) r"
    using find_edgeD(2) [OF e(1)] by (simp add: resolution_bound_def resolution_current_def)
  then show "evidence_bound rt'" unfolding rt' by (rule evidence_bound_put(3) [OF bound])
qed

interpretation publish_storing: recording_operation "\<lambda>rt. publishWorkflowOutput rt p verifier" for p verifier
proof
  fix rt rt' :: runtime
  assume bound: "evidence_bound rt" and ok: "publishWorkflowOutput rt p verifier = Inr rt'"
  obtain e c where e: "find_edge rt (op_edgeId p) = Some e" "publication_current rt e c p" "OutputPublication_ok p"
    and rt': "rt' = rt\<lparr> rt_evidence := (rt_evidence rt)\<lparr> ev_outputPublications :=
        obj_put (edge_id e) p (ev_outputPublications (rt_evidence rt)) \<rparr> \<rparr>"
    using ok by (rule publishWorkflowOutput_InrE) blast
  then have "publication_bound rt (edge_id e) p"
    using find_edgeD(2) [OF e(1)] by (simp add: publication_bound_def publication_current_def)
  then show "evidence_bound rt'" unfolding rt' by (rule evidence_bound_put(4) [OF bound])
qed

lemma pending_planned: "runtime_shape rt \<Longrightarrow> is_pending rt i \<Longrightarrow> i \<in> set (pl_nodeIds (rt_plan rt))"
  using obj_get_eq_None_iff [of "node_runs rt" i]
  by (auto simp: is_pending_def run_of_def runtime_shape_def split: option.splits)

interpretation check_storing: recording_operation "\<lambda>rt. recordWorkflowGateChecks rt gid checks verifier" for gid checks verifier
proof
  fix rt rt' :: runtime
  assume shape: "runtime_shape rt" and bound: "evidence_bound rt"
    and ok: "recordWorkflowGateChecks rt gid checks verifier = Inr rt'"
  obtain g where g: "gate_data_of rt gid = Inr g" "is_pending rt gid"
      "list_all CheckResult_ok checks" "list_all (\<lambda>k. ck_runId k = run_id rt) checks"
    and rt': "rt' = rt\<lparr> rt_evidence := (rt_evidence rt)\<lparr> ev_gateChecks := obj_put gid checks (ev_gateChecks (rt_evidence rt)) \<rparr> \<rparr>"
    using ok by (rule recordWorkflowGateChecks_InrE) blast
  have "\<exists>n. find_node rt gid = Some n \<and> is_ReviewGateNode (node_data n)"
    using g(1) by (auto simp: gate_data_of_def res_bind_eq_Inr nodeById_def split: option.splits node_data.splits)
  with g pending_planned [OF shape g(2)] have "checks_bound rt gid checks"
    by (simp add: checks_bound_def list_all_iff)
  then show "evidence_bound rt'" unfolding rt' by (rule evidence_bound_put(7) [OF bound])
qed

section \<open>Reviews, revisions and escapes\<close>

text \<open>How the remaining operations keep a runtime readable: the attempts stay and one entry is added.\<close>

lemma storable_put:
  assumes st: "storable rt" and ev: "evolves rt rt'" and att: "attempt_of rt' = attempt_of rt"
    and new: "evidence_bound (rt\<lparr> rt_evidence := rt_evidence rt' \<rparr>)"
    and loops: "closes_loops (rt_activeRevisionLoopIds rt) (rt_activeRevisionLoopIds rt')"
  shows "storable rt'"
proof (rule storable_step [OF st ev])
  show "evidence_bound rt'" using new ev att by (rule evidence_bound_transfer)
  show "active_loops_ok rt'"
    by (rule closes_loops_ok [OF _ loops]) (use st ev in \<open>simp_all add: storable_def evolves_def\<close>)
qed

lemma finish_human_review_attempts:
  assumes shape: "runtime_shape rt" and ok: "finish_human_review rt e d = Inr rt'"
  shows "attempt_of rt' = attempt_of rt"
proof -
  from ok obtain r rt1 where r: "run_of rt (edge_targetNodeId e) = Some r"
    and put: "replace_node_run rt (edge_targetNodeId e) (completed_review r d) (hd_decidedAt d) = Inr rt1"
    and settle: "settleBlockedWorkflowNodes (put_decision (edge_id e) d rt1) (hd_decidedAt d) = Inr rt'"
    by (auto simp: finish_human_review_def res_bind_eq_Inr split: option.splits if_splits)
  have upd: "put_decision (edge_id e) d rt1 = rt1\<lparr> rt_evidence := (rt_evidence rt1)\<lparr> ev_humanReviewDecisions :=
      obj_put (edge_id e) d (ev_humanReviewDecisions (rt_evidence rt1)) \<rparr>,
      rt_activeRevisionLoopIds := rt_activeRevisionLoopIds rt1 \<rparr>" by (simp add: put_decision_def)
  show ?thesis
    by (rule put_then_settle_attempts [OF shape r _ put upd settle]) (simp add: completed_review_def)
qed

interpretation decide_storing: storing_operation "\<lambda>rt. recordWorkflowHumanReviewDecision rt d" for d
proof
  fix rt rt' :: runtime
  assume shape: "runtime_shape rt" and st: "storable rt" and ok: "recordWorkflowHumanReviewDecision rt d = Inr rt'"
  obtain q e where d: "ReviewDecision_ok d" and q: "getWorkflowHumanApprovalRequest rt (hr_targetId d) = Inr q"
    "hr_runId d = hr_runId q" and e: "find_edge rt (hr_targetId d) = Some e" "finish_human_review rt e d = Inr rt'"
    using ok by (rule recordWorkflowHumanReviewDecision_InrE) blast
  note facts = finish_human_review_facts [OF shape e(2)]
  have "decision_bound rt (edge_id e) d"
    using d q(2) approvalRequestUnchecked_id [OF getWorkflowHumanApprovalRequest_Inr(1) [OF q(1)]] find_edgeD(2) [OF e(1)]
    by (simp add: decision_bound_def)
  moreover have "evidence_bound rt" using st by (simp add: storable_def)
  ultimately have "evidence_bound (rt\<lparr> rt_evidence := rt_evidence rt' \<rparr>)"
    unfolding facts(6) by (intro evidence_bound_put(2))
  then show "storable rt'"
    using facts(7) by (intro storable_put [OF st facts(1) finish_human_review_attempts [OF shape e(2)]]) simp_all
qed

lemma recordWorkflowReview_attempts:
  assumes shape: "runtime_shape rt" and ok: "recordWorkflowReview rt i a verifier = Inr rt'"
  shows "attempt_of rt' = attempt_of rt"
proof -
  let ?rt1 = "put_assessment i a rt"
  have shape1: "runtime_shape ?rt1" using evidence_change(3) [OF shape] by (simp add: put_assessment_def)
  have att1: "attempt_of ?rt1 = attempt_of rt" by (simp add: put_assessment_def)
  obtain e c j r rt2 where chk: "check_review rt e c a verifier = Inr (j, r)"
    and fin: "(if rev_reviewer c = ReviewerAgent then finalize_reviewer rt ?rt1 j r else return ?rt1) = Inr rt2"
    and settle: "settleBlockedWorkflowNodes rt2 (review_time rt r) = Inr rt'"
    using ok by (rule recordWorkflowReview_InrE) blast
  have r: "run_of ?rt1 j = Some r"
    using chk by (rule check_review_Inr) (simp add: configured_reviewer_Inr(3))
  show ?thesis
  proof (cases "rt2 = ?rt1")
    case True
    with settle_attempts [OF shape1] settle att1 show ?thesis by simp
  next
    case False
    with fin have fr: "finalize_reviewer rt ?rt1 j r = Inr rt2" by (auto split: if_splits)
    obtain s where put: "replace_node_run ?rt1 j (finalized_reviewer rt r s) (review_time rt r) = Inr rt2"
      by (rule finalize_reviewer_cases [OF fr]) (use False in blast)+
    have "nr_attempt (finalized_reviewer rt r s) = nr_attempt r" by (simp add: finalized_reviewer_def)
    from put_then_settle_attempts [OF shape1 r this put with_active_loops settle] att1 show ?thesis by simp
  qed
qed

interpretation review_storing: storing_operation "\<lambda>rt. recordWorkflowReview rt i a verifier" for i a verifier
proof
  fix rt rt' :: runtime
  assume shape: "runtime_shape rt" and st: "storable rt" and ok: "recordWorkflowReview rt i a verifier = Inr rt'"
  note moves = recordWorkflowReview_moves [OF shape ok]
  obtain e c j r where e: "find_edge rt i = Some e" "edge_config e = Review c" "is_planned rt e"
    and chk: "check_review rt e c a verifier = Inr (j, r)"
    using ok by (rule recordWorkflowReview_InrE) blast
  have "ReviewerAssessment_ok a" using chk by (rule check_review_Inr)
  with e find_edgeD(2) [OF e(1)] have "review_bound rt i a" by (simp add: review_bound_def is_planned_def)
  moreover have "evidence_bound rt" using st by (simp add: storable_def)
  ultimately have "evidence_bound (rt\<lparr> rt_evidence := rt_evidence rt' \<rparr>)"
    unfolding moves(3) put_assessment_def by (simp add: evidence_bound_put(6))
  then show "storable rt'"
    using moves(4) by (intro storable_put [OF st moves(1) recordWorkflowReview_attempts [OF shape ok]]) simp_all
qed

text \<open>A new attempt drops the completion outputs of exactly the nodes whose attempt changes.\<close>

lemma surviving_evidence_bound:
  assumes bound: "evidence_bound rt" and ev: "evolves rt rt'" and new: "rt_evidence rt' = surviving_evidence rt l ids"
    and same: "\<And>j. j \<notin> ids \<Longrightarrow> run_of rt' j = run_of rt j"
  shows "evidence_bound rt'"
proof -
  have "completion_bound rt' k o'" if "completion_bound rt k o'" "k \<notin> ids" for k o'
    using completion_bound_cong [OF ev, of k] same [OF that(2)] that(1) by (simp add: attempt_of_def)
  with bound show ?thesis
    by (auto simp: evidence_bound_def Let_def new surviving_evidence_def bound_predicates_cong [OF ev]
        intro: each_entry_filter)
qed

lemma find_loop_mem: "find_loop rt i = Some l \<Longrightarrow> l \<in> set (canvas_revisionLoops (rt_canvas rt))"
  by (auto simp: find_loop_def dest: find_SomeD)

interpretation queue_storing: storing_operation "\<lambda>rt. queueRevisionAttempt rt i t" for i t
proof
  fix rt rt' :: runtime
  assume shape: "runtime_shape rt" and st: "storable rt" and ok: "queueRevisionAttempt rt i t = Inr rt'"
  note facts = queueRevisionAttempt_facts [OF ok]
  obtain l s n ids where s: "obj_get (wr_revisionLoops (rt_run rt)) i = Some s"
    and new: "rt_evidence rt' = surviving_evidence rt l (set ids)"
    and same: "\<forall>j. j \<notin> set ids \<longrightarrow> run_of rt' j = run_of rt j"
    using facts(6) by blast
  have "evidence_bound rt'"
    by (rule surviving_evidence_bound [OF _ facts(1) new]) (use st same in \<open>simp_all add: storable_def\<close>)
  moreover have "i \<in> set (pl_revisionLoopIds (rt_plan rt))"
    using s shape obj_get_eq_None_iff [of "wr_revisionLoops (rt_run rt)" i] by (simp add: runtime_shape_def)
  then have "active_loops_ok rt'"
    using st facts(1) by (simp add: active_loops_ok_def facts(5) storable_def evolves_def)
  ultimately show "storable rt'" by (rule storable_step [OF st facts(1)])
qed

lemma replaceRevisionLoopState_attempts:
  "replaceRevisionLoopState rt i s t = Inr rt' \<Longrightarrow> attempt_of rt' = attempt_of rt"
  by (auto simp: replaceRevisionLoopState_Inr attempt_of_def run_of_def fun_eq_iff)

lemma put_escape_attempts [simp]: "attempt_of (put_escape i x rt) = attempt_of rt"
  by (simp add: put_escape_def)

text \<open>What a resolved escape leaves in the runtime besides runs and loop states.\<close>

definition escape_stored :: "runtime \<Rightarrow> string \<Rightarrow> escape_resolution \<Rightarrow> runtime \<Rightarrow> bool" where
  "escape_stored rt loopId x rt' =
     (attempt_of rt' = attempt_of rt
      \<and> rt_evidence rt' = (rt_evidence rt)\<lparr> ev_revisionEscapes := obj_put loopId x (ev_revisionEscapes (rt_evidence rt)) \<rparr>
      \<and> rt_activeRevisionLoopIds rt' = filter (\<lambda>j. j \<noteq> loopId) (rt_activeRevisionLoopIds rt))"

lemma escape_storedI:
  assumes "rt_evidence rt0 = rt_evidence rt" and "rt_activeRevisionLoopIds rt0 = rt_activeRevisionLoopIds rt"
    and "rt_evidence rt' = rt_evidence (put_escape i x rt0)"
    and "rt_activeRevisionLoopIds rt' = rt_activeRevisionLoopIds (put_escape i x rt0)" and "attempt_of rt' = attempt_of rt"
  shows "escape_stored rt i x rt'"
  using assms by (simp add: escape_stored_def put_escape_def)

lemma cancel_escape_storage:
  assumes shape: "runtime_shape rt" and l: "find_loop rt (loop_id l) = Some l"
    and s: "obj_get (wr_revisionLoops (rt_run rt)) (loop_id l) = Some s" and ok: "cancel_escape rt l s x = Inr rt'"
  shows "escape_stored rt (loop_id l) x rt'"
proof -
  note f = cancel_escape_facts [OF assms]
  from ok obtain n rt1 run2 entries rt3 where
    rt1: "replaceRevisionLoopState rt (loop_id l) n (es_decidedAt x) = Inr rt1"
    and rt3: "replaceRunState (rt1\<lparr> rt_run := run2 \<rparr>) (obj_from entries) (es_decidedAt x) = Inr rt3"
    and rt': "rt' = (put_escape (loop_id l) x rt3)\<lparr> rt_cancellationRequested := True \<rparr>"
    by (auto simp: cancel_escape_def res_bind_eq_Inr)
  show ?thesis
  proof (rule escape_storedI)
    show "rt_evidence rt3 = rt_evidence rt" "rt_activeRevisionLoopIds rt3 = rt_activeRevisionLoopIds rt"
      using replaceRunState_only [OF rt3] rt1 by (auto simp: only_node_runs_def replaceRevisionLoopState_Inr)
    show "attempt_of rt' = attempt_of rt" by (rule same_attemptsI [OF f(1)]) (use f(8) in blast)
  qed (simp_all add: rt')
qed

lemma accept_escape_storage:
  assumes shape: "runtime_shape rt" and s: "obj_get (wr_revisionLoops (rt_run rt)) (loop_id l) = Some s"
    and r: "run_of rt (loop_reviewNodeId l) = Some r" and ok: "accept_escape rt l s r x = Inr rt'"
  shows "escape_stored rt (loop_id l) x rt'"
proof -
  have "HumanAccepted \<in> set (loop_stopConditions l)" by (rule accept_escape_facts(3) [OF assms])
  with ok obtain node rt1 n rt2 where "nodeById rt (loop_reviewNodeId l) = Inr node"
    and rt1: "(if is_ReviewGateNode (node_data node) then accept_gate rt l r (es_decidedAt x)
               else accept_reviewer rt l r (es_decidedAt x)) = Inr rt1"
    and "advanceRevisionLoop l s (StopConditionMet HumanAccepted) = Inr n"
    and rt2: "replaceRevisionLoopState rt1 (loop_id l) n (es_decidedAt x) = Inr rt2"
    and settle: "settleBlockedWorkflowNodes (put_escape (loop_id l) x rt2) (es_decidedAt x) = Inr rt'"
    by (auto simp: accept_escape_def res_bind_eq_Inr split del: if_split)
  note f1 = accepted_run_facts [OF shape r rt1]
  have att1: "attempt_of rt1 = attempt_of rt"
  proof (rule same_attemptsI [OF f1(1)])
    show "\<exists>r'. run_of rt1 j = Some r' \<and> nr_attempt r' = nr_attempt q" if "run_of rt j = Some q" for j q
      using that f1(4) [of j] f1(5) r by (cases "j = loop_reviewNodeId l") auto
  qed
  have "obj_get (wr_revisionLoops (rt_run rt1)) (loop_id l) \<noteq> None" using s f1(3) by (simp add: only_node_runs_def)
  note f2 = replaceRevisionLoopState_facts [OF rt2 this]
  have "evolves rt (put_escape (loop_id l) x rt2)" using f1(1) f2(1) by (intro put_escape_evolves) (rule evolves_trans)
  with shape have shape3: "runtime_shape (put_escape (loop_id l) x rt2)" by (rule evolves_shape)
  have only: "only_node_runs (put_escape (loop_id l) x rt2) rt'"
    using settleBlocked_settles [OF shape3 settle] by (simp add: settles_def)
  show ?thesis
  proof (rule escape_storedI)
    show "rt_evidence rt2 = rt_evidence rt" "rt_activeRevisionLoopIds rt2 = rt_activeRevisionLoopIds rt"
      using f1(3) f2(4,5) by (simp_all add: only_node_runs_def)
    show "attempt_of rt' = attempt_of rt"
      using settle_attempts [OF shape3 settle] replaceRevisionLoopState_attempts [OF rt2] att1 by simp
  qed (use only in \<open>simp_all add: only_node_runs_def\<close>)
qed

lemma resolveRevisionEscape_storage:
  assumes shape: "runtime_shape rt" and ok: "resolveRevisionEscape rt x = Inr rt'"
  shows "escape_stored rt (er_loopId x) x rt'"
proof -
  obtain l s r where l: "find_loop rt (er_loopId x) = Some l" "obj_get (wr_revisionLoops (rt_run rt)) (er_loopId x) = Some s"
    and r: "run_of rt (loop_reviewNodeId l) = Some r"
    and how: "es_decision x = EscapeCancel \<longrightarrow> cancel_escape rt l s x = Inr rt'"
      "es_decision x = EscapeAccept \<longrightarrow> accept_escape rt l s r x = Inr rt'"
    using ok by (rule resolveRevisionEscape_InrE) blast
  have id: "er_loopId x = loop_id l" using find_loop_id [OF l(1)] by simp
  show ?thesis
    using cancel_escape_storage [OF shape l [unfolded id]] accept_escape_storage [OF shape l(2) [unfolded id] r] how
    by (cases "es_decision x") (simp_all add: id)
qed

lemma resolveRevisionEscape_ok: "resolveRevisionEscape rt x = Inr rt' \<Longrightarrow> EscapeResolution_ok x"
  by (auto simp: resolveRevisionEscape_def res_bind_eq_Inr)

interpretation escape_storing: storing_operation "\<lambda>rt. resolveRevisionEscape rt x" for x
proof
  fix rt rt' :: runtime
  assume shape: "runtime_shape rt" and st: "storable rt" and ok: "resolveRevisionEscape rt x = Inr rt'"
  have facts: "attempt_of rt' = attempt_of rt"
    "rt_evidence rt' = (rt_evidence rt)\<lparr> ev_revisionEscapes := obj_put (er_loopId x) x (ev_revisionEscapes (rt_evidence rt)) \<rparr>"
    "rt_activeRevisionLoopIds rt' = filter (\<lambda>j. j \<noteq> er_loopId x) (rt_activeRevisionLoopIds rt)"
    using resolveRevisionEscape_storage [OF shape ok] by (simp_all add: escape_stored_def)
  have "er_runId x = run_id rt" using ok by (rule resolveRevisionEscape_InrE)
  then have "escape_bound rt (er_loopId x) x" using resolveRevisionEscape_ok [OF ok] by (simp add: escape_bound_def)
  moreover have "evidence_bound rt" using st by (simp add: storable_def)
  ultimately have "evidence_bound (rt\<lparr> rt_evidence := rt_evidence rt' \<rparr>)"
    unfolding facts(2) by (intro evidence_bound_put(8))
  then show "storable rt'"
    by (intro storable_put [OF st resolveRevisionEscape_facts(1) [OF shape ok] facts(1)]) (simp_all add: facts(3))
qed

text \<open>
  Two scheduling edges between the same planned nodes make a run unreadable: the run is created, but
  the stored runtime is rejected when it is read back.
\<close>

theorem parallel_edges_unreadable:
  assumes create: "createWorkflowExecutionRuntime c planId runId scope t eligible = Inr rt"
    and e: "e1 \<in> set (canvas_edges c)" "e2 \<in> set (canvas_edges c)" "edge_id e1 \<noteq> edge_id e2"
    and ends: "edge_sourceNodeId e1 = edge_sourceNodeId e2" "edge_targetNodeId e1 = edge_targetNodeId e2"
    and kinds: "scheduling_edge e1" "scheduling_edge e2"
    and planned: "edge_sourceNodeId e1 \<in> set (pl_nodeIds (rt_plan rt))" "edge_targetNodeId e1 \<in> set (pl_nodeIds (rt_plan rt))"
  shows "parseWorkflowExecutionRuntime rt = Inl (ZodError ''WorkflowExecutionRuntimeSchema'')"
proof -
  let ?es = "filter (\<lambda>e. scheduling_edge e \<and> edge_targetNodeId e = edge_targetNodeId e1
      \<and> edge_sourceNodeId e \<in> set (pl_nodeIds (rt_plan rt))) (canvas_edges c)"
  have "e1 \<in> set ?es" "e2 \<in> set ?es" "e1 \<noteq> e2" using e ends kinds planned by auto
  then have "\<not> inj_on edge_sourceNodeId (set ?es)" using ends(1) by (auto dest: inj_onD)
  then have "\<not> distinct (map edge_sourceNodeId ?es)" unfolding distinct_map by blast
  moreover have "planned_sources rt (edge_targetNodeId e1) = map edge_sourceNodeId ?es"
    using createWorkflowExecutionRuntime_initial(3) [OF create] by (simp add: planned_sources_def)
  ultimately have "\<not> no_parallel_edges rt" using planned(2) unfolding no_parallel_edges_def by metis
  with created_storable [OF create] show ?thesis
    by (simp add: parseWorkflowExecutionRuntime_def parse_runtime_iff)
qed

end
