(* ===== verification/Engine.thy ===== *)
theory Engine
  imports Storage
begin

text \<open>
  The engine as a whole (\<open>packages/core/src/workflow-runtime/index.ts\<close>): an action for every operation
  the package exports, executions as sequences of actions that succeed, and what holds of every
  runtime an execution reaches. The host adds one state change of its own, storing the output a
  finished node left behind.
\<close>

section \<open>Counting attempts\<close>

text \<open>The attempts all planned revision loops have started.\<close>

definition attempts_at :: "runtime \<Rightarrow> string \<Rightarrow> int" where
  "attempts_at rt i = (case obj_get (wr_revisionLoops (rt_run rt)) i of None \<Rightarrow> 0 | Some s \<Rightarrow> ls_attemptsStarted s)"

definition loop_attempts :: "runtime \<Rightarrow> int" where
  "loop_attempts rt = (\<Sum>i \<in> set (pl_revisionLoopIds (rt_plan rt)). attempts_at rt i)"

text \<open>The attempts they may start at most.\<close>

definition allowed_at :: "runtime \<Rightarrow> string \<Rightarrow> int" where
  "allowed_at rt i = (case find_loop rt i of None \<Rightarrow> 0 | Some l \<Rightarrow> loop_maximumAttempts l)"

definition allowed_attempts :: "runtime \<Rightarrow> int" where
  "allowed_attempts rt = (\<Sum>i \<in> set (pl_revisionLoopIds (rt_plan rt)). allowed_at rt i)"

lemma loop_attempts_same:
  assumes "rt_plan rt' = rt_plan rt" and "\<And>i. attempts_at rt' i = attempts_at rt i"
  shows "loop_attempts rt' = loop_attempts rt"
  using assms by (simp add: loop_attempts_def)

lemma loop_attempts_change:
  assumes plan: "rt_plan rt' = rt_plan rt" and i: "i \<in> set (pl_revisionLoopIds (rt_plan rt))"
    and others: "\<And>j. j \<noteq> i \<Longrightarrow> attempts_at rt' j = attempts_at rt j"
  shows "loop_attempts rt' = loop_attempts rt + (attempts_at rt' i - attempts_at rt i)"
proof -
  let ?S = "set (pl_revisionLoopIds (rt_plan rt))"
  have "loop_attempts rt' = attempts_at rt' i + (\<Sum>j \<in> ?S - {i}. attempts_at rt' j)"
    using i by (simp add: loop_attempts_def plan sum.remove)
  also have "(\<Sum>j \<in> ?S - {i}. attempts_at rt' j) = (\<Sum>j \<in> ?S - {i}. attempts_at rt j)"
    using others by (intro sum.cong) auto
  finally show ?thesis using i by (simp add: loop_attempts_def sum.remove [of ?S i])
qed

lemma planned_loop_state:
  assumes "runtime_shape rt"
  shows "i \<in> set (pl_revisionLoopIds (rt_plan rt)) \<longleftrightarrow> (\<exists>s. obj_get (wr_revisionLoops (rt_run rt)) i = Some s)"
  using assms obj_get_eq_None_iff [of "wr_revisionLoops (rt_run rt)" i] by (auto simp: runtime_shape_def)

lemma loop_attempts_bounded:
  assumes shape: "runtime_shape rt" and bounded: "loops_bounded rt"
  shows "loop_attempts rt \<le> allowed_attempts rt"
  unfolding loop_attempts_def allowed_attempts_def
proof (rule sum_mono)
  fix i assume "i \<in> set (pl_revisionLoopIds (rt_plan rt))"
  then obtain s where s: "obj_get (wr_revisionLoops (rt_run rt)) i = Some s" using planned_loop_state [OF shape] by blast
  with bounded obtain l where "find_loop rt i = Some l" "loop_inv l s" unfolding loops_bounded_def by blast
  with s show "attempts_at rt i \<le> allowed_at rt i" by (simp add: attempts_at_def allowed_at_def loop_inv_def)
qed

section \<open>The contract of the operations\<close>

text \<open>
  What an engine operation owes the whole: it keeps the shape and the readability of the runtime, the
  capacity of the machine and the bound of every loop, and starts exactly \<open>cost\<close> loop attempts.
\<close>

locale engine_operation = storing_operation +
  fixes cost :: int
  assumes room: "runtime_shape rt \<Longrightarrow> capacity rt \<Longrightarrow> op rt = Inr rt' \<Longrightarrow> capacity rt'"
    and loops: "runtime_shape rt \<Longrightarrow> loops_bounded rt \<Longrightarrow> op rt = Inr rt' \<Longrightarrow> loops_bounded rt'"
    and counted: "runtime_shape rt \<Longrightarrow> loops_bounded rt \<Longrightarrow> op rt = Inr rt' \<Longrightarrow> loop_attempts rt' = loop_attempts rt + cost"

text \<open>Most operations do not touch the loop states at all.\<close>

lemma untouched_loops:
  assumes "evolves rt rt'" and "wr_revisionLoops (rt_run rt') = wr_revisionLoops (rt_run rt)"
  shows "loops_bounded rt \<Longrightarrow> loops_bounded rt'" and "loop_attempts rt' = loop_attempts rt + 0"
proof -
  have same: "rt_canvas rt' = rt_canvas rt" "rt_plan rt' = rt_plan rt" using assms(1) by (simp_all add: evolves_def)
  show "loops_bounded rt \<Longrightarrow> loops_bounded rt'" by (rule loops_bounded_same [OF _ same(1) assms(2)])
  show "loop_attempts rt' = loop_attempts rt + 0"
    using loop_attempts_same [OF same(2)] assms(2) by (simp add: attempts_at_def)
qed

interpretation start_engine: engine_operation "\<lambda>rt. startWorkflowNode rt i execution t" 0 for i execution t
proof
  fix rt rt' :: runtime
  assume ok: "runtime_shape rt" "startWorkflowNode rt i execution t = Inr rt'"
  note facts = startWorkflowNode_facts [OF ok]
  show "capacity rt \<Longrightarrow> capacity rt'" by (rule facts)
  have "wr_revisionLoops (rt_run rt') = wr_revisionLoops (rt_run rt)" using facts(2) by (simp add: only_node_runs_def)
  from untouched_loops [OF facts(1) this]
  show "loops_bounded rt \<Longrightarrow> loops_bounded rt'" and "loop_attempts rt' = loop_attempts rt + 0" by blast+
qed

text \<open>Operations that start nothing and keep the loop states.\<close>

locale loopless_operation = idle_operation + storing_operation +
  assumes same_loops: "runtime_shape rt \<Longrightarrow> op rt = Inr rt' \<Longrightarrow> wr_revisionLoops (rt_run rt') = wr_revisionLoops (rt_run rt)"

sublocale loopless_operation \<subseteq> engine_operation op 0
proof
  fix rt rt' :: runtime
  assume ok: "runtime_shape rt" "op rt = Inr rt'"
  show "capacity rt \<Longrightarrow> capacity rt'" using ok by (rule keeps_capacity)
  from untouched_loops [OF evolution [OF ok] same_loops [OF ok]]
  show "loops_bounded rt \<Longrightarrow> loops_bounded rt'" and "loop_attempts rt' = loop_attempts rt + 0" by blast+
qed

section \<open>The operations meet the contract\<close>

interpretation prelaunch_engine: loopless_operation "\<lambda>rt. failWorkflowNodeBeforeLaunch rt i f t" for i f t
proof
  fix rt rt' :: runtime
  assume shape: "runtime_shape rt" and ok: "failWorkflowNodeBeforeLaunch rt i f t = Inr rt'"
  then obtain r r' rt1 where r: "run_of rt i = Some r" "nr_attempt r' = nr_attempt r" "nr_status r' = Failed"
    and rt1: "replace_node_run rt i r' t = Inr rt1" "settleBlockedWorkflowNodes rt1 t = Inr rt'"
    by (rule failWorkflowNodeBeforeLaunch_InrE)
  have le: "nr_attempt r \<le> nr_attempt r'" and fin: "isTerminalRunStatus (nr_status r')" using r by simp_all
  show "wr_revisionLoops (rt_run rt') = wr_revisionLoops (rt_run rt)"
    by (rule put_then_settle(8) [OF shape r(1) le rt1(1) fin with_active_loops rt1(2)])
qed

interpretation complete_engine: loopless_operation "\<lambda>rt. completeWorkflowNode rt i c t" for i c t
  by unfold_locales (rule completeWorkflowNode_moves(6))

lemma only_node_runs_loops: "only_node_runs rt rt' \<Longrightarrow> wr_revisionLoops (rt_run rt') = wr_revisionLoops (rt_run rt)"
  by (simp add: only_node_runs_def)

interpretation mark_engine: loopless_operation "\<lambda>rt. markWaitingForApprovals rt t" for t
  by unfold_locales (rule only_node_runs_loops [OF markWaitingForApprovals_facts(3)])

lemma settles_loops: "settles rt rt' \<Longrightarrow> wr_revisionLoops (rt_run rt') = wr_revisionLoops (rt_run rt)"
  by (simp add: settles_def only_node_runs_def)

interpretation settle_engine: loopless_operation "\<lambda>rt. settleBlockedWorkflowNodes rt t" for t
  by unfold_locales (blast dest: settleBlocked_settles settles_loops)

lemma cancel_loops:
  assumes "requestWorkflowCancellation run t = Inr run'"
  shows "wr_revisionLoops run' = wr_revisionLoops run"
  by (subst requestWorkflowCancellation_form [OF assms]) simp

interpretation cancel_engine: loopless_operation "\<lambda>rt. cancelWorkflowExecution rt t" for t
  by unfold_locales (auto simp: cancelWorkflowExecution_def res_bind_eq_Inr cancel_loops)

lemma recover_loops:
  assumes "recoverInterruptedRun run live t = Inr (run', lost)"
  shows "wr_revisionLoops run' = wr_revisionLoops run"
  by (subst recoverInterruptedRun_form [OF assms]) simp

interpretation recover_engine: loopless_operation "recovered_runtime live t" for live t
proof
  fix rt rt' :: runtime
  assume shape: "runtime_shape rt" and ok: "recovered_runtime live t rt = Inr rt'"
  then obtain lost where rec: "recoverWorkflowExecution rt live t = Inr (rt', lost)"
    by (auto simp: recovered_runtime_def res_bind_eq_Inr)
  obtain run' lost0 rt1 where base: "recoverInterruptedRun (rt_run rt) live t = Inr (run', lost0)"
    "rt1 = rt\<lparr> rt_run := run', rt_activeRevisionLoopIds := [] \<rparr>" "evolves rt rt1" "starts_nothing rt rt1"
    and "set lost0 = {i. \<exists>r. run_of rt i = Some r \<and> isActiveStatus (nr_status r) \<and> \<not> provably_alive live r}"
    and "\<And>i r. run_of rt i = Some r \<Longrightarrow> \<exists>r'. run_of rt1 i = Some r'
       \<and> (if isActiveStatus (nr_status r) \<and> \<not> provably_alive live r
          then nr_status r' = Lost \<and> nr_attempt r' = nr_attempt r else r' = r)"
    using recover_evolves [OF shape recoverWorkflowExecution_timestamp [OF rec]] by blast
  have settle: "settleBlockedWorkflowNodes rt1 t = Inr rt'"
    using rec base(1) by (auto simp: recoverWorkflowExecution_def res_bind_eq_Inr base(2))
  have "runtime_shape rt1" using shape base(3) by (rule evolves_shape)
  with settle have "wr_revisionLoops (rt_run rt') = wr_revisionLoops (rt_run rt1)"
    by (blast dest: settleBlocked_settles settles_loops)
  then show "wr_revisionLoops (rt_run rt') = wr_revisionLoops (rt_run rt)" by (simp add: base(2) recover_loops [OF base(1)])
qed

text \<open>An operation that only writes evidence keeps everything else.\<close>

sublocale recording_operation \<subseteq> loopless_operation
proof
  fix rt rt' :: runtime
  assume "op rt = Inr rt'"
  then show "wr_revisionLoops (rt_run rt') = wr_revisionLoops (rt_run rt)" using evidence_only by fastforce
qed

interpretation decide_engine: loopless_operation "\<lambda>rt. recordWorkflowHumanReviewDecision rt d" for d
proof
  fix rt rt' :: runtime
  assume shape: "runtime_shape rt" and ok: "recordWorkflowHumanReviewDecision rt d = Inr rt'"
  obtain q e where "finish_human_review rt e d = Inr rt'" using ok by (rule recordWorkflowHumanReviewDecision_InrE) blast
  from finish_human_review_facts(9) [OF shape this]
  show "wr_revisionLoops (rt_run rt') = wr_revisionLoops (rt_run rt)" .
qed

interpretation review_engine: loopless_operation "\<lambda>rt. recordWorkflowReview rt i a verifier" for i a verifier
  by unfold_locales (rule recordWorkflowReview_moves(6))

text \<open>The operations that move loop states, one loop each.\<close>

lemma one_loop_moves:
  assumes shape: "runtime_shape rt" and ev: "evolves rt rt'"
    and s: "obj_get (wr_revisionLoops (rt_run rt)) i = Some s" and n: "ls_attemptsStarted n = ls_attemptsStarted s + k"
    and put: "\<And>j. obj_get (wr_revisionLoops (rt_run rt')) j = (if j = i then Some n else obj_get (wr_revisionLoops (rt_run rt)) j)"
  shows "loop_attempts rt' = loop_attempts rt + k"
proof -
  have "i \<in> set (pl_revisionLoopIds (rt_plan rt))" using planned_loop_state [OF shape] s by blast
  moreover have "rt_plan rt' = rt_plan rt" using ev by (simp add: evolves_def)
  ultimately have "loop_attempts rt' = loop_attempts rt + (attempts_at rt' i - attempts_at rt i)"
    by (intro loop_attempts_change) (simp_all add: attempts_at_def put)
  then show ?thesis using s n by (simp add: attempts_at_def put)
qed

lemma applyRevisionReview_attempts:
  assumes shape: "runtime_shape rt" and ok: "applyRevisionReview rt i t = Inr res"
  shows "loop_attempts (rv_runtime res) = loop_attempts rt"
proof -
  obtain l s ev where l: "find_loop rt i = Some l" "obj_get (wr_revisionLoops (rt_run rt)) i = Some s"
    and req: "ls_status s = ReviewRequired"
    and res: "(case undecided_review rt ev of Some result \<Rightarrow> return result | None \<Rightarrow> decide_review rt l s ev t) = Inr res"
    using ok by (rule applyRevisionReview_InrE) blast
  show ?thesis
  proof (cases "undecided_review rt ev")
    case (Some result)
    with res have "undecided_review rt ev = Some res" by simp
    from undecided_review_Some(1) [OF this] show ?thesis by (simp only:)
  next
    case None
    with res have "decide_review rt l s ev t = Inr res" by simp
    then obtain s' where put: "replaceRevisionLoopState rt (loop_id l) s' t = Inr (rv_runtime res)"
      and att: "ls_attemptsStarted s' = ls_attemptsStarted s"
      using req by (rule decide_review_Inr) blast
    have put: "replaceRevisionLoopState rt i s' t = Inr (rv_runtime res)" using put find_loop_id [OF l(1)] by simp
    have "obj_get (wr_revisionLoops (rt_run rt)) i \<noteq> None" using l(2) by simp
    note facts = replaceRevisionLoopState_facts [OF put this]
    have "loop_attempts (rv_runtime res) = loop_attempts rt + 0"
      by (rule one_loop_moves [OF shape facts(1) l(2) _ facts(7)]) (simp add: att)
    then show ?thesis by simp
  qed
qed

interpretation apply_engine: engine_operation "reviewed_runtime i t" 0 for i t
proof
  fix rt rt' :: runtime
  assume shape: "runtime_shape rt" and ok: "reviewed_runtime i t rt = Inr rt'"
  then obtain res where res: "applyRevisionReview rt i t = Inr res" "rt' = rv_runtime res"
    by (auto simp: reviewed_runtime_def res_bind_eq_Inr)
  show "capacity rt \<Longrightarrow> capacity rt'" by (rule applying.keeps_capacity [OF shape ok])
  show "loops_bounded rt \<Longrightarrow> loops_bounded rt'" using applyRevisionReview_facts(7) [OF shape res(1)] by (simp add: res(2))
  show "loop_attempts rt' = loop_attempts rt + 0" using applyRevisionReview_attempts [OF shape res(1)] by (simp add: res(2))
qed

interpretation queue_engine: engine_operation "\<lambda>rt. queueRevisionAttempt rt i t" 1 for i t
proof
  fix rt rt' :: runtime
  assume shape: "runtime_shape rt" and ok: "queueRevisionAttempt rt i t = Inr rt'"
  show "capacity rt \<Longrightarrow> capacity rt'" by (rule queueing.keeps_capacity [OF shape ok])
  show "loops_bounded rt \<Longrightarrow> loops_bounded rt'" by (rule queueRevisionAttempt_facts(3) [OF ok])
  assume bounded: "loops_bounded rt"
  obtain l s n ids runs reopened where l: "find_loop rt i = Some l" "obj_get (wr_revisionLoops (rt_run rt)) i = Some s"
    and n: "advanceRevisionLoop l s RevisionCompleted = Inr n" and re: "replaceRunState rt runs t = Inr reopened"
    and rt': "rt' = reopened\<lparr> rt_run := (rt_run reopened)\<lparr> wr_revisionLoops := obj_put i n (wr_revisionLoops (rt_run reopened)) \<rparr>,
           rt_evidence := surviving_evidence rt l (set ids),
           rt_activeRevisionLoopIds := uniqueSorted (rt_activeRevisionLoopIds rt @ [i]) \<rparr>"
    using ok by (rule queueRevisionAttempt_InrE) blast
  have next_state: "ls_attemptsStarted n = ls_attemptsStarted s + 1"
    using advance_inv [OF loops_boundedD [OF bounded l] n] by simp
  have "obj_get (wr_revisionLoops (rt_run rt')) j = (if j = i then Some n else obj_get (wr_revisionLoops (rt_run rt)) j)" for j
    using replaceRunState_only [OF re] by (simp add: rt' only_node_runs_def)
  then show "loop_attempts rt' = loop_attempts rt + 1"
    by (rule one_loop_moves [OF shape queueRevisionAttempt_facts(1) [OF ok] l(2) next_state])
qed

interpretation escape_engine: engine_operation "\<lambda>rt. resolveRevisionEscape rt x" 0 for x
proof
  fix rt rt' :: runtime
  assume shape: "runtime_shape rt" and ok: "resolveRevisionEscape rt x = Inr rt'"
  show "capacity rt \<Longrightarrow> capacity rt'" by (rule escaping.keeps_capacity [OF shape ok])
  note facts = resolveRevisionEscape_facts [OF shape ok]
  show "loops_bounded rt \<Longrightarrow> loops_bounded rt'" by (rule facts)
  obtain l s r where l: "find_loop rt (er_loopId x) = Some l" "obj_get (wr_revisionLoops (rt_run rt)) (er_loopId x) = Some s"
    and r: "run_of rt (loop_reviewNodeId l) = Some r"
    and how: "es_decision x = EscapeCancel \<longrightarrow> cancel_escape rt l s x = Inr rt'"
      "es_decision x = EscapeAccept \<longrightarrow> accept_escape rt l s r x = Inr rt'"
    using ok by (rule resolveRevisionEscape_InrE) blast
  have id: "er_loopId x = loop_id l" using find_loop_id [OF l(1)] by simp
  have s: "obj_get (wr_revisionLoops (rt_run rt)) (loop_id l) = Some s" using l(2) by (simp add: id)
  show "loop_attempts rt' = loop_attempts rt + 0"
  proof (cases "es_decision x")
    case EscapeCancel
    with how have "cancel_escape rt l s x = Inr rt'" by simp
    from cancel_escape_facts(5) [OF shape l(1) [unfolded id] s this] show ?thesis
      by (rule one_loop_moves [OF shape facts(1) s, rotated]) (simp add: withoutEligibility_def)
  next
    case EscapeAccept
    with how have "accept_escape rt l s r x = Inr rt'" by simp
    from accept_escape_facts(4) [OF shape s r this] show ?thesis
      by (rule one_loop_moves [OF shape facts(1) s, rotated]) (simp add: withoutEligibility_def)
  qed
qed

section \<open>Actions and executions\<close>

datatype action =
    Start string execution_reference timestamp
  | FailBeforeLaunch string prelaunch_failure timestamp
  | Complete string node_completion timestamp
  | MarkWaiting timestamp
  | Settle timestamp
  | Cancel timestamp
  | Recover "int \<Rightarrow> string option" timestamp
  | Approve human_approval
  | Decide review_decision
  | ResolveContext context_resolution evidence_verifier
  | Publish output_publication evidence_verifier
  | RecordChecks string "check_result list" evidence_verifier
  | RecordReview string reviewer_assessment evidence_verifier
  | ApplyReview string timestamp
  | QueueAttempt string timestamp
  | ResolveEscape escape_resolution
  | StoreOutput string node_completion_output

text \<open>The host stores an output only for the present attempt of a planned node.\<close>

definition storeCompletionOutput :: "runtime \<Rightarrow> string \<Rightarrow> node_completion_output \<Rightarrow> runtime res" where
  "storeCompletionOutput rt nodeId o' =
     (if completion_bound rt nodeId o'
      then return (rt\<lparr> rt_evidence := (rt_evidence rt)\<lparr> ev_nodeCompletionOutputs :=
             obj_put nodeId o' (ev_nodeCompletionOutputs (rt_evidence rt)) \<rparr> \<rparr>)
      else throw (Error ''Node completion output must target the current planned node attempt''))"

interpretation store_engine: recording_operation "\<lambda>rt. storeCompletionOutput rt i o'" for i o'
  by unfold_locales (auto simp: storeCompletionOutput_def evidence_bound_put(5) split: if_splits)

fun perform :: "action \<Rightarrow> runtime \<Rightarrow> runtime res" where
  "perform (Start i execution t) rt = startWorkflowNode rt i execution t"
| "perform (FailBeforeLaunch i f t) rt = failWorkflowNodeBeforeLaunch rt i f t"
| "perform (Complete i c t) rt = completeWorkflowNode rt i c t"
| "perform (MarkWaiting t) rt = markWaitingForApprovals rt t"
| "perform (Settle t) rt = settleBlockedWorkflowNodes rt t"
| "perform (Cancel t) rt = cancelWorkflowExecution rt t"
| "perform (Recover live t) rt = recovered_runtime live t rt"
| "perform (Approve a) rt = approveWorkflowHumanDecision rt a"
| "perform (Decide d) rt = recordWorkflowHumanReviewDecision rt d"
| "perform (ResolveContext r v) rt = recordWorkflowContextResolution rt r v"
| "perform (Publish p v) rt = publishWorkflowOutput rt p v"
| "perform (RecordChecks i ks v) rt = recordWorkflowGateChecks rt i ks v"
| "perform (RecordReview i a v) rt = recordWorkflowReview rt i a v"
| "perform (ApplyReview i t) rt = reviewed_runtime i t rt"
| "perform (QueueAttempt i t) rt = queueRevisionAttempt rt i t"
| "perform (ResolveEscape x) rt = resolveRevisionEscape rt x"
| "perform (StoreOutput i o') rt = storeCompletionOutput rt i o'"

definition restart_cost :: "action \<Rightarrow> int" where
  "restart_cost a = (case a of QueueAttempt _ _ \<Rightarrow> 1 | _ \<Rightarrow> 0)"

text \<open>A sequence of actions that all succeed, one after the other.\<close>

inductive execution :: "runtime \<Rightarrow> action list \<Rightarrow> runtime \<Rightarrow> bool" where
  stop: "execution rt [] rt"
| act: "perform a rt = Inr rt1 \<Longrightarrow> execution rt1 as rt' \<Longrightarrow> execution rt (a # as) rt'"

inductive_simps execution_Nil [simp]: "execution rt [] rt'"
inductive_simps execution_Cons: "execution rt (a # as) rt'"

text \<open>Executions, computed.\<close>

fun performs :: "action list \<Rightarrow> runtime \<Rightarrow> runtime res" where
  "performs [] rt = return rt"
| "performs (a # as) rt = res_bind (perform a rt) (performs as)"

lemma execution_performs: "execution rt as rt' \<longleftrightarrow> performs as rt = Inr rt'"
  by (induction as arbitrary: rt) (auto simp: execution_Cons res_bind_eq_Inr)

section \<open>What every execution keeps\<close>

definition sound_runtime :: "runtime \<Rightarrow> bool" where
  "sound_runtime rt = (runtime_shape rt \<and> capacity rt \<and> loops_bounded rt)"

text \<open>One step that starts \<open>k\<close> loop attempts.\<close>

definition advances :: "runtime \<Rightarrow> runtime \<Rightarrow> int \<Rightarrow> bool" where
  "advances rt rt' k =
     (sound_runtime rt' \<and> evolves rt rt' \<and> loop_attempts rt' = loop_attempts rt + k
      \<and> (storable rt \<longrightarrow> storable rt'))"

context engine_operation
begin

lemma step:
  assumes "sound_runtime rt" and op: "op rt = Inr rt'"
  shows "advances rt rt' cost"
proof -
  have shape: "runtime_shape rt" and cap: "capacity rt" and bounded: "loops_bounded rt"
    using assms(1) by (simp_all add: sound_runtime_def)
  show ?thesis
    unfolding advances_def sound_runtime_def
    using keeps_shape [OF shape op] room [OF shape cap op] loops [OF shape bounded op] counted [OF shape bounded op]
      evolution [OF shape op] storing [OF shape _ op] by blast
qed

end

lemma perform_step:
  assumes "sound_runtime rt" and "perform a rt = Inr rt'"
  shows "advances rt rt' (restart_cost a)"
proof (cases a)
  case Start
  with assms show ?thesis by (simp add: restart_cost_def start_engine.step)
next
  case FailBeforeLaunch
  with assms show ?thesis by (simp add: restart_cost_def prelaunch_engine.step)
next
  case Complete
  with assms show ?thesis by (simp add: restart_cost_def complete_engine.step)
next
  case MarkWaiting
  with assms show ?thesis by (simp add: restart_cost_def mark_engine.step)
next
  case Settle
  with assms show ?thesis by (simp add: restart_cost_def settle_engine.step)
next
  case Cancel
  with assms show ?thesis by (simp add: restart_cost_def cancel_engine.step)
next
  case Recover
  with assms show ?thesis by (simp add: restart_cost_def recover_engine.step)
next
  case Approve
  with assms show ?thesis by (simp add: restart_cost_def approve_storing.step)
next
  case Decide
  with assms show ?thesis by (simp add: restart_cost_def decide_engine.step)
next
  case ResolveContext
  with assms show ?thesis by (simp add: restart_cost_def resolve_storing.step)
next
  case Publish
  with assms show ?thesis by (simp add: restart_cost_def publish_storing.step)
next
  case RecordChecks
  with assms show ?thesis by (simp add: restart_cost_def check_storing.step)
next
  case RecordReview
  with assms show ?thesis by (simp add: restart_cost_def review_engine.step)
next
  case ApplyReview
  with assms show ?thesis by (simp add: restart_cost_def apply_engine.step)
next
  case QueueAttempt
  with assms show ?thesis by (simp add: restart_cost_def queue_engine.step)
next
  case ResolveEscape
  with assms show ?thesis by (simp add: restart_cost_def escape_engine.step)
next
  case StoreOutput
  with assms show ?thesis by (simp add: restart_cost_def store_engine.step)
qed

lemma advances_trans:
  "advances rt rt1 j \<Longrightarrow> advances rt1 rt2 k \<Longrightarrow> advances rt rt2 (j + k)"
  unfolding advances_def using evolves_trans by fastforce

lemma execution_advances:
  assumes "execution rt as rt'" and "sound_runtime rt"
  shows "advances rt rt' (sum_list (map restart_cost as))"
  using assms
proof (induction rule: execution.induct)
  case (stop rt)
  then show ?case by (simp add: advances_def sound_runtime_def evolves_refl)
next
  case (act a rt rt1 as rt')
  have first: "advances rt rt1 (restart_cost a)" using act.prems act.hyps(1) by (rule perform_step)
  then have "sound_runtime rt1" by (simp add: advances_def)
  from advances_trans [OF first act.IH [OF this]] show ?case by simp
qed

section \<open>Executions from a created runtime\<close>

lemma obj_from_mem: "obj_get (obj_from kvs) k = Some v \<Longrightarrow> (k, v) \<in> set kvs"
  using obj_get_put_all_in [of k kvs "[]"] obj_get_put_all_other [of k kvs "[]"]
  by (cases "k \<in> fst ` set kvs") (auto simp: obj_from_def put_all_def)

lemma created_loops_bounded:
  assumes create: "createWorkflowExecutionRuntime c planId runId scope t eligible = Inr rt"
  shows "loops_bounded rt"
  unfolding loops_bounded_def
proof (intro allI impI)
  fix i s assume s: "obj_get (wr_revisionLoops (rt_run rt)) i = Some s"
  have rt: "rt_canvas rt = c" "runtime_shape rt"
    using createWorkflowExecutionRuntime_initial [OF create] by (simp_all add: initial_runtime_def)
  obtain plan :: scoped_plan and loops where loops: "map_res (planned_loop c) (pl_revisionLoopIds plan) = Inr loops"
    "wr_revisionLoops (rt_run rt) = obj_from loops"
    using create by (auto simp: createWorkflowExecutionRuntime_def res_bind_eq_Inr)
  with s have "(i, s) \<in> set loops" by (simp add: obj_from_mem)
  from map_res_Inr_in_set [OF loops(1) this] obtain j where "planned_loop c j = Inr (i, s)" by blast
  then obtain l where l: "l \<in> set (canvas_revisionLoops c)" "loop_id l = i" "s = createRevisionLoopState l"
    by (auto simp: planned_loop_def dest!: find_SomeD split: option.splits)
  obtain k where k: "find_loop rt i = Some k"
    using l(1,2) rt(1) by (cases "find_loop rt i") (auto simp: find_loop_def find_None_iff)
  have "distinct (map loop_id (canvas_revisionLoops c))"
    using rt by (simp add: runtime_shape_def wellformed_canvas_def canvas_ids_def)
  moreover have "k \<in> set (canvas_revisionLoops c)" "loop_id k = i"
    using find_loop_mem [OF k] find_loop_id [OF k] rt(1) by simp_all
  ultimately have "k = l" using l(1,2) by (simp add: distinct_map inj_on_def)
  moreover have "RevisionLoop_ok l" using rt l(1) by (simp add: runtime_shape_def CanvasSchema_ok_def list_all_iff)
  ultimately show "\<exists>l. find_loop rt i = Some l \<and> loop_inv l s"
    using k by (simp add: l(3) loop_inv_def createRevisionLoopState_def RevisionLoop_ok_def)
qed

lemma created_sound:
  assumes create: "createWorkflowExecutionRuntime c planId runId scope t eligible = Inr rt"
  shows "sound_runtime rt" and "loop_attempts rt = int (card (set (pl_revisionLoopIds (rt_plan rt))))"
proof -
  note init = createWorkflowExecutionRuntime_initial [OF create]
  have shape: "runtime_shape rt" and queued: "\<forall>i \<in> set (pl_nodeIds (rt_plan rt)). run_of rt i = Some (queued_run t i)"
    and states: "list_all (\<lambda>s. ls_status s = ReviewRequired \<and> ls_attemptsStarted s = 1) (obj_values (wr_revisionLoops (rt_run rt)))"
    using init(1) by (simp_all add: initial_runtime_def)
  have first: "ls_status s = ReviewRequired \<and> ls_attemptsStarted s = 1" if "obj_get (wr_revisionLoops (rt_run rt)) i = Some s" for i s
    using states obj_get_value [OF that] by (auto simp: list_all_iff)
  have "attempts_at rt i = 1" if "i \<in> set (pl_revisionLoopIds (rt_plan rt))" for i
    using that planned_loop_state [OF shape, of i] first by (auto simp: attempts_at_def)
  then show "loop_attempts rt = int (card (set (pl_revisionLoopIds (rt_plan rt))))" by (simp add: loop_attempts_def)
  have "\<not> active_at rt i" for i
  proof (cases "run_of rt i")
    case (Some r)
    then have "i \<in> set (pl_nodeIds (rt_plan rt))"
      using shape obj_get_eq_None_iff [of "node_runs rt" i] by (simp add: run_of_def runtime_shape_def)
    with queued show ?thesis by (simp add: active_at_def queued_run_def)
  qed (simp add: active_at_def)
  then have "active_ids rt = []" by (simp add: active_ids_def)
  moreover have "WorkflowLimits_ok (canvas_workflowLimits (rt_canvas rt))"
    using shape by (simp add: runtime_shape_def CanvasSchema_ok_def)
  ultimately have cap: "capacity rt" by (simp add: capacity_def within_limits_def WorkflowLimits_ok_def)
  have "loops_bounded rt" using create by (rule created_loops_bounded)
  with shape cap show "sound_runtime rt" by (simp add: sound_runtime_def)
qed

text \<open>
  C7. Whatever actions the host performs, in whatever order, every runtime it reaches is well shaped,
  its active nodes fit together within the workflow limits, every loop is within its bound, canvas and
  plan are those of the start, and no attempt number has decreased.
\<close>

theorem execution_invariant:
  assumes "createWorkflowExecutionRuntime c planId runId scope t eligible = Inr rt0" and "execution rt0 as rt"
  shows "runtime_shape rt \<and> capacity rt \<and> loops_bounded rt
    \<and> rt_canvas rt = c \<and> rt_plan rt = rt_plan rt0
    \<and> (\<forall>i r0. run_of rt0 i = Some r0 \<longrightarrow> (\<exists>r. run_of rt i = Some r \<and> nr_attempt r0 \<le> nr_attempt r))"
proof -
  have step: "advances rt0 rt (sum_list (map restart_cost as))"
    using assms(2) created_sound(1) [OF assms(1)] by (rule execution_advances)
  then have ev: "evolves rt0 rt" by (simp add: advances_def)
  have "\<exists>r. run_of rt i = Some r \<and> nr_attempt r0 \<le> nr_attempt r" if "run_of rt0 i = Some r0" for i r0
    using that evolves_run [OF ev, of i] evolves_attempt [OF ev that] by (cases "run_of rt i") auto
  with step createWorkflowExecutionRuntime_initial(3) [OF assms(1)] show ?thesis
    by (simp add: advances_def sound_runtime_def evolves_def)
qed

text \<open>
  C19. Revising ends: an execution queues at most as many further attempts as the maximum attempts of
  its planned loops allow beyond their first ones, however the other actions interleave.
\<close>

theorem execution_revisions_bounded:
  assumes "createWorkflowExecutionRuntime c planId runId scope t eligible = Inr rt0" and "execution rt0 as rt"
  shows "sum_list (map restart_cost as) \<le> allowed_attempts rt0 - int (card (set (pl_revisionLoopIds (rt_plan rt0))))"
proof -
  have step: "advances rt0 rt (sum_list (map restart_cost as))"
    using assms(2) created_sound(1) [OF assms(1)] by (rule execution_advances)
  have "loop_attempts rt \<le> allowed_attempts rt"
    using step by (intro loop_attempts_bounded) (simp_all add: advances_def sound_runtime_def)
  moreover have "allowed_attempts rt = allowed_attempts rt0"
    using step by (simp add: advances_def evolves_def allowed_attempts_def allowed_at_def find_loop_def)
  ultimately show ?thesis using step created_sound(2) [OF assms(1)] by (simp add: advances_def)
qed

text \<open>
  C15. A run without parallel scheduling edges can always be resumed: whatever runtime its execution
  reaches, if it is within the size limits, is accepted unchanged when it is read back.
\<close>

theorem execution_readable:
  assumes create: "createWorkflowExecutionRuntime c planId runId scope t eligible = Inr rt0" and "no_parallel_edges rt0"
    and run: "execution rt0 as rt" and fits: "fits_storage rt"
  shows "parseWorkflowExecutionRuntime rt = Inr rt"
proof -
  have step: "advances rt0 rt (sum_list (map restart_cost as))"
    using run created_sound(1) [OF create] by (rule execution_advances)
  moreover have "storable rt0" using created_storable(1) [OF create] assms(2) by simp
  ultimately have "storable rt" "runtime_shape rt" by (simp_all add: advances_def sound_runtime_def)
  then show ?thesis using fits by (intro storable_readable)
qed

end
