(* ===== verification/Samples.thy ===== *)
theory Samples
  imports Engine "HOL-Library.Code_Target_Numeral"
begin

text \<open>
  Builders for concrete canvases and runtimes, on which the properties are instantiated. A sample
  canvas is checked by running the validator on it, and a sample runtime has one node run per node
  and one loop state per loop of its canvas.
\<close>

section \<open>Canvases\<close>

definition t0 :: timestamp where "t0 = ''2024-01-01T00:00:00Z''"
definition t1 :: timestamp where "t1 = ''2024-01-01T00:01:00Z''"
definition t2 :: timestamp where "t2 = ''2024-01-01T00:02:00Z''"

definition node :: "string \<Rightarrow> node_data \<Rightarrow> canvas_node" where
  "node i d =
     \<lparr> node_id = i, node_title = i, node_color = ''#ffffff'', node_icon = ''box'',
       node_position = \<lparr> pt_x = 0, pt_y = 0 \<rparr>, node_size = \<lparr> sz_width = 200, sz_height = 100 \<rparr>,
       node_collapsed = False, node_locked = False, node_groupId = None, node_comments = [],
       node_status = Draft, node_runHistoryIds = [], node_inspector = [],
       node_resources = \<lparr> cpuUnits = 1, memoryMb = 512, exclusiveKeys = [] \<rparr>,
       node_createdAt = t0, node_updatedAt = t0, node_data = d \<rparr>"

definition agent :: node_data where
  "agent = AgentNode
     \<lparr> ag_adapterId = Some ''x'', ag_model = None, ag_permissionProfileId = Some ''p'', ag_worktreeId = None,
       ag_branch = None, ag_contextAttachmentIds = [], ag_promptDraft = ''Build it'', ag_activeSessionId = None,
       ag_streamedOutputArtifactId = None, ag_pauseSupported = False, ag_interruptSupported = False,
       ag_resumeSupported = False, ag_tokenUsage = None, ag_cost = None \<rparr>"

definition edge :: "string \<Rightarrow> string \<Rightarrow> string \<Rightarrow> edge_config \<Rightarrow> canvas_edge" where
  "edge i s t c =
     \<lparr> edge_id = i, edge_sourceNodeId = s, edge_targetNodeId = t, edge_sourceHandle = None,
       edge_targetHandle = None, edge_label = None, edge_status = None, edge_inspector = [],
       edge_createdAt = t0, edge_config = c \<rparr>"

definition canvas_with :: "canvas_node list \<Rightarrow> canvas_edge list \<Rightarrow> revision_loop list \<Rightarrow> canvas" where
  "canvas_with ns es ls =
     \<lparr> canvas_id = ''c'', canvas_projectId = ''p'', canvas_name = ''Sample'', canvas_nodes = ns,
       canvas_edges = es, canvas_groups = [],
       canvas_viewState = \<lparr> vs_x = 0, vs_y = 0, vs_zoom = 1, vs_selectedNodeIds = [], vs_selectedEdgeIds = [],
         vs_minimapVisible = False, vs_snapToGrid = False, vs_gridSize = 20 \<rparr>,
       canvas_revisionLoops = ls,
       canvas_workflowLimits = \<lparr> maximumConcurrency = 1, maximumCpuUnits = 4, maximumMemoryMb = 4096 \<rparr>,
       canvas_createdAt = t0, canvas_updatedAt = t0 \<rparr>"

definition checked :: "canvas \<Rightarrow> bool" where
  "checked c = (CanvasSchema_ok c \<and> all_issues c = [])"

lemma checkedD: "checked c \<Longrightarrow> CanvasSchema_ok c" "checked c \<Longrightarrow> wellformed_canvas c"
  using all_issues_Nil by (auto simp: checked_def)

section \<open>Runtimes\<close>

definition node_run :: "string \<Rightarrow> run_status \<Rightarrow> node_run" where
  "node_run i s =
     \<lparr> nr_nodeId = i, nr_status = s, nr_attempt = 1, nr_queuedAt = t0,
       nr_startedAt = (if s = Queued then None else Some t0),
       nr_endedAt = (if isTerminalRunStatus s then Some t0 else None), nr_process = None,
       nr_internalExecution = (if isActiveStatus s then Some \<lparr> ir_executionId = ''x'', ir_startedAt = t0 \<rparr> else None),
       nr_resumable = False, nr_failureCode = None, nr_statusReason = None \<rparr>"

definition sample_run :: "canvas \<Rightarrow> run_status \<Rightarrow> node_run list \<Rightarrow> loop_state list \<Rightarrow> workflow_run" where
  "sample_run c s runs loops =
     \<lparr> wr_id = ''r'', wr_canvasId = canvas_id c, wr_planId = ''p'', wr_status = s,
       wr_nodeRuns = map (\<lambda>r. (nr_nodeId r, r)) runs, wr_revisionLoops = map (\<lambda>l. (ls_loopId l, l)) loops,
       wr_createdAt = t0, wr_updatedAt = t0, wr_endedAt = None \<rparr>"

definition sample :: "canvas \<Rightarrow> node_run list \<Rightarrow> loop_state list \<Rightarrow> execution_evidence \<Rightarrow> runtime" where
  "sample c runs loops ev =
     \<lparr> rt_canvas = c,
       rt_plan = \<lparr> pl_id = ''p'', pl_canvasId = canvas_id c, pl_nodeIds = map node_id (canvas_nodes c),
         pl_stages = [\<lparr> st_index = 0, st_nodeIds = map node_id (canvas_nodes c), st_cpuUnits = 1, st_memoryMb = 512 \<rparr>],
         pl_dependencies = [], pl_revisionLoopIds = map loop_id (canvas_revisionLoops c),
         sp_scope = WorkflowScope, sp_executableEdgeIds = map edge_id (canvas_edges c) \<rparr>,
       rt_run = sample_run c Queued runs loops, rt_evidence = ev,
       rt_activeRevisionLoopIds = [], rt_cancellationRequested = False \<rparr>"

definition fitting :: "canvas \<Rightarrow> node_run list \<Rightarrow> loop_state list \<Rightarrow> bool" where
  "fitting c runs loops =
     (map nr_nodeId runs = map node_id (canvas_nodes c) \<and> map ls_loopId loops = map loop_id (canvas_revisionLoops c)
      \<and> WorkflowRun_ok (sample_run c Queued runs loops))"

lemma sample_shape:
  assumes c: "checked c" and fit: "fitting c runs loops"
  shows "runtime_shape (sample c runs loops ev)"
proof -
  have "distinct (canvas_ids c)" using checkedD(2) [OF c] by (simp add: wellformed_canvas_def)
  then have d: "distinct (map node_id (canvas_nodes c))" "distinct (map loop_id (canvas_revisionLoops c))"
    by (simp_all add: canvas_ids_def)
  have keys: "map fst (map (\<lambda>r. (nr_nodeId r, r)) runs) = map node_id (canvas_nodes c)"
    "map fst (map (\<lambda>l. (ls_loopId l, l)) loops) = map loop_id (canvas_revisionLoops c)"
    using fit by (simp_all add: fitting_def comp_def)
  with d show ?thesis
    using checkedD [OF c] fit
    by (simp add: runtime_shape_def sample_def sample_run_def fitting_def obj_ok_def obj_keys_def staged_def
        del: map_map)
qed

section \<open>A chain of two agents\<close>

definition chain :: canvas where
  "chain = canvas_with [node ''a'' agent, node ''b'' agent]
     [edge ''e'' ''a'' ''b'' (Execute \<lparr> exe_trigger = OnSuccess, exe_approval = ApproveNone, exe_approvalGateNodeId = None \<rparr>)] []"

lemma chain_checked: "checked chain"
  by code_simp

definition chain_at :: "run_status \<Rightarrow> run_status \<Rightarrow> runtime" where
  "chain_at s s' = sample chain [node_run ''a'' s, node_run ''b'' s'] [] no_evidence"

lemma chain_at_shape: "s \<in> {Queued, Running, Failed, Succeeded} \<Longrightarrow> runtime_shape (chain_at s Queued)"
  unfolding chain_at_def
proof (rule sample_shape [OF chain_checked])
  have "list_all (\<lambda>s. fitting chain [node_run ''a'' s, node_run ''b'' Queued] []) [Queued, Running, Failed, Succeeded]"
    by code_simp
  then show "s \<in> {Queued, Running, Failed, Succeeded} \<Longrightarrow> fitting chain [node_run ''a'' s, node_run ''b'' Queued] []"
    by auto
qed

definition internal :: execution_reference where
  "internal = InternalExecution \<lparr> ir_executionId = ''x'', ir_startedAt = t1 \<rparr>"

lemma chain_starts: "is_ok (startWorkflowNode (chain_at Queued Queued) ''a'' internal t1)"
  by code_simp

lemma chain_snapshot: "is_ok (getSchedulingSnapshot (chain_at Queued Queued))"
  by code_simp

lemma chain_completes: "is_ok (completeWorkflowNode (chain_at Running Queued) ''a'' CompletedSucceeded t1)"
  by code_simp

lemma chain_settles: "is_ok (settleBlockedWorkflowNodes (chain_at Failed Queued) t1)"
  by code_simp

lemma chain_prelaunch:
  "is_ok (failWorkflowNodeBeforeLaunch (chain_at Queued Queued) ''a'' \<lparr> pf_failureCode = ''NO_ADAPTER'', pf_reason = ''gone'' \<rparr> t1)"
  by code_simp

lemma chain_recovers: "is_ok (recoverWorkflowExecution (chain_at Running Queued) (\<lambda>_. None) t1)"
  by code_simp

end
