(* ===== verification/Scenarios.thy ===== *)
theory Scenarios
  imports Samples
begin

text \<open>
  Sample executions with evidence: an approval, a context link, an output, a review by a person, a
  review by an agent in a bounded loop, and a gate that requires a check. Every operation is run by
  the simplifier on the code equations of the model.
\<close>

section \<open>Approving a step\<close>

definition approval_canvas :: canvas where
  "approval_canvas = canvas_with [node ''a'' agent, node ''b'' agent]
     [edge ''e'' ''a'' ''b'' (Execute \<lparr> exe_trigger = OnSuccess, exe_approval = ApproveHuman, exe_approvalGateNodeId = None \<rparr>)] []"

definition approval_waits :: runtime where
  "approval_waits = sample approval_canvas [node_run ''a'' Succeeded, node_run ''b'' Queued] [] no_evidence"

definition approval_of :: "approval_request \<Rightarrow> human_approval" where
  "approval_of q =
     \<lparr> hr_runId = hr_runId q, hr_targetId = hr_targetId q, hr_targetType = hr_targetType q,
       hr_targetAttempt = hr_targetAttempt q, hr_evidenceFingerprint = hr_evidenceFingerprint q,
       ap_approvalId = ''x'', ap_approvedBy = ''u'', ap_approvedAt = t1 \<rparr>"

lemma approval_runs:
  "is_ok (res_bind (getWorkflowHumanApprovalRequest approval_waits ''e'')
     (\<lambda>q. approveWorkflowHumanDecision approval_waits (approval_of q)))"
  by code_simp

section \<open>Resolving context\<close>

definition trusting :: evidence_verifier where
  "trusting = \<lparr> verifyContextResolution = (\<lambda>_. True), verifyOutputPublication = (\<lambda>_. True),
     verifyCheckResult = (\<lambda>_. True), verifyReviewerAssessment = (\<lambda>_. True) \<rparr>"

definition context_link :: context_config where
  "context_link = \<lparr> ctx_required = True, ctx_muted = False, ctx_attachmentIds = [''m'', ''n''] \<rparr>"

definition context_canvas :: canvas where
  "context_canvas = canvas_with [node ''a'' agent, node ''b'' agent] [edge ''e'' ''a'' ''b'' (Context context_link)] []"

definition resolution :: "string list \<Rightarrow> context_resolution" where
  "resolution ids =
     \<lparr> cr_edgeId = ''e'', cr_runId = ''r'', cr_sourceNodeId = ''a'', cr_targetNodeId = ''b'', cr_targetAttempt = 1,
       cr_attachmentIds = ids, cr_contentDigest = ''digest-of-m-n'', cr_verifiedAt = t1, cr_verifierId = ''v'' \<rparr>"

definition context_waits :: runtime where
  "context_waits = sample context_canvas [node_run ''a'' Succeeded, node_run ''b'' Queued] [] no_evidence"

definition context_reordered :: runtime where
  "context_reordered = sample context_canvas [node_run ''a'' Succeeded, node_run ''b'' Queued] []
     (no_evidence\<lparr> ev_contextResolutions := [(''e'', resolution [''n'', ''m''])] \<rparr>)"

lemma context_shape: "runtime_shape context_waits"
  unfolding context_waits_def by (rule sample_shape) code_simp+

lemma context_runs: "is_ok (recordWorkflowContextResolution context_waits (resolution [''m'', ''n'']) trusting)"
  by code_simp

section \<open>Publishing an output\<close>

definition output_canvas :: canvas where
  "output_canvas = canvas_with [node ''a'' agent, node ''b'' agent]
     [edge ''e'' ''a'' ''b'' (Output \<lparr> out_outputKind = OutDiff, out_required = True \<rparr>)] []"

definition output_waits :: runtime where
  "output_waits = sample output_canvas [node_run ''a'' Succeeded, node_run ''b'' Queued] [] no_evidence"

definition publication :: "string \<Rightarrow> output_publication" where
  "publication i =
     \<lparr> op_edgeId = i, op_runId = ''r'', op_producerNodeId = ''a'', op_producerAttempt = 1, op_outputKind = OutDiff,
       op_referenceIds = [''d''], op_contentDigest = ''digest-of-a'', op_verifiedAt = t0, op_verifierId = ''v'' \<rparr>"

lemma output_shape: "runtime_shape output_waits"
  unfolding output_waits_def by (rule sample_shape) code_simp+

lemma output_runs: "is_ok (publishWorkflowOutput output_waits (publication ''e'') trusting)"
  by code_simp

section \<open>A review by a person\<close>

definition diff_review :: node_data where
  "diff_review = DiffReviewNode
     \<lparr> df_reviewTarget = None, df_baseRef = None, df_headRef = None, df_worktreeId = None, df_files = [],
       df_viewMode = ViewSplit, df_showWhitespace = False, df_ignoreWhitespace = False, df_hunkDecisions = [],
       df_lineCommentIds = [], df_revisionRequest = None, df_approval = DiffPending \<rparr>"

definition human_canvas :: canvas where
  "human_canvas = canvas_with [node ''a'' agent, node ''h'' diff_review]
     [edge ''e'' ''a'' ''h'' (Review \<lparr> rev_reviewer = ReviewerHuman, rev_requireApproval = True, rev_structuredFindings = False \<rparr>)] []"

definition human_waits :: runtime where
  "human_waits = sample human_canvas [node_run ''a'' Succeeded, node_run ''h'' Queued] [] no_evidence"

definition decision_of :: "verdict \<Rightarrow> string option \<Rightarrow> approval_request \<Rightarrow> review_decision" where
  "decision_of v feedback q =
     \<lparr> hr_runId = hr_runId q, hr_targetId = hr_targetId q, hr_targetType = hr_targetType q,
       hr_targetAttempt = hr_targetAttempt q, hr_evidenceFingerprint = hr_evidenceFingerprint q,
       hd_decisionId = ''x'', hd_decision = v, hd_feedback = feedback, hd_decidedBy = ''u'', hd_decidedAt = t1 \<rparr>"

lemma human_shape: "runtime_shape human_waits"
  unfolding human_waits_def by (rule sample_shape) code_simp+

lemma human_runs:
  "is_ok (res_bind (getWorkflowHumanApprovalRequest human_waits ''e'')
     (\<lambda>q. recordWorkflowHumanReviewDecision human_waits (decision_of ChangesRequested (Some ''Fix it'') q)))"
  by code_simp

section \<open>A review by an agent, in a bounded loop\<close>

definition sample_loop :: revision_loop where
  "sample_loop =
     \<lparr> loop_id = ''l'', loop_implementationNodeId = ''a'', loop_reviewNodeId = ''b'', loop_reviewEdgeId = ''e'',
       loop_revisionEdgeId = ''v'', loop_maximumAttempts = 2, loop_stopConditions = [ReviewApproved, HumanAccepted],
       loop_escapeInstructions = ''Ask the maintainer'' \<rparr>"

definition loop_canvas :: canvas where
  "loop_canvas = canvas_with [node ''a'' agent, node ''b'' agent]
     [edge ''e'' ''a'' ''b'' (Review \<lparr> rev_reviewer = ReviewerAgent, rev_requireApproval = True, rev_structuredFindings = False \<rparr>),
      edge ''v'' ''b'' ''a'' (Revision (Some ''l''))] [sample_loop]"

definition sample_loop_state :: "int \<Rightarrow> loop_status \<Rightarrow> loop_state" where
  "sample_loop_state n s =
     \<lparr> ls_loopId = ''l'', ls_attemptsStarted = n, ls_status = s, ls_lastFeedback = None, ls_stopCondition = None,
       ls_eligibleAt = None \<rparr>"

definition assessment_with :: "verdict \<Rightarrow> reviewer_assessment" where
  "assessment_with v =
     \<lparr> ra_runId = ''r'', ra_reviewEdgeId = ''e'', ra_reviewerNodeId = ''b'', ra_reviewerAttempt = 1,
       ra_reviewedNodeId = ''a'', ra_reviewedNodeAttempt = 1, ra_reviewedOutputDigest = ''digest-of-a'',
       ra_verdict = v, ra_findings = [], ra_summary = None \<rparr>"

definition loop_at :: "run_status \<Rightarrow> int \<Rightarrow> loop_status \<Rightarrow> execution_evidence \<Rightarrow> runtime" where
  "loop_at s n ls ev = sample loop_canvas [node_run ''a'' Succeeded, node_run ''b'' s] [sample_loop_state n ls] ev"

definition approved_review :: execution_evidence where
  "approved_review = no_evidence\<lparr> ev_reviewerAssessments := [(''e'', assessment_with Approved)] \<rparr>"

lemma loop_checked: "checked loop_canvas"
  by code_simp

lemma loop_shape:
  assumes "fitting loop_canvas [node_run ''a'' Succeeded, node_run ''b'' s] [sample_loop_state n ls]"
  shows "runtime_shape (loop_at s n ls ev)"
  unfolding loop_at_def by (rule sample_shape [OF loop_checked assms])

lemma loop_at_bounded:
  assumes "1 \<le> n" "n \<le> 2" "ls = RevisionRequired \<longrightarrow> n < 2" "ls \<noteq> Satisfied"
  shows "loops_bounded (loop_at s n ls ev)"
  unfolding loops_bounded_def
proof (intro allI impI)
  fix i st
  assume "obj_get (wr_revisionLoops (rt_run (loop_at s n ls ev))) i = Some st"
  then have st: "i = ''l''" "st = sample_loop_state n ls"
    by (simp_all add: loop_at_def sample_def sample_run_def sample_loop_state_def split: if_splits)
  have "find_loop (loop_at s n ls ev) ''l'' = Some sample_loop"
    by (simp add: find_loop_def loop_at_def sample_def loop_canvas_def canvas_with_def sample_loop_def)
  moreover have "loop_inv sample_loop (sample_loop_state n ls)"
    using assms by (simp add: loop_inv_def sample_loop_def sample_loop_state_def)
  ultimately show "\<exists>l. find_loop (loop_at s n ls ev) i = Some l \<and> loop_inv l st" using st by blast
qed

definition review_waits :: runtime where
  "review_waits = loop_at WaitingForApproval 1 ReviewRequired no_evidence"

definition review_done :: runtime where
  "review_done = loop_at Succeeded 1 ReviewRequired approved_review"

definition rejected_review :: execution_evidence where
  "rejected_review = no_evidence\<lparr> ev_reviewerAssessments := [(''e'', assessment_with ChangesRequested)] \<rparr>"

definition revision_waits :: runtime where
  "revision_waits = loop_at Failed 1 RevisionRequired rejected_review"

definition loop_exhausted :: runtime where
  "loop_exhausted = loop_at Failed 2 WaitingHuman no_evidence"

lemma loop_shapes:
  "runtime_shape review_waits" "runtime_shape review_done" "runtime_shape revision_waits" "runtime_shape loop_exhausted"
  unfolding review_waits_def review_done_def revision_waits_def loop_exhausted_def
  by (rule loop_shape; code_simp)+

lemma loop_bounds:
  "loops_bounded review_done" "loops_bounded revision_waits" "loops_bounded loop_exhausted"
  unfolding review_done_def revision_waits_def loop_exhausted_def
  by (rule loop_at_bounded; simp)+

lemma review_runs: "is_ok (recordWorkflowReview review_waits ''e'' (assessment_with ChangesRequested) trusting)"
  by code_simp

lemma apply_runs: "is_ok (applyRevisionReview review_done ''l'' t1)"
  by code_simp

lemma queue_runs: "is_ok (queueRevisionAttempt revision_waits ''l'' t1)"
  by code_simp

lemma waiting_loop: "find_loop revision_waits ''l'' = Some sample_loop"
  by code_simp

lemma waiting_assessment: "ev_reviewerAssessments (rt_evidence revision_waits) = [(''e'', assessment_with ChangesRequested)]"
  by code_simp

definition escape_of :: "escape_decision \<Rightarrow> escape_request \<Rightarrow> escape_resolution" where
  "escape_of d q =
     \<lparr> er_runId = er_runId q, er_loopId = er_loopId q, er_attemptsStarted = er_attemptsStarted q,
       er_evidenceFingerprint = er_evidenceFingerprint q, es_decision = d, es_decidedBy = ''u'', es_decidedAt = t1 \<rparr>"

lemma escape_request_runs: "is_ok (getRevisionEscapeRequest loop_exhausted ''l'')"
  by code_simp

lemma exhausted_loop:
  "loop_and_state loop_exhausted ''l'' = Inr (sample_loop, sample_loop_state 2 WaitingHuman)"
  "run_of loop_exhausted ''b'' \<noteq> None"
  by code_simp+

lemma cancel_runs:
  "is_ok (cancel_escape loop_exhausted sample_loop (sample_loop_state 2 WaitingHuman) (escape_of EscapeCancel q))"
  by code_simp

lemma escape_runs:
  "\<exists>q rt'. getRevisionEscapeRequest loop_exhausted ''l'' = Inr q
     \<and> resolveRevisionEscape loop_exhausted (escape_of EscapeCancel q) = Inr rt'"
proof -
  obtain q where q: "getRevisionEscapeRequest loop_exhausted ''l'' = Inr q"
    using escape_request_runs by (auto simp: is_ok_iff)
  then have ok: "EscapeRequest_ok q" and id: "er_loopId q = ''l''"
    by (auto simp: getRevisionEscapeRequest_def res_bind_eq_Inr split: if_splits)
  have "EntityId_ok ''u''" "is_timestamp t1" by code_simp+
  with ok have x: "EscapeResolution_ok (escape_of EscapeCancel q)"
    by (simp add: EscapeResolution_ok_def EscapeRequest_ok_def escape_of_def)
  obtain r where "run_of loop_exhausted (loop_reviewNodeId sample_loop) = Some r"
    using exhausted_loop(2) by (auto simp: sample_loop_def)
  then have "resolveRevisionEscape loop_exhausted (escape_of EscapeCancel q)
      = cancel_escape loop_exhausted sample_loop (sample_loop_state 2 WaitingHuman) (escape_of EscapeCancel q)"
    using x q exhausted_loop(1) id
    by (simp add: resolveRevisionEscape_def EscapeResolutionSchema_parse_def) (simp add: escape_of_def)
  with q cancel_runs [of q] show ?thesis by (auto simp: is_ok_iff)
qed

section \<open>A gate with a required check\<close>

definition command :: command_spec where
  "command = \<lparr> cmd_executable = ''npm'', cmd_args = [''test''], cmd_cwdRelative = None, cmd_environmentNames = [] \<rparr>"

definition test_node :: node_data where
  "test_node = TestNode \<lparr> te_command = Some command, te_runIds = [''k''], te_summary = None, te_artifactIds = [],
     te_artifactPaths = None \<rparr>"

definition gate_data :: review_gate_data where
  "gate_data = \<lparr> rg_humanApprovalRequired = False, rg_requiredCheckIds = [''k''], rg_lintRequired = False,
     rg_testsRequired = True, rg_reviewerAgentId = None, rg_retryPolicy = \<lparr> maximumIterations = 2, backoffMs = 0 \<rparr>,
     rg_gateState = GatePending \<rparr>"

definition gate_canvas :: canvas where
  "gate_canvas = canvas_with [node ''a'' agent, node ''t'' test_node, node ''g'' (ReviewGateNode gate_data)]
     [edge ''o'' ''a'' ''t'' (Output \<lparr> out_outputKind = OutDiff, out_required = True \<rparr>),
      edge ''e'' ''a'' ''g'' (Review \<lparr> rev_reviewer = ReviewerGate, rev_requireApproval = True, rev_structuredFindings = False \<rparr>)] []"

definition passed_check :: check_result where
  "passed_check =
     \<lparr> ck_id = ''k'', ck_runId = ''r'', ck_producerNodeId = Some ''t'', ck_producerAttempt = Some 1,
       ck_reviewedNodeId = Some ''a'', ck_reviewedNodeAttempt = Some 1, ck_reviewedOutputDigest = Some ''digest-of-a'',
       ck_kind = TestCheck, ck_command = command, ck_status = CheckPassed, ck_exitCode = Some 0,
       ck_startedAt = None, ck_endedAt = None, ck_rawOutputArtifactId = None, ck_summary = None \<rparr>"

definition gate_at :: "(string \<times> check_result list) list \<Rightarrow> runtime" where
  "gate_at checks = sample gate_canvas [node_run ''a'' Succeeded, node_run ''t'' Succeeded, node_run ''g'' Queued] []
     (no_evidence\<lparr> ev_outputPublications := [(''o'', publication ''o'')], ev_gateChecks := checks \<rparr>)"

lemma gate_shape: "runtime_shape (gate_at checks)"
  unfolding gate_at_def by (rule sample_shape) code_simp+

lemma checks_run: "is_ok (recordWorkflowGateChecks (gate_at []) ''g'' [passed_check] trusting)"
  by code_simp

lemma gate_passes:
  "case reviewGateEvaluation (gate_at [(''g'', [passed_check])]) ''g'' of Inl _ \<Rightarrow> False | Inr v \<Rightarrow> ge_status v = GatePass"
  by code_simp

section \<open>A whole revision round\<close>

text \<open>
  From the created runtime: the implementation runs and leaves an output, the reviewer runs and
  requests changes, the loop applies the review and requeues both.
\<close>

definition loop_created :: "runtime res" where
  "loop_created = createWorkflowExecutionRuntime loop_canvas ''p'' ''r'' WorkflowScope t0 None"

definition left_digest :: string where
  "left_digest = ''sha256:'' @ replicate 64 (CHR ''a'')"

definition left_output :: node_completion_output where
  "left_output =
     \<lparr> nc_runId = ''r'', nc_nodeId = ''a'', nc_nodeAttempt = 1, nc_contentDigest = left_digest, nc_sourceRunId = ''s'',
       nc_worktreePath = ''/w'', nc_artifactContent = ''diff'', nc_verifiedAt = t1, nc_verifierId = ''v'' \<rparr>"

definition revision_round :: "action list" where
  "revision_round =
     [Start ''a'' internal t1, Complete ''a'' CompletedSucceeded t1, StoreOutput ''a'' left_output,
      Start ''b'' internal t1, Complete ''b'' CompletedSucceeded t1,
      RecordReview ''e'' ((assessment_with ChangesRequested)\<lparr> ra_reviewedOutputDigest := left_digest \<rparr>) trusting, ApplyReview ''l'' t2, QueueAttempt ''l'' t2]"

lemma revision_round_runs:
  "case loop_created of Inl _ \<Rightarrow> False
   | Inr rt0 \<Rightarrow> no_parallel_edges rt0 \<and> (case performs revision_round rt0 of Inl _ \<Rightarrow> False | Inr rt \<Rightarrow> fits_storage rt)"
  by code_simp

section \<open>Two edges between the same nodes\<close>

definition execute_edge :: "string \<Rightarrow> canvas_edge" where
  "execute_edge i = edge i ''a'' ''b''
     (Execute \<lparr> exe_trigger = OnSuccess, exe_approval = ApproveNone, exe_approvalGateNodeId = None \<rparr>)"

definition output_edge :: canvas_edge where
  "output_edge = edge ''o'' ''a'' ''b'' (Output \<lparr> out_outputKind = OutDiff, out_required = True \<rparr>)"

definition parallel :: canvas where
  "parallel = canvas_with [node ''a'' agent, node ''b'' agent] [execute_edge ''e'', output_edge] []"

lemma parallel_creates:
  "case createWorkflowExecutionRuntime parallel ''p'' ''r'' WorkflowScope t0 None of Inl _ \<Rightarrow> False
   | Inr rt \<Rightarrow> ''a'' \<in> set (pl_nodeIds (rt_plan rt)) \<and> ''b'' \<in> set (pl_nodeIds (rt_plan rt))"
  by code_simp

end
