(* ===== verification/Witnesses.thy ===== *)
theory Witnesses
  imports Scenarios
begin

text \<open>
  Every property that has hypotheses, applied to a sample on which they hold: the operation runs on
  the sample, and the property gives the stated conclusion there.
\<close>

section \<open>Node runs, workflow runs and revision loops\<close>

theorem node_run_steps_sound_witness:
  "\<exists>r'. node_step (node_run ''a'' Queued) r' \<and> nr_attempt (node_run ''a'' Queued) \<le> nr_attempt r'"
proof -
  have "is_ok (transitionNodeRun (node_run ''a'' Queued) (start_transition internal t1))" by code_simp
  then obtain r' where "node_step (node_run ''a'' Queued) r'" by (auto simp: is_ok_iff intro: node_step)
  with node_run_steps_sound [OF r_into_rtranclp [of node_step, OF this]] show ?thesis by blast
qed

lemma chain_run:
  "WorkflowRun_ok (rt_run (chain_at Running Queued))" "obj_ok (node_runs (chain_at Running Queued))" "is_timestamp t1"
proof -
  show "WorkflowRun_ok (rt_run (chain_at Running Queued))" "obj_ok (node_runs (chain_at Running Queued))"
    using chain_at_shape [of Running] by (simp_all add: runtime_shape_def)
  show "is_timestamp t1" by code_simp
qed

theorem revision_loop_bounded_witness:
  "\<exists>s. run_loop sample_loop (createRevisionLoopState sample_loop) [ReviewFailed ''x'', RevisionCompleted] = Inr s
     \<and> ls_attemptsStarted s = 2"
proof -
  have max: "1 \<le> loop_maximumAttempts sample_loop" by (simp add: sample_loop_def)
  have "is_ok (run_loop sample_loop (createRevisionLoopState sample_loop) [ReviewFailed ''x'', RevisionCompleted])"
    by code_simp
  then obtain s where s: "run_loop sample_loop (createRevisionLoopState sample_loop) [ReviewFailed ''x'', RevisionCompleted] = Inr s"
    by (auto simp: is_ok_iff)
  from revision_loop_bounded [OF max s] have "ls_attemptsStarted s = 2" by (simp add: restarts_def)
  with s show ?thesis by blast
qed

section \<open>Gates, order, validation and planning\<close>

definition gate_view :: gate_evidence where
  "gate_view = \<lparr> gv_checks = [passed_check], gv_reviewerAssessment = None, gv_humanApproved = False \<rparr>"

theorem evaluateReviewGate_correct_witness:
  "\<exists>e. evaluateReviewGate gate_data gate_view = Inr e
     \<and> (ge_status e = GatePass \<longleftrightarrow> checks_satisfied gate_data (gv_checks gate_view)
          \<and> reviewer_satisfied gate_data (gv_reviewerAssessment gate_view)
          \<and> human_satisfied gate_data (gv_humanApproved gate_view))"
proof -
  have d: "distinct (map ck_id (gv_checks gate_view))" by (simp add: gate_view_def)
  have "is_ok (evaluateReviewGate gate_data gate_view)" by code_simp
  then obtain e where e: "evaluateReviewGate gate_data gate_view = Inr e" by (auto simp: is_ok_iff)
  show ?thesis using evaluateReviewGate_correct [OF d e] e by blast
qed

theorem deterministicTopologicalOrder_permutation_witness:
  "deterministicTopologicalOrder [''a'', ''b''] [] = deterministicTopologicalOrder [''b'', ''a''] []"
  by (rule deterministicTopologicalOrder_permutation) simp_all

theorem validateWorkflow_correct_witness:
  "\<exists>r. validateWorkflow chain = Inr r \<and> (vr_valid r \<longleftrightarrow> wellformed_canvas chain)"
  using validateWorkflow_correct [OF checkedD(1) [OF chain_checked]] by blast

definition whole_plan :: plan_options where
  "whole_plan = \<lparr> po_planId = ''p'', po_targetNodeIds = None, po_includeUpstream = None \<rparr>"

lemma chain_plans: "is_ok (planWorkflow chain whole_plan)"
  by code_simp

lemma chain_scopes: "is_ok (planWorkflowScope chain ''p'' WorkflowScope None)"
  by code_simp

theorem planWorkflow_sound_witness:
  "\<exists>p. planWorkflow chain whole_plan = Inr p \<and> distinct (pl_nodeIds p)"
proof -
  obtain p where p: "planWorkflow chain whole_plan = Inr p" using chain_plans by (auto simp: is_ok_iff)
  show ?thesis using planWorkflow_sound [OF p] p by blast
qed

theorem planWorkflowScope_sound_witness:
  "\<exists>p. planWorkflowScope chain ''p'' WorkflowScope None = Inr p \<and> mandatory_closed chain (set (pl_nodeIds p))"
proof -
  obtain p where p: "planWorkflowScope chain ''p'' WorkflowScope None = Inr p" using chain_scopes by (auto simp: is_ok_iff)
  from planWorkflowScope_sound [OF p] have "mandatory_closed chain (set (pl_nodeIds p))" by (elim exE conjE)
  with p show ?thesis by blast
qed

lemma chain_configured: "configured chain" "EntityId_ok ''p''"
proof -
  have "node_configuration_issues (node i agent) = []" for i
    by (simp add: node_configuration_issues_def node_def agent_def issue_if_def need_def)
  then show "configured chain" by (simp add: configured_def chain_def canvas_with_def)
  show "EntityId_ok ''p''" by code_simp
qed

theorem planWorkflowScope_total_witness:
  "is_ok (planWorkflowScope chain ''p'' (NodeScope ''b'' None) None) \<longleftrightarrow>
    (\<exists>targets up. scopeTargets chain (NodeScope ''b'' None) None = Inr (targets, up)
       \<and> (case targets of None \<Rightarrow> True | Some ts \<Rightarrow> set ts \<subseteq> node_id ` set (canvas_nodes chain)))"
  by (rule planWorkflowScope_total [OF checkedD [OF chain_checked] chain_configured])

lemma chain_creates: "is_ok (createWorkflowExecutionRuntime chain ''p'' ''r'' WorkflowScope t0 None)"
  by code_simp

theorem createWorkflowExecutionRuntime_correct_witness:
  "\<exists>rt. createWorkflowExecutionRuntime chain ''p'' ''r'' WorkflowScope t0 None = Inr rt \<and> initial_runtime rt t0"
proof -
  obtain rt where rt: "createWorkflowExecutionRuntime chain ''p'' ''r'' WorkflowScope t0 None = Inr rt"
    using chain_creates by (auto simp: is_ok_iff)
  show ?thesis
    using createWorkflowExecutionRuntime_correct [of chain "''p''" "''r''" WorkflowScope t0 None] rt by blast
qed

section \<open>Scheduling\<close>

lemma chain_ready: "runtime_shape (chain_at Queued Queued)" "runtime_shape (chain_at Running Queued)"
  "runtime_shape (chain_at Failed Queued)" "runtime_shape (chain_at Succeeded Queued)"
  by (rule chain_at_shape; simp)+

lemma chain_capacity: "capacity (chain_at Queued Queued)"
  by code_simp

theorem canvasNodeStatus_effective_witness:
  "\<exists>r. run_of (chain_at Succeeded Queued) ''a'' = Some r \<and> is_ok (canvasNodeStatus (chain_at Succeeded Queued) ''a'')"
proof -
  have "''a'' \<in> set (pl_nodeIds (rt_plan (chain_at Succeeded Queued)))"
    by (simp add: chain_at_def sample_def chain_def canvas_with_def node_def)
  from canvasNodeStatus_effective [OF chain_ready(4) this] show ?thesis by (auto simp: is_ok_iff)
qed

theorem ready_iff_released_witness:
  "node_ready (chain_at Queued Queued) ''a'' \<longleftrightarrow>
     is_pending (chain_at Queued Queued) ''a'' \<and> \<not> rt_cancellationRequested (chain_at Queued Queued)
     \<and> \<not> isTerminalRunStatus (wr_status (rt_run (chain_at Queued Queued)))
     \<and> (\<forall>e \<in> set (incoming_edges (chain_at Queued Queued) ''a''). released (chain_at Queued Queued) e)
     \<and> may_start (chain_at Queued Queued) ''a''"
  by (rule ready_iff_released [OF chain_ready(1)])

theorem settleBlockedWorkflowNodes_correct_witness:
  "\<exists>rt' n. settleBlockedWorkflowNodes (chain_at Failed Queued) t1 = Inr rt'
     \<and> settles_in_rounds t1 n (chain_at Failed Queued) rt' \<and> n \<le> card (pending_keys (chain_at Failed Queued))"
proof -
  obtain rt' where rt': "settleBlockedWorkflowNodes (chain_at Failed Queued) t1 = Inr rt'"
    using chain_settles by (auto simp: is_ok_iff)
  show ?thesis using settleBlockedWorkflowNodes_correct [OF chain_ready(3) rt'] rt' by blast
qed

theorem getSchedulingSnapshot_correct_witness:
  "\<exists>s. getSchedulingSnapshot (chain_at Queued Queued) = Inr s
     \<and> fits_limits (chain_at Queued Queued) (active_ids (chain_at Queued Queued) @ ss_runnableNodeIds s)"
proof -
  obtain s where s: "getSchedulingSnapshot (chain_at Queued Queued) = Inr s"
    using chain_snapshot by (auto simp: is_ok_iff)
  show ?thesis using getSchedulingSnapshot_correct [OF chain_ready(1) chain_capacity s] s by blast
qed

theorem startWorkflowNode_correct_witness:
  "\<exists>rt'. startWorkflowNode (chain_at Queued Queued) ''a'' internal t1 = Inr rt' \<and> node_ready (chain_at Queued Queued) ''a''"
proof -
  obtain rt' where rt': "startWorkflowNode (chain_at Queued Queued) ''a'' internal t1 = Inr rt'"
    using chain_starts by (auto simp: is_ok_iff)
  show ?thesis using startWorkflowNode_correct [OF chain_ready(1) rt'] rt' by blast
qed

theorem failWorkflowNodeBeforeLaunch_correct_witness:
  "\<exists>rt'. failWorkflowNodeBeforeLaunch (chain_at Queued Queued) ''a'' \<lparr> pf_failureCode = ''NO_ADAPTER'', pf_reason = ''gone'' \<rparr> t1 = Inr rt'
     \<and> others_settled (chain_at Queued Queued) ''a'' rt'"
proof -
  obtain rt' where rt': "failWorkflowNodeBeforeLaunch (chain_at Queued Queued) ''a''
      \<lparr> pf_failureCode = ''NO_ADAPTER'', pf_reason = ''gone'' \<rparr> t1 = Inr rt'"
    using chain_prelaunch by (auto simp: is_ok_iff)
  show ?thesis using failWorkflowNodeBeforeLaunch_correct [OF chain_ready(1) rt'] rt' by blast
qed

theorem completeWorkflowNode_correct_witness:
  "\<exists>rt'. completeWorkflowNode (chain_at Running Queued) ''a'' CompletedSucceeded t1 = Inr rt'
     \<and> completion_settled (chain_at Running Queued) ''a'' CompletedSucceeded t1 rt'"
proof -
  obtain rt' where rt': "completeWorkflowNode (chain_at Running Queued) ''a'' CompletedSucceeded t1 = Inr rt'"
    using chain_completes by (auto simp: is_ok_iff)
  show ?thesis using completeWorkflowNode_correct [OF chain_ready(2) rt'] rt' by blast
qed

theorem cancelWorkflowExecution_total_witness:
  "\<exists>rt'. cancelWorkflowExecution (chain_at Running Queued) t1 = Inr rt' \<and> rt_cancellationRequested rt'"
  using cancelWorkflowExecution_total [OF chain_ready(2) chain_run(3)] by blast

theorem recoverWorkflowExecution_correct_witness:
  "\<exists>rt' lost. recoverWorkflowExecution (chain_at Running Queued) (\<lambda>_. None) t1 = Inr (rt', lost)
     \<and> evolves (chain_at Running Queued) rt'"
proof -
  obtain x where "recoverWorkflowExecution (chain_at Running Queued) (\<lambda>_. None) t1 = Inr x"
    using chain_recovers by (auto simp: is_ok_iff)
  then obtain rt' lost where rt': "recoverWorkflowExecution (chain_at Running Queued) (\<lambda>_. None) t1 = Inr (rt', lost)"
    by (cases x) simp
  show ?thesis using recoverWorkflowExecution_correct [OF chain_ready(2) chain_run(3) rt'] rt' by blast
qed

section \<open>Evidence\<close>

theorem approveWorkflowHumanDecision_correct_witness:
  "\<exists>a rt'. approveWorkflowHumanDecision approval_waits a = Inr rt' \<and> hasCurrentHumanApproval rt' (hr_targetId a)"
proof -
  obtain a rt' where ok: "approveWorkflowHumanDecision approval_waits a = Inr rt'"
    using approval_runs by (auto simp: is_ok_iff res_bind_eq_Inr)
  show ?thesis using approveWorkflowHumanDecision_correct [OF ok] ok by blast
qed

theorem recordWorkflowContextResolution_releases_witness:
  "\<exists>rt'. recordWorkflowContextResolution context_waits (resolution [''m'', ''n'']) trusting = Inr rt'
     \<and> verifyContextResolution trusting (resolution [''m'', ''n''])"
proof -
  obtain rt' where rt': "recordWorkflowContextResolution context_waits (resolution [''m'', ''n'']) trusting = Inr rt'"
    using context_runs by (auto simp: is_ok_iff)
  show ?thesis using recordWorkflowContextResolution_releases [OF context_shape rt'] rt' by blast
qed

theorem context_order_mismatch_witness:
  "\<exists>e. context_attachment_of context_reordered e context_link
     = Inl (Error (''This context link is out of date for the current attempt: '' @ edge_id e))"
proof -
  define e where "e = edge ''e'' ''a'' ''b'' (Context context_link)"
  have e: "edge_config e = Context context_link" "ctx_attachmentIds context_link \<noteq> []"
    by (simp_all add: e_def edge_def context_link_def)
  have run: "is_planned context_reordered e" "is_ok (canvasNodeStatus context_reordered (edge_sourceNodeId e))"
    "obj_get (ev_contextResolutions (rt_evidence context_reordered)) (edge_id e) = Some (resolution [''n'', ''m''])"
    "resolution_current context_reordered e (resolution [''n'', ''m''])"
    unfolding e_def by code_simp+
  have "set (cr_attachmentIds (resolution [''n'', ''m''])) = set (ctx_attachmentIds context_link)"
    "cr_attachmentIds (resolution [''n'', ''m'']) \<noteq> ctx_attachmentIds context_link"
    by (auto simp: resolution_def context_link_def)
  from context_order_mismatch [OF e(1) run(1) e(2) run(2-4) this] show ?thesis by blast
qed

theorem publishWorkflowOutput_releases_witness:
  "\<exists>rt'. publishWorkflowOutput output_waits (publication ''e'') trusting = Inr rt'
     \<and> verifyOutputPublication trusting (publication ''e'')"
proof -
  obtain rt' where rt': "publishWorkflowOutput output_waits (publication ''e'') trusting = Inr rt'"
    using output_runs by (auto simp: is_ok_iff)
  show ?thesis using publishWorkflowOutput_releases [OF output_shape rt'] rt' by blast
qed

theorem recordWorkflowHumanReviewDecision_correct_witness:
  "\<exists>d rt'. recordWorkflowHumanReviewDecision human_waits d = Inr rt' \<and> hd_decision d = ChangesRequested
     \<and> obj_get (ev_humanReviewDecisions (rt_evidence rt')) (hr_targetId d) = Some d"
proof -
  obtain q rt' where ok: "recordWorkflowHumanReviewDecision human_waits (decision_of ChangesRequested (Some ''Fix it'') q) = Inr rt'"
    using human_runs by (auto simp: is_ok_iff res_bind_eq_Inr)
  have "hd_decision (decision_of ChangesRequested (Some ''Fix it'') q) = ChangesRequested" by (simp add: decision_of_def)
  with recordWorkflowHumanReviewDecision_correct [OF human_shape ok] ok show ?thesis by blast
qed

theorem long_feedback_rejected_witness:
  "\<exists>d. ReviewDecision_ok d \<and> recordWorkflowHumanReviewDecision human_waits d = Inl (ZodError ''NodeRunStateSchema'')"
proof -
  obtain q where q: "getWorkflowHumanApprovalRequest human_waits ''e'' = Inr q"
    and ok: "is_ok (recordWorkflowHumanReviewDecision human_waits (decision_of ChangesRequested (Some ''Fix it'') q))"
    using human_runs by (auto simp: is_ok_iff res_bind_eq_Inr)
  define f where "f = replicate 20001 (CHR ''x'')"
  define d where "d = decision_of ChangesRequested (Some f) q"
  have id: "hr_targetId q = ''e''"
    using approvalRequestUnchecked_id [OF getWorkflowHumanApprovalRequest_Inr(1) [OF q]] by simp
  then have target: "hr_targetId (decision_of ChangesRequested (Some ''Fix it'') q) = ''e''" by (simp add: decision_of_def)
  obtain rt' where rt': "recordWorkflowHumanReviewDecision human_waits (decision_of ChangesRequested (Some ''Fix it'') q) = Inr rt'"
    using ok by (auto simp: is_ok_iff)
  then have shorter: "ReviewDecision_ok (decision_of ChangesRequested (Some ''Fix it'') q)" "hr_targetType q = HumanReviewTarget"
    unfolding recordWorkflowHumanReviewDecision_def using q target by (auto simp: res_bind_eq_Inr split: if_splits)
  have d: "ReviewDecision_ok d" "hd_decision d = ChangesRequested" "hd_feedback d = Some f" "20000 < length f"
    using shorter(1) by (simp_all add: d_def f_def decision_of_def ReviewDecision_ok_def ApprovalRequest_ok_def
        len_between_def opt_ok_def)
  have q': "getWorkflowHumanApprovalRequest human_waits (hr_targetId d) = Inr q" "hr_runId d = hr_runId q"
    "hr_targetAttempt d = hr_targetAttempt q" "hr_evidenceFingerprint d = hr_evidenceFingerprint q"
    using q id by (simp_all add: d_def decision_of_def)
  have e: "find_edge human_waits (hr_targetId d) = Some (edge ''e'' ''a'' ''h''
      (Review \<lparr> rev_reviewer = ReviewerHuman, rev_requireApproval = True, rev_structuredFindings = False \<rparr>))"
    using id by (simp add: d_def decision_of_def find_edge_def human_waits_def sample_def human_canvas_def canvas_with_def edge_def)
  have "is_human_review_edge (edge ''e'' ''a'' ''h''
      (Review \<lparr> rev_reviewer = ReviewerHuman, rev_requireApproval = True, rev_structuredFindings = False \<rparr>))"
    "is_pending human_waits (edge_targetNodeId (edge ''e'' ''a'' ''h''
      (Review \<lparr> rev_reviewer = ReviewerHuman, rev_requireApproval = True, rev_structuredFindings = False \<rparr>)))"
    by code_simp+
  from long_feedback_rejected [OF d q'(1) shorter(2) q'(2-4) e this] d(1) show ?thesis by blast
qed

theorem recordWorkflowReview_correct_witness:
  "\<exists>rt'. recordWorkflowReview review_waits ''e'' (assessment_with ChangesRequested) trusting = Inr rt'
     \<and> evolves review_waits rt'"
proof -
  obtain rt' where rt': "recordWorkflowReview review_waits ''e'' (assessment_with ChangesRequested) trusting = Inr rt'"
    using review_runs by (auto simp: is_ok_iff)
  show ?thesis using recordWorkflowReview_correct [OF loop_shapes(1) rt'] rt' by blast
qed

lemma assessment_is_current:
  "case currentReviewerAssessmentForEdge review_done (edge ''e'' ''a'' ''b''
       (Review \<lparr> rev_reviewer = ReviewerAgent, rev_requireApproval = True, rev_structuredFindings = False \<rparr>))
   of Inr (Some _) \<Rightarrow> True | _ \<Rightarrow> False"
  by code_simp

theorem currentReviewerAssessment_current_witness:
  "\<exists>e a. currentReviewerAssessmentForEdge review_done e = Inr (Some a)
     \<and> obj_get (ev_reviewerAssessments (rt_evidence review_done)) (edge_id e) = Some a"
proof -
  obtain e a where a: "currentReviewerAssessmentForEdge review_done e = Inr (Some a)"
    using assessment_is_current by (auto split: sum.splits option.splits)
  show ?thesis using currentReviewerAssessment_current [OF a] a by blast
qed

theorem recordWorkflowGateChecks_roundtrip_witness:
  "\<exists>rt'. recordWorkflowGateChecks (gate_at []) ''g'' [passed_check] trusting = Inr rt'
     \<and> currentGateChecks rt' ''g'' = Inr [passed_check]"
proof -
  obtain rt' where rt': "recordWorkflowGateChecks (gate_at []) ''g'' [passed_check] trusting = Inr rt'"
    using checks_run by (auto simp: is_ok_iff)
  have valid: "valid_publications (gate_at [])" by code_simp
  show ?thesis using recordWorkflowGateChecks_roundtrip [OF gate_shape valid rt'] rt' by blast
qed

theorem passed_gate_rests_on_current_evidence_witness:
  "\<exists>v g. reviewGateEvaluation (gate_at [(''g'', [passed_check])]) ''g'' = Inr v \<and> ge_status v = GatePass
     \<and> gate_data_of (gate_at [(''g'', [passed_check])]) ''g'' = Inr g"
proof -
  obtain v where v: "reviewGateEvaluation (gate_at [(''g'', [passed_check])]) ''g'' = Inr v" "ge_status v = GatePass"
    using gate_passes by (auto split: sum.splits)
  have "stored_checks (gate_at [(''g'', [passed_check])]) ''g'' = [passed_check]"
    by (simp add: stored_checks_def gate_at_def sample_def)
  then have d: "distinct (map ck_id (stored_checks (gate_at [(''g'', [passed_check])]) ''g''))" by simp
  show ?thesis using passed_gate_rests_on_current_evidence [OF v d] v by blast
qed

section \<open>Revisions\<close>

theorem applyRevisionReview_correct_witness:
  "\<exists>res. applyRevisionReview review_done ''l'' t1 = Inr res \<and> loops_bounded (rv_runtime res)"
proof -
  obtain res where res: "applyRevisionReview review_done ''l'' t1 = Inr res" using apply_runs by (auto simp: is_ok_iff)
  show ?thesis using applyRevisionReview_correct [OF loop_shapes(2) loop_bounds(1) res] res by blast
qed

theorem queueRevisionAttempt_correct_witness:
  "\<exists>rt' r. queueRevisionAttempt revision_waits ''l'' t1 = Inr rt' \<and> run_of rt' ''b'' = Some r \<and> nr_status r = Queued
     \<and> ev_reviewerAssessments (rt_evidence revision_waits) \<noteq> [] \<and> ev_reviewerAssessments (rt_evidence rt') = []"
proof -
  obtain rt' where rt': "queueRevisionAttempt revision_waits ''l'' t1 = Inr rt'" using queue_runs by (auto simp: is_ok_iff)
  from queueRevisionAttempt_correct [OF loop_bounds(2) rt'] waiting_loop
  have queued: "\<forall>j \<in> attempt_nodes revision_waits sample_loop. \<exists>r r'. run_of revision_waits j = Some r \<and> run_of rt' j = Some r'
      \<and> requeued r r'"
    and fresh: "fresh_evidence revision_waits sample_loop (attempt_nodes revision_waits sample_loop) (rt_evidence rt')"
    by auto
  have "''b'' \<in> attempt_nodes revision_waits sample_loop" by (simp add: attempt_nodes_def sample_loop_def)
  with queued obtain r where r: "run_of rt' ''b'' = Some r" "nr_status r = Queued" by (auto simp: requeued_def)
  have "set (ev_reviewerAssessments (rt_evidence rt')) = {}"
    using fresh waiting_assessment by (auto simp: fresh_evidence_def Let_def sample_loop_def)
  with rt' r waiting_assessment show ?thesis by simp
qed

theorem resolveRevisionEscape_correct_witness:
  "\<exists>x rt'. resolveRevisionEscape loop_exhausted x = Inr rt' \<and> evolves loop_exhausted rt' \<and> starts_nothing loop_exhausted rt'"
proof -
  obtain q rt' where ok: "resolveRevisionEscape loop_exhausted (escape_of EscapeCancel q) = Inr rt'"
    using escape_runs by blast
  show ?thesis using resolveRevisionEscape_correct [OF loop_shapes(4) ok] ok by blast
qed

section \<open>Stored runtimes and executions\<close>

theorem parseWorkflowExecutionRuntime_correct_witness:
  "parseWorkflowExecutionRuntime (chain_at Running Queued) =
    (if persisted_shape (chain_at Running Queued) \<and> storable (chain_at Running Queued)
        \<and> fits_storage (chain_at Running Queued)
     then Inr (chain_at Running Queued) else Inl (ZodError ''WorkflowExecutionRuntimeSchema''))"
proof (rule parseWorkflowExecutionRuntime_correct)
  show "plain_objects (chain_at Running Queued)" by code_simp
qed

lemma loop_round:
  "\<exists>rt0 rt. createWorkflowExecutionRuntime loop_canvas ''p'' ''r'' WorkflowScope t0 None = Inr rt0
     \<and> no_parallel_edges rt0 \<and> execution rt0 revision_round rt \<and> fits_storage rt"
  using revision_round_runs by (auto simp: loop_created_def execution_performs split: sum.splits)

theorem created_runtime_readable_iff_witness:
  "\<exists>rt. createWorkflowExecutionRuntime chain ''p'' ''r'' WorkflowScope t0 None = Inr rt
     \<and> parseWorkflowExecutionRuntime rt = Inr rt"
proof -
  have "case createWorkflowExecutionRuntime chain ''p'' ''r'' WorkflowScope t0 None of Inl _ \<Rightarrow> False
    | Inr rt \<Rightarrow> fits_storage rt \<and> no_parallel_edges rt" by code_simp
  then obtain rt where rt: "createWorkflowExecutionRuntime chain ''p'' ''r'' WorkflowScope t0 None = Inr rt"
    "fits_storage rt" "no_parallel_edges rt" by (auto split: sum.splits)
  from created_runtime_readable_iff [OF rt(1,2)] rt show ?thesis by blast
qed

theorem parallel_edges_unreadable_witness:
  "\<exists>rt. createWorkflowExecutionRuntime parallel ''p'' ''r'' WorkflowScope t0 None = Inr rt
     \<and> parseWorkflowExecutionRuntime rt = Inl (ZodError ''WorkflowExecutionRuntimeSchema'')"
proof -
  obtain rt where rt: "createWorkflowExecutionRuntime parallel ''p'' ''r'' WorkflowScope t0 None = Inr rt"
    "''a'' \<in> set (pl_nodeIds (rt_plan rt))" "''b'' \<in> set (pl_nodeIds (rt_plan rt))"
    using parallel_creates by (auto split: sum.splits)
  have "parseWorkflowExecutionRuntime rt = Inl (ZodError ''WorkflowExecutionRuntimeSchema'')"
    by (rule parallel_edges_unreadable [OF rt(1), of "execute_edge ''e''" output_edge])
      (use rt(2,3) in \<open>simp_all add: parallel_def canvas_with_def execute_edge_def output_edge_def edge_def scheduling_edge_def\<close>)
  with rt show ?thesis by blast
qed

theorem execution_invariant_witness:
  "\<exists>rt0 rt. execution rt0 revision_round rt \<and> runtime_shape rt \<and> capacity rt \<and> loops_bounded rt"
proof -
  obtain rt0 rt where ok: "createWorkflowExecutionRuntime loop_canvas ''p'' ''r'' WorkflowScope t0 None = Inr rt0"
    "execution rt0 revision_round rt" using loop_round by blast
  from execution_invariant [OF ok] ok show ?thesis by blast
qed

theorem execution_revisions_bounded_witness:
  "\<exists>rt0. createWorkflowExecutionRuntime loop_canvas ''p'' ''r'' WorkflowScope t0 None = Inr rt0
     \<and> 1 \<le> allowed_attempts rt0 - int (card (set (pl_revisionLoopIds (rt_plan rt0))))"
proof -
  obtain rt0 rt where ok: "createWorkflowExecutionRuntime loop_canvas ''p'' ''r'' WorkflowScope t0 None = Inr rt0"
    "execution rt0 revision_round rt" using loop_round by blast
  have "sum_list (map restart_cost revision_round) = 1" by (simp add: revision_round_def restart_cost_def)
  with execution_revisions_bounded [OF ok] ok show ?thesis by auto
qed

theorem execution_readable_witness:
  "\<exists>rt0 rt. execution rt0 revision_round rt \<and> parseWorkflowExecutionRuntime rt = Inr rt"
proof -
  obtain rt0 rt where ok: "createWorkflowExecutionRuntime loop_canvas ''p'' ''r'' WorkflowScope t0 None = Inr rt0"
    "no_parallel_edges rt0" "execution rt0 revision_round rt" "fits_storage rt" using loop_round by blast
  from execution_readable [OF ok] ok show ?thesis by blast
qed

end
