(* ===== verification/Js_Text.thy ===== *)
theory Js_Text
  imports Js_Values
begin

text \<open>
  Strings as lists of UTF-16 code units, for the code that reads the output of git: file names there are
  arbitrary. The theory holds the string operations the parsers use and the UTF-8 conversions of
  \<open>Buffer.from\<close> and \<open>toString('utf8')\<close>, malformed input included.
\<close>

type_synonym utf16 = "nat list"

text \<open>A string literal of the source.\<close>

definition js :: "string \<Rightarrow> utf16" where
  "js s = map of_char s"

lemma js_inject: "js s = js t \<longleftrightarrow> s = t"
proof -
  have "inj (of_char :: char \<Rightarrow> nat)" by (rule inj_of_char)
  then show ?thesis by (simp add: js_def inj_map_eq_map)
qed

section \<open>String operations\<close>

definition starts_with :: "utf16 \<Rightarrow> utf16 \<Rightarrow> bool" where
  "starts_with p s = (take (length p) s = p)"

lemma starts_with_iff: "starts_with p s \<longleftrightarrow> (\<exists>r. s = p @ r)"
  by (metis append_eq_conv_conj append_take_drop_id starts_with_def)

lemma starts_with_append [simp]: "starts_with p (p @ r)"
  by (simp add: starts_with_def)

lemma starts_with_Cons [simp]: "starts_with (p # ps) (x # xs) \<longleftrightarrow> p = x \<and> starts_with ps xs"
  "\<not> starts_with (p # ps) []" "starts_with [] xs"
  by (auto simp: starts_with_def)

text \<open>\<open>split\<close> at a single code unit; there is always at least one piece.\<close>

fun split_on :: "nat \<Rightarrow> utf16 \<Rightarrow> utf16 list" where
  "split_on c [] = [[]]"
| "split_on c (x # xs) =
     (if x = c then [] # split_on c xs
      else case split_on c xs of [] \<Rightarrow> [[x]] | piece # pieces \<Rightarrow> (x # piece) # pieces)"

lemma split_on_not_Nil [simp]: "split_on c s \<noteq> []"
  by (cases s) (simp_all split: list.splits)

lemma split_on_pieces: "piece \<in> set (split_on c s) \<Longrightarrow> c \<notin> set piece"
proof (induction s arbitrary: piece)
  case (Cons x xs)
  then show ?case by (auto split: if_splits list.splits)
qed simp

lemma split_on_piece: "c \<notin> set s \<Longrightarrow> split_on c s = [s]"
  by (induction s) auto

lemma split_on_append: "c \<notin> set s \<Longrightarrow> split_on c (s @ c # r) = s # split_on c r"
  by (induction s) auto

text \<open>Lines joined with a separator after each.\<close>

definition unlines :: "nat \<Rightarrow> utf16 list \<Rightarrow> utf16" where
  "unlines c ls = concat (map (\<lambda>l. l @ [c]) ls)"

lemma unlines_simps [simp]: "unlines c [] = []" "unlines c (l # ls) = l @ c # unlines c ls"
  "unlines c (xs @ ys) = unlines c xs @ unlines c ys"
  by (simp_all add: unlines_def)

lemma unlines_last: "ls \<noteq> [] \<Longrightarrow> last (unlines c ls) = c"
  by (induction ls rule: rev_induct) simp_all

lemma split_on_unlines: "(\<And>l. l \<in> set ls \<Longrightarrow> c \<notin> set l) \<Longrightarrow> split_on c (unlines c ls) = ls @ [[]]"
  by (induction ls) (simp_all add: split_on_append)

lemma unlines_split_on: "unlines c (split_on c s) = s @ [c]"
proof (induction s)
  case (Cons x xs)
  then show ?case by (cases "split_on c xs") auto
qed simp

text \<open>The lines of a text, without the empty piece after a final line feed.\<close>

definition text_lines :: "utf16 \<Rightarrow> utf16 list" where
  "text_lines s = (let ls = split_on 10 s in if last ls = [] then butlast ls else ls)"

lemma text_lines_no_feed: "l \<in> set (text_lines s) \<Longrightarrow> 10 \<notin> set l"
  using split_on_pieces by (auto simp: text_lines_def Let_def dest: in_set_butlastD split: if_splits)

lemma unlines_text_lines:
  "unlines 10 (text_lines s) = (if s = [] \<or> last s = 10 then s else s @ [10])"
proof -
  have split: "unlines 10 (butlast (split_on 10 s)) @ last (split_on 10 s) @ [10] = s @ [10]"
    using unlines_split_on [of 10 s] append_butlast_last_id [OF split_on_not_Nil, of 10 s]
      unlines_simps(3) [of 10 "butlast (split_on 10 s)" "[last (split_on 10 s)]"] by simp
  then have s: "unlines 10 (butlast (split_on 10 s)) @ last (split_on 10 s) = s" by simp
  have tail: "last s \<noteq> 10" if "last (split_on 10 s) \<noteq> []"
  proof -
    have "last s = last (last (split_on 10 s))" using s that by (metis last_appendR)
    moreover have "last (last (split_on 10 s)) \<in> set (last (split_on 10 s))" using that by simp
    moreover have "10 \<notin> set (last (split_on 10 s))" by (rule split_on_pieces [of _ _ s]) simp
    ultimately show ?thesis by metis
  qed
  have feed: "last s = 10" if "last (split_on 10 s) = []" "s \<noteq> []"
  proof -
    have "unlines 10 (butlast (split_on 10 s)) = s" using s that(1) by simp
    with that(2) unlines_last [of "butlast (split_on 10 s)" 10] show ?thesis by (cases "butlast (split_on 10 s)") auto
  qed
  show ?thesis
  proof (cases "last (split_on 10 s) = []")
    case True
    with s feed show ?thesis by (auto simp: text_lines_def)
  next
    case False
    with split tail append_butlast_last_id [OF split_on_not_Nil, of 10 s] unlines_split_on [of 10 s]
    show ?thesis by (auto simp: text_lines_def)
  qed
qed

lemma text_lines_unlines:
  assumes "\<And>l. l \<in> set ls \<Longrightarrow> 10 \<notin> set l"
  shows "text_lines (unlines 10 ls) = ls"
  using split_on_unlines [of ls 10] assms by (simp add: text_lines_def)

text \<open>Decimal numerals: \<open>\\d+\<close> and \<open>Number\<close>.\<close>

definition digit_unit :: "nat \<Rightarrow> bool" where
  "digit_unit c = (48 \<le> c \<and> c \<le> 57)"

definition number_of :: "utf16 \<Rightarrow> nat" where
  "number_of s = foldl (\<lambda>n c. 10 * n + (c - 48)) 0 s"

fun numeral_of :: "nat \<Rightarrow> utf16" where
  "numeral_of n = (if n < 10 then [48 + n] else numeral_of (n div 10) @ [48 + n mod 10])"

declare numeral_of.simps [simp del]

lemma numeral_of_digits: "c \<in> set (numeral_of n) \<Longrightarrow> digit_unit c"
  by (induction n arbitrary: c rule: numeral_of.induct)
    (subst (asm) (2) numeral_of.simps, auto simp: digit_unit_def split: if_splits)

lemma numeral_of_not_Nil [simp]: "numeral_of n \<noteq> []"
  by (subst numeral_of.simps) simp

lemma number_of_numeral [simp]: "number_of (numeral_of n) = n"
proof (induction n rule: numeral_of.induct)
  case (1 n)
  then show ?case by (subst numeral_of.simps) (simp add: number_of_def)
qed

section \<open>UTF-8\<close>

definition replacement :: nat where
  "replacement = 0xFFFD"

text \<open>A code point from UTF-16 units; a lone surrogate becomes the replacement character.\<close>

fun code_points :: "utf16 \<Rightarrow> nat list" where
  "code_points [] = []"
| "code_points (u # us) =
     (if 0xD800 \<le> u \<and> u < 0xDC00
      then (case us of
              v # vs \<Rightarrow>
                if 0xDC00 \<le> v \<and> v < 0xE000 then (0x10000 + (u - 0xD800) * 0x400 + (v - 0xDC00)) # code_points vs
                else replacement # code_points us
            | [] \<Rightarrow> [replacement])
      else if 0xDC00 \<le> u \<and> u < 0xE000 then replacement # code_points us
      else u # code_points us)"

definition units_of :: "nat \<Rightarrow> utf16" where
  "units_of p =
     (if p < 0x10000 then [p] else [0xD800 + (p - 0x10000) div 0x400, 0xDC00 + (p - 0x10000) mod 0x400])"

definition bytes_of :: "nat \<Rightarrow> nat list" where
  "bytes_of p =
     (if p < 0x80 then [p]
      else if p < 0x800 then [0xC0 + p div 64, 0x80 + p mod 64]
      else if p < 0x10000 then [0xE0 + p div 4096, 0x80 + p div 64 mod 64, 0x80 + p mod 64]
      else [0xF0 + p div 262144, 0x80 + p div 4096 mod 64, 0x80 + p div 64 mod 64, 0x80 + p mod 64])"

text \<open>\<open>Buffer.from(text)\<close>.\<close>

definition utf8_bytes :: "utf16 \<Rightarrow> nat list" where
  "utf8_bytes s = concat (map bytes_of (code_points s))"

definition trail :: "nat \<Rightarrow> bool" where
  "trail b = (0x80 \<le> b \<and> b \<le> 0xBF)"

definition second_of :: "nat \<Rightarrow> nat \<Rightarrow> bool" where
  "second_of b c =
     ((if b = 0xE0 then 0xA0 else if b = 0xF0 then 0x90 else 0x80) \<le> c
      \<and> c \<le> (if b = 0xED then 0x9F else if b = 0xF4 then 0x8F else 0xBF))"

text \<open>
  Decoding replaces each maximal part of an ill-formed sequence: the longest prefix of a well-formed
  sequence, or a single byte.
\<close>

function decode_points :: "nat list \<Rightarrow> nat list" where
  "decode_points [] = []"
| "decode_points (b # bs) =
     (if b < 0x80 then b # decode_points bs
      else if 0xC2 \<le> b \<and> b \<le> 0xDF
      then (case bs of
              c # cs \<Rightarrow> if trail c then ((b - 0xC0) * 64 + (c - 0x80)) # decode_points cs
                        else replacement # decode_points bs
            | [] \<Rightarrow> [replacement])
      else if 0xE0 \<le> b \<and> b \<le> 0xEF
      then (case bs of
              c # cs \<Rightarrow>
                if \<not> second_of b c then replacement # decode_points bs
                else (case cs of
                        d # ds \<Rightarrow>
                          if trail d then ((b - 0xE0) * 4096 + (c - 0x80) * 64 + (d - 0x80)) # decode_points ds
                          else replacement # decode_points cs
                      | [] \<Rightarrow> [replacement])
            | [] \<Rightarrow> [replacement])
      else if 0xF0 \<le> b \<and> b \<le> 0xF4
      then (case bs of
              c # cs \<Rightarrow>
                if \<not> second_of b c then replacement # decode_points bs
                else (case cs of
                        d # ds \<Rightarrow>
                          if \<not> trail d then replacement # decode_points cs
                          else (case ds of
                                  e # es \<Rightarrow>
                                    if trail e
                                    then ((b - 0xF0) * 262144 + (c - 0x80) * 4096 + (d - 0x80) * 64 + (e - 0x80))
                                      # decode_points es
                                    else replacement # decode_points ds
                                | [] \<Rightarrow> [replacement])
                      | [] \<Rightarrow> [replacement])
            | [] \<Rightarrow> [replacement])
      else replacement # decode_points bs)"
  by pat_completeness auto

termination decode_points
  by (relation "measure length") auto

text \<open>\<open>Buffer.from(bytes).toString('utf8')\<close>; a byte buffer keeps each number modulo 256.\<close>

definition utf8_text :: "nat list \<Rightarrow> utf16" where
  "utf8_text bs = concat (map units_of (decode_points (map (\<lambda>b. b mod 256) bs)))"

text \<open>Texts without lone surrogates survive encoding and decoding.\<close>

definition scalar_value :: "nat \<Rightarrow> bool" where
  "scalar_value p = (p < 0xD800 \<or> 0xE000 \<le> p \<and> p < 0x110000)"

definition well_formed :: "utf16 \<Rightarrow> bool" where
  "well_formed s = (concat (map units_of (code_points s)) = s)"

lemma decode_bytes_of:
  assumes "scalar_value p"
  shows "decode_points (bytes_of p @ bs) = p # decode_points bs"
proof -
  have p: "p < 0x110000" using assms by (auto simp: scalar_value_def)
  consider "p < 0x80" | "0x80 \<le> p" "p < 0x800" | "0x800 \<le> p" "p < 0x10000" | "0x10000 \<le> p" by linarith
  then show ?thesis
  proof cases
    case 1
    then show ?thesis by (simp add: bytes_of_def)
  next
    case 2
    define a b where "a = p div 64" and "b = p mod 64"
    have "a * 64 + b = p" "a < 32" "2 \<le> a" "b < 64" unfolding a_def b_def using 2 by auto
    with 2 show ?thesis by (simp add: bytes_of_def trail_def a_def [symmetric] b_def [symmetric])
  next
    case 3
    define a b c where "a = p div 4096" and "b = p div 64 mod 64" and "c = p mod 64"
    have q: "p div 64 div 64 = p div 4096" by (simp add: div_mult2_eq)
    have "p div 64 = a * 64 + b" "p = p div 64 * 64 + c"
      using div_mult_mod_eq [of "p div 64" 64] div_mult_mod_eq [of p 64] by (simp_all only: q a_def b_def c_def)
    then have sum: "a * 4096 + b * 64 + c = p" by simp
    have bounds: "a < 16" "b < 64" "c < 64" unfolding a_def b_def c_def using 3 by auto
    have "a = 0 \<longrightarrow> 32 \<le> b" using sum bounds 3 by auto
    moreover have "a = 13 \<longrightarrow> b < 32" using sum bounds assms by (auto simp: scalar_value_def)
    ultimately have "second_of (0xE0 + a) (0x80 + b)" using bounds by (auto simp: second_of_def)
    with bounds sum 3 show ?thesis
      by (simp add: bytes_of_def trail_def a_def [symmetric] b_def [symmetric] c_def [symmetric])
  next
    case 4
    define a b c d where "a = p div 262144" and "b = p div 4096 mod 64" and "c = p div 64 mod 64" and "d = p mod 64"
    have q: "p div 64 div 64 = p div 4096" "p div 4096 div 64 = p div 262144" by (simp_all add: div_mult2_eq)
    have "p div 4096 = a * 64 + b" "p div 64 = p div 4096 * 64 + c" "p = p div 64 * 64 + d"
      using div_mult_mod_eq [of "p div 4096" 64] div_mult_mod_eq [of "p div 64" 64] div_mult_mod_eq [of p 64]
      by (simp_all only: q a_def b_def c_def d_def)
    then have sum: "a * 262144 + b * 4096 + c * 64 + d = p" by simp
    have bounds: "a < 5" "b < 64" "c < 64" "d < 64" unfolding a_def b_def c_def d_def using p by auto
    have "a = 0 \<longrightarrow> 16 \<le> b" using sum bounds 4 by auto
    moreover have "a = 4 \<longrightarrow> b < 16" using sum bounds p by auto
    ultimately have "second_of (0xF0 + a) (0x80 + b)" using bounds by (auto simp: second_of_def)
    with bounds sum 4 show ?thesis
      by (simp add: bytes_of_def trail_def a_def [symmetric] b_def [symmetric] c_def [symmetric] d_def [symmetric])
  qed
qed

lemma code_points_scalar:
  assumes "\<And>u. u \<in> set s \<Longrightarrow> u < 0x10000"
  shows "p \<in> set (code_points s) \<Longrightarrow> scalar_value p"
  using assms
proof (induction s arbitrary: p rule: length_induct)
  case (1 s)
  have IH: "scalar_value q" if "q \<in> set (code_points t)" "length t < length s" "set t \<subseteq> set s" for q t
    using "1.IH" "1.prems"(2) that by blast
  show ?case
  proof (cases s)
    case (Cons u us)
    have u: "u < 0x10000" using "1.prems"(2) Cons by simp
    show ?thesis
    proof (cases "p \<in> set (code_points us)")
      case True
      then show ?thesis by (rule IH) (auto simp: Cons)
    next
      case tail: False
      consider "p = replacement" | "p = u" "\<not> (0xD800 \<le> u \<and> u < 0xE000)"
        | v vs where "us = v # vs" "0xD800 \<le> u" "u < 0xDC00" "0xDC00 \<le> v" "v < 0xE000"
            "p = 0x10000 + (u - 0xD800) * 0x400 + (v - 0xDC00) \<or> p \<in> set (code_points vs)"
        using "1.prems"(1) tail unfolding Cons by (cases us) (auto split: if_splits)
      then show ?thesis
      proof cases
        case 3
        from 3(6) show ?thesis
        proof
          assume "p = 0x10000 + (u - 0xD800) * 0x400 + (v - 0xDC00)"
          with 3(2-5) show ?thesis by (auto simp: scalar_value_def)
        next
          assume "p \<in> set (code_points vs)"
          then show ?thesis by (rule IH) (auto simp: Cons 3(1))
        qed
      qed (use u in \<open>auto simp: scalar_value_def replacement_def\<close>)
    qed
  qed (use "1.prems" in simp)
qed

lemma decode_concat_bytes:
  "(\<And>p. p \<in> set ps \<Longrightarrow> scalar_value p) \<Longrightarrow> decode_points (concat (map bytes_of ps)) = ps"
  by (induction ps) (simp_all add: decode_bytes_of)

lemma utf8_bytes_small: "scalar_value p \<Longrightarrow> b \<in> set (bytes_of p) \<Longrightarrow> b < 256"
  by (auto simp: bytes_of_def scalar_value_def split: if_splits)

lemma utf8_roundtrip:
  assumes units: "\<And>u. u \<in> set s \<Longrightarrow> u < 0x10000" and "well_formed s"
  shows "utf8_text (utf8_bytes s) = s"
proof -
  have scalar: "\<And>p. p \<in> set (code_points s) \<Longrightarrow> scalar_value p" using code_points_scalar [OF units] .
  have "b mod 256 = b" if "b \<in> set (utf8_bytes s)" for b
    using that utf8_bytes_small [OF scalar] by (auto simp: utf8_bytes_def)
  then have "map (\<lambda>b. b mod 256) (utf8_bytes s) = utf8_bytes s" by (simp add: map_idI)
  then show ?thesis
    using decode_concat_bytes [OF scalar] assms(2) by (simp add: utf8_text_def utf8_bytes_def well_formed_def)
qed

end
