(* ===== verification/Json_Text.thy ===== *)
theory Json_Text
  imports Js_Text
begin

text \<open>
  \<open>JSON.stringify\<close> of strings, on UTF-16 texts: the quoted form with its escapes, how it is read back, and
  that quoted texts have no lone surrogates. Texts that consist of quoted strings between fixed
  delimiters, and hence their UTF-8 bytes, determine these strings.
\<close>

section \<open>Quoting\<close>

definition hex_unit :: "nat \<Rightarrow> nat" where
  "hex_unit d = (if d < 10 then 48 + d else 87 + d)"

definition unicode_escape :: "nat \<Rightarrow> utf16" where
  "unicode_escape u = js [CHR 0x5C, CHR ''u''] @ map hex_unit [u div 4096, u div 256 mod 16, u div 16 mod 16, u mod 16]"

fun escape_units :: "utf16 \<Rightarrow> utf16" where
  "escape_units [] = []"
| "escape_units (u # us) =
     (if 0xD800 \<le> u \<and> u < 0xDC00
      then (case us of
              v # vs \<Rightarrow>
                if 0xDC00 \<le> v \<and> v < 0xE000 then u # v # escape_units vs
                else unicode_escape u @ escape_units us
            | [] \<Rightarrow> unicode_escape u)
      else (if 0xDC00 \<le> u \<and> u < 0xE000 then unicode_escape u
            else if u = 34 then [92, 34] else if u = 92 then [92, 92]
            else if u = 8 then [92, 98] else if u = 9 then [92, 116] else if u = 10 then [92, 110]
            else if u = 12 then [92, 102] else if u = 13 then [92, 114]
            else if u < 32 then unicode_escape u else [u]) @ escape_units us)"

definition json_quote :: "utf16 \<Rightarrow> utf16" where
  "json_quote s = 34 # escape_units s @ [34]"

text \<open>Array elements and object members, joined with commas.\<close>

fun json_commas :: "utf16 list \<Rightarrow> utf16" where
  "json_commas [] = []"
| "json_commas [x] = x"
| "json_commas (x # y # zs) = x @ 44 # json_commas (y # zs)"

section \<open>Reading a quoted text back\<close>

definition hex_value :: "nat \<Rightarrow> nat" where
  "hex_value c = (if c < 58 then c - 48 else c - 87)"

definition plain_escape :: "nat \<Rightarrow> nat" where
  "plain_escape e = (case map_of [(98, 8), (116, 9), (110, 10), (102, 12), (114, 13)] e of Some u \<Rightarrow> u | None \<Rightarrow> e)"

text \<open>The text up to the closing quote, unescaped, and what follows the quote.\<close>

fun unquote :: "utf16 \<Rightarrow> utf16 \<times> utf16" where
  "unquote [] = ([], [])"
| "unquote (c # cs) =
     (if c = 34 then ([], cs)
      else if c = 92
      then (case cs of
              e # a # b # x # y # rest \<Rightarrow>
                if e = 117
                then apfst ((#) (hex_value a * 4096 + hex_value b * 256 + hex_value x * 16 + hex_value y)) (unquote rest)
                else apfst ((#) (plain_escape e)) (unquote (a # b # x # y # rest))
            | e # rest \<Rightarrow> apfst ((#) (plain_escape e)) (unquote rest)
            | [] \<Rightarrow> ([], []))
      else apfst ((#) c) (unquote cs))"

lemma hex_value_unit: "d < 16 \<Longrightarrow> hex_value (hex_unit d) = d"
  by (simp add: hex_value_def hex_unit_def)

lemma hex_split:
  assumes "u < 0x10000"
  shows "u div 4096 * 4096 + u div 256 mod 16 * 256 + u div 16 mod 16 * 16 + u mod 16 = (u :: nat)"
proof -
  have "u div 16 div 16 = u div 256" "u div 256 div 16 = u div 4096" by (simp_all add: div_mult2_eq [symmetric])
  then have "u div 256 * 16 + u div 16 mod 16 = u div 16" "u div 4096 * 16 + u div 256 mod 16 = u div 256"
    using div_mult_mod_eq [of "u div 16" 16] div_mult_mod_eq [of "u div 256" 16] by simp_all
  then show ?thesis using div_mult_mod_eq [of u 16] by linarith
qed

lemma unquote_unicode:
  assumes "u < 0x10000"
  shows "unquote (unicode_escape u @ rest) = apfst ((#) u) (unquote rest)"
proof -
  have "u div 4096 < 16" using assms by auto
  with hex_split [OF assms] show ?thesis by (simp add: unicode_escape_def js_def hex_value_unit)
qed

lemma unquote_escape:
  assumes "e \<noteq> 117"
  shows "unquote (92 # e # rest) = apfst ((#) (plain_escape e)) (unquote rest)"
  using assms by (auto split: list.splits)

declare unquote.simps(2) [simp del]

lemma unquote_plain: "c \<noteq> 34 \<Longrightarrow> c \<noteq> 92 \<Longrightarrow> unquote (c # cs) = apfst ((#) c) (unquote cs)"
  "unquote (34 # cs) = ([], cs)"
  by (simp_all add: unquote.simps(2))

text \<open>One unit at a time: a surrogate pair stays, any other unit is written by \<open>escape_unit\<close>.\<close>

definition escape_unit :: "nat \<Rightarrow> utf16" where
  "escape_unit u =
     (if 0xD800 \<le> u \<and> u < 0xE000 then unicode_escape u
      else if u = 34 then [92, 34] else if u = 92 then [92, 92]
      else if u = 8 then [92, 98] else if u = 9 then [92, 116] else if u = 10 then [92, 110]
      else if u = 12 then [92, 102] else if u = 13 then [92, 114]
      else if u < 32 then unicode_escape u else [u])"

lemma escape_units_cases:
  obtains (pair) v vs where "us = v # vs" "0xD800 \<le> u" "u < 0xDC00" "0xDC00 \<le> v" "v < 0xE000"
      "escape_units (u # us) = u # v # escape_units vs"
    | (single) "escape_units (u # us) = escape_unit u @ escape_units us"
proof (cases "0xD800 \<le> u \<and> u < 0xDC00")
  case high: True
  show ?thesis
  proof (cases us)
    case Nil
    with high show ?thesis by (intro single) (simp add: escape_unit_def)
  next
    case (Cons v vs)
    show ?thesis
    proof (cases "0xDC00 \<le> v \<and> v < 0xE000")
      case True
      with high Cons show ?thesis by (intro pair [of v vs]) simp_all
    next
      case False
      then have "escape_units (u # us) = unicode_escape u @ escape_units us"
        using high by (simp only: Cons escape_units.simps list.case) simp
      with high show ?thesis by (intro single) (simp add: escape_unit_def)
    qed
  qed
next
  case False
  then show ?thesis by (intro single) (auto simp: escape_unit_def)
qed

declare escape_units.simps(2) [simp del]

lemma unquote_escape_unit:
  assumes "u < 0x10000"
  shows "unquote (escape_unit u @ rest) = apfst ((#) u) (unquote rest)"
  using unquote_unicode [OF assms]
  by (simp add: escape_unit_def unquote_escape unquote_plain plain_escape_def)

lemma unquote_escape_units:
  "(\<And>u. u \<in> set s \<Longrightarrow> u < 0x10000) \<Longrightarrow> unquote (escape_units s @ 34 # r) = (s, r)"
proof (induction s rule: length_induct)
  case (1 s)
  show ?case
  proof (cases s)
    case (Cons u us)
    have IH: "unquote (escape_units t @ 34 # r) = (t, r)" if "length t < length s" "set t \<subseteq> set s" for t
      using "1.IH" "1.prems" that by blast
    show ?thesis
    proof (cases rule: escape_units_cases [of us u])
      case (pair v vs)
      have "set vs \<subseteq> set s" using Cons pair(1) by auto
      with IH [of vs] Cons pair show ?thesis by (simp add: unquote_plain)
    next
      case single
      have "set us \<subseteq> set s" using Cons by auto
      with IH [of us] Cons "1.prems" single show ?thesis by (simp add: unquote_escape_unit)
    qed
  qed (simp add: unquote_plain)
qed

lemma json_quote_append:
  assumes "\<And>u. u \<in> set s \<Longrightarrow> u < 0x10000" "\<And>u. u \<in> set t \<Longrightarrow> u < 0x10000"
  shows "json_quote s @ r = json_quote t @ r' \<longleftrightarrow> s = t \<and> r = r'"
proof
  assume "json_quote s @ r = json_quote t @ r'"
  then have "unquote (escape_units s @ 34 # r) = unquote (escape_units t @ 34 # r')" by (simp add: json_quote_def)
  then show "s = t \<and> r = r'" using assms by (simp add: unquote_escape_units)
qed simp

section \<open>No lone surrogates\<close>

fun paired :: "utf16 \<Rightarrow> bool" where
  "paired [] = True"
| "paired (u # us) =
     (if 0xD800 \<le> u \<and> u < 0xDC00
      then (case us of v # vs \<Rightarrow> 0xDC00 \<le> v \<and> v < 0xE000 \<and> paired vs | [] \<Rightarrow> False)
      else \<not> (0xDC00 \<le> u \<and> u < 0xE000) \<and> paired us)"

lemma paired_append: "paired s \<Longrightarrow> paired t \<Longrightarrow> paired (s @ t)"
  by (induction s rule: paired.induct) (auto split: if_splits list.splits)

lemma paired_ascii: "(\<And>u. u \<in> set s \<Longrightarrow> u < 0xD800) \<Longrightarrow> paired s"
proof (induction s)
  case (Cons u us)
  from Cons.prems [of u] have "u < 0xD800" by simp
  moreover have "paired us" using Cons by simp
  ultimately show ?case by simp
qed simp

lemma paired_well_formed: "(\<And>u. u \<in> set s \<Longrightarrow> u < 0x10000) \<Longrightarrow> paired s \<Longrightarrow> well_formed s"
  unfolding well_formed_def
proof (induction s rule: paired.induct)
  case (2 u us)
  show ?case
  proof (cases "0xD800 \<le> u \<and> u < 0xDC00")
    case True
    with "2.prems" obtain v vs where us: "us = v # vs" "0xDC00 \<le> v" "v < 0xE000" "paired vs"
      by (auto split: list.splits)
    have "concat (map units_of (code_points vs)) = vs"
      using "2.IH"(1) [OF True us(1)] us "2.prems" by auto
    moreover have "units_of (0x10000 + (u - 0xD800) * 0x400 + (v - 0xDC00)) = [u, v]"
    proof -
      define a b where "a = u - 0xD800" and "b = v - 0xDC00"
      have "u = 0xD800 + a" "v = 0xDC00 + b" "b < 0x400" using True us by (simp_all add: a_def b_def)
      then show ?thesis by (simp add: units_of_def)
    qed
    ultimately show ?thesis using True us by simp
  next
    case False
    with "2.prems" have "paired us" by simp
    with "2.IH"(2) [OF False] "2.prems" have "concat (map units_of (code_points us)) = us" by auto
    moreover have "units_of u = [u]" using "2.prems"(1) [of u] by (simp add: units_of_def)
    moreover have "code_points (u # us) = u # code_points us" using False "2.prems"(2) by auto
    ultimately show ?thesis by simp
  qed
qed simp

lemma unicode_escape_small: "u < 0x10000 \<Longrightarrow> x \<in> set (unicode_escape u) \<Longrightarrow> x < 0xD800"
  by (auto simp: unicode_escape_def js_def hex_unit_def)

lemma escape_unit_safe:
  assumes "u < 0x10000"
  shows "paired (escape_unit u)" "x \<in> set (escape_unit u) \<Longrightarrow> x < 0x10000"
  using paired_ascii [of "unicode_escape u"] unicode_escape_small [OF assms] assms
  by (fastforce simp: escape_unit_def split: if_splits)+

lemma escape_units_safe:
  "(\<And>u. u \<in> set s \<Longrightarrow> u < 0x10000) \<Longrightarrow> paired (escape_units s) \<and> (\<forall>x \<in> set (escape_units s). x < 0x10000)"
proof (induction s rule: length_induct)
  case (1 s)
  show ?case
  proof (cases s)
    case (Cons u us)
    have IH: "paired (escape_units t) \<and> (\<forall>x \<in> set (escape_units t). x < 0x10000)"
      if "length t < length s" "set t \<subseteq> set s" for t
      using "1.IH" "1.prems" that by blast
    show ?thesis
    proof (cases rule: escape_units_cases [of us u])
      case (pair v vs)
      with IH [of vs] Cons show ?thesis by auto
    next
      case single
      with IH [of us] Cons "1.prems" escape_unit_safe [of u] show ?thesis by (auto intro: paired_append)
    qed
  qed simp
qed

text \<open>Texts made of quoted strings and ASCII: they have no lone surrogate, so their bytes determine them.\<close>

definition json_safe :: "utf16 \<Rightarrow> bool" where
  "json_safe t = (paired t \<and> list_all (\<lambda>u. u < 0x10000) t)"

lemma json_safe_append [intro]: "json_safe s \<Longrightarrow> json_safe t \<Longrightarrow> json_safe (s @ t)"
  by (simp add: json_safe_def paired_append)

lemma json_safe_js [simp, intro]: "json_safe (js s)"
proof -
  have "of_char c < (0xD800 :: nat)" for c :: char using nat_of_char_less_256 [of c] by linarith
  then have "\<And>u. u \<in> set (js s) \<Longrightarrow> u < 0xD800" by (auto simp: js_def)
  then show ?thesis by (force simp: json_safe_def list_all_iff intro: paired_ascii)
qed

lemma json_safe_quote [intro]: "list_all (\<lambda>u. u < 0x10000) s \<Longrightarrow> json_safe (json_quote s)"
proof -
  assume "list_all (\<lambda>u. u < 0x10000) s"
  then have "\<And>u. u \<in> set s \<Longrightarrow> u < 0x10000" by (simp add: list_all_iff)
  then have "json_safe (escape_units s)"
    using escape_units_safe [of s] by (simp add: json_safe_def list_all_iff)
  then have "json_safe (js [CHR 0x22] @ escape_units s @ js [CHR 0x22])" by (intro json_safe_append) simp_all
  then show ?thesis by (simp add: json_quote_def js_def)
qed

lemma json_safe_commas: "list_all json_safe xs \<Longrightarrow> json_safe (json_commas xs)"
proof (induction xs rule: json_commas.induct)
  case 1
  then show ?case by (simp add: json_safe_def)
next
  case (3 x y zs)
  then have "json_safe (x @ js '','' @ json_commas (y # zs))" by (intro json_safe_append) simp_all
  then show ?case by (simp add: js_def)
qed simp

lemma utf8_bytes_inject:
  assumes "json_safe s" "json_safe t" "utf8_bytes s = utf8_bytes t"
  shows "s = t"
proof -
  have "utf8_text (utf8_bytes x) = x" if "json_safe x" for x
    using that by (intro utf8_roundtrip paired_well_formed) (auto simp: json_safe_def list_all_iff)
  with assms show ?thesis by metis
qed

end
