(* ===== verification/Git_Diff.thy ===== *)
theory Git_Diff
  imports Json_Text
begin

text \<open>
  \<open>packages/git-engine/src/diff/parser.ts\<close>: reading the output of \<open>git diff\<close> into files and hunks, and
  building the patch of selected hunks. The digest \<open>createHash('sha256')\<close> of bytes, in hexadecimal, is
  a parameter.
\<close>

section \<open>Errors\<close>

datatype git_error_code =
    ABORTED | APPROVAL_MISMATCH | COMMAND_FAILED | CONFLICTS_REMAIN | DIRTY_WORKTREE | EXTERNAL_DRIVER_BLOCKED
  | INVALID_ARGUMENT | INVALID_MANAGED_ROOT | INVALID_PATCH | NOT_A_REPOSITORY | NOT_MERGED
  | NO_OPERATION_IN_PROGRESS | OUTPUT_LIMIT | OWNERSHIP_MISMATCH | STALE_APPROVAL | TIMEOUT

datatype error_detail = DetailText utf16 | DetailTexts "utf16 list"

datatype git_error = GitEngineError git_error_code utf16 "(string \<times> error_detail) list"

type_synonym 'a git = "git_error + 'a"

section \<open>Data\<close>

datatype line_kind = ContextLine | Addition | Deletion | Metadata

record diff_line =
  dl_kind :: line_kind
  dl_content :: utf16
  dl_oldLine :: "nat option"
  dl_newLine :: "nat option"

record diff_hunk =
  dh_id :: utf16
  dh_header :: utf16
  dh_oldStart :: nat
  dh_oldLines :: nat
  dh_newStart :: nat
  dh_newLines :: nat
  dh_lines :: "diff_line list"
  dh_patch :: utf16

datatype file_status = Added | Modified | Deleted | Renamed | Copied | Binary | UnknownStatus

record diff_file =
  df_oldPath :: "utf16 option"
  df_newPath :: "utf16 option"
  df_status :: file_status
  df_binary :: bool
  df_header :: utf16
  df_hunks :: "diff_hunk list"

record parsed_diff =
  pd_raw :: utf16
  pd_files :: "diff_file list"
  pd_additions :: nat
  pd_deletions :: nat

section \<open>Paths\<close>

text \<open>Single-letter escapes of a quoted path: \<open>a b t n v f r\<close>, the quote and the backslash.\<close>

definition simple_escape :: "nat \<Rightarrow> nat option" where
  "simple_escape c =
     map_of [(97, 7), (98, 8), (116, 9), (110, 10), (118, 11), (102, 12), (114, 13), (34, 34), (92, 92)] c"

definition octal_unit :: "nat \<Rightarrow> bool" where
  "octal_unit c = (48 \<le> c \<and> c \<le> 55)"

definition octal_value :: "utf16 \<Rightarrow> nat" where
  "octal_value s = foldl (\<lambda>n c. 8 * n + (c - 48)) 0 s"

function decode_body :: "utf16 \<Rightarrow> nat list" where
  "decode_body [] = []"
| "decode_body (c # cs) =
     (if c \<noteq> 92 then utf8_bytes [c] @ decode_body cs
      else case cs of
        [] \<Rightarrow> []
      | e # es \<Rightarrow>
          (case simple_escape e of
             Some b \<Rightarrow> b # decode_body es
           | None \<Rightarrow>
               if list_all octal_unit (take 3 cs) then octal_value (take 3 cs) # decode_body (drop 3 cs)
               else utf8_bytes [e] @ decode_body es))"
  by pat_completeness auto

termination decode_body
  by (relation "measure length") auto

definition decodeQuotedGitPath :: "utf16 \<Rightarrow> utf16" where
  "decodeQuotedGitPath v =
     (if v \<noteq> [] \<and> hd v = 34 \<and> last v = 34 then utf8_text (decode_body (butlast (tl v))) else v)"

definition line_terminator :: "nat \<Rightarrow> bool" where
  "line_terminator c = (c \<in> {10, 13, 0x2028, 0x2029})"

text \<open>\<open>replace(/\\t.*$/u, '')\<close>: from the first tab after which the line has no terminator.\<close>

fun strip_tab :: "utf16 \<Rightarrow> utf16" where
  "strip_tab [] = []"
| "strip_tab (c # cs) = (if c = 9 \<and> \<not> list_ex line_terminator cs then [] else c # strip_tab cs)"

definition pathFromMarker :: "utf16 \<Rightarrow> utf16 option" where
  "pathFromMarker line =
     (let marker = strip_tab (drop 4 line) in
      if marker = js ''/dev/null'' then None
      else let decoded = decodeQuotedGitPath marker in
        Some (if starts_with (js ''a/'') decoded \<or> starts_with (js ''b/'') decoded then drop 2 decoded else decoded))"

definition pathFromMetadata :: "utf16 \<Rightarrow> utf16 \<Rightarrow> utf16" where
  "pathFromMetadata line prefix = decodeQuotedGitPath (drop (length prefix) line)"

section \<open>File headers\<close>

text \<open>\<open>/^prefix/mu.test(s)\<close>: at the start of the text or after a line terminator.\<close>

fun after_breaks :: "utf16 \<Rightarrow> utf16 list" where
  "after_breaks [] = []"
| "after_breaks (c # cs) = (if line_terminator c then [cs] else []) @ after_breaks cs"

definition multiline_test :: "utf16 \<Rightarrow> utf16 \<Rightarrow> bool" where
  "multiline_test prefix s = list_ex (starts_with prefix) (s # after_breaks s)"

definition statusFromHeader :: "utf16 \<Rightarrow> bool \<Rightarrow> file_status" where
  "statusFromHeader header binary =
     (if binary then Binary
      else if multiline_test (js ''new file mode '') header then Added
      else if multiline_test (js ''deleted file mode '') header then Deleted
      else if multiline_test (js ''rename from '') header then Renamed
      else if multiline_test (js ''copy from '') header then Copied
      else Modified)"

definition old_path :: "utf16 list \<Rightarrow> utf16 option" where
  "old_path headerLines =
     (case find (starts_with (js ''--- '')) headerLines of
        Some marker \<Rightarrow> pathFromMarker marker
      | None \<Rightarrow>
          map_option (\<lambda>l. pathFromMetadata l
              (if starts_with (js ''rename from '') l then js ''rename from '' else js ''copy from ''))
            (find (\<lambda>l. starts_with (js ''rename from '') l \<or> starts_with (js ''copy from '') l) headerLines))"

definition new_path :: "utf16 list \<Rightarrow> utf16 option" where
  "new_path headerLines =
     (case find (starts_with (js ''+++ '')) headerLines of
        Some marker \<Rightarrow> pathFromMarker marker
      | None \<Rightarrow>
          map_option (\<lambda>l. pathFromMetadata l
              (if starts_with (js ''rename to '') l then js ''rename to '' else js ''copy to ''))
            (find (\<lambda>l. starts_with (js ''rename to '') l \<or> starts_with (js ''copy to '') l) headerLines))"

definition is_binary :: "utf16 list \<Rightarrow> bool" where
  "is_binary headerLines =
     list_ex (\<lambda>l. starts_with (js ''Binary files '') l \<or> l = js ''GIT binary patch'') headerLines"

section \<open>Hunks\<close>

text \<open>\<open>(\\d+)(?:,(\\d+))?\<close>; a missing count is one.\<close>

definition hunk_range :: "utf16 \<Rightarrow> ((nat \<times> nat) \<times> utf16) option" where
  "hunk_range s =
     (let start = takeWhile digit_unit s; rest = dropWhile digit_unit s in
      if start = [] then None
      else case rest of
        c # cs \<Rightarrow>
          (let count = takeWhile digit_unit cs in
           if c = 44 \<and> count \<noteq> [] then Some ((number_of start, number_of count), dropWhile digit_unit cs)
           else Some ((number_of start, 1), rest))
      | [] \<Rightarrow> Some ((number_of start, 1), rest))"

definition hunk_header :: "utf16 \<Rightarrow> ((nat \<times> nat) \<times> (nat \<times> nat)) option" where
  "hunk_header header =
     (if \<not> starts_with (js ''@@ -'') header then None
      else case hunk_range (drop 4 header) of
        None \<Rightarrow> None
      | Some (old, rest) \<Rightarrow>
          if \<not> starts_with (js '' +'') rest then None
          else case hunk_range (drop 2 rest) of
            None \<Rightarrow> None
          | Some (new, rest') \<Rightarrow> if starts_with (js '' @@'') rest' then Some (old, new) else None)"

fun hunk_lines :: "nat \<Rightarrow> nat \<Rightarrow> utf16 list \<Rightarrow> diff_line list" where
  "hunk_lines oldLine newLine [] = []"
| "hunk_lines oldLine newLine (rawLine # body) =
     (case rawLine of
        c # content \<Rightarrow>
          if c = 43
          then \<lparr> dl_kind = Addition, dl_content = content, dl_oldLine = None, dl_newLine = Some newLine \<rparr>
               # hunk_lines oldLine (newLine + 1) body
          else if c = 45
          then \<lparr> dl_kind = Deletion, dl_content = content, dl_oldLine = Some oldLine, dl_newLine = None \<rparr>
               # hunk_lines (oldLine + 1) newLine body
          else if c = 32
          then \<lparr> dl_kind = ContextLine, dl_content = content, dl_oldLine = Some oldLine, dl_newLine = Some newLine \<rparr>
               # hunk_lines (oldLine + 1) (newLine + 1) body
          else \<lparr> dl_kind = Metadata, dl_content = rawLine, dl_oldLine = None, dl_newLine = None \<rparr>
               # hunk_lines oldLine newLine body
      | [] \<Rightarrow> \<lparr> dl_kind = Metadata, dl_content = rawLine, dl_oldLine = None, dl_newLine = None \<rparr>
               # hunk_lines oldLine newLine body)"

text \<open>\<open>JSON.stringify\<close> of the two paths; lone surrogates are escaped.\<close>

definition json_path :: "utf16 option \<Rightarrow> utf16" where
  "json_path p = (case p of None \<Rightarrow> js ''null'' | Some s \<Rightarrow> json_quote s)"

type_synonym identity = "utf16 option \<times> utf16 option"

definition json_identity :: "identity \<Rightarrow> utf16" where
  "json_identity i = js ''['' @ json_path (fst i) @ js '','' @ json_path (snd i) @ js '']''"

definition hunk_id :: "(nat list \<Rightarrow> utf16) \<Rightarrow> identity \<Rightarrow> utf16 \<Rightarrow> utf16" where
  "hunk_id sha256 fileIdentity patch =
     take 20 (sha256 (utf8_bytes (json_identity fileIdentity) @ [0] @ utf8_bytes patch))"

definition buildHunk :: "(nat list \<Rightarrow> utf16) \<Rightarrow> identity \<Rightarrow> utf16 \<Rightarrow> utf16 list \<Rightarrow> diff_hunk git" where
  "buildHunk sha256 fileIdentity header body =
     (case hunk_header header of
        None \<Rightarrow> Inl (GitEngineError INVALID_PATCH (js ''Malformed unified diff hunk.'') [(''header'', DetailText header)])
      | Some ((oldStart, oldLines), (newStart, newLines)) \<Rightarrow>
          (let patch = unlines 10 (header # body) in
           Inr \<lparr> dh_id = hunk_id sha256 fileIdentity patch, dh_header = header, dh_oldStart = oldStart,
             dh_oldLines = oldLines, dh_newStart = newStart, dh_newLines = newLines,
             dh_lines = hunk_lines oldStart newStart body, dh_patch = patch \<rparr>))"

section \<open>The parser\<close>

definition file_start :: "utf16 \<Rightarrow> bool" where
  "file_start l = starts_with (js ''diff --git '') l"

definition hunk_start :: "utf16 \<Rightarrow> bool" where
  "hunk_start l = starts_with (js ''@@ '') l"

definition inside :: "utf16 \<Rightarrow> bool" where
  "inside l = (\<not> hunk_start l \<and> \<not> file_start l)"

definition counted_addition :: "utf16 \<Rightarrow> bool" where
  "counted_addition l = (starts_with (js ''+'') l \<and> \<not> starts_with (js ''+++'') l)"

definition counted_deletion :: "utf16 \<Rightarrow> bool" where
  "counted_deletion l = (starts_with (js ''-'') l \<and> \<not> starts_with (js ''---'') l)"

text \<open>The hunks of one file, the changes they count and the lines after them.\<close>

function parse_hunks :: "(nat list \<Rightarrow> utf16) \<Rightarrow> identity \<Rightarrow> utf16 list
    \<Rightarrow> (diff_hunk list \<times> nat \<times> nat \<times> utf16 list) git" where
  "parse_hunks sha256 i [] = Inr ([], 0, 0, [])"
| "parse_hunks sha256 i (l # ls) =
     (if \<not> hunk_start l then Inr ([], 0, 0, l # ls)
      else let body = takeWhile inside ls in
        case buildHunk sha256 i l body of
          Inl e \<Rightarrow> Inl e
        | Inr h \<Rightarrow>
            (case parse_hunks sha256 i (dropWhile inside ls) of
               Inl e \<Rightarrow> Inl e
             | Inr (hunks, additions, deletions, rest) \<Rightarrow>
                 Inr (h # hunks, length (filter counted_addition body) + additions,
                      length (filter counted_deletion body) + deletions, rest)))"
  by pat_completeness auto

termination parse_hunks
  by (relation "measure (\<lambda>(_, _, ls). length ls)") (auto simp: length_dropWhile_le le_imp_less_Suc)

lemma parse_hunks_rest: "parse_hunks sha256 i ls = Inr (hs, a, d, rest) \<Longrightarrow> length rest \<le> length ls"
proof (induction sha256 i ls arbitrary: hs a d rest rule: parse_hunks.induct)
  case (2 sha256 i l ls)
  show ?case
  proof (cases "hunk_start l")
    case True
    then obtain h hs' a' d' where "buildHunk sha256 i l (takeWhile inside ls) = Inr h"
      "parse_hunks sha256 i (dropWhile inside ls) = Inr (hs', a', d', rest)"
      using "2.prems" by (auto simp: Let_def split: sum.splits)
    then have "length rest \<le> length (dropWhile inside ls)" using "2.IH" True by blast
    then show ?thesis using length_dropWhile_le [of inside ls] by simp
  qed (use "2.prems" in simp)
qed simp

definition file_of :: "utf16 list \<Rightarrow> diff_hunk list \<Rightarrow> diff_file" where
  "file_of headerLines hunks =
     (let header = unlines 10 headerLines; binary = is_binary headerLines in
      \<lparr> df_oldPath = old_path headerLines, df_newPath = new_path headerLines,
        df_status = statusFromHeader header binary, df_binary = binary, df_header = header, df_hunks = hunks \<rparr>)"

function parse_files :: "(nat list \<Rightarrow> utf16) \<Rightarrow> utf16 list \<Rightarrow> (diff_file list \<times> nat \<times> nat) git" where
  "parse_files sha256 [] = Inr ([], 0, 0)"
| "parse_files sha256 (l # ls) =
     (if \<not> file_start l then parse_files sha256 ls
      else let headerLines = l # takeWhile inside ls in
        case parse_hunks sha256 (old_path headerLines, new_path headerLines) (dropWhile inside ls) of
          Inl e \<Rightarrow> Inl e
        | Inr (hunks, additions, deletions, rest) \<Rightarrow>
            (case parse_files sha256 rest of
               Inl e \<Rightarrow> Inl e
             | Inr (files, additions', deletions') \<Rightarrow>
                 Inr (file_of headerLines hunks # files, additions + additions', deletions + deletions')))"
  by pat_completeness auto

termination parse_files
proof (relation "measure (\<lambda>(_, ls). length ls)", goal_cases)
  case (3 sha256 l ls headerLines r hunks rest0 additions rest1 deletions rest)
  then have "parse_hunks sha256 (old_path headerLines, new_path headerLines) (dropWhile inside ls)
      = Inr (hunks, additions, deletions, rest)" by simp
  from parse_hunks_rest [OF this] length_dropWhile_le [of inside ls] show ?case by simp
qed auto

definition parseUnifiedDiff :: "(nat list \<Rightarrow> utf16) \<Rightarrow> utf16 \<Rightarrow> parsed_diff git" where
  "parseUnifiedDiff sha256 raw =
     (if raw = [] then Inr \<lparr> pd_raw = raw, pd_files = [], pd_additions = 0, pd_deletions = 0 \<rparr>
      else case parse_files sha256 (text_lines raw) of
        Inl e \<Rightarrow> Inl e
      | Inr (files, additions, deletions) \<Rightarrow>
          Inr \<lparr> pd_raw = raw, pd_files = files, pd_additions = additions, pd_deletions = deletions \<rparr>)"

section \<open>Selecting hunks\<close>

text \<open>\<open>file.hunks.filter((hunk) => requested.delete(hunk.id))\<close> and the ids that remain requested.\<close>

fun take_requested :: "diff_hunk list \<Rightarrow> utf16 list \<Rightarrow> diff_hunk list \<times> utf16 list" where
  "take_requested [] requested = ([], requested)"
| "take_requested (h # hs) requested =
     (if dh_id h \<in> set requested
      then let (chosen, left) = take_requested hs (remove1 (dh_id h) requested) in (h # chosen, left)
      else take_requested hs requested)"

fun select_files :: "diff_file list \<Rightarrow> utf16 list \<Rightarrow> (utf16 list \<times> utf16 list) git" where
  "select_files [] requested = Inr ([], requested)"
| "select_files (f # fs) requested =
     (case take_requested (df_hunks f) requested of (hunks, left) \<Rightarrow>
        if hunks = [] then select_files fs left
        else if df_binary f
        then Inl (GitEngineError INVALID_PATCH (js ''Binary patches cannot be selected by hunk.'') [])
        else (case select_files fs left of
                Inl e \<Rightarrow> Inl e
              | Inr (selected, left') \<Rightarrow> Inr (df_header f # map dh_patch hunks @ selected, left')))"

definition selectDiffHunks :: "parsed_diff \<Rightarrow> utf16 list \<Rightarrow> utf16 git" where
  "selectDiffHunks diff hunkIds =
     (if length (new_Set hunkIds) \<noteq> length hunkIds
      then Inl (GitEngineError INVALID_PATCH (js ''Duplicate hunk identifiers were requested.'') [])
      else case select_files (pd_files diff) (new_Set hunkIds) of
        Inl e \<Rightarrow> Inl e
      | Inr (selected, left) \<Rightarrow>
          if left \<noteq> []
          then Inl (GitEngineError INVALID_PATCH (js ''One or more requested hunks do not exist.'')
                 [(''missingHunkIds'', DetailTexts left)])
          else if selected = []
          then Inl (GitEngineError INVALID_PATCH (js ''At least one hunk must be selected.'') [])
          else Inr (concat selected))"

definition patchSha256 :: "(nat list \<Rightarrow> utf16) \<Rightarrow> utf16 \<Rightarrow> utf16" where
  "patchSha256 sha256 patch = sha256 (utf8_bytes patch)"

end
