(* ===== verification/Git_Patches.thy ===== *)
theory Git_Patches
  imports Git_Diff
begin

text \<open>
  What the diff parser guarantees: it loses no line, numbers the lines of a hunk as they stand in the
  two files, fails only on a malformed hunk header, and a patch of selected hunks reads back as these
  hunks.
\<close>

section \<open>The lines a parsed file stands for\<close>

definition no_feed :: "utf16 list \<Rightarrow> bool" where
  "no_feed ls = (\<forall>l \<in> set ls. 10 \<notin> set l)"

lemma no_feed_simps [simp]:
  "no_feed []" "no_feed (l # ls) \<longleftrightarrow> 10 \<notin> set l \<and> no_feed ls" "no_feed (xs @ ys) \<longleftrightarrow> no_feed xs \<and> no_feed ys"
  by (auto simp: no_feed_def)

lemma no_feed_while: "no_feed ls \<Longrightarrow> no_feed (takeWhile P ls)" "no_feed ls \<Longrightarrow> no_feed (dropWhile P ls)"
  by (auto simp: no_feed_def dest: set_takeWhileD set_dropWhileD)

lemma text_lines_feed [simp]: "no_feed ls \<Longrightarrow> text_lines (unlines 10 ls) = ls"
  by (simp add: no_feed_def text_lines_unlines)

definition hunk_text :: "diff_hunk \<Rightarrow> utf16 list" where
  "hunk_text h = text_lines (dh_patch h)"

definition file_text :: "diff_file \<Rightarrow> utf16 list" where
  "file_text f = text_lines (df_header f) @ concat (map hunk_text (df_hunks f))"

definition file_patch :: "diff_file \<Rightarrow> utf16" where
  "file_patch f = df_header f @ concat (map dh_patch (df_hunks f))"

text \<open>A hunk as the parser builds it, and a file with its hunks.\<close>

definition hunk_ok :: "(nat list \<Rightarrow> utf16) \<Rightarrow> identity \<Rightarrow> diff_hunk \<Rightarrow> bool" where
  "hunk_ok sha256 i h =
     (\<exists>body. buildHunk sha256 i (dh_header h) body = Inr h \<and> hunk_start (dh_header h)
        \<and> list_all inside body \<and> no_feed (dh_header h # body))"

definition file_ok :: "(nat list \<Rightarrow> utf16) \<Rightarrow> diff_file \<Rightarrow> bool" where
  "file_ok sha256 f =
     (\<exists>l ls. f = file_of (l # ls) (df_hunks f) \<and> file_start l \<and> list_all inside ls \<and> no_feed (l # ls)
        \<and> list_all (hunk_ok sha256 (df_oldPath f, df_newPath f)) (df_hunks f))"

lemma buildHunk_patch: "buildHunk sha256 i header body = Inr h \<Longrightarrow> dh_header h = header \<and> dh_patch h = unlines 10 (header # body)"
  by (auto simp: buildHunk_def Let_def split: option.splits)

lemma buildHunk_fields:
  assumes "buildHunk sha256 i header body = Inr h"
  shows "hunk_header header = Some ((dh_oldStart h, dh_oldLines h), (dh_newStart h, dh_newLines h))"
    and "dh_lines h = hunk_lines (dh_oldStart h) (dh_newStart h) body"
  using assms by (auto simp: buildHunk_def Let_def split: option.splits)

lemma hunk_okE:
  assumes "hunk_ok sha256 i h"
  obtains body where "buildHunk sha256 i (dh_header h) body = Inr h" "hunk_start (dh_header h)" "list_all inside body"
    "no_feed (dh_header h # body)" "hunk_text h = dh_header h # body" "dh_patch h = unlines 10 (hunk_text h)"
proof -
  obtain body where body: "buildHunk sha256 i (dh_header h) body = Inr h" "hunk_start (dh_header h)" "list_all inside body"
    "no_feed (dh_header h # body)" using assms by (auto simp: hunk_ok_def)
  have patch: "dh_patch h = unlines 10 (dh_header h # body)" using buildHunk_patch [OF body(1)] by blast
  then have "hunk_text h = dh_header h # body" unfolding hunk_text_def using text_lines_feed [OF body(4)] by simp
  with patch show thesis by (intro that [OF body]) simp_all
qed

lemma file_start_not_hunk: "file_start l \<Longrightarrow> \<not> hunk_start l"
  by (cases l) (auto simp: file_start_def hunk_start_def js_def)

lemma inside_prefix:
  assumes "list_all inside body" and "rest = [] \<or> \<not> inside (hd rest)"
  shows "takeWhile inside (body @ rest) = body" and "dropWhile inside (body @ rest) = rest"
  using assms by (cases rest; simp add: list_all_iff takeWhile_append2 dropWhile_append2)+

lemma list_all_takeWhile: "list_all P (takeWhile P xs)"
  by (induction xs) simp_all

section \<open>Hunks\<close>

definition hunk_counts :: "(utf16 \<Rightarrow> bool) \<Rightarrow> diff_hunk list \<Rightarrow> nat" where
  "hunk_counts counted hs = sum_list (map (\<lambda>h. length (filter counted (tl (hunk_text h)))) hs)"

lemma parse_hunks_sound:
  assumes "parse_hunks sha256 i ls = Inr (hs, a, d, rest)" and "no_feed ls"
  shows "list_all (hunk_ok sha256 i) hs \<and> ls = concat (map hunk_text hs) @ rest
    \<and> a = hunk_counts counted_addition hs \<and> d = hunk_counts counted_deletion hs"
  using assms
proof (induction sha256 i ls arbitrary: hs a d rest rule: parse_hunks.induct)
  case (2 sha256 i l ls)
  show ?case
  proof (cases "hunk_start l")
    case True
    let ?body = "takeWhile inside ls"
    obtain h hs' a' d' where h: "buildHunk sha256 i l ?body = Inr h"
      and more: "parse_hunks sha256 i (dropWhile inside ls) = Inr (hs', a', d', rest)"
      and new: "hs = h # hs'" "a = length (filter counted_addition ?body) + a'"
        "d = length (filter counted_deletion ?body) + d'"
      using "2.prems"(1) True by (auto simp: Let_def split: sum.splits)
    have header: "dh_header h = l" "dh_patch h = unlines 10 (l # ?body)" using buildHunk_patch [OF h] by simp_all
    have feeds: "no_feed (l # ?body)" "no_feed (dropWhile inside ls)" using "2.prems"(2) by (simp_all add: no_feed_while)
    have hok: "hunk_ok sha256 i h"
      unfolding hunk_ok_def header(1) using h True feeds(1) list_all_takeWhile [of inside ls] by blast
    have htext: "hunk_text h = l # ?body" unfolding hunk_text_def header(2) using feeds(1) by (rule text_lines_feed)
    have "\<not> \<not> hunk_start l" using True by simp
    note IH = "2.IH" [OF this refl h more feeds(2)]
    have "ls = ?body @ dropWhile inside ls" by simp
    also have "dropWhile inside ls = concat (map hunk_text hs') @ rest" using IH by blast
    finally show ?thesis using IH new hok htext by (simp add: hunk_counts_def)
  qed (use "2.prems" in \<open>auto simp: hunk_counts_def\<close>)
qed (simp_all add: hunk_counts_def)

lemma dropWhile_stops: "dropWhile P xs = [] \<or> \<not> P (hd (dropWhile P xs))"
  using hd_dropWhile [of P xs] by (metis dropWhile_eq_Nil_conv)

text \<open>The hunks of a file end where the next file begins.\<close>

lemma parse_hunks_stops:
  assumes "parse_hunks sha256 i ls = Inr (hs, a, d, rest)" and "ls = [] \<or> \<not> inside (hd ls)"
  shows "rest = [] \<or> file_start (hd rest)"
  using assms
proof (induction sha256 i ls arbitrary: hs a d rest rule: parse_hunks.induct)
  case (2 sha256 i l ls)
  show ?case
  proof (cases "hunk_start l")
    case True
    then obtain h hs' a' d' where "buildHunk sha256 i l (takeWhile inside ls) = Inr h"
      "parse_hunks sha256 i (dropWhile inside ls) = Inr (hs', a', d', rest)"
      using "2.prems"(1) by (auto simp: Let_def split: sum.splits)
    then show ?thesis using "2.IH" True dropWhile_stops by blast
  qed (use "2.prems" in \<open>auto simp: inside_def\<close>)
qed simp

lemma parse_hunks_complete:
  assumes "list_all (hunk_ok sha256 i) hs" and "rest = [] \<or> file_start (hd rest)"
  shows "parse_hunks sha256 i (concat (map hunk_text hs) @ rest)
    = Inr (hs, hunk_counts counted_addition hs, hunk_counts counted_deletion hs, rest)"
  using assms(1)
proof (induction hs)
  case Nil
  show ?case
  proof (cases rest)
    case (Cons r rs)
    then show ?thesis using assms(2) file_start_not_hunk by (simp add: hunk_counts_def)
  qed (simp add: hunk_counts_def)
next
  case (Cons h hs)
  let ?more = "concat (map hunk_text hs) @ rest"
  have hok: "hunk_ok sha256 i h" using Cons.prems by simp
  then obtain body where h: "buildHunk sha256 i (dh_header h) body = Inr h" "hunk_start (dh_header h)" "list_all inside body"
    "hunk_text h = dh_header h # body" by (rule hunk_okE)
  have "?more = [] \<or> \<not> inside (hd ?more)"
  proof (cases hs)
    case Nil
    then show ?thesis using assms(2) by (auto simp: inside_def)
  next
    case (Cons g gs)
    then have "hunk_ok sha256 i g" using Cons.prems by simp
    then obtain body' where "hunk_start (dh_header g)" "hunk_text g = dh_header g # body'" by (rule hunk_okE)
    then show ?thesis using Cons by (simp add: inside_def)
  qed
  note parts = inside_prefix [OF h(3) this]
  show ?case using Cons.IH Cons.prems h parts by (simp add: Let_def hunk_counts_def)
qed

section \<open>Files\<close>

lemma file_of_fields [simp]:
  "df_hunks (file_of hdr hs) = hs" "df_header (file_of hdr hs) = unlines 10 hdr"
  "df_oldPath (file_of hdr hs) = old_path hdr" "df_newPath (file_of hdr hs) = new_path hdr"
  "df_binary (file_of hdr hs) = is_binary hdr"
  by (simp_all add: file_of_def Let_def)

definition file_counts :: "(utf16 \<Rightarrow> bool) \<Rightarrow> diff_file list \<Rightarrow> nat" where
  "file_counts counted fs = sum_list (map (\<lambda>f. hunk_counts counted (df_hunks f)) fs)"

text \<open>The lines before the first file are skipped.\<close>

definition from_first_file :: "utf16 list \<Rightarrow> utf16 list" where
  "from_first_file ls = dropWhile (\<lambda>l. \<not> file_start l) ls"

lemma from_first_file_simps [simp]:
  "from_first_file [] = []" "from_first_file (l # ls) = (if file_start l then l # ls else from_first_file ls)"
  by (simp_all add: from_first_file_def)

lemma from_first_file_start: "ls = [] \<or> file_start (hd ls) \<Longrightarrow> from_first_file ls = ls"
  by (cases ls) auto

lemma parse_files_sound:
  assumes "parse_files sha256 ls = Inr (fs, a, d)" and "no_feed ls"
  shows "list_all (file_ok sha256) fs \<and> from_first_file ls = concat (map file_text fs)
    \<and> a = file_counts counted_addition fs \<and> d = file_counts counted_deletion fs"
  using assms
proof (induction sha256 ls arbitrary: fs a d rule: parse_files.induct)
  case (2 sha256 l ls)
  show ?case
  proof (cases "file_start l")
    case True
    let ?hdr = "l # takeWhile inside ls"
    let ?i = "(old_path ?hdr, new_path ?hdr)"
    obtain hs a1 d1 rest fs' a2 d2 where
      hunks: "parse_hunks sha256 ?i (dropWhile inside ls) = Inr (hs, a1, d1, rest)"
      and more: "parse_files sha256 rest = Inr (fs', a2, d2)"
      and new: "fs = file_of ?hdr hs # fs'" "a = a1 + a2" "d = d1 + d2"
      using "2.prems"(1) True by (auto simp: Let_def split: sum.splits)
    have feeds: "no_feed (takeWhile inside ls)" "no_feed (dropWhile inside ls)" "10 \<notin> set l"
      using "2.prems"(2) by (simp_all add: no_feed_while)
    note sound = parse_hunks_sound [OF hunks feeds(2)]
    have "no_feed rest" using feeds(2) sound by (metis no_feed_simps(3))
    then have IH: "list_all (file_ok sha256) fs'" "from_first_file rest = concat (map file_text fs')"
      "a2 = file_counts counted_addition fs'" "d2 = file_counts counted_deletion fs'"
      using "2.IH"(2) [OF _ refl hunks refl refl refl more] True by simp_all
    have "rest = [] \<or> file_start (hd rest)" using hunks dropWhile_stops by (rule parse_hunks_stops)
    then have rest: "rest = concat (map file_text fs')" using IH(2) from_first_file_start by simp
    have fok: "file_ok sha256 (file_of ?hdr hs)"
      unfolding file_ok_def using True feeds sound
      by (intro exI [of _ l] exI [of _ "takeWhile inside ls"]) (simp add: list_all_takeWhile)
    have "text_lines (unlines 10 ?hdr) = ?hdr" using feeds by (intro text_lines_feed) simp
    then have ft: "file_text (file_of ?hdr hs) = ?hdr @ concat (map hunk_text hs)"
      unfolding file_text_def file_of_fields by (simp only:)
    have "l # ls = ?hdr @ concat (map hunk_text hs) @ rest"
      using sound takeWhile_dropWhile_id [of inside ls] by (metis append_Cons)
    then have lines: "l # ls = concat (map file_text fs)" by (simp only: new(1) list.map concat.simps ft rest append_assoc)
    have "from_first_file (l # ls) = l # ls" using True by simp
    also note lines
    finally show ?thesis using new fok IH sound by (simp add: file_counts_def del: from_first_file_simps)
  qed (use "2" in simp)
qed (simp add: file_counts_def)

lemma file_okE:
  assumes "file_ok sha256 f"
  obtains l ls where "f = file_of (l # ls) (df_hunks f)" "file_start l" "list_all inside ls" "no_feed (l # ls)"
    "list_all (hunk_ok sha256 (df_oldPath f, df_newPath f)) (df_hunks f)"
    "file_text f = l # ls @ concat (map hunk_text (df_hunks f))"
proof -
  obtain l ls where f: "f = file_of (l # ls) (df_hunks f)" "file_start l" "list_all inside ls" "no_feed (l # ls)"
    "list_all (hunk_ok sha256 (df_oldPath f, df_newPath f)) (df_hunks f)" using assms by (auto simp: file_ok_def)
  have "df_header f = unlines 10 (l # ls)" by (subst f(1)) simp
  then have "file_text f = l # ls @ concat (map hunk_text (df_hunks f))"
    unfolding file_text_def using text_lines_feed [OF f(4)] by simp
  with f show thesis by (rule that)
qed

lemma parse_files_complete:
  assumes "list_all (file_ok sha256) fs"
  shows "parse_files sha256 (concat (map file_text fs))
    = Inr (fs, file_counts counted_addition fs, file_counts counted_deletion fs)"
  using assms
proof (induction fs)
  case (Cons f fs)
  let ?more = "concat (map file_text fs)"
  obtain l ls where f: "f = file_of (l # ls) (df_hunks f)" "file_start l" "list_all inside ls"
    and hs: "list_all (hunk_ok sha256 (df_oldPath f, df_newPath f)) (df_hunks f)"
    and lines: "file_text f = l # ls @ concat (map hunk_text (df_hunks f))"
    using Cons.prems by (auto elim: file_okE)
  have more: "?more = [] \<or> file_start (hd ?more)"
  proof (cases fs)
    case (Cons g gs)
    then have "file_ok sha256 g" using Cons.prems by simp
    then show ?thesis using Cons by (auto elim!: file_okE)
  qed simp
  let ?after = "concat (map hunk_text (df_hunks f)) @ ?more"
  have "?after = [] \<or> \<not> inside (hd ?after)"
  proof (cases "df_hunks f")
    case Nil
    then show ?thesis using more by (auto simp: inside_def)
  next
    case (Cons h hs')
    then have "hunk_ok sha256 (df_oldPath f, df_newPath f) h" using hs by simp
    then obtain body where "hunk_start (dh_header h)" "hunk_text h = dh_header h # body" by (rule hunk_okE)
    then show ?thesis using Cons by (simp add: inside_def)
  qed
  note parts = inside_prefix [OF f(3) this]
  have "df_oldPath f = old_path (l # ls)" "df_newPath f = new_path (l # ls)" by (subst f(1), simp)+
  with hs have hunks: "parse_hunks sha256 (old_path (l # ls), new_path (l # ls)) ?after
      = Inr (df_hunks f, hunk_counts counted_addition (df_hunks f), hunk_counts counted_deletion (df_hunks f), ?more)"
    using more by (intro parse_hunks_complete) simp_all
  show ?case
    using Cons.IH Cons.prems f(2) parts hunks f(1) [symmetric]
    by (simp add: lines file_counts_def)
qed (simp add: file_counts_def)

section \<open>Nothing is lost\<close>

lemma parseUnifiedDiff_eq:
  "parseUnifiedDiff sha256 raw =
     (case parse_files sha256 (text_lines raw) of
        Inl e \<Rightarrow> Inl e
      | Inr (files, additions, deletions) \<Rightarrow>
          Inr \<lparr> pd_raw = raw, pd_files = files, pd_additions = additions, pd_deletions = deletions \<rparr>)"
  by (simp add: parseUnifiedDiff_def text_lines_def)

lemma parsed_files:
  assumes "parseUnifiedDiff sha256 raw = Inr d"
  shows "list_all (file_ok sha256) (pd_files d)" and "from_first_file (text_lines raw) = concat (map file_text (pd_files d))"
    and "pd_additions d = file_counts counted_addition (pd_files d)"
    and "pd_deletions d = file_counts counted_deletion (pd_files d)"
proof -
  obtain fs a k where "parse_files sha256 (text_lines raw) = Inr (fs, a, k)"
    and d: "d = \<lparr> pd_raw = raw, pd_files = fs, pd_additions = a, pd_deletions = k \<rparr>"
    using assms by (auto simp: parseUnifiedDiff_eq split: sum.splits)
  from parse_files_sound [OF this(1)] text_lines_no_feed show "list_all (file_ok sha256) (pd_files d)"
    "from_first_file (text_lines raw) = concat (map file_text (pd_files d))"
    "pd_additions d = file_counts counted_addition (pd_files d)" "pd_deletions d = file_counts counted_deletion (pd_files d)"
    by (simp_all add: d no_feed_def)
qed

lemma hunks_patch: "list_all (hunk_ok sha256 i) hs \<Longrightarrow> concat (map dh_patch hs) = unlines 10 (concat (map hunk_text hs))"
  by (induction hs) (auto elim!: hunk_okE)

lemma file_patch_lines: "file_ok sha256 f \<Longrightarrow> file_patch f = unlines 10 (file_text f)"
proof (erule file_okE)
  fix l ls
  assume f: "f = file_of (l # ls) (df_hunks f)" "file_text f = l # ls @ concat (map hunk_text (df_hunks f))"
    and hs: "list_all (hunk_ok sha256 (df_oldPath f, df_newPath f)) (df_hunks f)"
  have "df_header f = unlines 10 (l # ls)" by (subst f(1)) simp
  then show "file_patch f = unlines 10 (file_text f)" by (simp add: file_patch_def hunks_patch [OF hs] f(2))
qed

lemma files_patch: "list_all (file_ok sha256) fs \<Longrightarrow> concat (map file_patch fs) = unlines 10 (concat (map file_text fs))"
  by (induction fs) (auto dest: file_patch_lines)

lemma first_line:
  assumes "starts_with p s" and "p \<noteq> []" and "10 \<notin> set p"
  shows "\<exists>l ls. text_lines s = l # ls \<and> starts_with p l"
proof -
  obtain r where s: "s = p @ r" using assms(1) by (auto simp: starts_with_iff)
  have split: "\<exists>q ls. split_on 10 (p @ r) = (p @ q) # ls" if "10 \<notin> set p" for p :: utf16
    using that
  proof (induction p)
    case Nil
    show ?case using split_on_not_Nil [of 10 r] by (cases "split_on 10 r") auto
  next
    case (Cons x xs)
    then show ?case by auto
  qed
  obtain q ls where ls: "split_on 10 s = (p @ q) # ls" using split [OF assms(3)] s by blast
  then show ?thesis using assms(2) by (auto simp: text_lines_def Let_def)
qed

lemma parsed_patch:
  assumes "parseUnifiedDiff sha256 raw = Inr d"
  shows "concat (map file_patch (pd_files d)) = unlines 10 (from_first_file (text_lines raw))
    \<and> (starts_with (js ''diff --git '') raw \<and> last raw = 10 \<longrightarrow> concat (map file_patch (pd_files d)) = raw)"
proof -
  note files = parsed_files [OF assms]
  have lines: "concat (map file_patch (pd_files d)) = unlines 10 (from_first_file (text_lines raw))"
    using files_patch [OF files(1)] files(2) by simp
  have "unlines 10 (from_first_file (text_lines raw)) = raw"
    if raw: "starts_with (js ''diff --git '') raw" "last raw = 10"
  proof -
    have "js ''diff --git '' \<noteq> []" "10 \<notin> set (js ''diff --git '')" by (simp_all add: js_def)
    from first_line [OF raw(1) this] obtain l ls where "text_lines raw = l # ls" "file_start l"
      by (auto simp: file_start_def)
    then show ?thesis using unlines_text_lines [of raw] raw(2) by (simp split: if_splits)
  qed
  with lines show ?thesis by simp
qed

text \<open>
  C27. The parser loses nothing: headers and patches of the parsed files, one after the other, are the lines
  of the input from the first file on, and the input itself when it begins with a file and ends with
  a line feed.
\<close>

theorem parseUnifiedDiff_lossless:
  assumes "parseUnifiedDiff sha256 raw = Inr d"
  shows "concat (map file_patch (pd_files d)) = unlines 10 (from_first_file (text_lines raw))
    \<and> (starts_with (js ''diff --git '') raw \<and> last raw = 10 \<longrightarrow> concat (map file_patch (pd_files d)) = raw)"
  using assms by (rule parsed_patch)

section \<open>When parsing fails\<close>

definition good_headers :: "utf16 list \<Rightarrow> bool" where
  "good_headers ls = (\<forall>l \<in> set ls. hunk_start l \<longrightarrow> hunk_header l \<noteq> None)"

lemma parse_hunks_total:
  "good_headers ls \<Longrightarrow> \<exists>hs a d rest. parse_hunks sha256 i ls = Inr (hs, a, d, rest) \<and> set rest \<subseteq> set ls"
proof (induction sha256 i ls rule: parse_hunks.induct)
  case (2 sha256 i l ls)
  show ?case
  proof (cases "hunk_start l")
    case True
    let ?body = "takeWhile inside ls"
    have "hunk_header l \<noteq> None" using "2.prems" True by (simp add: good_headers_def)
    then obtain h where h: "buildHunk sha256 i l ?body = Inr h" by (auto simp: buildHunk_def Let_def)
    have "good_headers (dropWhile inside ls)" using "2.prems" by (auto simp: good_headers_def dest: set_dropWhileD)
    with "2.IH" True h obtain hs a d rest where
      more: "parse_hunks sha256 i (dropWhile inside ls) = Inr (hs, a, d, rest)" "set rest \<subseteq> set (dropWhile inside ls)" by blast
    have "set rest \<subseteq> set (l # ls)" using more(2) by (auto dest: set_dropWhileD)
    then show ?thesis using True h more(1) by (simp add: Let_def)
  qed auto
qed auto

lemma parse_files_total: "good_headers (from_first_file ls) \<Longrightarrow> \<exists>res. parse_files sha256 ls = Inr res"
proof (induction sha256 ls rule: parse_files.induct)
  case (2 sha256 l ls)
  show ?case
  proof (cases "file_start l")
    case True
    let ?hdr = "l # takeWhile inside ls"
    have good: "good_headers (dropWhile inside ls)"
      using "2.prems" True by (auto simp: good_headers_def dest: set_dropWhileD)
    from parse_hunks_total [OF good] obtain hs a d rest where
      hunks: "parse_hunks sha256 (old_path ?hdr, new_path ?hdr) (dropWhile inside ls) = Inr (hs, a, d, rest)"
      and rest: "set rest \<subseteq> set (dropWhile inside ls)" by blast
    have "good_headers (from_first_file rest)"
      using good rest by (auto simp: good_headers_def from_first_file_def dest: set_dropWhileD)
    then obtain res where "parse_files sha256 rest = Inr res" using "2.IH"(2) True hunks by blast
    then show ?thesis using True hunks by (cases res) (simp add: Let_def)
  qed (use "2" in auto)
qed simp

lemma hunk_ok_headers: "hunk_ok sha256 i h \<Longrightarrow> good_headers (hunk_text h)"
  by (erule hunk_okE) (auto simp: good_headers_def buildHunk_def list_all_iff inside_def split: option.splits)

lemma file_ok_headers: "file_ok sha256 f \<Longrightarrow> good_headers (file_text f)"
proof (erule file_okE)
  fix l ls
  assume "file_start l" "list_all inside ls" "file_text f = l # ls @ concat (map hunk_text (df_hunks f))"
    and hs: "list_all (hunk_ok sha256 (df_oldPath f, df_newPath f)) (df_hunks f)"
  moreover have "good_headers (concat (map hunk_text (df_hunks f)))"
    using hs hunk_ok_headers by (fastforce simp: good_headers_def list_all_iff)
  ultimately show "good_headers (file_text f)" using file_start_not_hunk by (auto simp: good_headers_def list_all_iff inside_def)
qed

text \<open>
  Parsing fails only on a malformed hunk header: from the first file on, every line that opens a hunk
  has two well-formed ranges exactly when the input is parsed.
\<close>

theorem parseUnifiedDiff_succeeds_iff:
  "(\<exists>d. parseUnifiedDiff sha256 raw = Inr d) \<longleftrightarrow> good_headers (from_first_file (text_lines raw))"
proof
  assume "\<exists>d. parseUnifiedDiff sha256 raw = Inr d"
  then obtain d where "parseUnifiedDiff sha256 raw = Inr d" ..
  from parsed_files [OF this] show "good_headers (from_first_file (text_lines raw))"
    using file_ok_headers by (fastforce simp: good_headers_def list_all_iff)
next
  assume "good_headers (from_first_file (text_lines raw))"
  from parse_files_total [OF this, of sha256] show "\<exists>d. parseUnifiedDiff sha256 raw = Inr d" by (auto simp: parseUnifiedDiff_eq)
qed

section \<open>The lines of a hunk\<close>

definition diff_hunks :: "parsed_diff \<Rightarrow> diff_hunk list" where
  "diff_hunks d = concat (map df_hunks (pd_files d))"

definition in_old :: "diff_line \<Rightarrow> bool" where
  "in_old l = (dl_kind l = ContextLine \<or> dl_kind l = Deletion)"

definition in_new :: "diff_line \<Rightarrow> bool" where
  "in_new l = (dl_kind l = ContextLine \<or> dl_kind l = Addition)"

definition raw_line :: "diff_line \<Rightarrow> utf16" where
  "raw_line l = (case dl_kind l of
     Addition \<Rightarrow> 43 # dl_content l | Deletion \<Rightarrow> 45 # dl_content l | ContextLine \<Rightarrow> 32 # dl_content l
   | Metadata \<Rightarrow> dl_content l)"

text \<open>Each line has the number it stands at in the old and in the new file, if it stands there.\<close>

definition numbered :: "nat \<Rightarrow> nat \<Rightarrow> diff_line list \<Rightarrow> bool" where
  "numbered old new ls =
     (\<forall>i < length ls.
        dl_oldLine (ls ! i) = (if in_old (ls ! i) then Some (old + length (filter in_old (take i ls))) else None)
        \<and> dl_newLine (ls ! i) = (if in_new (ls ! i) then Some (new + length (filter in_new (take i ls))) else None))"

lemma numbered_Cons:
  assumes "dl_oldLine l = (if in_old l then Some old else None)" and "dl_newLine l = (if in_new l then Some new else None)"
    and "numbered (if in_old l then old + 1 else old) (if in_new l then new + 1 else new) ls"
  shows "numbered old new (l # ls)"
  unfolding numbered_def
proof (intro allI impI)
  fix i assume i: "i < length (l # ls)"
  show "dl_oldLine ((l # ls) ! i) = (if in_old ((l # ls) ! i) then Some (old + length (filter in_old (take i (l # ls)))) else None)
    \<and> dl_newLine ((l # ls) ! i) = (if in_new ((l # ls) ! i) then Some (new + length (filter in_new (take i (l # ls)))) else None)"
  proof (cases i)
    case (Suc j)
    then have "j < length ls" using i by simp
    with assms(3) show ?thesis by (simp add: numbered_def Suc)
  qed (simp add: assms(1,2))
qed

lemma hunk_lines_numbered: "numbered old new (hunk_lines old new body)"
proof (induction old new body rule: hunk_lines.induct)
  case (2 old new rawLine body)
  then show ?case
    by (cases rawLine) (auto intro!: numbered_Cons simp: in_old_def in_new_def)
qed (simp add: numbered_def)

lemma hunk_lines_raw: "map raw_line (hunk_lines old new body) = body"
  by (induction old new body rule: hunk_lines.induct) (auto simp: raw_line_def split: list.splits)

lemma file_hunk_ok:
  assumes "list_all (file_ok sha256) fs" and "f \<in> set fs" and "h \<in> set (df_hunks f)"
  shows "hunk_ok sha256 (df_oldPath f, df_newPath f) h"
  using assms by (auto simp: list_all_iff elim!: file_okE)

text \<open>
  C29. Every hunk stands for its patch line by line, begins at the positions its header names, and each of
  its lines carries exactly the line number it has in the old and in the new file.
\<close>

theorem parsed_hunk_lines:
  assumes "parseUnifiedDiff sha256 raw = Inr d" and "h \<in> set (diff_hunks d)"
  shows "hunk_header (dh_header h) = Some ((dh_oldStart h, dh_oldLines h), (dh_newStart h, dh_newLines h))
    \<and> dh_patch h = unlines 10 (dh_header h # map raw_line (dh_lines h))
    \<and> numbered (dh_oldStart h) (dh_newStart h) (dh_lines h)"
proof -
  obtain f where "f \<in> set (pd_files d)" "h \<in> set (df_hunks f)" using assms(2) by (auto simp: diff_hunks_def)
  with parsed_files(1) [OF assms(1)] have "hunk_ok sha256 (df_oldPath f, df_newPath f) h" by (rule file_hunk_ok)
  then obtain body where h: "buildHunk sha256 (df_oldPath f, df_newPath f) (dh_header h) body = Inr h" by (rule hunk_okE)
  from buildHunk_fields [OF h] buildHunk_patch [OF h] show ?thesis by (simp add: hunk_lines_raw hunk_lines_numbered)
qed

section \<open>Counting changes\<close>

definition shown_lines :: "parsed_diff \<Rightarrow> diff_line list" where
  "shown_lines d = concat (map dh_lines (diff_hunks d))"

definition shown :: "line_kind \<Rightarrow> parsed_diff \<Rightarrow> diff_line list" where
  "shown k d = filter (\<lambda>l. dl_kind l = k) (shown_lines d)"

lemma counted_lines:
  "length (filter counted_addition body)
    = length (filter (\<lambda>l. dl_kind l = Addition \<and> \<not> starts_with (js ''++'') (dl_content l)) (hunk_lines old new body))"
  "length (filter counted_deletion body)
    = length (filter (\<lambda>l. dl_kind l = Deletion \<and> \<not> starts_with (js ''--'') (dl_content l)) (hunk_lines old new body))"
  by (induction old new body rule: hunk_lines.induct)
    (auto simp: counted_addition_def counted_deletion_def js_def split: list.splits)

lemma hunk_counted:
  assumes "hunk_ok sha256 i h"
  shows "length (filter counted_addition (tl (hunk_text h)))
      = length (filter (\<lambda>l. dl_kind l = Addition \<and> \<not> starts_with (js ''++'') (dl_content l)) (dh_lines h))"
    and "length (filter counted_deletion (tl (hunk_text h)))
      = length (filter (\<lambda>l. dl_kind l = Deletion \<and> \<not> starts_with (js ''--'') (dl_content l)) (dh_lines h))"
proof -
  obtain body where h: "buildHunk sha256 i (dh_header h) body = Inr h" "hunk_text h = dh_header h # body"
    using assms by (rule hunk_okE)
  note buildHunk_fields(2) [OF h(1)]
  then show "length (filter counted_addition (tl (hunk_text h)))
      = length (filter (\<lambda>l. dl_kind l = Addition \<and> \<not> starts_with (js ''++'') (dl_content l)) (dh_lines h))"
    and "length (filter counted_deletion (tl (hunk_text h)))
      = length (filter (\<lambda>l. dl_kind l = Deletion \<and> \<not> starts_with (js ''--'') (dl_content l)) (dh_lines h))"
    using counted_lines by (simp_all add: h(2))
qed

lemma file_counts_lines:
  assumes "\<And>f h. f \<in> set fs \<Longrightarrow> h \<in> set (df_hunks f) \<Longrightarrow> length (filter counted (tl (hunk_text h))) = length (filter P (dh_lines h))"
  shows "file_counts counted fs = length (filter P (concat (map dh_lines (concat (map df_hunks fs)))))"
proof -
  have hunks: "hunk_counts counted hs = length (filter P (concat (map dh_lines hs)))"
    if "\<And>h. h \<in> set hs \<Longrightarrow> length (filter counted (tl (hunk_text h))) = length (filter P (dh_lines h))" for hs
    using that by (induction hs) (simp_all add: hunk_counts_def)
  show ?thesis using assms
  proof (induction fs)
    case (Cons f fs)
    have "hunk_counts counted (df_hunks f) = length (filter P (concat (map dh_lines (df_hunks f))))"
      by (rule hunks) (rule Cons.prems [of f]; simp)
    moreover have "file_counts counted fs = length (filter P (concat (map dh_lines (concat (map df_hunks fs)))))"
      by (rule Cons.IH) (rule Cons.prems; simp)
    ultimately show ?case by (simp add: file_counts_def)
  qed (simp add: file_counts_def)
qed

lemma filter_split: "length (filter P xs) = length (filter (\<lambda>x. P x \<and> \<not> Q x) xs) + length (filter Q (filter P xs))"
  by (induction xs) auto

text \<open>
  The counters \<open>additions\<close> and \<open>deletions\<close> miss exactly the changed lines whose own text begins with
  \<open>++\<close> or \<open>--\<close>: an added \<open>++i\<close> or a deleted SQL comment is not counted.
\<close>

theorem parsed_counts:
  assumes "parseUnifiedDiff sha256 raw = Inr d"
  shows "length (shown Addition d) = pd_additions d
      + length (filter (\<lambda>l. starts_with (js ''++'') (dl_content l)) (shown Addition d))
    \<and> length (shown Deletion d) = pd_deletions d
      + length (filter (\<lambda>l. starts_with (js ''--'') (dl_content l)) (shown Deletion d))"
proof -
  note files = parsed_files [OF assms]
  have "pd_additions d = length (filter (\<lambda>l. dl_kind l = Addition \<and> \<not> starts_with (js ''++'') (dl_content l)) (shown_lines d))"
    unfolding files(3) shown_lines_def diff_hunks_def using file_hunk_ok [OF files(1)] hunk_counted(1)
    by (intro file_counts_lines) blast
  moreover have "pd_deletions d = length (filter (\<lambda>l. dl_kind l = Deletion \<and> \<not> starts_with (js ''--'') (dl_content l)) (shown_lines d))"
    unfolding files(4) shown_lines_def diff_hunks_def using file_hunk_ok [OF files(1)] hunk_counted(2)
    by (intro file_counts_lines) blast
  ultimately show ?thesis unfolding shown_def by (simp only: filter_split [symmetric])
qed

end
