(* ===== verification/Git_Selection.thy ===== *)
theory Git_Selection
  imports Git_Patches
begin

text \<open>
  What selecting hunks does, that a selected patch reads back as the selected hunks, how paths that git
  quotes are read, and two defects of the parser.
\<close>

section \<open>The hunks a selection takes\<close>

definition keep_hunks :: "utf16 list \<Rightarrow> diff_file \<Rightarrow> diff_file" where
  "keep_hunks ids f = f\<lparr> df_hunks := filter (\<lambda>h. dh_id h \<in> set ids) (df_hunks f) \<rparr>"

definition chosen_files :: "utf16 list \<Rightarrow> diff_file list \<Rightarrow> diff_file list" where
  "chosen_files ids fs = filter (\<lambda>f. df_hunks f \<noteq> []) (map (keep_hunks ids) fs)"

lemma keep_hunks_fields [simp]:
  "df_hunks (keep_hunks ids f) = filter (\<lambda>h. dh_id h \<in> set ids) (df_hunks f)" "df_header (keep_hunks ids f) = df_header f"
  "df_binary (keep_hunks ids f) = df_binary f"
  by (simp_all add: keep_hunks_def)

lemma chosen_files_simps [simp]:
  "chosen_files ids [] = []"
  "chosen_files ids (f # fs) = (if filter (\<lambda>h. dh_id h \<in> set ids) (df_hunks f) = [] then chosen_files ids fs
     else keep_hunks ids f # chosen_files ids fs)"
  by (simp_all add: chosen_files_def)

lemma chosen_files_cong:
  assumes "\<And>h. h \<in> set (concat (map df_hunks fs)) \<Longrightarrow> dh_id h \<in> set ids \<longleftrightarrow> dh_id h \<in> set ids'"
  shows "chosen_files ids fs = chosen_files ids' fs"
proof -
  have "keep_hunks ids f = keep_hunks ids' f" if f: "f \<in> set fs" for f
  proof -
    have "filter (\<lambda>h. dh_id h \<in> set ids) (df_hunks f) = filter (\<lambda>h. dh_id h \<in> set ids') (df_hunks f)"
      using assms f by (intro filter_cong) auto
    then show ?thesis by (simp only: keep_hunks_def)
  qed
  then show ?thesis by (simp add: chosen_files_def cong: map_cong)
qed

lemma take_requested_eq:
  assumes "distinct (map dh_id hs)" and "distinct requested"
  shows "take_requested hs requested
    = (filter (\<lambda>h. dh_id h \<in> set requested) hs, filter (\<lambda>i. i \<notin> dh_id ` set hs) requested)"
  using assms
proof (induction hs arbitrary: requested)
  case (Cons h hs)
  show ?case
  proof (cases "dh_id h \<in> set requested")
    case True
    let ?left = "remove1 (dh_id h) requested"
    have left: "?left = filter (\<lambda>i. i \<noteq> dh_id h) requested" using Cons.prems(2)
      by (auto simp: distinct_remove1_removeAll removeAll_filter_not_eq intro: filter_cong)
    have "filter (\<lambda>g. dh_id g \<in> set ?left) hs = filter (\<lambda>g. dh_id g \<in> set requested) hs"
      using Cons.prems(1)
      by (intro filter_cong refl) (auto simp: left intro: rev_image_eqI)
    moreover have "filter (\<lambda>i. i \<notin> dh_id ` set hs) ?left = filter (\<lambda>i. i \<notin> dh_id ` set (h # hs)) requested"
      by (simp add: left conj_commute)
    ultimately show ?thesis using Cons True by (simp add: Let_def)
  next
    case False
    then have "filter (\<lambda>i. i \<notin> dh_id ` set hs) requested = filter (\<lambda>i. i \<notin> dh_id ` set (h # hs)) requested"
      by (intro filter_cong) auto
    then show ?thesis using Cons False by simp
  qed
qed simp

lemma select_files_eq:
  assumes "distinct (map dh_id (concat (map df_hunks fs)))" and "distinct requested"
  shows "if list_all (\<lambda>f. \<not> df_binary f) (chosen_files requested fs)
    then \<exists>selected. select_files fs requested
         = Inr (selected, filter (\<lambda>i. i \<notin> dh_id ` set (concat (map df_hunks fs))) requested)
       \<and> concat selected = concat (map file_patch (chosen_files requested fs))
       \<and> (selected = [] \<longleftrightarrow> chosen_files requested fs = [])
    else \<exists>e. select_files fs requested = Inl e"
  using assms
proof (induction fs arbitrary: requested)
  case (Cons f fs)
  let ?hs = "filter (\<lambda>h. dh_id h \<in> set requested) (df_hunks f)"
  let ?left = "filter (\<lambda>i. i \<notin> dh_id ` set (df_hunks f)) requested"
  have d: "distinct (map dh_id (df_hunks f))" "distinct (map dh_id (concat (map df_hunks fs)))"
    "dh_id ` set (df_hunks f) \<inter> dh_id ` set (concat (map df_hunks fs)) = {}" using Cons.prems(1) by auto
  note taken = take_requested_eq [OF d(1) Cons.prems(2)]
  have same: "chosen_files ?left fs = chosen_files requested fs"
    using d(3) by (intro chosen_files_cong) auto
  define missing where "missing = filter (\<lambda>i. i \<notin> dh_id ` set (concat (map df_hunks (f # fs)))) requested"
  have rest: "filter (\<lambda>i. i \<notin> dh_id ` set (concat (map df_hunks fs))) ?left = missing"
    by (simp add: missing_def image_Un conj_commute)
  have IH: "if list_all (\<lambda>f. \<not> df_binary f) (chosen_files requested fs)
      then \<exists>selected. select_files fs ?left
           = Inr (selected, missing)
         \<and> concat selected = concat (map file_patch (chosen_files requested fs))
         \<and> (selected = [] \<longleftrightarrow> chosen_files requested fs = [])
      else \<exists>e. select_files fs ?left = Inl e"
    using Cons.IH [OF d(2), of ?left] Cons.prems(2) unfolding same rest by simp
  show ?case
  proof (cases "?hs = []")
    case True
    then show ?thesis unfolding missing_def [symmetric] using IH taken by simp
  next
    case False
    then show ?thesis
      unfolding missing_def [symmetric] using IH taken
      by (cases "df_binary f") (auto simp: file_patch_def [of "keep_hunks requested f"] split: if_splits)
  qed
qed simp

text \<open>
  Selecting hunks succeeds exactly when at least one hunk is requested, each once, all of them exist and
  none belongs to a binary file; the patch then holds the headers and the requested hunks of the files
  concerned, in the order of the diff. Hunks are told apart by their digests.
\<close>

theorem selectDiffHunks_correct:
  assumes ids: "distinct (map dh_id (diff_hunks d))"
  shows "selectDiffHunks d hunkIds = Inr patch \<longleftrightarrow>
    distinct hunkIds \<and> hunkIds \<noteq> [] \<and> set hunkIds \<subseteq> dh_id ` set (diff_hunks d)
    \<and> list_all (\<lambda>f. \<not> df_binary f) (chosen_files hunkIds (pd_files d))
    \<and> patch = concat (map file_patch (chosen_files hunkIds (pd_files d)))"
proof (cases "distinct hunkIds")
  case True
  let ?fs = "pd_files d" and ?chosen = "chosen_files hunkIds (pd_files d)"
  have set: "new_Set hunkIds = hunkIds" "length (new_Set hunkIds) = length hunkIds"
    using True length_new_Set_iff by (simp_all add: new_Set_def fold_set_add_distinct)
  note sel = select_files_eq [OF ids [unfolded diff_hunks_def] True]
  have missing: "filter (\<lambda>i. i \<notin> dh_id ` set (concat (map df_hunks ?fs))) hunkIds = [] \<longleftrightarrow> set hunkIds \<subseteq> dh_id ` set (diff_hunks d)"
    unfolding filter_empty_conv diff_hunks_def by blast
  have none: "?chosen = [] \<longleftrightarrow> hunkIds = []" if sub: "set hunkIds \<subseteq> dh_id ` set (diff_hunks d)"
  proof
    assume none: "?chosen = []"
    show "hunkIds = []"
    proof (rule ccontr)
      assume "hunkIds \<noteq> []"
      then obtain i where "i \<in> set hunkIds" by (cases hunkIds) auto
      with sub obtain f h where "f \<in> set ?fs" "h \<in> set (df_hunks f)" "dh_id h \<in> set hunkIds" by (auto simp: diff_hunks_def)
      with none show False by (auto simp: chosen_files_def filter_empty_conv)
    qed
  qed (simp add: chosen_files_def filter_empty_conv)
  show ?thesis
  proof (cases "list_all (\<lambda>f. \<not> df_binary f) ?chosen")
    case ok: True
    then obtain selected where s: "select_files ?fs hunkIds
        = Inr (selected, filter (\<lambda>i. i \<notin> dh_id ` set (concat (map df_hunks ?fs))) hunkIds)"
      "concat selected = concat (map file_patch ?chosen)" "selected = [] \<longleftrightarrow> ?chosen = []" using sel by auto
    show ?thesis
      unfolding selectDiffHunks_def set s(1) sum.case prod.case missing s(3)
      using none True ok s(2) by auto
  next
    case False
    then obtain e where "select_files ?fs hunkIds = Inl e" using sel by auto
    then show ?thesis using False by (simp add: selectDiffHunks_def set)
  qed
next
  case False
  then show ?thesis by (simp add: selectDiffHunks_def length_new_Set_iff)
qed

section \<open>A selected patch reads back\<close>

lemma keep_hunks_ok:
  assumes "file_ok sha256 f"
  shows "file_ok sha256 (keep_hunks ids f)"
proof -
  obtain l ls where f: "f = file_of (l # ls) (df_hunks f)" "file_start l" "list_all inside ls" "no_feed (l # ls)"
    "list_all (hunk_ok sha256 (df_oldPath f, df_newPath f)) (df_hunks f)" using assms by (auto simp: file_ok_def)
  have "keep_hunks ids f = file_of (l # ls) (df_hunks (keep_hunks ids f))"
    by (subst f(1)) (simp add: keep_hunks_def file_of_def Let_def)
  moreover have "df_oldPath (keep_hunks ids f) = df_oldPath f" "df_newPath (keep_hunks ids f) = df_newPath f"
    by (simp_all add: keep_hunks_def)
  ultimately show ?thesis unfolding file_ok_def using f(2-5) by (auto simp: list_all_iff)
qed

lemma chosen_files_ok: "list_all (file_ok sha256) fs \<Longrightarrow> list_all (file_ok sha256) (chosen_files ids fs)"
  by (auto simp: list_all_iff chosen_files_def keep_hunks_ok)

lemma hunk_text_no_feed: "hunk_ok sha256 i h \<Longrightarrow> no_feed (hunk_text h)"
  by (erule hunk_okE) simp

lemma file_text_no_feed: "file_ok sha256 f \<Longrightarrow> no_feed (file_text f)"
proof (erule file_okE)
  fix l ls
  assume f: "no_feed (l # ls)" "file_text f = l # ls @ concat (map hunk_text (df_hunks f))"
    and hs: "list_all (hunk_ok sha256 (df_oldPath f, df_newPath f)) (df_hunks f)"
  from hs have "no_feed (concat (map hunk_text (df_hunks f)))"
    using hunk_text_no_feed by (fastforce simp: no_feed_def list_all_iff)
  with f show "no_feed (file_text f)" by simp
qed

lemma parse_file_patches:
  assumes "list_all (file_ok sha256) fs"
  shows "\<exists>d. parseUnifiedDiff sha256 (concat (map file_patch fs)) = Inr d \<and> pd_files d = fs"
proof -
  have "no_feed (concat (map file_text fs))"
    using assms file_text_no_feed by (fastforce simp: no_feed_def list_all_iff)
  then have "text_lines (concat (map file_patch fs)) = concat (map file_text fs)"
    unfolding files_patch [OF assms] by (rule text_lines_feed)
  then show ?thesis using parse_files_complete [OF assms] by (simp add: parseUnifiedDiff_eq)
qed

text \<open>
  C28. A patch built from selected hunks reads back as exactly these hunks, under their files, with the same
  identifiers and line numbers.
\<close>

theorem selected_patch_roundtrip:
  assumes parsed: "parseUnifiedDiff sha256 raw = Inr d" and ids: "distinct (map dh_id (diff_hunks d))"
    and sel: "selectDiffHunks d hunkIds = Inr patch"
  shows "\<exists>d'. parseUnifiedDiff sha256 patch = Inr d' \<and> pd_files d' = chosen_files hunkIds (pd_files d)
    \<and> diff_hunks d' = filter (\<lambda>h. dh_id h \<in> set hunkIds) (diff_hunks d)"
proof -
  have patch: "patch = concat (map file_patch (chosen_files hunkIds (pd_files d)))"
    using sel selectDiffHunks_correct [OF ids, of hunkIds patch] by blast
  have hunks: "concat (map df_hunks (chosen_files hunkIds fs)) = filter (\<lambda>h. dh_id h \<in> set hunkIds) (concat (map df_hunks fs))" for fs
    by (induction fs) simp_all
  from parse_file_patches [OF chosen_files_ok [OF parsed_files(1) [OF parsed]]] show ?thesis
    unfolding patch diff_hunks_def using hunks by metis
qed

section \<open>Quoted paths\<close>

text \<open>How git quotes a path, byte by byte, when \<open>core.quotePath\<close> is set.\<close>

definition git_quote_byte :: "nat \<Rightarrow> utf16" where
  "git_quote_byte b =
     (case map_of [(7, 97), (8, 98), (9, 116), (10, 110), (11, 118), (12, 102), (13, 114), (34, 34), (92, 92)] b of
        Some c \<Rightarrow> [92, c]
      | None \<Rightarrow> if b < 32 \<or> 127 \<le> b then [92, 48 + b div 64, 48 + b div 8 mod 8, 48 + b mod 8] else [b])"

definition git_quoted :: "utf16 \<Rightarrow> utf16" where
  "git_quoted path = 34 # concat (map git_quote_byte (utf8_bytes path)) @ [34]"

lemma octal_digits:
  assumes "b < 256"
  shows "octal_value [48 + b div 64, 48 + b div 8 mod 8, 48 + b mod 8] = (b :: nat)"
proof -
  have "b div 8 = b div 64 * 8 + b div 8 mod 8" using div_mult_mod_eq [of "b div 8" 8] by (simp add: div_mult2_eq [symmetric])
  moreover have "b = b div 8 * 8 + b mod 8" by simp
  ultimately have "b = b div 64 * 64 + b div 8 mod 8 * 8 + b mod 8" by linarith
  then show ?thesis by (simp add: octal_value_def)
qed

lemma decode_quoted_byte:
  assumes "b < 256"
  shows "decode_body (git_quote_byte b @ cs) = b # decode_body cs"
proof -
  consider c where "git_quote_byte b = [92, c]" "simple_escape c = Some b"
    | "git_quote_byte b = [92, 48 + b div 64, 48 + b div 8 mod 8, 48 + b mod 8]"
    | "git_quote_byte b = [b]" "b \<noteq> 92" "b < 128"
  proof (cases "b \<in> {7, 8, 9, 10, 11, 12, 13, 34, 92}")
    case True
    have "list_all (\<lambda>b. git_quote_byte b = [92, git_quote_byte b ! 1] \<and> simple_escape (git_quote_byte b ! 1) = Some b)
      [7, 8, 9, 10, 11, 12, 13, 34, 92]"
      by (simp add: git_quote_byte_def simple_escape_def)
    with True have "git_quote_byte b = [92, git_quote_byte b ! 1]" "simple_escape (git_quote_byte b ! 1) = Some b"
      by (auto simp del: nth_Cons_numeral)
    then show thesis by (rule that(1))
  next
    case False
    then have "git_quote_byte b
        = (if b < 32 \<or> 127 \<le> b then [92, 48 + b div 64, 48 + b div 8 mod 8, 48 + b mod 8] else [b])"
      by (simp add: git_quote_byte_def)
    with False that(2,3) show thesis by (cases "b < 32 \<or> 127 \<le> b") auto
  qed
  then show ?thesis
  proof cases
    case 2
    have digits: "list_all octal_unit [48 + b div 64, 48 + b div 8 mod 8, 48 + b mod 8]"
      using assms by (auto simp: octal_unit_def)
    have "simple_escape (48 + b div 64) = None" using assms by (auto simp: simple_escape_def)
    with digits octal_digits [OF assms] show ?thesis by (simp add: 2)
  next
    case 3
    then have "utf8_bytes [b] = [b]" by (simp add: utf8_bytes_def bytes_of_def)
    with 3 show ?thesis by simp
  qed simp
qed

lemma decode_quoted: "(\<And>b. b \<in> set bs \<Longrightarrow> b < 256) \<Longrightarrow> decode_body (concat (map git_quote_byte bs)) = bs"
  by (induction bs) (simp_all add: decode_quoted_byte)

lemma utf8_bytes_256:
  assumes "\<And>u. u \<in> set s \<Longrightarrow> u < 0x10000" and "b \<in> set (utf8_bytes s)"
  shows "b < 256"
  using assms(2) code_points_scalar [OF assms(1)] utf8_bytes_small by (auto simp: utf8_bytes_def)

lemma decode_git_quoted:
  assumes units: "\<And>u. u \<in> set s \<Longrightarrow> u < 0x10000" and "well_formed s"
  shows "decodeQuotedGitPath (git_quoted s) = s"
proof -
  have "decode_body (concat (map git_quote_byte (utf8_bytes s))) = utf8_bytes s"
    using utf8_bytes_256 [OF units] by (intro decode_quoted)
  with utf8_roundtrip [OF units assms(2)] show ?thesis by (simp add: decodeQuotedGitPath_def git_quoted_def butlast_append)
qed

lemma quote_byte_units:
  assumes "b < 256" and "c \<in> set (git_quote_byte b)"
  shows "32 \<le> c" and "c < 128"
  using assms by (auto simp: git_quote_byte_def split: if_splits option.splits)

lemma strip_tab_plain: "(\<And>c. c \<in> set s \<Longrightarrow> c \<noteq> 9) \<Longrightarrow> strip_tab s = s"
  by (induction s) auto

lemma well_formed_ascii:
  assumes "\<And>c. c \<in> set p \<Longrightarrow> c < 128" and "well_formed s"
  shows "well_formed (p @ s)"
  using assms(1)
proof (induction p)
  case (Cons c p)
  then have c: "c < 128" and IH: "well_formed (p @ s)" by simp_all
  then have points: "code_points (c # p @ s) = c # code_points (p @ s)" by simp
  show ?case
    unfolding well_formed_def append_Cons points list.map concat.simps using IH c by (simp add: well_formed_def units_of_def)
qed (use assms(2) in simp)

text \<open>
  A path git had to quote is read back exactly from the marker lines of a file, whatever characters it
  holds, without its \<open>a/\<close> or \<open>b/\<close> prefix.
\<close>

theorem pathFromMarker_quoted:
  assumes units: "\<And>u. u \<in> set path \<Longrightarrow> u < 0x10000" and wf: "well_formed path"
    and "side \<in> {js ''a/'', js ''b/''}" and "length marker = 4"
  shows "pathFromMarker (marker @ git_quoted (side @ path)) = Some path"
proof -
  have side: "\<And>c. c \<in> set side \<Longrightarrow> c < 128" "length side = 2" using assms(3) by (auto simp: js_def)
  have all: "\<And>u. u \<in> set (side @ path) \<Longrightarrow> u < 0x10000" using units side(1) by fastforce
  have wf': "well_formed (side @ path)" using side(1) wf by (rule well_formed_ascii)
  have plain: "c \<noteq> 9" if c: "c \<in> set (git_quoted (side @ path))" for c
  proof -
    consider "c = 34" | b where "b \<in> set (utf8_bytes (side @ path))" "c \<in> set (git_quote_byte b)"
      using c by (auto simp: git_quoted_def)
    then show ?thesis
    proof cases
      case 2
      from quote_byte_units(1) [OF utf8_bytes_256 [OF all 2(1)] 2(2)] show ?thesis by simp
    qed simp
  qed
  have "drop 4 (marker @ git_quoted (side @ path)) = git_quoted (side @ path)" using assms(4) by simp
  moreover have "git_quoted (side @ path) \<noteq> js ''/dev/null''" by (simp add: git_quoted_def js_def)
  moreover have "starts_with (js ''a/'') (side @ path) \<or> starts_with (js ''b/'') (side @ path)" using assms(3) by auto
  ultimately show ?thesis
    using decode_git_quoted [OF all wf'] strip_tab_plain [OF plain] side(2) by (simp add: pathFromMarker_def Let_def)
qed

section \<open>Conflicted files\<close>

text \<open>
  Lines that begin neither a file nor a hunk are taken into the last hunk before them. The section of a
  conflicted file, which git opens with \<open>diff --cc\<close> and whose hunks begin with \<open>@@@\<close>, is such a run of
  lines: it becomes part of the last hunk of the file above it, and of the patch that stages this hunk.
\<close>

theorem foreign_section_joins_hunk:
  assumes parsed: "parseUnifiedDiff sha256 raw = Inr d" and files: "pd_files d = fs @ [f]" and hunks: "df_hunks f = hs @ [h]"
    and foreign: "list_all inside foreign" "no_feed foreign"
  shows "\<exists>d' f' h'. parseUnifiedDiff sha256 (concat (map file_patch (pd_files d)) @ unlines 10 foreign) = Inr d'
    \<and> pd_files d' = fs @ [f'] \<and> df_hunks f' = hs @ [h'] \<and> dh_patch h' = dh_patch h @ unlines 10 foreign"
proof -
  have ok: "list_all (file_ok sha256) (fs @ [f])" using parsed_files(1) [OF parsed] files by simp
  then have f: "file_ok sha256 f" by simp
  obtain l ls where hdr: "f = file_of (l # ls) (df_hunks f)" "file_start l" "list_all inside ls" "no_feed (l # ls)"
    and hok: "list_all (hunk_ok sha256 (df_oldPath f, df_newPath f)) (df_hunks f)" using f by (rule file_okE)
  then have "hunk_ok sha256 (df_oldPath f, df_newPath f) h" using hunks by simp
  then obtain body where h: "buildHunk sha256 (df_oldPath f, df_newPath f) (dh_header h) body = Inr h" "hunk_start (dh_header h)"
    "list_all inside body" "no_feed (dh_header h # body)" by (rule hunk_okE)
  have "hunk_header (dh_header h) \<noteq> None" using buildHunk_fields(1) [OF h(1)] by simp
  then obtain h' where h': "buildHunk sha256 (df_oldPath f, df_newPath f) (dh_header h) (body @ foreign) = Inr h'"
    by (auto simp: buildHunk_def Let_def)
  have head: "dh_header h' = dh_header h" "dh_patch h' = dh_patch h @ unlines 10 foreign"
    using buildHunk_patch [OF h'] buildHunk_patch [OF h(1)] by simp_all
  let ?f = "f\<lparr> df_hunks := hs @ [h'] \<rparr>"
  have "hunk_ok sha256 (df_oldPath f, df_newPath f) h'"
    unfolding hunk_ok_def head(1) using h' h(2-4) foreign by (intro exI [of _ "body @ foreign"]) simp
  then have all: "list_all (hunk_ok sha256 (df_oldPath ?f, df_newPath ?f)) (df_hunks ?f)" using hok hunks by simp
  have "?f = file_of (l # ls) (df_hunks ?f)" by (subst hdr(1)) (simp add: file_of_def Let_def)
  with all have "file_ok sha256 ?f" unfolding file_ok_def using hdr(2-4) by blast
  with ok have "list_all (file_ok sha256) (fs @ [?f])" by simp
  from parse_file_patches [OF this] obtain d' where
    "parseUnifiedDiff sha256 (concat (map file_patch (fs @ [?f]))) = Inr d'" "pd_files d' = fs @ [?f]" by blast
  moreover have "concat (map file_patch (fs @ [?f])) = concat (map file_patch (pd_files d)) @ unlines 10 foreign"
    using files hunks head(2) by (simp add: file_patch_def)
  ultimately show ?thesis using head(2) by (intro exI [of _ d'] exI [of _ ?f] exI [of _ h']) simp
qed

text \<open>\<open>changes.ts\<close> takes a file of unknown status for a conflict; the parser never reports that status.\<close>

definition conflictsFromDiff :: "diff_file list \<Rightarrow> bool" where
  "conflictsFromDiff files = list_ex (\<lambda>f. df_status f = UnknownStatus) files"

theorem conflictsFromDiff_never:
  assumes "parseUnifiedDiff sha256 raw = Inr d"
  shows "\<not> conflictsFromDiff (pd_files d)"
proof -
  have "df_status f \<noteq> UnknownStatus" if "file_ok sha256 f" for f
  proof -
    obtain l ls where "f = file_of (l # ls) (df_hunks f)" using \<open>file_ok sha256 f\<close> by (rule file_okE)
    then have "df_status f = statusFromHeader (unlines 10 (l # ls)) (is_binary (l # ls))"
      by (metis diff_file.select_convs(3) file_of_def)
    then show ?thesis by (simp add: statusFromHeader_def)
  qed
  with parsed_files(1) [OF assms] show ?thesis by (auto simp: conflictsFromDiff_def list_all_iff list_ex_iff)
qed

end
