(* ===== verification/Git_Status.thy ===== *)
theory Git_Status
  imports Git_Diff
begin

text \<open>
  \<open>packages/git-engine/src/repository/status-parser.ts\<close>: reading \<open>git status --porcelain=v2 --branch -z\<close>, a
  sequence of records that each end with a NUL, and the ahead and behind counts of \<open>git rev-list\<close>.
\<close>

section \<open>Data\<close>

datatype file_state = Unmodified | AddedState | CopiedState | DeletedState | ModifiedState | RenamedState | TypeChanged
  | UnmergedState | UntrackedState | IgnoredState

datatype entry_kind = OrdinaryEntry | RenamedOrCopied | UnmergedEntry | UntrackedEntry | IgnoredEntry

record status_entry =
  se_kind :: entry_kind
  se_path :: utf16
  se_originalPath :: "utf16 option"
  se_index :: file_state
  se_worktree :: file_state
  se_submodule :: "utf16 option"
  se_score :: "utf16 option"

record git_status =
  gs_branch :: "utf16 option"
  gs_detached :: bool
  gs_headOid :: "utf16 option"
  gs_upstream :: "utf16 option"
  gs_ahead :: nat
  gs_behind :: nat
  gs_entries :: "status_entry list"
  gs_dirty :: bool
  gs_staged :: bool
  gs_unstaged :: bool
  gs_untracked :: bool
  gs_conflicted :: bool

definition state_unit :: "file_state \<Rightarrow> nat" where
  "state_unit s = (case s of
     Unmodified \<Rightarrow> 46 | AddedState \<Rightarrow> 65 | CopiedState \<Rightarrow> 67 | DeletedState \<Rightarrow> 68 | ModifiedState \<Rightarrow> 77
   | RenamedState \<Rightarrow> 82 | TypeChanged \<Rightarrow> 84 | UnmergedState \<Rightarrow> 85 | UntrackedState \<Rightarrow> 63 | IgnoredState \<Rightarrow> 33)"

definition FILE_STATES :: "file_state list" where
  "FILE_STATES = [Unmodified, AddedState, CopiedState, DeletedState, ModifiedState, RenamedState, TypeChanged,
     UnmergedState, UntrackedState, IgnoredState]"

definition fileState :: "nat \<Rightarrow> file_state git" where
  "fileState value =
     (case find (\<lambda>s. state_unit s = value) FILE_STATES of
        Some s \<Rightarrow> Inr s
      | None \<Rightarrow> Inl (GitEngineError COMMAND_FAILED (js ''Unrecognized Git file state: '' @ [value]) []))"

definition xy :: "utf16 \<Rightarrow> (file_state \<times> file_state) git" where
  "xy value =
     (case value of
        [x, y] \<Rightarrow> (case fileState x of
                     Inl e \<Rightarrow> Inl e
                   | Inr i \<Rightarrow> (case fileState y of Inl e \<Rightarrow> Inl e | Inr w \<Rightarrow> Inr (i, w)))
      | _ \<Rightarrow> Inl (GitEngineError COMMAND_FAILED (js ''Malformed Git status code: '' @ value) []))"

section \<open>Fields of a record\<close>

text \<open>\<open>[^ ]+\<close> and the space after it; then \<open>n\<close> such fields.\<close>

definition take_field :: "utf16 \<Rightarrow> (utf16 \<times> utf16) option" where
  "take_field s =
     (let word = takeWhile (\<lambda>c. c \<noteq> 32) s in
      if word = [] then None else case dropWhile (\<lambda>c. c \<noteq> 32) s of [] \<Rightarrow> None | _ # rest \<Rightarrow> Some (word, rest))"

fun take_fields :: "nat \<Rightarrow> utf16 \<Rightarrow> (utf16 list \<times> utf16) option" where
  "take_fields 0 s = Some ([], s)"
| "take_fields (Suc n) s =
     (case take_field s of
        None \<Rightarrow> None
      | Some (word, rest) \<Rightarrow> (case take_fields n rest of None \<Rightarrow> None | Some (ws, rest') \<Rightarrow> Some (word # ws, rest')))"

text \<open>A record of a kind: its tag, a two-letter code and the given number of further fields; the path is the rest.\<close>

definition tagged :: "utf16 \<Rightarrow> nat \<Rightarrow> utf16 \<Rightarrow> (utf16 \<times> utf16 list \<times> utf16) option" where
  "tagged tag n r =
     (if \<not> starts_with tag r then None
      else case take_fields (Suc n) (drop (length tag) r) of
        Some (code # ws, path) \<Rightarrow> if length code = 2 then Some (code, ws, path) else None
      | _ \<Rightarrow> None)"

text \<open>\<open>\\+(\\d+) -(\\d+)\<close> up to the end of the record.\<close>

definition ahead_behind :: "utf16 \<Rightarrow> (nat \<times> nat) option" where
  "ahead_behind s =
     (if \<not> starts_with (js ''+'') s then None
      else let a = takeWhile digit_unit (drop 1 s); rest = dropWhile digit_unit (drop 1 s) in
        if a = [] \<or> \<not> starts_with (js '' -'') rest then None
        else let b = drop 2 rest in
          if b = [] \<or> \<not> list_all digit_unit b then None else Some (number_of a, number_of b))"

section \<open>The parser\<close>

record status_acc =
  ac_branch :: "utf16 option"
  ac_headOid :: "utf16 option"
  ac_upstream :: "utf16 option"
  ac_ahead :: nat
  ac_behind :: nat
  ac_entries :: "status_entry list"

definition push_entry :: "status_entry \<Rightarrow> status_acc \<Rightarrow> status_acc" where
  "push_entry e acc = acc\<lparr> ac_entries := ac_entries acc @ [e] \<rparr>"

definition after_prefix :: "string \<Rightarrow> utf16 \<Rightarrow> utf16" where
  "after_prefix p r = drop (length p) r"

text \<open>The records \<open># branch.\<close> and, last, the pieces that are none of the known kinds.\<close>

definition header_record :: "utf16 \<Rightarrow> status_acc \<Rightarrow> status_acc option" where
  "header_record r acc =
     (if starts_with (js ''# branch.oid '') r
      then let value = after_prefix ''# branch.oid '' r in
        Some (acc\<lparr> ac_headOid := if value = js ''(initial)'' then None else Some value \<rparr>)
      else if starts_with (js ''# branch.head '') r
      then let value = after_prefix ''# branch.head '' r in
        Some (acc\<lparr> ac_branch := if value = js ''(detached)'' then None else Some value \<rparr>)
      else if starts_with (js ''# branch.upstream '') r
      then Some (acc\<lparr> ac_upstream := Some (after_prefix ''# branch.upstream '' r) \<rparr>)
      else if starts_with (js ''# branch.ab '') r
      then Some (case ahead_behind (after_prefix ''# branch.ab '' r) of
                   Some (ahead, behind) \<Rightarrow> acc\<lparr> ac_ahead := ahead, ac_behind := behind \<rparr>
                 | None \<Rightarrow> acc)
      else None)"

definition plain_entry :: "entry_kind \<Rightarrow> utf16 \<Rightarrow> file_state \<Rightarrow> status_entry" where
  "plain_entry kind path state =
     \<lparr> se_kind = kind, se_path = path, se_originalPath = None, se_index = state, se_worktree = state,
       se_submodule = None, se_score = None \<rparr>"

text \<open>One record that stands for itself: ordinary, unmerged, untracked or ignored.\<close>

definition coded_entry :: "entry_kind \<Rightarrow> utf16 \<times> utf16 list \<times> utf16 \<Rightarrow> status_entry git" where
  "coded_entry kind m =
     (case m of (code, ws, path) \<Rightarrow>
        (case xy code of
           Inl e \<Rightarrow> Inl e
         | Inr (i, w) \<Rightarrow>
             Inr \<lparr> se_kind = kind, se_path = path, se_originalPath = None, se_index = i, se_worktree = w,
               se_submodule = Some (hd ws), se_score = None \<rparr>))"

definition single_entry :: "utf16 \<Rightarrow> status_entry git" where
  "single_entry r =
     (case tagged (js ''u '') 8 r of
        Some m \<Rightarrow> coded_entry UnmergedEntry m
      | None \<Rightarrow>
          if starts_with (js ''? '') r then Inr (plain_entry UntrackedEntry (drop 2 r) UntrackedState)
          else if starts_with (js ''! '') r then Inr (plain_entry IgnoredEntry (drop 2 r) IgnoredState)
          else Inl (GitEngineError COMMAND_FAILED (js ''Unable to parse Git status output.'') [(''record'', DetailText r)]))"

fun parse_records :: "status_acc \<Rightarrow> utf16 list \<Rightarrow> status_acc git" where
  "parse_records acc [] = Inr acc"
| "parse_records acc (r # rs) =
     (if r = [] then parse_records acc rs
      else case header_record r acc of
        Some acc' \<Rightarrow> parse_records acc' rs
      | None \<Rightarrow>
          (case tagged (js ''1 '') 6 r of
             Some m \<Rightarrow>
               (case coded_entry OrdinaryEntry m of
                  Inl e \<Rightarrow> Inl e
                | Inr entry \<Rightarrow> parse_records (push_entry entry acc) rs)
           | None \<Rightarrow>
               (case tagged (js ''2 '') 7 r of
                  Some (code, ws, path) \<Rightarrow>
                    (case xy code of
                       Inl e \<Rightarrow> Inl e
                     | Inr (i, w) \<Rightarrow>
                         (case rs of
                            [] \<Rightarrow> Inl (GitEngineError COMMAND_FAILED (js ''Rename status omitted its original path.'') [])
                          | originalPath # rs' \<Rightarrow>
                              if originalPath = []
                              then Inl (GitEngineError COMMAND_FAILED (js ''Rename status omitted its original path.'') [])
                              else parse_records
                                (push_entry \<lparr> se_kind = RenamedOrCopied, se_path = path, se_originalPath = Some originalPath,
                                   se_index = i, se_worktree = w, se_submodule = Some (hd ws), se_score = Some (ws ! 6) \<rparr> acc) rs'))
                | None \<Rightarrow>
                    (case single_entry r of
                       Inl e \<Rightarrow> Inl e
                     | Inr entry \<Rightarrow> parse_records (push_entry entry acc) rs))))"

definition no_status :: status_acc where
  "no_status = \<lparr> ac_branch = None, ac_headOid = None, ac_upstream = None, ac_ahead = 0, ac_behind = 0, ac_entries = [] \<rparr>"

definition status_of :: "status_acc \<Rightarrow> git_status" where
  "status_of acc =
     (let meaningful = filter (\<lambda>e. se_kind e \<noteq> IgnoredEntry) (ac_entries acc);
          changed = (\<lambda>state e. se_kind e \<noteq> UntrackedEntry \<and> state e \<noteq> Unmodified \<and> state e \<noteq> UntrackedState) in
      \<lparr> gs_branch = ac_branch acc, gs_detached = (ac_branch acc = None \<and> ac_headOid acc \<noteq> None),
        gs_headOid = ac_headOid acc, gs_upstream = ac_upstream acc, gs_ahead = ac_ahead acc, gs_behind = ac_behind acc,
        gs_entries = ac_entries acc, gs_dirty = (meaningful \<noteq> []),
        gs_staged = list_ex (changed se_index) meaningful, gs_unstaged = list_ex (changed se_worktree) meaningful,
        gs_untracked = list_ex (\<lambda>e. se_kind e = UntrackedEntry) meaningful,
        gs_conflicted = list_ex (\<lambda>e. se_kind e = UnmergedEntry \<or> se_index e = UnmergedState
            \<or> se_worktree e = UnmergedState) meaningful \<rparr>)"

definition parseGitStatus :: "utf16 \<Rightarrow> git_status git" where
  "parseGitStatus out =
     (case parse_records no_status (split_on 0 out) of Inl e \<Rightarrow> Inl e | Inr acc \<Rightarrow> Inr (status_of acc))"

text \<open>\<open>\\s\<close> of a regular expression, and the counts of \<open>git rev-list --left-right --count\<close>.\<close>

definition space_unit :: "nat \<Rightarrow> bool" where
  "space_unit c = (9 \<le> c \<and> c \<le> 13 \<or> c \<in> {32, 160, 0x1680, 0x2028, 0x2029, 0x202F, 0x205F, 0x3000, 0xFEFF}
     \<or> 0x2000 \<le> c \<and> c \<le> 0x200A)"

record ahead_behind_counts =
  ab_ahead :: nat
  ab_behind :: nat

definition parseAheadBehind :: "utf16 \<Rightarrow> ahead_behind_counts git" where
  "parseAheadBehind out =
     (let s = dropWhile space_unit out; first = takeWhile digit_unit s; r = dropWhile digit_unit s;
          second = dropWhile space_unit r; digits = takeWhile digit_unit second in
      if first = [] \<or> takeWhile space_unit r = [] \<or> digits = [] \<or> \<not> list_all space_unit (dropWhile digit_unit second)
      then Inl (GitEngineError COMMAND_FAILED (js ''Unable to parse ahead/behind counts.'') [(''output'', DetailText out)])
      else Inr \<lparr> ab_ahead = number_of digits, ab_behind = number_of first \<rparr>)"

section \<open>What git writes\<close>

text \<open>The records of a status: ids and modes the parser does not use are arbitrary fields.\<close>

datatype git_record =
    HeadOid utf16
  | InitialHead
  | HeadBranch utf16
  | DetachedHead
  | Upstream utf16
  | AheadBehind nat nat
  | Ordinary file_state file_state utf16 "utf16 list" utf16
  | RenameOrCopy file_state file_state utf16 "utf16 list" utf16 utf16 utf16
  | Unmerged file_state file_state utf16 "utf16 list" utf16
  | Untracked utf16
  | Ignored utf16

definition words :: "utf16 list \<Rightarrow> utf16" where
  "words ws = concat (map (\<lambda>w. w @ [32]) ws)"

definition state_code :: "file_state \<Rightarrow> file_state \<Rightarrow> utf16" where
  "state_code i w = [state_unit i, state_unit w]"

fun record_texts :: "git_record \<Rightarrow> utf16 list" where
  "record_texts (HeadOid oid) = [js ''# branch.oid '' @ oid]"
| "record_texts InitialHead = [js ''# branch.oid (initial)'']"
| "record_texts (HeadBranch b) = [js ''# branch.head '' @ b]"
| "record_texts DetachedHead = [js ''# branch.head (detached)'']"
| "record_texts (Upstream u) = [js ''# branch.upstream '' @ u]"
| "record_texts (AheadBehind a b) = [js ''# branch.ab +'' @ numeral_of a @ js '' -'' @ numeral_of b]"
| "record_texts (Ordinary i w sub ws path) = [js ''1 '' @ words (state_code i w # sub # ws) @ path]"
| "record_texts (RenameOrCopy i w sub ws score path original) =
     [js ''2 '' @ words (state_code i w # sub # ws @ [score]) @ path, original]"
| "record_texts (Unmerged i w sub ws path) = [js ''u '' @ words (state_code i w # sub # ws) @ path]"
| "record_texts (Untracked path) = [js ''? '' @ path]"
| "record_texts (Ignored path) = [js ''! '' @ path]"

text \<open>A field is not empty and has no space; no part of a record has a NUL.\<close>

definition field_ok :: "utf16 \<Rightarrow> bool" where
  "field_ok w = (w \<noteq> [] \<and> 32 \<notin> set w)"

fun record_ok :: "git_record \<Rightarrow> bool" where
  "record_ok (HeadOid oid) = (oid \<noteq> js ''(initial)'')"
| "record_ok (HeadBranch b) = (b \<noteq> js ''(detached)'')"
| "record_ok (Ordinary i w sub ws path) = (field_ok sub \<and> list_all field_ok ws \<and> length ws = 5)"
| "record_ok (RenameOrCopy i w sub ws score path original) =
     (field_ok sub \<and> list_all field_ok ws \<and> length ws = 5 \<and> field_ok score \<and> original \<noteq> [])"
| "record_ok (Unmerged i w sub ws path) = (field_ok sub \<and> list_all field_ok ws \<and> length ws = 7)"
| "record_ok _ = True"

text \<open>What each record says.\<close>

fun tell :: "git_record \<Rightarrow> status_acc \<Rightarrow> status_acc" where
  "tell (HeadOid oid) acc = acc\<lparr> ac_headOid := Some oid \<rparr>"
| "tell InitialHead acc = acc\<lparr> ac_headOid := None \<rparr>"
| "tell (HeadBranch b) acc = acc\<lparr> ac_branch := Some b \<rparr>"
| "tell DetachedHead acc = acc\<lparr> ac_branch := None \<rparr>"
| "tell (Upstream u) acc = acc\<lparr> ac_upstream := Some u \<rparr>"
| "tell (AheadBehind a b) acc = acc\<lparr> ac_ahead := a, ac_behind := b \<rparr>"
| "tell (Ordinary i w sub ws path) acc = push_entry
     \<lparr> se_kind = OrdinaryEntry, se_path = path, se_originalPath = None, se_index = i, se_worktree = w,
       se_submodule = Some sub, se_score = None \<rparr> acc"
| "tell (RenameOrCopy i w sub ws score path original) acc = push_entry
     \<lparr> se_kind = RenamedOrCopied, se_path = path, se_originalPath = Some original, se_index = i, se_worktree = w,
       se_submodule = Some sub, se_score = Some score \<rparr> acc"
| "tell (Unmerged i w sub ws path) acc = push_entry
     \<lparr> se_kind = UnmergedEntry, se_path = path, se_originalPath = None, se_index = i, se_worktree = w,
       se_submodule = Some sub, se_score = None \<rparr> acc"
| "tell (Untracked path) acc = push_entry (plain_entry UntrackedEntry path UntrackedState) acc"
| "tell (Ignored path) acc = push_entry (plain_entry IgnoredEntry path IgnoredState) acc"

section \<open>Reading what git writes\<close>

lemma fileState_unit [simp]: "fileState (state_unit s) = Inr s"
  by (cases s) (simp_all add: fileState_def FILE_STATES_def state_unit_def)

lemma xy_code [simp]: "xy (state_code i w) = Inr (i, w)"
  by (simp add: xy_def state_code_def)

lemma field_word: "field_ok w \<Longrightarrow> take_field (w @ 32 # rest) = Some (w, rest)"
proof -
  assume w: "field_ok w"
  then have "\<And>c. c \<in> set w \<Longrightarrow> c \<noteq> 32" by (auto simp: field_ok_def)
  then have "takeWhile (\<lambda>c. c \<noteq> 32) (w @ 32 # rest) = w" "dropWhile (\<lambda>c. c \<noteq> 32) (w @ 32 # rest) = 32 # rest"
    by (simp_all add: takeWhile_append2 dropWhile_append2)
  with w show ?thesis by (simp add: take_field_def field_ok_def)
qed

lemma take_fields_words: "list_all field_ok ws \<Longrightarrow> take_fields (length ws) (words ws @ rest) = Some (ws, rest)"
  by (induction ws) (simp_all add: words_def field_word)

lemma state_code_ok: "field_ok (state_code i w)" "length (state_code i w) = 2"
  by (cases i; cases w; simp add: field_ok_def state_code_def state_unit_def)+

lemma tagged_words:
  assumes "list_all field_ok ws"
  shows "tagged tag (length ws) (tag @ words (state_code i w # ws) @ path) = Some (state_code i w, ws, path)"
  using take_fields_words [of "state_code i w # ws" path] assms state_code_ok by (simp add: tagged_def)

lemma tagged_other: "tag \<noteq> [] \<Longrightarrow> r \<noteq> [] \<Longrightarrow> hd tag \<noteq> hd r \<Longrightarrow> tagged tag n r = None"
  by (cases tag; cases r) (simp_all add: tagged_def)

lemma header_record_other: "r \<noteq> [] \<Longrightarrow> hd r \<noteq> 35 \<Longrightarrow> header_record r acc = None"
  by (cases r) (simp_all add: header_record_def js_def)

lemma ahead_behind_text: "ahead_behind (js ''+'' @ numeral_of a @ js '' -'' @ numeral_of b) = Some (a, b)"
proof -
  have digits: "\<forall>c \<in> set (numeral_of n). digit_unit c" for n using numeral_of_digits by blast
  have rest: "takeWhile digit_unit (numeral_of a @ js '' -'' @ numeral_of b) = numeral_of a"
    "dropWhile digit_unit (numeral_of a @ js '' -'' @ numeral_of b) = js '' -'' @ numeral_of b"
    using digits by (simp_all add: takeWhile_append2 dropWhile_append2 js_def digit_unit_def)
  have "list_all digit_unit (numeral_of b)" using digits by (simp add: list_all_iff)
  with rest show ?thesis by (simp add: ahead_behind_def js_def)
qed

lemma parse_record:
  assumes "record_ok r"
  shows "parse_records acc (record_texts r @ rs) = parse_records (tell r acc) rs"
  using assms
proof (cases r)
  case (Ordinary i w sub ws path)
  then have "tagged (js ''1 '') 6 (js ''1 '' @ words (state_code i w # sub # ws) @ path) = Some (state_code i w, sub # ws, path)"
    using assms tagged_words [of "sub # ws" "js ''1 ''" i w path] by simp
  then show ?thesis using Ordinary by (simp add: header_record_other js_def coded_entry_def)
next
  case (RenameOrCopy i w sub ws score path original)
  then have "tagged (js ''2 '') 7 (js ''2 '' @ words (state_code i w # sub # ws @ [score]) @ path)
      = Some (state_code i w, sub # ws @ [score], path)"
    using assms tagged_words [of "sub # ws @ [score]" "js ''2 ''" i w path] by simp
  then show ?thesis using RenameOrCopy assms
    by (simp add: header_record_other tagged_other js_def nth_append)
next
  case (Unmerged i w sub ws path)
  then have "tagged (js ''u '') 8 (js ''u '' @ words (state_code i w # sub # ws) @ path) = Some (state_code i w, sub # ws, path)"
    using assms tagged_words [of "sub # ws" "js ''u ''" i w path] by simp
  then show ?thesis using Unmerged
    by (simp add: header_record_other tagged_other js_def coded_entry_def single_entry_def)
next
  case (AheadBehind a b)
  have "after_prefix ''# branch.ab '' (js ''# branch.ab +'' @ s) = js ''+'' @ s" for s by (simp add: after_prefix_def js_def)
  then show ?thesis using AheadBehind ahead_behind_text by (simp add: header_record_def js_def)
qed (auto simp: header_record_def after_prefix_def js_def tagged_other single_entry_def)

lemma parse_records_texts:
  "list_all record_ok rs \<Longrightarrow> parse_records acc (concat (map record_texts rs) @ [[]]) = Inr (fold tell rs acc)"
  by (induction rs arbitrary: acc) (simp_all add: parse_record)

text \<open>
  C30. Whatever status git writes, the parser reads back exactly what its records say: branch, ids and counts,
  and one entry for each record, in order, with every path kept whole, spaces, line feeds and all.
\<close>

theorem parseGitStatus_roundtrip:
  assumes "list_all record_ok rs" and "\<And>t. t \<in> set (concat (map record_texts rs)) \<Longrightarrow> 0 \<notin> set t"
  shows "parseGitStatus (unlines 0 (concat (map record_texts rs))) = Inr (status_of (fold tell rs no_status))"
  using split_on_unlines [of "concat (map record_texts rs)" 0] assms parse_records_texts by (simp add: parseGitStatus_def)

text \<open>The counts git prints, behind first, with a tab between them and a line feed after them.\<close>

lemma parseAheadBehind_roundtrip:
  "parseAheadBehind (numeral_of behind @ 9 # numeral_of ahead @ [10]) = Inr \<lparr> ab_ahead = ahead, ab_behind = behind \<rparr>"
proof -
  have digits: "\<And>c. c \<in> set (numeral_of n) \<Longrightarrow> digit_unit c" for n by (rule numeral_of_digits)
  have front: "dropWhile space_unit (numeral_of n @ r) = numeral_of n @ r" for n r
  proof -
    obtain d ds where n: "numeral_of n = d # ds" by (cases "numeral_of n") simp_all
    have "digit_unit d" using digits [of d n] n by simp
    then have "\<not> space_unit d" by (auto simp: digit_unit_def space_unit_def)
    then show ?thesis by (simp add: n)
  qed
  have split: "takeWhile digit_unit (numeral_of n @ c # r) = numeral_of n" "dropWhile digit_unit (numeral_of n @ c # r) = c # r"
    if "\<not> digit_unit c" for n c r using digits that by (simp_all add: takeWhile_append2 dropWhile_append2)
  have "\<not> digit_unit 9" "\<not> digit_unit 10" "space_unit 9" "space_unit 10" by (simp_all add: digit_unit_def space_unit_def)
  then show ?thesis by (simp add: parseAheadBehind_def front split Let_def)
qed

end
