(* ===== verification/Git_Samples.thy ===== *)
theory Git_Samples
  imports Git_Selection Git_Status "HOL-Library.Code_Target_Numeral"
begin

text \<open>
  A diff of two files and a status, and the properties of the git parsers applied to them. A checksum
  stands for the digest.
\<close>

definition checksum :: "nat list \<Rightarrow> utf16" where
  "checksum bytes = [foldl (\<lambda>h b. (31 * h + b) mod 65521) 7 bytes]"

definition sample_lines :: "utf16 list" where
  "sample_lines = map js
     [''diff --git a/f b/f'', ''index 1..2 100644'', ''--- a/f'', ''+++ b/f'',
      ''@@ -1,2 +1,2 @@'', '' x'', ''-y'', ''+++i'', ''@@ -9 +9 @@'', ''-p'', ''+q'',
      ''diff --git a/g b/g'', ''new file mode 100644'', ''--- /dev/null'', ''+++ b/g'', ''@@ -0,0 +1 @@'', ''+new'']"

definition sample_raw :: utf16 where
  "sample_raw = unlines 10 sample_lines"

definition holds :: "'a git \<Rightarrow> ('a \<Rightarrow> bool) \<Rightarrow> bool" where
  "holds m P = (case m of Inl _ \<Rightarrow> False | Inr x \<Rightarrow> P x)"

lemma holdsD: "holds m P \<Longrightarrow> \<exists>x. m = Inr x \<and> P x"
  by (simp add: holds_def split: sum.splits)

lemma sample_parses:
  "holds (parseUnifiedDiff checksum sample_raw) (\<lambda>d. distinct (map dh_id (diff_hunks d)) \<and> length (diff_hunks d) = 3
     \<and> starts_with (js ''diff --git '') sample_raw \<and> last sample_raw = 10
     \<and> holds (selectDiffHunks d [dh_id (diff_hunks d ! 1)]) (\<lambda>_. True))"
  by code_simp

lemma sample_diff:
  obtains d patch where "parseUnifiedDiff checksum sample_raw = Inr d" "distinct (map dh_id (diff_hunks d))"
    "length (diff_hunks d) = 3" "starts_with (js ''diff --git '') sample_raw" "last sample_raw = 10"
    "selectDiffHunks d [dh_id (diff_hunks d ! 1)] = Inr patch"
  using holdsD [OF sample_parses] holdsD by metis

theorem parseUnifiedDiff_lossless_witness:
  "\<exists>d. parseUnifiedDiff checksum sample_raw = Inr d \<and> concat (map file_patch (pd_files d)) = sample_raw"
proof -
  obtain d where d: "parseUnifiedDiff checksum sample_raw = Inr d" "starts_with (js ''diff --git '') sample_raw"
    "last sample_raw = 10" by (rule sample_diff)
  from parseUnifiedDiff_lossless [OF d(1)] d show ?thesis by blast
qed

theorem parsed_hunk_lines_witness:
  "\<exists>d h. parseUnifiedDiff checksum sample_raw = Inr d \<and> h \<in> set (diff_hunks d)
     \<and> numbered (dh_oldStart h) (dh_newStart h) (dh_lines h)"
proof -
  obtain d where d: "parseUnifiedDiff checksum sample_raw = Inr d" "length (diff_hunks d) = 3" by (rule sample_diff)
  then have "diff_hunks d ! 0 \<in> set (diff_hunks d)" by (intro nth_mem) simp
  from parsed_hunk_lines [OF d(1) this] this d(1) show ?thesis by blast
qed

lemma sample_counts: "holds (parseUnifiedDiff checksum sample_raw) (\<lambda>d. length (shown Addition d) = 3 \<and> pd_additions d = 2)"
  by code_simp

theorem parsed_counts_witness:
  "\<exists>d. parseUnifiedDiff checksum sample_raw = Inr d
     \<and> length (filter (\<lambda>l. starts_with (js ''++'') (dl_content l)) (shown Addition d)) = 1"
proof -
  obtain d where d: "parseUnifiedDiff checksum sample_raw = Inr d" "length (shown Addition d) = 3" "pd_additions d = 2"
    using holdsD [OF sample_counts] by blast
  from parsed_counts [OF d(1)] d show ?thesis by simp
qed

theorem selectDiffHunks_correct_witness:
  "\<exists>d patch. parseUnifiedDiff checksum sample_raw = Inr d
     \<and> patch = concat (map file_patch (chosen_files [dh_id (diff_hunks d ! 1)] (pd_files d)))
     \<and> selectDiffHunks d [dh_id (diff_hunks d ! 1)] = Inr patch"
proof -
  obtain d patch where d: "parseUnifiedDiff checksum sample_raw = Inr d" "distinct (map dh_id (diff_hunks d))"
    "selectDiffHunks d [dh_id (diff_hunks d ! 1)] = Inr patch" by (rule sample_diff)
  from selectDiffHunks_correct [OF d(2), of "[dh_id (diff_hunks d ! 1)]" patch] d show ?thesis by blast
qed

theorem selected_patch_roundtrip_witness:
  "\<exists>d patch d'. selectDiffHunks d [dh_id (diff_hunks d ! 1)] = Inr patch \<and> parseUnifiedDiff checksum patch = Inr d'
     \<and> diff_hunks d' = filter (\<lambda>h. dh_id h \<in> {dh_id (diff_hunks d ! 1)}) (diff_hunks d)"
proof -
  obtain d patch where d: "parseUnifiedDiff checksum sample_raw = Inr d" "distinct (map dh_id (diff_hunks d))"
    "selectDiffHunks d [dh_id (diff_hunks d ! 1)] = Inr patch" by (rule sample_diff)
  from selected_patch_roundtrip [OF d] d(3) show ?thesis by auto
qed

text \<open>A file name with a tab, a quote and a snowman.\<close>

definition odd_name :: utf16 where
  "odd_name = [120, 9, 34, 0x2603]"

theorem pathFromMarker_quoted_witness:
  "pathFromMarker (js ''+++ '' @ git_quoted (js ''b/'' @ odd_name)) = Some odd_name"
proof (rule pathFromMarker_quoted)
  show "\<And>u. u \<in> set odd_name \<Longrightarrow> u < 0x10000" by (auto simp: odd_name_def)
  show "well_formed odd_name" by code_simp
qed (simp_all add: js_def)

definition conflicted_section :: "utf16 list" where
  "conflicted_section = map js
     [''diff --cc c'', ''index 1,2..0'', ''--- a/c'', ''+++ b/c'', ''@@@ -1,1 -1,1 +1,5 @@@'', ''++<<<<<<< HEAD'', '' +ours'']"

lemma sample_last:
  "holds (parseUnifiedDiff checksum sample_raw) (\<lambda>d. pd_files d \<noteq> [] \<and> df_hunks (last (pd_files d)) \<noteq> [])"
  "list_all inside conflicted_section" "no_feed conflicted_section"
  by code_simp+

theorem foreign_section_joins_hunk_witness:
  "\<exists>d d' f' h'. parseUnifiedDiff checksum sample_raw = Inr d
     \<and> parseUnifiedDiff checksum (sample_raw @ unlines 10 conflicted_section) = Inr d'
     \<and> length (pd_files d') = length (pd_files d) \<and> f' \<in> set (pd_files d') \<and> h' \<in> set (df_hunks f')
     \<and> (\<exists>before. dh_patch h' = before @ unlines 10 conflicted_section)"
proof -
  obtain d where d: "parseUnifiedDiff checksum sample_raw = Inr d" "pd_files d \<noteq> []" "df_hunks (last (pd_files d)) \<noteq> []"
    using holdsD [OF sample_last(1)] by blast
  have whole: "concat (map file_patch (pd_files d)) = sample_raw"
    using parsed_patch [OF d(1)] sample_diff by metis
  obtain fs f where fs: "pd_files d = fs @ [f]" using d(2) by (cases "pd_files d" rule: rev_cases) auto
  then obtain hs h where hs: "df_hunks f = hs @ [h]" using d(3) by (cases "df_hunks f" rule: rev_cases) auto
  from foreign_section_joins_hunk [OF d(1) fs hs sample_last(2,3)] obtain d' f' h' where
    "parseUnifiedDiff checksum (sample_raw @ unlines 10 conflicted_section) = Inr d'"
    "pd_files d' = fs @ [f']" "df_hunks f' = hs @ [h']" "dh_patch h' = dh_patch h @ unlines 10 conflicted_section"
    unfolding whole by blast
  with d(1) fs show ?thesis
    by (intro exI [of _ d] exI [of _ d'] exI [of _ f'] exI [of _ h']) auto
qed

theorem conflictsFromDiff_never_witness:
  "\<exists>d. parseUnifiedDiff checksum sample_raw = Inr d \<and> \<not> conflictsFromDiff (pd_files d)"
proof -
  obtain d where d: "parseUnifiedDiff checksum sample_raw = Inr d" by (rule sample_diff)
  from conflictsFromDiff_never [OF d] d show ?thesis by blast
qed

definition sample_records :: "git_record list" where
  "sample_records =
     [HeadOid (js ''abc''), HeadBranch (js ''main''), Upstream (js ''origin/main''), AheadBehind 2 10,
      Ordinary ModifiedState Unmodified (js ''N...'') (map js [''100644'', ''100644'', ''100644'', ''1'', ''2'']) (js ''a b''),
      RenameOrCopy RenamedState Unmodified (js ''N...'') (map js [''100644'', ''100644'', ''100644'', ''1'', ''2'']) (js ''R100'')
        (js ''new'') (js ''old name''),
      Untracked (js ''? x'' @ [10])]"

theorem parseGitStatus_roundtrip_witness:
  "parseGitStatus (unlines 0 (concat (map record_texts sample_records))) = Inr (status_of (fold tell sample_records no_status))"
proof (rule parseGitStatus_roundtrip)
  show "list_all record_ok sample_records" by code_simp
  have "list_all (\<lambda>t. 0 \<notin> set t) (concat (map record_texts sample_records))" by code_simp
  then show "0 \<notin> set t" if "t \<in> set (concat (map record_texts sample_records))" for t
    using that unfolding list_all_iff by blast
qed

end
