(* ===== verification/Outbound_Gate.thy ===== *)
theory Outbound_Gate
  imports Json_Text Iso_Time
begin

text \<open>
  \<open>apps/desktop/src/main/outbound/outbound-action-gate.ts\<close>: the one place that lets the application send
  something out. A disclosure of the action is prepared as a plan, a person confirms it, the disclosure
  is rebuilt and compared, and only then the action runs.

  An operation that may throw after it has already changed something returns the error together with the
  state it leaves. What the gate asks its surroundings for, the clock, fresh identifiers and the audit
  sink, is answered by a \<open>host\<close>, as a function of everything that happened before; the gate keeps that
  history as its trace. SHA-256 in hexadecimal is the host's as well. The clock shows valid dates.
\<close>

section \<open>Data\<close>

record destination =
  ds_kind :: utf16
  ds_endpoint :: utf16
  ds_resource :: utf16
  ds_transport :: utf16

record disclosure_detail =
  dd_label :: utf16
  dd_value :: utf16

record disclosure =
  dc_action :: utf16
  dc_title :: utf16
  dc_summary :: utf16
  dc_confirmLabel :: utf16
  dc_destination :: destination
  dc_details :: "disclosure_detail list"
  dc_warning :: utf16

record approval_plan =
  ap_id :: utf16
  ap_expiresAt :: string
  ap_disclosure :: disclosure
  ap_disclosureSha256 :: utf16

record pending_plan =
  pp_plan :: approval_plan
  pp_ownerId :: utf16
  pp_expiresAtMs :: int

text \<open>\<open>Thrown\<close> is what the surroundings throw: an \<open>Error\<close> of a name, or a value that is no \<open>Error\<close>.\<close>

datatype outbound_error =
    GateError string
  | OutboundDisclosureChangedError
  | InvalidDate
  | Thrown "utf16 option"

datatype audit_outcome = AuditAllowed | AuditDenied | AuditFailed

record outbound_audit =
  oa_category :: utf16
  oa_action :: utf16
  oa_outcome :: audit_outcome
  oa_metadata :: "(string \<times> utf16) list"

text \<open>
  The trace: what the gate asked and was told. \<open>Issued\<close> is a plan handed to its owner, \<open>Asked\<close> the
  confirmation shown for it and \<open>Approved\<close> its answer, \<open>Rebuilt\<close> the current disclosure, \<open>Executed\<close>
  the call of the action with the permit.
\<close>

datatype outbound_event =
    ReadClock int
  | MadeId utf16
  | Audited outbound_audit
  | Issued pending_plan
  | Asked pending_plan
  | Approved pending_plan
  | Rebuilt pending_plan disclosure
  | Executed pending_plan

record host =
  host_clock :: "outbound_event list \<Rightarrow> int"
  host_id :: "outbound_event list \<Rightarrow> utf16"
  host_sink :: "outbound_event list \<Rightarrow> outbound_audit \<Rightarrow> utf16 option option"
  host_sha256 :: "nat list \<Rightarrow> utf16"

record gate =
  og_plans :: "(utf16 \<times> pending_plan) list"
  og_approvalTtlMs :: int
  og_trace :: "outbound_event list"

section \<open>Operations that throw and change the state\<close>

type_synonym 'a act = "gate \<Rightarrow> (outbound_error + 'a) \<times> gate"

definition ret :: "'a \<Rightarrow> 'a act" where
  "ret x = (\<lambda>g. (Inr x, g))"

definition fail :: "outbound_error \<Rightarrow> 'a act" where
  "fail e = (\<lambda>g. (Inl e, g))"

definition seq :: "'a act \<Rightarrow> ('a \<Rightarrow> 'b act) \<Rightarrow> 'b act" where
  "seq m f = (\<lambda>g. case m g of (Inl e, g') \<Rightarrow> (Inl e, g') | (Inr x, g') \<Rightarrow> f x g')"

definition catch :: "'a act \<Rightarrow> (outbound_error \<Rightarrow> 'a act) \<Rightarrow> 'a act" where
  "catch m h = (\<lambda>g. case m g of (Inl e, g') \<Rightarrow> h e g' | (Inr x, g') \<Rightarrow> (Inr x, g'))"

definition happens :: "outbound_event \<Rightarrow> unit act" where
  "happens e = (\<lambda>g. (Inr (), g\<lparr> og_trace := og_trace g @ [e] \<rparr>))"

definition throw_unless :: "bool \<Rightarrow> string \<Rightarrow> unit act" where
  "throw_unless b msg = (if b then ret () else fail (GateError msg))"

definition now :: "host \<Rightarrow> int act" where
  "now H = (\<lambda>g. let t = host_clock H (og_trace g) in seq (happens (ReadClock t)) (\<lambda>_. ret t) g)"

definition createId :: "host \<Rightarrow> utf16 act" where
  "createId H = (\<lambda>g. let i = host_id H (og_trace g) in seq (happens (MadeId i)) (\<lambda>_. ret i) g)"

definition appendAudit :: "host \<Rightarrow> outbound_audit \<Rightarrow> unit act" where
  "appendAudit H a = (\<lambda>g. case host_sink H (og_trace g) a of
     Some name \<Rightarrow> (Inl (Thrown name), g)
   | None \<Rightarrow> happens (Audited a) g)"

definition plans_delete :: "utf16 \<Rightarrow> unit act" where
  "plans_delete i = (\<lambda>g. (Inr (), g\<lparr> og_plans := AList.delete i (og_plans g) \<rparr>))"

fun for_plans :: "(pending_plan \<Rightarrow> unit act) \<Rightarrow> pending_plan list \<Rightarrow> unit act" where
  "for_plans f [] = ret ()"
| "for_plans f (p # ps) = seq (f p) (\<lambda>_. for_plans f ps)"

section \<open>Checks and digests\<close>

definition MAX_PENDING_PLANS :: nat where
  "MAX_PENDING_PLANS = 256"

definition MAX_PENDING_PLANS_PER_OWNER :: nat where
  "MAX_PENDING_PLANS_PER_OWNER = 16"

definition DEFAULT_APPROVAL_TTL_MS :: int where
  "DEFAULT_APPROVAL_TTL_MS = 5 * 60000"

definition SAFE_ERROR_KINDS :: "utf16 list" where
  "SAFE_ERROR_KINDS = map js
     [''Error'', ''TypeError'', ''RangeError'', ''ReferenceError'', ''SyntaxError'', ''URIError'',
      ''AggregateError'', ''AbortError'', ''OutboundDisclosureChangedError'']"

definition error_name :: "outbound_error \<Rightarrow> utf16 option" where
  "error_name e = (case e of
     GateError _ \<Rightarrow> Some (js ''Error'')
   | OutboundDisclosureChangedError \<Rightarrow> Some (js ''OutboundDisclosureChangedError'')
   | InvalidDate \<Rightarrow> Some (js ''RangeError'')
   | Thrown name \<Rightarrow> name)"

definition safeErrorKind :: "outbound_error \<Rightarrow> utf16" where
  "safeErrorKind e = (case error_name e of
     None \<Rightarrow> js ''unknown-error''
   | Some name \<Rightarrow> if name \<in> set SAFE_ERROR_KINDS then name else js ''Error'')"

definition containsControl :: "utf16 \<Rightarrow> bool" where
  "containsControl s = list_ex (\<lambda>c. c \<le> 31 \<or> c = 127) s"

definition assertOwnerId :: "utf16 \<Rightarrow> unit act" where
  "assertOwnerId ownerId =
     throw_unless (\<not> (length ownerId < 1 \<or> length ownerId > 512 \<or> containsControl ownerId))
       ''Outbound approval owner IDs must be bounded single-line values.''"

definition allowedActions :: "utf16 list" where
  "allowedActions = map js
     [''docker-image-pull'', ''git-clone'', ''git-push'', ''github-status-check'', ''github-pull-request'',
      ''github-ci-status'', ''collaboration-connect'', ''collaboration-invite-create'',
      ''collaboration-invite-list'', ''collaboration-invite-redeem'', ''collaboration-invite-revoke'',
      ''collaboration-room-bootstrap'', ''collaboration-owner-recover'', ''collaboration-owner-refresh'',
      ''collaboration-members-list'', ''collaboration-member-update'', ''collaboration-member-revoke'',
      ''collaboration-audit-list'', ''diagnostics-send'', ''voice-model-download'', ''update-check'']"

definition allowedDestinations :: "utf16 list" where
  "allowedDestinations = map js
     [''container-registry'', ''git-remote'', ''github'', ''collaboration-server'', ''diagnostics-endpoint'',
      ''model-registry'', ''release-server'']"

fun details_ok :: "utf16 list \<Rightarrow> disclosure_detail list \<Rightarrow> bool" where
  "details_ok labels [] = True"
| "details_ok labels (d # ds) =
     (\<not> (length (dd_label d) < 1 \<or> length (dd_label d) > 128 \<or> containsControl (dd_label d)
         \<or> length (dd_value d) < 1 \<or> length (dd_value d) > 32768 \<or> 0 \<in> set (dd_value d)
         \<or> dd_label d \<in> set labels)
      \<and> details_ok (dd_label d # labels) ds)"

definition disclosure_values :: "disclosure \<Rightarrow> utf16 list" where
  "disclosure_values d =
     [dc_title d, dc_summary d, dc_confirmLabel d, dc_warning d, ds_endpoint (dc_destination d),
      ds_resource (dc_destination d), ds_transport (dc_destination d)]"

definition assertDisclosure :: "disclosure \<Rightarrow> unit act" where
  "assertDisclosure d =
     seq (throw_unless (dc_action d \<in> set allowedActions) ''Unsupported outbound action.'') (\<lambda>_.
     seq (throw_unless (ds_kind (dc_destination d) \<in> set allowedDestinations) ''Unsupported outbound destination kind.'') (\<lambda>_.
     seq (throw_unless (\<not> list_ex (\<lambda>v. length v < 1 \<or> length v > 32768 \<or> containsControl v) (disclosure_values d))
       ''Outbound disclosures must contain bounded non-empty values.'') (\<lambda>_.
     seq (throw_unless (\<not> length (dc_details d) > 32) ''Outbound disclosure has too many fields.'') (\<lambda>_.
     throw_unless (details_ok [] (dc_details d)) ''Outbound disclosure fields must be unique and bounded.''))))"

text \<open>\<open>JSON.stringify\<close> of a disclosure, its members in the order the interface declares them.\<close>

definition json_object :: "(string \<times> utf16) list \<Rightarrow> utf16" where
  "json_object members = js ''{'' @ json_commas (map (\<lambda>(k, v). json_quote (js k) @ js '':'' @ v) members) @ js ''}''"

definition destination_json :: "destination \<Rightarrow> utf16" where
  "destination_json d = json_object
     [(''kind'', json_quote (ds_kind d)), (''endpoint'', json_quote (ds_endpoint d)),
      (''resource'', json_quote (ds_resource d)), (''transport'', json_quote (ds_transport d))]"

definition detail_json :: "disclosure_detail \<Rightarrow> utf16" where
  "detail_json d = json_object [(''label'', json_quote (dd_label d)), (''value'', json_quote (dd_value d))]"

definition disclosure_json :: "disclosure \<Rightarrow> utf16" where
  "disclosure_json d = json_object
     [(''action'', json_quote (dc_action d)), (''title'', json_quote (dc_title d)),
      (''summary'', json_quote (dc_summary d)), (''confirmLabel'', json_quote (dc_confirmLabel d)),
      (''destination'', destination_json (dc_destination d)),
      (''details'', js ''['' @ json_commas (map detail_json (dc_details d)) @ js '']''),
      (''warning'', json_quote (dc_warning d))]"

definition disclosureFingerprint :: "host \<Rightarrow> disclosure \<Rightarrow> utf16" where
  "disclosureFingerprint H d = host_sha256 H (utf8_bytes (disclosure_json d))"

definition sha256_text :: "host \<Rightarrow> utf16 \<Rightarrow> utf16" where
  "sha256_text H s = host_sha256 H (utf8_bytes s)"

definition plan_action :: "pending_plan \<Rightarrow> utf16" where
  "plan_action p = dc_action (ap_disclosure (pp_plan p))"

definition auditMetadata :: "host \<Rightarrow> pending_plan \<Rightarrow> (string \<times> utf16) list" where
  "auditMetadata H p =
     (let d = ap_disclosure (pp_plan p) in
      [(''actionKind'', dc_action d), (''destinationKind'', ds_kind (dc_destination d)),
       (''disclosureSha256'', ap_disclosureSha256 (pp_plan p)),
       (''destinationSha256'', sha256_text H (destination_json (dc_destination d))),
       (''ownerSha256'', sha256_text H (pp_ownerId p)), (''approvalMode'', js ''single-use'')])"

section \<open>Audits\<close>

definition audit_external :: "host \<Rightarrow> utf16 \<Rightarrow> audit_outcome \<Rightarrow> (string \<times> utf16) list \<Rightarrow> unit act" where
  "audit_external H action result metadata =
     appendAudit H \<lparr> oa_category = js ''external-send'', oa_action = action, oa_outcome = result, oa_metadata = metadata \<rparr>"

definition auditPlanDenial :: "host \<Rightarrow> pending_plan \<Rightarrow> string \<Rightarrow> utf16 option \<Rightarrow> unit act" where
  "auditPlanDenial H p reason requesterOwnerId =
     audit_external H (plan_action p) AuditDenied
       (auditMetadata H p @ [(''reason'', js reason)]
        @ (case requesterOwnerId of None \<Rightarrow> [] | Some r \<Rightarrow> [(''requesterOwnerSha256'', sha256_text H r)]))"

definition auditUnknownPlan :: "host \<Rightarrow> utf16 \<Rightarrow> utf16 \<Rightarrow> string \<Rightarrow> unit act" where
  "auditUnknownPlan H ownerId planId reason =
     audit_external H (js ''approval-plan'') AuditDenied
       [(''ownerSha256'', sha256_text H ownerId), (''planIdSha256'', sha256_text H planId), (''reason'', js reason)]"

definition recordRequiredAudit :: "host \<Rightarrow> outbound_audit \<Rightarrow> unit act" where
  "recordRequiredAudit H a = appendAudit H a"

section \<open>Keeping the plans\<close>

definition discardExpiredPlans :: "host \<Rightarrow> unit act" where
  "discardExpiredPlans H =
     seq (now H) (\<lambda>t g.
       for_plans (\<lambda>p. if pp_expiresAtMs p > t then ret ()
           else seq (auditPlanDenial H p ''approval-expired-unused'' None) (\<lambda>_. plans_delete (ap_id (pp_plan p))))
         (map snd (og_plans g)) g)"

fun evict_owner :: "host \<Rightarrow> pending_plan list \<Rightarrow> unit act" where
  "evict_owner H [] = ret ()"
| "evict_owner H (oldest # ownerPlans) =
     (if length (oldest # ownerPlans) \<ge> MAX_PENDING_PLANS_PER_OWNER
      then seq (auditPlanDenial H oldest ''owner-plan-capacity-evicted'' None) (\<lambda>_.
           seq (plans_delete (ap_id (pp_plan oldest))) (\<lambda>_. evict_owner H ownerPlans))
      else ret ())"

fun evict_global :: "host \<Rightarrow> pending_plan list \<Rightarrow> unit act" where
  "evict_global H [] = ret ()"
| "evict_global H (oldest # byExpiry) =
     (\<lambda>g. if length (og_plans g) \<ge> MAX_PENDING_PLANS
          then seq (auditPlanDenial H oldest ''global-plan-capacity-evicted'' None) (\<lambda>_.
               seq (plans_delete (ap_id (pp_plan oldest))) (\<lambda>_. evict_global H byExpiry)) g
          else ret () g)"

definition makeCapacity :: "host \<Rightarrow> utf16 \<Rightarrow> unit act" where
  "makeCapacity H ownerId = (\<lambda>g.
     let byExpiry = sort_key pp_expiresAtMs (map snd (og_plans g)) in
     seq (evict_owner H (filter (\<lambda>p. pp_ownerId p = ownerId) byExpiry)) (\<lambda>_. evict_global H byExpiry) g)"

text \<open>The pattern of a UUID: hexadecimal groups of 8, 4, 4, 4 and 12, a version and a variant.\<close>

definition hex_digit :: "nat \<Rightarrow> bool" where
  "hex_digit c = (48 \<le> c \<and> c \<le> 57 \<or> 97 \<le> c \<and> c \<le> 102 \<or> 65 \<le> c \<and> c \<le> 70)"

definition uuid_unit :: "nat \<Rightarrow> nat \<Rightarrow> bool" where
  "uuid_unit i c =
     (if i \<in> {8, 13, 18, 23} then c = 45
      else if i = 14 then 49 \<le> c \<and> c \<le> 56
      else if i = 19 then c \<in> {56, 57, 97, 98, 65, 66}
      else hex_digit c)"

definition is_uuid :: "utf16 \<Rightarrow> bool" where
  "is_uuid s = (length s = 36 \<and> list_all (\<lambda>(i, c). uuid_unit i c) (enumerate 0 s))"

definition iso_text :: "int \<Rightarrow> string act" where
  "iso_text ms = (case toISOString ms of Inl _ \<Rightarrow> fail InvalidDate | Inr s \<Rightarrow> ret s)"

definition plans_set :: "pending_plan \<Rightarrow> unit act" where
  "plans_set p = (\<lambda>g. (Inr (), g\<lparr> og_plans := AList.update (ap_id (pp_plan p)) p (og_plans g) \<rparr>))"

text \<open>The plan for a disclosure, made when there is room for it; then \<open>prepare\<close> keeps it and hands it out.\<close>

definition new_plan :: "host \<Rightarrow> utf16 \<Rightarrow> disclosure \<Rightarrow> pending_plan act" where
  "new_plan H ownerId d =
     seq (assertOwnerId ownerId) (\<lambda>_.
     seq (assertDisclosure d) (\<lambda>_.
     seq (discardExpiredPlans H) (\<lambda>_.
     seq (makeCapacity H ownerId) (\<lambda>_.
     seq (now H) (\<lambda>t g.
       let expiresAtMs = t + og_approvalTtlMs g in
       seq (createId H) (\<lambda>planId.
       seq (iso_text expiresAtMs) (\<lambda>expiresAt g.
         let p = \<lparr> pp_plan = \<lparr> ap_id = planId, ap_expiresAt = expiresAt, ap_disclosure = d,
                     ap_disclosureSha256 = disclosureFingerprint H d \<rparr>,
                   pp_ownerId = ownerId, pp_expiresAtMs = expiresAtMs \<rparr> in
         seq (throw_unless (is_uuid planId \<and> planId \<notin> fst ` set (og_plans g))
           ''Outbound approval IDs must be unique UUIDs.'') (\<lambda>_. ret p) g)) g)))))"

definition prepare :: "host \<Rightarrow> utf16 \<Rightarrow> disclosure \<Rightarrow> approval_plan act" where
  "prepare H ownerId d =
     seq (new_plan H ownerId d) (\<lambda>p.
     seq (plans_set p) (\<lambda>_.
     seq (happens (Issued p)) (\<lambda>_. ret (pp_plan p))))"

definition missing_plan :: outbound_error where
  "missing_plan = GateError
     ''The outbound approval is missing, expired, already used, or belongs to another owner.''"

definition takePlan :: "host \<Rightarrow> utf16 \<Rightarrow> utf16 \<Rightarrow> pending_plan act" where
  "takePlan H ownerId planId =
     seq (assertOwnerId ownerId) (\<lambda>_ g.
       (case map_of (og_plans g) planId of
          None \<Rightarrow>
            seq (discardExpiredPlans H) (\<lambda>_.
            seq (auditUnknownPlan H ownerId planId ''consume-plan-not-found'') (\<lambda>_. fail missing_plan))
        | Some p \<Rightarrow>
            if pp_ownerId p \<noteq> ownerId
            then seq (auditPlanDenial H p ''consume-owner-mismatch'' (Some ownerId)) (\<lambda>_. fail missing_plan)
            else seq (now H) (\<lambda>t.
              if pp_expiresAtMs p \<le> t
              then seq (auditPlanDenial H p ''approval-expired-before-confirmation'' None) (\<lambda>_.
                   seq (plans_delete planId) (\<lambda>_. fail missing_plan))
              else seq (plans_delete planId) (\<lambda>_. ret p))) g)"

definition cancel :: "host \<Rightarrow> utf16 \<Rightarrow> utf16 \<Rightarrow> unit act" where
  "cancel H ownerId planId =
     seq (assertOwnerId ownerId) (\<lambda>_ g.
       (case map_of (og_plans g) planId of
          None \<Rightarrow> seq (discardExpiredPlans H) (\<lambda>_. auditUnknownPlan H ownerId planId ''cancel-plan-not-found'')
        | Some p \<Rightarrow>
            if pp_ownerId p \<noteq> ownerId
            then auditPlanDenial H p ''cancel-owner-mismatch'' (Some ownerId)
            else seq (now H) (\<lambda>t.
              seq (auditPlanDenial H p
                (if pp_expiresAtMs p \<le> t then ''approval-expired-before-cancel'' else ''renderer-plan-cancelled'') None) (\<lambda>_.
              plans_delete planId))) g)"

text \<open>Every plan of the owner is removed, whether its audit succeeds or not; the first failure is thrown at the end.\<close>

fun discard_plans :: "host \<Rightarrow> outbound_error option \<Rightarrow> pending_plan list \<Rightarrow> outbound_error option act" where
  "discard_plans H auditFailure [] = ret auditFailure"
| "discard_plans H auditFailure (p # ps) =
     seq (catch (seq (auditPlanDenial H p ''owner-closed'' None) (\<lambda>_. ret auditFailure))
            (\<lambda>e. ret (case auditFailure of None \<Rightarrow> Some e | Some _ \<Rightarrow> auditFailure))) (\<lambda>auditFailure'.
     seq (plans_delete (ap_id (pp_plan p))) (\<lambda>_. discard_plans H auditFailure' ps))"

definition discardOwner :: "host \<Rightarrow> utf16 \<Rightarrow> unit act" where
  "discardOwner H ownerId =
     seq (assertOwnerId ownerId) (\<lambda>_ g.
       seq (discard_plans H None (filter (\<lambda>p. pp_ownerId p = ownerId) (map snd (og_plans g)))) (\<lambda>auditFailure.
       case auditFailure of
         None \<Rightarrow> ret ()
       | Some e \<Rightarrow> fail (if error_name e = None then GateError ''Outbound owner-revocation audit failed.'' else e)) g)"

section \<open>Confirming and executing\<close>

text \<open>
  \<open>confirmAndExecute\<close> waits three times: for the confirmation, the current disclosure and the action.
  Between two waits it runs without interruption, and other operations of the gate may run while it
  waits. A job is what it waits for; the value of the action itself is not looked at.
\<close>

datatype job =
    Confirming pending_plan
  | Rebuilding pending_plan
  | Executing pending_plan

datatype progress = Waits job | OutcomeDenied | OutcomeAllowed

definition start_confirm :: "host \<Rightarrow> utf16 \<Rightarrow> utf16 \<Rightarrow> progress act" where
  "start_confirm H ownerId planId =
     seq (takePlan H ownerId planId) (\<lambda>p.
     seq (happens (Asked p)) (\<lambda>_. ret (Waits (Confirming p))))"

definition deny :: "host \<Rightarrow> pending_plan \<Rightarrow> string \<Rightarrow> progress act" where
  "deny H p reason = seq (auditPlanDenial H p reason None) (\<lambda>_. ret OutcomeDenied)"

definition audit_failure :: "host \<Rightarrow> pending_plan \<Rightarrow> string \<Rightarrow> outbound_error \<Rightarrow> progress act" where
  "audit_failure H p failureKind e =
     seq (audit_external H (plan_action p) AuditFailed
       (auditMetadata H p @ [(''failureKind'', js failureKind), (''errorKind'', safeErrorKind e)])) (\<lambda>_. fail e)"

definition confirmed :: "host \<Rightarrow> pending_plan \<Rightarrow> outbound_error + bool \<Rightarrow> progress act" where
  "confirmed H p answer =
     (case answer of
        Inl e \<Rightarrow> audit_failure H p ''native-confirmation-failed'' e
      | Inr approved \<Rightarrow>
          if \<not> approved then deny H p ''native-confirmation-cancelled''
          else seq (happens (Approved p)) (\<lambda>_.
               seq (now H) (\<lambda>t.
               if pp_expiresAtMs p \<le> t then deny H p ''approval-expired-after-confirmation''
               else ret (Waits (Rebuilding p)))))"

definition revalidate :: "host \<Rightarrow> pending_plan \<Rightarrow> outbound_error + disclosure \<Rightarrow> bool act" where
  "revalidate H p answer =
     (case answer of
        Inl e \<Rightarrow> fail e
      | Inr current \<Rightarrow>
          seq (happens (Rebuilt p current)) (\<lambda>_.
          seq (assertDisclosure current) (\<lambda>_.
          seq (if disclosureFingerprint H current \<noteq> ap_disclosureSha256 (pp_plan p)
               then fail OutboundDisclosureChangedError else ret ()) (\<lambda>_.
          seq (now H) (\<lambda>t.
          if pp_expiresAtMs p \<le> t
          then seq (auditPlanDenial H p ''approval-expired-after-revalidation'' None) (\<lambda>_. ret False)
          else ret True)))))"

definition rebuilt :: "host \<Rightarrow> pending_plan \<Rightarrow> outbound_error + disclosure \<Rightarrow> progress act" where
  "rebuilt H p answer = (\<lambda>g.
     case revalidate H p answer g of
       (Inl e, g') \<Rightarrow>
         audit_failure H p (if e = OutboundDisclosureChangedError then ''approved-disclosure-changed''
             else ''outbound-action-failed'') e g'
     | (Inr False, g') \<Rightarrow> ret OutcomeDenied g'
     | (Inr True, g') \<Rightarrow>
         seq (audit_external H (plan_action p) AuditAllowed
           (auditMetadata H p @ [(''phase'', js ''authorized-before-execution'')])) (\<lambda>_.
         seq (happens (Executed p)) (\<lambda>_. ret (Waits (Executing p)))) g')"

definition finished :: "host \<Rightarrow> pending_plan \<Rightarrow> outbound_error + unit \<Rightarrow> progress act" where
  "finished H p answer =
     (case answer of
        Inl e \<Rightarrow> audit_failure H p ''outbound-action-failed'' e
      | Inr _ \<Rightarrow> ret OutcomeAllowed)"

section \<open>The gate with its jobs\<close>

definition new_gate :: "int option \<Rightarrow> outbound_error + gate" where
  "new_gate approvalTtlMs =
     (let ttl = (case approvalTtlMs of None \<Rightarrow> DEFAULT_APPROVAL_TTL_MS | Some t \<Rightarrow> t) in
      if \<bar>ttl\<bar> > 9007199254740991 \<or> ttl \<le> 0
      then Inl (GateError ''Outbound approval TTL must be a positive safe integer.'')
      else Inr \<lparr> og_plans = [], og_approvalTtlMs = ttl, og_trace = [] \<rparr>)"

record gate_system =
  gs_gate :: gate
  gs_jobs :: "job list"

datatype answer =
    AnswerConfirmation "outbound_error + bool"
  | AnswerDisclosure "outbound_error + disclosure"
  | AnswerAction "outbound_error + unit"

fun resume :: "host \<Rightarrow> job \<Rightarrow> answer \<Rightarrow> progress act option" where
  "resume H (Confirming p) (AnswerConfirmation a) = Some (confirmed H p a)"
| "resume H (Rebuilding p) (AnswerDisclosure a) = Some (rebuilt H p a)"
| "resume H (Executing p) (AnswerAction a) = Some (finished H p a)"
| "resume H j a = None"

definition jobs_of :: "outbound_error + progress \<Rightarrow> job list" where
  "jobs_of r = (case r of Inr (Waits j) \<Rightarrow> [j] | _ \<Rightarrow> [])"

inductive gate_step :: "host \<Rightarrow> gate_system \<Rightarrow> gate_system \<Rightarrow> bool" for H where
  prepare: "snd (prepare H ownerId d (gs_gate s)) = g \<Longrightarrow> gate_step H s (s\<lparr> gs_gate := g \<rparr>)"
| cancel: "snd (cancel H ownerId planId (gs_gate s)) = g \<Longrightarrow> gate_step H s (s\<lparr> gs_gate := g \<rparr>)"
| discard: "snd (discardOwner H ownerId (gs_gate s)) = g \<Longrightarrow> gate_step H s (s\<lparr> gs_gate := g \<rparr>)"
| audit: "snd (recordRequiredAudit H a (gs_gate s)) = g \<Longrightarrow> gate_step H s (s\<lparr> gs_gate := g \<rparr>)"
| start: "start_confirm H ownerId planId (gs_gate s) = (r, g)
    \<Longrightarrow> gate_step H s \<lparr> gs_gate = g, gs_jobs = gs_jobs s @ jobs_of r \<rparr>"
| resume: "gs_jobs s = js1 @ j # js2 \<Longrightarrow> resume H j a = Some m \<Longrightarrow> m (gs_gate s) = (r, g)
    \<Longrightarrow> gate_step H s \<lparr> gs_gate = g, gs_jobs = js1 @ jobs_of r @ js2 \<rparr>"

inductive gate_reaches :: "host \<Rightarrow> gate_system \<Rightarrow> bool" for H where
  initial: "new_gate ttl = Inr g \<Longrightarrow> gate_reaches H \<lparr> gs_gate = g, gs_jobs = [] \<rparr>"
| further: "gate_reaches H s \<Longrightarrow> gate_step H s s' \<Longrightarrow> gate_reaches H s'"

end
