(* ===== verification/Outbound_Safety.thy ===== *)
theory Outbound_Safety
  imports Outbound_Gate "HOL-Library.Sublist"
begin

text \<open>
  What the gate guarantees. Most operations issue no plan, ask for no confirmation and run no action, and
  they only remove plans: this is the contract \<open>calm_operation\<close>, which every operation but preparing,
  starting and authorising interprets. Invariants of the gate with its jobs follow by rule induction over
  its steps.
\<close>

named_theorems calm_intros \<open>operations that only remove plans and run nothing\<close>

section \<open>Calm operations\<close>

definition calm :: "outbound_event \<Rightarrow> bool" where
  "calm e = (case e of Issued _ \<Rightarrow> False | Asked _ \<Rightarrow> False | Executed _ \<Rightarrow> False | _ \<Rightarrow> True)"

definition calm_run :: "gate \<Rightarrow> gate \<Rightarrow> bool" where
  "calm_run g g' = ((\<exists>es. og_trace g' = og_trace g @ es \<and> list_all calm es) \<and> subseq (og_plans g') (og_plans g)
     \<and> og_approvalTtlMs g' = og_approvalTtlMs g)"

lemma calm_refl [simp]: "calm_run g g"
  by (simp add: calm_run_def)

lemma calm_trans [trans]: "calm_run g g' \<Longrightarrow> calm_run g' g'' \<Longrightarrow> calm_run g g''"
  by (auto simp: calm_run_def intro: subseq_order.trans)

definition calm_act :: "'a act \<Rightarrow> bool" where
  "calm_act m = (\<forall>g. calm_run g (snd (m g)))"

lemma calm_actI: "(\<And>g. calm_run g (snd (m g))) \<Longrightarrow> calm_act m"
  by (simp add: calm_act_def)

lemma calm_actD: "calm_act m \<Longrightarrow> calm_run g (snd (m g))"
  by (simp add: calm_act_def)

lemma calm_result: "calm_act m \<Longrightarrow> m g = (r, g') \<Longrightarrow> calm_run g g'"
  by (metis calm_actD snd_conv)

lemma calm_basic [calm_intros]: "calm_act (ret x)" "calm_act (fail e)" "calm_act (throw_unless b msg)"
  by (simp_all add: calm_act_def ret_def fail_def throw_unless_def)

lemma calm_seq [calm_intros]:
  assumes "calm_act m" "\<And>x. calm_act (f x)"
  shows "calm_act (seq m f)"
proof (rule calm_actI)
  fix g
  obtain r g' where m: "m g = (r, g')" by (cases "m g")
  from calm_result [OF assms(1) m] have "calm_run g g'" .
  moreover have "calm_run g' (snd (f x g'))" for x using assms(2) by (rule calm_actD)
  ultimately show "calm_run g (snd (seq m f g))"
    by (cases r) (auto simp: seq_def m intro: calm_trans)
qed

lemma calm_catch [calm_intros]:
  assumes "calm_act m" "\<And>e. calm_act (h e)"
  shows "calm_act (catch m h)"
proof (rule calm_actI)
  fix g
  obtain r g' where m: "m g = (r, g')" by (cases "m g")
  from calm_result [OF assms(1) m] have "calm_run g g'" .
  moreover have "calm_run g' (snd (h e g'))" for e using assms(2) by (rule calm_actD)
  ultimately show "calm_run g (snd (catch m h g))"
    by (cases r) (auto simp: catch_def m intro: calm_trans)
qed

lemma calm_if [calm_intros]: "calm_act m \<Longrightarrow> calm_act m' \<Longrightarrow> calm_act (if b then m else m')"
  by simp

lemma calm_happens [calm_intros]: "calm e \<Longrightarrow> calm_act (happens e)"
  by (simp add: calm_act_def calm_run_def happens_def)

lemma calm_now [calm_intros]: "calm_act (now H)"
  by (simp add: calm_act_def calm_run_def now_def Let_def seq_def happens_def ret_def calm_def)

lemma calm_createId [calm_intros]: "calm_act (createId H)"
  by (simp add: calm_act_def calm_run_def createId_def Let_def seq_def happens_def ret_def calm_def)

lemma calm_iso_text [calm_intros]: "calm_act (iso_text ms)"
  by (simp add: iso_text_def calm_basic split: sum.splits)

lemma calm_appendAudit [calm_intros]: "calm_act (appendAudit H a)"
  by (auto simp: calm_act_def calm_run_def appendAudit_def happens_def calm_def split: option.splits)

lemma calm_audits [calm_intros]:
  "calm_act (audit_external H action result metadata)" "calm_act (auditPlanDenial H p reason requester)"
  "calm_act (auditUnknownPlan H ownerId planId reason)"
  by (simp_all add: audit_external_def auditPlanDenial_def auditUnknownPlan_def calm_appendAudit)

lemma subseq_delete: "subseq (AList.delete i ps) ps"
  by (simp add: AList.delete_eq)

lemma calm_plans_delete [calm_intros]: "calm_act (plans_delete i)"
  by (simp add: calm_act_def calm_run_def plans_delete_def subseq_delete)

lemma calm_for_plans [calm_intros]: "(\<And>p. calm_act (f p)) \<Longrightarrow> calm_act (for_plans f ps)"
  by (induction ps) (simp_all add: calm_intros)

lemma calm_state: "(\<And>g. calm_act (M g)) \<Longrightarrow> calm_act (\<lambda>g. M g g)"
  by (simp add: calm_act_def)

lemma calm_discardExpiredPlans [calm_intros]: "calm_act (discardExpiredPlans H)"
  unfolding discardExpiredPlans_def
  by (rule calm_seq [OF calm_now], rule calm_state) (intro calm_intros)

lemma calm_evict_owner [calm_intros]: "calm_act (evict_owner H ps)"
  by (induction ps) (simp_all add: calm_intros)

lemma calm_evict_global [calm_intros]: "calm_act (evict_global H ps)"
proof (induction ps)
  case (Cons p ps)
  have "calm_act (seq (auditPlanDenial H p ''global-plan-capacity-evicted'' None) (\<lambda>_.
      seq (plans_delete (ap_id (pp_plan p))) (\<lambda>_. evict_global H ps)))"
    by (intro calm_intros Cons)
  then show ?case by (simp add: calm_act_def ret_def)
qed (simp add: calm_intros)

lemma calm_makeCapacity [calm_intros]: "calm_act (makeCapacity H ownerId)"
  unfolding makeCapacity_def Let_def by (rule calm_state) (intro calm_intros)

lemma calm_asserts [calm_intros]: "calm_act (assertOwnerId ownerId)" "calm_act (assertDisclosure d)"
  unfolding assertOwnerId_def assertDisclosure_def by (intro calm_intros)+

lemma calm_takePlan [calm_intros]: "calm_act (takePlan H ownerId planId)"
  unfolding takePlan_def
  by (rule calm_seq [OF calm_asserts(1)], rule calm_state) (simp add: calm_intros split: option.split)

lemma calm_discard_plans [calm_intros]: "calm_act (discard_plans H failure ps)"
  by (induction ps arbitrary: failure) (simp_all add: calm_intros)

lemma calm_deny [calm_intros]: "calm_act (deny H p reason)"
  unfolding deny_def by (intro calm_intros)

lemma calm_audit_failure [calm_intros]: "calm_act (audit_failure H p kind e)"
  unfolding audit_failure_def by (intro calm_intros)

lemma calm_confirmed [calm_intros]: "calm_act (confirmed H p answer)"
  unfolding confirmed_def by (cases answer) (simp_all add: calm_intros calm_def)

lemma calm_revalidate [calm_intros]: "calm_act (revalidate H p answer)"
  unfolding revalidate_def by (cases answer) (simp_all add: calm_intros calm_def)

lemma calm_finished [calm_intros]: "calm_act (finished H p answer)"
  unfolding finished_def by (cases answer) (simp_all add: calm_intros)

section \<open>Plans within bounds\<close>

definition owner_plans :: "utf16 \<Rightarrow> gate \<Rightarrow> (utf16 \<times> pending_plan) list" where
  "owner_plans ownerId g = filter (\<lambda>(_, p). pp_ownerId p = ownerId) (og_plans g)"

definition keyed :: "gate \<Rightarrow> bool" where
  "keyed g = (distinct (map fst (og_plans g)) \<and> (\<forall>(i, p) \<in> set (og_plans g). i = ap_id (pp_plan p)))"

definition within_bounds :: "gate \<Rightarrow> bool" where
  "within_bounds g = (keyed g \<and> length (og_plans g) \<le> MAX_PENDING_PLANS
     \<and> (\<forall>ownerId. length (owner_plans ownerId g) \<le> MAX_PENDING_PLANS_PER_OWNER))"

lemma subseq_set: "subseq xs ys \<Longrightarrow> set xs \<subseteq> set ys"
  using subseq_order.trans by (metis notin_set_nthsI subseq_conv_nths subsetI)

lemma distinct_subseq: "subseq xs ys \<Longrightarrow> distinct ys \<Longrightarrow> distinct xs"
  by (metis distinct_nthsI subseq_conv_nths)

lemma length_subseq: "subseq xs ys \<Longrightarrow> length xs \<le> length ys"
  by (rule list_emb_length)

lemma keyed_subseq:
  assumes "keyed g" "subseq (og_plans g') (og_plans g)"
  shows "keyed g'"
  unfolding keyed_def
proof
  have "subseq (map fst (og_plans g')) (map fst (og_plans g))" using assms(2) by (rule subseq_map)
  then show "distinct (map fst (og_plans g'))" using assms(1) distinct_subseq by (auto simp: keyed_def)
  show "\<forall>(i, p) \<in> set (og_plans g'). i = ap_id (pp_plan p)"
    using assms subseq_set by (fastforce simp: keyed_def)
qed

lemma owner_plans_subseq: "subseq (og_plans g') (og_plans g) \<Longrightarrow> length (owner_plans o' g') \<le> length (owner_plans o' g)"
  unfolding owner_plans_def by (intro length_subseq subseq_filter)

lemma within_bounds_calm: "within_bounds g \<Longrightarrow> calm_run g g' \<Longrightarrow> within_bounds g'"
  unfolding within_bounds_def calm_run_def
  using keyed_subseq owner_plans_subseq length_subseq order.trans by metis

lemma seq_Inr: "seq m f g = (Inr y, g'') \<longleftrightarrow> (\<exists>x g'. m g = (Inr x, g') \<and> f x g' = (Inr y, g''))"
  by (auto simp: seq_def split: prod.splits sum.splits)

lemma plans_delete_eq: "plans_delete i g = (r, g') \<longleftrightarrow> r = Inr () \<and> g' = g\<lparr> og_plans := AList.delete i (og_plans g) \<rparr>"
  by (auto simp: plans_delete_def)

lemma plans_after_delete:
  assumes "keyed g" "set (map snd (og_plans g)) \<subseteq> set (p # ps) \<union> A"
    "calm_run g g1" "plans_delete (ap_id (pp_plan p)) g1 = (r, g2)"
  shows "keyed g2" "set (map snd (og_plans g2)) \<subseteq> set ps \<union> (A - {p})"
proof -
  have sub: "subseq (og_plans g2) (og_plans g)"
    using assms(3,4) calm_plans_delete [of "ap_id (pp_plan p)"] calm_result calm_trans by (metis calm_run_def)
  with assms(1) show keyed: "keyed g2" by (rule keyed_subseq)
  show "set (map snd (og_plans g2)) \<subseteq> set ps \<union> (A - {p})"
  proof
    fix q
    assume "q \<in> set (map snd (og_plans g2))"
    then obtain i where q: "(i, q) \<in> set (og_plans g2)" by auto
    with sub have "(i, q) \<in> set (og_plans g)" using subseq_set by blast
    with assms(2) have "q \<in> set (p # ps) \<union> A" by force
    moreover have "i = ap_id (pp_plan q)" using keyed q by (auto simp: keyed_def)
    moreover have "i \<noteq> ap_id (pp_plan p)" using q assms(4) by (auto simp: plans_delete_eq AList.delete_eq)
    ultimately show "q \<in> set ps \<union> (A - {p})" by auto
  qed
qed

lemma evict_global_room:
  assumes "keyed g" "set (map snd (og_plans g)) \<subseteq> set ps" "evict_global H ps g = (Inr (), g')"
  shows "length (og_plans g') < MAX_PENDING_PLANS"
  using assms
proof (induction ps arbitrary: g)
  case Nil
  then have "og_plans g' = []" by (auto simp: ret_def)
  then show ?case by (simp add: MAX_PENDING_PLANS_def)
next
  case (Cons p ps)
  show ?case
  proof (cases "length (og_plans g) \<ge> MAX_PENDING_PLANS")
    case True
    with Cons.prems(3) obtain g1 g2 where steps:
      "auditPlanDenial H p ''global-plan-capacity-evicted'' None g = (Inr (), g1)"
      "plans_delete (ap_id (pp_plan p)) g1 = (Inr (), g2)" "evict_global H ps g2 = (Inr (), g')"
      by (auto simp: seq_Inr)
    have "set (map snd (og_plans g)) \<subseteq> set (p # ps) \<union> {}" using Cons.prems(2) by simp
    note after = plans_after_delete [OF Cons.prems(1) this calm_result [OF calm_audits(2) steps(1)] steps(2)]
    from after(2) have "set (map snd (og_plans g2)) \<subseteq> set ps" by simp
    from Cons.IH [OF after(1) this steps(3)] show ?thesis .
  next
    case False
    with Cons.prems(3) show ?thesis by (simp add: ret_def)
  qed
qed

lemma owner_plans_length:
  assumes "keyed g" "snd ` set (owner_plans ownerId g) \<subseteq> set ps"
  shows "length (owner_plans ownerId g) \<le> length ps"
proof -
  have "inj_on snd (set (owner_plans ownerId g))"
  proof (rule inj_onI)
    fix x y
    assume xy: "x \<in> set (owner_plans ownerId g)" "y \<in> set (owner_plans ownerId g)" "snd x = snd y"
    then have "x \<in> set (og_plans g)" "y \<in> set (og_plans g)" by (simp_all add: owner_plans_def)
    then have "fst x = ap_id (pp_plan (snd x))" "fst y = ap_id (pp_plan (snd y))"
      using assms(1) unfolding keyed_def by fastforce+
    with xy(3) show "x = y" by (simp add: prod_eq_iff)
  qed
  moreover have "distinct (owner_plans ownerId g)"
    using assms(1) by (auto simp: keyed_def owner_plans_def distinct_map intro: distinct_filter)
  ultimately have "length (owner_plans ownerId g) = card (snd ` set (owner_plans ownerId g))"
    by (simp add: card_image distinct_card)
  also have "\<dots> \<le> card (set ps)" using assms(2) by (rule card_mono [OF finite_set])
  also have "\<dots> \<le> length ps" by (rule card_length)
  finally show ?thesis .
qed

lemma evict_owner_room:
  assumes "keyed g" "snd ` set (owner_plans ownerId g) \<subseteq> set ps" "evict_owner H ps g = (Inr (), g')"
  shows "length (owner_plans ownerId g') < MAX_PENDING_PLANS_PER_OWNER"
  using assms
proof (induction ps arbitrary: g)
  case Nil
  then have "owner_plans ownerId g' = []" by (auto simp: ret_def)
  then show ?case by (simp add: MAX_PENDING_PLANS_PER_OWNER_def)
next
  case (Cons p ps)
  show ?case
  proof (cases "length (p # ps) \<ge> MAX_PENDING_PLANS_PER_OWNER")
    case True
    with Cons.prems(3) obtain g1 g2 where steps:
      "auditPlanDenial H p ''owner-plan-capacity-evicted'' None g = (Inr (), g1)"
      "plans_delete (ap_id (pp_plan p)) g1 = (Inr (), g2)" "evict_owner H ps g2 = (Inr (), g')"
      by (auto simp: seq_Inr)
    define others where "others = snd ` (set (og_plans g) - set (owner_plans ownerId g))"
    have "set (map snd (og_plans g)) \<subseteq> set (p # ps) \<union> others" using Cons.prems(2) by (auto simp: others_def)
    note after = plans_after_delete [OF Cons.prems(1) this calm_result [OF calm_audits(2) steps(1)] steps(2)]
    have "pp_ownerId q \<noteq> ownerId" if "q \<in> others" for q using that by (auto simp: others_def owner_plans_def)
    with after(2) have "snd ` set (owner_plans ownerId g2) \<subseteq> set ps" by (fastforce simp: owner_plans_def)
    from Cons.IH [OF after(1) this steps(3)] show ?thesis .
  next
    case False
    with Cons.prems owner_plans_length [OF Cons.prems(1,2)] show ?thesis by (simp add: ret_def)
  qed
qed

lemma makeCapacity_room:
  assumes "keyed g" "makeCapacity H ownerId g = (Inr (), g')"
  shows "length (og_plans g') < MAX_PENDING_PLANS" "length (owner_plans ownerId g') < MAX_PENDING_PLANS_PER_OWNER"
proof -
  define byExpiry where "byExpiry = sort_key pp_expiresAtMs (map snd (og_plans g))"
  obtain g1 where steps: "evict_owner H (filter (\<lambda>p. pp_ownerId p = ownerId) byExpiry) g = (Inr (), g1)"
    "evict_global H byExpiry g1 = (Inr (), g')"
    using assms(2) by (auto simp: makeCapacity_def Let_def seq_Inr byExpiry_def)
  have "snd ` set (owner_plans ownerId g) \<subseteq> set (filter (\<lambda>p. pp_ownerId p = ownerId) byExpiry)"
    by (simp add: owner_plans_def byExpiry_def image_subset_iff split_beta)
  from evict_owner_room [OF assms(1) this steps(1)]
  have owner: "length (owner_plans ownerId g1) < MAX_PENDING_PLANS_PER_OWNER" .
  have calm1: "calm_run g g1" using calm_result [OF calm_evict_owner steps(1)] .
  then have sub: "subseq (og_plans g1) (og_plans g)" by (simp add: calm_run_def)
  then have "set (map snd (og_plans g1)) \<subseteq> set (map snd (og_plans g))" using subseq_set [of _ "og_plans g"] by auto
  then have "set (map snd (og_plans g1)) \<subseteq> set byExpiry" by (simp add: byExpiry_def)
  moreover have "keyed g1" using assms(1) sub by (rule keyed_subseq)
  ultimately show "length (og_plans g') < MAX_PENDING_PLANS" using evict_global_room steps(2) by blast
  have "calm_run g1 g'" using calm_result [OF calm_evict_global steps(2)] .
  then have "subseq (og_plans g') (og_plans g1)" by (simp add: calm_run_def)
  from owner_plans_subseq [OF this] owner show "length (owner_plans ownerId g') < MAX_PENDING_PLANS_PER_OWNER"
    by (rule order.strict_trans1)
qed

lemma calm_new_plan: "calm_act (new_plan H ownerId d)"
  unfolding new_plan_def Let_def
  by (intro calm_seq calm_intros) (rule calm_state, intro calm_seq calm_intros, rule calm_state, intro calm_seq calm_intros)

lemma new_plan_Inr:
  assumes "new_plan H ownerId d g = (Inr p, g')" "keyed g"
  shows "length (og_plans g') < MAX_PENDING_PLANS" "length (owner_plans ownerId g') < MAX_PENDING_PLANS_PER_OWNER"
    "ap_id (pp_plan p) \<notin> fst ` set (og_plans g')" "pp_ownerId p = ownerId" "ap_disclosure (pp_plan p) = d"
    "ap_disclosureSha256 (pp_plan p) = disclosureFingerprint H d"
proof -
  obtain g1 g2 g3 where steps: "calm_run g g1" "makeCapacity H ownerId g1 = (Inr (), g2)" "calm_run g2 g3"
    and rest: "og_plans g' = og_plans g3" "ap_id (pp_plan p) \<notin> fst ` set (og_plans g3)" "pp_ownerId p = ownerId"
      "ap_disclosure (pp_plan p) = d" "ap_disclosureSha256 (pp_plan p) = disclosureFingerprint H d"
  proof -
    from assms(1) obtain u1 u2 u3 u4 k1 k2 k3 k4 where front:
      "assertOwnerId ownerId g = (Inr u1, k1)" "assertDisclosure d k1 = (Inr u2, k2)"
      "discardExpiredPlans H k2 = (Inr u3, k3)" "makeCapacity H ownerId k3 = (Inr u4, k4)"
      and "\<exists>t k5. now H k4 = (Inr t, k5) \<and> (\<exists>i k6 x k7. createId H k5 = (Inr i, k6)
        \<and> iso_text (t + og_approvalTtlMs k5) k6 = (Inr x, k7) \<and> i \<notin> fst ` set (og_plans k7) \<and> g' = k7
        \<and> p = \<lparr> pp_plan = \<lparr> ap_id = i, ap_expiresAt = x, ap_disclosure = d,
              ap_disclosureSha256 = disclosureFingerprint H d \<rparr>,
            pp_ownerId = ownerId, pp_expiresAtMs = t + og_approvalTtlMs k5 \<rparr>)"
      by (auto simp: new_plan_def seq_Inr Let_def throw_unless_def ret_def fail_def split: if_splits)
    then obtain t k5 i k6 x k7 where later: "now H k4 = (Inr t, k5)" "createId H k5 = (Inr i, k6)"
      "iso_text (t + og_approvalTtlMs k5) k6 = (Inr x, k7)" "i \<notin> fst ` set (og_plans k7)" "g' = k7"
      "p = \<lparr> pp_plan = \<lparr> ap_id = i, ap_expiresAt = x, ap_disclosure = d,
              ap_disclosureSha256 = disclosureFingerprint H d \<rparr>,
            pp_ownerId = ownerId, pp_expiresAtMs = t + og_approvalTtlMs k5 \<rparr>" by blast
    have "calm_run g k3"
      using front(1-3) by (blast intro: calm_trans calm_result [OF calm_asserts(1)] calm_result [OF calm_asserts(2)]
        calm_result [OF calm_discardExpiredPlans])
    moreover have "calm_run k4 k7"
      using later(1-3) by (blast intro: calm_trans calm_result [OF calm_now] calm_result [OF calm_createId]
        calm_result [OF calm_iso_text])
    ultimately show ?thesis using front(4) later(4-6) by (intro that [of k3 k4 k7]) simp_all
  qed
  have "keyed g1" using assms(2) steps(1) keyed_subseq by (auto simp: calm_run_def)
  note room = makeCapacity_room [OF this steps(2)]
  have sub: "subseq (og_plans g') (og_plans g2)" using steps(3) rest(1) by (simp add: calm_run_def)
  show "length (og_plans g') < MAX_PENDING_PLANS"
    using length_subseq [OF sub] room(1) by (rule order.strict_trans1)
  show "length (owner_plans ownerId g') < MAX_PENDING_PLANS_PER_OWNER"
    using owner_plans_subseq [OF sub] room(2) by (rule order.strict_trans1)
  show "ap_id (pp_plan p) \<notin> fst ` set (og_plans g')" using rest by simp
qed (use assms in \<open>auto simp: new_plan_def seq_Inr Let_def throw_unless_def ret_def fail_def split: if_splits\<close>)

section \<open>What each step does\<close>

lemma now_eq: "now H g = (r, g') \<longleftrightarrow>
    r = Inr (host_clock H (og_trace g)) \<and> g' = g\<lparr> og_trace := og_trace g @ [ReadClock (host_clock H (og_trace g))] \<rparr>"
  by (auto simp: now_def Let_def seq_def happens_def ret_def)

lemma assertOwnerId_Inr: "assertOwnerId ownerId g = (Inr u, g') \<Longrightarrow> g' = g"
  by (auto simp: assertOwnerId_def throw_unless_def ret_def fail_def split: if_splits)

lemma assertDisclosure_Inr: "assertDisclosure d g = (Inr u, g') \<Longrightarrow> g' = g"
  by (auto simp: assertDisclosure_def seq_Inr throw_unless_def ret_def fail_def split: if_splits)

lemma takePlan_Inr:
  assumes "takePlan H ownerId planId g = (Inr p, g')"
  shows "map_of (og_plans g) planId = Some p" "pp_ownerId p = ownerId" "host_clock H (og_trace g) < pp_expiresAtMs p"
    "g' = g\<lparr> og_trace := og_trace g @ [ReadClock (host_clock H (og_trace g))],
             og_plans := AList.delete planId (og_plans g) \<rparr>"
proof -
  from assms obtain u g1 where "assertOwnerId ownerId g = (Inr u, g1)"
    and rest: "(case map_of (og_plans g1) planId of
          None \<Rightarrow>
            seq (discardExpiredPlans H) (\<lambda>_.
            seq (auditUnknownPlan H ownerId planId ''consume-plan-not-found'') (\<lambda>_. fail missing_plan))
        | Some p \<Rightarrow>
            if pp_ownerId p \<noteq> ownerId
            then seq (auditPlanDenial H p ''consume-owner-mismatch'' (Some ownerId)) (\<lambda>_. fail missing_plan)
            else seq (now H) (\<lambda>t.
              if pp_expiresAtMs p \<le> t
              then seq (auditPlanDenial H p ''approval-expired-before-confirmation'' None) (\<lambda>_.
                   seq (plans_delete planId) (\<lambda>_. fail missing_plan))
              else seq (plans_delete planId) (\<lambda>_. ret p))) g1 = (Inr p, g')"
    by (auto simp: takePlan_def seq_Inr)
  then have g: "g1 = g" by (blast dest: assertOwnerId_Inr)
  show "map_of (og_plans g) planId = Some p" "pp_ownerId p = ownerId" "host_clock H (og_trace g) < pp_expiresAtMs p"
    "g' = g\<lparr> og_trace := og_trace g @ [ReadClock (host_clock H (og_trace g))],
             og_plans := AList.delete planId (og_plans g) \<rparr>"
    using rest unfolding g
    by (auto simp: seq_Inr now_eq plans_delete_eq ret_def fail_def split: option.splits if_splits)
qed

lemma audit_external_Inr: "audit_external H action result metadata g = (Inr u, g') \<longleftrightarrow>
    u = () \<and> g' = g\<lparr> og_trace := og_trace g @ [Audited \<lparr> oa_category = js ''external-send'', oa_action = action,
      oa_outcome = result, oa_metadata = metadata \<rparr>] \<rparr>
    \<and> host_sink H (og_trace g) \<lparr> oa_category = js ''external-send'', oa_action = action,
      oa_outcome = result, oa_metadata = metadata \<rparr> = None"
  by (auto simp: audit_external_def appendAudit_def happens_def split: option.splits)

lemma no_Waits [simp]: "audit_failure H p kind e g \<noteq> (Inr x, g')"
  "deny H p reason g \<noteq> (Inr (Waits j), g')"
  by (auto simp: audit_failure_def deny_def seq_Inr fail_def ret_def)

lemma confirmed_Waits:
  assumes "confirmed H p answer g = (Inr (Waits j), g')"
  shows "\<exists>t < pp_expiresAtMs p. j = Rebuilding p \<and> g' = g\<lparr> og_trace := og_trace g @ [Approved p, ReadClock t] \<rparr>"
  using assms
  by (auto simp: confirmed_def seq_Inr happens_def now_eq ret_def split: sum.splits if_splits
    intro!: exI [of _ "host_clock H (og_trace g @ [Approved p])"])

lemma revalidate_True:
  assumes "revalidate H p answer g = (Inr True, g')"
  shows "\<exists>d. \<exists>t < pp_expiresAtMs p. disclosureFingerprint H d = ap_disclosureSha256 (pp_plan p)
     \<and> g' = g\<lparr> og_trace := og_trace g @ [Rebuilt p d, ReadClock t] \<rparr>"
proof -
  obtain d where answer: "answer = Inr d" using assms by (cases answer) (auto simp: revalidate_def fail_def)
  define g1 where "g1 = g\<lparr> og_trace := og_trace g @ [Rebuilt p d] \<rparr>"
  define t where "t = host_clock H (og_trace g1)"
  obtain u where "assertDisclosure d g1 = (Inr u, g1)"
    using assms by (auto simp: answer revalidate_def seq_Inr happens_def g1_def dest: assertDisclosure_Inr)
  then have "disclosureFingerprint H d = ap_disclosureSha256 (pp_plan p)" "t < pp_expiresAtMs p"
    "g' = g1\<lparr> og_trace := og_trace g1 @ [ReadClock t] \<rparr>"
    using assms
    by (auto simp: answer revalidate_def seq_Inr happens_def now_eq ret_def fail_def g1_def t_def
      split: if_splits)
  then show ?thesis by (auto simp: g1_def intro!: exI [of _ d] exI [of _ t])
qed

definition authorization :: "host \<Rightarrow> pending_plan \<Rightarrow> outbound_audit" where
  "authorization H p = \<lparr> oa_category = js ''external-send'', oa_action = plan_action p, oa_outcome = AuditAllowed,
     oa_metadata = auditMetadata H p @ [(''phase'', js ''authorized-before-execution'')] \<rparr>"

lemma rebuilt_Waits:
  assumes "rebuilt H p answer g = (Inr (Waits j), g')"
  shows "\<exists>d. \<exists>t < pp_expiresAtMs p. disclosureFingerprint H d = ap_disclosureSha256 (pp_plan p) \<and> j = Executing p
     \<and> g' = g\<lparr> og_trace := og_trace g @ [Rebuilt p d, ReadClock t, Audited (authorization H p), Executed p] \<rparr>"
proof -
  obtain r g1 where m: "revalidate H p answer g = (r, g1)" by (cases "revalidate H p answer g")
  have "r = Inr True" using assms by (auto simp: rebuilt_def m ret_def split: sum.splits bool.splits)
  with m obtain d t where "t < pp_expiresAtMs p" "disclosureFingerprint H d = ap_disclosureSha256 (pp_plan p)"
    "g1 = g\<lparr> og_trace := og_trace g @ [Rebuilt p d, ReadClock t] \<rparr>" using revalidate_True by blast
  moreover from this(3) have "j = Executing p
     \<and> g' = g\<lparr> og_trace := og_trace g @ [Rebuilt p d, ReadClock t, Audited (authorization H p), Executed p] \<rparr>"
    using assms by (auto simp: rebuilt_def m \<open>r = Inr True\<close> seq_Inr audit_external_Inr happens_def ret_def authorization_def)
  ultimately show ?thesis by blast
qed

lemma rebuilt_ends:
  assumes "rebuilt H p answer g = (r, g')" "jobs_of r = []"
  shows "calm_run g g'"
proof -
  obtain r1 g1 where m: "revalidate H p answer g = (r1, g1)" by (cases "revalidate H p answer g")
  from calm_result [OF calm_revalidate m] have calm: "calm_run g g1" .
  consider e where "r1 = Inl e" | "r1 = Inr False" | "r1 = Inr True" by (cases r1) auto
  then show ?thesis
  proof cases
    case 1
    then show ?thesis using assms m calm calm_result [OF calm_audit_failure] by (auto simp: rebuilt_def intro: calm_trans)
  next
    case 2
    then show ?thesis using assms m calm by (auto simp: rebuilt_def ret_def)
  next
    case 3
    define m1 where "m1 = audit_external H (plan_action p) AuditAllowed
      (auditMetadata H p @ [(''phase'', js ''authorized-before-execution'')])"
    obtain r2 g2 where m1: "m1 g1 = (r2, g2)" by (cases "m1 g1")
    with assms m 3 have "g' = g2"
      by (auto simp: rebuilt_def m1_def [symmetric] seq_def happens_def ret_def jobs_of_def split: sum.splits)
    with calm calm_result [OF calm_audits(1) m1 [unfolded m1_def]] show ?thesis by (blast intro: calm_trans)
  qed
qed

text \<open>Operations that only remove plans and run nothing, as a contract.\<close>

locale calm_operation =
  fixes m :: "'a act"
  assumes calm: "calm_act m"
begin

lemma bounds: "within_bounds g \<Longrightarrow> within_bounds (snd (m g))"
  using within_bounds_calm calm_actD [OF calm] by blast

lemma trace_grows: "\<exists>es. og_trace (snd (m g)) = og_trace g @ es \<and> list_all calm es"
  using calm_actD [OF calm, of g] by (simp add: calm_run_def)

end

interpretation cancel_op: calm_operation "cancel H ownerId planId" for H ownerId planId
  unfolding cancel_def
  by unfold_locales (intro calm_intros, rule calm_state, simp add: calm_intros split: option.split)

interpretation discard_op: calm_operation "discardOwner H ownerId" for H ownerId
  unfolding discardOwner_def
  by unfold_locales (intro calm_intros, rule calm_state, intro calm_intros, simp add: calm_intros split: option.split)

interpretation audit_op: calm_operation "recordRequiredAudit H a" for H a
  unfolding recordRequiredAudit_def by unfold_locales (rule calm_intros)

definition keeps_plan :: "pending_plan \<Rightarrow> gate \<Rightarrow> gate" where
  "keeps_plan p g = g\<lparr> og_plans := og_plans g @ [(ap_id (pp_plan p), p)], og_trace := og_trace g @ [Issued p] \<rparr>"

lemma update_new: "k \<notin> fst ` set ps \<Longrightarrow> AList.update k v ps = ps @ [(k, v)]"
  by (induction ps) auto

lemma prepare_effect:
  assumes "keyed g"
  obtains (calm) "calm_run g (snd (prepare H ownerId d g))"
    | (issue) p g1 where "calm_run g g1" "snd (prepare H ownerId d g) = keeps_plan p g1"
        "length (og_plans g1) < MAX_PENDING_PLANS" "length (owner_plans (pp_ownerId p) g1) < MAX_PENDING_PLANS_PER_OWNER"
        "ap_id (pp_plan p) \<notin> fst ` set (og_plans g1)"
        "ap_disclosureSha256 (pp_plan p) = disclosureFingerprint H (ap_disclosure (pp_plan p))"
proof (cases "new_plan H ownerId d g")
  case (Pair r g1)
  note run = calm_result [OF calm_new_plan Pair]
  show ?thesis
  proof (cases r)
    case (Inl e)
    with Pair run show ?thesis by (intro calm) (simp add: prepare_def seq_def)
  next
    case (Inr p)
    note facts = new_plan_Inr [OF Pair [unfolded Inr] assms]
    have "AList.update (ap_id (pp_plan p)) p (og_plans g1) = og_plans g1 @ [(ap_id (pp_plan p), p)]"
      using facts(3) by (rule update_new)
    then have "snd (prepare H ownerId d g) = keeps_plan p g1"
      by (simp add: prepare_def seq_def Pair Inr plans_set_def happens_def ret_def keeps_plan_def)
    with run facts show ?thesis by (intro issue [of g1 p]) simp_all
  qed
qed

definition taken :: "pending_plan \<Rightarrow> int \<Rightarrow> gate \<Rightarrow> gate" where
  "taken p t g = g\<lparr> og_plans := AList.delete (ap_id (pp_plan p)) (og_plans g),
     og_trace := og_trace g @ [ReadClock t, Asked p] \<rparr>"

definition executes :: "host \<Rightarrow> pending_plan \<Rightarrow> disclosure \<Rightarrow> int \<Rightarrow> gate \<Rightarrow> gate" where
  "executes H p d t g =
     g\<lparr> og_trace := og_trace g @ [Rebuilt p d, ReadClock t, Audited (authorization H p), Executed p] \<rparr>"

lemma gate_step_effect:
  assumes "gate_step H s s'" "keyed (gs_gate s)"
  obtains (calm) "calm_run (gs_gate s) (gs_gate s')" "subseq (gs_jobs s') (gs_jobs s)"
    | (issue) p g1 where "calm_run (gs_gate s) g1" "gs_gate s' = keeps_plan p g1" "gs_jobs s' = gs_jobs s"
        "length (og_plans g1) < MAX_PENDING_PLANS" "length (owner_plans (pp_ownerId p) g1) < MAX_PENDING_PLANS_PER_OWNER"
        "ap_id (pp_plan p) \<notin> fst ` set (og_plans g1)"
        "ap_disclosureSha256 (pp_plan p) = disclosureFingerprint H (ap_disclosure (pp_plan p))"
    | (ask) p t where "(ap_id (pp_plan p), p) \<in> set (og_plans (gs_gate s))" "t < pp_expiresAtMs p"
        "gs_gate s' = taken p t (gs_gate s)" "gs_jobs s' = gs_jobs s @ [Confirming p]"
    | (approve) p js1 js2 t where "gs_jobs s = js1 @ Confirming p # js2" "gs_jobs s' = js1 @ Rebuilding p # js2"
        "gs_gate s' = (gs_gate s)\<lparr> og_trace := og_trace (gs_gate s) @ [Approved p, ReadClock t] \<rparr>"
    | (execute) p js1 js2 d t where "gs_jobs s = js1 @ Rebuilding p # js2" "gs_jobs s' = js1 @ Executing p # js2"
        "disclosureFingerprint H d = ap_disclosureSha256 (pp_plan p)" "t < pp_expiresAtMs p"
        "gs_gate s' = executes H p d t (gs_gate s)"
  using assms
proof (cases rule: gate_step.cases)
  case (prepare ownerId d g)
  from assms(2) show ?thesis
  proof (cases rule: prepare_effect [of "gs_gate s" H ownerId d])
    case calm: calm
    with prepare show ?thesis by (intro that(1)) simp_all
  next
    case (issue p g1)
    with prepare show ?thesis by (intro that(2) [of g1 p]) simp_all
  qed
next
  case (cancel ownerId planId g)
  with calm_actD [OF cancel_op.calm] show ?thesis by (intro that(1)) auto
next
  case (discard ownerId g)
  with calm_actD [OF discard_op.calm] show ?thesis by (intro that(1)) auto
next
  case (audit a g)
  with calm_actD [OF audit_op.calm] show ?thesis by (intro that(1)) auto
next
  case (start ownerId planId r g)
  obtain r1 g1 where m: "takePlan H ownerId planId (gs_gate s) = (r1, g1)" by (cases "takePlan H ownerId planId (gs_gate s)")
  show ?thesis
  proof (cases r1)
    case (Inl e)
    with start m have "r = Inl e" "g = g1" by (auto simp: start_confirm_def seq_def)
    with start calm_result [OF calm_takePlan m] show ?thesis by (intro that(1)) (simp_all add: jobs_of_def)
  next
    case (Inr p)
    note facts = takePlan_Inr [OF m [unfolded Inr]]
    have "(planId, p) \<in> set (og_plans (gs_gate s))" using facts(1) by (rule map_of_SomeD)
    moreover from this have "planId = ap_id (pp_plan p)" using assms(2) by (auto simp: keyed_def)
    moreover have "r = Inr (Waits (Confirming p))" "g = g1\<lparr> og_trace := og_trace g1 @ [Asked p] \<rparr>"
      using start m Inr by (auto simp: start_confirm_def seq_def happens_def ret_def)
    ultimately show ?thesis
      using start facts by (intro that(3) [of p]) (simp_all add: taken_def jobs_of_def)
  qed
next
  case (resume js1 j js2 a m r g)
  have sub: "subseq (js1 @ js2) (js1 @ j # js2)" by (simp add: subseq_append' list_emb_Cons)
  show ?thesis
  proof (cases "jobs_of r")
    case Nil
    from resume(3) have "calm_run (gs_gate s) g"
    proof (cases rule: resume.elims)
      case (1 p b)
      with resume calm_result [OF calm_confirmed] show ?thesis by auto
    next
      case (2 p b)
      with resume Nil rebuilt_ends show ?thesis by auto
    next
      case (3 p b)
      with resume calm_result [OF calm_finished] show ?thesis by auto
    qed auto
    with resume Nil sub show ?thesis by (intro that(1)) simp_all
  next
    case (Cons j' js)
    then have r: "r = Inr (Waits j')" "jobs_of r = [j']" by (auto simp: jobs_of_def split: sum.splits progress.splits)
    from resume(3) show ?thesis
    proof (cases rule: resume.elims)
      case (1 p b)
      with resume(4) r have "confirmed H p b (gs_gate s) = (Inr (Waits j'), g)" using resume(3) by simp
      then obtain t where "j' = Rebuilding p"
        "g = (gs_gate s)\<lparr> og_trace := og_trace (gs_gate s) @ [Approved p, ReadClock t] \<rparr>"
        using confirmed_Waits by blast
      with resume r 1 show ?thesis by (intro that(4) [of js1 p js2 t]) simp_all
    next
      case (2 p b)
      with resume(4) r have "rebuilt H p b (gs_gate s) = (Inr (Waits j'), g)" using resume(3) by simp
      then obtain d t where "t < pp_expiresAtMs p" "disclosureFingerprint H d = ap_disclosureSha256 (pp_plan p)"
        "j' = Executing p" "g = executes H p d t (gs_gate s)"
        using rebuilt_Waits unfolding executes_def by blast
      with resume r 2 show ?thesis by (intro that(5) [of js1 p js2 d t]) simp_all
    next
      case (3 p b)
      with resume r show ?thesis by (auto simp: finished_def ret_def split: sum.splits)
    qed auto
  qed
qed

section \<open>Bounds of a running gate\<close>

lemma within_bounds_keeps:
  assumes "within_bounds g" "length (og_plans g) < MAX_PENDING_PLANS"
    "length (owner_plans (pp_ownerId p) g) < MAX_PENDING_PLANS_PER_OWNER" "ap_id (pp_plan p) \<notin> fst ` set (og_plans g)"
  shows "within_bounds (keeps_plan p g)"
  using assms by (auto simp: within_bounds_def keyed_def keeps_plan_def owner_plans_def)

lemma within_bounds_step:
  assumes "gate_step H s s'" "within_bounds (gs_gate s)"
  shows "within_bounds (gs_gate s')"
proof -
  have "keyed (gs_gate s)" using assms(2) by (simp add: within_bounds_def)
  from assms(1) this show ?thesis
  proof (cases rule: gate_step_effect)
    case calm
    with assms(2) show ?thesis by (blast intro: within_bounds_calm)
  next
    case (issue p g1)
    have "within_bounds g1" using assms(2) issue(1) by (rule within_bounds_calm)
    from within_bounds_keeps [OF this issue(4-6)] issue(2) show ?thesis by simp
  next
    case (ask p t)
    have "subseq (og_plans (gs_gate s')) (og_plans (gs_gate s))" using ask(3) by (simp add: taken_def subseq_delete)
    with assms(2) show ?thesis
      unfolding within_bounds_def using keyed_subseq length_subseq owner_plans_subseq order.trans by metis
  next
    case approve
    with assms(2) show ?thesis by (simp add: within_bounds_def keyed_def owner_plans_def)
  next
    case execute
    with assms(2) show ?thesis by (simp add: within_bounds_def keyed_def owner_plans_def executes_def)
  qed
qed

lemma reaches_within_bounds: "gate_reaches H s \<Longrightarrow> within_bounds (gs_gate s)"
proof (induction rule: gate_reaches.induct)
  case (initial ttl g)
  then show ?case
    by (auto simp: new_gate_def Let_def within_bounds_def keyed_def owner_plans_def split: if_splits)
qed (rule within_bounds_step)

section \<open>Each plan is used once\<close>

definition issues :: "utf16 \<Rightarrow> outbound_event \<Rightarrow> bool" where
  "issues i e = (case e of Issued p \<Rightarrow> ap_id (pp_plan p) = i | _ \<Rightarrow> False)"

definition asks :: "utf16 \<Rightarrow> outbound_event \<Rightarrow> bool" where
  "asks i e = (case e of Asked p \<Rightarrow> ap_id (pp_plan p) = i | _ \<Rightarrow> False)"

definition runs :: "utf16 \<Rightarrow> outbound_event \<Rightarrow> bool" where
  "runs i e = (case e of Executed p \<Rightarrow> ap_id (pp_plan p) = i | _ \<Rightarrow> False)"

definition times_of :: "(outbound_event \<Rightarrow> bool) \<Rightarrow> outbound_event list \<Rightarrow> nat" where
  "times_of f tr = length (filter f tr)"

fun awaits :: "utf16 \<Rightarrow> job \<Rightarrow> bool" where
  "awaits i (Confirming p) = (ap_id (pp_plan p) = i)"
| "awaits i (Rebuilding p) = (ap_id (pp_plan p) = i)"
| "awaits i (Executing p) = False"

definition used_once :: "utf16 \<Rightarrow> gate_system \<Rightarrow> bool" where
  "used_once i s =
     (let tr = og_trace (gs_gate s) in
      length (filter (\<lambda>(k, _). k = i) (og_plans (gs_gate s))) + times_of (asks i) tr \<le> times_of (issues i) tr
      \<and> length (filter (awaits i) (gs_jobs s)) + times_of (runs i) tr \<le> times_of (asks i) tr)"

lemma times_of_append [simp]: "times_of f (xs @ ys) = times_of f xs + times_of f ys" "times_of f [] = 0"
  "times_of f (x # xs) = (if f x then 1 else 0) + times_of f xs"
  by (simp_all add: times_of_def)

lemma times_calm: "list_all calm es \<Longrightarrow> times_of (asks i) es = 0 \<and> times_of (issues i) es = 0 \<and> times_of (runs i) es = 0"
  by (induction es) (auto simp: asks_def issues_def runs_def calm_def split: outbound_event.splits)

lemma used_once_calm:
  assumes "used_once i s" "calm_run (gs_gate s) g" "subseq js' (gs_jobs s)"
  shows "used_once i \<lparr> gs_gate = g, gs_jobs = js' \<rparr>"
proof -
  obtain es where es: "og_trace g = og_trace (gs_gate s) @ es" "list_all calm es" "subseq (og_plans g) (og_plans (gs_gate s))"
    using assms(2) by (auto simp: calm_run_def)
  have "length (filter (\<lambda>(k, _). k = i) (og_plans g)) \<le> length (filter (\<lambda>(k, _). k = i) (og_plans (gs_gate s)))"
    using es(3) by (intro length_subseq subseq_filter)
  moreover have "length (filter (awaits i) js') \<le> length (filter (awaits i) (gs_jobs s))"
    using assms(3) by (intro length_subseq subseq_filter)
  ultimately show ?thesis using assms(1) times_calm [OF es(2)] by (simp add: used_once_def Let_def es(1))
qed

lemma times_single [simp]:
  "issues i (Issued p) \<longleftrightarrow> ap_id (pp_plan p) = i" "asks i (Asked p) \<longleftrightarrow> ap_id (pp_plan p) = i"
  "runs i (Executed p) \<longleftrightarrow> ap_id (pp_plan p) = i"
  "\<not> issues i (Asked p)" "\<not> issues i (Executed p)" "\<not> asks i (Issued p)" "\<not> asks i (Executed p)"
  "\<not> runs i (Issued p)" "\<not> runs i (Asked p)" "\<not> issues i (ReadClock t)" "\<not> asks i (ReadClock t)"
  "\<not> runs i (ReadClock t)" "\<not> issues i (Audited a)" "\<not> asks i (Audited a)" "\<not> runs i (Audited a)"
  "\<not> issues i (Approved p)" "\<not> asks i (Approved p)" "\<not> runs i (Approved p)"
  "\<not> issues i (Rebuilt p d)" "\<not> asks i (Rebuilt p d)" "\<not> runs i (Rebuilt p d)"
  by (simp_all add: issues_def asks_def runs_def)

lemma used_once_step:
  assumes "gate_step H s s'" "keyed (gs_gate s)" "used_once i s"
  shows "used_once i s'"
  using assms(1,2)
proof (cases rule: gate_step_effect)
  case calm
  moreover have "\<lparr> gs_gate = gs_gate s', gs_jobs = gs_jobs s' \<rparr> = s'" by simp
  ultimately show ?thesis using used_once_calm [OF assms(3)] by metis
next
  case (issue p g1)
  have "used_once i \<lparr> gs_gate = g1, gs_jobs = gs_jobs s \<rparr>"
    by (rule used_once_calm [OF assms(3) issue(1)]) simp
  with issue(2,3) show ?thesis by (auto simp: used_once_def Let_def keeps_plan_def)
next
  case (ask p t)
  have "(ap_id (pp_plan p), p) \<in> set (filter (\<lambda>(k, _). k = i) (og_plans (gs_gate s)))" if "ap_id (pp_plan p) = i"
    using ask(1) that by simp
  then have some: "0 < length (filter (\<lambda>(k, _). k = i) (og_plans (gs_gate s)))" if "ap_id (pp_plan p) = i"
    using that by (metis length_pos_if_in_set)
  have "filter (\<lambda>(k, _). k = i) (AList.delete (ap_id (pp_plan p)) (og_plans (gs_gate s)))
      = (if ap_id (pp_plan p) = i then [] else filter (\<lambda>(k, _). k = i) (og_plans (gs_gate s)))"
    by (auto simp: AList.delete_eq filter_empty_conv intro: filter_cong)
  note deleted = this
  have first: "length (filter (\<lambda>(k, _). k = i) (og_plans (gs_gate s))) + times_of (asks i) (og_trace (gs_gate s))
      \<le> times_of (issues i) (og_trace (gs_gate s))"
    and second: "length (filter (awaits i) (gs_jobs s)) + times_of (runs i) (og_trace (gs_gate s))
      \<le> times_of (asks i) (og_trace (gs_gate s))"
    using assms(3) by (simp_all add: used_once_def Let_def)
  show ?thesis
  proof (cases "ap_id (pp_plan p) = i")
    case True
    have "Suc (times_of (asks i) (og_trace (gs_gate s))) \<le> times_of (issues i) (og_trace (gs_gate s))"
      using first some [OF True] by linarith
    with second ask(3,4) deleted True show ?thesis by (simp add: used_once_def Let_def taken_def)
  next
    case False
    with first second ask(3,4) deleted show ?thesis by (simp add: used_once_def Let_def taken_def)
  qed
next
  case (approve p js1 js2 t)
  with assms(3) show ?thesis by (simp add: used_once_def Let_def split: if_splits)
next
  case (execute p js1 js2 d t)
  with assms(3) show ?thesis by (simp add: used_once_def Let_def executes_def split: if_splits)
qed

lemma reaches_used_once: "gate_reaches H s \<Longrightarrow> used_once i s"
proof (induction rule: gate_reaches.induct)
  case (initial ttl g)
  then show ?case by (auto simp: new_gate_def Let_def used_once_def split: if_splits)
next
  case (further s s')
  have "keyed (gs_gate s)" using reaches_within_bounds [OF further(1)] by (simp add: within_bounds_def)
  from used_once_step [OF further(2) this further(3)] show ?case .
qed

section \<open>What precedes an execution\<close>

definition authorized :: "host \<Rightarrow> pending_plan \<Rightarrow> outbound_event list \<Rightarrow> bool" where
  "authorized H p before = (\<exists>start d t.
     before = start @ [Rebuilt p d, ReadClock t, Audited (authorization H p)] \<and> t < pp_expiresAtMs p
     \<and> disclosureFingerprint H d = disclosureFingerprint H (ap_disclosure (pp_plan p))
     \<and> subseq [Issued p, Asked p, Approved p] start)"

fun job_backed :: "outbound_event list \<Rightarrow> job \<Rightarrow> bool" where
  "job_backed tr (Confirming p) = subseq [Issued p, Asked p] tr"
| "job_backed tr (Rebuilding p) = subseq [Issued p, Asked p, Approved p] tr"
| "job_backed tr (Executing p) = True"

definition backed :: "host \<Rightarrow> gate_system \<Rightarrow> bool" where
  "backed H s =
     (let tr = og_trace (gs_gate s) in
      (\<forall>(i, p) \<in> set (og_plans (gs_gate s)). Issued p \<in> set tr)
      \<and> (\<forall>j \<in> set (gs_jobs s). job_backed tr j)
      \<and> (\<forall>p. Issued p \<in> set tr \<longrightarrow> ap_disclosureSha256 (pp_plan p) = disclosureFingerprint H (ap_disclosure (pp_plan p)))
      \<and> (\<forall>before p after. tr = before @ Executed p # after \<longrightarrow> authorized H p before))"

lemma backedI:
  assumes "\<And>i p. (i, p) \<in> set (og_plans (gs_gate s)) \<Longrightarrow> Issued p \<in> set (og_trace (gs_gate s))"
    "\<And>j. j \<in> set (gs_jobs s) \<Longrightarrow> job_backed (og_trace (gs_gate s)) j"
    "\<And>p. Issued p \<in> set (og_trace (gs_gate s))
      \<Longrightarrow> ap_disclosureSha256 (pp_plan p) = disclosureFingerprint H (ap_disclosure (pp_plan p))"
    "\<And>before p after. og_trace (gs_gate s) = before @ Executed p # after \<Longrightarrow> authorized H p before"
  shows "backed H s"
  using assms by (auto simp: backed_def Let_def)

lemma job_backed_append: "job_backed tr j \<Longrightarrow> job_backed (tr @ es) j"
  by (cases j) (auto intro: subseq_rev_drop_many)

lemma executed_append:
  assumes "list_all (\<lambda>e. \<not> (\<exists>p. e = Executed p)) es" "tr @ es = before @ Executed p # after"
  shows "\<exists>after'. tr = before @ Executed p # after'"
proof -
  have "Executed p \<notin> set es" using assms(1) by (auto simp: list_all_iff)
  with assms(2) show ?thesis by (auto simp: append_eq_append_conv2 append_eq_Cons_conv)
qed

lemma calm_executed: "list_all calm es \<Longrightarrow> list_all (\<lambda>e. \<not> (\<exists>p. e = Executed p)) es"
  by (auto simp: list_all_iff calm_def)

text \<open>New events without an execution, jobs and plans already backed.\<close>

lemma backed_append:
  assumes "backed H s" "og_trace g = og_trace (gs_gate s) @ es" "list_all (\<lambda>e. \<not> (\<exists>p. e = Executed p)) es"
    "set (og_plans g) \<subseteq> set (og_plans (gs_gate s)) \<union> {(i, p). Issued p \<in> set es}"
    "\<And>p. Issued p \<in> set es \<Longrightarrow> ap_disclosureSha256 (pp_plan p) = disclosureFingerprint H (ap_disclosure (pp_plan p))"
    "\<And>j. j \<in> set js' \<Longrightarrow> j \<in> set (gs_jobs s) \<or> job_backed (og_trace g) j"
  shows "backed H \<lparr> gs_gate = g, gs_jobs = js' \<rparr>"
proof (rule backedI, goal_cases)
  case (1 i p)
  with assms(1,2,4) show ?case by (fastforce simp: backed_def Let_def)
next
  case (2 j)
  with assms(1,2,6) job_backed_append show ?case by (fastforce simp: backed_def Let_def)
next
  case (3 p)
  with assms(1,2,5) show ?case by (auto simp: backed_def Let_def)
next
  case (4 before p after)
  then have "og_trace (gs_gate s) @ es = before @ Executed p # after" using assms(2) by simp
  from executed_append [OF assms(3) this] assms(1) show ?case by (auto simp: backed_def Let_def)
qed

lemma system_eq: "\<lparr> gs_gate = gs_gate s, gs_jobs = gs_jobs s \<rparr> = s"
  by simp

lemma backed_step:
  assumes "gate_step H s s'" "keyed (gs_gate s)" "backed H s"
  shows "backed H s'"
  using assms(1,2)
proof (cases rule: gate_step_effect)
  case calm
  then obtain es where es: "og_trace (gs_gate s') = og_trace (gs_gate s) @ es" "list_all calm es"
    by (auto simp: calm_run_def)
  have "backed H \<lparr> gs_gate = gs_gate s', gs_jobs = gs_jobs s' \<rparr>"
  proof (rule backed_append [OF assms(3) es(1) calm_executed [OF es(2)]])
    show "set (og_plans (gs_gate s')) \<subseteq> set (og_plans (gs_gate s)) \<union> {(i, p). Issued p \<in> set es}"
      using calm(1) subseq_set by (auto simp: calm_run_def)
    show "j \<in> set (gs_jobs s) \<or> job_backed (og_trace (gs_gate s')) j" if "j \<in> set (gs_jobs s')" for j
      using that calm(2) subseq_set by blast
  qed (use es(2) in \<open>auto simp: list_all_iff calm_def\<close>)
  then show ?thesis by (simp add: system_eq)
next
  case (issue p g1)
  then obtain es where es: "og_trace g1 = og_trace (gs_gate s) @ es" "list_all calm es"
    by (auto simp: calm_run_def)
  have "backed H \<lparr> gs_gate = gs_gate s', gs_jobs = gs_jobs s' \<rparr>"
  proof (rule backed_append [OF assms(3), of _ "es @ [Issued p]"])
    show "set (og_plans (gs_gate s')) \<subseteq> set (og_plans (gs_gate s)) \<union> {(i, q). Issued q \<in> set (es @ [Issued p])}"
      using issue(1,2) subseq_set by (fastforce simp: calm_run_def keeps_plan_def)
  qed (use issue es calm_executed [OF es(2)] in \<open>auto simp: keeps_plan_def list_all_iff calm_def\<close>)
  then show ?thesis by (simp add: system_eq)
next
  case (ask p t)
  have issued: "Issued p \<in> set (og_trace (gs_gate s))" using assms(3) ask(1) by (auto simp: backed_def Let_def)
  have "backed H \<lparr> gs_gate = gs_gate s', gs_jobs = gs_jobs s' \<rparr>"
  proof (rule backed_append [OF assms(3), of _ "[ReadClock t, Asked p]"])
    show "set (og_plans (gs_gate s')) \<subseteq> set (og_plans (gs_gate s)) \<union> {(i, q). Issued q \<in> set [ReadClock t, Asked p]}"
      by (auto simp: ask(3) taken_def AList.delete_eq)
    show "j \<in> set (gs_jobs s) \<or> job_backed (og_trace (gs_gate s')) j" if "j \<in> set (gs_jobs s')" for j
    proof (cases "j = Confirming p")
      case True
      have "subseq ([Issued p] @ [Asked p]) (og_trace (gs_gate s) @ [ReadClock t, Asked p])"
        using issued by (intro list_emb_append_mono) (simp_all add: subseq_singleton_left)
      with True ask(3) show ?thesis by (simp add: taken_def)
    qed (use that ask(4) in simp)
  qed (use ask in \<open>auto simp: taken_def\<close>)
  then show ?thesis by (simp add: system_eq)
next
  case (approve p js1 js2 t)
  have "backed H \<lparr> gs_gate = gs_gate s', gs_jobs = gs_jobs s' \<rparr>"
  proof (rule backed_append [OF assms(3), of _ "[Approved p, ReadClock t]"])
    show "j \<in> set (gs_jobs s) \<or> job_backed (og_trace (gs_gate s')) j" if "j \<in> set (gs_jobs s')" for j
    proof (cases "j = Rebuilding p")
      case True
      have "job_backed (og_trace (gs_gate s)) (Confirming p)"
        using assms(3) approve(1) by (auto simp: backed_def Let_def)
      then have "subseq ([Issued p, Asked p] @ [Approved p]) (og_trace (gs_gate s) @ [Approved p, ReadClock t])"
        by (intro list_emb_append_mono) (simp_all add: subseq_singleton_left)
      with True approve(3) show ?thesis by simp
    qed (use that approve in auto)
  qed (use approve in auto)
  then show ?thesis by (simp add: system_eq)
next
  case (execute p js1 js2 d t)
  let ?tr = "og_trace (gs_gate s)"
  have job: "subseq [Issued p, Asked p, Approved p] ?tr" using assms(3) execute(1) by (auto simp: backed_def Let_def)
  then have "Issued p \<in> set ?tr" using subseq_set by fastforce
  then have sha: "ap_disclosureSha256 (pp_plan p) = disclosureFingerprint H (ap_disclosure (pp_plan p))"
    using assms(3) by (auto simp: backed_def Let_def)
  show ?thesis
  proof (rule backedI, goal_cases)
    case (1 i q)
    with assms(3) execute(5) show ?case by (auto simp: backed_def Let_def executes_def)
  next
    case (2 j)
    with assms(3) execute(1,2,5) job_backed_append show ?case by (fastforce simp: backed_def Let_def executes_def)
  next
    case (3 q)
    with assms(3) execute(5) show ?case by (auto simp: backed_def Let_def executes_def)
  next
    case (4 before q after)
    then have split: "(?tr @ [Rebuilt p d, ReadClock t, Audited (authorization H p)]) @ [Executed p] = before @ Executed q # after"
      using execute(5) by (simp add: executes_def)
    show ?case
    proof (cases after rule: rev_cases)
      case Nil
      with split have "before = ?tr @ [Rebuilt p d, ReadClock t, Audited (authorization H p)]" "q = p" by auto
      with job sha execute(3,4) show ?thesis unfolding authorized_def by metis
    next
      case (snoc after' e)
      with split have "?tr @ [Rebuilt p d, ReadClock t, Audited (authorization H p)] = before @ Executed q # after'" by simp
      from executed_append [OF _ this] assms(3) show ?thesis by (auto simp: backed_def Let_def)
    qed
  qed
qed

lemma reaches_backed: "gate_reaches H s \<Longrightarrow> backed H s"
proof (induction rule: gate_reaches.induct)
  case (initial ttl g)
  then show ?case by (auto simp: new_gate_def Let_def backed_def split: if_splits)
next
  case (further s s')
  have "keyed (gs_gate s)" using reaches_within_bounds [OF further(1)] by (simp add: within_bounds_def)
  from backed_step [OF further(2) this further(3)] show ?case .
qed

text \<open>
  C8. Nothing is sent without a present approval. Whenever an action of a plan runs, in whatever order
  operations and answers come, the plan was issued to its owner, its confirmation was shown and then
  approved; the current disclosure was then rebuilt with the digest of the one that was shown, the plan
  had not expired after that, and the authorization was recorded in the audit just before.
\<close>

theorem outbound_executed_only_when_approved:
  assumes "gate_reaches H s" "og_trace (gs_gate s) = before @ Executed p # after"
  shows "\<exists>start d t. before = start @ [Rebuilt p d, ReadClock t, Audited (authorization H p)]
     \<and> t < pp_expiresAtMs p \<and> disclosureFingerprint H d = disclosureFingerprint H (ap_disclosure (pp_plan p))
     \<and> subseq [Issued p, Asked p, Approved p] start"
  using reaches_backed [OF assms(1)] assms(2) by (auto simp: backed_def Let_def authorized_def)

text \<open>
  C9. An approval is used once: under every identifier the gate shows at most as many confirmations as it
  issued plans, and runs at most as many actions as it showed confirmations.
\<close>

theorem outbound_plan_used_once:
  assumes "gate_reaches H s"
  shows "times_of (runs i) (og_trace (gs_gate s)) \<le> times_of (asks i) (og_trace (gs_gate s))
    \<and> times_of (asks i) (og_trace (gs_gate s)) \<le> times_of (issues i) (og_trace (gs_gate s))"
  using reaches_used_once [OF assms, of i] by (simp add: used_once_def Let_def)

text \<open>
  C34. However many plans are prepared, at most 256 are pending and at most 16 of one owner, under distinct
  identifiers that are their own.
\<close>

theorem outbound_plans_bounded:
  assumes "gate_reaches H s"
  shows "length (og_plans (gs_gate s)) \<le> 256
    \<and> (\<forall>ownerId. length (filter (\<lambda>(_, p). pp_ownerId p = ownerId) (og_plans (gs_gate s))) \<le> 16)
    \<and> distinct (map fst (og_plans (gs_gate s))) \<and> (\<forall>(i, p) \<in> set (og_plans (gs_gate s)). ap_id (pp_plan p) = i)"
  using reaches_within_bounds [OF assms]
  by (auto simp: within_bounds_def keyed_def owner_plans_def MAX_PENDING_PLANS_def MAX_PENDING_PLANS_PER_OWNER_def)

section \<open>Owners do not touch each other's plans\<close>

named_theorems key_intros \<open>operations that leave the plan of an identifier\<close>

definition keeps_key :: "utf16 \<Rightarrow> 'a act \<Rightarrow> bool" where
  "keeps_key k m = (\<forall>g. map_of (og_plans (snd (m g))) k = map_of (og_plans g) k)"

lemma keeps_keyD: "keeps_key k m \<Longrightarrow> map_of (og_plans (snd (m g))) k = map_of (og_plans g) k"
  by (simp add: keeps_key_def)

lemma keeps_key_basic [key_intros]:
  "keeps_key k (ret x)" "keeps_key k (fail e)" "keeps_key k (throw_unless b msg)" "keeps_key k (happens ev)"
  by (simp_all add: keeps_key_def ret_def fail_def throw_unless_def happens_def)

lemma keeps_key_seq [key_intros]:
  "keeps_key k m \<Longrightarrow> (\<And>x. keeps_key k (f x)) \<Longrightarrow> keeps_key k (seq m f)"
  by (auto simp: keeps_key_def seq_def split: prod.split sum.split) (metis snd_conv)+

lemma keeps_key_catch [key_intros]:
  "keeps_key k m \<Longrightarrow> (\<And>e. keeps_key k (h e)) \<Longrightarrow> keeps_key k (catch m h)"
  by (auto simp: keeps_key_def catch_def split: prod.split sum.split) (metis snd_conv)+

lemma keeps_key_now [key_intros]: "keeps_key k (now H)"
  by (simp add: keeps_key_def now_def Let_def seq_def happens_def ret_def)

lemma keeps_key_audits [key_intros]:
  "keeps_key k (audit_external H action result metadata)" "keeps_key k (auditPlanDenial H p reason requester)"
  "keeps_key k (auditUnknownPlan H ownerId planId reason)"
  by (simp_all add: keeps_key_def audit_external_def auditPlanDenial_def auditUnknownPlan_def appendAudit_def
    happens_def split: option.split)

lemma keeps_key_delete [key_intros]: "i \<noteq> k \<Longrightarrow> keeps_key k (plans_delete i)"
  by (simp add: keeps_key_def plans_delete_def delete_conv')

lemma keeps_key_owner [key_intros]: "keeps_key k (assertOwnerId ownerId)"
  unfolding assertOwnerId_def by (rule key_intros)

lemma keeps_key_for_plans: "(\<And>p. p \<in> set ps \<Longrightarrow> keeps_key k (f p)) \<Longrightarrow> keeps_key k (for_plans f ps)"
  by (induction ps) (simp_all add: key_intros)

lemma keeps_key_discard_plans:
  "(\<And>p. p \<in> set ps \<Longrightarrow> ap_id (pp_plan p) \<noteq> k) \<Longrightarrow> keeps_key k (discard_plans H failure ps)"
  by (induction ps arbitrary: failure) (simp_all add: key_intros)

lemma discardExpired_keeps:
  assumes "keyed g" "map_of (og_plans g) k = Some p" "host_clock H (og_trace g) < pp_expiresAtMs p"
  shows "map_of (og_plans (snd (discardExpiredPlans H g))) k = Some p"
proof -
  define t g1 where "t = host_clock H (og_trace g)" and "g1 = g\<lparr> og_trace := og_trace g @ [ReadClock t] \<rparr>"
  have "keeps_key k (for_plans (\<lambda>q. if pp_expiresAtMs q > t then ret ()
           else seq (auditPlanDenial H q ''approval-expired-unused'' None) (\<lambda>_. plans_delete (ap_id (pp_plan q))))
         (map snd (og_plans g)))"
  proof (rule keeps_key_for_plans)
    fix q
    assume "q \<in> set (map snd (og_plans g))"
    then have q: "(ap_id (pp_plan q), q) \<in> set (og_plans g)" using assms(1) by (auto simp: keyed_def)
    have "t < pp_expiresAtMs q" if "ap_id (pp_plan q) = k"
    proof -
      have "map_of (og_plans g) k = Some q" using q assms(1) that by (auto simp: keyed_def)
      with assms(2,3) show ?thesis by (simp add: t_def)
    qed
    then show "keeps_key k (if pp_expiresAtMs q > t then ret ()
           else seq (auditPlanDenial H q ''approval-expired-unused'' None) (\<lambda>_. plans_delete (ap_id (pp_plan q))))"
      by (cases "ap_id (pp_plan q) = k") (simp_all add: key_intros)
  qed
  from keeps_keyD [OF this, of g1] assms(2) show ?thesis
    by (simp add: discardExpiredPlans_def seq_def now_eq [THEN iffD2] now_def Let_def happens_def ret_def g1_def t_def)
qed

lemma assertOwnerId_state: "snd (assertOwnerId ownerId g) = g"
  by (simp add: assertOwnerId_def throw_unless_def ret_def fail_def)

lemma keeps_other_seq:
  assumes "map_of (og_plans g) k = Some p" "\<And>u. map_of (og_plans (snd (f u g))) k = Some p"
  shows "map_of (og_plans (snd (seq (assertOwnerId ownerId) f g))) k = Some p"
  using assms assertOwnerId_state [of ownerId g] by (auto simp: seq_def split: prod.split sum.split)

lemma keeps_other_unknown:
  assumes "keyed g" "map_of (og_plans g) k = Some p" "host_clock H (og_trace g) < pp_expiresAtMs p"
    "\<And>x. keeps_key k (f x)"
  shows "map_of (og_plans (snd (seq (discardExpiredPlans H) f g))) k = Some p"
  using discardExpired_keeps [OF assms(1-3)] keeps_keyD [OF assms(4)]
  by (auto simp: seq_def split: prod.split sum.split)

lemma keeps_key_result: "keeps_key k m \<Longrightarrow> map_of (og_plans g) k = Some p \<Longrightarrow> map_of (og_plans (snd (m g))) k = Some p"
  by (simp add: keeps_key_def)

lemma keeps_other:
  assumes "keyed g" "map_of (og_plans g) k = Some p" "host_clock H (og_trace g) < pp_expiresAtMs p" "pp_ownerId p \<noteq> ownerId"
  shows "map_of (og_plans (snd (takePlan H ownerId planId g))) k = Some p"
    "map_of (og_plans (snd (cancel H ownerId planId g))) k = Some p"
    "map_of (og_plans (snd (discardOwner H ownerId g))) k = Some p"
proof -
  have other: "planId \<noteq> k" if "map_of (og_plans g) planId = Some q" "pp_ownerId q = ownerId" for q
    using that assms(2,4) by auto
  note unknown = keeps_other_unknown [OF assms(1-3)]
  show "map_of (og_plans (snd (takePlan H ownerId planId g))) k = Some p"
  proof (cases "map_of (og_plans g) planId")
    case None
    then show ?thesis
      unfolding takePlan_def by (intro keeps_other_seq [OF assms(2)]) (simp add: unknown key_intros)
  next
    case (Some q)
    then show ?thesis
      unfolding takePlan_def using other [OF Some]
      by (intro keeps_other_seq [OF assms(2)]) (simp add: keeps_key_result [OF _ assms(2)] key_intros)
  qed
  show "map_of (og_plans (snd (cancel H ownerId planId g))) k = Some p"
  proof (cases "map_of (og_plans g) planId")
    case None
    then show ?thesis
      unfolding cancel_def by (intro keeps_other_seq [OF assms(2)]) (simp add: unknown key_intros)
  next
    case (Some q)
    then show ?thesis
      unfolding cancel_def using other [OF Some]
      by (intro keeps_other_seq [OF assms(2)]) (simp add: keeps_key_result [OF _ assms(2)] key_intros)
  qed
  have "ap_id (pp_plan q) \<noteq> k" if "q \<in> set (filter (\<lambda>q. pp_ownerId q = ownerId) (map snd (og_plans g)))" for q
  proof -
    from that have "(ap_id (pp_plan q), q) \<in> set (og_plans g)" "pp_ownerId q = ownerId" using assms(1) by (auto simp: keyed_def)
    moreover from this(1) have "map_of (og_plans g) (ap_id (pp_plan q)) = Some q" using assms(1) by (simp add: keyed_def)
    ultimately show ?thesis using assms(2,4) by auto
  qed
  note discard = keeps_key_discard_plans [OF this]
  have "map_of (og_plans (snd (seq (discard_plans H None (filter (\<lambda>q. pp_ownerId q = ownerId) (map snd (og_plans g)))) f g))) k
      = Some p" if "\<And>x. keeps_key k (f x)" for f :: "outbound_error option \<Rightarrow> unit act"
    by (rule keeps_key_result [OF keeps_key_seq [OF discard that] assms(2)])
  then show "map_of (og_plans (snd (discardOwner H ownerId g))) k = Some p"
    unfolding discardOwner_def by (intro keeps_other_seq [OF assms(2)]) (simp add: key_intros split: option.split)
qed

lemma keeps_other_confirm:
  "map_of (og_plans (snd (takePlan H ownerId planId g))) k = Some p
   \<Longrightarrow> map_of (og_plans (snd (start_confirm H ownerId planId g))) k = Some p"
  by (auto simp: start_confirm_def seq_def happens_def ret_def split: prod.splits sum.splits)

text \<open>
  C33. Owners are kept apart: confirming, cancelling and discarding on behalf of one owner leave every plan of
  another owner that has not expired, whatever identifier is named. A confirmation starts only for the
  owner's own plan, before it expires, and takes the plan away.
\<close>

theorem outbound_owners_kept_apart:
  assumes "gate_reaches H s" "(k, p) \<in> set (og_plans (gs_gate s))" "host_clock H (og_trace (gs_gate s)) < pp_expiresAtMs p"
    "pp_ownerId p \<noteq> ownerId"
  shows "(k, p) \<in> set (og_plans (snd (cancel H ownerId planId (gs_gate s))))
    \<and> (k, p) \<in> set (og_plans (snd (discardOwner H ownerId (gs_gate s))))
    \<and> (case start_confirm H ownerId planId (gs_gate s) of (r, g) \<Rightarrow>
        (k, p) \<in> set (og_plans g) \<and> (\<forall>j \<in> set (jobs_of r). \<exists>q. j = Confirming q \<and> pp_ownerId q = ownerId
          \<and> map_of (og_plans (gs_gate s)) planId = Some q \<and> map_of (og_plans g) planId = None))"
proof -
  have keyed: "keyed (gs_gate s)" using reaches_within_bounds [OF assms(1)] by (simp add: within_bounds_def)
  then have "map_of (og_plans (gs_gate s)) k = Some p" using assms(2) by (simp add: keyed_def)
  note kept = keeps_other [OF keyed this assms(3,4)]
  obtain r g where start: "start_confirm H ownerId planId (gs_gate s) = (r, g)"
    by (cases "start_confirm H ownerId planId (gs_gate s)")
  have "\<exists>q. j = Confirming q \<and> pp_ownerId q = ownerId \<and> map_of (og_plans (gs_gate s)) planId = Some q
      \<and> map_of (og_plans g) planId = None" if "j \<in> set (jobs_of r)" for j
  proof -
    from that have "r = Inr (Waits j)" by (auto simp: jobs_of_def split: sum.splits progress.splits)
    with start obtain q g1 where "takePlan H ownerId planId (gs_gate s) = (Inr q, g1)" "j = Confirming q"
      "g = g1\<lparr> og_trace := og_trace g1 @ [Asked q] \<rparr>" by (auto simp: start_confirm_def seq_Inr happens_def ret_def)
    with takePlan_Inr [OF this(1)] show ?thesis by (simp add: delete_conv')
  qed
  moreover have "(k, p) \<in> set (og_plans g)"
    using keeps_other_confirm [OF kept(1), of planId] start by (simp add: map_of_SomeD)
  ultimately show ?thesis using start kept(2,3) by (simp add: map_of_SomeD)
qed

section \<open>No silent end\<close>

fun job_plan :: "job \<Rightarrow> pending_plan" where
  "job_plan (Confirming p) = p"
| "job_plan (Rebuilding p) = p"
| "job_plan (Executing p) = p"

text \<open>The last thing that happened is an audit record about the plan.\<close>

definition ends_audited :: "host \<Rightarrow> pending_plan \<Rightarrow> audit_outcome \<Rightarrow> gate \<Rightarrow> bool" where
  "ends_audited H p result g = (\<exists>tr a. og_trace g = tr @ [Audited a] \<and> oa_outcome a = result
     \<and> oa_action a = plan_action p \<and> set (auditMetadata H p) \<subseteq> set (oa_metadata a))"

definition sink_failed :: "host \<Rightarrow> outbound_error \<Rightarrow> bool" where
  "sink_failed H e = (\<exists>tr a name. host_sink H tr a = Some name \<and> e = Thrown name)"

lemma audit_external_result:
  assumes "audit_external H action result metadata g = (r, g')"
  shows "(r = Inr () \<and> (\<exists>tr. og_trace g' = tr @ [Audited \<lparr> oa_category = js ''external-send'', oa_action = action,
      oa_outcome = result, oa_metadata = metadata \<rparr>])) \<or> (\<exists>e. r = Inl e \<and> sink_failed H e)"
  using assms by (auto simp: audit_external_def appendAudit_def happens_def sink_failed_def split: option.splits)

lemma deny_result:
  assumes "deny H p reason g = (r, g')"
  shows "(r = Inr OutcomeDenied \<and> ends_audited H p AuditDenied g') \<or> (\<exists>e. r = Inl e \<and> sink_failed H e)"
proof -
  obtain r1 g1 where m: "auditPlanDenial H p reason None g = (r1, g1)" by (cases "auditPlanDenial H p reason None g")
  from audit_external_result [OF m [unfolded auditPlanDenial_def]] m assms show ?thesis
    by (auto simp: deny_def seq_def ret_def ends_audited_def)
qed

lemma audit_failure_result:
  assumes "audit_failure H p kind e g = (r, g')"
  shows "(r = Inl e \<and> ends_audited H p AuditFailed g') \<or> (\<exists>e'. r = Inl e' \<and> sink_failed H e')"
proof -
  define m where "m = audit_external H (plan_action p) AuditFailed
       (auditMetadata H p @ [(''failureKind'', js kind), (''errorKind'', safeErrorKind e)])"
  obtain r1 g1 where m1: "m g = (r1, g1)" by (cases "m g")
  from audit_external_result [OF m1 [unfolded m_def]] m1 assms show ?thesis
    by (auto simp: audit_failure_def m_def [symmetric] seq_def fail_def ends_audited_def)
qed

lemma revalidate_False:
  assumes "revalidate H p answer g = (Inr False, g')"
  shows "ends_audited H p AuditDenied g'"
proof -
  from assms obtain g1 where "auditPlanDenial H p ''approval-expired-after-revalidation'' None g1 = (Inr (), g')"
    by (auto simp: revalidate_def seq_Inr ret_def fail_def split: sum.splits if_splits)
  then show ?thesis by (auto simp: auditPlanDenial_def audit_external_Inr ends_audited_def)
qed

text \<open>
  C35. No confirmed action ends silently: when the confirmation of a plan ends, either the action was run, or
  the last audit record is a denial or a failure of this plan that matches the outcome, or the audit sink
  itself failed and its error is thrown.
\<close>

theorem outbound_end_audited:
  assumes "resume H j a = Some m" "m g = (r, g')" "jobs_of r = []"
  shows "case r of
      Inr OutcomeDenied \<Rightarrow> ends_audited H (job_plan j) AuditDenied g'
    | Inr OutcomeAllowed \<Rightarrow> j = Executing (job_plan j) \<and> g' = g
    | Inr (Waits j') \<Rightarrow> False
    | Inl e \<Rightarrow> ends_audited H (job_plan j) AuditFailed g' \<or> sink_failed H e"
  using assms(1)
proof (cases rule: resume.elims)
  case (1 p b)
  then have run: "confirmed H p b g = (r, g')" using assms(2) by simp
  consider e where "b = Inl e" | "b = Inr False" | "b = Inr True" by (cases b) auto
  then show ?thesis
  proof cases
    case b: 3
    show ?thesis
    proof (cases "pp_expiresAtMs p \<le> host_clock H (og_trace g @ [Approved p])")
      case True
      with run b obtain g1 where "deny H p ''approval-expired-after-confirmation'' g1 = (r, g')"
        by (auto simp: confirmed_def seq_def happens_def now_def Let_def ret_def)
      from deny_result [OF this] 1 show ?thesis by auto
    next
      case False
      with run b assms(3) show ?thesis
        by (auto simp: confirmed_def seq_def happens_def now_def Let_def ret_def jobs_of_def)
    qed
  qed (use run 1 deny_result audit_failure_result in \<open>fastforce simp: confirmed_def\<close>)+
next
  case (2 p b)
  then have run: "rebuilt H p b g = (r, g')" using assms(2) by simp
  obtain r1 g1 where m: "revalidate H p b g = (r1, g1)" by (cases "revalidate H p b g")
  consider e where "r1 = Inl e" | "r1 = Inr False" | "r1 = Inr True" by (cases r1) auto
  then show ?thesis
  proof cases
    case (1 e)
    with run m obtain kind where "audit_failure H p kind e g1 = (r, g')" by (auto simp: rebuilt_def)
    from audit_failure_result [OF this] 2 show ?thesis by auto
  next
    case r1: 2
    with run m revalidate_False 2 show ?thesis by (auto simp: rebuilt_def ret_def)
  next
    case 3
    define n where "n = audit_external H (plan_action p) AuditAllowed
      (auditMetadata H p @ [(''phase'', js ''authorized-before-execution'')])"
    obtain r2 g2 where n: "n g1 = (r2, g2)" by (cases "n g1")
    from audit_external_result [OF n [unfolded n_def]] n run m 3 2 assms(3) show ?thesis
      by (auto simp: rebuilt_def n_def [symmetric] seq_def happens_def ret_def jobs_of_def)
  qed
next
  case (3 p b)
  then have run: "finished H p b g = (r, g')" using assms(2) by simp
  then show ?thesis
    using 3 audit_failure_result by (cases b) (fastforce simp: finished_def ret_def)+
qed auto

section \<open>What the digest stands for\<close>

definition units :: "utf16 \<Rightarrow> bool" where
  "units s = list_all (\<lambda>u. u < 0x10000) s"

definition destination_units :: "destination \<Rightarrow> bool" where
  "destination_units d = (units (ds_kind d) \<and> units (ds_endpoint d) \<and> units (ds_resource d) \<and> units (ds_transport d))"

definition detail_units :: "disclosure_detail \<Rightarrow> bool" where
  "detail_units d = (units (dd_label d) \<and> units (dd_value d))"

definition disclosure_units :: "disclosure \<Rightarrow> bool" where
  "disclosure_units d = (units (dc_action d) \<and> units (dc_title d) \<and> units (dc_summary d) \<and> units (dc_confirmLabel d)
     \<and> destination_units (dc_destination d) \<and> list_all detail_units (dc_details d) \<and> units (dc_warning d))"

lemma quote_append: "units s \<Longrightarrow> units t \<Longrightarrow> json_quote s @ r = json_quote t @ r' \<longleftrightarrow> s = t \<and> r = r'"
  by (rule json_quote_append) (auto simp: units_def list_all_iff)

lemma detail_append:
  "detail_units d \<Longrightarrow> detail_units d' \<Longrightarrow> detail_json d @ r = detail_json d' @ r' \<longleftrightarrow> d = d' \<and> r = r'"
  by (simp add: detail_json_def json_object_def detail_units_def quote_append js_def) auto

lemma destination_append:
  "destination_units d \<Longrightarrow> destination_units d'
    \<Longrightarrow> destination_json d @ r = destination_json d' @ r' \<longleftrightarrow> d = d' \<and> r = r'"
  by (simp add: destination_json_def json_object_def destination_units_def quote_append js_def) auto

lemma detail_json_brace: "\<exists>t. detail_json d = 123 # t"
  by (simp add: detail_json_def json_object_def js_def)

lemma details_append:
  "list_all detail_units ds \<Longrightarrow> list_all detail_units ds'
    \<Longrightarrow> json_commas (map detail_json ds) @ 93 # r = json_commas (map detail_json ds') @ 93 # r' \<longleftrightarrow> ds = ds' \<and> r = r'"
proof (induction ds arbitrary: ds')
  case Nil
  show ?case
  proof (cases ds')
    case (Cons d' es)
    obtain t where "detail_json d' = 123 # t" using detail_json_brace by blast
    with Cons show ?thesis by (cases es) simp_all
  qed simp
next
  case (Cons d ds)
  show ?case
  proof (cases ds')
    case Nil
    obtain t where "detail_json d = 123 # t" using detail_json_brace by blast
    with Nil show ?thesis by (cases ds) simp_all
  next
    case (Cons d' es)
    with Cons.prems Cons.IH [of es] show ?thesis
      by (cases ds; cases es) (auto simp: detail_append)
  qed
qed

lemma bracket: "93 # r = js '']'' @ r"
  by (simp add: js_def)

lemma disclosure_json_inject:
  assumes "disclosure_units d" "disclosure_units d'" "disclosure_json d = disclosure_json d'"
  shows "d = d'"
proof -
  have "dc_action d = dc_action d'" "dc_title d = dc_title d'" "dc_summary d = dc_summary d'"
    "dc_confirmLabel d = dc_confirmLabel d'" "dc_destination d = dc_destination d'" "dc_details d = dc_details d'"
    "dc_warning d = dc_warning d'"
    using assms
    by (simp_all add: disclosure_json_def json_object_def disclosure_units_def quote_append destination_append
      quote_append [of _ _ "[]" "[]", simplified] details_append [unfolded bracket] bracket)
  then show ?thesis by simp
qed

lemma json_safe_object: "list_all (\<lambda>(k, v). json_safe v) members \<Longrightarrow> json_safe (json_object members)"
proof -
  assume safe: "list_all (\<lambda>(k, v). json_safe v) members"
  have key: "json_safe (json_quote (js k))" for k
    by (rule json_safe_quote) (use json_safe_js [of k] in \<open>simp add: json_safe_def\<close>)
  have "list_all json_safe (map (\<lambda>(k, v). json_quote (js k) @ js '':'' @ v) members)"
    using safe key by (auto simp: list_all_iff intro!: json_safe_append)
  then show ?thesis unfolding json_object_def by (intro json_safe_append json_safe_commas) simp_all
qed

lemma disclosure_json_safe: "disclosure_units d \<Longrightarrow> json_safe (disclosure_json d)"
proof -
  assume d: "disclosure_units d"
  have "json_safe (destination_json (dc_destination d))"
    using d unfolding destination_json_def
    by (intro json_safe_object) (auto simp: disclosure_units_def destination_units_def units_def intro: json_safe_quote)
  moreover have "list_all json_safe (map detail_json (dc_details d))"
    using d unfolding detail_json_def list_all_iff
    by (auto intro!: json_safe_object json_safe_quote simp: disclosure_units_def detail_units_def units_def list_all_iff)
  then have "json_safe (js ''['' @ json_commas (map detail_json (dc_details d)) @ js '']'')"
    by (intro json_safe_append json_safe_commas) simp_all
  ultimately show ?thesis
    using d unfolding disclosure_json_def
    by (intro json_safe_object) (auto simp: disclosure_units_def units_def intro: json_safe_quote)
qed

text \<open>
  The digest a person approved stands for one disclosure: two disclosures with the same fingerprint are
  the same, field by field and detail by detail, or show two byte sequences with the same SHA-256.
\<close>

theorem outbound_fingerprint_faithful:
  assumes "disclosure_units d" "disclosure_units d'" "disclosureFingerprint H d = disclosureFingerprint H d'"
  shows "d = d' \<or> (\<exists>x y. x \<noteq> y \<and> host_sha256 H x = host_sha256 H y)"
proof (cases "utf8_bytes (disclosure_json d) = utf8_bytes (disclosure_json d')")
  case True
  from utf8_bytes_inject [OF disclosure_json_safe [OF assms(1)] disclosure_json_safe [OF assms(2)] this]
  show ?thesis using disclosure_json_inject [OF assms(1,2)] by simp
next
  case False
  with assms(3) show ?thesis unfolding disclosureFingerprint_def by blast
qed

end
