(* ===== verification/Outbound_Samples.thy ===== *)
theory Outbound_Samples
  imports Outbound_Safety "HOL-Library.Code_Target_Numeral"
begin

text \<open>
  A gate that pushes one branch: a plan is prepared, confirmed, compared and executed. The host's clock
  counts what happened, its identifiers count what was made, and a checksum stands for the digest.
\<close>

definition sample_host :: host where
  "sample_host = \<lparr> host_clock = (\<lambda>tr. int (length tr)),
     host_id = (\<lambda>tr. js ''00000000-0000-4000-8000-00000000000'' @ [48 + length tr mod 10]),
     host_sink = (\<lambda>_ _. None),
     host_sha256 = (\<lambda>bytes. [length bytes]) \<rparr>"

definition sample_disclosure :: disclosure where
  "sample_disclosure = \<lparr> dc_action = js ''git-push'', dc_title = js ''Push'', dc_summary = js ''Push one branch'',
     dc_confirmLabel = js ''Push'',
     dc_destination = \<lparr> ds_kind = js ''git-remote'', ds_endpoint = js ''host'', ds_resource = js ''repo'', ds_transport = js ''ssh'' \<rparr>,
     dc_details = [\<lparr> dd_label = js ''branch'', dd_value = js ''main'' \<rparr>], dc_warning = js ''Leaves this machine'' \<rparr>"

definition start_system :: gate_system where
  "start_system = \<lparr> gs_gate = \<lparr> og_plans = [], og_approvalTtlMs = 300000, og_trace = [] \<rparr>, gs_jobs = [] \<rparr>"

definition system_prepare :: "host \<Rightarrow> utf16 \<Rightarrow> disclosure \<Rightarrow> gate_system \<Rightarrow> gate_system" where
  "system_prepare H ownerId d s = s\<lparr> gs_gate := snd (prepare H ownerId d (gs_gate s)) \<rparr>"

definition system_start :: "host \<Rightarrow> utf16 \<Rightarrow> utf16 \<Rightarrow> gate_system \<Rightarrow> gate_system" where
  "system_start H ownerId planId s =
     (case start_confirm H ownerId planId (gs_gate s) of (r, g) \<Rightarrow> \<lparr> gs_gate = g, gs_jobs = gs_jobs s @ jobs_of r \<rparr>)"

definition system_resume :: "host \<Rightarrow> answer \<Rightarrow> gate_system \<Rightarrow> gate_system" where
  "system_resume H a s =
     (case gs_jobs s of
        [] \<Rightarrow> s
      | j # others \<Rightarrow>
          (case resume H j a of
             None \<Rightarrow> s
           | Some m \<Rightarrow> (case m (gs_gate s) of (r, g) \<Rightarrow> \<lparr> gs_gate = g, gs_jobs = jobs_of r @ others \<rparr>)))"

lemma reaches_start: "gate_reaches H start_system"
  unfolding start_system_def by (rule gate_reaches.initial [of None]) (simp add: new_gate_def DEFAULT_APPROVAL_TTL_MS_def)

lemma reaches_prepare: "gate_reaches H s \<Longrightarrow> gate_reaches H (system_prepare H ownerId d s)"
  unfolding system_prepare_def by (rule gate_reaches.further) (auto intro: gate_step.prepare)

lemma reaches_confirm: "gate_reaches H s \<Longrightarrow> gate_reaches H (system_start H ownerId planId s)"
  unfolding system_start_def by (rule gate_reaches.further) (auto intro: gate_step.start split: prod.split)

lemma reaches_resume: "gate_reaches H s \<Longrightarrow> gate_reaches H (system_resume H a s)"
  unfolding system_resume_def
  by (cases "gs_jobs s") (auto split: option.split prod.split
    intro: gate_reaches.further gate_step.resume [of s "[]", simplified])

definition sample_owner :: utf16 where
  "sample_owner = js ''window-1''"

definition prepared_system :: gate_system where
  "prepared_system = system_prepare sample_host sample_owner sample_disclosure start_system"

definition sample_system :: gate_system where
  "sample_system =
     system_resume sample_host (AnswerDisclosure (Inr sample_disclosure))
       (system_resume sample_host (AnswerConfirmation (Inr True))
         (system_start sample_host sample_owner (fst (hd (og_plans (gs_gate prepared_system)))) prepared_system))"

lemma reaches_prepared: "gate_reaches sample_host prepared_system"
  unfolding prepared_system_def by (intro reaches_prepare reaches_start)

lemma reaches_sample: "gate_reaches sample_host sample_system"
  unfolding sample_system_def by (intro reaches_resume reaches_confirm reaches_prepared)

definition executes_something :: "outbound_event \<Rightarrow> bool" where
  "executes_something e = (case e of Executed _ \<Rightarrow> True | _ \<Rightarrow> False)"

lemma sample_executes: "list_ex executes_something (og_trace (gs_gate sample_system))"
  by code_simp

lemma prepared_plan:
  "list_ex (\<lambda>(_, p). pp_ownerId p = sample_owner \<and> host_clock sample_host (og_trace (gs_gate prepared_system)) < pp_expiresAtMs p)
     (og_plans (gs_gate prepared_system))"
  by code_simp

lemma sample_execution: obtains before p after where "og_trace (gs_gate sample_system) = before @ Executed p # after"
proof -
  from sample_executes obtain e where "e \<in> set (og_trace (gs_gate sample_system))" "executes_something e"
    by (auto simp: list_ex_iff)
  moreover from this(2) obtain p where "e = Executed p" by (auto simp: executes_something_def split: outbound_event.splits)
  ultimately show ?thesis using that by (metis split_list)
qed

theorem outbound_executed_only_when_approved_witness:
  "\<exists>start p d t after. og_trace (gs_gate sample_system)
     = (start @ [Rebuilt p d, ReadClock t, Audited (authorization sample_host p)]) @ Executed p # after
     \<and> t < pp_expiresAtMs p \<and> subseq [Issued p, Asked p, Approved p] start"
proof -
  obtain before p after where split: "og_trace (gs_gate sample_system) = before @ Executed p # after" by (rule sample_execution)
  from outbound_executed_only_when_approved [OF reaches_sample split] split show ?thesis by blast
qed

theorem outbound_plan_used_once_witness:
  "\<exists>p :: pending_plan. 1 \<le> times_of (runs (ap_id (pp_plan p))) (og_trace (gs_gate sample_system))
     \<and> 1 \<le> times_of (issues (ap_id (pp_plan p))) (og_trace (gs_gate sample_system))"
proof -
  obtain before p after where split: "og_trace (gs_gate sample_system) = before @ Executed p # after" by (rule sample_execution)
  then have "1 \<le> times_of (runs (ap_id (pp_plan p))) (og_trace (gs_gate sample_system))" by simp
  moreover from this outbound_plan_used_once [OF reaches_sample, of "ap_id (pp_plan p)"]
  have "1 \<le> times_of (issues (ap_id (pp_plan p))) (og_trace (gs_gate sample_system))" by linarith
  ultimately show ?thesis by blast
qed

theorem outbound_plans_bounded_witness:
  "length (og_plans (gs_gate prepared_system)) \<le> 256 \<and> og_plans (gs_gate prepared_system) \<noteq> []"
  using outbound_plans_bounded [OF reaches_prepared] prepared_plan by auto

theorem outbound_owners_kept_apart_witness:
  "\<exists>k p. pp_ownerId p = sample_owner
     \<and> (k, p) \<in> set (og_plans (snd (cancel sample_host (js ''window-2'') k (gs_gate prepared_system))))"
proof -
  from prepared_plan obtain k p where p: "(k, p) \<in> set (og_plans (gs_gate prepared_system))" "pp_ownerId p = sample_owner"
    "host_clock sample_host (og_trace (gs_gate prepared_system)) < pp_expiresAtMs p" by (auto simp: list_ex_iff)
  moreover have "sample_owner \<noteq> js ''window-2''" by (simp add: sample_owner_def js_def)
  ultimately show ?thesis using outbound_owners_kept_apart [OF reaches_prepared p(1) p(3), of "js ''window-2''" k] by auto
qed

definition sample_pending :: pending_plan where
  "sample_pending = \<lparr> pp_plan = \<lparr> ap_id = js ''i'', ap_expiresAt = ''1970-01-01T00:05:00.000Z'', ap_disclosure = sample_disclosure,
     ap_disclosureSha256 = disclosureFingerprint sample_host sample_disclosure \<rparr>,
     pp_ownerId = sample_owner, pp_expiresAtMs = 300000 \<rparr>"

theorem outbound_end_audited_witness:
  "\<exists>g'. confirmed sample_host sample_pending (Inr False) (gs_gate start_system) = (Inr OutcomeDenied, g')
     \<and> ends_audited sample_host sample_pending AuditDenied g'"
proof -
  obtain r g' where run: "confirmed sample_host sample_pending (Inr False) (gs_gate start_system) = (r, g')"
    by (cases "confirmed sample_host sample_pending (Inr False) (gs_gate start_system)")
  then have r: "r = Inr OutcomeDenied"
    by (auto simp: confirmed_def deny_def auditPlanDenial_def audit_external_def appendAudit_def sample_host_def seq_def
      happens_def ret_def)
  have "resume sample_host (Confirming sample_pending) (AnswerConfirmation (Inr False))
      = Some (confirmed sample_host sample_pending (Inr False))" by simp
  from outbound_end_audited [OF this run] r run show ?thesis by (simp add: jobs_of_def)
qed

theorem outbound_fingerprint_faithful_witness:
  "\<exists>x y. x \<noteq> y \<and> host_sha256 sample_host x = host_sha256 sample_host y"
proof -
  define other where "other = sample_disclosure\<lparr> dc_details := [\<lparr> dd_label = js ''branch'', dd_value = js ''mine'' \<rparr>] \<rparr>"
  have "disclosure_units sample_disclosure" by code_simp
  moreover have "disclosure_units other" unfolding other_def by code_simp
  moreover have "disclosureFingerprint sample_host sample_disclosure = disclosureFingerprint sample_host other"
    unfolding other_def by code_simp
  moreover have "sample_disclosure \<noteq> other" by (simp add: other_def sample_disclosure_def js_def)
  ultimately show ?thesis using outbound_fingerprint_faithful by blast
qed

end
