(* ===== verification/Audit_Chain.thy ===== *)
theory Audit_Chain
  imports Json_Text Iso_Time
begin

text \<open>
  \<open>apps/desktop/src/main/storage/security/audit-integrity.ts\<close>: the audit log of the application as a
  chain of digests, with retention checkpoints, and the check that finds it tampered with.

  The tables are lists in the order of their primary keys, the counters of \<open>AUTOINCREMENT\<close> are kept
  beside them, and the constraints of the schema (\<open>storage/database.ts\<close>) and the triggers are errors of
  the statements that violate them. A failed savepoint leaves the database as it was, so an operation
  returns an error or its result with the next database. SHA-256 in hexadecimal and the redaction of
  metadata (\<open>redactedMetadata\<close>, whose patterns and URL parsing are not modelled) are parameters. A date text
  in another format than the code writes does not parse.
\<close>

section \<open>Data\<close>

datatype audit_trigger =
    EventsNoUpdate | EventsNoDelete | EventsValidInsert | CheckpointsNoUpdate | CheckpointsNoDelete

record audit_row =
  ar_sequence :: int
  ar_occurred_at :: string
  ar_category :: utf16
  ar_action :: utf16
  ar_outcome :: string
  ar_metadata_json :: utf16
  ar_previous_hash :: "utf16 option"
  ar_event_hash :: "utf16 option"

record chain_state =
  cs_initialized_at :: string
  cs_last_sequence :: int
  cs_last_event_hash :: utf16

record checkpoint =
  cp_checkpoint_sequence :: int
  cp_first_pruned_sequence :: int
  cp_pruned_through_sequence :: int
  cp_pruned_through_hash :: utf16
  cp_event_count :: int
  cp_pruned_at :: string
  cp_previous_checkpoint_hash :: utf16
  cp_checkpoint_hash :: utf16

text \<open>
  A database: its tables, whether the text of each installed trigger is the required one, the largest
  sequence numbers ever used, and whether this connection may delete.
\<close>

record audit_db =
  db_events :: "audit_row list"
  db_state :: "chain_state option"
  db_checkpoints :: "checkpoint list"
  db_triggers :: "(audit_trigger \<times> bool) list"
  db_event_counter :: int
  db_checkpoint_counter :: int
  db_delete_authority :: bool

datatype audit_message =
    TriggerChanged audit_trigger
  | StateRows nat
  | InvalidHead
  | InvalidInitialization
  | InvalidCheckpoint int
  | InvalidRow nat
  | HeadMismatch

datatype audit_error =
    AuditError string
  | RefusedChain "audit_message list"
  | SchemaRejected
  | StatementFailed

type_synonym 'a audit = "audit_error + ('a \<times> audit_db)"

record digests =
  dg_sha256 :: "nat list \<Rightarrow> utf16"
  dg_redacted :: "utf16 \<Rightarrow> utf16 option"

section \<open>Hashes\<close>

definition AUDIT_ZERO_HASH :: utf16 where
  "AUDIT_ZERO_HASH = replicate 64 48"

definition hash_input :: "string \<Rightarrow> utf16 list \<Rightarrow> utf16" where
  "hash_input domain parts = js ''['' @ json_commas (map json_quote (js domain # parts)) @ js '']''"

definition hashFields :: "digests \<Rightarrow> string \<Rightarrow> utf16 list \<Rightarrow> utf16" where
  "hashFields D domain parts = dg_sha256 D (utf8_bytes (hash_input domain parts))"

definition event_fields :: "utf16 \<Rightarrow> string \<Rightarrow> utf16 \<Rightarrow> utf16 \<Rightarrow> string \<Rightarrow> utf16 \<Rightarrow> utf16 list" where
  "event_fields previousHash occurredAt category action result metadataJson =
     [previousHash, js occurredAt, category, action, js result, metadataJson]"

definition auditEventHash :: "digests \<Rightarrow> utf16 \<Rightarrow> string \<Rightarrow> utf16 \<Rightarrow> utf16 \<Rightarrow> string \<Rightarrow> utf16 \<Rightarrow> utf16" where
  "auditEventHash D previousHash occurredAt category action result metadataJson =
     hashFields D ''forgeboard.audit.event.v1'' (event_fields previousHash occurredAt category action result metadataJson)"

definition row_hash :: "digests \<Rightarrow> utf16 \<Rightarrow> audit_row \<Rightarrow> utf16 \<Rightarrow> utf16" where
  "row_hash D previousHash r metadataJson =
     auditEventHash D previousHash (ar_occurred_at r) (ar_category r) (ar_action r) (ar_outcome r) metadataJson"

definition auditCheckpointHash :: "digests \<Rightarrow> int \<Rightarrow> int \<Rightarrow> utf16 \<Rightarrow> int \<Rightarrow> string \<Rightarrow> utf16 \<Rightarrow> utf16" where
  "auditCheckpointHash D firstPruned prunedThrough prunedThroughHash eventCount prunedAt previousCheckpointHash =
     hashFields D ''forgeboard.audit.checkpoint.v1''
       [previousCheckpointHash, js (show_int firstPruned), js (show_int prunedThrough), prunedThroughHash,
        js (show_int eventCount), js prunedAt]"

definition isHash :: "utf16 \<Rightarrow> bool" where
  "isHash s = (length s = 64 \<and> list_all (\<lambda>c. 48 \<le> c \<and> c \<le> 57 \<or> 97 \<le> c \<and> c \<le> 102) s)"

section \<open>Schemas\<close>

text \<open>\<open>AuditEventSchema\<close>: time stamps in UTC only.\<close>

definition audit_event_ok :: "int \<Rightarrow> string \<Rightarrow> utf16 \<Rightarrow> utf16 \<Rightarrow> string \<Rightarrow> bool" where
  "audit_event_ok sequence occurredAt category action result =
     (0 < sequence \<and> is_timestamp occurredAt \<and> last occurredAt = CHR ''Z'' \<and> category \<noteq> [] \<and> action \<noteq> []
      \<and> result \<in> {''allowed'', ''denied'', ''failed''})"

definition REQUIRED_TRIGGERS :: "audit_trigger list" where
  "REQUIRED_TRIGGERS = [EventsNoUpdate, EventsNoDelete, EventsValidInsert, CheckpointsNoUpdate, CheckpointsNoDelete]"

definition CONTROLLED_DELETE_TRIGGERS :: "audit_trigger list" where
  "CONTROLLED_DELETE_TRIGGERS = [EventsNoDelete, CheckpointsNoDelete]"

definition triggerIntegrityMessages :: "audit_db \<Rightarrow> audit_message list" where
  "triggerIntegrityMessages db = map TriggerChanged (filter (\<lambda>t. map_of (db_triggers db) t \<noteq> Some True) REQUIRED_TRIGGERS)"

definition latestCheckpoint :: "audit_db \<Rightarrow> checkpoint option" where
  "latestCheckpoint db = (if db_checkpoints db = [] then None else Some (last (db_checkpoints db)))"

section \<open>The check\<close>

definition checkpoint_ok :: "digests \<Rightarrow> utf16 \<Rightarrow> int \<Rightarrow> int \<Rightarrow> checkpoint \<Rightarrow> bool" where
  "checkpoint_ok D anchor checkpointSequence prunedThrough c =
     (cp_previous_checkpoint_hash c = anchor \<and> cp_checkpoint_sequence c > checkpointSequence
      \<and> cp_first_pruned_sequence c > prunedThrough \<and> cp_pruned_through_sequence c \<ge> cp_first_pruned_sequence c
      \<and> cp_event_count c \<ge> 1
      \<and> cp_event_count c \<le> cp_pruned_through_sequence c - cp_first_pruned_sequence c + 1
      \<and> Date_parse (cp_pruned_at c) \<noteq> None \<and> isHash (cp_pruned_through_hash c)
      \<and> cp_checkpoint_hash c
          = auditCheckpointHash D (cp_first_pruned_sequence c) (cp_pruned_through_sequence c) (cp_pruned_through_hash c)
              (cp_event_count c) (cp_pruned_at c) (cp_previous_checkpoint_hash c))"

fun checkpoint_messages :: "digests \<Rightarrow> utf16 \<Rightarrow> int \<Rightarrow> int \<Rightarrow> checkpoint list \<Rightarrow> audit_message list" where
  "checkpoint_messages D anchor checkpointSequence prunedThrough [] = []"
| "checkpoint_messages D anchor checkpointSequence prunedThrough (c # cs) =
     (if checkpoint_ok D anchor checkpointSequence prunedThrough c then []
      else [InvalidCheckpoint (cp_checkpoint_sequence c)])
     @ checkpoint_messages D (cp_checkpoint_hash c) (cp_checkpoint_sequence c) (cp_pruned_through_sequence c) cs"

text \<open>The digest a row must carry, if the row is valid after the given one.\<close>

definition expected_hash :: "digests \<Rightarrow> utf16 \<Rightarrow> int \<Rightarrow> audit_row \<Rightarrow> utf16 option" where
  "expected_hash D previousHash lastSequence r =
     (if \<not> audit_event_ok (ar_sequence r) (ar_occurred_at r) (ar_category r) (ar_action r) (ar_outcome r) then None
      else if dg_redacted D (ar_metadata_json r) \<noteq> Some (ar_metadata_json r) then None
      else let expected = row_hash D previousHash r (ar_metadata_json r) in
        if ar_sequence r \<le> lastSequence \<or> ar_previous_hash r \<noteq> Some previousHash \<or> ar_event_hash r \<noteq> Some expected
        then None else Some expected)"

fun verify_rows :: "digests \<Rightarrow> nat \<Rightarrow> utf16 \<Rightarrow> int \<Rightarrow> audit_row list \<Rightarrow> audit_message list \<times> utf16 \<times> int" where
  "verify_rows D index previousHash lastSequence [] = ([], previousHash, lastSequence)"
| "verify_rows D index previousHash lastSequence (r # rs) =
     (case expected_hash D previousHash lastSequence r of
        Some expected \<Rightarrow> verify_rows D (Suc index) expected (ar_sequence r) rs
      | None \<Rightarrow> apfst ((#) (InvalidRow (Suc index))) (verify_rows D (Suc index) previousHash lastSequence rs))"

definition chain_anchor :: "audit_db \<Rightarrow> utf16 \<times> int" where
  "chain_anchor db = (case latestCheckpoint db of
     None \<Rightarrow> (AUDIT_ZERO_HASH, 0)
   | Some c \<Rightarrow> (cp_pruned_through_hash c, cp_pruned_through_sequence c))"

definition state_messages :: "chain_state \<Rightarrow> audit_message list" where
  "state_messages s =
     (if \<not> isHash (cs_last_event_hash s) \<or> cs_last_sequence s < 0 then [InvalidHead] else [])
     @ (if Date_parse (cs_initialized_at s) = None then [InvalidInitialization] else [])"

definition auditIntegrityMessages :: "digests \<Rightarrow> audit_db \<Rightarrow> audit_message list" where
  "auditIntegrityMessages D db =
     triggerIntegrityMessages db
     @ (case db_state db of
          None \<Rightarrow> [StateRows 0]
        | Some s \<Rightarrow>
            state_messages s @ checkpoint_messages D AUDIT_ZERO_HASH 0 0 (db_checkpoints db)
            @ (case chain_anchor db of (anchor, prunedThrough) \<Rightarrow>
                (case verify_rows D 0 anchor prunedThrough (db_events db) of (messages, lastHash, lastSequence) \<Rightarrow>
                   messages
                   @ (if cs_last_sequence s \<noteq> lastSequence \<or> cs_last_event_hash s \<noteq> lastHash then [HeadMismatch] else []))))"

section \<open>Initialization\<close>

text \<open>Rows written before the chain existed get their digests, in order; digests must stay unique.\<close>

fun baseline_rows :: "digests \<Rightarrow> utf16 \<Rightarrow> int \<Rightarrow> utf16 list \<Rightarrow> audit_row list \<Rightarrow> audit_error + (audit_row list \<times> utf16 \<times> int)" where
  "baseline_rows D previousHash lastSequence used [] = Inr ([], previousHash, lastSequence)"
| "baseline_rows D previousHash lastSequence used (r # rs) =
     (if ar_previous_hash r \<noteq> None \<or> ar_event_hash r \<noteq> None
      then Inl (AuditError ''Legacy audit rows contain partial integrity data; refusing to rebaseline.'')
      else case dg_redacted D (ar_metadata_json r) of
        None \<Rightarrow> Inl (AuditError ''audit metadata must be a JSON object'')
      | Some metadataJson \<Rightarrow>
          (let eventHash = row_hash D previousHash r metadataJson in
           if eventHash \<in> set used then Inl StatementFailed
           else case baseline_rows D eventHash (ar_sequence r) (eventHash # used) rs of
             Inl e \<Rightarrow> Inl e
           | Inr (rows, lastHash, lastSeq) \<Rightarrow>
               Inr (r\<lparr> ar_metadata_json := metadataJson, ar_previous_hash := Some previousHash,
                       ar_event_hash := Some eventHash \<rparr> # rows, lastHash, lastSeq)))"

definition all_triggers :: "(audit_trigger \<times> bool) list" where
  "all_triggers = map (\<lambda>t. (t, True)) REQUIRED_TRIGGERS"

definition initializeAuditIntegrity :: "digests \<Rightarrow> int \<Rightarrow> audit_db \<Rightarrow> unit audit" where
  "initializeAuditIntegrity D nowMs db =
     (case db_state db of
        Some s \<Rightarrow>
          (if triggerIntegrityMessages db \<noteq> [] then Inl (RefusedChain (triggerIntegrityMessages db))
           else Inr ((), db\<lparr> db_delete_authority := True \<rparr>))
      | None \<Rightarrow>
          (if db_triggers db \<noteq> []
           then Inl (AuditError ''Audit integrity initialization is incomplete; refusing to rebaseline it.'')
           else case toISOString nowMs of
             Inl e \<Rightarrow> Inl (AuditError ''Audit integrity initialization time must be valid.'')
           | Inr initializedAt \<Rightarrow>
               (case baseline_rows D AUDIT_ZERO_HASH 0 [] (db_events db) of
                  Inl e \<Rightarrow> Inl e
                | Inr (rows, lastHash, lastSequence) \<Rightarrow>
                    if length lastHash \<noteq> 64 then Inl StatementFailed
                    else Inr ((), db\<lparr> db_events := rows,
                      db_state := Some \<lparr> cs_initialized_at = initializedAt, cs_last_sequence = lastSequence,
                        cs_last_event_hash = lastHash \<rparr>,
                      db_triggers := all_triggers, db_delete_authority := True \<rparr>))))"

definition upgradeLegacyAuditDeleteTriggers :: "digests \<Rightarrow> audit_db \<Rightarrow> unit audit" where
  "upgradeLegacyAuditDeleteTriggers D db =
     (if auditIntegrityMessages D db \<noteq> map TriggerChanged CONTROLLED_DELETE_TRIGGERS
      then Inl (AuditError ''Legacy audit delete-trigger upgrade rejected an unexpected database state.'')
      else if list_ex (\<lambda>t. map_of (db_triggers db) t \<noteq> None) CONTROLLED_DELETE_TRIGGERS then Inl StatementFailed
      else let db' = db\<lparr> db_triggers := db_triggers db @ map (\<lambda>t. (t, True)) CONTROLLED_DELETE_TRIGGERS \<rparr> in
        if auditIntegrityMessages D db' \<noteq> [] then Inl (RefusedChain (auditIntegrityMessages D db')) else Inr ((), db'))"

section \<open>Appending\<close>

definition assertAuditTail :: "audit_db \<Rightarrow> audit_error + unit" where
  "assertAuditTail db =
     (case db_state db of
        None \<Rightarrow> Inl (AuditError ''Audit integrity has not been initialized.'')
      | Some s \<Rightarrow>
          (case db_events db of
             [] \<Rightarrow>
               (case chain_anchor db of (expectedHash, expectedSequence) \<Rightarrow>
                  if cs_last_sequence s \<noteq> expectedSequence \<or> cs_last_event_hash s \<noteq> expectedHash
                  then Inl (AuditError ''The audit chain head does not match its retention checkpoint.'') else Inr ())
           | rows \<Rightarrow>
               if ar_sequence (last rows) \<noteq> cs_last_sequence s \<or> ar_event_hash (last rows) \<noteq> Some (cs_last_event_hash s)
               then Inl (AuditError ''The audit chain head does not match its latest event.'') else Inr ()))"

definition insert_row :: "audit_row \<Rightarrow> audit_db \<Rightarrow> audit_db" where
  "insert_row r db = db\<lparr> db_events := db_events db @ [r], db_event_counter := ar_sequence r \<rparr>"

definition append_savepoint :: "digests \<Rightarrow> string \<Rightarrow> utf16 \<Rightarrow> utf16 \<Rightarrow> string \<Rightarrow> utf16 \<Rightarrow> chain_state \<Rightarrow> audit_db \<Rightarrow> int audit" where
  "append_savepoint D occurredAt category action result metadata s db =
     (case dg_redacted D metadata of
        None \<Rightarrow> Inl (AuditError ''audit metadata must be a JSON object'')
      | Some metadataJson \<Rightarrow>
          if length (utf8_bytes metadataJson) > 1048576
          then Inl (AuditError ''Audit metadata exceeds the 1 MiB storage limit.'')
          else let eventHash = auditEventHash D (cs_last_event_hash s) occurredAt category action result metadataJson;
                   sequence = db_event_counter db + 1 in
            if Some eventHash \<in> ar_event_hash ` set (db_events db) \<or> length eventHash \<noteq> 64 \<or> length (cs_last_event_hash s) \<noteq> 64
            then Inl StatementFailed
            else Inr (sequence,
              (insert_row \<lparr> ar_sequence = sequence, ar_occurred_at = occurredAt, ar_category = category, ar_action = action,
                ar_outcome = result, ar_metadata_json = metadataJson, ar_previous_hash = Some (cs_last_event_hash s),
                ar_event_hash = Some eventHash \<rparr> db)
              \<lparr> db_state := Some (s\<lparr> cs_last_sequence := sequence, cs_last_event_hash := eventHash \<rparr>) \<rparr>))"

definition appendChainedAudit :: "digests \<Rightarrow> string \<Rightarrow> utf16 \<Rightarrow> utf16 \<Rightarrow> string \<Rightarrow> utf16 \<Rightarrow> audit_db \<Rightarrow> int audit" where
  "appendChainedAudit D occurredAt category action result metadata db =
     (if Date_parse occurredAt = None then Inl (AuditError ''Audit event time must be valid.'')
      else if \<not> audit_event_ok 1 occurredAt category action result then Inl SchemaRejected
      else case assertAuditTail db of
        Inl e \<Rightarrow> Inl e
      | Inr _ \<Rightarrow>
          (case db_state db of
             None \<Rightarrow> Inl (AuditError ''Audit integrity has not been initialized.'')
           | Some s \<Rightarrow> append_savepoint D occurredAt category action result metadata s db))"

section \<open>Retention and reset\<close>

text \<open>Deleting with the two guards taken down, for a connection that may.\<close>

definition withControlledAuditDeletion :: "(audit_db \<Rightarrow> audit_db) \<Rightarrow> audit_db \<Rightarrow> audit_error + audit_db" where
  "withControlledAuditDeletion operation db =
     (if \<not> db_delete_authority db
      then Inl (AuditError ''Audit deletion authority is not installed for this database connection.'')
      else if list_ex (\<lambda>t. map_of (db_triggers db) t = None) CONTROLLED_DELETE_TRIGGERS then Inl StatementFailed
      else Inr ((operation db)\<lparr> db_triggers :=
        filter (\<lambda>(t, _). t \<notin> set CONTROLLED_DELETE_TRIGGERS) (db_triggers db) @ map (\<lambda>t. (t, True)) CONTROLLED_DELETE_TRIGGERS \<rparr>))"

definition expired_row :: "int \<Rightarrow> audit_row \<Rightarrow> bool" where
  "expired_row cutoffTime r = (case Date_parse (ar_occurred_at r) of None \<Rightarrow> True | Some t \<Rightarrow> \<not> t \<ge> cutoffTime)"

definition insert_checkpoint :: "checkpoint \<Rightarrow> audit_db \<Rightarrow> audit_error + audit_db" where
  "insert_checkpoint c db =
     (if cp_first_pruned_sequence c \<le> 0 \<or> cp_pruned_through_sequence c < cp_first_pruned_sequence c
         \<or> length (cp_pruned_through_hash c) \<noteq> 64 \<or> cp_event_count c \<le> 0 \<or> length (cp_previous_checkpoint_hash c) \<noteq> 64
         \<or> length (cp_checkpoint_hash c) \<noteq> 64 \<or> cp_checkpoint_hash c \<in> cp_checkpoint_hash ` set (db_checkpoints db)
      then Inl StatementFailed
      else Inr (db\<lparr> db_checkpoints := db_checkpoints db @ [c], db_checkpoint_counter := cp_checkpoint_sequence c \<rparr>))"

definition prune_checkpoint :: "digests \<Rightarrow> audit_row list \<Rightarrow> utf16 \<Rightarrow> string \<Rightarrow> audit_db \<Rightarrow> checkpoint" where
  "prune_checkpoint D prefix lastHash prunedAt db =
     (let first = ar_sequence (hd prefix); through = ar_sequence (last prefix); count = int (length prefix);
          previous = (case latestCheckpoint db of None \<Rightarrow> AUDIT_ZERO_HASH | Some c \<Rightarrow> cp_checkpoint_hash c) in
      \<lparr> cp_checkpoint_sequence = db_checkpoint_counter db + 1, cp_first_pruned_sequence = first,
        cp_pruned_through_sequence = through, cp_pruned_through_hash = lastHash, cp_event_count = count,
        cp_pruned_at = prunedAt, cp_previous_checkpoint_hash = previous,
        cp_checkpoint_hash = auditCheckpointHash D first through lastHash count prunedAt previous \<rparr>)"

definition pruneAuditPrefix :: "digests \<Rightarrow> string \<Rightarrow> int \<Rightarrow> audit_db \<Rightarrow> int audit" where
  "pruneAuditPrefix D cutoff nowMs db =
     (case (Date_parse cutoff, toISOString nowMs) of
        (None, _) \<Rightarrow> Inl (AuditError ''Audit retention cutoff must be valid.'')
      | (_, Inl _) \<Rightarrow> Inl (AuditError ''Audit retention time must be valid.'')
      | (Some cutoffTime, Inr prunedAt) \<Rightarrow>
          if auditIntegrityMessages D db \<noteq> [] then Inl (RefusedChain (auditIntegrityMessages D db))
          else let prefix = takeWhile (expired_row cutoffTime) (db_events db) in
            if prefix = [] then Inr (0, db)
            else case ar_event_hash (last prefix) of
              None \<Rightarrow> Inr (0, db)
            | Some lastHash \<Rightarrow>
                (case insert_checkpoint (prune_checkpoint D prefix lastHash prunedAt db) db of
                   Inl e \<Rightarrow> Inl e
                 | Inr db1 \<Rightarrow>
                     (let through = ar_sequence (last prefix);
                          kept = filter (\<lambda>r. \<not> ar_sequence r \<le> through) (db_events db1) in
                      case withControlledAuditDeletion (\<lambda>db. db\<lparr> db_events := kept \<rparr>) db1 of
                        Inl e \<Rightarrow> Inl e
                      | Inr db2 \<Rightarrow>
                          if length (db_events db1) - length kept \<noteq> length prefix
                          then Inl (AuditError ''Audit retention did not delete the verified contiguous prefix.'')
                          else if auditIntegrityMessages D db2 \<noteq> [] then Inl (RefusedChain (auditIntegrityMessages D db2))
                          else Inr (int (length prefix), db2))))"

definition resetAuditChain :: "digests \<Rightarrow> int \<Rightarrow> audit_db \<Rightarrow> unit audit" where
  "resetAuditChain D nowMs db =
     (case initializeAuditIntegrity D nowMs db of
        Inl e \<Rightarrow> Inl e
      | Inr (_, db1) \<Rightarrow>
          (case toISOString nowMs of
             Inl e \<Rightarrow> Inl (AuditError ''Audit reset time must be valid.'')
           | Inr initializedAt \<Rightarrow>
               (case withControlledAuditDeletion (\<lambda>db. db\<lparr> db_events := [], db_checkpoints := [] \<rparr>) db1 of
                  Inl e \<Rightarrow> Inl e
                | Inr db2 \<Rightarrow> Inr ((), db2\<lparr> db_state := Some \<lparr> cs_initialized_at = initializedAt, cs_last_sequence = 0,
                    cs_last_event_hash = AUDIT_ZERO_HASH \<rparr> \<rparr>))))"

end
