(* ===== verification/Audit_Integrity.thy ===== *)
theory Audit_Integrity
  imports Audit_Chain
begin

text \<open>
  What the audit chain guarantees: appending, retention and reset keep a chain that passes its check, and a
  chain that passes determines its events unless two of them collide or one has the digest of the anchor.
\<close>

section \<open>Chains\<close>

text \<open>What the digest and the redaction are relied on for.\<close>

definition digests_ok :: "digests \<Rightarrow> bool" where
  "digests_ok D = ((\<forall>bytes. isHash (dg_sha256 D bytes))
     \<and> (\<forall>m m'. dg_redacted D m = Some m' \<longrightarrow> dg_redacted D m' = Some m'))"

lemma digests_hash [simp]: "digests_ok D \<Longrightarrow> isHash (hashFields D domain parts)"
  by (simp add: digests_ok_def hashFields_def)

lemma digests_row_hash [simp]: "digests_ok D \<Longrightarrow> isHash (row_hash D p r m)"
  "digests_ok D \<Longrightarrow> isHash (auditEventHash D p t category action result m)"
  "digests_ok D \<Longrightarrow> isHash (auditCheckpointHash D f th h n time prev)"
  by (simp_all add: row_hash_def auditEventHash_def auditCheckpointHash_def)

lemma isHash_length: "isHash h \<Longrightarrow> length h = 64"
  by (simp add: isHash_def)

lemma isHash_zero [simp]: "isHash AUDIT_ZERO_HASH" "length AUDIT_ZERO_HASH = 64"
  by (simp_all add: isHash_def AUDIT_ZERO_HASH_def list_all_iff)

text \<open>The head of a chain of valid rows.\<close>

fun chain_end :: "digests \<Rightarrow> utf16 \<Rightarrow> int \<Rightarrow> audit_row list \<Rightarrow> (utf16 \<times> int) option" where
  "chain_end D p l [] = Some (p, l)"
| "chain_end D p l (r # rs) =
     (case expected_hash D p l r of None \<Rightarrow> None | Some h \<Rightarrow> chain_end D h (ar_sequence r) rs)"

lemma verify_rows_iff: "verify_rows D i p l rows = ([], p', l') \<longleftrightarrow> chain_end D p l rows = Some (p', l')"
  by (induction rows arbitrary: i p l) (auto simp: apfst_def map_prod_def split: option.splits prod.splits)

lemma chain_end_append:
  "chain_end D p l (xs @ ys) = Option.bind (chain_end D p l xs) (\<lambda>(p', l'). chain_end D p' l' ys)"
  by (induction xs arbitrary: p l) (auto split: option.splits)

lemma expected_hash_Some:
  "expected_hash D p l r = Some h \<longleftrightarrow>
     audit_event_ok (ar_sequence r) (ar_occurred_at r) (ar_category r) (ar_action r) (ar_outcome r)
     \<and> dg_redacted D (ar_metadata_json r) = Some (ar_metadata_json r) \<and> h = row_hash D p r (ar_metadata_json r)
     \<and> l < ar_sequence r \<and> ar_previous_hash r = Some p \<and> ar_event_hash r = Some h"
  by (auto simp: expected_hash_def Let_def)

lemma chain_end_last:
  "chain_end D p l rows = Some (p', l') \<Longrightarrow> rows \<noteq> [] \<Longrightarrow> ar_event_hash (last rows) = Some p' \<and> ar_sequence (last rows) = l'"
  by (induction rows arbitrary: p l rule: rev_induct)
    (auto simp: chain_end_append expected_hash_Some split: option.splits bind_splits)

lemma chain_end_sequences:
  "chain_end D p l rows = Some (p', l') \<Longrightarrow> (\<forall>r \<in> set rows. l < ar_sequence r \<and> ar_sequence r \<le> l') \<and> l \<le> l'
     \<and> int (length rows) \<le> l' - l"
proof (induction rows arbitrary: p l)
  case (Cons r rs)
  then obtain h where h: "expected_hash D p l r = Some h" "chain_end D h (ar_sequence r) rs = Some (p', l')"
    by (auto split: option.splits)
  from Cons.IH [OF h(2)] h(1) show ?case by (auto simp: expected_hash_Some)
qed simp

lemma chain_end_hash:
  assumes "digests_ok D" "chain_end D p l rows = Some (p', l')"
  shows "isHash p \<Longrightarrow> isHash p'" "rows \<noteq> [] \<Longrightarrow> isHash p'"
  using assms(2)
  by (induction rows arbitrary: p l) (use assms(1) in \<open>fastforce simp: expected_hash_Some split: option.splits\<close>)+

section \<open>Checkpoints\<close>

definition checkpoint_head :: "checkpoint list \<Rightarrow> utf16 \<times> int \<times> int" where
  "checkpoint_head cs = (if cs = [] then (AUDIT_ZERO_HASH, 0, 0)
     else (cp_checkpoint_hash (last cs), cp_checkpoint_sequence (last cs), cp_pruned_through_sequence (last cs)))"

lemma checkpoint_messages_snoc:
  "checkpoint_messages D a q t (cs @ [c]) = checkpoint_messages D a q t cs
     @ (case (if cs = [] then (a, q, t) else checkpoint_head cs) of (a', q', t') \<Rightarrow>
         if checkpoint_ok D a' q' t' c then [] else [InvalidCheckpoint (cp_checkpoint_sequence c)])"
  by (induction cs arbitrary: a q t) (auto simp: checkpoint_head_def)

lemma checkpoint_messages_snoc_Nil:
  "checkpoint_messages D AUDIT_ZERO_HASH 0 0 (cs @ [c]) = [] \<longleftrightarrow>
     checkpoint_messages D AUDIT_ZERO_HASH 0 0 cs = []
     \<and> (case checkpoint_head cs of (a', q', t') \<Rightarrow> checkpoint_ok D a' q' t' c)"
  by (auto simp: checkpoint_messages_snoc checkpoint_head_def)

lemma checkpoint_head_ok:
  assumes "digests_ok D" "checkpoint_messages D AUDIT_ZERO_HASH 0 0 cs = []" "checkpoint_head cs = (a, q, t)"
  shows "isHash a" "0 \<le> t"
proof -
  have "isHash a \<and> 0 \<le> t"
    using assms(2,3)
  proof (induction cs arbitrary: a q t rule: rev_induct)
    case (snoc c cs)
    obtain a' q' t' where head: "checkpoint_head cs = (a', q', t')" by (cases "checkpoint_head cs")
    with snoc.prems(1) have c: "checkpoint_ok D a' q' t' c" "checkpoint_messages D AUDIT_ZERO_HASH 0 0 cs = []"
      by (simp_all add: checkpoint_messages_snoc_Nil)
    from snoc.IH [OF c(2) head] c(1) snoc.prems(2) assms(1) show ?case
      by (auto simp: checkpoint_ok_def checkpoint_head_def)
  qed (auto simp: checkpoint_head_def)
  then show "isHash a" "0 \<le> t" by simp_all
qed

section \<open>The check\<close>

definition triggers_ok :: "audit_db \<Rightarrow> bool" where
  "triggers_ok db = (\<forall>t. map_of (db_triggers db) t = Some True)"

lemma all_required: "t \<in> set REQUIRED_TRIGGERS"
  by (cases t) (simp_all add: REQUIRED_TRIGGERS_def)

lemma triggerIntegrity_Nil: "triggerIntegrityMessages db = [] \<longleftrightarrow> triggers_ok db"
  by (auto simp: triggerIntegrityMessages_def triggers_ok_def filter_empty_conv all_required)

lemma auditIntegrity_Nil:
  "auditIntegrityMessages D db = [] \<longleftrightarrow>
     triggers_ok db \<and> (\<exists>s. db_state db = Some s \<and> state_messages s = []
       \<and> checkpoint_messages D AUDIT_ZERO_HASH 0 0 (db_checkpoints db) = []
       \<and> chain_end D (fst (chain_anchor db)) (snd (chain_anchor db)) (db_events db)
           = Some (cs_last_event_hash s, cs_last_sequence s))"
  by (auto simp: auditIntegrityMessages_def triggerIntegrity_Nil verify_rows_iff [of D 0, symmetric] split: option.splits prod.splits
    if_splits)

text \<open>SQLite never reuses a key of an \<open>AUTOINCREMENT\<close> table.\<close>

definition counters_ok :: "audit_db \<Rightarrow> bool" where
  "counters_ok db = ((\<forall>s. db_state db = Some s \<longrightarrow> cs_last_sequence s \<le> db_event_counter db)
     \<and> 0 \<le> db_event_counter db \<and> 0 \<le> db_checkpoint_counter db
     \<and> (\<forall>c \<in> set (db_checkpoints db). cp_checkpoint_sequence c \<le> db_checkpoint_counter db))"

definition intact :: "digests \<Rightarrow> audit_db \<Rightarrow> bool" where
  "intact D db = (auditIntegrityMessages D db = [] \<and> counters_ok db)"

lemma chain_anchor_head:
  "checkpoint_head (db_checkpoints db) = (a, q, t) \<Longrightarrow> snd (chain_anchor db) = t"
  by (auto simp: chain_anchor_def latestCheckpoint_def checkpoint_head_def split: if_splits list.splits)

lemma chain_anchor_hash:
  assumes "checkpoint_messages D AUDIT_ZERO_HASH 0 0 (db_checkpoints db) = []"
  shows "isHash (fst (chain_anchor db))"
proof (cases "db_checkpoints db" rule: rev_cases)
  case Nil
  then show ?thesis by (simp add: chain_anchor_def latestCheckpoint_def)
next
  case (snoc cs c)
  with assms show ?thesis
    by (auto simp: chain_anchor_def latestCheckpoint_def checkpoint_messages_snoc_Nil checkpoint_ok_def)
qed

section \<open>Appending\<close>

lemma assertAuditTail_intact:
  assumes "intact D db"
  shows "assertAuditTail db = Inr ()"
proof -
  from assms obtain s where s: "db_state db = Some s"
    "chain_end D (fst (chain_anchor db)) (snd (chain_anchor db)) (db_events db) = Some (cs_last_event_hash s, cs_last_sequence s)"
    by (auto simp: intact_def auditIntegrity_Nil)
  show ?thesis
  proof (cases "db_events db")
    case Nil
    with s show ?thesis by (cases "chain_anchor db") (simp add: assertAuditTail_def)
  next
    case (Cons r rs)
    with s chain_end_last [OF s(2)] show ?thesis by (simp add: assertAuditTail_def)
  qed
qed

text \<open>What a log accepts: an event of the schema, metadata that is an object of at most 1 MiB, a digest of its own.\<close>

definition accepts_event :: "digests \<Rightarrow> audit_db \<Rightarrow> string \<Rightarrow> utf16 \<Rightarrow> utf16 \<Rightarrow> string \<Rightarrow> utf16 \<Rightarrow> bool" where
  "accepts_event D db occurredAt category action result metadata =
     (audit_event_ok 1 occurredAt category action result
      \<and> (\<exists>m s. dg_redacted D metadata = Some m \<and> db_state db = Some s \<and> length (utf8_bytes m) \<le> 1048576
           \<and> (\<forall>r \<in> set (db_events db). ar_event_hash r
                \<noteq> Some (auditEventHash D (cs_last_event_hash s) occurredAt category action result m))))"

text \<open>What an accepted event does to the log: one row at the end, chained to the head, which moves to it.\<close>

definition records_event ::
  "digests \<Rightarrow> audit_db \<Rightarrow> string \<Rightarrow> utf16 \<Rightarrow> utf16 \<Rightarrow> string \<Rightarrow> utf16 \<Rightarrow> int \<Rightarrow> audit_db \<Rightarrow> bool" where
  "records_event D db occurredAt category action result metadata sequence db' =
     (\<exists>s m h. db_state db = Some s \<and> dg_redacted D metadata = Some m
        \<and> h = auditEventHash D (cs_last_event_hash s) occurredAt category action result m
        \<and> db_events db' = db_events db @ [\<lparr> ar_sequence = sequence, ar_occurred_at = occurredAt, ar_category = category,
            ar_action = action, ar_outcome = result, ar_metadata_json = m, ar_previous_hash = Some (cs_last_event_hash s),
            ar_event_hash = Some h \<rparr>]
        \<and> sequence = db_event_counter db + 1 \<and> (\<forall>r \<in> set (db_events db). ar_sequence r < sequence)
        \<and> db_state db' = Some (s\<lparr> cs_last_sequence := sequence, cs_last_event_hash := h \<rparr>)
        \<and> db_event_counter db' = sequence \<and> db_checkpoints db' = db_checkpoints db
        \<and> db_triggers db' = db_triggers db \<and> db_delete_authority db' = db_delete_authority db)"

lemma append_savepoint_Inr:
  assumes "digests_ok D" "intact D db" "db_state db = Some s" "audit_event_ok 1 occurredAt category action result"
    "append_savepoint D occurredAt category action result metadata s db = Inr (sequence, db')"
  shows "intact D db' \<and> records_event D db occurredAt category action result metadata sequence db'"
proof -
  obtain m where m: "dg_redacted D metadata = Some m" using assms(5) by (auto simp: append_savepoint_def split: option.splits)
  define h where "h = auditEventHash D (cs_last_event_hash s) occurredAt category action result m"
  define r where "r = \<lparr> ar_sequence = db_event_counter db + 1, ar_occurred_at = occurredAt, ar_category = category,
    ar_action = action, ar_outcome = result, ar_metadata_json = m, ar_previous_hash = Some (cs_last_event_hash s),
    ar_event_hash = Some h \<rparr>"
  have db': "sequence = db_event_counter db + 1" "db' = db\<lparr> db_events := db_events db @ [r],
      db_event_counter := db_event_counter db + 1,
      db_state := Some (s\<lparr> cs_last_sequence := db_event_counter db + 1, cs_last_event_hash := h \<rparr>) \<rparr>"
    using assms(5) m by (auto simp: append_savepoint_def Let_def insert_row_def r_def h_def split: if_splits)
  have counters: "cs_last_sequence s \<le> db_event_counter db" "0 \<le> db_event_counter db"
    using assms(2,3) by (simp_all add: intact_def counters_ok_def)
  have redacted: "dg_redacted D m = Some m" using assms(1) m by (auto simp: digests_ok_def)
  have check: "triggers_ok db" "state_messages s = []" "checkpoint_messages D AUDIT_ZERO_HASH 0 0 (db_checkpoints db) = []"
    "chain_end D (fst (chain_anchor db)) (snd (chain_anchor db)) (db_events db) = Some (cs_last_event_hash s, cs_last_sequence s)"
    using assms(2,3) by (auto simp: intact_def auditIntegrity_Nil)
  have same: "chain_anchor db' = chain_anchor db" "db_triggers db' = db_triggers db" "db_checkpoints db' = db_checkpoints db"
    by (simp_all add: db'(2) chain_anchor_def latestCheckpoint_def)
  have "expected_hash D (cs_last_event_hash s) (cs_last_sequence s) r = Some h"
    using counters redacted assms(4) by (auto simp: expected_hash_Some r_def row_hash_def h_def audit_event_ok_def)
  then have "chain_end D (fst (chain_anchor db')) (snd (chain_anchor db')) (db_events db') = Some (h, ar_sequence r)"
    using check(4) same(1) by (simp add: db'(2) chain_end_append)
  moreover have "state_messages (s\<lparr> cs_last_sequence := db_event_counter db + 1, cs_last_event_hash := h \<rparr>) = []"
    using check(2) counters assms(1) by (auto simp: state_messages_def h_def split: if_splits)
  ultimately have "auditIntegrityMessages D db' = []"
    using check(1,3) same by (simp add: auditIntegrity_Nil db'(2) triggers_ok_def r_def)
  moreover have "counters_ok db'" using assms(2) by (auto simp: intact_def counters_ok_def db'(2))
  moreover have "records_event D db occurredAt category action result metadata sequence db'"
    unfolding records_event_def
  proof (intro exI conjI ballI)
    show "db_state db = Some s" "dg_redacted D metadata = Some m" by (fact assms(3) m)+
    show "db_events db' = db_events db @ [\<lparr> ar_sequence = sequence, ar_occurred_at = occurredAt, ar_category = category,
            ar_action = action, ar_outcome = result, ar_metadata_json = m, ar_previous_hash = Some (cs_last_event_hash s),
            ar_event_hash = Some h \<rparr>]" by (simp add: db' r_def)
    show "ar_sequence x < sequence" if "x \<in> set (db_events db)" for x
      using chain_end_sequences [OF check(4)] that counters(1) db'(1) by force
  qed (simp_all add: db' h_def)
  ultimately show ?thesis by (simp add: intact_def)
qed

lemma append_result:
  assumes "digests_ok D" "intact D db"
  shows "case appendChainedAudit D occurredAt category action result metadata db of
      Inr (sequence, db') \<Rightarrow> accepts_event D db occurredAt category action result metadata \<and> intact D db'
        \<and> records_event D db occurredAt category action result metadata sequence db'
    | Inl e \<Rightarrow> \<not> accepts_event D db occurredAt category action result metadata"
proof -
  obtain s where s: "db_state db = Some s" "state_messages s = []" using assms(2) by (auto simp: intact_def auditIntegrity_Nil)
  have length: "length (cs_last_event_hash s) = 64"
    using s(2) by (auto simp: state_messages_def isHash_length split: if_splits)
  show ?thesis
  proof (cases "audit_event_ok 1 occurredAt category action result")
    case True
    then have run: "appendChainedAudit D occurredAt category action result metadata db
        = append_savepoint D occurredAt category action result metadata s db"
      using assertAuditTail_intact [OF assms(2)] s(1)
      by (auto simp: appendChainedAudit_def audit_event_ok_def is_timestamp_def)
    have "(\<exists>res. append_savepoint D occurredAt category action result metadata s db = Inr res)
        \<longleftrightarrow> accepts_event D db occurredAt category action result metadata"
      using True s(1) length isHash_length [OF digests_row_hash(2) [OF assms(1)]]
      by (auto simp: append_savepoint_def accepts_event_def Let_def split: option.splits) (metis image_eqI)
    with append_savepoint_Inr [OF assms s(1) True] run show ?thesis
      by (cases "append_savepoint D occurredAt category action result metadata s db") (auto split: prod.splits)
  next
    case False
    then have "\<exists>e. appendChainedAudit D occurredAt category action result metadata db = Inl e"
      by (simp add: appendChainedAudit_def)
    with False show ?thesis by (auto simp: accepts_event_def)
  qed
qed

section \<open>Retention\<close>

lemma takeWhile_kept:
  assumes "chain_end D a t (xs @ ys) = Some (p, l)" "xs \<noteq> []"
  shows "filter (\<lambda>r. \<not> ar_sequence r \<le> ar_sequence (last xs)) (xs @ ys) = ys"
proof -
  from assms(1) obtain p1 l1 where parts: "chain_end D a t xs = Some (p1, l1)" "chain_end D p1 l1 ys = Some (p, l)"
    by (auto simp: chain_end_append split: bind_splits)
  have "l1 = ar_sequence (last xs)" using chain_end_last [OF parts(1) assms(2)] by simp
  moreover have "filter (\<lambda>r. \<not> ar_sequence r \<le> l1) ys = ys"
    using chain_end_sequences [OF parts(2)] by (intro filter_True) force
  moreover have "filter (\<lambda>r. \<not> ar_sequence r \<le> l1) xs = []"
    using chain_end_sequences [OF parts(1)] by (simp add: filter_empty_conv)
  ultimately show ?thesis by simp
qed

lemma triggers_after_deletion:
  assumes "triggers_ok db"
  shows "map_of (filter (\<lambda>(t, _). t \<notin> set CONTROLLED_DELETE_TRIGGERS) (db_triggers db)
    @ map (\<lambda>t. (t, True)) CONTROLLED_DELETE_TRIGGERS) t = Some True"
proof -
  have "map_of (filter (\<lambda>(t, _). t \<notin> set CONTROLLED_DELETE_TRIGGERS) ts) t
      = (if t \<in> set CONTROLLED_DELETE_TRIGGERS then None else map_of ts t)" for ts :: "(audit_trigger \<times> bool) list"
    by (induction ts) auto
  with assms show ?thesis by (cases t) (auto simp: triggers_ok_def map_add_def CONTROLLED_DELETE_TRIGGERS_def)
qed

lemma prune_nothing:
  assumes "intact D db" "Date_parse cutoff = Some c" "toISOString nowMs = Inr at"
    "takeWhile (expired_row c) (db_events db) = []"
  shows "pruneAuditPrefix D cutoff nowMs db = Inr (0, db)"
  using assms by (simp add: pruneAuditPrefix_def intact_def)

lemma prune_prefix:
  assumes D: "digests_ok D" and intact: "intact D db" and authority: "db_delete_authority db"
    and cutoff: "Date_parse cutoff = Some c" and at: "toISOString nowMs = Inr at" "is_timestamp at"
    and prefix: "takeWhile (expired_row c) (db_events db) = prefix" "prefix \<noteq> []"
    and rest: "dropWhile (expired_row c) (db_events db) = rest"
  shows "\<exists>h. ar_event_hash (last prefix) = Some h
    \<and> (cp_checkpoint_hash (prune_checkpoint D prefix h at db) \<in> cp_checkpoint_hash ` set (db_checkpoints db)
       \<or> (\<exists>db'. pruneAuditPrefix D cutoff nowMs db = Inr (int (length prefix), db') \<and> db_events db' = rest
            \<and> db_checkpoints db' = db_checkpoints db @ [prune_checkpoint D prefix h at db]
            \<and> db_state db' = db_state db \<and> intact D db' \<and> db_delete_authority db'))"
proof -
  have events: "db_events db = prefix @ rest" using prefix(1) rest by (metis takeWhile_dropWhile_id)
  from intact obtain s where s: "db_state db = Some s" "state_messages s = []" "triggers_ok db"
    and checkpoints: "checkpoint_messages D AUDIT_ZERO_HASH 0 0 (db_checkpoints db) = []"
    and chain: "chain_end D (fst (chain_anchor db)) (snd (chain_anchor db)) (prefix @ rest)
        = Some (cs_last_event_hash s, cs_last_sequence s)"
    and counters: "counters_ok db"
    by (auto simp: intact_def auditIntegrity_Nil events)
  from chain obtain h l where parts: "chain_end D (fst (chain_anchor db)) (snd (chain_anchor db)) prefix = Some (h, l)"
    "chain_end D h l rest = Some (cs_last_event_hash s, cs_last_sequence s)"
    by (auto simp: chain_end_append split: bind_splits)
  have last: "ar_event_hash (last prefix) = Some h" "ar_sequence (last prefix) = l"
    using chain_end_last [OF parts(1) prefix(2)] by simp_all
  have h: "isHash h" using chain_end_hash(2) [OF D parts(1) prefix(2)] .
  define c1 where "c1 = prune_checkpoint D prefix h at db"
  obtain a q t where head: "checkpoint_head (db_checkpoints db) = (a, q, t)" by (cases "checkpoint_head (db_checkpoints db)")
  note head_ok = checkpoint_head_ok [OF D checkpoints head]
  have anchor: "snd (chain_anchor db) = t" using chain_anchor_head [OF head] .
  have seqs: "t < ar_sequence (hd prefix)" "ar_sequence (hd prefix) \<le> l" "int (length prefix) \<le> l - ar_sequence (hd prefix) + 1"
  proof -
    obtain r rs where r: "prefix = r # rs" using prefix(2) by (cases prefix) auto
    with parts(1) obtain h1 where "expected_hash D (fst (chain_anchor db)) (snd (chain_anchor db)) r = Some h1"
      "chain_end D h1 (ar_sequence r) rs = Some (h, l)" by (auto split: option.splits)
    with chain_end_sequences [OF this(2)] r anchor
    show "t < ar_sequence (hd prefix)" "ar_sequence (hd prefix) \<le> l" "int (length prefix) \<le> l - ar_sequence (hd prefix) + 1"
      by (auto simp: expected_hash_Some)
  qed
  have q: "q \<le> db_checkpoint_counter db" and a: "cp_previous_checkpoint_hash c1 = a"
    using counters head by (auto simp: checkpoint_head_def counters_ok_def c1_def prune_checkpoint_def Let_def
      latestCheckpoint_def split: if_splits)
  have c1: "checkpoint_ok D a q t c1"
    using seqs q a h prefix(2) at(2)
    by (auto simp: checkpoint_ok_def c1_def prune_checkpoint_def Let_def last is_timestamp_def Suc_le_eq)
  show ?thesis
  proof (intro exI [of _ h] conjI last disjCI, fold c1_def)
    assume fresh: "\<not> (\<exists>db'. pruneAuditPrefix D cutoff nowMs db = Inr (int (length prefix), db') \<and> db_events db' = rest
            \<and> db_checkpoints db' = db_checkpoints db @ [c1]
            \<and> db_state db' = db_state db \<and> intact D db' \<and> db_delete_authority db')"
    show "cp_checkpoint_hash c1 \<in> cp_checkpoint_hash ` set (db_checkpoints db)"
    proof (rule ccontr)
      assume new: "cp_checkpoint_hash c1 \<notin> cp_checkpoint_hash ` set (db_checkpoints db)"
      define db1 where "db1 = db\<lparr> db_checkpoints := db_checkpoints db @ [c1], db_checkpoint_counter := cp_checkpoint_sequence c1 \<rparr>"
      have "length (cp_checkpoint_hash c1) = 64" "length (cp_pruned_through_hash c1) = 64"
        using c1 isHash_length digests_row_hash(3) [OF D] h by (auto simp: checkpoint_ok_def)
      then have insert: "insert_checkpoint c1 db = Inr db1"
        using c1 new isHash_length [OF head_ok(1)] head_ok(2) by (auto simp: insert_checkpoint_def checkpoint_ok_def db1_def)
      have kept: "filter (\<lambda>r. \<not> ar_sequence r \<le> ar_sequence (last prefix)) (db_events db1) = rest"
        using takeWhile_kept [OF chain prefix(2)] by (simp add: db1_def events)
      define db2 where "db2 = db1\<lparr> db_events := rest, db_triggers :=
        filter (\<lambda>(t, _). t \<notin> set CONTROLLED_DELETE_TRIGGERS) (db_triggers db1) @ map (\<lambda>t. (t, True)) CONTROLLED_DELETE_TRIGGERS \<rparr>"
      have delete: "withControlledAuditDeletion (\<lambda>db. db\<lparr> db_events := rest \<rparr>) db1 = Inr db2"
        using authority s(3)
        by (simp add: withControlledAuditDeletion_def db1_def db2_def triggers_ok_def CONTROLLED_DELETE_TRIGGERS_def)
      have same: "db_state db2 = db_state db" "db_events db2 = rest" "db_checkpoints db2 = db_checkpoints db @ [c1]"
        "db_delete_authority db2 = db_delete_authority db" "db_event_counter db2 = db_event_counter db"
        "db_checkpoint_counter db2 = cp_checkpoint_sequence c1"
        by (simp_all add: db2_def db1_def)
      have "triggers_ok db2"
        using triggers_after_deletion [of db1] s(3) by (simp add: triggers_ok_def db2_def db1_def)
      moreover have "chain_anchor db2 = (h, l)"
        by (simp add: chain_anchor_def latestCheckpoint_def same c1_def prune_checkpoint_def Let_def last)
      moreover have "checkpoint_messages D AUDIT_ZERO_HASH 0 0 (db_checkpoints db2) = []"
        using checkpoints c1 head by (simp add: same checkpoint_messages_snoc_Nil)
      ultimately have check: "auditIntegrityMessages D db2 = []" using s parts(2) by (simp add: auditIntegrity_Nil same)
      have "cp_checkpoint_sequence c1 = db_checkpoint_counter db + 1" by (simp add: c1_def prune_checkpoint_def Let_def)
      then have "counters_ok db2" using counters by (auto simp: counters_ok_def same)
      with check have "intact D db2" by (simp add: intact_def)
      moreover have "pruneAuditPrefix D cutoff nowMs db = Inr (int (length prefix), db2)"
        using intact cutoff at(1) prefix insert kept delete check last
        by (simp add: pruneAuditPrefix_def intact_def c1_def [symmetric] Let_def) (simp add: db1_def events)
      ultimately show False using fresh same authority by blast
    qed
  qed
qed

section \<open>Initialization and reset\<close>

text \<open>A migrated database before its first start: no chain, no checkpoints, perhaps older events without digests.\<close>

definition migrated :: "digests \<Rightarrow> audit_db \<Rightarrow> bool" where
  "migrated D db = (db_state db = None \<and> db_triggers db = [] \<and> db_checkpoints db = []
     \<and> 0 \<le> db_event_counter db \<and> 0 \<le> db_checkpoint_counter db
     \<and> sorted_wrt (<) (map ar_sequence (db_events db))
     \<and> (\<forall>r \<in> set (db_events db). ar_sequence r \<le> db_event_counter db
          \<and> audit_event_ok (ar_sequence r) (ar_occurred_at r) (ar_category r) (ar_action r) (ar_outcome r)))"

lemma baseline_rows_chain:
  assumes "digests_ok D" "baseline_rows D p l used rows = Inr (rows', p', l')" "sorted_wrt (<) (map ar_sequence rows)"
    "\<forall>r \<in> set rows. l < ar_sequence r
      \<and> audit_event_ok (ar_sequence r) (ar_occurred_at r) (ar_category r) (ar_action r) (ar_outcome r)"
  shows "chain_end D p l rows' = Some (p', l') \<and> l' \<in> insert l (ar_sequence ` set rows)"
  using assms(2-)
proof (induction rows arbitrary: p l used rows')
  case (Cons r rs)
  obtain m where m: "dg_redacted D (ar_metadata_json r) = Some m"
    using Cons.prems(1) by (auto split: option.splits if_splits)
  define h where "h = row_hash D p r m"
  obtain rs' where rest: "baseline_rows D h (ar_sequence r) (h # used) rs = Inr (rs', p', l')"
    and rows': "rows' = r\<lparr> ar_metadata_json := m, ar_previous_hash := Some p, ar_event_hash := Some h \<rparr> # rs'"
    using Cons.prems(1) m by (auto simp: Let_def h_def split: sum.splits if_splits)
  have "dg_redacted D m = Some m" using assms(1) m by (auto simp: digests_ok_def)
  then have "expected_hash D p l (r\<lparr> ar_metadata_json := m, ar_previous_hash := Some p, ar_event_hash := Some h \<rparr>) = Some h"
    using Cons.prems(3) by (simp add: expected_hash_Some h_def row_hash_def)
  with Cons.IH [OF rest] Cons.prems(2,3) show ?case by (auto simp: rows')
qed simp

lemma triggers_installed: "map_of all_triggers t = Some True"
  by (cases t) (simp_all add: all_triggers_def REQUIRED_TRIGGERS_def)

lemma initialize_intact:
  assumes "digests_ok D" "migrated D db" "initializeAuditIntegrity D nowMs db = Inr (u, db')"
    "\<And>at. toISOString nowMs = Inr at \<Longrightarrow> is_timestamp at"
  shows "intact D db' \<and> db_delete_authority db'"
proof -
  have state: "db_state db = None" "db_triggers db = []" "db_checkpoints db = []" using assms(2) by (auto simp: migrated_def)
  obtain at rows p l where at: "toISOString nowMs = Inr at"
    and baseline: "baseline_rows D AUDIT_ZERO_HASH 0 [] (db_events db) = Inr (rows, p, l)" and p: "length p = 64"
    and db': "db' = db\<lparr> db_events := rows, db_state := Some \<lparr> cs_initialized_at = at, cs_last_sequence = l,
        cs_last_event_hash = p \<rparr>, db_triggers := all_triggers, db_delete_authority := True \<rparr>"
    using assms(3) state by (auto simp: initializeAuditIntegrity_def split: sum.splits if_splits)
  have rows: "\<forall>r \<in> set (db_events db). 0 < ar_sequence r
      \<and> audit_event_ok (ar_sequence r) (ar_occurred_at r) (ar_category r) (ar_action r) (ar_outcome r)"
    "sorted_wrt (<) (map ar_sequence (db_events db))"
    using assms(2) by (auto simp: migrated_def audit_event_ok_def)
  note chain = baseline_rows_chain [OF assms(1) baseline rows(2,1)]
  have l: "0 \<le> l" "l \<le> db_event_counter db" using chain assms(2) rows(1) by (auto simp: migrated_def)
  have "isHash p" using chain_end_hash(1) [OF assms(1) chain [THEN conjunct1]] by simp
  then have "auditIntegrityMessages D db' = []"
    using chain state l assms(4) [OF at]
    by (simp add: auditIntegrity_Nil db' triggers_ok_def triggers_installed state_messages_def chain_anchor_def
      latestCheckpoint_def is_timestamp_def)
  then show ?thesis using assms(2) l state by (auto simp: intact_def counters_ok_def db' migrated_def)
qed

lemma initialize_again:
  assumes "intact D db"
  shows "initializeAuditIntegrity D nowMs db = Inr ((), db\<lparr> db_delete_authority := True \<rparr>)"
  using assms by (auto simp: initializeAuditIntegrity_def intact_def auditIntegrity_Nil triggerIntegrity_Nil)

lemma intact_authority: "intact D (db\<lparr> db_delete_authority := b \<rparr>) = intact D db"
  by (simp add: intact_def auditIntegrity_Nil counters_ok_def triggers_ok_def chain_anchor_def latestCheckpoint_def)

lemma reset_intact:
  assumes "intact D db" "resetAuditChain D nowMs db = Inr (u, db')" "\<And>at. toISOString nowMs = Inr at \<Longrightarrow> is_timestamp at"
  shows "intact D db' \<and> db_delete_authority db' \<and> db_events db' = []"
proof -
  obtain at where at: "toISOString nowMs = Inr at"
    using assms(2) by (auto simp: resetAuditChain_def split: sum.splits prod.splits)
  define ts where "ts = filter (\<lambda>(t, _). t \<notin> set CONTROLLED_DELETE_TRIGGERS) (db_triggers db) @ map (\<lambda>t. (t, True)) CONTROLLED_DELETE_TRIGGERS"
  have triggers: "triggers_ok db" "\<forall>t. map_of ts t = Some True"
    using assms(1) triggers_after_deletion [of db] by (auto simp: intact_def auditIntegrity_Nil ts_def)
  then have "withControlledAuditDeletion (\<lambda>db. db\<lparr> db_events := [], db_checkpoints := [] \<rparr>) (db\<lparr> db_delete_authority := True \<rparr>)
      = Inr (db\<lparr> db_events := [], db_checkpoints := [], db_triggers := ts, db_delete_authority := True \<rparr>)"
    by (simp add: withControlledAuditDeletion_def ts_def triggers_ok_def CONTROLLED_DELETE_TRIGGERS_def)
  with assms(2) at have db': "db' = db\<lparr> db_events := [], db_checkpoints := [], db_triggers := ts, db_delete_authority := True,
      db_state := Some \<lparr> cs_initialized_at = at, cs_last_sequence = 0, cs_last_event_hash = AUDIT_ZERO_HASH \<rparr> \<rparr>"
    by (simp add: resetAuditChain_def initialize_again [OF assms(1)])
  have "auditIntegrityMessages D db' = []"
    using triggers(2) assms(3) [OF at]
    by (simp add: auditIntegrity_Nil db' triggers_ok_def state_messages_def chain_anchor_def latestCheckpoint_def is_timestamp_def)
  then show ?thesis using assms(1) by (auto simp: intact_def counters_ok_def db')
qed

section \<open>The audit log of the application\<close>

text \<open>Every use of the log through its four operations; times are of the years 0 to 9999.\<close>

definition plain_time :: "int \<Rightarrow> bool" where
  "plain_time nowMs = (case toISOString nowMs of Inl _ \<Rightarrow> False | Inr at \<Rightarrow> is_timestamp at)"

inductive audit_reaches :: "digests \<Rightarrow> audit_db \<Rightarrow> bool" for D where
  initialized: "migrated D db \<Longrightarrow> plain_time nowMs \<Longrightarrow> initializeAuditIntegrity D nowMs db = Inr (u, db') \<Longrightarrow> audit_reaches D db'"
| reopened: "audit_reaches D db \<Longrightarrow> initializeAuditIntegrity D nowMs (db\<lparr> db_delete_authority := False \<rparr>) = Inr (u, db')
    \<Longrightarrow> audit_reaches D db'"
| appended: "audit_reaches D db \<Longrightarrow> appendChainedAudit D at category action result metadata db = Inr (n, db') \<Longrightarrow> audit_reaches D db'"
| pruned: "audit_reaches D db \<Longrightarrow> plain_time nowMs \<Longrightarrow> pruneAuditPrefix D cutoff nowMs db = Inr (n, db') \<Longrightarrow> audit_reaches D db'"
| reset: "audit_reaches D db \<Longrightarrow> plain_time nowMs \<Longrightarrow> resetAuditChain D nowMs db = Inr (u, db') \<Longrightarrow> audit_reaches D db'"

lemma append_authority:
  "appendChainedAudit D at category action result metadata db = Inr (n, db') \<Longrightarrow> db_delete_authority db' = db_delete_authority db"
  by (auto simp: appendChainedAudit_def append_savepoint_def Let_def insert_row_def split: if_splits sum.splits option.splits)

lemma prune_intact:
  assumes "digests_ok D" "intact D db" "db_delete_authority db" "plain_time nowMs" "pruneAuditPrefix D cutoff nowMs db = Inr (n, db')"
  shows "intact D db' \<and> db_delete_authority db'"
proof -
  obtain c at where times: "Date_parse cutoff = Some c" "toISOString nowMs = Inr at" "is_timestamp at"
    using assms(4,5) by (auto simp: pruneAuditPrefix_def plain_time_def split: option.splits sum.splits)
  show ?thesis
  proof (cases "takeWhile (expired_row c) (db_events db) = []")
    case True
    from prune_nothing [OF assms(2) times(1,2) True] assms show ?thesis by simp
  next
    case False
    from prune_prefix [OF assms(1-3) times refl False refl] obtain h where
      h: "ar_event_hash (last (takeWhile (expired_row c) (db_events db))) = Some h"
      and results: "cp_checkpoint_hash (prune_checkpoint D (takeWhile (expired_row c) (db_events db)) h at db)
          \<in> cp_checkpoint_hash ` set (db_checkpoints db)
        \<or> (\<exists>db'. pruneAuditPrefix D cutoff nowMs db = Inr (int (length (takeWhile (expired_row c) (db_events db))), db')
             \<and> intact D db' \<and> db_delete_authority db')" by blast
    have "insert_checkpoint (prune_checkpoint D (takeWhile (expired_row c) (db_events db)) h at db) db \<noteq> Inl StatementFailed"
      using assms(2,5) times False h
      by (auto simp: pruneAuditPrefix_def intact_def Let_def split: sum.splits)
    then have "cp_checkpoint_hash (prune_checkpoint D (takeWhile (expired_row c) (db_events db)) h at db)
        \<notin> cp_checkpoint_hash ` set (db_checkpoints db)" by (auto simp: insert_checkpoint_def)
    with results assms(5) show ?thesis by auto
  qed
qed

lemma reaches_intact:
  assumes "digests_ok D"
  shows "audit_reaches D db \<Longrightarrow> intact D db \<and> db_delete_authority db"
proof (induction rule: audit_reaches.induct)
  case (initialized db nowMs u db')
  then show ?case
    using initialize_intact [OF assms initialized(1,3)] by (simp add: plain_time_def split: sum.splits)
next
  case (reopened db nowMs u db')
  then have "intact D (db\<lparr> db_delete_authority := False \<rparr>)" by (simp add: intact_authority)
  from initialize_again [OF this, of nowMs] reopened show ?case by (auto simp: intact_authority)
next
  case (appended db at category action result metadata n db')
  with append_result [OF assms, of db at category action result metadata] append_authority [OF appended(2)] show ?case by simp
next
  case (pruned db nowMs cutoff n db')
  with prune_intact [OF assms] show ?case by blast
next
  case (reset db nowMs u db')
  then show ?case using reset_intact [of D db nowMs u db'] by (simp add: plain_time_def split: sum.splits)
qed

text \<open>
  C11. However the log is used, initialized on a migrated database, reopened, appended to, pruned and reset, it
  always passes its own integrity check.
\<close>

theorem audit_log_stays_intact:
  assumes "digests_ok D" "audit_reaches D db"
  shows "auditIntegrityMessages D db = []"
  using reaches_intact [OF assms] by (simp add: intact_def)

text \<open>
  C36. A log in use accepts an event exactly when it fits the schema, its metadata is an object of at most 1 MiB
  once redacted, and its digest does not occur yet; any other is refused. An accepted event is recorded, with its
  metadata redacted, as one row at the end, under a new number, chained to the head; the head moves to it, the
  rest of the log stays, and the log passes its check.
\<close>

theorem audit_append_correct:
  assumes "digests_ok D" "audit_reaches D db"
  shows "case appendChainedAudit D occurredAt category action result metadata db of
      Inr (sequence, db') \<Rightarrow> accepts_event D db occurredAt category action result metadata
        \<and> records_event D db occurredAt category action result metadata sequence db' \<and> auditIntegrityMessages D db' = []
    | Inl e \<Rightarrow> \<not> accepts_event D db occurredAt category action result metadata"
proof -
  have "intact D db" using reaches_intact [OF assms] by simp
  from append_result [OF assms(1) this, of occurredAt category action result metadata] show ?thesis
    by (auto simp: intact_def split: sum.splits prod.splits)
qed

text \<open>What the checkpoint of a removed prefix says.\<close>

definition remembers :: "digests \<Rightarrow> audit_db \<Rightarrow> audit_row list \<Rightarrow> string \<Rightarrow> checkpoint \<Rightarrow> bool" where
  "remembers D db expired at c =
     (cp_checkpoint_sequence c = db_checkpoint_counter db + 1
      \<and> cp_first_pruned_sequence c = ar_sequence (hd expired) \<and> cp_pruned_through_sequence c = ar_sequence (last expired)
      \<and> Some (cp_pruned_through_hash c) = ar_event_hash (last expired)
      \<and> cp_event_count c = int (length expired) \<and> cp_pruned_at c = at
      \<and> cp_previous_checkpoint_hash c
          = (if db_checkpoints db = [] then AUDIT_ZERO_HASH else cp_checkpoint_hash (last (db_checkpoints db)))
      \<and> cp_checkpoint_hash c = auditCheckpointHash D (cp_first_pruned_sequence c) (cp_pruned_through_sequence c)
          (cp_pruned_through_hash c) (cp_event_count c) at (cp_previous_checkpoint_hash c))"

lemma prune_checkpoint_remembers:
  "ar_event_hash (last prefix) = Some h \<Longrightarrow> remembers D db prefix at (prune_checkpoint D prefix h at db)"
  by (simp add: remembers_def prune_checkpoint_def Let_def latestCheckpoint_def)

lemma prune_repeated_digest:
  assumes "intact D db" "Date_parse cutoff = Some cutoffTime" "toISOString nowMs = Inr at"
    "takeWhile (expired_row cutoffTime) (db_events db) = prefix" "prefix \<noteq> []" "ar_event_hash (last prefix) = Some h"
    "cp_checkpoint_hash (prune_checkpoint D prefix h at db) \<in> cp_checkpoint_hash ` set (db_checkpoints db)"
  shows "pruneAuditPrefix D cutoff nowMs db = Inl StatementFailed"
proof -
  have "insert_checkpoint (prune_checkpoint D prefix h at db) db = Inl StatementFailed"
    using assms(7) by (simp add: insert_checkpoint_def)
  with assms(1-6) show ?thesis by (simp add: pruneAuditPrefix_def intact_def Let_def)
qed

text \<open>
  C37. On a log in use retention removes exactly the events before the first one at or after the cutoff and keeps
  the rest. It does nothing when there is none to remove. Otherwise it adds one checkpoint, which
  says how many events are gone, from which to which, when, behind which checkpoint and with which last digest, and
  the remaining log passes its check; it fails only, and then leaves the log alone, when the digest of that very
  checkpoint already occurs. It never finds the chain broken by its own deletion.
\<close>

theorem audit_prune_correct:
  assumes "digests_ok D" "audit_reaches D db" "Date_parse cutoff = Some cutoffTime" "toISOString nowMs = Inr at" "is_timestamp at"
  shows "\<exists>expired kept. db_events db = expired @ kept \<and> (\<forall>r \<in> set expired. expired_row cutoffTime r)
    \<and> (kept = [] \<or> \<not> expired_row cutoffTime (hd kept))
    \<and> (if expired = [] then pruneAuditPrefix D cutoff nowMs db = Inr (0, db)
       else \<exists>c. remembers D db expired at c
         \<and> (if cp_checkpoint_hash c \<in> cp_checkpoint_hash ` set (db_checkpoints db)
            then pruneAuditPrefix D cutoff nowMs db = Inl StatementFailed
            else \<exists>db'. pruneAuditPrefix D cutoff nowMs db = Inr (int (length expired), db') \<and> db_events db' = kept
              \<and> db_checkpoints db' = db_checkpoints db @ [c] \<and> db_state db' = db_state db \<and> auditIntegrityMessages D db' = []))"
proof -
  define expired kept where "expired = takeWhile (expired_row cutoffTime) (db_events db)"
    and "kept = dropWhile (expired_row cutoffTime) (db_events db)"
  have intact: "intact D db" "db_delete_authority db" using reaches_intact [OF assms(1,2)] by simp_all
  have effect: "\<exists>c. remembers D db expired at c
         \<and> (if cp_checkpoint_hash c \<in> cp_checkpoint_hash ` set (db_checkpoints db)
            then pruneAuditPrefix D cutoff nowMs db = Inl StatementFailed
            else \<exists>db'. pruneAuditPrefix D cutoff nowMs db = Inr (int (length expired), db') \<and> db_events db' = kept
              \<and> db_checkpoints db' = db_checkpoints db @ [c] \<and> db_state db' = db_state db \<and> auditIntegrityMessages D db' = [])"
    if some: "expired \<noteq> []"
  proof -
    from prune_prefix [OF assms(1) intact assms(3-5) expired_def [symmetric] some kept_def [symmetric]]
    obtain h where h: "ar_event_hash (last expired) = Some h"
      and result: "cp_checkpoint_hash (prune_checkpoint D expired h at db) \<in> cp_checkpoint_hash ` set (db_checkpoints db)
        \<or> (\<exists>db'. pruneAuditPrefix D cutoff nowMs db = Inr (int (length expired), db') \<and> db_events db' = kept
             \<and> db_checkpoints db' = db_checkpoints db @ [prune_checkpoint D expired h at db]
             \<and> db_state db' = db_state db \<and> intact D db' \<and> db_delete_authority db')" by blast
    show ?thesis
      using prune_checkpoint_remembers [OF h] result
        prune_repeated_digest [OF intact(1) assms(3,4) expired_def [symmetric] some h]
      by (intro exI [of _ "prune_checkpoint D expired h at db"]) (auto simp: intact_def)
  qed
  have unchanged: "pruneAuditPrefix D cutoff nowMs db = Inr (0, db)" if "expired = []"
    using prune_nothing [OF intact(1) assms(3,4)] that by (simp add: expired_def)
  have "db_events db = expired @ kept" by (simp add: expired_def kept_def)
  moreover have "\<forall>r \<in> set expired. expired_row cutoffTime r" by (auto simp: expired_def dest: set_takeWhileD)
  moreover have "kept = [] \<or> \<not> expired_row cutoffTime (hd kept)"
    unfolding kept_def using hd_dropWhile dropWhile_eq_Nil_conv by metis
  moreover have "if expired = [] then pruneAuditPrefix D cutoff nowMs db = Inr (0, db)
       else \<exists>c. remembers D db expired at c
         \<and> (if cp_checkpoint_hash c \<in> cp_checkpoint_hash ` set (db_checkpoints db)
            then pruneAuditPrefix D cutoff nowMs db = Inl StatementFailed
            else \<exists>db'. pruneAuditPrefix D cutoff nowMs db = Inr (int (length expired), db') \<and> db_events db' = kept
              \<and> db_checkpoints db' = db_checkpoints db @ [c] \<and> db_state db' = db_state db \<and> auditIntegrityMessages D db' = [])"
  proof (cases "expired = []")
    case True
    from unchanged [OF True] show ?thesis unfolding if_P [OF True] .
  next
    case False
    from effect [OF False] show ?thesis unfolding if_not_P [OF False] .
  qed
  ultimately show ?thesis by blast
qed

section \<open>Tampering\<close>

definition audit_units :: "utf16 \<Rightarrow> bool" where
  "audit_units s = list_all (\<lambda>u. u < 0x10000) s"

definition row_units :: "audit_row \<Rightarrow> bool" where
  "row_units r = (audit_units (ar_category r) \<and> audit_units (ar_action r) \<and> audit_units (ar_metadata_json r))"

lemma js_units: "audit_units (js s)"
  using json_safe_js [of s] by (simp add: json_safe_def audit_units_def)

lemma hash_units: "isHash h \<Longrightarrow> audit_units h"
  by (auto simp: isHash_def audit_units_def list_all_iff)

lemma audit_quote_append:
  "audit_units s \<Longrightarrow> audit_units t \<Longrightarrow> json_quote s @ r = json_quote t @ r' \<longleftrightarrow> s = t \<and> r = r'"
  by (rule json_quote_append) (auto simp: audit_units_def list_all_iff)

lemma quotes_inject:
  "length xs = length ys \<Longrightarrow> list_all audit_units xs \<Longrightarrow> list_all audit_units ys
    \<Longrightarrow> json_commas (map json_quote xs) @ r = json_commas (map json_quote ys) @ r \<longleftrightarrow> xs = ys"
proof (induction xs ys rule: list_induct2)
  case (Cons x xs y ys)
  show ?case
  proof (cases xs)
    case Nil
    with Cons show ?thesis using audit_quote_append [of x y "[]" "[]"] by simp
  next
    case (Cons x' xs')
    then obtain y' ys' where "ys = y' # ys'" using \<open>length xs = length ys\<close> by (cases ys) auto
    with Cons Cons.IH Cons.prems show ?thesis by (auto simp: audit_quote_append)
  qed
qed simp

lemma hash_input_inject:
  assumes "length xs = length ys" "list_all audit_units xs" "list_all audit_units ys" "hash_input d xs = hash_input d ys"
  shows "xs = ys"
  using quotes_inject [of "js d # xs" "js d # ys" "js '']''"] assms js_units by (simp add: hash_input_def)

lemma hash_input_safe: "list_all audit_units xs \<Longrightarrow> json_safe (hash_input d xs)"
proof -
  assume "list_all audit_units xs"
  then have "list_all json_safe (map json_quote (js d # xs))"
    using js_units [of d] by (auto simp: list_all_iff audit_units_def intro!: json_safe_quote)
  then show ?thesis unfolding hash_input_def by (intro json_safe_append json_safe_commas) simp_all
qed

text \<open>What an event says, apart from its number and its digests.\<close>

definition audit_content :: "audit_row \<Rightarrow> string \<times> utf16 \<times> utf16 \<times> string \<times> utf16" where
  "audit_content r = (ar_occurred_at r, ar_category r, ar_action r, ar_outcome r, ar_metadata_json r)"

text \<open>The bytes that are digested for an event of the log.\<close>

definition event_bytes :: "audit_row \<Rightarrow> nat list" where
  "event_bytes r = utf8_bytes (hash_input ''forgeboard.audit.event.v1''
     [the (ar_previous_hash r), js (ar_occurred_at r), ar_category r, ar_action r, js (ar_outcome r), ar_metadata_json r])"

text \<open>A collision among the events of two logs: two of them with one digest, for which different bytes were digested.\<close>

definition collision_between :: "digests \<Rightarrow> audit_row list \<Rightarrow> audit_row list \<Rightarrow> bool" where
  "collision_between D rows rows' = (\<exists>r \<in> set rows. \<exists>r' \<in> set rows'.
     event_bytes r \<noteq> event_bytes r' \<and> dg_sha256 D (event_bytes r) = dg_sha256 D (event_bytes r'))"

lemma expected_hash_bytes:
  assumes "expected_hash D p l r = Some h"
  shows "h = dg_sha256 D (event_bytes r)" "ar_previous_hash r = Some p" "ar_event_hash r = Some h"
  using assms by (simp_all add: expected_hash_Some row_hash_def auditEventHash_def hashFields_def event_fields_def event_bytes_def)

lemma event_bytes_inject:
  assumes "event_bytes r = event_bytes r'" "ar_previous_hash r = Some p" "ar_previous_hash r' = Some p'"
    "isHash p" "isHash p'" "row_units r" "row_units r'"
  shows "p = p' \<and> audit_content r = audit_content r'"
proof -
  let ?xs = "event_fields p (ar_occurred_at r) (ar_category r) (ar_action r) (ar_outcome r) (ar_metadata_json r)"
  let ?ys = "event_fields p' (ar_occurred_at r') (ar_category r') (ar_action r') (ar_outcome r') (ar_metadata_json r')"
  have units: "list_all audit_units ?xs" "list_all audit_units ?ys"
    using assms(4-) hash_units js_units by (simp_all add: event_fields_def row_units_def)
  have "utf8_bytes (hash_input ''forgeboard.audit.event.v1'' ?xs) = utf8_bytes (hash_input ''forgeboard.audit.event.v1'' ?ys)"
    using assms(1-3) by (simp add: event_bytes_def event_fields_def)
  from utf8_bytes_inject [OF hash_input_safe [OF units(1)] hash_input_safe [OF units(2)] this]
  have "?xs = ?ys" by (intro hash_input_inject [OF _ units]) (simp_all add: event_fields_def)
  then show ?thesis by (simp add: event_fields_def audit_content_def js_inject)
qed

lemma chain_end_prefix:
  assumes "chain_end D a t (xs @ [x]) = Some (h, l)"
  obtains p k where "chain_end D a t xs = Some (p, k)" "expected_hash D p k x = Some h"
  using assms by (auto simp: chain_end_append split: bind_splits option.splits)

lemma chain_determines:
  assumes "digests_ok D" "isHash a"
    "chain_end D a t xs = Some (h, l)" "chain_end D a t' ys = Some (h, l')" "list_all row_units xs" "list_all row_units ys"
    "\<not> collision_between D xs ys" "length xs = length ys \<or> (\<forall>r \<in> set xs \<union> set ys. ar_event_hash r \<noteq> Some a)"
  shows "map audit_content xs = map audit_content ys"
  using assms(3-)
proof (induction xs arbitrary: h l l' ys rule: rev_induct)
  case Nil
  have "ys = []"
  proof (rule ccontr)
    assume "ys \<noteq> []"
    then have "ar_event_hash (last ys) = Some a" using chain_end_last [OF Nil(2)] Nil(1) by simp
    with \<open>ys \<noteq> []\<close> Nil(6) show False by auto
  qed
  then show ?case by simp
next
  case (snoc x xs)
  obtain p k where x: "chain_end D a t xs = Some (p, k)" "expected_hash D p k x = Some h"
    by (rule chain_end_prefix [OF snoc.prems(1)])
  show ?case
  proof (cases ys rule: rev_cases)
    case Nil
    then have "ar_event_hash x = Some a" using snoc.prems(2) expected_hash_bytes(3) [OF x(2)] by simp
    with snoc.prems(6) Nil show ?thesis by auto
  next
    case (snoc zs z)
    obtain p' k' where z: "chain_end D a t' zs = Some (p', k')" "expected_hash D p' k' z = Some h"
      by (rule chain_end_prefix [OF snoc.prems(2) [unfolded snoc]])
    have units: "row_units x" "row_units z" "list_all row_units xs" "list_all row_units zs"
      using snoc.prems(3,4) snoc by simp_all
    have "dg_sha256 D (event_bytes x) = dg_sha256 D (event_bytes z)"
      using expected_hash_bytes(1) [OF x(2)] expected_hash_bytes(1) [OF z(2)] by simp
    then have "event_bytes x = event_bytes z"
      using snoc.prems(5) unfolding snoc collision_between_def by fastforce
    moreover have "isHash p" "isHash p'" using chain_end_hash(1) [OF assms(1)] x(1) z(1) assms(2) by blast+
    ultimately have "p = p'" "audit_content x = audit_content z"
      using event_bytes_inject [of x z p p'] units expected_hash_bytes(2) [OF x(2)] expected_hash_bytes(2) [OF z(2)] by blast+
    moreover have "\<not> collision_between D xs zs" using snoc.prems(5) unfolding snoc collision_between_def by auto
    moreover have "length xs = length zs \<or> (\<forall>r \<in> set xs \<union> set zs. ar_event_hash r \<noteq> Some a)"
      using snoc.prems(6) unfolding snoc by auto
    ultimately show ?thesis using snoc.IH [OF x(1) _ units(3,4)] z(1) snoc by simp
  qed
qed

text \<open>
  C10. The log shows tampering: two databases that both pass the check with the same chain head and whose chains are
  anchored at the same digest (that of their latest retention checkpoint, the zero digest without one) hold events
  that say the same, in the same order and number,
  unless two events of theirs for which different bytes were digested have the same digest, or, when they hold
  different numbers of events, one of those events has the very digest the chains are anchored at. So to change, drop, insert or move an event under the same
  head one has to exhibit a collision of SHA-256 or a preimage of the anchor.
\<close>

theorem audit_tamper_evident:
  assumes "digests_ok D" "auditIntegrityMessages D db = []" "auditIntegrityMessages D db' = []"
    "map_option cs_last_event_hash (db_state db) = map_option cs_last_event_hash (db_state db')"
    "fst (chain_anchor db) = fst (chain_anchor db')"
    "list_all row_units (db_events db)" "list_all row_units (db_events db')"
  shows "map audit_content (db_events db) = map audit_content (db_events db')
    \<or> collision_between D (db_events db) (db_events db')
    \<or> length (db_events db) \<noteq> length (db_events db')
      \<and> (\<exists>r \<in> set (db_events db) \<union> set (db_events db'). ar_event_hash r = Some (fst (chain_anchor db)))"
proof -
  note same = assms(5) [symmetric]
  obtain s s' where s: "db_state db = Some s"
      "chain_end D (fst (chain_anchor db)) (snd (chain_anchor db)) (db_events db) = Some (cs_last_event_hash s, cs_last_sequence s)"
      "checkpoint_messages D AUDIT_ZERO_HASH 0 0 (db_checkpoints db) = []"
    and s': "db_state db' = Some s'"
      "chain_end D (fst (chain_anchor db)) (snd (chain_anchor db')) (db_events db') = Some (cs_last_event_hash s', cs_last_sequence s')"
    using assms(2,3) by (auto simp: auditIntegrity_Nil same)
  have "cs_last_event_hash s = cs_last_event_hash s'" using assms(4) s(1) s'(1) by simp
  with chain_determines [OF assms(1) chain_anchor_hash [OF s(3)] s(2) _ assms(6,7)] s'(2) show ?thesis by auto
qed

end
