(* ===== verification/Audit_Samples.thy ===== *)
theory Audit_Samples
  imports Audit_Integrity "HOL-Library.Code_Target_Numeral"
begin

text \<open>
  A log that is initialized, appended to twice and pruned. The sum of the bytes in 64 hexadecimal digits stands for
  SHA-256, and every JSON object counts as redacted.
\<close>

definition short_hash :: "nat list \<Rightarrow> utf16" where
  "short_hash bytes = (let n = foldl (+) 0 bytes in
     replicate 60 48 @ map hex_unit [n div 4096 mod 16, n div 256 mod 16, n div 16 mod 16, n mod 16])"

definition sample_digests :: digests where
  "sample_digests = \<lparr> dg_sha256 = short_hash, dg_redacted = (\<lambda>m. if starts_with (js ''{'') m then Some m else None) \<rparr>"

lemma sample_digests_ok: "digests_ok sample_digests"
proof -
  have "48 \<le> hex_unit d \<and> hex_unit d \<le> 57 \<or> 97 \<le> hex_unit d \<and> hex_unit d \<le> 102" if "d < 16" for d
    using that by (auto simp: hex_unit_def)
  then have "isHash (short_hash bytes)" for bytes by (simp add: isHash_def short_hash_def Let_def list_all_iff)
  then show ?thesis by (simp add: digests_ok_def sample_digests_def)
qed

text \<open>The log before it is initialized, and with no, one and two events; the numbers up to \<open>n\<close> have been used.\<close>

definition fresh_db :: "int \<Rightarrow> audit_db" where
  "fresh_db n = \<lparr> db_events = [], db_state = None, db_checkpoints = [], db_triggers = [], db_event_counter = n,
     db_checkpoint_counter = 0, db_delete_authority = False \<rparr>"

definition sample_row :: "int \<Rightarrow> string \<Rightarrow> utf16 \<Rightarrow> utf16 \<Rightarrow> audit_row" where
  "sample_row n at previous h = \<lparr> ar_sequence = n, ar_occurred_at = at, ar_category = js ''permission'', ar_action = js ''use'',
     ar_outcome = ''allowed'', ar_metadata_json = js ''{}'', ar_previous_hash = Some previous, ar_event_hash = Some h \<rparr>"

definition log_db :: "audit_row list \<Rightarrow> int \<Rightarrow> utf16 \<Rightarrow> int \<Rightarrow> audit_db" where
  "log_db rows lastSequence h n = \<lparr> db_events = rows, db_state = Some \<lparr> cs_initialized_at = ''1970-01-01T00:00:00.000Z'',
       cs_last_sequence = lastSequence, cs_last_event_hash = h \<rparr>,
     db_checkpoints = [], db_triggers = all_triggers, db_event_counter = n, db_checkpoint_counter = 0, db_delete_authority = True \<rparr>"

definition second_1 :: string where "second_1 = ''1970-01-01T00:00:01.000Z''"
definition second_5 :: string where "second_5 = ''1970-01-01T00:00:05.000Z''"

definition sample_hash :: "string \<Rightarrow> utf16" where
  "sample_hash digits = replicate 60 48 @ js digits"

definition opened :: "int \<Rightarrow> audit_db" where
  "opened n = log_db [] 0 AUDIT_ZERO_HASH n"

definition once :: "int \<Rightarrow> audit_db" where
  "once n = log_db [sample_row (n + 1) second_1 AUDIT_ZERO_HASH (sample_hash ''2785'')] (n + 1) (sample_hash ''2785'') (n + 1)"

definition twice :: "int \<Rightarrow> audit_db" where
  "twice n = log_db [sample_row (n + 1) second_1 AUDIT_ZERO_HASH (sample_hash ''2785''),
     sample_row (n + 2) second_5 (sample_hash ''2785'') (sample_hash ''279f'')] (n + 2) (sample_hash ''279f'') (n + 2)"

definition sample_append :: "string \<Rightarrow> audit_db \<Rightarrow> int audit" where
  "sample_append at = appendChainedAudit sample_digests at (js ''permission'') (js ''use'') ''allowed'' (js ''{}'')"

lemma sample_runs:
  "initializeAuditIntegrity sample_digests 0 (fresh_db 0) = Inr ((), opened 0)"
  "initializeAuditIntegrity sample_digests 0 (fresh_db 10) = Inr ((), opened 10)"
  "sample_append second_1 (opened 0) = Inr (1, once 0)" "sample_append second_1 (opened 10) = Inr (11, once 10)"
  "sample_append second_5 (once 0) = Inr (2, twice 0)" "sample_append second_5 (once 10) = Inr (12, twice 10)"
  by code_simp+

lemma sample_times:
  "plain_time 0" "Date_parse ''1970-01-01T00:00:03.000Z'' = Some 3000" "toISOString 6000 = Inr ''1970-01-01T00:00:06.000Z''"
  "is_timestamp ''1970-01-01T00:00:06.000Z''"
  by code_simp+

lemma sample_reached:
  "audit_reaches sample_digests (once 0)" "audit_reaches sample_digests (twice 0)" "audit_reaches sample_digests (twice 10)"
proof -
  have fresh: "migrated sample_digests (fresh_db 0)" "migrated sample_digests (fresh_db 10)"
    by (simp_all add: migrated_def fresh_db_def)
  have "audit_reaches sample_digests (opened 0)" "audit_reaches sample_digests (opened 10)"
    using audit_reaches.initialized [OF fresh(1) sample_times(1) sample_runs(1)]
      audit_reaches.initialized [OF fresh(2) sample_times(1) sample_runs(2)] .
  then show once: "audit_reaches sample_digests (once 0)" and "audit_reaches sample_digests (twice 10)"
    using sample_runs(3,4,6) unfolding sample_append_def by (blast intro: audit_reaches.appended)+
  from audit_reaches.appended [OF once sample_runs(5) [unfolded sample_append_def]]
  show "audit_reaches sample_digests (twice 0)" .
qed

theorem audit_log_stays_intact_witness:
  "length (db_events (twice 0)) = 2 \<and> auditIntegrityMessages sample_digests (twice 0) = []"
  using audit_log_stays_intact [OF sample_digests_ok sample_reached(2)] by (simp add: twice_def log_db_def)

theorem audit_append_correct_witness:
  "accepts_event sample_digests (once 0) second_5 (js ''permission'') (js ''use'') ''allowed'' (js ''{}'')
   \<and> records_event sample_digests (once 0) second_5 (js ''permission'') (js ''use'') ''allowed'' (js ''{}'') 2 (twice 0)
   \<and> auditIntegrityMessages sample_digests (twice 0) = []"
  using audit_append_correct [OF sample_digests_ok sample_reached(1), of second_5 "js ''permission''" "js ''use''" "''allowed''" "js ''{}''"]
    sample_runs(5) [unfolded sample_append_def] by simp

lemma sample_expired: "map (expired_row 3000) (db_events (twice 0)) = [True, False]"
  by code_simp

theorem audit_prune_correct_witness:
  "\<exists>db'. pruneAuditPrefix sample_digests ''1970-01-01T00:00:03.000Z'' 6000 (twice 0) = Inr (1, db')
     \<and> db_events db' = tl (db_events (twice 0)) \<and> map cp_event_count (db_checkpoints db') = [1]
     \<and> auditIntegrityMessages sample_digests db' = []"
proof -
  define db where "db = twice 0"
  have none: "db_checkpoints db = []" by (simp add: db_def twice_def log_db_def)
  obtain x y where events: "db_events db = [x, y]" "expired_row 3000 x" "\<not> expired_row 3000 y"
    using sample_expired unfolding db_def by auto
  from audit_prune_correct [OF sample_digests_ok sample_reached(2) sample_times(2-4), folded db_def] obtain expired kept where
    parts: "db_events db = expired @ kept" "\<forall>r \<in> set expired. expired_row 3000 r" "kept = [] \<or> \<not> expired_row 3000 (hd kept)"
    and prune: "if expired = [] then pruneAuditPrefix sample_digests ''1970-01-01T00:00:03.000Z'' 6000 db = Inr (0, db)
      else \<exists>c. remembers sample_digests db expired ''1970-01-01T00:00:06.000Z'' c
        \<and> (if cp_checkpoint_hash c \<in> cp_checkpoint_hash ` set (db_checkpoints db)
           then pruneAuditPrefix sample_digests ''1970-01-01T00:00:03.000Z'' 6000 db = Inl StatementFailed
           else \<exists>db'. pruneAuditPrefix sample_digests ''1970-01-01T00:00:03.000Z'' 6000 db = Inr (int (length expired), db')
             \<and> db_events db' = kept \<and> db_checkpoints db' = db_checkpoints db @ [c] \<and> db_state db' = db_state db
             \<and> auditIntegrityMessages sample_digests db' = [])"
    by (elim exE conjE) (rule that)
  have "expired = [x]" "kept = [y]"
    using parts events by (auto simp: Cons_eq_append_conv)
  with prune none obtain c db' where "remembers sample_digests db [x] ''1970-01-01T00:00:06.000Z'' c"
    "pruneAuditPrefix sample_digests ''1970-01-01T00:00:03.000Z'' 6000 db = Inr (1, db')"
    "db_events db' = [y]" "db_checkpoints db' = [c]" "auditIntegrityMessages sample_digests db' = []" by auto
  with events(1) show ?thesis unfolding db_def [symmetric] by (intro exI [of _ db']) (simp add: remembers_def)
qed

text \<open>The same two events under other numbers: another log under the same head, and no digest collides.\<close>

lemma sample_twins:
  "map_option cs_last_event_hash (db_state (twice 0)) = map_option cs_last_event_hash (db_state (twice 10))"
  "fst (chain_anchor (twice 0)) = fst (chain_anchor (twice 10))"
  "list_all row_units (db_events (twice 0))" "list_all row_units (db_events (twice 10))"
  "length (db_events (twice 0)) = length (db_events (twice 10))"
  by code_simp+

lemma sample_no_collision: "\<not> collision_between sample_digests (db_events (twice 0)) (db_events (twice 10))"
  by code_simp

theorem audit_tamper_evident_witness:
  "twice 0 \<noteq> twice 10 \<and> map audit_content (db_events (twice 0)) = map audit_content (db_events (twice 10))"
proof -
  have "auditIntegrityMessages sample_digests (twice 0) = []" "auditIntegrityMessages sample_digests (twice 10) = []"
    using reaches_intact [OF sample_digests_ok sample_reached(2)] reaches_intact [OF sample_digests_ok sample_reached(3)]
    by (simp_all add: intact_def)
  from audit_tamper_evident [OF sample_digests_ok this sample_twins(1-4)] sample_no_collision sample_twins(5)
  have "map audit_content (db_events (twice 0)) = map audit_content (db_events (twice 10))" by blast
  moreover have "twice 0 \<noteq> twice 10" by (simp add: twice_def log_db_def)
  ultimately show ?thesis by blast
qed

end
