(* ===== verification/Json_Merge.thy ===== *)
theory Json_Merge
  imports Js_Text "HOL-Library.Finite_Map"
begin

text \<open>
  The value part of \<open>components/workspace/collaboration/sync/three-way.ts\<close> of the desktop renderer: equality
  of JSON values and their three-way merge, by which edits made on two sides of a shared canvas are put
  together. What the merge has to deliver is stated on the values of all paths through the objects.

  A number is a rational or the negative zero, which \<open>Object.is\<close> tells from zero. The members of an object
  are kept in the order they were added, each name once; names of array indices, which an engine lists
  first, and \<open>__proto__\<close> are not treated specially.
\<close>

section \<open>Values\<close>

datatype js_number = Number rat | NegativeZero

datatype jv =
    JvNull
  | JvBool bool
  | JvNumber js_number
  | JvString utf16
  | JvArray "jv list"
  | JvObject "(utf16 \<times> jv) list"

text \<open>Size of an array or object bounds that of its parts.\<close>

lemma size_member [termination_simp]: "(k, v) \<in> set kvs \<Longrightarrow> size v < Suc (size_list (size_prod (\<lambda>_. 0) size) kvs)"
  by (induction kvs) auto

lemma size_map_of: "map_of kvs k = Some v \<Longrightarrow> size v < Suc (size_list (size_prod (\<lambda>_. 0) size) kvs)"
  by (blast dest: map_of_SomeD size_member)

lemma size_item [termination_simp]: "v \<in> set vs \<Longrightarrow> size v < Suc (size_list size vs)"
  by (induction vs) auto

lemma size_zip_item [termination_simp]: "(v, w) \<in> set (zip vs ws) \<Longrightarrow> size v < Suc (size_list size vs)"
  by (blast dest: set_zip_leftD size_item)

text \<open>No object has a member twice.\<close>

fun jv_ok :: "jv \<Rightarrow> bool" where
  "jv_ok (JvArray vs) = list_all jv_ok vs"
| "jv_ok (JvObject kvs) = (distinct (map fst kvs) \<and> list_all (\<lambda>(_, v). jv_ok v) kvs)"
| "jv_ok _ = True"

section \<open>Equality\<close>

fun jsonValuesEqual :: "jv \<Rightarrow> jv \<Rightarrow> bool" where
  "jsonValuesEqual (JvArray vs) (JvArray ws) =
     (length vs = length ws \<and> list_all (\<lambda>(v, w). jsonValuesEqual v w) (zip vs ws))"
| "jsonValuesEqual (JvObject kvs) (JvObject kws) =
     (length kvs = length kws
      \<and> list_all (\<lambda>(k, v). case map_of kws k of None \<Rightarrow> False | Some w \<Rightarrow> jsonValuesEqual v w) kvs)"
| "jsonValuesEqual v w = (v = w)"

definition isJsonRecord :: "jv \<Rightarrow> bool" where
  "isJsonRecord v = (case v of JvObject _ \<Rightarrow> True | _ \<Rightarrow> False)"

text \<open>The members of an object under a missing value, as \<open>MISSING\<close> of the source.\<close>

definition valuesEqual :: "jv option \<Rightarrow> jv option \<Rightarrow> bool" where
  "valuesEqual left right = (case (left, right) of
     (None, None) \<Rightarrow> True | (Some v, Some w) \<Rightarrow> jsonValuesEqual v w | _ \<Rightarrow> False)"

section \<open>The merge\<close>

text \<open>
  \<open>None\<close> is a failed merge. A merged entry is \<open>Some None\<close> when the member is to be missing. The loop over
  the keys of the three objects is \<open>merge_members\<close>.
\<close>

function (sequential) mergeValue :: "jv \<Rightarrow> jv \<Rightarrow> jv \<Rightarrow> jv option"
  and mergeEntry :: "jv option \<Rightarrow> jv option \<Rightarrow> jv option \<Rightarrow> jv option option"
  and merge_members :: "utf16 list \<Rightarrow> (utf16 \<times> jv) list \<Rightarrow> (utf16 \<times> jv) list \<Rightarrow> (utf16 \<times> jv) list
        \<Rightarrow> (utf16 \<times> jv) list \<Rightarrow> (utf16 \<times> jv) list option" where
  "mergeValue baseline loc rem =
     (if jsonValuesEqual loc baseline then Some rem
      else if jsonValuesEqual rem baseline \<or> jsonValuesEqual rem loc then Some loc
      else case (baseline, loc, rem) of
        (JvObject bs, JvObject ls, JvObject rs) \<Rightarrow>
          map_option JvObject
            (merge_members (new_Set (map fst bs @ map fst ls @ map fst rs)) bs ls rs [])
      | _ \<Rightarrow> None)"
| "mergeEntry baseline loc rem =
     (if valuesEqual loc baseline then Some rem
      else if valuesEqual rem baseline \<or> valuesEqual rem loc then Some loc
      else case (baseline, loc, rem) of
        (Some b, Some l, Some r) \<Rightarrow> map_option Some (mergeValue b l r)
      | _ \<Rightarrow> None)"
| "merge_members [] bs ls rs value = Some value"
| "merge_members (key # keys) bs ls rs value =
     (case mergeEntry (map_of bs key) (map_of ls key) (map_of rs key) of
        None \<Rightarrow> None
      | Some None \<Rightarrow> merge_members keys bs ls rs value
      | Some (Some v) \<Rightarrow> merge_members keys bs ls rs (AList.update key v value))"
  by pat_completeness auto

termination
proof (relation "measures
    [\<lambda>x. case x of Inl (b, _) \<Rightarrow> size b | Inr (Inl (b, _)) \<Rightarrow> (case b of None \<Rightarrow> 0 | Some v \<Rightarrow> size v)
         | Inr (Inr (_, bs, _)) \<Rightarrow> size (JvObject bs),
     \<lambda>x. case x of Inl _ \<Rightarrow> 1 | Inr (Inl _) \<Rightarrow> 2 | Inr (Inr _) \<Rightarrow> 0,
     \<lambda>x. case x of Inr (Inr (keys, _)) \<Rightarrow> length keys | _ \<Rightarrow> 0]", goal_cases)
  case (4 key keys bs ls rs acc)
  then show ?case by (cases "map_of bs key") (auto dest: size_map_of)
qed (auto split: option.splits)

declare mergeValue.simps [simp del] mergeEntry.simps [simp del]

section \<open>Values up to the order of members\<close>

datatype cv =
    CvNull
  | CvBool bool
  | CvNumber js_number
  | CvString utf16
  | CvArray "cv list"
  | CvObject "(utf16, cv) fmap"

fun canon :: "jv \<Rightarrow> cv" where
  "canon JvNull = CvNull"
| "canon (JvBool b) = CvBool b"
| "canon (JvNumber n) = CvNumber n"
| "canon (JvString s) = CvString s"
| "canon (JvArray vs) = CvArray (map canon vs)"
| "canon (JvObject kvs) = CvObject (fmap_of_list (map (\<lambda>(k, v). (k, canon v)) kvs))"

text \<open>What a value holds at a path through its objects.\<close>

fun at :: "cv option \<Rightarrow> utf16 list \<Rightarrow> cv option" where
  "at v [] = v"
| "at (Some (CvObject f)) (k # p) = at (fmlookup f k) p"
| "at _ (k # p) = None"

lemma at_None [simp]: "at None p = None"
  by (cases p) simp_all

lemma at_append: "at v (p @ q) = at (at v p) q"
  by (induction v p rule: at.induct) simp_all

lemma canon_member [simp]: "map_of (map (\<lambda>(k, v). (k, canon v)) kvs) k = map_option canon (map_of kvs k)"
  by (simp add: map_of_map)

lemma canon_eq_object: "canon v = CvObject f \<longleftrightarrow> (\<exists>kvs. v = JvObject kvs \<and> f = fmap_of_list (map (\<lambda>(k, v). (k, canon v)) kvs))"
  by (cases v) auto

lemma canon_scalar [simp]:
  "canon v = CvNull \<longleftrightarrow> v = JvNull" "canon v = CvBool b \<longleftrightarrow> v = JvBool b"
  "canon v = CvNumber n \<longleftrightarrow> v = JvNumber n" "canon v = CvString s \<longleftrightarrow> v = JvString s"
  "CvNull = canon v \<longleftrightarrow> v = JvNull" "CvBool b = canon v \<longleftrightarrow> v = JvBool b"
  "CvNumber n = canon v \<longleftrightarrow> v = JvNumber n" "CvString s = canon v \<longleftrightarrow> v = JvString s"
  by (cases v; auto)+

lemma jv_ok_member: "jv_ok (JvObject kvs) \<Longrightarrow> map_of kvs k = Some v \<Longrightarrow> jv_ok v"
  by (auto simp: list_all_iff dest: map_of_SomeD)

lemma members_equal:
  assumes "distinct (map fst kvs)" "distinct (map fst kws)"
  shows "(length kvs = length kws \<and> (\<forall>(k, v) \<in> set kvs. \<exists>w. map_of kws k = Some w \<and> f v = f w))
    \<longleftrightarrow> (\<lambda>k. map_option f (map_of kvs k)) = (\<lambda>k. map_option f (map_of kws k))" (is "?L \<longleftrightarrow> ?R")
proof
  assume L: ?L
  then have "set (map fst kvs) \<subseteq> set (map fst kws)" by (force dest: map_of_SomeD)
  moreover have "card (set (map fst kvs)) = card (set (map fst kws))"
    using L assms by (metis distinct_card length_map)
  ultimately have keys: "set (map fst kvs) = set (map fst kws)" by (simp add: card_subset_eq)
  show ?R
  proof
    fix k
    show "map_option f (map_of kvs k) = map_option f (map_of kws k)"
    proof (cases "map_of kvs k")
      case None
      then have "k \<notin> set (map fst kws)" using keys by (simp add: map_of_eq_None_iff)
      with None show ?thesis by (simp add: map_of_eq_None_iff [THEN iffD2])
    next
      case (Some v)
      then show ?thesis using L by (force dest: map_of_SomeD)
    qed
  qed
next
  assume R: ?R
  then have same: "map_option f (map_of kvs k) = map_option f (map_of kws k)" for k by metis
  then have "k \<in> set (map fst kvs) \<longleftrightarrow> k \<in> set (map fst kws)" for k
    by (metis map_of_eq_None_iff option.map_disc_iff set_map)
  then have "set (map fst kvs) = set (map fst kws)" by blast
  with assms have "length kvs = length kws" by (metis distinct_card length_map)
  moreover have "\<exists>w. map_of kws k = Some w \<and> f v = f w" if "(k, v) \<in> set kvs" for k v
    using same [of k] that assms(1) by (cases "map_of kws k") simp_all
  ultimately show ?L by blast
qed

lemma canon_objects_eq:
  "canon (JvObject kvs) = canon (JvObject kws) \<longleftrightarrow> (\<lambda>k. map_option canon (map_of kvs k)) = (\<lambda>k. map_option canon (map_of kws k))"
  by (simp add: fmlookup_inject [symmetric] fun_eq_iff fmlookup_of_list)

lemma jsonValuesEqual_canon: "jv_ok v \<Longrightarrow> jv_ok w \<Longrightarrow> jsonValuesEqual v w \<longleftrightarrow> canon v = canon w"
proof (induction v w rule: jsonValuesEqual.induct)
  case (1 vs ws)
  have "jsonValuesEqual a b \<longleftrightarrow> canon a = canon b" if "(a, b) \<in> set (zip vs ws)" for a b
    using 1(1) [OF that refl] 1(2,3) that by (auto simp: list_all_iff dest: set_zip_leftD set_zip_rightD)
  then show ?case by (auto simp: list_all_iff map_equality_iff list_eq_iff_zip_eq zip_map_map)
next
  case (2 kvs kws)
  have ok: "jv_ok v" if "(k, v) \<in> set kvs" for k v using 2(2) that by (auto simp: list_all_iff)
  have step: "jsonValuesEqual v w \<longleftrightarrow> canon v = canon w" if "(k, v) \<in> set kvs" "map_of kws k = Some w" for k v w
    using 2(1) [OF that(1) refl that(2)] ok [OF that(1)] jv_ok_member [OF 2(3) that(2)] by blast
  have "jsonValuesEqual (JvObject kvs) (JvObject kws)
      \<longleftrightarrow> length kvs = length kws \<and> (\<forall>(k, v) \<in> set kvs. \<exists>w. map_of kws k = Some w \<and> canon v = canon w)"
    using step by (auto simp: list_all_iff split: option.splits)
  also have "\<dots> \<longleftrightarrow> canon (JvObject kvs) = canon (JvObject kws)"
    using members_equal [of kvs kws canon] 2(2,3) by (simp add: canon_objects_eq del: canon.simps)
  finally show ?case .
qed auto

lemma valuesEqual_canon:
  "pred_option jv_ok v \<Longrightarrow> pred_option jv_ok w \<Longrightarrow> valuesEqual v w \<longleftrightarrow> map_option canon v = map_option canon w"
  by (cases v; cases w) (simp_all add: valuesEqual_def jsonValuesEqual_canon)

section \<open>What a merge has to deliver\<close>

text \<open>
  Among the values of baseline, local and remote at one path, the side that changed wins; equal changes
  agree; different changes are a conflict, unless all three are objects and the merge goes on inside.
\<close>

definition conflict :: "cv option \<Rightarrow> cv option \<Rightarrow> cv option \<Rightarrow> bool" where
  "conflict b l r = (l \<noteq> b \<and> r \<noteq> b \<and> r \<noteq> l \<and> \<not> (\<exists>f g h. b = Some (CvObject f) \<and> l = Some (CvObject g) \<and> r = Some (CvObject h)))"

definition three_way :: "cv option \<Rightarrow> cv option \<Rightarrow> cv option \<Rightarrow> cv option \<Rightarrow> bool" where
  "three_way b l r m =
     (if l = b then m = r else if r = b \<or> r = l then m = l else \<exists>f. m = Some (CvObject f))"

definition merged :: "cv option \<Rightarrow> cv option \<Rightarrow> cv option \<Rightarrow> cv option \<Rightarrow> bool" where
  "merged b l r m = (\<forall>p. \<not> conflict (at b p) (at l p) (at r p) \<and> three_way (at b p) (at l p) (at r p) (at m p))"

definition conflicting :: "cv option \<Rightarrow> cv option \<Rightarrow> cv option \<Rightarrow> bool" where
  "conflicting b l r = (\<exists>p. conflict (at b p) (at l p) (at r p))"

lemma merged_unchanged: "merged b b r r" "merged b l b l" "merged b l l l"
  by (auto simp: merged_def conflict_def three_way_def)

lemma merged_objects:
  assumes "\<And>k. merged (fmlookup f k) (fmlookup g k) (fmlookup h k) (fmlookup m k)" "g \<noteq> f" "h \<noteq> f" "h \<noteq> g"
  shows "merged (Some (CvObject f)) (Some (CvObject g)) (Some (CvObject h)) (Some (CvObject m))"
  unfolding merged_def
proof
  fix p
  show "\<not> conflict (at (Some (CvObject f)) p) (at (Some (CvObject g)) p) (at (Some (CvObject h)) p)
    \<and> three_way (at (Some (CvObject f)) p) (at (Some (CvObject g)) p) (at (Some (CvObject h)) p) (at (Some (CvObject m)) p)"
    using assms by (cases p) (auto simp: merged_def conflict_def three_way_def)
qed

lemma conflicting_member:
  "conflicting (fmlookup f k) (fmlookup g k) (fmlookup h k)
    \<Longrightarrow> conflicting (Some (CvObject f)) (Some (CvObject g)) (Some (CvObject h))"
  unfolding conflicting_def by (metis at.simps(2))

lemma merged_not_conflicting: "merged b l r m \<Longrightarrow> \<not> conflicting b l r"
  by (simp add: merged_def conflicting_def)

section \<open>The merge delivers it\<close>

definition value_merges :: "jv \<Rightarrow> jv \<Rightarrow> jv \<Rightarrow> bool" where
  "value_merges b l r = (case mergeValue b l r of
     None \<Rightarrow> conflicting (Some (canon b)) (Some (canon l)) (Some (canon r))
   | Some m \<Rightarrow> jv_ok m \<and> merged (Some (canon b)) (Some (canon l)) (Some (canon r)) (Some (canon m)))"

definition entry_merges :: "jv option \<Rightarrow> jv option \<Rightarrow> jv option \<Rightarrow> bool" where
  "entry_merges b l r = (case mergeEntry b l r of
     None \<Rightarrow> conflicting (map_option canon b) (map_option canon l) (map_option canon r)
   | Some m \<Rightarrow> pred_option jv_ok m
       \<and> merged (map_option canon b) (map_option canon l) (map_option canon r) (map_option canon m))"

lemma conflicting_here: "conflict b l r \<Longrightarrow> conflicting b l r"
  unfolding conflicting_def by (metis at.simps(1))

lemma entry_merges:
  assumes "\<And>bv lv rv. b = Some bv \<Longrightarrow> l = Some lv \<Longrightarrow> r = Some rv \<Longrightarrow> value_merges bv lv rv"
    and "pred_option jv_ok b" "pred_option jv_ok l" "pred_option jv_ok r"
  shows "entry_merges b l r"
proof (cases "valuesEqual l b \<or> valuesEqual r b \<or> valuesEqual r l")
  case True
  then show ?thesis using assms(2-)
    by (auto simp: entry_merges_def mergeEntry.simps valuesEqual_canon merged_unchanged)
next
  case different: False
  show ?thesis
  proof (cases "\<exists>bv lv rv. b = Some bv \<and> l = Some lv \<and> r = Some rv")
    case True
    then obtain bv lv rv where present: "b = Some bv" "l = Some lv" "r = Some rv" by blast
    with assms(1) have "value_merges bv lv rv" by blast
    then show ?thesis using different
      by (auto simp: present entry_merges_def mergeEntry.simps value_merges_def split: option.splits)
  next
    case False
    then have "mergeEntry b l r = None" using different
      by (auto simp: mergeEntry.simps split: option.splits)
    moreover have "conflict (map_option canon b) (map_option canon l) (map_option canon r)"
      using different False assms(2-) by (auto simp: conflict_def valuesEqual_canon)
    ultimately show ?thesis by (simp add: entry_merges_def conflicting_here)
  qed
qed

lemma merge_members_Some:
  assumes "merge_members ks bs ls rs acc = Some ms" "distinct ks" "distinct (map fst acc)" "set ks \<inter> fst ` set acc = {}"
  shows "distinct (map fst ms) \<and> (\<forall>k. if k \<in> set ks
    then mergeEntry (map_of bs k) (map_of ls k) (map_of rs k) = Some (map_of ms k) else map_of ms k = map_of acc k)"
  using assms
proof (induction ks arbitrary: acc)
  case (Cons key ks)
  obtain m where m: "mergeEntry (map_of bs key) (map_of ls key) (map_of rs key) = Some m"
    using Cons(2) by (auto split: option.splits)
  define acc' where "acc' = (case m of None \<Rightarrow> acc | Some v \<Rightarrow> AList.update key v acc)"
  have "merge_members ks bs ls rs acc' = Some ms" using Cons(2) m by (simp add: acc'_def split: option.splits)
  moreover have "distinct (map fst acc')" using Cons(4) by (simp add: acc'_def distinct_update split: option.splits)
  moreover have "set ks \<inter> fst ` set acc' = {}"
    using Cons(3,5) by (auto simp: acc'_def dom_update [simplified] split: option.splits)
  moreover have "map_of acc' k = (if k = key then m else map_of acc k)" for k
    using Cons(5) by (auto simp: acc'_def update_conv' map_of_eq_None_iff split: option.splits)
  ultimately show ?case using Cons.IH [of acc'] Cons(3) m by auto
qed simp

lemma merge_members_None:
  "merge_members ks bs ls rs acc = None \<Longrightarrow> \<exists>k \<in> set ks. mergeEntry (map_of bs k) (map_of ls k) (map_of rs k) = None"
  by (induction ks arbitrary: acc) (auto split: option.splits)

lemma mergeEntry_absent: "mergeEntry None None None = Some None"
  by (simp add: mergeEntry.simps valuesEqual_def)

lemma value_merges_objects:
  assumes members: "\<And>k. entry_merges (map_of bs k) (map_of ls k) (map_of rs k)"
    and ok: "jv_ok (JvObject bs)" "jv_ok (JvObject ls)" "jv_ok (JvObject rs)"
    and different: "\<not> jsonValuesEqual (JvObject ls) (JvObject bs)" "\<not> jsonValuesEqual (JvObject rs) (JvObject bs)"
      "\<not> jsonValuesEqual (JvObject rs) (JvObject ls)"
  shows "value_merges (JvObject bs) (JvObject ls) (JvObject rs)"
proof -
  define ks where "ks = new_Set (map fst bs @ map fst ls @ map fst rs)"
  have ks: "distinct ks" "set ks = fst ` set bs \<union> fst ` set ls \<union> fst ` set rs" by (auto simp: ks_def)
  have unfolded: "mergeValue (JvObject bs) (JvObject ls) (JvObject rs) = map_option JvObject (merge_members ks bs ls rs [])"
    using different by (simp add: mergeValue.simps ks_def del: jsonValuesEqual.simps)
  show ?thesis
  proof (cases "merge_members ks bs ls rs []")
    case None
    then obtain k where "mergeEntry (map_of bs k) (map_of ls k) (map_of rs k) = None" by (blast dest: merge_members_None)
    with members [of k] have "conflicting (map_option canon (map_of bs k)) (map_option canon (map_of ls k)) (map_option canon (map_of rs k))"
      by (simp add: entry_merges_def)
    then have "conflicting (Some (canon (JvObject bs))) (Some (canon (JvObject ls))) (Some (canon (JvObject rs)))"
      by (simp add: conflicting_member fmlookup_of_list)
    with None show ?thesis by (simp add: value_merges_def unfolded)
  next
    case (Some ms)
    have ms: "distinct (map fst ms)" and listed: "k \<in> set ks \<Longrightarrow> mergeEntry (map_of bs k) (map_of ls k) (map_of rs k) = Some (map_of ms k)"
      and other: "k \<notin> set ks \<Longrightarrow> map_of ms k = None" for k
      using merge_members_Some [OF Some ks(1)] by auto
    have absent: "map_of bs k = None" "map_of ls k = None" "map_of rs k = None" if "k \<notin> set ks" for k
      using that ks(2) by (simp_all add: map_of_eq_None_iff)
    have entry: "mergeEntry (map_of bs k) (map_of ls k) (map_of rs k) = Some (map_of ms k)" for k
      by (cases "k \<in> set ks") (simp_all add: listed other absent mergeEntry_absent)
    have good: "pred_option jv_ok (map_of ms k)" "merged (map_option canon (map_of bs k)) (map_option canon (map_of ls k))
        (map_option canon (map_of rs k)) (map_option canon (map_of ms k))" for k
      using members [of k] entry [of k] by (simp_all add: entry_merges_def)
    have "jv_ok v" if "(k, v) \<in> set ms" for k v using good(1) [of k] that ms by simp
    then have "jv_ok (JvObject ms)" using ms by (auto simp: list_all_iff)
    moreover have "merged (Some (canon (JvObject bs))) (Some (canon (JvObject ls))) (Some (canon (JvObject rs))) (Some (canon (JvObject ms)))"
      using different ok unfolding canon.simps
      by (intro merged_objects)
         (auto simp: fmlookup_of_list good(2) jsonValuesEqual_canon simp del: jsonValuesEqual.simps)
    ultimately show ?thesis using Some by (simp add: value_merges_def unfolded)
  qed
qed

lemma mergeValue_merges: "jv_ok b \<Longrightarrow> jv_ok l \<Longrightarrow> jv_ok r \<Longrightarrow> value_merges b l r"
proof (induction "size b" arbitrary: b l r rule: less_induct)
  case less
  show ?case
  proof (cases "jsonValuesEqual l b \<or> jsonValuesEqual r b \<or> jsonValuesEqual r l")
    case True
    then show ?thesis using less.prems
      by (auto simp: value_merges_def mergeValue.simps jsonValuesEqual_canon merged_unchanged)
  next
    case different: False
    show ?thesis
    proof (cases "\<exists>bs ls rs. b = JvObject bs \<and> l = JvObject ls \<and> r = JvObject rs")
      case True
      then obtain bs ls rs where obs: "b = JvObject bs" "l = JvObject ls" "r = JvObject rs" by blast
      have "entry_merges (map_of bs k) (map_of ls k) (map_of rs k)" for k
      proof (rule entry_merges)
        fix bv lv rv assume present: "map_of bs k = Some bv" "map_of ls k = Some lv" "map_of rs k = Some rv"
        then have "jv_ok bv" "jv_ok lv" "jv_ok rv" using less.prems by (auto simp: obs elim: jv_ok_member simp del: jv_ok.simps)
        moreover have "size bv < size b" using present(1) by (simp add: obs size_map_of)
        ultimately show "value_merges bv lv rv" using less.hyps by blast
      qed (use less.prems in \<open>auto simp: obs pred_option_def elim: jv_ok_member simp del: jv_ok.simps\<close>)
      with different show ?thesis using less.prems by (simp add: obs value_merges_objects del: jv_ok.simps jsonValuesEqual.simps)
    next
      case False
      then have "mergeValue b l r = None" using different by (auto simp: mergeValue.simps split: jv.splits)
      moreover have "conflict (Some (canon b)) (Some (canon l)) (Some (canon r))"
        using different False less.prems by (auto simp: conflict_def jsonValuesEqual_canon canon_eq_object)
      ultimately show ?thesis by (simp add: value_merges_def conflicting_here)
    qed
  qed
qed

text \<open>
  C13. A merge of JSON values takes, at every path through the objects at once, the value of the side that
  changed it since the baseline, and the common value where both made the same change; where different
  changes leave no such value there is an object, merged member by member. It fails exactly when somewhere the
  three values are all different and not all objects.
\<close>

theorem mergeValue_correct:
  assumes "jv_ok b" "jv_ok l" "jv_ok r"
  shows "case mergeValue b l r of
      Some m \<Rightarrow> jv_ok m \<and> (\<forall>p. \<not> conflict (at (Some (canon b)) p) (at (Some (canon l)) p) (at (Some (canon r)) p)
        \<and> three_way (at (Some (canon b)) p) (at (Some (canon l)) p) (at (Some (canon r)) p) (at (Some (canon m)) p))
    | None \<Rightarrow> \<exists>p. conflict (at (Some (canon b)) p) (at (Some (canon l)) p) (at (Some (canon r)) p)"
  using mergeValue_merges [OF assms] by (auto simp: value_merges_def merged_def conflicting_def split: option.splits)

end
