(* ===== verification/Collab_Schema.thy ===== *)
theory Collab_Schema
  imports Json_Merge Iso_Time
begin

text \<open>
  \<open>shared/collaboration/metadata-contracts.ts\<close> and the schemas of \<open>values.ts\<close> it uses: what a snapshot of a
  shared canvas is. A zod schema is a value of \<open>schema\<close>, read by \<open>parse\<close> as the library reads it: strict
  objects in the order of their shape, trimmed strings, bounds and refinements.
\<close>

section \<open>Schemas as values\<close>

datatype schema =
    SString bool "utf16 \<Rightarrow> bool"
  | SNumber "rat \<Rightarrow> bool"
  | SBool
  | SEnum "utf16 list"
  | SArray schema nat
  | SObject "(utf16 \<times> bool \<times> schema) list"
  | SRecord schema nat
  | SRefine schema "jv \<Rightarrow> bool"

text \<open>White space and line ends, as \<open>String.prototype.trim\<close> removes them.\<close>

definition is_blank :: "nat \<Rightarrow> bool" where
  "is_blank c = (9 \<le> c \<and> c \<le> 13 \<or> c \<in> {32, 160, 5760, 8232, 8233, 8239, 8287, 12288, 65279} \<or> 8192 \<le> c \<and> c \<le> 8202)"

definition trim_units :: "utf16 \<Rightarrow> utf16" where
  "trim_units s = rev (dropWhile is_blank (rev (dropWhile is_blank s)))"

definition number_value :: "js_number \<Rightarrow> rat" where
  "number_value n = (case n of Number q \<Rightarrow> q | NegativeZero \<Rightarrow> 0)"

lemma size_field [termination_simp]:
  "(k, opt, s) \<in> set fs \<Longrightarrow> size s < Suc (size_list (size_prod (\<lambda>_. 0) (size_prod (\<lambda>_. 0) size)) fs)"
  by (induction fs) auto

text \<open>A member marked \<open>True\<close> is optional.\<close>

fun parse :: "schema \<Rightarrow> jv \<Rightarrow> jv option" where
  "parse (SString trims P) (JvString s) =
     (let t = (if trims then trim_units s else s) in if P t then Some (JvString t) else None)"
| "parse (SNumber P) (JvNumber n) = (if P (number_value n) then Some (JvNumber n) else None)"
| "parse SBool (JvBool b) = Some (JvBool b)"
| "parse (SEnum xs) (JvString s) = (if s \<in> set xs then Some (JvString s) else None)"
| "parse (SArray s most) (JvArray vs) =
     (if length vs \<le> most then map_option JvArray (those (map (parse s) vs)) else None)"
| "parse (SRecord s most) (JvObject kvs) =
     (if length kvs \<le> most
      then map_option JvObject (those (map (\<lambda>(k, v). map_option (Pair k) (parse s v)) kvs)) else None)"
| "parse (SObject fs) (JvObject kvs) =
     (if list_all (\<lambda>(k, _). k \<in> fst ` set fs) kvs
      then map_option (\<lambda>parts. JvObject (concat parts))
        (those (map (\<lambda>(k, optional, s). case map_of kvs k of
             None \<Rightarrow> if optional then Some [] else None
           | Some v \<Rightarrow> map_option (\<lambda>w. [(k, w)]) (parse s v)) fs))
      else None)"
| "parse (SRefine s P) v = (case parse s v of None \<Rightarrow> None | Some w \<Rightarrow> if P w then Some w else None)"
| "parse _ _ = None"

section \<open>Values\<close>

definition alphanumeric :: "nat \<Rightarrow> bool" where
  "alphanumeric c = (48 \<le> c \<and> c \<le> 57 \<or> 65 \<le> c \<and> c \<le> 90 \<or> 97 \<le> c \<and> c \<le> 122)"

definition between :: "nat \<Rightarrow> nat \<Rightarrow> utf16 \<Rightarrow> bool" where
  "between least most s = (least \<le> length s \<and> length s \<le> most)"

definition identifier_ok :: "string \<Rightarrow> utf16 \<Rightarrow> bool" where
  "identifier_ok others s =
     (between 1 120 s \<and> alphanumeric (hd s) \<and> list_all (\<lambda>c. alphanumeric c \<or> c \<in> set (js others)) (tl s))"

definition CollaborationIdSchema :: schema where
  "CollaborationIdSchema = SString True (identifier_ok ''._:-'')"

definition CollaborationSubjectSchema :: schema where
  "CollaborationSubjectSchema = SString True (identifier_ok '':@._-'')"

definition CollaborationTimestampSchema :: schema where
  "CollaborationTimestampSchema = SString False (\<lambda>s. list_all (\<lambda>c. c < 256) s \<and> is_timestamp (map char_of s))"

definition hex_unit_ok :: "nat \<Rightarrow> bool" where
  "hex_unit_ok c = (48 \<le> c \<and> c \<le> 57 \<or> 65 \<le> c \<and> c \<le> 70 \<or> 97 \<le> c \<and> c \<le> 102)"

definition CollaborationColorSchema :: schema where
  "CollaborationColorSchema = SString False (\<lambda>s. length s = 7 \<and> hd s = 35 \<and> list_all hex_unit_ok (tl s))"

definition CollaborationLocalResourceIdSchema :: schema where
  "CollaborationLocalResourceIdSchema = SString False (\<lambda>s. length s = 36
     \<and> list_all (\<lambda>(i, c). if i \<in> {8, 13, 18, 23} then c = 45 else hex_unit_ok c) (enumerate 0 s))"

definition title_text :: "nat \<Rightarrow> schema" where
  "title_text most = SString True (between 1 most)"

definition one_of :: "string list \<Rightarrow> schema" where
  "one_of xs = SEnum (map js xs)"

definition finite_number :: schema where
  "finite_number = SNumber (\<lambda>_. True)"

definition whole :: "rat \<Rightarrow> bool" where
  "whole q = (of_int \<lfloor>q\<rfloor> = q)"

definition required :: "string \<Rightarrow> schema \<Rightarrow> utf16 \<times> bool \<times> schema" where
  "required k s = (js k, False, s)"

definition optional :: "string \<Rightarrow> schema \<Rightarrow> utf16 \<times> bool \<times> schema" where
  "optional k s = (js k, True, s)"

section \<open>Reading members\<close>

definition members :: "jv \<Rightarrow> (utf16 \<times> jv) list" where
  "members v = (case v of JvObject kvs \<Rightarrow> kvs | _ \<Rightarrow> [])"

definition field :: "string \<Rightarrow> jv \<Rightarrow> jv option" where
  "field k v = map_of (members v) (js k)"

definition text_field :: "string \<Rightarrow> jv \<Rightarrow> utf16 option" where
  "text_field k v = (case field k v of Some (JvString s) \<Rightarrow> Some s | _ \<Rightarrow> None)"

definition texts_field :: "string \<Rightarrow> jv \<Rightarrow> utf16 list" where
  "texts_field k v = (case field k v of
     Some (JvArray vs) \<Rightarrow> concat (map (\<lambda>v. case v of JvString s \<Rightarrow> [s] | _ \<Rightarrow> []) vs) | _ \<Rightarrow> [])"

definition record_of :: "string \<Rightarrow> jv \<Rightarrow> (utf16 \<times> jv) list" where
  "record_of k v = (case field k v of Some w \<Rightarrow> members w | None \<Rightarrow> [])"

section \<open>The parts of a snapshot\<close>

definition PositionSchema :: schema where
  "PositionSchema = SObject [required ''x'' finite_number, required ''y'' finite_number]"

definition SizeSchema :: schema where
  "SizeSchema = SObject [required ''width'' (SNumber (\<lambda>q. 0 < q)), required ''height'' (SNumber (\<lambda>q. 0 < q))]"

text \<open>The least zoom is the double nearest to 0.05.\<close>

definition CollaborationCanvasMetadataSchema :: schema where
  "CollaborationCanvasMetadataSchema = SObject
     [required ''id'' CollaborationIdSchema, required ''title'' (title_text 160),
      required ''version'' (SNumber (\<lambda>q. whole q \<and> 0 \<le> q)), required ''updatedAt'' CollaborationTimestampSchema,
      optional ''viewport'' PositionSchema,
      optional ''zoom'' (SNumber (\<lambda>q. 3602879701896397 / 72057594037927936 \<le> q \<and> q \<le> 8)),
      optional ''theme'' (one_of [''light'', ''dark'', ''system''])]"

definition CollaborationNodeTypeSchema :: schema where
  "CollaborationNodeTypeSchema = one_of
     [''agent'', ''product-brief'', ''task'', ''file'', ''video'', ''diff-review'', ''terminal'', ''web-preview'',
      ''mobile-preview'', ''test'', ''review-gate'', ''git-pr'', ''diagram'', ''whiteboard'', ''note-image'',
      ''text'', ''group-frame'']"

definition CollaborationNodeStatusSchema :: schema where
  "CollaborationNodeStatusSchema = one_of
     [''idle'', ''queued'', ''running'', ''waiting-for-approval'', ''paused'', ''cancelling'', ''failed'',
      ''succeeded'', ''cancelled'', ''lost'', ''unavailable'']"

definition CollaborationFileAvailabilitySchema :: schema where
  "CollaborationFileAvailabilitySchema = one_of [''local'', ''metadata-only'', ''unavailable'']"

definition node_refinement :: "jv \<Rightarrow> bool" where
  "node_refinement node =
     (let is_file = (text_field ''type'' node = Some (js ''file'')) in
      (is_file \<or> field ''localResourceId'' node = None \<and> field ''availability'' node = None)
      \<and> (is_file \<longrightarrow> field ''availability'' node \<noteq> None))"

definition CollaborationNodeMetadataSchema :: schema where
  "CollaborationNodeMetadataSchema = SRefine (SObject
     [required ''id'' CollaborationIdSchema, required ''type'' CollaborationNodeTypeSchema,
      required ''title'' (title_text 160), required ''position'' PositionSchema, optional ''size'' SizeSchema,
      optional ''color'' CollaborationColorSchema, optional ''icon'' (title_text 40),
      optional ''status'' CollaborationNodeStatusSchema, optional ''locked'' SBool, optional ''collapsed'' SBool,
      optional ''groupId'' CollaborationIdSchema, optional ''assigneeId'' CollaborationSubjectSchema,
      optional ''taskId'' CollaborationIdSchema, optional ''order'' finite_number,
      optional ''localResourceId'' CollaborationLocalResourceIdSchema,
      optional ''availability'' CollaborationFileAvailabilitySchema,
      optional ''createdAt'' CollaborationTimestampSchema, optional ''updatedAt'' CollaborationTimestampSchema])
     node_refinement"

definition CollaborationEdgeMetadataSchema :: schema where
  "CollaborationEdgeMetadataSchema = SObject
     [required ''id'' CollaborationIdSchema, required ''sourceId'' CollaborationIdSchema,
      required ''targetId'' CollaborationIdSchema,
      required ''type'' (one_of [''context'', ''execute'', ''output'', ''review'', ''revision'', ''dependency'']),
      optional ''status'' (one_of [''idle'', ''queued'', ''active'', ''blocked'', ''succeeded'', ''failed'', ''cancelled'']),
      optional ''label'' (SString False (between 0 240)),
      optional ''createdAt'' CollaborationTimestampSchema, optional ''updatedAt'' CollaborationTimestampSchema]"

definition CollaborationGroupMetadataSchema :: schema where
  "CollaborationGroupMetadataSchema = SObject
     [required ''id'' CollaborationIdSchema, required ''title'' (title_text 160),
      required ''position'' PositionSchema, required ''size'' SizeSchema, optional ''color'' CollaborationColorSchema,
      optional ''locked'' SBool, optional ''collapsed'' SBool,
      optional ''purpose'' (one_of [''product-surface'', ''workflow-stage'', ''feature-area'', ''custom'']),
      optional ''layout'' (one_of [''freeform'', ''horizontal'', ''vertical'', ''grid'']),
      optional ''autoFit'' SBool, optional ''order'' finite_number,
      optional ''createdAt'' CollaborationTimestampSchema, optional ''updatedAt'' CollaborationTimestampSchema]"

definition CollaborationTaskMetadataSchema :: schema where
  "CollaborationTaskMetadataSchema = SObject
     [required ''id'' CollaborationIdSchema, required ''title'' (title_text 200),
      optional ''priority'' (one_of [''low'', ''normal'', ''high'', ''urgent'']),
      optional ''assigneeId'' CollaborationSubjectSchema,
      required ''status'' (one_of [''backlog'', ''ready'', ''running'', ''blocked'', ''review'', ''done'', ''cancelled'']),
      optional ''dependencyIds'' (SArray CollaborationIdSchema 100),
      optional ''acceptanceState'' (one_of [''not-checked'', ''passed'', ''failed'']),
      optional ''order'' finite_number,
      optional ''createdAt'' CollaborationTimestampSchema, optional ''updatedAt'' CollaborationTimestampSchema]"

definition CollaborationCommentMetadataSchema :: schema where
  "CollaborationCommentMetadataSchema = SObject
     [required ''id'' CollaborationIdSchema, optional ''nodeId'' CollaborationIdSchema,
      optional ''taskId'' CollaborationIdSchema, required ''authorId'' CollaborationSubjectSchema,
      required ''body'' (title_text 4000), optional ''resolved'' SBool, optional ''replyToId'' CollaborationIdSchema,
      required ''createdAt'' CollaborationTimestampSchema, optional ''updatedAt'' CollaborationTimestampSchema]"

definition CollaborationWorkflowMetadataSchema :: schema where
  "CollaborationWorkflowMetadataSchema = SObject
     [required ''id'' CollaborationIdSchema, optional ''nodeId'' CollaborationIdSchema,
      optional ''runId'' CollaborationIdSchema,
      required ''status'' (one_of [''queued'', ''running'', ''waiting-for-approval'', ''paused'', ''cancelling'',
        ''failed'', ''succeeded'', ''cancelled'', ''lost'']),
      optional ''attempt'' (SNumber (\<lambda>q. whole q \<and> 0 \<le> q)),
      optional ''maxAttempts'' (SNumber (\<lambda>q. whole q \<and> 1 \<le> q \<and> q \<le> 100)),
      optional ''startedAt'' CollaborationTimestampSchema, optional ''completedAt'' CollaborationTimestampSchema,
      required ''updatedAt'' CollaborationTimestampSchema]"

definition CollaborationReviewMetadataSchema :: schema where
  "CollaborationReviewMetadataSchema = SObject
     [required ''id'' CollaborationIdSchema, required ''nodeId'' CollaborationIdSchema,
      required ''reviewerId'' CollaborationSubjectSchema,
      required ''status'' (one_of [''pending'', ''changes-requested'', ''approved'', ''dismissed'']),
      optional ''commentIds'' (SArray CollaborationIdSchema 500),
      required ''createdAt'' CollaborationTimestampSchema, optional ''updatedAt'' CollaborationTimestampSchema]"

section \<open>Snapshots\<close>

text \<open>
  Reading a member that an object does not have finds what it inherits: the names of \<open>Object.prototype\<close>
  that are identifiers are never \<open>undefined\<close>.
\<close>

definition inherited_names :: "utf16 list" where
  "inherited_names = map js [''constructor'', ''hasOwnProperty'', ''isPrototypeOf'', ''propertyIsEnumerable'',
     ''toLocaleString'', ''toString'', ''valueOf'']"

definition defined_in :: "(utf16 \<times> jv) list \<Rightarrow> utf16 \<Rightarrow> bool" where
  "defined_in records i = (map_of records i \<noteq> None \<or> i \<in> set inherited_names)"

definition assertRecordIdentities :: "(utf16 \<times> jv) list \<Rightarrow> bool" where
  "assertRecordIdentities records = list_all (\<lambda>(recordId, r). text_field ''id'' r = Some recordId) records"

definition refers :: "string \<Rightarrow> (utf16 \<times> jv) list \<Rightarrow> jv \<Rightarrow> bool" where
  "refers k records r = (case text_field k r of None \<Rightarrow> True | Some i \<Rightarrow> defined_in records i)"

definition all_refer :: "string \<Rightarrow> (utf16 \<times> jv) list \<Rightarrow> jv \<Rightarrow> bool" where
  "all_refer k records r = list_all (defined_in records) (texts_field k r)"

definition snapshot_refinement :: "jv \<Rightarrow> bool" where
  "snapshot_refinement s =
     (let nodes = record_of ''nodes'' s; edges = record_of ''edges'' s; groups = record_of ''groups'' s;
          tasks = record_of ''tasks'' s; comments = record_of ''comments'' s; workflow = record_of ''workflow'' s;
          reviews = record_of ''reviews'' s in
      list_all assertRecordIdentities [nodes, edges, groups, tasks, comments, workflow, reviews]
      \<and> list_all (\<lambda>(_, e). refers ''sourceId'' nodes e \<and> refers ''targetId'' nodes e) edges
      \<and> list_all (\<lambda>(_, n). refers ''groupId'' groups n \<and> refers ''taskId'' tasks n) nodes
      \<and> list_all (\<lambda>(taskId, t). (case map_of nodes taskId of
            None \<Rightarrow> False | Some n \<Rightarrow> text_field ''type'' n = Some (js ''task''))
          \<and> all_refer ''dependencyIds'' tasks t) tasks
      \<and> list_all (\<lambda>(_, c). refers ''nodeId'' nodes c \<and> refers ''taskId'' tasks c \<and> refers ''replyToId'' comments c) comments
      \<and> list_all (\<lambda>(_, w). refers ''nodeId'' nodes w) workflow
      \<and> list_all (\<lambda>(_, r). refers ''nodeId'' nodes r \<and> all_refer ''commentIds'' comments r) reviews)"

definition snapshot_base :: schema where
  "snapshot_base = SObject
     [required ''canvas'' CollaborationCanvasMetadataSchema,
      required ''nodes'' (SRecord CollaborationNodeMetadataSchema 10000),
      required ''edges'' (SRecord CollaborationEdgeMetadataSchema 50000),
      required ''groups'' (SRecord CollaborationGroupMetadataSchema 5000),
      required ''tasks'' (SRecord CollaborationTaskMetadataSchema 10000),
      required ''comments'' (SRecord CollaborationCommentMetadataSchema 50000),
      required ''workflow'' (SRecord CollaborationWorkflowMetadataSchema 10000),
      required ''reviews'' (SRecord CollaborationReviewMetadataSchema 50000)]"

definition CollaborationMetadataSnapshotSchema :: schema where
  "CollaborationMetadataSnapshotSchema = SRefine snapshot_base snapshot_refinement"

end
