(* ===== verification/Collab_Sync.thy ===== *)
theory Collab_Sync
  imports Collab_Schema "HOL-Library.List_Lexorder"
begin

text \<open>
  \<open>sync/three-way.ts\<close> of the desktop renderer on whole snapshots, with \<open>shared/collaboration/sync/comment-intent.ts\<close>
  and \<open>rejected-comments.ts\<close>: merging what this device changed into the shared room, deciding whether the
  room already holds it, and recognising changes that only add comments.

  Arguments of type \<open>CollaborationMetadataSnapshot\<close> are values with a canvas of a version and a time stamp;
  on others, which the types of the source exclude, the operations fail.
\<close>

section \<open>The revision of a canvas\<close>

definition set_member :: "string \<Rightarrow> jv \<Rightarrow> jv \<Rightarrow> jv" where
  "set_member k v ob = JvObject (AList.update (js k) v (members ob))"

definition revision_of :: "jv \<Rightarrow> (js_number \<times> utf16) option" where
  "revision_of s = (case field ''canvas'' s of
     None \<Rightarrow> None
   | Some c \<Rightarrow>
       (case (field ''version'' c, field ''updatedAt'' c) of
          (Some (JvNumber n), Some (JvString t)) \<Rightarrow> Some (n, t) | _ \<Rightarrow> None))"

definition with_revision :: "js_number \<Rightarrow> utf16 \<Rightarrow> jv \<Rightarrow> jv" where
  "with_revision n t s = (case field ''canvas'' s of
     None \<Rightarrow> s
   | Some c \<Rightarrow> set_member ''canvas'' (set_member ''updatedAt'' (JvString t) (set_member ''version'' (JvNumber n) c)) s)"

text \<open>Every \<open>updatedAt\<close> that carries the time stamp of the canvas gets the one of the baseline.\<close>

fun normalizeDerivedCanvasTimestamps :: "utf16 \<Rightarrow> utf16 \<Rightarrow> jv \<Rightarrow> jv" where
  "normalizeDerivedCanvasTimestamps t u (JvArray vs) = JvArray (map (normalizeDerivedCanvasTimestamps t u) vs)"
| "normalizeDerivedCanvasTimestamps t u (JvObject kvs) =
     JvObject (map (\<lambda>(k, v). (k, if k = js ''updatedAt'' \<and> v = JvString t then JvString u
       else normalizeDerivedCanvasTimestamps t u v)) kvs)"
| "normalizeDerivedCanvasTimestamps t u v = v"

definition normalizedCanvasRevision :: "utf16 \<Rightarrow> js_number \<times> utf16 \<Rightarrow> jv \<Rightarrow> jv" where
  "normalizedCanvasRevision updatedAt baseline snapshot =
     with_revision (fst baseline) (snd baseline) (normalizeDerivedCanvasTimestamps updatedAt (snd baseline) snapshot)"

section \<open>Merging the intent\<close>

definition Math_max :: "js_number \<Rightarrow> js_number \<Rightarrow> js_number" where
  "Math_max a b = (if number_value a < number_value b then b else if number_value b < number_value a then a
     else if a = NegativeZero then b else a)"

definition latest :: "utf16 list \<Rightarrow> utf16" where
  "latest ts = last (sort ts)"

definition merge_result :: "jv \<Rightarrow> js_number \<Rightarrow> utf16 \<Rightarrow> jv option" where
  "merge_result m n t =
     (if isJsonRecord m \<and> (case field ''canvas'' m of None \<Rightarrow> False | Some c \<Rightarrow> isJsonRecord c)
      then parse CollaborationMetadataSnapshotSchema (with_revision n t m) else None)"

definition mergeCollaborationIntent :: "jv option \<Rightarrow> jv \<Rightarrow> jv option \<Rightarrow> jv option" where
  "mergeCollaborationIntent baseline pending remote =
     (case baseline of
        None \<Rightarrow>
          (case remote of
             None \<Rightarrow> Some pending
           | Some r \<Rightarrow> if jsonValuesEqual r pending then Some pending else None)
      | Some b \<Rightarrow>
          (case remote of
             None \<Rightarrow> None
           | Some r \<Rightarrow>
               (case (revision_of b, revision_of pending, revision_of r) of
                  (Some (bn, bt), Some (pn, pt), Some (rn, rt)) \<Rightarrow>
                    (case mergeValue (normalizedCanvasRevision bt (bn, bt) b) (normalizedCanvasRevision pt (bn, bt) pending)
                        (normalizedCanvasRevision rt (bn, bt) r) of
                       None \<Rightarrow> None
                     | Some m \<Rightarrow> merge_result m (Math_max bn (Math_max pn rn)) (latest [bt, pt, rt]))
                | _ \<Rightarrow> None)))"

definition snapshotsEqualIgnoringCanvasRevision :: "jv \<Rightarrow> jv \<Rightarrow> bool" where
  "snapshotsEqualIgnoringCanvasRevision left right =
     (case (revision_of left, revision_of right) of
        (Some (_, lt), Some (rn, rt)) \<Rightarrow>
          jsonValuesEqual (normalizedCanvasRevision lt (rn, rt) left) (normalizedCanvasRevision rt (rn, rt) right)
      | _ \<Rightarrow> False)"

definition collaborationIntentSurvives :: "jv \<Rightarrow> jv \<Rightarrow> jv \<Rightarrow> bool" where
  "collaborationIntentSurvives baseline loc remote =
     (case mergeCollaborationIntent (Some baseline) loc (Some remote) of
        None \<Rightarrow> False | Some s \<Rightarrow> snapshotsEqualIgnoringCanvasRevision s remote)"

section \<open>Changes that only add comments\<close>

record comment_recovery =
  cr_commentOnly :: bool
  cr_additions :: "jv list"
  cr_missing :: "jv list"
  cr_conflictingIds :: "utf16 list"
  cr_satisfied :: bool

text \<open>A comment record under an identifier, or what an object inherits under that name.\<close>

datatype looked_up = Own jv | Inherited | Undefined

definition look_up :: "(utf16 \<times> jv) list \<Rightarrow> utf16 \<Rightarrow> looked_up" where
  "look_up records i = (case map_of records i of
     Some v \<Rightarrow> Own v | None \<Rightarrow> if i \<in> set inherited_names then Inherited else Undefined)"

definition same_as :: "looked_up \<Rightarrow> jv \<Rightarrow> bool" where
  "same_as l v = (case l of Own w \<Rightarrow> jsonValuesEqual w v | _ \<Rightarrow> False)"

definition comment_id :: "jv \<Rightarrow> utf16" where
  "comment_id c = (case text_field ''id'' c of Some i \<Rightarrow> i | None \<Rightarrow> [])"

definition withoutComments :: "jv \<Rightarrow> jv" where
  "withoutComments s = set_member ''comments'' (JvObject []) s"

definition comment_additions :: "(utf16 \<times> jv) list \<Rightarrow> jv \<Rightarrow> utf16 \<Rightarrow> jv list" where
  "comment_additions baselineComments pending subject =
     filter (\<lambda>c. look_up baselineComments (comment_id c) = Undefined \<and> text_field ''authorId'' c = Some subject)
       (map snd (record_of ''comments'' pending))"

definition changed_only_by_additions :: "jv \<Rightarrow> jv \<Rightarrow> utf16 \<Rightarrow> jv list \<Rightarrow> bool" where
  "changed_only_by_additions baseline pending subject additions =
     (list_all (\<lambda>(i, c). same_as (look_up (record_of ''comments'' pending) i) c) (record_of ''comments'' baseline)
      \<and> list_all (\<lambda>(_, c). look_up (record_of ''comments'' baseline) (comment_id c) \<noteq> Undefined
            \<or> text_field ''authorId'' c = Some subject \<and> comment_id c \<in> comment_id ` set additions)
          (record_of ''comments'' pending))"

definition analyzeCollaborationCommentRecovery :: "jv option \<Rightarrow> jv \<Rightarrow> jv \<Rightarrow> utf16 \<Rightarrow> comment_recovery" where
  "analyzeCollaborationCommentRecovery baseline pending remote subject =
     (let baselineComments = (case baseline of None \<Rightarrow> [] | Some b \<Rightarrow> record_of ''comments'' b);
          additions = comment_additions baselineComments pending subject;
          current = (\<lambda>c. look_up (record_of ''comments'' remote) (comment_id c));
          missing = filter (\<lambda>c. current c = Undefined) additions;
          conflictingIds = map comment_id (filter (\<lambda>c. current c \<noteq> Undefined \<and> \<not> same_as (current c) c) additions);
          commentOnly = (case baseline of None \<Rightarrow> False | Some b \<Rightarrow>
            changed_only_by_additions b pending subject additions
            \<and> jsonValuesEqual (withoutComments b) (withoutComments pending)) in
      \<lparr> cr_commentOnly = commentOnly, cr_additions = additions, cr_missing = missing, cr_conflictingIds = conflictingIds,
        cr_satisfied = (commentOnly \<and> missing = [] \<and> conflictingIds = []) \<rparr>)"

definition rejectedCommentsAfterAcknowledgement :: "jv list \<Rightarrow> (utf16 \<times> jv) list \<Rightarrow> jv list" where
  "rejectedCommentsAfterAcknowledgement rejected candidate =
     filter (\<lambda>c. \<not> same_as (look_up candidate (comment_id c)) c) rejected"

end
