(* ===== verification/Collab_Merge.thy ===== *)
theory Collab_Merge
  imports Collab_Sync
begin

text \<open>
  What the merge of shared snapshots and the recovery of comments deliver: every edit of either side is in
  the result, an intent said to survive is in the room, and reading a snapshot with its schema changes
  nothing in what was merged.
\<close>

section \<open>Paths\<close>

fun jat :: "jv option \<Rightarrow> utf16 list \<Rightarrow> jv option" where
  "jat v [] = v"
| "jat (Some (JvObject kvs)) (k # p) = jat (map_of kvs k) p"
| "jat _ (k # p) = None"

lemma jat_None [simp]: "jat None p = None"
  by (cases p) simp_all

lemma at_canon: "at (map_option canon v) p = map_option canon (jat v p)"
proof (induction v p rule: jat.induct)
  case (2 kvs k p)
  then show ?case by (simp add: fmlookup_of_list)
qed auto

lemma at_canon_Some: "at (Some (canon v)) p = map_option canon (jat (Some v) p)"
  using at_canon [of "Some v" p] by simp

lemma jat_append: "jat v (p @ q) = jat (jat v p) q"
  by (induction v p rule: jat.induct) simp_all

section \<open>Reading with a schema\<close>

text \<open>The strings a schema trims are trimmed.\<close>

fun clean :: "schema \<Rightarrow> cv \<Rightarrow> bool" where
  "clean (SString trims P) (CvString s) = (trims \<longrightarrow> trim_units s = s)"
| "clean (SArray s _) (CvArray vs) = list_all (clean s) vs"
| "clean (SRecord s _) (CvObject f) = (\<forall>k v. fmlookup f k = Some v \<longrightarrow> clean s v)"
| "clean (SObject fs) (CvObject f) = (\<forall>(k, opt, s) \<in> set fs. \<forall>v. fmlookup f k = Some v \<longrightarrow> clean s v)"
| "clean (SRefine s P) v = clean s v"
| "clean _ _ = True"

fun schema_ok :: "schema \<Rightarrow> bool" where
  "schema_ok (SArray s _) = schema_ok s"
| "schema_ok (SRecord s _) = schema_ok s"
| "schema_ok (SObject fs) = (distinct (map fst fs) \<and> (\<forall>(k, opt, s) \<in> set fs. schema_ok s))"
| "schema_ok (SRefine s P) = schema_ok s"
| "schema_ok _ = True"

lemma trim_units_idem: "trim_units (trim_units s) = trim_units s"
proof -
  have drop_rev: "dropWhile P (rev (dropWhile P (rev t))) = rev (dropWhile P (rev t))" if "dropWhile P t = t" for P and t :: utf16
  proof (cases "dropWhile P (rev t)")
    case (Cons x xs)
    obtain ys where ys: "rev t = ys @ dropWhile P (rev t)" by (metis takeWhile_dropWhile_id)
    show ?thesis
    proof (cases t)
      case (Cons y ts)
      then have y: "\<not> P y" using that by (metis dropWhile_eq_self_iff list.sel(1) list.discI)
      have "t = rev (dropWhile P (rev t)) @ rev ys" by (metis ys rev_append rev_rev_ident)
      then have "hd (rev (dropWhile P (rev t))) = y" using Cons \<open>dropWhile P (rev t) = x # xs\<close>
        by (metis append_is_Nil_conv hd_append list.sel(1) rev_is_Nil_conv list.discI)
      then show ?thesis using y \<open>dropWhile P (rev t) = x # xs\<close>
        by (metis dropWhile_eq_self_iff)
    qed simp
  next
    case Nil
    show ?thesis unfolding Nil by simp
  qed
  have idem: "dropWhile P (dropWhile P xs) = dropWhile P xs" for P and xs :: utf16
    using hd_dropWhile [of P xs] by (auto simp: dropWhile_eq_self_iff)
  define t where "t = dropWhile is_blank s"
  have t: "dropWhile is_blank t = t" by (simp add: t_def idem)
  have "dropWhile is_blank (rev (dropWhile is_blank (rev t))) = rev (dropWhile is_blank (rev t))" by (rule drop_rev [OF t])
  then show ?thesis by (simp add: trim_units_def t_def idem)
qed

lemma those_Some: "those (map f xs) = Some ys \<Longrightarrow> list_all2 (\<lambda>x y. f x = Some y) xs ys"
  by (induction xs arbitrary: ys) (auto split: option.splits)

lemma clean_optional [simp]: "clean s (CvString t) \<Longrightarrow> clean (SRefine s P) (CvString t)"
  by simp

lemma parsed_array:
  assumes "list_all2 (\<lambda>v w. parse s v = Some w) vs ws" "\<And>v w. v \<in> set vs \<Longrightarrow> parse s v = Some w \<Longrightarrow> jv_ok w \<and> clean s (canon w)
      \<and> (clean s (canon v) \<longrightarrow> canon w = canon v)"
  shows "list_all jv_ok ws \<and> list_all (clean s) (map canon ws) \<and> (list_all (clean s) (map canon vs) \<longrightarrow> map canon ws = map canon vs)"
  using assms by (induction rule: list_all2_induct) auto

lemma parsed_record:
  assumes "list_all2 (\<lambda>x y. map_option (Pair (fst x)) (parse s (snd x)) = Some y) kvs ws"
    "\<And>x w. x \<in> set kvs \<Longrightarrow> parse s (snd x) = Some w
      \<Longrightarrow> jv_ok w \<and> clean s (canon w) \<and> (clean s (canon (snd x)) \<longrightarrow> canon w = canon (snd x))"
  shows "map fst ws = map fst kvs \<and> list_all (\<lambda>(_, v). jv_ok v \<and> clean s (canon v)) ws
    \<and> (list_all (\<lambda>(_, v). clean s (canon v)) kvs \<longrightarrow> map (\<lambda>(k, v). (k, canon v)) ws = map (\<lambda>(k, v). (k, canon v)) kvs)"
  using assms
proof (induction rule: list_all2_induct)
  case (Cons x xs y ys)
  obtain w where w: "parse s (snd x) = Some w" "y = (fst x, w)" using Cons.hyps(1) by auto
  have "jv_ok w \<and> clean s (canon w) \<and> (clean s (canon (snd x)) \<longrightarrow> canon w = canon (snd x))"
    using Cons.prems [OF _ w(1)] by simp
  then show ?case using Cons.IH Cons.prems by (auto simp: w(2) case_prod_beta)
qed simp

text \<open>The members of an object read with a strict shape: each part has at most the member of its field.\<close>

lemma parsed_members:
  assumes "list_all2 (\<lambda>x y. (case x of (k, opt, s) \<Rightarrow> case map_of kvs k of None \<Rightarrow> if opt then Some [] else None
      | Some v \<Rightarrow> map_option (\<lambda>w. [(k, w)]) (parse s v)) = Some y) fs parts" "distinct (map fst fs)"
  shows "map_of (concat parts) k = (case map_of fs k of None \<Rightarrow> None
      | Some (opt, s) \<Rightarrow> (case map_of kvs k of None \<Rightarrow> None | Some v \<Rightarrow> parse s v))
    \<and> distinct (map fst (concat parts)) \<and> fst ` set (concat parts) \<subseteq> fst ` set fs
    \<and> (\<forall>(k, opt, s) \<in> set fs. \<forall>v. map_of kvs k = Some v \<longrightarrow> parse s v \<noteq> None)"
  using assms
proof (induction fs parts rule: list_all2_induct)
  case (Cons x fs y parts)
  obtain k' opt s where x: "x = (k', opt, s)" by (cases x)
  have rest: "map_of (concat parts) k = (case map_of fs k of None \<Rightarrow> None
      | Some (opt, s) \<Rightarrow> (case map_of kvs k of None \<Rightarrow> None | Some v \<Rightarrow> parse s v))"
    "distinct (map fst (concat parts))" "fst ` set (concat parts) \<subseteq> fst ` set fs"
    "\<forall>(k, opt, s) \<in> set fs. \<forall>v. map_of kvs k = Some v \<longrightarrow> parse s v \<noteq> None"
    using Cons.IH Cons.prems by simp_all
  have new: "k' \<notin> fst ` set fs" "map_of fs k' = None" using Cons.prems by (simp_all add: x map_of_eq_None_iff)
  show ?case
  proof (cases "map_of kvs k'")
    case None
    have "y = []" using Cons.hyps(1) None by (simp add: x split: if_splits)
    show ?thesis using rest new by (auto simp: x \<open>y = []\<close> None)
  next
    case (Some v)
    then obtain w where w: "parse s v = Some w" "y = [(k', w)]" using Cons.hyps(1) by (auto simp: x)
    show ?thesis using rest new by (auto simp: x w Some)
  qed
qed simp

lemma parse_keeps:
  "parse s v = Some w \<Longrightarrow> schema_ok s \<Longrightarrow> jv_ok v
    \<Longrightarrow> jv_ok w \<and> clean s (canon w) \<and> (clean s (canon v) \<longrightarrow> canon w = canon v)"
proof (induction s v arbitrary: w rule: parse.induct)
  case (1 trims P s)
  then show ?case by (auto simp: Let_def trim_units_idem split: if_splits)
next
  case (5 s most vs)
  then obtain ws where ws: "w = JvArray ws" "list_all2 (\<lambda>v w. parse s v = Some w) vs ws"
    by (auto dest: those_Some split: if_splits)
  have "jv_ok w' \<and> clean s (canon w') \<and> (clean s (canon v) \<longrightarrow> canon w' = canon v)" if "v \<in> set vs" "parse s v = Some w'" for v w'
    using 5 that by (auto simp: list_all_iff split: if_splits)
  from parsed_array [OF ws(2) this] show ?case by (simp add: ws(1))
next
  case (6 s most kvs)
  then obtain ws where ws: "w = JvObject ws" "list_all2 (\<lambda>x y. map_option (Pair (fst x)) (parse s (snd x)) = Some y) kvs ws"
    by (auto dest!: those_Some simp: case_prod_beta split: if_splits simp del: map_option_eq_Some)
  have "jv_ok w' \<and> clean s (canon w') \<and> (clean s (canon v) \<longrightarrow> canon w' = canon v)" if "(k, v) \<in> set kvs" "parse s v = Some w'" for k v w'
    using 6 that by (force simp: list_all_iff split: if_splits)
  then have "jv_ok w' \<and> clean s (canon w') \<and> (clean s (canon (snd x)) \<longrightarrow> canon w' = canon (snd x))"
    if "x \<in> set kvs" "parse s (snd x) = Some w'" for x w' using that by (cases x) auto
  from parsed_record [OF ws(2) this] have parts: "map fst ws = map fst kvs" "list_all (\<lambda>(_, v). jv_ok v \<and> clean s (canon v)) ws"
    "list_all (\<lambda>(_, v). clean s (canon v)) kvs \<longrightarrow> map (\<lambda>(k, v). (k, canon v)) ws = map (\<lambda>(k, v). (k, canon v)) kvs" by blast+
  have distinct: "distinct (map fst kvs)" using 6 by simp
  have "list_all (\<lambda>(_, v). clean s (canon v)) kvs" if "\<forall>k v. map_option canon (map_of kvs k) = Some v \<longrightarrow> clean s v"
    using that distinct by (auto simp: list_all_iff)
  then show ?case using parts distinct
    by (auto simp: ws(1) list_all_iff fmlookup_of_list dest!: map_of_SomeD)
next
  case (7 fs kvs)
  then obtain parts where parts: "w = JvObject (concat parts)" "list_all2 (\<lambda>x y. (case x of (k, opt, s) \<Rightarrow> case map_of kvs k of
      None \<Rightarrow> if opt then Some [] else None | Some v \<Rightarrow> map_option (\<lambda>w. [(k, w)]) (parse s v)) = Some y) fs parts"
    and known: "list_all (\<lambda>(k, _). k \<in> fst ` set fs) kvs"
    by (auto dest!: those_Some split: if_splits)
  have distinct: "distinct (map fst fs)" and ok: "jv_ok (JvObject kvs)" using 7 by simp_all
  note read = parsed_members [OF parts(2) distinct]
  have each: "jv_ok w' \<and> clean s (canon w') \<and> (clean s (canon v) \<longrightarrow> canon w' = canon v)"
    if "(k, opt, s) \<in> set fs" "map_of kvs k = Some v" "parse s v = Some w'" for k opt s v w'
    using 7(1) [OF known that(1) refl refl that(2)] that 7(3) jv_ok_member [OF ok that(2)] by auto
  have member: "map_of (concat parts) k = Some w' \<longleftrightarrow> (\<exists>opt s v. (k, opt, s) \<in> set fs \<and> map_of kvs k = Some v \<and> parse s v = Some w')" for k w'
    using read [of k] by (auto simp: map_of_eq_Some_iff [OF distinct, symmetric] split: option.splits)
  have unique: "distinct (map fst (concat parts))" using read by blast
  have "jv_ok v" if "(k, v) \<in> set (concat parts)" for k v
  proof -
    from unique that have "map_of (concat parts) k = Some v" by (rule map_of_is_SomeI)
    then show ?thesis using member each by blast
  qed
  then have "jv_ok w" using unique by (auto simp: parts(1) list_all_iff)
  moreover have "clean s (canon w')" if s: "(k, opt, s) \<in> set fs" and w': "map_of (concat parts) k = Some w'" for k opt s w'
  proof -
    obtain opt' s' v where "(k, opt', s') \<in> set fs" "map_of kvs k = Some v" "parse s' v = Some w'" using member w' by blast
    with each s distinct show ?thesis by (metis eq_key_imp_eq_value prod.inject)
  qed
  then have "clean (SObject fs) (canon w)" by (auto simp: parts(1) fmlookup_of_list)
  moreover have "canon w = canon (JvObject kvs)" if cl: "clean (SObject fs) (canon (JvObject kvs))"
  proof -
    have "map_option canon (map_of (concat parts) k) = map_option canon (map_of kvs k)" for k
    proof (cases "map_of kvs k")
      case None
      then show ?thesis using read [of k] by (simp split: option.splits)
    next
      case (Some v)
      then obtain opt s where s: "(k, opt, s) \<in> set fs" using known by (force simp: list_all_iff dest: map_of_SomeD)
      then have same: "map_of (concat parts) k = parse s v" using read [of k] distinct Some by simp
      obtain w' where "parse s v = Some w'" using read [of k] s Some by fastforce
      then show ?thesis using same each [OF s Some] cl s Some by (force simp: fmlookup_of_list)
    qed
    then show ?thesis by (simp add: parts(1) canon_objects_eq del: canon.simps)
  qed
  ultimately show ?case by blast
next
  case (8 s P v)
  then show ?case by (auto split: option.splits if_splits)
qed (auto split: if_splits)

section \<open>A merge of clean values is clean\<close>

definition part_clean :: "schema \<Rightarrow> cv option \<Rightarrow> bool" where
  "part_clean s v = pred_option (clean s) v"

lemma merged_member:
  "merged (Some (CvObject f)) (Some (CvObject g)) (Some (CvObject h)) (Some (CvObject m))
    \<Longrightarrow> merged (fmlookup f k) (fmlookup g k) (fmlookup h k) (fmlookup m k)"
  unfolding merged_def by (metis at.simps(2))

lemma merged_here: "merged b l r m \<Longrightarrow> m = l \<or> m = r
    \<or> (\<exists>f g h n. b = Some (CvObject f) \<and> l = Some (CvObject g) \<and> r = Some (CvObject h) \<and> m = Some (CvObject n))"
  unfolding merged_def by (drule spec [of _ "[]"]) (auto simp: conflict_def three_way_def split: if_splits)

lemma part_clean_members:
  "part_clean (SObject fs) (Some (CvObject f)) \<longleftrightarrow> (\<forall>(k, opt, s) \<in> set fs. part_clean s (fmlookup f k))"
  "part_clean (SRecord s' most) (Some (CvObject f)) \<longleftrightarrow> (\<forall>k. part_clean s' (fmlookup f k))"
  by (auto simp: part_clean_def pred_option_def split: prod.splits)

lemma merged_clean:
  "merged b l r m \<Longrightarrow> part_clean s b \<Longrightarrow> part_clean s l \<Longrightarrow> part_clean s r \<Longrightarrow> part_clean s m"
proof (induction s arbitrary: b l r m)
  case (SRecord s most)
  show ?case using merged_here [OF SRecord.prems(1)]
  proof (elim disjE exE conjE)
    fix f g h n assume obs: "b = Some (CvObject f)" "l = Some (CvObject g)" "r = Some (CvObject h)" "m = Some (CvObject n)"
    have "part_clean s (fmlookup n k)" for k
      using SRecord.IH [OF merged_member [OF SRecord.prems(1) [unfolded obs], of k]] SRecord.prems(2-4)
      by (simp add: obs part_clean_members)
    then show ?thesis by (simp add: obs part_clean_members)
  qed (use SRecord.prems in simp_all)
next
  case (SObject fs)
  show ?case using merged_here [OF SObject.prems(1)]
  proof (elim disjE exE conjE)
    fix f g h n assume obs: "b = Some (CvObject f)" "l = Some (CvObject g)" "r = Some (CvObject h)" "m = Some (CvObject n)"
    have "part_clean s (fmlookup n k)" if fs: "(k, opt, s) \<in> set fs" for k opt s
    proof -
      have "part_clean s (fmlookup f k)" "part_clean s (fmlookup g k)" "part_clean s (fmlookup h k)"
        using SObject.prems(2-4) fs by (auto simp: obs part_clean_members)
      moreover have "merged b l r m \<Longrightarrow> part_clean s b \<Longrightarrow> part_clean s l \<Longrightarrow> part_clean s r \<Longrightarrow> part_clean s m" for b l r m
        using SObject.IH [OF fs, of "(opt, s)" s b l r m] by simp
      ultimately show ?thesis using merged_member [OF SObject.prems(1) [unfolded obs], of k] by blast
    qed
    then show ?thesis by (auto simp: obs part_clean_members)
  qed (use SObject.prems in simp_all)
next
  case (SRefine s P)
  then show ?case unfolding part_clean_def clean.simps by blast
qed (auto dest!: merged_here simp: part_clean_def)

section \<open>Normalized snapshots\<close>

text \<open>Values without objects: what normalization leaves alone.\<close>

fun flat :: "jv \<Rightarrow> bool" where
  "flat (JvArray vs) = list_all flat vs"
| "flat (JvObject kvs) = False"
| "flat _ = True"

abbreviation nrm :: "utf16 \<Rightarrow> utf16 \<Rightarrow> jv \<Rightarrow> jv" where
  "nrm \<equiv> normalizeDerivedCanvasTimestamps"

lemma nrm_flat: "flat v \<Longrightarrow> nrm t u v = v"
proof (induction v rule: flat.induct)
  case (1 vs)
  then show ?case by (simp add: list_all_iff map_idI)
qed simp_all

definition stamp_or :: "utf16 \<Rightarrow> utf16 \<Rightarrow> utf16 \<Rightarrow> jv \<Rightarrow> jv" where
  "stamp_or t u k v = (if k = js ''updatedAt'' \<and> v = JvString t then JvString u else nrm t u v)"

lemma stamp_or_other: "k \<noteq> js ''updatedAt'' \<Longrightarrow> stamp_or t u k = nrm t u"
  by (rule ext) (simp add: stamp_or_def)

lemma nrm_object: "nrm t u (JvObject kvs) = JvObject (map (\<lambda>(k, v). (k, stamp_or t u k v)) kvs)"
  by (simp add: stamp_or_def)

declare normalizeDerivedCanvasTimestamps.simps(2) [simp del] nrm_object [simp]

lemma keyed_map [simp]: "map fst (map (\<lambda>(k, v). (k, f k v)) kvs) = map fst kvs"
  "map_of (map (\<lambda>(k, v). (k, f k v)) kvs) k = map_option (f k) (map_of kvs k)"
  by (induction kvs) auto

lemma jv_ok_nrm: "jv_ok v \<Longrightarrow> jv_ok (nrm t u v)"
proof (induction v rule: jv_ok.induct)
  case (1 vs)
  then show ?case by (simp add: list_all_iff)
next
  case (2 kvs)
  have "jv_ok (stamp_or t u k v)" if "(k, v) \<in> set kvs" for k v
    using 2 that by (auto simp: stamp_or_def list_all_iff)
  then show ?case using 2(2) by (auto simp: list_all_iff simp del: map_map)
qed simp_all

lemma jat_nrm: "jat (Some (nrm t u v)) (p @ [k]) = map_option (stamp_or t u k) (jat (Some v) (p @ [k]))"
proof (induction p arbitrary: v)
  case Nil
  then show ?case by (cases v) simp_all
next
  case (Cons k' p)
  show ?case
  proof (cases v)
    case (JvObject kvs)
    show ?thesis
    proof (cases "map_of kvs k'")
      case (Some w)
      show ?thesis
      proof (cases "w = JvString t \<and> k' = js ''updatedAt''")
        case True
        then have w: "stamp_or t u k' (JvString t) = JvString u" "w = JvString t" by (simp_all add: stamp_or_def)
        show ?thesis unfolding JvObject by (cases p) (simp_all add: Some w)
      next
        case False
        then have "stamp_or t u k' w = nrm t u w" by (auto simp: stamp_or_def)
        then show ?thesis using Cons.IH [of w] Some JvObject by simp
      qed
    qed (simp add: JvObject)
  qed simp_all
qed

section \<open>Canvas revisions\<close>

lemma members_set_member: "map_of (members (set_member k v ob)) i = (if i = js k then Some v else map_of (members ob) i)"
  by (simp add: set_member_def members_def update_conv')

lemma update_subset: "set (AList.update k v xs) \<subseteq> insert (k, v) (set xs)"
  by (induction xs) auto

lemma jv_ok_set_member: "jv_ok ob \<Longrightarrow> jv_ok v \<Longrightarrow> jv_ok (set_member k v ob)"
proof -
  assume ok: "jv_ok ob" "jv_ok v"
  have "distinct (map fst (members ob))" "\<forall>(_, v) \<in> set (members ob). jv_ok v"
    using ok(1) by (cases ob; auto simp: members_def list_all_iff)+
  moreover have "set (AList.update (js k) v (members ob)) \<subseteq> insert (js k, v) (set (members ob))"
    by (rule update_subset)
  ultimately show ?thesis using ok(2) by (auto simp: set_member_def list_all_iff distinct_update)
qed

definition off_revision :: "utf16 list \<Rightarrow> bool" where
  "off_revision p = (p \<noteq> [] \<and> p \<noteq> [js ''canvas''] \<and> take 2 p \<noteq> [js ''canvas'', js ''version'']
     \<and> take 2 p \<noteq> [js ''canvas'', js ''updatedAt''])"

definition free_path :: "utf16 list \<Rightarrow> bool" where
  "free_path p = (off_revision p \<and> last p \<noteq> js ''updatedAt'')"

lemma members_object: "field k s = Some c \<Longrightarrow> s = JvObject (members s)"
  by (cases s) (simp_all add: field_def members_def)

lemma set_member_object: "jat (Some (set_member k v ob)) (i # p) = jat (if i = js k then Some v else map_of (members ob) i) p"
  using members_set_member [of k v ob i] by (simp add: set_member_def members_def)

lemma jat_members: "jat (Some ob) (i # p) = jat (map_of (members ob) i) p"
  by (cases ob) (simp_all add: members_def)

lemma field_set_member: "field k (set_member k' v ob) = (if js k = js k' then Some v else field k ob)"
  by (simp add: field_def members_set_member)

lemma jat_with_revision:
  assumes "field ''canvas'' s = Some c" "off_revision p"
  shows "jat (Some (with_revision n t s)) p = jat (Some s) p"
proof -
  obtain k q where p: "p = k # q" using assms(2) by (cases p) (auto simp: off_revision_def)
  show ?thesis
  proof (cases "k = js ''canvas''")
    case True
    then obtain k2 q2 where q: "q = k2 # q2" using assms(2) by (cases q) (auto simp: off_revision_def p)
    then have "k2 \<noteq> js ''version''" "k2 \<noteq> js ''updatedAt''" using assms(2) True by (auto simp: off_revision_def p)
    moreover have "map_of (members s) k = Some c" using assms(1) True by (simp add: field_def)
    ultimately show ?thesis
      by (simp add: p q with_revision_def assms(1) set_member_object jat_members members_set_member True)
  next
    case False
    then show ?thesis by (simp add: p with_revision_def assms(1) set_member_object jat_members members_set_member)
  qed
qed

lemma revision_field: "revision_of s = Some (n, t) \<Longrightarrow> \<exists>c. field ''canvas'' s = Some c \<and> field ''version'' c = Some (JvNumber n)
    \<and> field ''updatedAt'' c = Some (JvString t)"
  by (auto simp: revision_of_def split: option.splits jv.splits)

lemma field_nrm: "field k (nrm t u v) = map_option (stamp_or t u (js k)) (field k v)"
  by (cases v) (simp_all add: field_def members_def)

lemma canvas_nrm:
  assumes "revision_of s = Some (n, t)"
  shows "\<exists>c. field ''canvas'' (nrm t' u s) = Some c"
  using revision_field [OF assms] by (auto simp: field_nrm)

lemma jv_ok_field: "jv_ok v \<Longrightarrow> field k v = Some w \<Longrightarrow> jv_ok w"
  by (cases v) (auto simp: field_def members_def elim: jv_ok_member simp del: jv_ok.simps)

lemma jv_ok_with_revision: "jv_ok s \<Longrightarrow> jv_ok (with_revision n t s)"
  by (auto simp: with_revision_def intro!: jv_ok_set_member intro: jv_ok_field split: option.splits)

lemma jv_ok_normalized: "jv_ok s \<Longrightarrow> jv_ok (normalizedCanvasRevision t u s)"
  by (simp add: normalizedCanvasRevision_def jv_ok_with_revision jv_ok_nrm)

lemma jat_normalized_stamp:
  assumes "revision_of s = Some (n, t)" "off_revision p"
  shows "jat (Some (normalizedCanvasRevision t' u s)) p = map_option (stamp_or t' (snd u) (last p)) (jat (Some s) p)"
proof -
  obtain c where c: "field ''canvas'' (nrm t' (snd u) s) = Some c" using canvas_nrm [OF assms(1)] by blast
  have "p = butlast p @ [last p]" using assms(2) by (simp add: off_revision_def)
  then have "jat (Some (nrm t' (snd u) s)) p = map_option (stamp_or t' (snd u) (last p)) (jat (Some s) p)"
    using jat_nrm [of t' "snd u" s "butlast p" "last p"] by simp
  with jat_with_revision [OF c assms(2)] show ?thesis by (simp add: normalizedCanvasRevision_def)
qed

lemma jat_normalized:
  assumes "revision_of s = Some (n, t)" "free_path p"
  shows "jat (Some (normalizedCanvasRevision t' u s)) p = map_option (nrm t' (snd u)) (jat (Some s) p)"
  using jat_normalized_stamp [OF assms(1)] assms(2) by (simp add: free_path_def stamp_or_other)

lemma jat_normalized_flat:
  assumes "revision_of s = Some (n, t)" "free_path p" "pred_option flat (jat (Some s) p)"
  shows "jat (Some (normalizedCanvasRevision t' u s)) p = jat (Some s) p"
  using jat_normalized [OF assms(1,2)] assms(3) by (cases "jat (Some s) p") (simp_all add: nrm_flat)

lemma flat_canon_inject: "flat v \<Longrightarrow> canon v = canon w \<Longrightarrow> v = w"
proof (induction v arbitrary: w rule: flat.induct)
  case (1 vs)
  then obtain ws where ws: "w = JvArray ws" "map canon vs = map canon ws" by (cases w) auto
  then have "vs = ws" using 1 by (auto simp: list_all_iff intro!: nth_equalityI dest: map_eq_imp_length_eq)
    (metis length_map nth_map nth_mem)
  then show ?case by (simp add: ws)
qed auto

lemma flat_options_inject: "pred_option flat v \<Longrightarrow> map_option canon v = map_option canon w \<longleftrightarrow> v = w"
  by (cases v; cases w) (auto dest: flat_canon_inject)

section \<open>Snapshots stay clean\<close>

fun stampable :: "schema \<Rightarrow> bool" where
  "stampable (SArray s _) = stampable s"
| "stampable (SRecord s _) = (stampable s \<and> (\<forall>t. clean s (CvString t)))"
| "stampable (SObject fs) = (\<forall>(k, opt, s) \<in> set fs. stampable s \<and> (k = js ''updatedAt'' \<longrightarrow> (\<forall>t. clean s (CvString t))))"
| "stampable (SRefine s P) = stampable s"
| "stampable _ = True"

lemma clean_nrm: "stampable s \<Longrightarrow> clean s (canon v) \<Longrightarrow> clean s (canon (nrm t u v))"
proof (induction s arbitrary: v)
  case (SString trims P)
  then show ?case by (cases v) auto
next
  case (SArray s most)
  then show ?case by (cases v) (auto simp: list_all_iff)
next
  case (SRecord s most)
  show ?case
  proof (cases v)
    case (JvObject kvs)
    have "clean s (canon (stamp_or t u k w))" if "map_of kvs k = Some w" for k w
      using SRecord that by (auto simp: JvObject stamp_or_def fmlookup_of_list)
    then show ?thesis by (auto simp: JvObject fmlookup_of_list simp del: map_map)
  qed (use SRecord in auto)
next
  case (SObject fs)
  show ?case
  proof (cases v)
    case (JvObject kvs)
    have "clean s (canon (stamp_or t u k w))" if fs: "(k, opt, s) \<in> set fs" and w: "map_of kvs k = Some w" for k opt s w
    proof -
      have "clean s (canon w)" using SObject.prems(2) fs w by (auto simp: JvObject fmlookup_of_list)
      then show ?thesis using SObject.IH [OF fs, of "(opt, s)" s w] SObject.prems(1) fs by (auto simp: stamp_or_def)
    qed
    then show ?thesis by (auto simp: JvObject fmlookup_of_list simp del: map_map)
  qed (use SObject in auto)
qed (auto simp: canon.simps split: jv.splits elim!: flat.cases)

lemma schema_facts: "schema_ok CollaborationMetadataSnapshotSchema" "stampable CollaborationMetadataSnapshotSchema"
  by (simp_all add: CollaborationMetadataSnapshotSchema_def snapshot_base_def CollaborationCanvasMetadataSchema_def
    CollaborationNodeMetadataSchema_def CollaborationEdgeMetadataSchema_def CollaborationGroupMetadataSchema_def
    CollaborationTaskMetadataSchema_def CollaborationCommentMetadataSchema_def CollaborationWorkflowMetadataSchema_def
    CollaborationReviewMetadataSchema_def PositionSchema_def SizeSchema_def required_def optional_def
    CollaborationIdSchema_def CollaborationSubjectSchema_def CollaborationTimestampSchema_def CollaborationColorSchema_def
    CollaborationLocalResourceIdSchema_def title_text_def one_of_def finite_number_def CollaborationNodeTypeSchema_def
    CollaborationNodeStatusSchema_def CollaborationFileAvailabilitySchema_def js_inject)

lemma clean_set_member:
  assumes "clean (SObject fs) (canon ob)" "\<And>opt s. (js k, opt, s) \<in> set fs \<Longrightarrow> clean s (canon v)" "ob = JvObject (members ob)"
  shows "clean (SObject fs) (canon (set_member k v ob))"
proof -
  have "clean s w" if "(i, opt, s) \<in> set fs" "map_option canon (map_of (members ob) i) = Some w" for i opt s w
    using assms(1) that by (subst (asm) assms(3)) (auto simp: fmlookup_of_list)
  moreover have "fmlookup (fmap_of_list (map (\<lambda>(k, v). (k, canon v)) (AList.update (js k) v (members ob)))) i
      = map_option canon (if i = js k then Some v else map_of (members ob) i)" for i
    by (simp add: fmlookup_of_list update_conv')
  ultimately show ?thesis using assms(2) unfolding set_member_def canon.simps clean.simps
    by (auto split: if_splits)
qed

lemma clean_with_revision:
  assumes "clean CollaborationMetadataSnapshotSchema (canon s)" "field ''canvas'' s = Some c" "isJsonRecord c"
  shows "clean CollaborationMetadataSnapshotSchema (canon (with_revision n t s))"
proof -
  have c: "clean CollaborationCanvasMetadataSchema (canon c)"
    using assms(1,2) members_object [OF assms(2)]
    by (cases s) (auto simp: CollaborationMetadataSnapshotSchema_def snapshot_base_def required_def fmlookup_of_list field_def members_def)
  have record_c: "c = JvObject (members c)" using assms(3) by (cases c) (simp_all add: isJsonRecord_def members_def)
  have "clean CollaborationCanvasMetadataSchema (canon (set_member ''updatedAt'' (JvString t) (set_member ''version'' (JvNumber n) c)))"
    unfolding CollaborationCanvasMetadataSchema_def
    by (intro clean_set_member)
       (use c record_c in \<open>auto simp: CollaborationCanvasMetadataSchema_def required_def optional_def js_inject
         CollaborationTimestampSchema_def set_member_def members_def\<close>)
  then have "clean snapshot_base (canon (set_member ''canvas'' (set_member ''updatedAt'' (JvString t) (set_member ''version'' (JvNumber n) c)) s))"
    unfolding snapshot_base_def
    by (intro clean_set_member)
       (use assms(1) members_object [OF assms(2)] in \<open>auto simp: CollaborationMetadataSnapshotSchema_def snapshot_base_def required_def js_inject\<close>)
  then show ?thesis by (simp add: with_revision_def assms(2) CollaborationMetadataSnapshotSchema_def)
qed

section \<open>Snapshots\<close>

text \<open>What reading gives.\<close>

definition snapshot :: "jv \<Rightarrow> bool" where
  "snapshot v = (\<exists>v'. jv_ok v' \<and> parse CollaborationMetadataSnapshotSchema v' = Some v)"

lemma snapshotD: "snapshot v \<Longrightarrow> jv_ok v" "snapshot v \<Longrightarrow> clean CollaborationMetadataSnapshotSchema (canon v)"
  by (auto simp: snapshot_def dest: parse_keeps [OF _ schema_facts(1)])

lemma list_all2_set1: "list_all2 P xs ys \<Longrightarrow> x \<in> set xs \<Longrightarrow> \<exists>y. P x y"
  by (induction rule: list_all2_induct) auto

lemma parsed_required:
  assumes "parse (SObject fs) v = Some w" "(k, False, s) \<in> set fs" "distinct (map fst fs)"
  shows "\<exists>x y. map_of (members w) k = Some y \<and> parse s x = Some y"
proof (cases v)
  case (JvObject kvs)
  obtain parts where parts: "w = JvObject (concat parts)" "list_all2 (\<lambda>x y. (case x of (k, opt, s) \<Rightarrow> case map_of kvs k of
      None \<Rightarrow> if opt then Some [] else None | Some v \<Rightarrow> map_option (\<lambda>w. [(k, w)]) (parse s v)) = Some y) fs parts"
    using assms(1) by (auto simp: JvObject dest!: those_Some split: if_splits)
  obtain y where "(case map_of kvs k of None \<Rightarrow> None | Some v \<Rightarrow> map_option (\<lambda>w. [(k, w)]) (parse s v)) = Some y"
    using list_all2_set1 [OF parts(2) assms(2)] by (auto split: option.splits)
  then obtain x z where "map_of kvs k = Some x" "parse s x = Some z" by (auto split: option.splits)
  moreover have "map_of fs k = Some (False, s)" using assms(2,3) by simp
  ultimately have "map_of (concat parts) k = Some z" using parsed_members [OF parts(2) assms(3), of k] by simp
  with \<open>parse s x = Some z\<close> show ?thesis by (auto simp: parts(1) members_def)
qed (use assms(1) in simp_all)

lemma parse_number: "parse (SNumber P) x = Some y \<Longrightarrow> \<exists>n. y = JvNumber n"
  by (cases x) (auto split: if_splits)

lemma parse_string: "parse (SString trims P) x = Some y \<Longrightarrow> \<exists>t. y = JvString t"
  by (cases x) (auto simp: Let_def split: if_splits)

lemma snapshot_canvas:
  assumes "snapshot v"
  shows "\<exists>x c. map_of (members v) (js ''canvas'') = Some c \<and> parse CollaborationCanvasMetadataSchema x = Some c"
proof -
  obtain v' where v': "parse snapshot_base v' = Some v"
    using assms by (auto simp: snapshot_def CollaborationMetadataSnapshotSchema_def split: option.splits if_splits)
  show ?thesis
    using parsed_required [OF v' [unfolded snapshot_base_def], of "js ''canvas''" CollaborationCanvasMetadataSchema]
    by (auto simp: required_def js_inject)
qed

lemma canvas_revision:
  assumes "parse CollaborationCanvasMetadataSchema x = Some c"
  shows "\<exists>n t. field ''version'' c = Some (JvNumber n) \<and> field ''updatedAt'' c = Some (JvString t)"
proof -
  note required = parsed_required [OF assms [unfolded CollaborationCanvasMetadataSchema_def]]
  obtain x1 y1 where "map_of (members c) (js ''version'') = Some y1" "parse (SNumber (\<lambda>q. whole q \<and> 0 \<le> q)) x1 = Some y1"
    using required [of "js ''version''" "SNumber (\<lambda>q. whole q \<and> 0 \<le> q)"] by (auto simp: required_def optional_def js_inject)
  moreover obtain x2 y2 where "map_of (members c) (js ''updatedAt'') = Some y2" "parse CollaborationTimestampSchema x2 = Some y2"
    using required [of "js ''updatedAt''" CollaborationTimestampSchema] by (auto simp: required_def optional_def js_inject)
  ultimately show ?thesis
    by (auto simp: field_def CollaborationTimestampSchema_def dest!: parse_number parse_string)
qed

lemma snapshot_revision:
  assumes "snapshot v"
  shows "\<exists>n t. revision_of v = Some (n, t)"
proof -
  obtain x c where c: "map_of (members v) (js ''canvas'') = Some c" "parse CollaborationCanvasMetadataSchema x = Some c"
    using snapshot_canvas [OF assms] by blast
  then show ?thesis using canvas_revision [OF c(2)] by (auto simp: revision_of_def field_def)
qed

section \<open>The merge of snapshots\<close>

definition leaf :: "jv \<Rightarrow> utf16 list \<Rightarrow> bool" where
  "leaf v p = (case jat (Some v) p of None \<Rightarrow> True | Some w \<Rightarrow> flat w)"

lemma leaf_iff: "leaf v p \<longleftrightarrow> pred_option flat (jat (Some v) p)"
  by (simp add: leaf_def split: option.split)

text \<open>The three sides of a merge, with the derived revision taken out.\<close>

definition side :: "jv \<Rightarrow> jv \<Rightarrow> jv" where
  "side baseline v = (case (revision_of baseline, revision_of v) of
     (Some r, Some (_, t)) \<Rightarrow> normalizedCanvasRevision t r v | _ \<Rightarrow> v)"

lemma side_facts:
  assumes "snapshot b" "snapshot v"
  shows "jv_ok (side b v)" "free_path p \<Longrightarrow> leaf v p \<Longrightarrow> jat (Some (side b v)) p = jat (Some v) p"
    "clean CollaborationMetadataSnapshotSchema (canon (side b v))" "\<exists>c. field ''canvas'' (side b v) = Some c \<and> isJsonRecord c"
proof -
  obtain bn bt n t where rev: "revision_of b = Some (bn, bt)" "revision_of v = Some (n, t)"
    using snapshot_revision assms by meson
  have side: "side b v = normalizedCanvasRevision t (bn, bt) v" by (simp add: side_def rev)
  show "jv_ok (side b v)" by (simp add: side jv_ok_normalized snapshotD(1) [OF assms(2)])
  show "free_path p \<Longrightarrow> leaf v p \<Longrightarrow> jat (Some (side b v)) p = jat (Some v) p"
    by (simp add: side leaf_iff jat_normalized_flat [OF rev(2)])
  obtain c where c: "field ''canvas'' (nrm t bt v) = Some c" using canvas_nrm [OF rev(2)] by blast
  then obtain c' where c': "field ''canvas'' v = Some c'" "c = stamp_or t bt (js ''canvas'') c'" by (auto simp: field_nrm)
  have "c' = JvObject (members c')" using revision_field [OF rev(2)] c'(1) members_object by fastforce
  then have c_record: "isJsonRecord c" using c'(2) by (cases c') (simp_all add: stamp_or_def js_inject isJsonRecord_def)
  show "clean CollaborationMetadataSnapshotSchema (canon (side b v))"
    unfolding side normalizedCanvasRevision_def
    by (rule clean_with_revision [OF clean_nrm]) (use c c_record schema_facts snapshotD(2) [OF assms(2)] in simp_all)
  show "\<exists>c. field ''canvas'' (side b v) = Some c \<and> isJsonRecord c"
    by (simp add: side normalizedCanvasRevision_def with_revision_def c field_set_member) (simp add: isJsonRecord_def set_member_def)
qed

text \<open>
  What the merge compares at a path: the value there, a time stamp that is the one of the snapshot's canvas taken
  for the one of the baseline's canvas.
\<close>

definition stamped :: "jv \<Rightarrow> jv \<Rightarrow> utf16 list \<Rightarrow> jv option" where
  "stamped b v p = (case (revision_of b, revision_of v) of
     (Some (_, bt), Some (_, t)) \<Rightarrow>
       if last p = js ''updatedAt'' \<and> jat (Some v) p = Some (JvString t) then Some (JvString bt) else jat (Some v) p
   | _ \<Rightarrow> jat (Some v) p)"

lemma revision_with_revision: "field ''canvas'' s = Some c \<Longrightarrow> revision_of (with_revision n t s) = Some (n, t)"
  by (simp add: with_revision_def revision_of_def field_set_member js_inject)

lemma side_stamped:
  assumes "snapshot b" "snapshot v"
  shows "revision_of (side b v) = revision_of b"
    and "off_revision p \<Longrightarrow> leaf v p \<Longrightarrow> jat (Some (side b v)) p = stamped b v p"
proof -
  obtain bn bt n t where rev: "revision_of b = Some (bn, bt)" "revision_of v = Some (n, t)"
    using snapshot_revision assms by meson
  have side: "side b v = normalizedCanvasRevision t (bn, bt) v" by (simp add: side_def rev)
  obtain c where c: "field ''canvas'' (nrm t bt v) = Some c" using canvas_nrm [OF rev(2)] by blast
  show "revision_of (side b v) = revision_of b"
    by (simp add: side rev normalizedCanvasRevision_def revision_with_revision [OF c])
  assume p: "off_revision p" "leaf v p"
  have "map_option (stamp_or t bt (last p)) (jat (Some v) p) = stamped b v p"
    using p(2) by (cases "jat (Some v) p") (auto simp: stamped_def rev stamp_or_def leaf_def nrm_flat)
  then show "jat (Some (side b v)) p = stamped b v p"
    using jat_normalized_stamp [OF rev(2) p(1), of t "(bn, bt)"] by (simp add: side)
qed

lemma leaf_stamped: "leaf v p \<Longrightarrow> pred_option flat (stamped b v p)"
  by (simp add: leaf_iff stamped_def split: option.split)

lemma stamped_free: "free_path p \<Longrightarrow> stamped b v p = jat (Some v) p"
  by (simp add: free_path_def stamped_def split: option.split)

lemma merge_sides:
  assumes "revision_of b = Some (bn, bt)" "revision_of l = Some (ln, lt)" "revision_of r = Some (rn, rt)"
  shows "mergeCollaborationIntent (Some b) l (Some r) = (case mergeValue (side b b) (side b l) (side b r) of
     None \<Rightarrow> None | Some m \<Rightarrow> merge_result m (Math_max bn (Math_max ln rn)) (latest [bt, lt, rt]))"
  by (simp add: mergeCollaborationIntent_def side_def assms)

lemma field_at: "at (Some (canon v)) [js k] = map_option canon (field k v)"
  by (simp add: at_canon_Some jat_members field_def)

lemma record_canon: "isJsonRecord v \<longleftrightarrow> (\<exists>f. canon v = CvObject f)"
  by (cases v) (auto simp: isJsonRecord_def)

text \<open>Merging sides gives an object with a canvas.\<close>

lemma merged_canvas:
  assumes "merged (Some (canon b)) (Some (canon l)) (Some (canon r)) (Some (canon m))"
    "\<exists>c. field ''canvas'' b = Some c \<and> isJsonRecord c" "\<exists>c. field ''canvas'' l = Some c \<and> isJsonRecord c"
    "\<exists>c. field ''canvas'' r = Some c \<and> isJsonRecord c"
  shows "\<exists>c. field ''canvas'' m = Some c \<and> isJsonRecord c"
proof -
  have "merged (at (Some (canon b)) [js ''canvas'']) (at (Some (canon l)) [js ''canvas'']) (at (Some (canon r)) [js ''canvas''])
      (at (Some (canon m)) [js ''canvas''])"
    using assms(1) unfolding merged_def by (metis (no_types, lifting) at_append)
  from merged_here [OF this] show ?thesis using assms(2-) by (auto simp: field_at record_canon)
qed

lemma merge_result_eq:
  assumes "field ''canvas'' m = Some c" "isJsonRecord c"
  shows "merge_result m n t = parse CollaborationMetadataSnapshotSchema (with_revision n t m)"
  using assms members_object [OF assms(1)] by (cases m) (simp_all add: merge_result_def isJsonRecord_def)

text \<open>The side that changed a value since the baseline wins, and both did not change it differently.\<close>

definition edit_kept :: "jv option \<Rightarrow> jv option \<Rightarrow> jv option \<Rightarrow> jv option \<Rightarrow> bool" where
  "edit_kept b l r s = ((l = b \<longrightarrow> s = r) \<and> (r = b \<longrightarrow> s = l) \<and> (l = r \<longrightarrow> s = l) \<and> (l = b \<or> r = b \<or> l = r))"

definition keeps_edits :: "jv \<Rightarrow> jv \<Rightarrow> jv \<Rightarrow> jv \<Rightarrow> utf16 list \<Rightarrow> bool" where
  "keeps_edits b l r s p =
     ((jat (Some l) p = jat (Some b) p \<longrightarrow> jat (Some s) p = jat (Some r) p)
      \<and> (jat (Some r) p = jat (Some b) p \<longrightarrow> jat (Some s) p = jat (Some l) p)
      \<and> (jat (Some l) p = jat (Some r) p \<longrightarrow> jat (Some s) p = jat (Some l) p)
      \<and> (jat (Some l) p = jat (Some b) p \<or> jat (Some r) p = jat (Some b) p \<or> jat (Some l) p = jat (Some r) p))"

lemma merge_keeps_edits:
  assumes "snapshot b" "snapshot l" "snapshot r" "mergeValue (side b b) (side b l) (side b r) = Some m"
    "parse CollaborationMetadataSnapshotSchema (with_revision n t m) = Some s"
  shows "snapshot s" "canon s = canon (with_revision n t m)" "free_path p \<Longrightarrow> leaf b p \<Longrightarrow> leaf l p \<Longrightarrow> leaf r p \<Longrightarrow> keeps_edits b l r s p"
    "off_revision p \<Longrightarrow> leaf b p \<Longrightarrow> leaf l p \<Longrightarrow> leaf r p
      \<Longrightarrow> edit_kept (stamped b b p) (stamped b l p) (stamped b r p) (jat (Some s) p)"
    "revision_of s = Some (n, t)" "\<not> conflicting (Some (canon (side b b))) (Some (canon (side b l))) (Some (canon (side b r)))"
proof -
  note sides = side_facts [OF assms(1) assms(1)] side_facts [OF assms(1) assms(2)] side_facts [OF assms(1) assms(3)]
  have m: "jv_ok m" "merged (Some (canon (side b b))) (Some (canon (side b l))) (Some (canon (side b r))) (Some (canon m))"
    using mergeValue_merges [OF sides(1) sides(5) sides(9)] assms(4) by (simp_all add: value_merges_def)
  have "part_clean CollaborationMetadataSnapshotSchema (Some (canon m))"
    by (rule merged_clean [OF m(2)]) (simp_all add: part_clean_def sides)
  moreover obtain c where c: "field ''canvas'' m = Some c" "isJsonRecord c"
    using merged_canvas [OF m(2) sides(4) sides(8) sides(12)] by blast
  ultimately have clean: "clean CollaborationMetadataSnapshotSchema (canon (with_revision n t m))"
    by (simp add: part_clean_def clean_with_revision)
  have ok: "jv_ok (with_revision n t m)" by (rule jv_ok_with_revision [OF m(1)])
  show "snapshot s" using assms(5) ok by (auto simp: snapshot_def)
  show canon: "canon s = canon (with_revision n t m)" using parse_keeps [OF assms(5) schema_facts(1) ok] clean by blast
  show kept: "edit_kept (stamped b b p) (stamped b l p) (stamped b r p) (jat (Some s) p)"
    if p: "off_revision p" and leaves: "leaf b p" "leaf l p" "leaf r p"
  proof -
    have "map_option canon (jat (Some s) p) = map_option canon (jat (Some m) p)"
      using jat_with_revision [OF c(1) p] canon by (metis at_canon_Some)
    moreover have "\<not> conflict (at (Some (canon (side b b))) p) (at (Some (canon (side b l))) p) (at (Some (canon (side b r))) p)"
      "three_way (at (Some (canon (side b b))) p) (at (Some (canon (side b l))) p) (at (Some (canon (side b r))) p) (at (Some (canon m)) p)"
      using m(2) by (simp_all add: merged_def)
    moreover note flats = leaf_stamped [OF leaves(1), of b] leaf_stamped [OF leaves(2), of b] leaf_stamped [OF leaves(3), of b]
    moreover have "\<not> (\<exists>f. map_option canon x = Some (CvObject f))" if "pred_option flat x" for x
      using that by (cases x) (auto simp: canon_eq_object)
    moreover note side_stamped(2) [OF assms(1) assms(1) p leaves(1)] side_stamped(2) [OF assms(1) assms(2) p leaves(2)]
      side_stamped(2) [OF assms(1) assms(3) p leaves(3)]
    ultimately show ?thesis
      by (auto simp: at_canon_Some conflict_def three_way_def edit_kept_def flat_options_inject
          eq_commute [of "map_option canon (jat (Some s) p)"] split: if_splits)
  qed
  show "keeps_edits b l r s p" if p: "free_path p" and leaves: "leaf b p" "leaf l p" "leaf r p"
    using kept [OF _ leaves] p by (simp add: stamped_free [OF p] keeps_edits_def edit_kept_def free_path_def)
  obtain sn st where rev: "revision_of s = Some (sn, st)" using snapshot_revision \<open>snapshot s\<close> by blast
  have "at (Some (canon s)) [js ''canvas'', js ''version''] = Some (CvNumber n)"
    "at (Some (canon s)) [js ''canvas'', js ''updatedAt''] = Some (CvString t)"
    by (simp_all add: canon at_canon_Some with_revision_def c set_member_object jat_members members_set_member js_inject)
  moreover have "jat (Some s) [js ''canvas'', js ''version''] = Some (JvNumber sn)"
    "jat (Some s) [js ''canvas'', js ''updatedAt''] = Some (JvString st)"
    using revision_field [OF rev] by (auto simp: jat_members field_def)
  ultimately show "revision_of s = Some (n, t)" by (simp add: at_canon_Some rev)
  show "\<not> conflicting (Some (canon (side b b))) (Some (canon (side b l))) (Some (canon (side b r)))"
    by (rule merged_not_conflicting [OF m(2)])
qed

text \<open>What a merge gives, and when it fails.\<close>

lemma mergeCollaborationIntent_cases:
  assumes "snapshot b" "snapshot l" "snapshot r"
    and rev: "revision_of b = Some (bn, bt)" "revision_of l = Some (ln, lt)" "revision_of r = Some (rn, rt)"
  defines "n \<equiv> Math_max bn (Math_max ln rn)" and "t \<equiv> latest [bt, lt, rt]"
  shows "case mergeCollaborationIntent (Some b) l (Some r) of
      None \<Rightarrow> conflicting (Some (canon (side b b))) (Some (canon (side b l))) (Some (canon (side b r)))
        \<or> (\<exists>m. mergeValue (side b b) (side b l) (side b r) = Some m
              \<and> parse CollaborationMetadataSnapshotSchema (with_revision n t m) = None)
    | Some s \<Rightarrow> \<exists>m. mergeValue (side b b) (side b l) (side b r) = Some m
        \<and> parse CollaborationMetadataSnapshotSchema (with_revision n t m) = Some s"
proof -
  note sides = side_facts [OF assms(1) assms(1)] side_facts [OF assms(1) assms(2)] side_facts [OF assms(1) assms(3)]
  have merges: "value_merges (side b b) (side b l) (side b r)" by (rule mergeValue_merges [OF sides(1) sides(5) sides(9)])
  show ?thesis
  proof (cases "mergeValue (side b b) (side b l) (side b r)")
    case None
    with merges show ?thesis by (simp add: merge_sides [OF rev] value_merges_def)
  next
    case (Some m)
    with merges obtain c where "field ''canvas'' m = Some c" "isJsonRecord c"
      using merged_canvas [OF _ sides(4) sides(8) sides(12)] by (auto simp: value_merges_def)
    then show ?thesis by (simp add: merge_sides [OF rev] Some merge_result_eq n_def t_def split: option.split)
  qed
qed

text \<open>The revision of a merge: the highest version and the latest time of the three snapshots.\<close>

definition joint_revision :: "jv \<Rightarrow> jv \<Rightarrow> jv \<Rightarrow> js_number \<Rightarrow> utf16 \<Rightarrow> bool" where
  "joint_revision b l r n t = (\<exists>bn bt ln lt rn rt. revision_of b = Some (bn, bt) \<and> revision_of l = Some (ln, lt)
     \<and> revision_of r = Some (rn, rt) \<and> number_value n = max (number_value bn) (max (number_value ln) (number_value rn))
     \<and> t = max bt (max lt rt))"

lemma Math_max_value: "number_value (Math_max a b) = max (number_value a) (number_value b)"
  by (auto simp: Math_max_def number_value_def max_def split: js_number.splits)

lemma latest_max: "latest [a, b, c] = max a (max b c)"
  by (auto simp: latest_def max_def)

text \<open>
  C12. Merging the snapshot of this device into the room succeeds exactly when the three snapshots, as the merge
  compares them, conflict nowhere and the schema accepts the merged snapshot under the highest version and the
  latest time of the three, and then gives that snapshot. It compares them with the revision of the baseline
  and, where an entity carries the time stamp of its snapshot's canvas, the time of the baseline's canvas. Every edit of
  both sides is kept: at every path to a value without members, other than the revision of the canvas, the side
  that changed what is compared wins, and both did not change it differently.
\<close>

theorem mergeCollaborationIntent_correct:
  assumes "snapshot b" "snapshot l" "snapshot r"
  shows "(\<forall>v \<in> {b, l, r}. revision_of (side b v) = revision_of b
      \<and> (\<forall>p. off_revision p \<and> leaf v p \<longrightarrow> jat (Some (side b v)) p = stamped b v p))
    \<and> (case mergeCollaborationIntent (Some b) l (Some r) of
      Some s \<Rightarrow> snapshot s \<and> \<not> conflicting (Some (canon (side b b))) (Some (canon (side b l))) (Some (canon (side b r)))
        \<and> (\<exists>m n t. joint_revision b l r n t \<and> revision_of s = Some (n, t) \<and> mergeValue (side b b) (side b l) (side b r) = Some m
             \<and> parse CollaborationMetadataSnapshotSchema (with_revision n t m) = Some s)
        \<and> (\<forall>p. off_revision p \<and> leaf b p \<and> leaf l p \<and> leaf r p
             \<longrightarrow> edit_kept (stamped b b p) (stamped b l p) (stamped b r p) (jat (Some s) p))
    | None \<Rightarrow> conflicting (Some (canon (side b b))) (Some (canon (side b l))) (Some (canon (side b r)))
        \<or> (\<exists>m n t. joint_revision b l r n t \<and> mergeValue (side b b) (side b l) (side b r) = Some m
              \<and> parse CollaborationMetadataSnapshotSchema (with_revision n t m) = None))"
proof (rule conjI)
  show "\<forall>v \<in> {b, l, r}. revision_of (side b v) = revision_of b
      \<and> (\<forall>p. off_revision p \<and> leaf v p \<longrightarrow> jat (Some (side b v)) p = stamped b v p)"
    using side_stamped [OF assms(1)] assms by auto
next
  obtain bn bt ln lt rn rt where rev: "revision_of b = Some (bn, bt)" "revision_of l = Some (ln, lt)" "revision_of r = Some (rn, rt)"
    using snapshot_revision assms by meson
  define n t where "n = Math_max bn (Math_max ln rn)" and "t = latest [bt, lt, rt]"
  have joint: "joint_revision b l r n t" by (simp add: joint_revision_def rev n_def t_def Math_max_value latest_max)
  note cases = mergeCollaborationIntent_cases [OF assms rev, folded n_def t_def]
  show "case mergeCollaborationIntent (Some b) l (Some r) of
      Some s \<Rightarrow> snapshot s \<and> \<not> conflicting (Some (canon (side b b))) (Some (canon (side b l))) (Some (canon (side b r)))
        \<and> (\<exists>m n t. joint_revision b l r n t \<and> revision_of s = Some (n, t) \<and> mergeValue (side b b) (side b l) (side b r) = Some m
             \<and> parse CollaborationMetadataSnapshotSchema (with_revision n t m) = Some s)
        \<and> (\<forall>p. off_revision p \<and> leaf b p \<and> leaf l p \<and> leaf r p
             \<longrightarrow> edit_kept (stamped b b p) (stamped b l p) (stamped b r p) (jat (Some s) p))
    | None \<Rightarrow> conflicting (Some (canon (side b b))) (Some (canon (side b l))) (Some (canon (side b r)))
        \<or> (\<exists>m n t. joint_revision b l r n t \<and> mergeValue (side b b) (side b l) (side b r) = Some m
              \<and> parse CollaborationMetadataSnapshotSchema (with_revision n t m) = None)"
  proof (cases "mergeCollaborationIntent (Some b) l (Some r)")
    case None
    with cases joint show ?thesis by auto
  next
    case (Some s)
    with cases obtain m where m: "mergeValue (side b b) (side b l) (side b r) = Some m"
      "parse CollaborationMetadataSnapshotSchema (with_revision n t m) = Some s" by auto
    note facts = merge_keeps_edits [OF assms m]
    show ?thesis using Some facts(1,4,5,6) joint m by auto
  qed
qed

section \<open>Surviving intent\<close>

lemma survives_sides:
  assumes "snapshot b" "snapshot l" "snapshot r" "collaborationIntentSurvives b l r"
  shows "\<exists>s m n t. mergeValue (side b b) (side b l) (side b r) = Some m
    \<and> parse CollaborationMetadataSnapshotSchema (with_revision n t m) = Some s \<and> canon (side r s) = canon (side r r)"
proof -
  obtain bn bt ln lt rn rt where rev: "revision_of b = Some (bn, bt)" "revision_of l = Some (ln, lt)" "revision_of r = Some (rn, rt)"
    using snapshot_revision assms by meson
  obtain s where s: "mergeCollaborationIntent (Some b) l (Some r) = Some s" "snapshotsEqualIgnoringCanvasRevision s r"
    using assms(4) by (auto simp: collaborationIntentSurvives_def split: option.splits)
  obtain m where m: "mergeValue (side b b) (side b l) (side b r) = Some m"
    "parse CollaborationMetadataSnapshotSchema (with_revision (Math_max bn (Math_max ln rn)) (latest [bt, lt, rt]) m) = Some s"
    using mergeCollaborationIntent_cases [OF assms(1-3) rev] s(1) by auto
  have "snapshot s" by (rule merge_keeps_edits(1) [OF assms(1-3) m])
  then obtain sn st where "revision_of s = Some (sn, st)" using snapshot_revision by blast
  with s(2) rev(3) have "jsonValuesEqual (side r s) (side r r)"
    by (simp add: snapshotsEqualIgnoringCanvasRevision_def side_def)
  then have "canon (side r s) = canon (side r r)"
    using side_facts(1) [OF assms(3)] \<open>snapshot s\<close> assms(3) by (simp add: jsonValuesEqual_canon)
  with m show ?thesis by blast
qed

text \<open>
  C38. An intent that is said to survive is in the room: whatever value without members this device changed
  since the baseline, the derived revision aside, the room has at the same place.
\<close>

theorem survivingIntent_in_room:
  assumes "snapshot b" "snapshot l" "snapshot r" "collaborationIntentSurvives b l r"
    and "free_path p" "leaf b p" "leaf l p" "leaf r p" "jat (Some l) p \<noteq> jat (Some b) p"
  shows "jat (Some r) p = jat (Some l) p"
proof -
  obtain s m n t where m: "mergeValue (side b b) (side b l) (side b r) = Some m"
    "parse CollaborationMetadataSnapshotSchema (with_revision n t m) = Some s" and same: "canon (side r s) = canon (side r r)"
    using survives_sides [OF assms(1-4)] by blast
  have keeps: "keeps_edits b l r s p" by (rule merge_keeps_edits(3) [OF assms(1-3) m assms(5-8)])
  show ?thesis
  proof (cases "jat (Some l) p = jat (Some r) p")
    case False
    then have s: "jat (Some s) p = jat (Some l) p" using keeps assms(9) by (auto simp: keeps_edits_def)
    then have "leaf s p" using assms(7) by (simp add: leaf_iff)
    then have "map_option canon (jat (Some s) p) = map_option canon (jat (Some r) p)"
      using side_facts(2) [OF assms(3) merge_keeps_edits(1) [OF assms(1-3) m] assms(5)]
        side_facts(2) [OF assms(3,3,5,8)] same by (metis at_canon_Some)
    then show ?thesis using assms(7) s by (simp add: leaf_iff flat_options_inject)
  qed simp
qed

text \<open>
  C40. A room that already holds exactly what this device has is not recognised when a save restamped an entity:
  with an \<open>updatedAt\<close> equal to the canvas's, later than the baseline's, the intent counts as lost.
\<close>

theorem restamped_room_not_recognised:
  assumes "snapshot b" "snapshot l" "revision_of b = Some (bn, bt)" "revision_of l = Some (ln, lt)" "bt < lt"
    and "jat (Some l) (q @ [js ''updatedAt'']) = Some (JvString lt)" "q \<noteq> []" "hd q \<noteq> js ''canvas''"
  shows "\<not> collaborationIntentSurvives b l l"
proof
  assume survives: "collaborationIntentSurvives b l l"
  define p where "p = q @ [js ''updatedAt'']"
  have p: "off_revision p" "last p = js ''updatedAt''"
    using assms(7,8) by (auto simp: p_def off_revision_def neq_Nil_conv)
  obtain m s where m: "mergeValue (side b b) (side b l) (side b l) = Some m"
    "parse CollaborationMetadataSnapshotSchema (with_revision (Math_max bn (Math_max ln ln)) (latest [bt, lt, lt]) m) = Some s"
    and s: "collaborationIntentSurvives b l l = snapshotsEqualIgnoringCanvasRevision s l"
    using survives mergeCollaborationIntent_cases [OF assms(1,2,2,3,4,4)]
    by (auto simp: collaborationIntentSurvives_def split: option.splits)
  have "jsonValuesEqual (side b l) (side b l)"
    using side_facts(1) [OF assms(1,2)] by (simp add: jsonValuesEqual_canon)
  then have "m = side b l" using m(1) by (auto simp: mergeValue.simps split: if_splits)
  moreover have "latest [bt, lt, lt] = lt" using less_imp_le [OF assms(5)] by (simp add: latest_def)
  ultimately have canon: "canon s = canon (with_revision (Math_max bn (Math_max ln ln)) lt (side b l))"
    using merge_keeps_edits(2) [OF assms(1,2,2) m] by simp
  have "snapshot s" by (rule merge_keeps_edits(1) [OF assms(1,2,2) m])
  obtain c where c: "field ''canvas'' (side b l) = Some c" using side_facts(4) [OF assms(1,2)] by blast
  have at_s: "map_option canon (jat (Some s) p) = map_option canon (jat (Some (side b l)) p)"
    using canon jat_with_revision [OF c p(1)] by (metis at_canon_Some)
  have "jat (Some (side b l)) p = Some (JvString bt)"
    using jat_normalized_stamp [OF assms(4) p(1), of lt "(bn, bt)"] assms(6) p(2)
    by (simp add: side_def assms(3,4) p_def [symmetric] stamp_or_def)
  then have stamp: "jat (Some s) p = Some (JvString bt)" using at_s by simp
  obtain sn st where rev_s: "revision_of s = Some (sn, st)" using snapshot_revision [OF \<open>snapshot s\<close>] by blast
  have "at (Some (canon s)) [js ''canvas'', js ''updatedAt''] = Some (CvString lt)"
    by (simp add: canon at_canon_Some with_revision_def c set_member_object jat_members members_set_member)
  moreover have "jat (Some s) [js ''canvas'', js ''updatedAt''] = Some (JvString st)"
    using revision_field [OF rev_s] by (auto simp: jat_members field_def)
  ultimately have st: "st = lt" by (simp add: at_canon_Some)
  have "jat (Some (side l s)) p = Some (JvString bt)" "jat (Some (side l l)) p = Some (JvString lt)"
    using jat_normalized_stamp [OF rev_s p(1), of st "(ln, lt)"] jat_normalized_stamp [OF assms(4) p(1), of lt "(ln, lt)"]
      stamp st p(2) assms(5,6) by (simp_all add: side_def assms(4) rev_s p_def [symmetric] stamp_or_def)
  moreover have "canon (side l s) = canon (side l l)"
    using survives s side_facts(1) [OF assms(2) \<open>snapshot s\<close>] side_facts(1) [OF assms(2,2)]
    by (simp add: snapshotsEqualIgnoringCanvasRevision_def side_def assms(4) rev_s jsonValuesEqual_canon)
  ultimately have "Some (CvString bt) = Some (CvString lt)" by (metis at_canon_Some canon.simps(4) option.map(2))
  with assms(5) show False by simp
qed

section \<open>Comments\<close>

definition own_comment :: "jv \<Rightarrow> jv \<Rightarrow> utf16 \<Rightarrow> utf16 \<Rightarrow> jv \<Rightarrow> bool" where
  "own_comment baseline remote subject i c =
     (map_of (record_of ''comments'' baseline) i = None \<and> text_field ''authorId'' c = Some subject
      \<and> (\<exists>c'. map_of (record_of ''comments'' remote) i = Some c' \<and> canon c' = canon c))"

lemma same_as_Own: "same_as (look_up records i) c \<longleftrightarrow> (\<exists>w. map_of records i = Some w \<and> jsonValuesEqual w c)"
  by (auto simp: same_as_def look_up_def split: option.splits)

lemma record_ok:
  assumes "snapshot v"
  shows "distinct (map fst (record_of k v))" "(i, c) \<in> set (record_of k v) \<Longrightarrow> jv_ok c"
proof -
  have ok: "jv_ok w" if "field k v = Some w" for w using jv_ok_field [OF snapshotD(1) [OF assms] that] .
  then show "distinct (map fst (record_of k v))"
    by (auto simp: record_of_def members_def split: option.splits jv.splits)
  assume "(i, c) \<in> set (record_of k v)"
  then obtain w where w: "field k v = Some w" "(i, c) \<in> set (members w)"
    by (cases "field k v") (auto simp: record_of_def)
  then show "jv_ok c" using ok [OF w(1)] by (cases w) (auto simp: members_def list_all_iff)
qed

lemma comment_identity:
  assumes "snapshot v" "(i, c) \<in> set (record_of ''comments'' v)"
  shows "comment_id c = i"
proof -
  have "snapshot_refinement v"
    using assms(1) by (auto simp: snapshot_def CollaborationMetadataSnapshotSchema_def split: option.splits if_splits)
  then have "assertRecordIdentities (record_of ''comments'' v)" by (simp add: snapshot_refinement_def Let_def)
  then show ?thesis using assms(2) by (auto simp: assertRecordIdentities_def list_all_iff comment_id_def)
qed

text \<open>
  C39. A recovery of comments that is satisfied loses nothing: apart from its comments the pending snapshot is
  the baseline, every comment of the baseline is still in it, and each further comment is the subject's own
  and is in the room as written. (Identifiers that every object inherits, such as \<open>constructor\<close>, are taken for
  present by the code and are excepted.)
\<close>

theorem satisfied_comment_recovery:
  assumes snapshots: "snapshot b" "snapshot pending" "snapshot remote"
    and satisfied: "cr_satisfied (analyzeCollaborationCommentRecovery (Some b) pending remote subject)"
  shows "canon (withoutComments pending) = canon (withoutComments b)
    \<and> (\<forall>i c. map_of (record_of ''comments'' b) i = Some c
        \<longrightarrow> (\<exists>c'. map_of (record_of ''comments'' pending) i = Some c' \<and> canon c' = canon c))
    \<and> (\<forall>i c. map_of (record_of ''comments'' pending) i = Some c \<and> i \<notin> set inherited_names
        \<longrightarrow> map_of (record_of ''comments'' b) i \<noteq> None \<or> own_comment b remote subject i c)"
proof (intro conjI allI impI)
  define additions where "additions = comment_additions (record_of ''comments'' b) pending subject"
  have only: "changed_only_by_additions b pending subject additions"
    and rest: "jsonValuesEqual (withoutComments b) (withoutComments pending)"
    and present: "\<And>c. c \<in> set additions \<Longrightarrow> look_up (record_of ''comments'' remote) (comment_id c) \<noteq> Undefined
      \<and> same_as (look_up (record_of ''comments'' remote) (comment_id c)) c"
    using satisfied by (auto simp: analyzeCollaborationCommentRecovery_def Let_def additions_def filter_empty_conv)
  have ok: "jv_ok (withoutComments v)" if "snapshot v" for v
    unfolding withoutComments_def by (rule jv_ok_set_member [OF snapshotD(1) [OF that]]) simp
  show "canon (withoutComments pending) = canon (withoutComments b)"
    using rest ok snapshots by (simp add: jsonValuesEqual_canon)
  have equal: "canon w = canon c" if "snapshot v" "map_of (record_of ''comments'' v) i = Some w" "jsonValuesEqual w c" "jv_ok c" for v i w c
    using record_ok(2) [OF that(1) map_of_SomeD [OF that(2)]] that(3,4) by (simp add: jsonValuesEqual_canon)
  fix i c
  show "\<exists>c'. map_of (record_of ''comments'' pending) i = Some c' \<and> canon c' = canon c" if c: "map_of (record_of ''comments'' b) i = Some c"
  proof -
    have "same_as (look_up (record_of ''comments'' pending) i) c"
      using only map_of_SomeD [OF c] by (auto simp: changed_only_by_additions_def list_all_iff)
    then show ?thesis using equal [OF snapshots(2)] record_ok(2) [OF snapshots(1) map_of_SomeD [OF c]]
      by (auto simp: same_as_Own)
  qed
  assume c: "map_of (record_of ''comments'' pending) i = Some c \<and> i \<notin> set inherited_names"
  then have i: "comment_id c = i" "(i, c) \<in> set (record_of ''comments'' pending)"
    using comment_identity [OF snapshots(2)] by (auto dest: map_of_SomeD)
  show "map_of (record_of ''comments'' b) i \<noteq> None \<or> own_comment b remote subject i c"
  proof (cases "map_of (record_of ''comments'' b) i")
    case None
    then have missing: "look_up (record_of ''comments'' b) i = Undefined" using c by (simp add: look_up_def)
    then have author: "text_field ''authorId'' c = Some subject"
      using only i by (auto simp: changed_only_by_additions_def list_all_iff)
    then have "c \<in> set additions" using missing i by (force simp: additions_def comment_additions_def)
    from present [OF this] have "own_comment b remote subject i c"
      using equal [OF snapshots(3)] record_ok(2) [OF snapshots(2) i(2)] None author i(1)
      by (auto simp: own_comment_def same_as_Own)
    then show ?thesis ..
  qed simp
qed

text \<open>Only comments that an acknowledged candidate holds as they are leave the quarantine.\<close>

lemma rejectedCommentsAfterAcknowledgement_iff:
  "c \<in> set (rejectedCommentsAfterAcknowledgement rejected candidate)
    \<longleftrightarrow> c \<in> set rejected \<and> \<not> (\<exists>w. map_of candidate (comment_id c) = Some w \<and> jsonValuesEqual w c)"
  by (auto simp: rejectedCommentsAfterAcknowledgement_def same_as_Own)

end
