(* ===== verification/Collab_Samples.thy ===== *)
theory Collab_Samples
  imports Collab_Merge "HOL-Library.Code_Target_Numeral"
begin

text \<open>A canvas with one agent, renamed on one device and given a new title in the room, and a comment on it.\<close>

definition jtext :: "string \<Rightarrow> jv" where
  "jtext s = JvString (js s)"

definition sample_node :: "string \<Rightarrow> string \<Rightarrow> jv" where
  "sample_node name updated = JvObject
     [(js ''id'', jtext ''n''), (js ''type'', jtext ''agent''), (js ''title'', jtext name),
      (js ''position'', JvObject [(js ''x'', JvNumber (Number 10)), (js ''y'', JvNumber NegativeZero)]),
      (js ''updatedAt'', jtext updated)]"

definition sample_comment :: jv where
  "sample_comment = JvObject
     [(js ''id'', jtext ''c''), (js ''nodeId'', jtext ''n''), (js ''authorId'', jtext ''ann''), (js ''body'', jtext ''Looks good''),
      (js ''createdAt'', jtext ''2026-07-15T12:00:00.000Z'')]"

definition sample :: "string \<Rightarrow> rat \<Rightarrow> string \<Rightarrow> jv \<Rightarrow> (utf16 \<times> jv) list \<Rightarrow> jv" where
  "sample name version updated node comments = JvObject
     [(js ''canvas'', JvObject [(js ''id'', jtext ''canvas''), (js ''title'', jtext name),
        (js ''version'', JvNumber (Number version)), (js ''updatedAt'', jtext updated)]),
      (js ''nodes'', JvObject [(js ''n'', node)]), (js ''edges'', JvObject []), (js ''groups'', JvObject []),
      (js ''tasks'', JvObject []), (js ''comments'', JvObject comments), (js ''workflow'', JvObject []),
      (js ''reviews'', JvObject [])]"

definition noon :: string where "noon = ''2026-07-15T12:00:00.000Z''"
definition later :: string where "later = ''2026-07-15T12:01:00.000Z''"

definition base_sample :: jv where "base_sample = sample ''Canvas'' 1 noon (sample_node ''Agent'' noon) []"
definition local_sample :: jv where "local_sample = sample ''Canvas'' 2 later (sample_node ''Builder'' later) []"
definition room_sample :: jv where "room_sample = sample ''Plan'' 2 noon (sample_node ''Agent'' noon) []"
definition held_sample :: jv where "held_sample = sample ''Plan'' 3 noon (sample_node ''Builder'' noon) []"
definition commented :: jv where
  "commented = sample ''Canvas'' 1 noon (sample_node ''Agent'' noon) [(js ''c'', sample_comment)]"

lemma samples_read:
  "parse CollaborationMetadataSnapshotSchema base_sample = Some base_sample"
  "parse CollaborationMetadataSnapshotSchema local_sample = Some local_sample"
  "parse CollaborationMetadataSnapshotSchema room_sample = Some room_sample"
  "parse CollaborationMetadataSnapshotSchema held_sample = Some held_sample"
  "parse CollaborationMetadataSnapshotSchema commented = Some commented"
  by code_simp+

lemma samples_ok: "jv_ok base_sample" "jv_ok local_sample" "jv_ok room_sample" "jv_ok held_sample" "jv_ok commented"
  by code_simp+

lemma samples: "snapshot base_sample" "snapshot local_sample" "snapshot room_sample" "snapshot held_sample" "snapshot commented"
  using samples_read samples_ok by (auto simp: snapshot_def)

section \<open>Merging\<close>

definition small :: "jv list" where
  "small = [JvObject [(js ''a'', JvNull)], JvObject [(js ''a'', JvBool True)], JvObject [(js ''a'', JvNull), (js ''b'', JvBool False)]]"

lemma small_merges:
  "jv_ok (small ! 0)" "jv_ok (small ! 1)" "jv_ok (small ! 2)"
  "mergeValue (small ! 0) (small ! 1) (small ! 2) = Some (JvObject [(js ''a'', JvBool True), (js ''b'', JvBool False)])"
  by code_simp+

theorem mergeValue_correct_witness:
  "\<exists>m. mergeValue (small ! 0) (small ! 1) (small ! 2) = Some m \<and> jat (Some m) [js ''a''] = Some (JvBool True)
     \<and> (\<forall>p. three_way (at (Some (canon (small ! 0))) p) (at (Some (canon (small ! 1))) p) (at (Some (canon (small ! 2))) p)
          (at (Some (canon m)) p))"
  using mergeValue_correct [OF small_merges(1-3)] small_merges(4) by simp

definition title_path :: "utf16 list" where
  "title_path = [js ''nodes'', js ''n'', js ''title'']"

definition stamp_path :: "utf16 list" where
  "stamp_path = [js ''nodes'', js ''n'', js ''updatedAt'']"

definition canvas_title :: "utf16 list" where
  "canvas_title = [js ''canvas'', js ''title'']"

lemma sample_paths:
  "free_path title_path" "leaf base_sample title_path" "leaf local_sample title_path" "leaf room_sample title_path"
  "leaf held_sample title_path" "jat (Some base_sample) title_path = Some (jtext ''Agent'')"
  "jat (Some local_sample) title_path = Some (jtext ''Builder'')" "jat (Some room_sample) title_path = Some (jtext ''Agent'')"
  "jtext ''Builder'' \<noteq> jtext ''Agent''"
  by code_simp+

lemma sample_titles:
  "free_path canvas_title" "leaf base_sample canvas_title" "leaf local_sample canvas_title" "leaf room_sample canvas_title"
  "jat (Some base_sample) canvas_title = Some (jtext ''Canvas'')" "jat (Some local_sample) canvas_title = Some (jtext ''Canvas'')"
  "jat (Some room_sample) canvas_title = Some (jtext ''Plan'')"
  by code_simp+

lemma sample_merges: "mergeCollaborationIntent (Some base_sample) local_sample (Some room_sample) \<noteq> None"
  by code_simp

lemma sample_stamp_path:
  "off_revision stamp_path" "leaf base_sample stamp_path" "leaf local_sample stamp_path" "leaf room_sample stamp_path"
  "stamped base_sample base_sample stamp_path = Some (jtext noon)" "stamped base_sample local_sample stamp_path = Some (jtext noon)"
  "stamped base_sample room_sample stamp_path = Some (jtext noon)"
  by code_simp+

lemma sample_revisions:
  "revision_of base_sample = Some (Number 1, js noon)" "revision_of local_sample = Some (Number 2, js later)"
  "revision_of room_sample = Some (Number 2, js noon)" "max (js noon) (max (js later) (js noon)) = js later"
  by code_simp+

theorem mergeCollaborationIntent_correct_witness:
  "\<exists>s n. mergeCollaborationIntent (Some base_sample) local_sample (Some room_sample) = Some s \<and> snapshot s
     \<and> jat (Some s) title_path = Some (jtext ''Builder'') \<and> jat (Some s) canvas_title = Some (jtext ''Plan'')
     \<and> jat (Some s) stamp_path = Some (jtext noon) \<and> revision_of s = Some (n, js later) \<and> number_value n = 2"
proof -
  obtain s where s: "mergeCollaborationIntent (Some base_sample) local_sample (Some room_sample) = Some s" using sample_merges by blast
  with mergeCollaborationIntent_correct [OF samples(1-3)] have facts: "snapshot s"
    "\<exists>n t. joint_revision base_sample local_sample room_sample n t \<and> revision_of s = Some (n, t)"
    "\<And>p. off_revision p \<and> leaf base_sample p \<and> leaf local_sample p \<and> leaf room_sample p
      \<Longrightarrow> edit_kept (stamped base_sample base_sample p) (stamped base_sample local_sample p) (stamped base_sample room_sample p)
        (jat (Some s) p)" by auto
  then obtain n where n: "revision_of s = Some (n, js later)" "number_value n = 2"
    by (auto simp: joint_revision_def sample_revisions number_value_def)
  have paths: "off_revision title_path" "off_revision canvas_title" "free_path canvas_title"
    using sample_paths(1) sample_titles(1) by (simp_all add: free_path_def)
  have "jat (Some s) title_path = Some (jtext ''Builder'')"
    using facts(3) [of title_path] paths(1) sample_paths by (simp add: stamped_free [OF sample_paths(1)] edit_kept_def)
  moreover have "jat (Some s) canvas_title = Some (jtext ''Plan'')"
    using facts(3) [of canvas_title] paths sample_titles by (simp add: stamped_free [OF paths(3)] edit_kept_def)
  moreover have "jat (Some s) stamp_path = Some (jtext noon)"
    using facts(3) [of stamp_path] sample_stamp_path by (simp add: edit_kept_def)
  ultimately show ?thesis using s facts(1) n by blast
qed

section \<open>Surviving intent\<close>

lemma sample_survives: "collaborationIntentSurvives base_sample local_sample held_sample"
  by code_simp

theorem survivingIntent_in_room_witness:
  "jat (Some held_sample) title_path = jat (Some local_sample) title_path \<and> jat (Some local_sample) title_path \<noteq> jat (Some base_sample) title_path"
  using survivingIntent_in_room [OF samples(1,2,4) sample_survives sample_paths(1-3,5)] sample_paths(6-) by simp

lemma sample_stamps:
  "revision_of base_sample = Some (Number 1, js noon)" "revision_of local_sample = Some (Number 2, js later)" "js noon < js later"
  "jat (Some local_sample) ([js ''nodes'', js ''n''] @ [js ''updatedAt'']) = Some (JvString (js later))"
  "[js ''nodes'', js ''n''] \<noteq> []" "hd [js ''nodes'', js ''n''] \<noteq> js ''canvas''"
  by code_simp+

theorem restamped_room_not_recognised_witness:
  "\<not> collaborationIntentSurvives base_sample local_sample local_sample"
  by (rule restamped_room_not_recognised [OF samples(1,2) sample_stamps])

section \<open>Comments\<close>

lemma sample_recovers:
  "cr_satisfied (analyzeCollaborationCommentRecovery (Some base_sample) commented commented (js ''ann''))"
  "map_of (record_of ''comments'' commented) (js ''c'') = Some sample_comment" "js ''c'' \<notin> set inherited_names"
  "map_of (record_of ''comments'' base_sample) (js ''c'') = None"
  by code_simp+

theorem satisfied_comment_recovery_witness:
  "own_comment base_sample commented (js ''ann'') (js ''c'') sample_comment"
  using satisfied_comment_recovery [OF samples(1,5,5) sample_recovers(1)] sample_recovers(2-) by blast

end
