(* ===== verification/Spec2Isabelle.thy ===== *)
theory Spec2Isabelle
  imports Witnesses Git_Samples Outbound_Samples Audit_Samples Collab_Samples
begin

text \<open>
  A verification development for the workflow engine of Artemis, \<open>packages/core/src\<close>: the canvas data
  model (\<open>model/domain.ts\<close>), the validator, planner and node-run state machine (\<open>workflow/model.ts\<close>,
  \<open>workflow/gates.ts\<close>) and the execution runtime (\<open>workflow-runtime/\<close>). The engine is a library of
  pure functions: each takes the whole runtime of a run, a record of canvas, plan, run and evidence,
  and returns the next one or throws. Beside it stand the parsers of \<open>packages/git-engine\<close>, which read
  what git prints for the diff reviews and worktrees of a run, and of the desktop application's main
  process the two parts its promises to the user rest on: the gate every outbound action passes, and the
  audit log it writes to; and of its collaboration the merge of what a device changed into the shared room.

  \<^bold>\<open>How the code is modelled.\<close> Interfaces and object schemas are records, unions and enumerations are
  datatypes with the source's alternatives, and a zod schema is a predicate \<open>X_ok\<close> or, where the code
  parses, a function \<open>X_parse\<close>. A function that may throw returns \<open>'a res\<close>: \<open>Inl\<close> of the error it
  throws or \<open>Inr\<close> of its result, chained with \<open>res_bind\<close> in the order of the source, early exits
  included. Dictionaries keep their insertion order: \<open>'a obj\<close> is an association list in which each key
  occurs once (\<open>obj_ok\<close>), read by \<open>obj_get\<close> and written by \<open>obj_put\<close>. JavaScript integers are \<open>int\<close>,
  coordinates and costs, which no operation reads, \<open>rat\<close>; strings are lists of code units below 256.
  \<open>localeCompare\<close> is the root collation of these characters, an evidence fingerprint is the JSON text the
  code builds, and time stamps are ISO strings with their date arithmetic.

  \<^bold>\<open>Theories and sources.\<close>
    \<^item> \<open>Prelude\<close>, \<open>Js_Values\<close>, \<open>Iso_Time\<close>, \<open>Json\<close>: results, dictionaries, sets in insertion order, sorting,
      \<open>utils.ts\<close>, time stamps, canonical JSON.
    \<^item> \<open>Nodes\<close>, \<open>Domain\<close>: the node kinds, edges, loops, canvases and checks of \<open>model/domain.ts\<close>.
    \<^item> \<open>Run_State\<close>: node runs, transitions, aggregate status, cancellation, recovery and the
      revision-loop machine of \<open>workflow/model.ts\<close>; \<open>Gates\<close>: \<open>workflow/gates.ts\<close>.
    \<^item> \<open>Topology\<close>, \<open>Validation\<close>, \<open>Planning\<close>: the topological order, the validator and the planner of
      \<open>workflow/model.ts\<close>.
    \<^item> \<open>Run_Scope\<close>, \<open>Runtime\<close>: \<open>planning.ts\<close>, \<open>types.ts\<close>, \<open>schemas.ts\<close>: scopes, the scoped plan, runtimes.
    \<^item> \<open>Evidence_State\<close>, \<open>Evaluation\<close>: the readers of \<open>evidence-state.ts\<close> and \<open>evaluation.ts\<close>.
    \<^item> \<open>Frame\<close>, \<open>Scheduling\<close>, \<open>Lifecycle\<close>: \<open>scheduling.ts\<close>, and what its operations leave alone.
    \<^item> \<open>Evidence\<close>, \<open>Recording\<close>, \<open>Reviewing\<close>: \<open>evidence.ts\<close>; \<open>Revisions\<close>, \<open>Attempts\<close>, \<open>Escape\<close>:
      \<open>revisions.ts\<close>.
    \<^item> \<open>State_Schema\<close>, \<open>Storage\<close>: \<open>state-schema.ts\<close>, and which runtimes can be read back from storage.
    \<^item> \<open>Engine\<close>: the interface \<open>index.ts\<close> exports, as actions, and executions as sequences of actions.
    \<^item> \<open>Js_Text\<close>: UTF-16 texts, splitting, decimal numerals, UTF-8.
    \<^item> \<open>Git_Diff\<close>, \<open>Git_Patches\<close>, \<open>Git_Selection\<close>: \<open>diff/parser.ts\<close> of the git engine, what its parser
      keeps of a diff, and patches of selected hunks; \<open>Git_Status\<close>: \<open>repository/status-parser.ts\<close>;
      \<open>Git_Samples\<close>: a diff and a status on which their properties are instantiated.
    \<^item> \<open>Json_Text\<close>: \<open>JSON.stringify\<close> of texts, and that it and UTF-8 lose nothing.
    \<^item> \<open>Outbound_Gate\<close>, \<open>Outbound_Safety\<close>, \<open>Outbound_Samples\<close>: \<open>outbound/outbound-action-gate.ts\<close>; what a
      waiting confirmation resumes with is a step of its own, so operations interleave.
    \<^item> \<open>Audit_Chain\<close>, \<open>Audit_Integrity\<close>, \<open>Audit_Samples\<close>: \<open>storage/security/audit-integrity.ts\<close>, its tables as
      lists and the schema's constraints as errors of the statements.
    \<^item> \<open>Json_Merge\<close>, \<open>Collab_Sync\<close>, \<open>Collab_Merge\<close>, \<open>Collab_Samples\<close>: \<open>sync/three-way.ts\<close> and
      \<open>sync/rejected-comments.ts\<close> of the renderer and \<open>shared/collaboration/sync/comment-intent.ts\<close>;
      \<open>Collab_Schema\<close>: \<open>shared/collaboration/metadata-contracts.ts\<close>, with zod schemas as values that
      \<open>parse\<close> reads.
    \<^item> \<open>Samples\<close>, \<open>Scenarios\<close>, \<open>Witnesses\<close>: concrete canvases and runs on which the properties with
      hypotheses are instantiated.

  \<^bold>\<open>Interfaces.\<close> What an operation of the runtime owes its callers is stated as locales: it keeps the
  shape of the runtime and moves it only forward (\<open>run_operation\<close>), starts nothing
  (\<open>idle_operation\<close>), keeps a stored runtime readable (\<open>storing_operation\<close>, \<open>quiet_operation\<close>,
  \<open>recording_operation\<close>), and keeps capacity and loop bounds at a known number of started attempts
  (\<open>engine_operation\<close>, \<open>loopless_operation\<close>). Every operation of the engine is an interpretation, and the
  properties of executions follow from the contract alone. The operations of the outbound gate that run no
  action share the contract \<open>calm_operation\<close>.

  \<^bold>\<open>What is shown.\<close>
    \<^item> Validation and planning: the validator decides a declarative well-formedness; a plan selects
      exactly the requested nodes in ordered, resource-bounded stages; planning fails exactly where
      stated; the topological order terminates and is independent of the input order.
    \<^item> Node runs and loops: transitions preserve the schema, attempts never decrease, a loop never
      exceeds its maximum attempts.
    \<^item> Evaluation and gates: edges, nodes and gates are released exactly when their declarative
      conditions hold, on evidence of the present attempts only.
    \<^item> Operations: each of scheduling, recording, review, revision and escape, with its effect, its
      frame and its errors; settling cancels, round by round, exactly the nodes blocked for good, and a new
      attempt drops exactly the evidence about it.
    \<^item> Storage: exactly which runtimes the stored schema accepts, and that executions stay inside it.
    \<^item> Executions: whatever the order of operations, shape, capacity and loop bounds are kept, and
      revising ends.
    \<^item> Git output: a parsed diff keeps every line, numbers its lines as the hunk headers say, and a patch
      of selected hunks reads back as those hunks; a status reads back as the records git wrote.
    \<^item> Outbound actions: whatever operations and answers interleave, an action runs only for a plan that was
      shown, approved, compared, unexpired and audited, once; owners are kept apart and plans bounded.
    \<^item> The audit log: its own operations never break it, append accepts exactly what it should and retention
      leaves an exact record of what it removed; two logs with the same head and anchor hold the same events
      unless digests of theirs collide or one of them has the anchor's.
    \<^item> Shared canvases: a merge keeps the edits of both sides at every path and fails exactly on conflicts or
      where the schema refuses the result;
      an intent said to survive is in the room, and a satisfied recovery of comments loses none. One defect
      is stated as well: a room that equals the local canvas may not be recognised as holding its edits.

  \<^bold>\<open>Bounds and fuel.\<close> Loops over a shrinking set (the topological order, plan packing, closures,
  settling) are functions with a termination proof or iterate as often as there are nodes, with the
  proof that this reaches the fixed point. The effective status of a node recurs along agent review
  edges with one unit of fuel more than there are edges; on a well-formed canvas review edges are
  acyclic and the fuel is never used up (\<open>canvasNodeStatus_unfold\<close>). A status that would need more is
  the stack overflow the code would cause.

  \<^bold>\<open>Parameters.\<close> The host verifies artifacts of evidence (\<open>evidence_verifier\<close>) and tells which processes are
  alive; both are arguments of the operations that use them. The digest SHA-256 is an argument of the
  diff parser, the outbound gate and the audit log. The gate's clock, identifiers and audit sink answer as
  functions of all that happened before; the redaction of audit metadata is a function that leaves redacted
  metadata alone. Numbers read from a text are the numbers its digits denote, as in JavaScript up to
  \<open>2 ^ 53\<close>.

  \<^bold>\<open>Not modelled.\<close> Of \<open>packages/core\<close>: project, task, session, snapshot and collaboration records, settings
  and persistence interfaces, which the engine never reads, and path checks that rest on the file
  system. Of the git engine: remotes, whose addresses are read with the URL class, submodules, and the
  services that drive the git executable. Of the desktop application: everything but the outbound
  gate, the audit log and the merge of shared canvases, that is, process launching, other tables of the
  database, network servers and the user interface. An outbound permit is an opaque constant, and which
  patterns redact a text is not modelled. Objects of JSON values treat array indices and \<open>__proto__\<close> as
  ordinary names.
\<close>

end
